(* ===== verification/Zw_Prelude.thy ===== *)
theory Zw_Prelude
  imports Main "HOL-Library.Word"
begin

text \<open>
  Shared vocabulary of the development: the machine types of the daemon's code, the
  conversions between wider integers and bytes that every codec performs, the named
  collections the component proofs draw on, and the interfaces that several components share
  (a wire codec with its round-trip law, a decoder that is guarded by a command-class header,
  and a component that reacts to events one at a time).
\<close>

unbundle bit_operations_syntax

section \<open>Machine types\<close>

type_synonym byte = "8 word"
type_synonym bytes = "byte list"
type_synonym u16 = "16 word"
type_synonym u32 = "32 word"
type_synonym i32 = "32 word"

text \<open>
  A \<open>std::int32_t\<close> is a \<open>32 word\<close> read with \<open>sint\<close>; a conversion between
  \<open>std::int32_t\<close> and \<open>std::uint32_t\<close> is then the identity. A \<open>std::size_t\<close> is
  a \<open>nat\<close>: the sizes of the program stay far below its range.
\<close>

text \<open>Indexing a vector or span out of range is undefined behaviour; the model makes it a fault.\<close>

datatype fault = OutOfBounds

named_theorems wire_simps \<open>equations that unfold a codec of the program\<close>
named_theorems bound_simps \<open>bounds on values read from the wire\<close>

section \<open>Bytes of wider integers\<close>

text \<open>
  \<open>hi8\<close> and \<open>lo8\<close> are \<open>static_cast<uint8_t>((w >> 8) & 0xFF)\<close> and
  \<open>static_cast<uint8_t>(w & 0xFF)\<close>; \<open>be16\<close> is \<open>(h << 8) | l\<close>.
\<close>

definition hi8 :: "u16 \<Rightarrow> byte" where
  "hi8 w = ucast (drop_bit 8 w AND 0xFF)"

definition lo8 :: "u16 \<Rightarrow> byte" where
  "lo8 w = ucast (w AND 0xFF)"

definition be16 :: "byte \<Rightarrow> byte \<Rightarrow> u16" where
  "be16 h l = push_bit 8 (ucast h) OR ucast l"

lemma bit_255_int_iff: "bit (255 :: int) n \<longleftrightarrow> n < 8"
proof -
  have "(255 :: int) = mask 8"
    by (simp add: mask_eq_exp_minus_1)
  then show ?thesis
    by (simp only: bit_mask_iff) simp
qed

lemma be16_hi_lo [simp]: "be16 (hi8 w) (lo8 w) = w"
  by (rule bit_word_eqI) (auto simp: be16_def hi8_def lo8_def bit_simps bit_255_int_iff)

lemma hi8_be16 [simp]: "hi8 (be16 h l) = h"
  by (rule bit_word_eqI) (auto simp: be16_def hi8_def bit_simps bit_255_int_iff dest: bit_imp_le_length)

lemma lo8_be16 [simp]: "lo8 (be16 h l) = l"
  by (rule bit_word_eqI) (auto simp: be16_def lo8_def bit_simps bit_255_int_iff dest: bit_imp_le_length)

lemma be16_inject [simp]: "be16 h l = be16 h' l' \<longleftrightarrow> h = h' \<and> l = l'"
  by (metis hi8_be16 lo8_be16)

lemma unat_byte_lt [simp]: "unat (b :: byte) < 256"
  using unsigned_less [of b] by simp

lemma unat_byte_le [simp]: "unat (b :: byte) \<le> 255"
  using unat_byte_lt [of b] by linarith

lemma unat_of_nat_byte: "n < 256 \<Longrightarrow> unat (of_nat n :: byte) = n"
  by (simp add: unat_of_nat)

lemma and_eq_0_bit_iff: "(w :: 'a::len word) AND 2 ^ k = 0 \<longleftrightarrow> \<not> bit w k"
  by (metis and_exp_eq_0_iff_not_bit)

section \<open>Lists\<close>

text \<open>\<open>span.subspan(off, len)\<close> and the range \<open>[first, last)\<close> of a buffer.\<close>

definition subspan :: "'a list \<Rightarrow> nat \<Rightarrow> nat \<Rightarrow> 'a list" where
  "subspan xs off len = take len (drop off xs)"

lemma length_subspan [simp]: "off + len \<le> length xs \<Longrightarrow> length (subspan xs off len) = len"
  by (simp add: subspan_def)

lemma length_ge2_conv: "2 \<le> length xs \<longleftrightarrow> (\<exists>a b ys. xs = a # b # ys)"
  by (cases xs; cases "tl xs") auto

lemma map_nth_butlast_last: "xs \<noteq> [] \<Longrightarrow> xs ! (length xs - 1) = last xs"
  by (simp add: last_conv_nth)

lemma filter_length_list_all2:
  "list_all2 (\<lambda>a k. a \<longrightarrow> Q k) as ks \<Longrightarrow> length (filter id as) \<le> length (filter Q ks)"
  by (induction as ks rule: list_all2_induct) auto

text \<open>A buffer of \<open>n\<close> zero bytes into which a library call writes.\<close>

definition writtenInto :: "nat \<Rightarrow> bytes \<Rightarrow> bytes" where
  "writtenInto n bs = take n (bs @ replicate n 0)"

lemma length_writtenInto [simp]: "length (writtenInto n bs) = n"
  by (simp add: writtenInto_def)

lemma writtenInto_exact: "length bs = n \<Longrightarrow> writtenInto n bs = bs"
  by (simp add: writtenInto_def)

section \<open>XOR folds\<close>

text \<open>The running XOR of the serial checksum.\<close>

definition xor_fold :: "byte \<Rightarrow> bytes \<Rightarrow> byte" where
  "xor_fold a bs = fold (\<lambda>b acc. acc XOR b) bs a"

lemma xor_fold_simps [simp]:
  "xor_fold a [] = a"
  "xor_fold a (b # bs) = xor_fold (a XOR b) bs"
  by (simp_all add: xor_fold_def)

lemma xor_fold_append [simp]: "xor_fold a (xs @ ys) = xor_fold (xor_fold a xs) ys"
  by (simp add: xor_fold_def)

lemma xor_fold_seed: "xor_fold (a XOR b) xs = a XOR xor_fold b xs"
  by (induction xs arbitrary: a b) (simp_all add: xor.assoc)

lemma xor_right_cancel_word [simp]: "(a :: 'a::len word) XOR b = c XOR b \<longleftrightarrow> a = c"
  by (metis xor.assoc xor.right_neutral xor_self_eq)

lemma xor_left_cancel_word [simp]: "(b :: 'a::len word) XOR a = b XOR c \<longleftrightarrow> a = c"
  by (metis xor.commute xor_right_cancel_word)

lemma xor_fold_inject_seed [simp]: "xor_fold a xs = xor_fold b xs \<longleftrightarrow> a = b"
  by (induction xs arbitrary: a b) simp_all

text \<open>Changing one byte of the input changes the XOR.\<close>

lemma xor_fold_update:
  assumes "i < length xs" and "xor_fold a (xs[i := y]) = xor_fold a xs"
  shows "y = xs ! i"
proof -
  have "xs[i := y] = take i xs @ y # drop (Suc i) xs"
    using assms(1) by (simp add: upd_conv_take_nth_drop)
  moreover have "xs = take i xs @ xs ! i # drop (Suc i) xs"
    using assms(1) by (simp add: id_take_nth_drop)
  ultimately have
    "xor_fold (xor_fold a (take i xs) XOR y) (drop (Suc i) xs) =
     xor_fold (xor_fold a (take i xs) XOR (xs ! i)) (drop (Suc i) xs)"
    using assms(2) by (metis xor_fold_append xor_fold_simps(2))
  then show ?thesis by simp
qed

section \<open>Interface: a wire codec\<close>

text \<open>
  An encoder and a decoder of the same frame, related on the values the frame can carry.
\<close>

locale wire_codec =
  fixes enc :: "'a \<Rightarrow> bytes"
    and dec :: "bytes \<Rightarrow> 'a option"
    and ok :: "'a \<Rightarrow> bool"
  assumes dec_enc: "ok x \<Longrightarrow> dec (enc x) = Some x"
begin

lemma enc_inject: "ok x \<Longrightarrow> ok y \<Longrightarrow> enc x = enc y \<longleftrightarrow> x = y"
  by (metis dec_enc option.inject)

lemma inj_on_enc: "inj_on enc {x. ok x}"
  by (auto simp: inj_on_def enc_inject)

lemma decoded_from: "ok x \<Longrightarrow> ok y \<Longrightarrow> dec (enc x) = Some y \<Longrightarrow> enc y = enc x"
  by (simp add: dec_enc)

end

section \<open>Interface: a decoder behind a command-class header\<close>

text \<open>
  Every application decoder first checks a minimal length, the command-class byte and the
  command byte. Two decoders whose headers differ therefore never accept the same payload.
\<close>

definition has_header :: "byte \<Rightarrow> byte \<Rightarrow> bytes \<Rightarrow> bool" where
  "has_header cc cmd p \<longleftrightarrow> 2 \<le> length p \<and> p ! 0 = cc \<and> p ! 1 = cmd"

locale headed_decoder =
  fixes dec :: "bytes \<Rightarrow> 'a option"
    and cc :: byte
    and cmd :: byte
  assumes accepts_headed: "dec p = Some r \<Longrightarrow> has_header cc cmd p"
begin

lemma accepted_headed: "dec p \<noteq> None \<longrightarrow> has_header cc cmd p"
  by (metis accepts_headed not_Some_eq)

lemma rejects_other_header: "\<not> has_header cc cmd p \<Longrightarrow> dec p = None"
  by (metis accepts_headed not_Some_eq)

lemma rejects_other_command: "has_header cc' cmd' p \<Longrightarrow> (cc', cmd') \<noteq> (cc, cmd) \<Longrightarrow> dec p = None"
  by (rule rejects_other_header) (auto simp: has_header_def)

lemma rejects_short: "length p < 2 \<Longrightarrow> dec p = None"
  by (rule rejects_other_header) (simp add: has_header_def)

end

lemma has_header_unique:
  "has_header cc cmd p \<Longrightarrow> has_header cc' cmd' p \<Longrightarrow> cc = cc' \<and> cmd = cmd'"
  by (auto simp: has_header_def)

section \<open>Reactors\<close>

text \<open>
  The handlers of a component react to events one at a time: each takes the state and returns what it
  publishes with the new state. A run feeds a list of events and collects the publications.
\<close>

fun runSteps :: "('e \<Rightarrow> 's \<Rightarrow> 'o list \<times> 's) \<Rightarrow> 'e list \<Rightarrow> 's \<Rightarrow> 'o list \<times> 's" where
  "runSteps step [] s = ([], s)"
| "runSteps step (e # es) s =
     (case step e s of (out, s1) \<Rightarrow> (case runSteps step es s1 of (out2, s2) \<Rightarrow> (out @ out2, s2)))"

lemma runSteps_append:
  "runSteps step (es @ fs) s =
     (case runSteps step es s of (out, s1) \<Rightarrow> (case runSteps step fs s1 of (out2, s2) \<Rightarrow> (out @ out2, s2)))"
  by (induction es arbitrary: s) (auto split: prod.splits)

lemma runSteps_out: "fst (runSteps step (e # es) s) = fst (step e s) @ fst (runSteps step es (snd (step e s)))"
  by (simp split: prod.splits)

lemma runSteps_state: "snd (runSteps step (e # es) s) = snd (runSteps step es (snd (step e s)))"
  by (simp split: prod.splits)

text \<open>
  A state invariant that the handlers of some kinds of events keep, and what it implies for every
  publication they make.
\<close>

locale reactor =
  fixes step :: "'e \<Rightarrow> 's \<Rightarrow> 'o list \<times> 's"
    and admits :: "'e \<Rightarrow> bool"
    and inv :: "'s \<Rightarrow> bool"
    and allowed :: "'o \<Rightarrow> bool"
  assumes step_inv: "admits e \<Longrightarrow> inv s \<Longrightarrow> inv (snd (step e s))"
    and step_allowed: "admits e \<Longrightarrow> inv s \<Longrightarrow> \<forall>out \<in> set (fst (step e s)). allowed out"
begin

lemma run_inv: "list_all admits es \<Longrightarrow> inv s \<Longrightarrow> inv (snd (runSteps step es s))"
  by (induction es arbitrary: s) (simp_all add: runSteps_state step_inv del: runSteps.simps(2))

lemma run_allowed: "list_all admits es \<Longrightarrow> inv s \<Longrightarrow> \<forall>out \<in> set (fst (runSteps step es s)). allowed out"
proof (induction es arbitrary: s)
  case (Cons e es)
  then have "inv (snd (step e s))" "list_all admits es" "admits e" by (simp_all add: step_inv)
  with Cons.IH step_allowed [of e s] Cons.prems(2) show ?case unfolding runSteps_out by auto
qed simp

end

section \<open>Tables with a primary key\<close>

text \<open>\<open>INSERT OR REPLACE\<close> and \<open>DELETE\<close> on a table with a primary key.\<close>

definition insertOrReplace :: "'k \<Rightarrow> 'v \<Rightarrow> ('k \<times> 'v) list \<Rightarrow> ('k \<times> 'v) list" where
  "insertOrReplace k v rows = (k, v) # filter (\<lambda>r. fst r \<noteq> k) rows"

definition deleteKey :: "'k \<Rightarrow> ('k \<times> 'v) list \<Rightarrow> ('k \<times> 'v) list" where
  "deleteKey k rows = filter (\<lambda>r. fst r \<noteq> k) rows"

lemma map_of_deleteKey: "map_of (deleteKey k rows) = (map_of rows)(k := None)"
  by (induction rows) (auto simp: deleteKey_def fun_eq_iff)

lemma map_of_insertOrReplace: "map_of (insertOrReplace k v rows) = (map_of rows)(k \<mapsto> v)"
  using map_of_deleteKey [of k rows] by (simp add: insertOrReplace_def deleteKey_def)

lemma keys_insertOrReplace:
  "distinct (map fst rows) \<Longrightarrow> distinct (map fst (insertOrReplace k v rows))"
  by (auto simp: insertOrReplace_def distinct_map inj_on_def)

lemma keys_deleteKey: "distinct (map fst rows) \<Longrightarrow> distinct (map fst (deleteKey k rows))"
  by (auto simp: deleteKey_def distinct_map inj_on_def)

text \<open>
  \<open>toHex\<close>, of which \<open>SpanStore.cpp\<close> and \<open>NodeValues.cpp\<close> have the same copy: the home id as
  two lower-case digits for every byte.
\<close>

definition toHex :: "bytes \<Rightarrow> string" where
  "toHex bs = concat (map (\<lambda>b. [''0123456789abcdef'' ! unat (drop_bit 4 b), ''0123456789abcdef'' ! unat (b AND 0x0F)]) bs)"

section \<open>Keyed stores\<close>

text \<open>What the clients of a persistent store rely on: what was stored under a key is found there, whatever
  is stored under other keys.\<close>

locale keyed_store =
  fixes ok :: "'r \<Rightarrow> bool"
    and fits :: "'p \<Rightarrow> bool"
    and put :: "'k \<Rightarrow> 'p \<Rightarrow> 'r \<Rightarrow> 'r"
    and del :: "'k \<Rightarrow> 'r \<Rightarrow> 'r"
    and get :: "'k \<Rightarrow> 'r \<Rightarrow> 'p option"
  assumes put_ok: "ok r \<Longrightarrow> ok (put k p r)"
    and get_put: "ok r \<Longrightarrow> fits p \<Longrightarrow> get j (put k p r) = (if j = k then Some p else get j r)"
    and get_del: "ok r \<Longrightarrow> get j (del k r) = (if j = k then None else get j r)"
begin

lemma last_put_wins: "ok r \<Longrightarrow> fits p \<Longrightarrow> get k (put k p (put k q r)) = Some p"
  by (simp add: get_put put_ok)

lemma put_commute: "ok r \<Longrightarrow> fits p \<Longrightarrow> fits q \<Longrightarrow> j \<noteq> k \<Longrightarrow> get i (put j p (put k q r)) = get i (put k q (put j p r))"
  by (simp add: get_put put_ok)

lemma puts_ok: "ok r \<Longrightarrow> ok (fold (\<lambda>(k, p). put k p) kvs r)"
  by (induction kvs arbitrary: r) (auto simp: put_ok)

lemma get_puts:
  "ok r \<Longrightarrow> list_all (\<lambda>kv. fits (snd kv)) kvs \<Longrightarrow>
   get j (fold (\<lambda>(k, p). put k p) kvs r) = (case map_of (rev kvs) j of None \<Rightarrow> get j r | Some p \<Rightarrow> Some p)"
proof (induction kvs rule: rev_induct)
  case (snoc kv kvs)
  obtain k p where kv: "kv = (k, p)" by (cases kv)
  have "ok (fold (\<lambda>(k, p). put k p) kvs r)" using puts_ok [OF snoc.prems(1)] .
  then show ?case using snoc kv by (simp add: get_put)
qed simp

end

end
