(* ===== verification/Encoded_Value.thy ===== *)
theory Encoded_Value
  imports Zw_Prelude
begin

text \<open>
  Signed values of one, two or four bytes, as several command classes carry them:
  \<open>EncodedValue\<close> (shared by Sensor Multilevel and Thermostat Setpoint),
  \<open>Configuration\<close> and \<open>Meter\<close>, under
  \<open>src/src/zwave-protocol/application\<close>. The three files have the same helper functions
  \<open>isValidSize\<close>, \<open>signBit\<close> and \<open>valueMask\<close>; they are defined once here. Command
  bytes are the constants that the build generates from \<open>InterfaceManifest.yml\<close>.
\<close>

section \<open>The sz field\<close>

definition SIZE_1_BYTE :: byte where "SIZE_1_BYTE = 1"
definition SIZE_2_BYTE :: byte where "SIZE_2_BYTE = 2"
definition SIZE_4_BYTE :: byte where "SIZE_4_BYTE = 4"

definition isValidSize :: "byte \<Rightarrow> bool" where
  "isValidSize sz \<longleftrightarrow> sz = SIZE_1_BYTE \<or> sz = SIZE_2_BYTE \<or> sz = SIZE_4_BYTE"

definition signBit :: "byte \<Rightarrow> u32" where
  "signBit sz = push_bit (unat sz * 8 - 1) 1"

definition valueMask :: "byte \<Rightarrow> u32" where
  "valueMask sz = (if sz = SIZE_4_BYTE then NOT 0 else push_bit (unat sz * 8) 1 - 1)"

text \<open>The loop that reads a big-endian field, and the sign extension behind it.\<close>

definition readRaw :: "bytes \<Rightarrow> u32" where
  "readRaw bs = foldl (\<lambda>raw b. push_bit 8 raw OR ucast b) 0 bs"

definition signExtend :: "byte \<Rightarrow> u32 \<Rightarrow> i32" where
  "signExtend sz raw = (if raw AND signBit sz \<noteq> 0 then raw OR NOT (valueMask sz) else raw)"

text \<open>The loop that writes the low \<open>sz\<close> bytes of a value, most significant first.\<close>

definition writeRaw :: "byte \<Rightarrow> u32 \<Rightarrow> bytes" where
  "writeRaw sz raw =
     map (\<lambda>i. ucast (drop_bit ((unat sz - 1 - i) * 8) raw AND 0xFF)) [0 ..< unat sz]"

lemmas size_const_defs = SIZE_1_BYTE_def SIZE_2_BYTE_def SIZE_4_BYTE_def

section \<open>EncodedValue\<close>

definition FLAG_SIZE_MASK :: byte where "FLAG_SIZE_MASK = 0x07"
definition FLAG_SCALE_MASK :: byte where "FLAG_SCALE_MASK = 0x18"
definition FLAG_SCALE_SHIFT :: nat where "FLAG_SCALE_SHIFT = 3"
definition FLAG_PRECISION_MASK :: byte where "FLAG_PRECISION_MASK = 0xE0"
definition FLAG_PRECISION_SHIFT :: nat where "FLAG_PRECISION_SHIFT = 5"
definition SCALE_FIELD_MASK :: byte where "SCALE_FIELD_MASK = 0x03"
definition PRECISION_FIELD_MASK :: byte where "PRECISION_FIELD_MASK = 0x07"

lemmas flag_const_defs = FLAG_SIZE_MASK_def FLAG_SCALE_MASK_def FLAG_SCALE_SHIFT_def
  FLAG_PRECISION_MASK_def FLAG_PRECISION_SHIFT_def SCALE_FIELD_MASK_def PRECISION_FIELD_MASK_def

record Decoded =
  dv_size :: byte
  dv_scale :: byte
  dv_precision :: byte
  dv_value :: i32

definition EncodedValue_decode :: "byte \<Rightarrow> bytes \<Rightarrow> Decoded option" where
  "EncodedValue_decode flags valueBytes =
     (let sz = flags AND FLAG_SIZE_MASK in
      if \<not> isValidSize sz \<or> length valueBytes < unat sz then None
      else Some \<lparr>dv_size = sz,
                 dv_scale = drop_bit FLAG_SCALE_SHIFT (flags AND FLAG_SCALE_MASK),
                 dv_precision = drop_bit FLAG_PRECISION_SHIFT (flags AND FLAG_PRECISION_MASK),
                 dv_value = signExtend sz (readRaw (take (unat sz) valueBytes))\<rparr>)"

definition encodedSize :: "i32 \<Rightarrow> byte" where
  "encodedSize v =
     (if sint v \<ge> - 128 \<and> sint v \<le> 127 then SIZE_1_BYTE
      else if sint v \<ge> - 32768 \<and> sint v \<le> 32767 then SIZE_2_BYTE
      else SIZE_4_BYTE)"

definition packFlags :: "byte \<Rightarrow> byte \<Rightarrow> byte \<Rightarrow> byte" where
  "packFlags precision scale sz =
     push_bit FLAG_PRECISION_SHIFT (precision AND PRECISION_FIELD_MASK)
     OR push_bit FLAG_SCALE_SHIFT (scale AND SCALE_FIELD_MASK) OR sz"

definition EncodedValue_encode :: "byte \<Rightarrow> byte \<Rightarrow> i32 \<Rightarrow> bytes" where
  "EncodedValue_encode precision scale v =
     (let sz = encodedSize v in packFlags precision scale sz # writeRaw sz v)"

section \<open>Sensor Multilevel and Thermostat Setpoint\<close>

definition CC_SENSOR_MULTILEVEL :: byte where "CC_SENSOR_MULTILEVEL = 0x31"
definition SENSOR_MULTILEVEL_REPORT :: byte where "SENSOR_MULTILEVEL_REPORT = 0x05"
definition CC_THERMOSTAT_SETPOINT :: byte where "CC_THERMOSTAT_SETPOINT = 0x43"
definition THERMOSTAT_SETPOINT_SET :: byte where "THERMOSTAT_SETPOINT_SET = 0x01"
definition THERMOSTAT_SETPOINT_GET :: byte where "THERMOSTAT_SETPOINT_GET = 0x02"
definition THERMOSTAT_SETPOINT_REPORT :: byte where "THERMOSTAT_SETPOINT_REPORT = 0x03"
definition SETPOINT_TYPE_MASK :: byte where "SETPOINT_TYPE_MASK = 0x0F"

record SensorMultilevel_Report =
  sml_sensorType :: byte
  sml_scale :: byte
  sml_precision :: byte
  sml_value :: i32

definition SensorMultilevel_decodeReport :: "bytes \<Rightarrow> SensorMultilevel_Report option" where
  "SensorMultilevel_decodeReport p =
     (if length p < 4 \<or> p ! 0 \<noteq> CC_SENSOR_MULTILEVEL \<or> p ! 1 \<noteq> SENSOR_MULTILEVEL_REPORT then None
      else case EncodedValue_decode (p ! 3) (drop 4 p) of
          None \<Rightarrow> None
        | Some d \<Rightarrow> Some \<lparr>sml_sensorType = p ! 2, sml_scale = dv_scale d,
                          sml_precision = dv_precision d, sml_value = dv_value d\<rparr>)"

record ThermostatSetpoint_Report =
  tsp_setpointType :: byte
  tsp_scale :: byte
  tsp_precision :: byte
  tsp_value :: i32

definition ThermostatSetpoint_encodeSet :: "byte \<Rightarrow> byte \<Rightarrow> byte \<Rightarrow> i32 \<Rightarrow> bytes" where
  "ThermostatSetpoint_encodeSet setpointType precision scale v =
     [CC_THERMOSTAT_SETPOINT, THERMOSTAT_SETPOINT_SET, setpointType AND SETPOINT_TYPE_MASK]
       @ EncodedValue_encode precision scale v"

definition ThermostatSetpoint_encodeGet :: "byte \<Rightarrow> bytes" where
  "ThermostatSetpoint_encodeGet setpointType =
     [CC_THERMOSTAT_SETPOINT, THERMOSTAT_SETPOINT_GET, setpointType AND SETPOINT_TYPE_MASK]"

definition ThermostatSetpoint_decodeReport :: "bytes \<Rightarrow> ThermostatSetpoint_Report option" where
  "ThermostatSetpoint_decodeReport p =
     (if length p < 4 \<or> p ! 0 \<noteq> CC_THERMOSTAT_SETPOINT \<or> p ! 1 \<noteq> THERMOSTAT_SETPOINT_REPORT then None
      else case EncodedValue_decode (p ! 3) (drop 4 p) of
          None \<Rightarrow> None
        | Some d \<Rightarrow> Some \<lparr>tsp_setpointType = p ! 2 AND SETPOINT_TYPE_MASK, tsp_scale = dv_scale d,
                          tsp_precision = dv_precision d, tsp_value = dv_value d\<rparr>)"

section \<open>Configuration\<close>

definition CC_CONFIGURATION :: byte where "CC_CONFIGURATION = 0x70"
definition CONFIGURATION_SET :: byte where "CONFIGURATION_SET = 0x04"
definition CONFIGURATION_GET :: byte where "CONFIGURATION_GET = 0x05"
definition CONFIGURATION_REPORT :: byte where "CONFIGURATION_REPORT = 0x06"

record Configuration_Report =
  cfg_parameter :: byte
  cfg_size :: byte
  cfg_value :: i32

definition Configuration_encodeSet :: "byte \<Rightarrow> byte \<Rightarrow> i32 \<Rightarrow> bytes" where
  "Configuration_encodeSet parameter sz v =
     (if \<not> isValidSize sz then []
      else [CC_CONFIGURATION, CONFIGURATION_SET, parameter, sz] @ writeRaw sz v)"

definition Configuration_encodeGet :: "byte \<Rightarrow> bytes" where
  "Configuration_encodeGet parameter = [CC_CONFIGURATION, CONFIGURATION_GET, parameter]"

definition Configuration_decodeReport :: "bytes \<Rightarrow> Configuration_Report option" where
  "Configuration_decodeReport p =
     (if length p < 4 \<or> p ! 0 \<noteq> CC_CONFIGURATION \<or> p ! 1 \<noteq> CONFIGURATION_REPORT then None
      else let sz = p ! 3 in
        if \<not> isValidSize sz then None
        else if length p < 4 + unat sz then None
        else Some \<lparr>cfg_parameter = p ! 2, cfg_size = sz,
                   cfg_value = signExtend sz (readRaw (subspan p 4 (unat sz)))\<rparr>)"

section \<open>Meter\<close>

definition CC_METER :: byte where "CC_METER = 0x32"
definition METER_GET :: byte where "METER_GET = 0x01"
definition METER_REPORT :: byte where "METER_REPORT = 0x02"
definition PROP1_METER_TYPE_MASK :: byte where "PROP1_METER_TYPE_MASK = 0x1F"
definition PROP1_RATE_TYPE_MASK :: byte where "PROP1_RATE_TYPE_MASK = 0x60"
definition PROP1_RATE_TYPE_SHIFT :: nat where "PROP1_RATE_TYPE_SHIFT = 5"
definition PROP1_SCALE_BIT2_MASK :: byte where "PROP1_SCALE_BIT2_MASK = 0x80"
definition GET_SCALE_MASK :: byte where "GET_SCALE_MASK = 0x03"
definition GET_SCALE_SHIFT :: nat where "GET_SCALE_SHIFT = 3"

lemmas meter_const_defs = CC_METER_def METER_GET_def METER_REPORT_def PROP1_METER_TYPE_MASK_def
  PROP1_RATE_TYPE_MASK_def PROP1_RATE_TYPE_SHIFT_def PROP1_SCALE_BIT2_MASK_def GET_SCALE_MASK_def
  GET_SCALE_SHIFT_def

record Meter_Report =
  mtr_meterType :: byte
  mtr_rateType :: byte
  mtr_scale :: byte
  mtr_precision :: byte
  mtr_value :: i32
  mtr_deltaTime :: u16
  mtr_previousValue :: i32
  mtr_hasPrevious :: bool

definition Meter_readSigned :: "bytes \<Rightarrow> nat \<Rightarrow> byte \<Rightarrow> i32" where
  "Meter_readSigned p offset sz = signExtend sz (readRaw (subspan p offset (unat sz)))"

definition Meter_encodeGet :: "byte \<Rightarrow> bytes" where
  "Meter_encodeGet scale = [CC_METER, METER_GET, push_bit GET_SCALE_SHIFT (scale AND GET_SCALE_MASK)]"

definition Meter_decodeReport :: "bytes \<Rightarrow> Meter_Report option" where
  "Meter_decodeReport p =
     (if length p < 4 \<or> p ! 0 \<noteq> CC_METER \<or> p ! 1 \<noteq> METER_REPORT then None
      else let properties1 = p ! 2; flags = p ! 3; sz = flags AND FLAG_SIZE_MASK in
        if \<not> isValidSize sz \<or> length p < 4 + unat sz + 2 then None
        else let scaleLow = drop_bit FLAG_SCALE_SHIFT (flags AND FLAG_SCALE_MASK);
                 scaleBit2 = (if properties1 AND PROP1_SCALE_BIT2_MASK \<noteq> 0 then 1 else 0);
                 deltaOffset = 4 + unat sz;
                 out = \<lparr>mtr_meterType = properties1 AND PROP1_METER_TYPE_MASK,
                        mtr_rateType =
                          drop_bit PROP1_RATE_TYPE_SHIFT (properties1 AND PROP1_RATE_TYPE_MASK),
                        mtr_scale = push_bit 2 scaleBit2 OR scaleLow,
                        mtr_precision =
                          drop_bit FLAG_PRECISION_SHIFT (flags AND FLAG_PRECISION_MASK),
                        mtr_value = Meter_readSigned p 4 sz,
                        mtr_deltaTime = be16 (p ! deltaOffset) (p ! (deltaOffset + 1)),
                        mtr_previousValue = 0, mtr_hasPrevious = False\<rparr>
             in if mtr_deltaTime out \<noteq> 0
                then let prevOffset = deltaOffset + 2 in
                  if length p < prevOffset + unat sz then None
                  else Some (out\<lparr>mtr_previousValue := Meter_readSigned p prevOffset sz,
                                 mtr_hasPrevious := True\<rparr>)
                else Some out)"

definition Meter_meterTypeName :: "byte \<Rightarrow> string option" where
  "Meter_meterTypeName meterType =
     (if meterType = 1 then Some ''electric''
      else if meterType = 2 then Some ''gas''
      else if meterType = 3 then Some ''water''
      else None)"

definition Meter_scaleUnit :: "byte \<Rightarrow> byte \<Rightarrow> string" where
  "Meter_scaleUnit meterType scale =
     (if meterType = 1 then
        (if scale = 0 then ''kWh'' else if scale = 1 then ''kVAh'' else if scale = 2 then ''W''
         else if scale = 3 then ''pulses'' else if scale = 4 then ''V'' else if scale = 5 then ''A''
         else if scale = 6 then ''power factor'' else '''')
      else if meterType = 2 then
        (if scale = 0 then ''m^3'' else if scale = 1 then ''ft^3''
         else if scale = 3 then ''pulses'' else '''')
      else if meterType = 3 then
        (if scale = 0 then ''m^3'' else if scale = 1 then ''ft^3'' else if scale = 2 then ''gal''
         else if scale = 3 then ''pulses'' else '''')
      else '''')"

section \<open>Reading back what was written\<close>

lemma valid_sizeE:
  assumes "isValidSize sz"
  obtains "sz = 1" | "sz = 2" | "sz = 4"
  using assms by (auto simp: isValidSize_def size_const_defs)

lemma length_writeRaw [simp]: "length (writeRaw sz v) = unat sz"
  by (simp add: writeRaw_def)

lemma writeRaw_step:
  "map (\<lambda>i. ucast (drop_bit ((Suc n - 1 - i) * 8) v AND 0xFF) :: byte) [0 ..< Suc n] =
   map (\<lambda>i. ucast (drop_bit ((n - 1 - i) * 8) (drop_bit 8 (v :: u32)) AND 0xFF)) [0 ..< n]
     @ [ucast (v AND 0xFF)]"
proof -
  have "(Suc n - 1 - i) * 8 = 8 + (n - 1 - i) * 8" if "i < n" for i
    using that by (cases n) (auto simp: algebra_simps diff_mult_distrib)
  then show ?thesis by (simp add: add.commute)
qed

lemma readRaw_snoc: "readRaw (bs @ [b]) = push_bit 8 (readRaw bs) OR ucast b"
  by (simp add: readRaw_def)

lemma readRaw_bytes:
  "readRaw (map (\<lambda>i. ucast (drop_bit ((n - 1 - i) * 8) v AND 0xFF)) [0 ..< n]) = take_bit (8 * n) v"
proof (induction n arbitrary: v)
  case 0
  show ?case by (simp add: readRaw_def)
next
  case (Suc n)
  show ?case
    unfolding writeRaw_step readRaw_snoc Suc.IH
    by (rule bit_word_eqI) (auto simp: bit_simps bit_255_int_iff)
qed

lemma readRaw_writeRaw: "readRaw (writeRaw sz v) = take_bit (8 * unat sz) v"
  unfolding writeRaw_def by (rule readRaw_bytes)

lemma signBit_test: "raw AND signBit sz \<noteq> 0 \<longleftrightarrow> bit raw (unat sz * 8 - 1)"
  by (simp add: signBit_def push_bit_of_1 and_exp_eq_0_iff_not_bit)

lemma valueMask_mask: "isValidSize sz \<Longrightarrow> valueMask sz = mask (8 * unat sz)"
  by (erule valid_sizeE) (simp_all add: valueMask_def size_const_defs mask_eq_exp_minus_1)

lemma sign_extend_word:
  assumes "0 < k" and "k \<le> 32"
  shows "(if bit (take_bit k v) (k - 1) then take_bit k v OR NOT (mask k) else take_bit k v) =
         signed_take_bit (k - 1) (v :: u32)"
proof (rule bit_word_eqI)
  fix n
  assume "n < LENGTH(32)"
  then show "bit (if bit (take_bit k v) (k - 1) then take_bit k v OR NOT (mask k) else take_bit k v) n =
      bit (signed_take_bit (k - 1) v) n"
    using assms by (cases "n < k - 1"; cases "n = k - 1") (auto simp: bit_simps min_def)
qed

lemma signExtend_take_bit:
  assumes "isValidSize sz"
  shows "signExtend sz (take_bit (8 * unat sz) v) = signed_take_bit (8 * unat sz - 1) v"
proof -
  have "0 < 8 * unat sz" "8 * unat sz \<le> 32"
    using assms by (auto elim: valid_sizeE)
  from sign_extend_word [OF this, of v] show ?thesis
    unfolding signExtend_def signBit_test valueMask_mask [OF assms] mult.commute [of "unat sz"] .
qed

lemma signed_take_bit_in_range:
  assumes "n < 32" and "- (2 ^ n) \<le> sint v" and "sint v < 2 ^ n"
  shows "signed_take_bit n (v :: u32) = v"
proof (rule bit_word_eqI)
  fix m
  assume m: "m < LENGTH(32)"
  have "sint v = signed_take_bit n (sint v)"
    using assms by (simp add: signed_take_bit_int_eq_self)
  then have "bit (sint v) m = bit (sint v) (min m n)"
    using bit_signed_take_bit_iff [of n "sint v" m] by (simp add: min.commute)
  moreover have "bit (sint v) k = bit v k" if "k < 32" for k
    using that by (cases "k = 31") (auto simp: bit_sint_iff)
  ultimately show "bit (signed_take_bit n v) m = bit v m"
    using m assms(1) by (simp add: bit_signed_take_bit_iff min.commute)
qed

lemma signExtend_read_write:
  "isValidSize sz \<Longrightarrow>
   signExtend sz (readRaw (writeRaw sz v)) = signed_take_bit (8 * unat sz - 1) v"
  by (simp add: readRaw_writeRaw signExtend_take_bit)

lemma encodedSize_valid: "isValidSize (encodedSize v)"
  by (simp add: encodedSize_def isValidSize_def)

lemma encodedSize_fits: "signed_take_bit (8 * unat (encodedSize v) - 1) v = v"
proof -
  have "sint v \<le> 2 ^ 31 - 1" "- (2 ^ 31) \<le> sint v"
    using sint_lt [of v] sint_ge [of v] by simp_all
  then show ?thesis
    by (intro signed_take_bit_in_range) (auto simp: encodedSize_def size_const_defs)
qed

lemma byte_masks:
  "(7 :: byte) = mask 3" "(3 :: byte) = mask 2" "(0x18 :: byte) = push_bit 3 (mask 2)"
  "(0xE0 :: byte) = push_bit 5 (mask 3)" "(0x0F :: byte) = mask 4" "(0x1F :: byte) = mask 5"
  "(0x60 :: byte) = push_bit 5 (mask 2)" "(0x80 :: byte) = push_bit 7 (mask 1)"
  by (simp_all add: mask_eq_exp_minus_1)

lemma valid_size_bits: "isValidSize sz \<Longrightarrow> bit sz n \<Longrightarrow> n < 3"
proof -
  assume "isValidSize sz" and b: "bit sz n"
  then have "take_bit 3 sz = sz"
    by (elim valid_sizeE) simp_all
  with b show "n < 3"
    by (metis bit_take_bit_iff)
qed

lemma flags_fields:
  assumes "isValidSize sz"
  shows "packFlags p s sz AND 7 = sz"
    and "drop_bit 3 (packFlags p s sz AND 0x18) = s AND 3"
    and "drop_bit 5 (packFlags p s sz AND 0xE0) = p AND 7"
  unfolding packFlags_def flag_const_defs byte_masks
  by (intro bit_word_eqI; auto simp: bit_simps dest: valid_size_bits [OF assms])+

lemma encode_shape:
  "EncodedValue_encode p s v = packFlags p s (encodedSize v) # writeRaw (encodedSize v) v"
  by (simp add: EncodedValue_encode_def Let_def)

lemma decode_encode:
  "EncodedValue_decode (packFlags p s (encodedSize v)) (writeRaw (encodedSize v) v @ rest) =
   Some \<lparr>dv_size = encodedSize v, dv_scale = s AND 3, dv_precision = p AND 7, dv_value = v\<rparr>"
  unfolding EncodedValue_decode_def Let_def flag_const_defs flags_fields [OF encodedSize_valid]
  using encodedSize_fits [of v] by (simp add: encodedSize_valid signExtend_read_write)

interpretation sensor_multilevel: headed_decoder SensorMultilevel_decodeReport CC_SENSOR_MULTILEVEL
  SENSOR_MULTILEVEL_REPORT
  by unfold_locales (auto simp: SensorMultilevel_decodeReport_def has_header_def
      split: if_splits option.splits)

interpretation thermostat_setpoint: headed_decoder ThermostatSetpoint_decodeReport CC_THERMOSTAT_SETPOINT
  THERMOSTAT_SETPOINT_REPORT
  by unfold_locales (auto simp: ThermostatSetpoint_decodeReport_def has_header_def
      split: if_splits option.splits)

interpretation configuration: headed_decoder Configuration_decodeReport CC_CONFIGURATION
  CONFIGURATION_REPORT
  by unfold_locales (auto simp: Configuration_decodeReport_def has_header_def Let_def
      split: if_splits)

interpretation meter: headed_decoder Meter_decodeReport CC_METER METER_REPORT
  by unfold_locales (auto simp: Meter_decodeReport_def has_header_def Let_def split: if_splits)

section \<open>Properties\<close>

text \<open>
  The value field survives a round trip for every signed 32-bit value: the encoder picks a
  size of one, two or four bytes, writes exactly that many behind the flag byte, and the decoder
  returns the same value with the masked scale and precision, whatever follows.
\<close>

theorem encodedValue_roundtrip:
  "\<exists>flags bs. EncodedValue_encode p s v = flags # bs \<and>
     length bs = (if sint v \<in> {- 128 .. 127} then 1 else if sint v \<in> {- 32768 .. 32767} then 2 else 4) \<and>
     EncodedValue_decode flags (bs @ rest) =
       Some \<lparr>dv_size = of_nat (length bs), dv_scale = s AND 3, dv_precision = p AND 7, dv_value = v\<rparr>"
proof (intro exI conjI)
  show "EncodedValue_encode p s v = packFlags p s (encodedSize v) # writeRaw (encodedSize v) v"
    by (rule encode_shape)
  show "length (writeRaw (encodedSize v) v) =
      (if sint v \<in> {- 128 .. 127} then 1 else if sint v \<in> {- 32768 .. 32767} then 2 else 4)"
    by (simp add: encodedSize_def size_const_defs)
  show "EncodedValue_decode (packFlags p s (encodedSize v)) (writeRaw (encodedSize v) v @ rest) =
      Some \<lparr>dv_size = of_nat (length (writeRaw (encodedSize v) v)), dv_scale = s AND 3,
            dv_precision = p AND 7, dv_value = v\<rparr>"
    by (simp add: decode_encode)
qed

text \<open>
  A thermostat that reports the set point it was sent is understood: the report built from the
  parameter bytes of a Set decodes to the type, scale, precision and value that were set.
\<close>

theorem setpoint_echo:
  "ThermostatSetpoint_decodeReport
     ([CC_THERMOSTAT_SETPOINT, THERMOSTAT_SETPOINT_REPORT]
        @ drop 2 (ThermostatSetpoint_encodeSet ty p s v) @ rest) =
   Some \<lparr>tsp_setpointType = ty AND 0x0F, tsp_scale = s AND 3, tsp_precision = p AND 7, tsp_value = v\<rparr>"
proof -
  have "ty AND 0x0F AND 0x0F = (ty AND 0x0F :: byte)"
    by (simp add: and.assoc)
  then show ?thesis
    by (simp add: ThermostatSetpoint_decodeReport_def ThermostatSetpoint_encodeSet_def encode_shape
        decode_encode SETPOINT_TYPE_MASK_def)
qed

text \<open>
  A node that reports a configuration parameter as it was set is understood: for each valid
  size the report built from the bytes of a Set decodes to the low bytes of the value,
  sign-extended, which is the value itself when it fits the size; an invalid size is refused by the
  encoder.
\<close>

theorem configuration_echo:
  "(isValidSize sz \<longrightarrow>
      Configuration_decodeReport
        ([CC_CONFIGURATION, CONFIGURATION_REPORT] @ drop 2 (Configuration_encodeSet par sz v) @ rest) =
      Some \<lparr>cfg_parameter = par, cfg_size = sz, cfg_value = signed_take_bit (8 * unat sz - 1) v\<rparr>) \<and>
   (isValidSize sz \<and> - (2 ^ (8 * unat sz - 1)) \<le> sint v \<and> sint v < 2 ^ (8 * unat sz - 1) \<longrightarrow>
      signed_take_bit (8 * unat sz - 1) v = v) \<and>
   (\<not> isValidSize sz \<longrightarrow> Configuration_encodeSet par sz v = [])"
proof (intro conjI impI)
  assume "isValidSize sz"
  then show "Configuration_decodeReport
        ([CC_CONFIGURATION, CONFIGURATION_REPORT] @ drop 2 (Configuration_encodeSet par sz v) @ rest) =
      Some \<lparr>cfg_parameter = par, cfg_size = sz, cfg_value = signed_take_bit (8 * unat sz - 1) v\<rparr>"
    by (simp add: Configuration_decodeReport_def Configuration_encodeSet_def subspan_def
        signExtend_read_write numeral_eq_Suc)
next
  assume "isValidSize sz \<and> - (2 ^ (8 * unat sz - 1)) \<le> sint v \<and> sint v < 2 ^ (8 * unat sz - 1)"
  then show "signed_take_bit (8 * unat sz - 1) v = v"
    by (intro signed_take_bit_in_range) (auto elim: valid_sizeE)
next
  assume "\<not> isValidSize sz"
  then show "Configuration_encodeSet par sz v = []"
    by (simp add: Configuration_encodeSet_def)
qed

theorem configuration_echo_witness:
  "Configuration_decodeReport
     ([CC_CONFIGURATION, CONFIGURATION_REPORT] @ drop 2 (Configuration_encodeSet 9 2 (- 3)) @ [7]) =
   Some \<lparr>cfg_parameter = 9, cfg_size = 2, cfg_value = signed_take_bit (8 * unat (2 :: byte) - 1) (- 3)\<rparr>"
  using configuration_echo [of 2 9 "- 3" "[7]"]
  by (simp add: isValidSize_def size_const_defs)

text \<open>The layout of a meter report, as the command class prescribes it.\<close>

definition meterReport :: "byte \<Rightarrow> byte \<Rightarrow> byte \<Rightarrow> byte \<Rightarrow> byte \<Rightarrow> i32 \<Rightarrow> u16 \<Rightarrow> i32 \<Rightarrow> bytes" where
  "meterReport ty rate scale prec sz v dt prev =
     [CC_METER, METER_REPORT,
      (ty AND 0x1F) OR push_bit 5 (rate AND 3) OR (if bit scale 2 then 0x80 else 0),
      packFlags prec scale sz]
     @ writeRaw sz v @ [hi8 dt, lo8 dt] @ (if dt \<noteq> 0 then writeRaw sz prev else [])"

lemma bit_128_int_iff: "bit (128 :: int) n \<longleftrightarrow> n = 7"
  using bit_exp_iff [where ?'a = int, of 7 n] by (simp add: eq_commute)

lemma meter_properties:
  fixes ty rate scale :: byte
  defines "p1 \<equiv> (ty AND 0x1F) OR push_bit 5 (rate AND 3) OR (if bit scale 2 then 0x80 else 0)"
  shows "p1 AND 0x1F = ty AND 0x1F" and "drop_bit 5 (p1 AND 0x60) = rate AND 3"
    and "p1 AND 0x80 \<noteq> 0 \<longleftrightarrow> bit scale 2"
proof -
  show "p1 AND 0x1F = ty AND 0x1F"
    unfolding p1_def byte_masks by (rule bit_word_eqI) (auto simp: bit_simps bit_128_int_iff)
  show "drop_bit 5 (p1 AND 0x60) = rate AND 3"
    unfolding p1_def byte_masks by (rule bit_word_eqI) (auto simp: bit_simps bit_128_int_iff)
  have "p1 AND 0x80 \<noteq> 0 \<longleftrightarrow> bit p1 7"
    using and_exp_eq_0_iff_not_bit [of p1 7] by simp
  also have "bit p1 7 \<longleftrightarrow> bit scale 2"
    unfolding p1_def byte_masks by (auto simp: bit_simps)
  finally show "p1 AND 0x80 \<noteq> 0 \<longleftrightarrow> bit scale 2" .
qed

lemma scale_bits: "push_bit 2 (if bit scale 2 then 1 else 0) OR (scale AND 3) = (scale AND 7 :: byte)"
  unfolding byte_masks by (rule bit_word_eqI) (auto simp: bit_simps less_Suc_eq numeral_eq_Suc)

text \<open>
  A meter report decodes to the fields it was built from, the third scale bit included; the
  previous reading is present exactly when the elapsed time is not zero.
\<close>

theorem meter_report_fields:
  assumes "isValidSize sz"
  shows "Meter_decodeReport (meterReport ty rate scale prec sz v dt prev @ rest) =
    Some \<lparr>mtr_meterType = ty AND 0x1F, mtr_rateType = rate AND 3, mtr_scale = scale AND 7,
          mtr_precision = prec AND 7, mtr_value = signed_take_bit (8 * unat sz - 1) v,
          mtr_deltaTime = dt,
          mtr_previousValue = (if dt \<noteq> 0 then signed_take_bit (8 * unat sz - 1) prev else 0),
          mtr_hasPrevious = (dt \<noteq> 0)\<rparr>"
proof -
  let ?p1 = "(ty AND 0x1F) OR push_bit 5 (rate AND 3) OR (if bit scale 2 then 0x80 else 0)"
  let ?p = "meterReport ty rate scale prec sz v dt prev @ rest"
  have hd: "?p ! 0 = CC_METER" "?p ! 1 = METER_REPORT" "?p ! 2 = ?p1" "?p ! 3 = packFlags prec scale sz"
    by (simp_all add: meterReport_def)
  have at: "?p ! (4 + unat sz) = hi8 dt" "?p ! (4 + unat sz + 1) = lo8 dt"
    by (simp_all add: meterReport_def nth_append)
  have d4: "drop 4 ?p = writeRaw sz v @ [hi8 dt, lo8 dt] @ (if dt \<noteq> 0 then writeRaw sz prev else []) @ rest"
    by (simp add: meterReport_def)
  have "drop (4 + unat sz + 2) xs = drop 2 (drop (unat sz) (drop 4 xs))" for xs :: bytes
    by (simp add: ac_simps)
  from this [of ?p] have spans: "subspan ?p 4 (unat sz) = writeRaw sz v"
      "dt \<noteq> 0 \<Longrightarrow> subspan ?p (4 + unat sz + 2) (unat sz) = writeRaw sz prev"
    unfolding subspan_def d4 by simp_all
  have len: "length ?p = 4 + unat sz + 2 + (if dt \<noteq> 0 then unat sz else 0) + length rest"
    by (simp add: meterReport_def)
  show ?thesis
    unfolding Meter_decodeReport_def Let_def hd at meter_const_defs flag_const_defs
      flags_fields [OF assms] meter_properties Meter_readSigned_def spans(1) be16_hi_lo scale_bits
      signExtend_read_write [OF assms]
    using len assms spans(2) by (simp add: signExtend_read_write)
qed

theorem meter_report_fields_witness:
  "Meter_decodeReport (meterReport 1 1 5 2 2 (- 7) 30 400 @ []) =
    Some \<lparr>mtr_meterType = 1 AND 0x1F, mtr_rateType = 1 AND 3, mtr_scale = 5 AND 7,
          mtr_precision = 2 AND 7, mtr_value = signed_take_bit (8 * unat (2 :: byte) - 1) (- 7),
          mtr_deltaTime = 30,
          mtr_previousValue = signed_take_bit (8 * unat (2 :: byte) - 1) 400,
          mtr_hasPrevious = True\<rparr>"
  using meter_report_fields [of 2 1 1 5 2 "- 7" 30 400 "[]"]
  by (simp add: isValidSize_def size_const_defs)

end
