(* ===== verification/Command_Classes.thy ===== *)
theory Command_Classes
  imports Encoded_Value
begin

text \<open>
  The application command classes of \<open>src/src/zwave-protocol/application\<close>: for each class
  the report it decodes and the hand-written encoders. A payload starts with the command-class
  byte and the command byte; the constants are the ones the build generates from
  \<open>InterfaceManifest.yml\<close>. Encoders that the build generates from the manifest are not
  part of these files.
\<close>

section \<open>Basic, Binary Switch, Multilevel Switch\<close>

definition CC_BASIC :: byte where "CC_BASIC = 0x20"
definition BASIC_SET :: byte where "BASIC_SET = 0x01"
definition BASIC_REPORT :: byte where "BASIC_REPORT = 0x03"

record Basic_Report =
  bas_currentValue :: byte
  bas_targetValue :: byte
  bas_duration :: byte
  bas_wireFormatV2 :: bool

record Basic_Set =
  bas_value :: byte

definition Basic_decodeReport :: "bytes \<Rightarrow> Basic_Report option" where
  "Basic_decodeReport p =
     (if length p < 3 \<or> p ! 0 \<noteq> CC_BASIC \<or> p ! 1 \<noteq> BASIC_REPORT then None
      else if length p \<ge> 5
        then Some \<lparr>bas_currentValue = p ! 2, bas_targetValue = p ! 3, bas_duration = p ! 4,
                   bas_wireFormatV2 = True\<rparr>
        else Some \<lparr>bas_currentValue = p ! 2, bas_targetValue = p ! 2, bas_duration = 0,
                   bas_wireFormatV2 = False\<rparr>)"

definition Basic_decodeSet :: "bytes \<Rightarrow> Basic_Set option" where
  "Basic_decodeSet p =
     (if length p < 3 \<or> p ! 0 \<noteq> CC_BASIC \<or> p ! 1 \<noteq> BASIC_SET then None
      else Some \<lparr>bas_value = p ! 2\<rparr>)"

definition CC_SWITCH_BINARY :: byte where "CC_SWITCH_BINARY = 0x25"
definition SWITCH_BINARY_REPORT :: byte where "SWITCH_BINARY_REPORT = 0x03"
definition SWITCH_VALUE_OFF :: byte where "SWITCH_VALUE_OFF = 0x00"
definition SWITCH_VALUE_UNKNOWN :: byte where "SWITCH_VALUE_UNKNOWN = 0xFE"

datatype SwitchState = SwOff | SwOn | SwUnknown

record BinarySwitch_Report =
  bsw_state :: SwitchState
  bsw_rawValue :: byte

definition BinarySwitch_decodeReport :: "bytes \<Rightarrow> BinarySwitch_Report option" where
  "BinarySwitch_decodeReport p =
     (if length p < 3 \<or> p ! 0 \<noteq> CC_SWITCH_BINARY \<or> p ! 1 \<noteq> SWITCH_BINARY_REPORT then None
      else let raw = p ! 2 in
        Some \<lparr>bsw_state = (if raw = SWITCH_VALUE_OFF then SwOff
                           else if raw = SWITCH_VALUE_UNKNOWN then SwUnknown else SwOn),
              bsw_rawValue = raw\<rparr>)"

definition CC_SWITCH_MULTILEVEL :: byte where "CC_SWITCH_MULTILEVEL = 0x26"
definition SWITCH_MULTILEVEL_REPORT :: byte where "SWITCH_MULTILEVEL_REPORT = 0x03"

record MultilevelSwitch_Report =
  msw_currentValue :: byte
  msw_targetValue :: byte
  msw_duration :: byte
  msw_wireFormatV2 :: bool

definition MultilevelSwitch_decodeReport :: "bytes \<Rightarrow> MultilevelSwitch_Report option" where
  "MultilevelSwitch_decodeReport p =
     (if length p < 3 \<or> p ! 0 \<noteq> CC_SWITCH_MULTILEVEL \<or> p ! 1 \<noteq> SWITCH_MULTILEVEL_REPORT then None
      else if length p \<ge> 5
        then Some \<lparr>msw_currentValue = p ! 2, msw_targetValue = p ! 3, msw_duration = p ! 4,
                   msw_wireFormatV2 = True\<rparr>
        else Some \<lparr>msw_currentValue = p ! 2, msw_targetValue = p ! 2, msw_duration = 0,
                   msw_wireFormatV2 = False\<rparr>)"

section \<open>Battery, Indicator, Central Scene, Scene Activation, Sensor Binary\<close>

definition CC_BATTERY :: byte where "CC_BATTERY = 0x80"
definition BATTERY_REPORT :: byte where "BATTERY_REPORT = 0x03"
definition LEVEL_LOW_WARNING :: byte where "LEVEL_LOW_WARNING = 0xFF"

record Battery_Report =
  bat_level :: byte
  bat_lowBattery :: bool

definition Battery_decodeReport :: "bytes \<Rightarrow> Battery_Report option" where
  "Battery_decodeReport p =
     (if length p < 3 \<or> p ! 0 \<noteq> CC_BATTERY \<or> p ! 1 \<noteq> BATTERY_REPORT then None
      else Some \<lparr>bat_level = p ! 2, bat_lowBattery = (p ! 2 = LEVEL_LOW_WARNING)\<rparr>)"

definition CC_INDICATOR :: byte where "CC_INDICATOR = 0x87"
definition INDICATOR_REPORT :: byte where "INDICATOR_REPORT = 0x03"

record Indicator_Report =
  ind_value :: byte

definition Indicator_decodeReport :: "bytes \<Rightarrow> Indicator_Report option" where
  "Indicator_decodeReport p =
     (if length p < 3 \<or> p ! 0 \<noteq> CC_INDICATOR \<or> p ! 1 \<noteq> INDICATOR_REPORT then None
      else Some \<lparr>ind_value = p ! 2\<rparr>)"

definition CC_CENTRAL_SCENE :: byte where "CC_CENTRAL_SCENE = 0x5B"
definition CENTRAL_SCENE_NOTIFICATION :: byte where "CENTRAL_SCENE_NOTIFICATION = 0x03"
definition KEY_ATTRIBUTE_MASK :: byte where "KEY_ATTRIBUTE_MASK = 0x07"
definition SLOW_REFRESH_FLAG :: byte where "SLOW_REFRESH_FLAG = 0x80"

record CentralScene_Notification =
  csc_sequenceNumber :: byte
  csc_keyAttribute :: byte
  csc_sceneNumber :: byte
  csc_slowRefresh :: bool

definition CentralScene_decodeNotification :: "bytes \<Rightarrow> CentralScene_Notification option" where
  "CentralScene_decodeNotification p =
     (if length p < 5 \<or> p ! 0 \<noteq> CC_CENTRAL_SCENE \<or> p ! 1 \<noteq> CENTRAL_SCENE_NOTIFICATION then None
      else let properties = p ! 3 in
        Some \<lparr>csc_sequenceNumber = p ! 2, csc_keyAttribute = properties AND KEY_ATTRIBUTE_MASK,
              csc_sceneNumber = p ! 4, csc_slowRefresh = (properties AND SLOW_REFRESH_FLAG \<noteq> 0)\<rparr>)"

definition CC_SCENE_ACTIVATION :: byte where "CC_SCENE_ACTIVATION = 0x2B"
definition SCENE_ACTIVATION_SET :: byte where "SCENE_ACTIVATION_SET = 0x01"

record SceneActivation_Set =
  sca_sceneId :: byte
  sca_dimmingDuration :: byte

definition SceneActivation_decodeSet :: "bytes \<Rightarrow> SceneActivation_Set option" where
  "SceneActivation_decodeSet p =
     (if length p < 3 \<or> p ! 0 \<noteq> CC_SCENE_ACTIVATION \<or> p ! 1 \<noteq> SCENE_ACTIVATION_SET then None
      else Some \<lparr>sca_sceneId = p ! 2, sca_dimmingDuration = (if length p > 3 then p ! 3 else 0)\<rparr>)"

definition CC_SENSOR_BINARY :: byte where "CC_SENSOR_BINARY = 0x30"
definition SENSOR_BINARY_REPORT :: byte where "SENSOR_BINARY_REPORT = 0x03"

record SensorBinary_Report =
  sbn_sensorType :: byte
  sbn_value :: byte

definition SensorBinary_decodeReport :: "bytes \<Rightarrow> SensorBinary_Report option" where
  "SensorBinary_decodeReport p =
     (if length p < 3 \<or> p ! 0 \<noteq> CC_SENSOR_BINARY \<or> p ! 1 \<noteq> SENSOR_BINARY_REPORT then None
      else Some \<lparr>sbn_sensorType = (if length p > 3 then p ! 3 else 0), sbn_value = p ! 2\<rparr>)"

section \<open>Color Switch, Door Lock, User Code\<close>

definition CC_SWITCH_COLOR :: byte where "CC_SWITCH_COLOR = 0x33"
definition SWITCH_COLOR_GET :: byte where "SWITCH_COLOR_GET = 0x03"
definition SWITCH_COLOR_REPORT :: byte where "SWITCH_COLOR_REPORT = 0x04"
definition SWITCH_COLOR_SET :: byte where "SWITCH_COLOR_SET = 0x05"

record ColorSwitch_Report =
  csw_componentId :: byte
  csw_value :: byte
  csw_targetValue :: byte
  csw_duration :: byte

definition ColorSwitch_encodeGet :: "byte \<Rightarrow> bytes" where
  "ColorSwitch_encodeGet componentId = [CC_SWITCH_COLOR, SWITCH_COLOR_GET, componentId]"

text \<open>The loop copies whole (component, value) pairs; a trailing odd byte is dropped.\<close>

fun colorPairs :: "bytes \<Rightarrow> bytes" where
  "colorPairs (c # v # rest) = c # v # colorPairs rest"
| "colorPairs _ = []"

definition ColorSwitch_encodeSet :: "bytes \<Rightarrow> byte \<Rightarrow> bytes" where
  "ColorSwitch_encodeSet components duration =
     [CC_SWITCH_COLOR, SWITCH_COLOR_SET, of_nat (length components div 2)]
       @ colorPairs components @ [duration]"

definition ColorSwitch_decodeReport :: "bytes \<Rightarrow> ColorSwitch_Report option" where
  "ColorSwitch_decodeReport p =
     (if length p < 4 \<or> p ! 0 \<noteq> CC_SWITCH_COLOR \<or> p ! 1 \<noteq> SWITCH_COLOR_REPORT then None
      else if length p \<ge> 6
        then Some \<lparr>csw_componentId = p ! 2, csw_value = p ! 3, csw_targetValue = p ! 4,
                   csw_duration = p ! 5\<rparr>
        else Some \<lparr>csw_componentId = p ! 2, csw_value = p ! 3, csw_targetValue = p ! 3,
                   csw_duration = 0\<rparr>)"

definition CC_DOOR_LOCK :: byte where "CC_DOOR_LOCK = 0x62"
definition DOOR_LOCK_REPORT :: byte where "DOOR_LOCK_REPORT = 0x03"

record DoorLock_OperationReport =
  dlk_currentMode :: byte
  dlk_handlesMode :: byte
  dlk_condition :: byte
  dlk_lockTimeoutMinutes :: byte
  dlk_lockTimeoutSeconds :: byte
  dlk_targetMode :: byte
  dlk_duration :: byte

definition DoorLock_decodeOperationReport :: "bytes \<Rightarrow> DoorLock_OperationReport option" where
  "DoorLock_decodeOperationReport p =
     (if length p < 7 \<or> p ! 0 \<noteq> CC_DOOR_LOCK \<or> p ! 1 \<noteq> DOOR_LOCK_REPORT then None
      else let out = \<lparr>dlk_currentMode = p ! 2, dlk_handlesMode = p ! 3, dlk_condition = p ! 4,
                      dlk_lockTimeoutMinutes = p ! 5, dlk_lockTimeoutSeconds = p ! 6,
                      dlk_targetMode = 0, dlk_duration = 0\<rparr>
           in if length p \<ge> 9 then Some (out\<lparr>dlk_targetMode := p ! 7, dlk_duration := p ! 8\<rparr>)
              else Some out)"

definition CC_USER_CODE :: byte where "CC_USER_CODE = 0x63"
definition USER_CODE_SET :: byte where "USER_CODE_SET = 0x01"
definition USER_CODE_REPORT :: byte where "USER_CODE_REPORT = 0x03"
definition USER_CODE_USERS_NUMBER_REPORT :: byte where "USER_CODE_USERS_NUMBER_REPORT = 0x05"

record UserCode_Report =
  ucd_userIdentifier :: byte
  ucd_userIdStatus :: byte
  ucd_userCode :: bytes

record UserCode_UsersNumberReport =
  ucd_supportedUsers :: byte

definition UserCode_encodeSet :: "byte \<Rightarrow> byte \<Rightarrow> bytes \<Rightarrow> bytes" where
  "UserCode_encodeSet userIdentifier userIdStatus code =
     [CC_USER_CODE, USER_CODE_SET, userIdentifier, userIdStatus] @ code"

definition UserCode_decodeReport :: "bytes \<Rightarrow> UserCode_Report option" where
  "UserCode_decodeReport p =
     (if length p < 4 \<or> p ! 0 \<noteq> CC_USER_CODE \<or> p ! 1 \<noteq> USER_CODE_REPORT then None
      else Some \<lparr>ucd_userIdentifier = p ! 2, ucd_userIdStatus = p ! 3, ucd_userCode = drop 4 p\<rparr>)"

definition UserCode_decodeUsersNumberReport :: "bytes \<Rightarrow> UserCode_UsersNumberReport option" where
  "UserCode_decodeUsersNumberReport p =
     (if length p < 3 \<or> p ! 0 \<noteq> CC_USER_CODE \<or> p ! 1 \<noteq> USER_CODE_USERS_NUMBER_REPORT then None
      else Some \<lparr>ucd_supportedUsers = p ! 2\<rparr>)"

section \<open>Thermostats\<close>

definition CC_THERMOSTAT_MODE :: byte where "CC_THERMOSTAT_MODE = 0x40"
definition THERMOSTAT_MODE_REPORT :: byte where "THERMOSTAT_MODE_REPORT = 0x03"
definition THERMOSTAT_MODE_MASK :: byte where "THERMOSTAT_MODE_MASK = 0x1F"
definition CC_THERMOSTAT_OPERATING_STATE :: byte where "CC_THERMOSTAT_OPERATING_STATE = 0x42"
definition THERMOSTAT_OPERATING_STATE_REPORT :: byte where "THERMOSTAT_OPERATING_STATE_REPORT = 0x03"
definition STATE_MASK :: byte where "STATE_MASK = 0x0F"
definition CC_THERMOSTAT_FAN_MODE :: byte where "CC_THERMOSTAT_FAN_MODE = 0x44"
definition THERMOSTAT_FAN_MODE_REPORT :: byte where "THERMOSTAT_FAN_MODE_REPORT = 0x03"
definition FAN_MODE_MASK :: byte where "FAN_MODE_MASK = 0x0F"
definition FAN_OFF_FLAG :: byte where "FAN_OFF_FLAG = 0x80"

record ThermostatMode_Report =
  tmo_mode :: byte

record ThermostatOperatingState_Report =
  tos_state :: byte

record ThermostatFanMode_Report =
  tfm_mode :: byte
  tfm_off :: bool

definition ThermostatMode_decodeReport :: "bytes \<Rightarrow> ThermostatMode_Report option" where
  "ThermostatMode_decodeReport p =
     (if length p < 3 \<or> p ! 0 \<noteq> CC_THERMOSTAT_MODE \<or> p ! 1 \<noteq> THERMOSTAT_MODE_REPORT then None
      else Some \<lparr>tmo_mode = p ! 2 AND THERMOSTAT_MODE_MASK\<rparr>)"

definition ThermostatOperatingState_decodeReport :: "bytes \<Rightarrow> ThermostatOperatingState_Report option" where
  "ThermostatOperatingState_decodeReport p =
     (if length p < 3 \<or> p ! 0 \<noteq> CC_THERMOSTAT_OPERATING_STATE \<or>
         p ! 1 \<noteq> THERMOSTAT_OPERATING_STATE_REPORT then None
      else Some \<lparr>tos_state = p ! 2 AND STATE_MASK\<rparr>)"

definition ThermostatFanMode_decodeReport :: "bytes \<Rightarrow> ThermostatFanMode_Report option" where
  "ThermostatFanMode_decodeReport p =
     (if length p < 3 \<or> p ! 0 \<noteq> CC_THERMOSTAT_FAN_MODE \<or> p ! 1 \<noteq> THERMOSTAT_FAN_MODE_REPORT then None
      else Some \<lparr>tfm_mode = p ! 2 AND FAN_MODE_MASK, tfm_off = (p ! 2 AND FAN_OFF_FLAG \<noteq> 0)\<rparr>)"

section \<open>Node information: version, manufacturer, Z-Wave Plus\<close>

definition CC_VERSION :: byte where "CC_VERSION = 0x86"
definition VERSION_REPORT :: byte where "VERSION_REPORT = 0x12"
definition CC_MANUFACTURER_SPECIFIC :: byte where "CC_MANUFACTURER_SPECIFIC = 0x72"
definition MANUFACTURER_SPECIFIC_REPORT :: byte where "MANUFACTURER_SPECIFIC_REPORT = 0x05"
definition CC_ZWAVEPLUS_INFO :: byte where "CC_ZWAVEPLUS_INFO = 0x5E"
definition ZWAVEPLUS_INFO_REPORT :: byte where "ZWAVEPLUS_INFO_REPORT = 0x02"

record NodeVersion_Report =
  nvr_libraryType :: byte
  nvr_protocolVersion :: byte
  nvr_protocolSubVersion :: byte
  nvr_applicationVersion :: byte
  nvr_applicationSubVersion :: byte

definition NodeVersion_decodeReport :: "bytes \<Rightarrow> NodeVersion_Report option" where
  "NodeVersion_decodeReport p =
     (if length p < 7 \<or> p ! 0 \<noteq> CC_VERSION \<or> p ! 1 \<noteq> VERSION_REPORT then None
      else Some \<lparr>nvr_libraryType = p ! 2, nvr_protocolVersion = p ! 3, nvr_protocolSubVersion = p ! 4,
                 nvr_applicationVersion = p ! 5, nvr_applicationSubVersion = p ! 6\<rparr>)"

definition readBeU16 :: "bytes \<Rightarrow> nat \<Rightarrow> u16" where
  "readBeU16 p offset = be16 (p ! offset) (p ! (offset + 1))"

record ManufacturerSpecific_Report =
  mfs_manufacturerId :: u16
  mfs_productTypeId :: u16
  mfs_productId :: u16

definition ManufacturerSpecific_decodeReport :: "bytes \<Rightarrow> ManufacturerSpecific_Report option" where
  "ManufacturerSpecific_decodeReport p =
     (if length p < 8 \<or> p ! 0 \<noteq> CC_MANUFACTURER_SPECIFIC \<or> p ! 1 \<noteq> MANUFACTURER_SPECIFIC_REPORT then None
      else Some \<lparr>mfs_manufacturerId = readBeU16 p 2, mfs_productTypeId = readBeU16 p 4,
                 mfs_productId = readBeU16 p 6\<rparr>)"

record ZWavePlusInfo_Report =
  zpi_zwavePlusVersion :: byte
  zpi_roleType :: byte
  zpi_nodeType :: byte
  zpi_installerIconType :: u16
  zpi_userIconType :: u16

definition ZWavePlusInfo_decodeReport :: "bytes \<Rightarrow> ZWavePlusInfo_Report option" where
  "ZWavePlusInfo_decodeReport p =
     (if length p < 9 \<or> p ! 0 \<noteq> CC_ZWAVEPLUS_INFO \<or> p ! 1 \<noteq> ZWAVEPLUS_INFO_REPORT then None
      else Some \<lparr>zpi_zwavePlusVersion = p ! 2, zpi_roleType = p ! 3, zpi_nodeType = p ! 4,
                 zpi_installerIconType = readBeU16 p 5, zpi_userIconType = readBeU16 p 7\<rparr>)"

section \<open>Notification and Supervision\<close>

definition CC_NOTIFICATION :: byte where "CC_NOTIFICATION = 0x71"
definition NOTIFICATION_GET :: byte where "NOTIFICATION_GET = 0x04"
definition NOTIFICATION_REPORT :: byte where "NOTIFICATION_REPORT = 0x05"
definition PARAM_LENGTH_MASK :: byte where "PARAM_LENGTH_MASK = 0x1F"

record Notification_Report =
  ntf_notificationType :: byte
  ntf_event :: byte
  ntf_status :: byte
  ntf_parameters :: bytes

definition Notification_encodeGet :: "byte \<Rightarrow> bytes" where
  "Notification_encodeGet notificationType =
     [CC_NOTIFICATION, NOTIFICATION_GET, 0x00, notificationType, 0x00]"

definition Notification_decodeReport :: "bytes \<Rightarrow> Notification_Report option" where
  "Notification_decodeReport p =
     (if length p < 9 \<or> p ! 0 \<noteq> CC_NOTIFICATION \<or> p ! 1 \<noteq> NOTIFICATION_REPORT then None
      else let paramLength = unat (p ! 8 AND PARAM_LENGTH_MASK) in
        if length p < 9 + paramLength then None
        else Some \<lparr>ntf_notificationType = p ! 6, ntf_event = p ! 7, ntf_status = p ! 5,
                   ntf_parameters = subspan p 9 paramLength\<rparr>)"

definition CC_SUPERVISION :: byte where "CC_SUPERVISION = 0x6C"
definition SUPERVISION_GET :: byte where "SUPERVISION_GET = 0x01"
definition SUPERVISION_REPORT :: byte where "SUPERVISION_REPORT = 0x02"
definition SUPERVISION_SESSION_ID_MASK :: byte where "SUPERVISION_SESSION_ID_MASK = 0x3F"
definition MORE_UPDATES_FLAG :: byte where "MORE_UPDATES_FLAG = 0x80"

record Supervision_Report =
  spv_sessionId :: byte
  spv_moreStatusUpdates :: bool
  spv_status :: byte
  spv_duration :: byte

definition Supervision_encodeGet :: "byte \<Rightarrow> bool \<Rightarrow> bytes \<Rightarrow> bytes" where
  "Supervision_encodeGet sessionId requestUpdates innerCommand =
     (let properties = (if requestUpdates then MORE_UPDATES_FLAG else 0)
                       OR (sessionId AND SUPERVISION_SESSION_ID_MASK)
      in [CC_SUPERVISION, SUPERVISION_GET, properties, of_nat (length innerCommand)] @ innerCommand)"

definition Supervision_decodeReport :: "bytes \<Rightarrow> Supervision_Report option" where
  "Supervision_decodeReport p =
     (if length p < 5 \<or> p ! 0 \<noteq> CC_SUPERVISION \<or> p ! 1 \<noteq> SUPERVISION_REPORT then None
      else let properties = p ! 2 in
        Some \<lparr>spv_sessionId = properties AND SUPERVISION_SESSION_ID_MASK,
              spv_moreStatusUpdates = (properties AND MORE_UPDATES_FLAG \<noteq> 0),
              spv_status = p ! 3, spv_duration = p ! 4\<rparr>)"

section \<open>Wake Up\<close>

definition CC_WAKE_UP :: byte where "CC_WAKE_UP = 0x84"
definition WAKE_UP_SET :: byte where "WAKE_UP_SET = 0x04"
definition WAKE_UP_REPORT :: byte where "WAKE_UP_REPORT = 0x06"
definition WAKE_UP_NOTIFICATION :: byte where "WAKE_UP_NOTIFICATION = 0x07"
definition INTERVAL_MAX :: u32 where "INTERVAL_MAX = 0x00FFFFFF"

record WakeUp_IntervalReport =
  wkp_seconds :: u32
  wkp_controllerNodeId :: byte

definition WakeUp_encodeIntervalSet :: "u32 \<Rightarrow> byte \<Rightarrow> bytes" where
  "WakeUp_encodeIntervalSet seconds controllerNodeId =
     (let clamped = min seconds INTERVAL_MAX in
      [CC_WAKE_UP, WAKE_UP_SET, ucast (drop_bit 16 clamped AND 0xFF),
       ucast (drop_bit 8 clamped AND 0xFF), ucast (clamped AND 0xFF), controllerNodeId])"

definition WakeUp_decodeIntervalReport :: "bytes \<Rightarrow> WakeUp_IntervalReport option" where
  "WakeUp_decodeIntervalReport p =
     (if length p < 6 \<or> p ! 0 \<noteq> CC_WAKE_UP \<or> p ! 1 \<noteq> WAKE_UP_REPORT then None
      else Some \<lparr>wkp_seconds = push_bit 16 (ucast (p ! 2)) OR push_bit 8 (ucast (p ! 3)) OR ucast (p ! 4),
                 wkp_controllerNodeId = p ! 5\<rparr>)"

definition WakeUp_decodeNotification :: "bytes \<Rightarrow> unit option" where
  "WakeUp_decodeNotification p =
     (if length p < 2 \<or> p ! 0 \<noteq> CC_WAKE_UP \<or> p ! 1 \<noteq> WAKE_UP_NOTIFICATION then None else Some ())"

section \<open>Association and Multi Channel Association\<close>

definition CC_ASSOCIATION :: byte where "CC_ASSOCIATION = 0x85"
definition ASSOCIATION_SET :: byte where "ASSOCIATION_SET = 0x01"
definition ASSOCIATION_GET :: byte where "ASSOCIATION_GET = 0x02"
definition ASSOCIATION_REPORT :: byte where "ASSOCIATION_REPORT = 0x03"
definition ASSOCIATION_REMOVE :: byte where "ASSOCIATION_REMOVE = 0x04"
definition ASSOCIATION_GROUPINGS_GET :: byte where "ASSOCIATION_GROUPINGS_GET = 0x05"
definition ASSOCIATION_GROUPINGS_REPORT :: byte where "ASSOCIATION_GROUPINGS_REPORT = 0x06"

record Association_Report =
  aso_groupId :: byte
  aso_maxSupported :: byte
  aso_reportsToFollow :: byte
  aso_members :: bytes

record Association_GroupingsReport =
  aso_supportedGroupings :: byte

definition encodeMemberList :: "byte \<Rightarrow> byte \<Rightarrow> bytes \<Rightarrow> bytes" where
  "encodeMemberList command groupId members = [CC_ASSOCIATION, command, groupId] @ members"

definition Association_encodeSet :: "byte \<Rightarrow> bytes \<Rightarrow> bytes" where
  "Association_encodeSet groupId members = encodeMemberList ASSOCIATION_SET groupId members"

definition Association_encodeRemove :: "byte \<Rightarrow> bytes \<Rightarrow> bytes" where
  "Association_encodeRemove groupId members = encodeMemberList ASSOCIATION_REMOVE groupId members"

definition Association_encodeGet :: "byte \<Rightarrow> bytes" where
  "Association_encodeGet groupId = [CC_ASSOCIATION, ASSOCIATION_GET, groupId]"

definition Association_encodeGroupingsGet :: bytes where
  "Association_encodeGroupingsGet = [CC_ASSOCIATION, ASSOCIATION_GROUPINGS_GET]"

definition Association_decodeReport :: "bytes \<Rightarrow> Association_Report option" where
  "Association_decodeReport p =
     (if length p < 5 \<or> p ! 0 \<noteq> CC_ASSOCIATION \<or> p ! 1 \<noteq> ASSOCIATION_REPORT then None
      else Some \<lparr>aso_groupId = p ! 2, aso_maxSupported = p ! 3, aso_reportsToFollow = p ! 4,
                 aso_members = (if length p > 5 then drop 5 p else [])\<rparr>)"

definition Association_decodeGroupingsReport :: "bytes \<Rightarrow> Association_GroupingsReport option" where
  "Association_decodeGroupingsReport p =
     (if length p < 3 \<or> p ! 0 \<noteq> CC_ASSOCIATION \<or> p ! 1 \<noteq> ASSOCIATION_GROUPINGS_REPORT then None
      else Some \<lparr>aso_supportedGroupings = p ! 2\<rparr>)"

definition CC_MULTI_CHANNEL_ASSOCIATION :: byte where "CC_MULTI_CHANNEL_ASSOCIATION = 0x8E"
definition MULTI_CHANNEL_ASSOCIATION_SET :: byte where "MULTI_CHANNEL_ASSOCIATION_SET = 0x01"
definition MULTI_CHANNEL_ASSOCIATION_GET :: byte where "MULTI_CHANNEL_ASSOCIATION_GET = 0x02"
definition MULTI_CHANNEL_ASSOCIATION_REPORT :: byte where "MULTI_CHANNEL_ASSOCIATION_REPORT = 0x03"
definition MULTI_CHANNEL_ASSOCIATION_REMOVE :: byte where "MULTI_CHANNEL_ASSOCIATION_REMOVE = 0x04"
definition MULTI_CHANNEL_ASSOCIATION_GROUPINGS_GET :: byte where "MULTI_CHANNEL_ASSOCIATION_GROUPINGS_GET = 0x05"
definition MULTI_CHANNEL_ASSOCIATION_GROUPINGS_REPORT :: byte where "MULTI_CHANNEL_ASSOCIATION_GROUPINGS_REPORT = 0x06"
definition MCA_MARKER :: byte where "MCA_MARKER = 0x00"

record EndpointMember =
  em_nodeId :: byte
  em_endpoint :: byte

record MultichannelAssociation_Report =
  mca_groupId :: byte
  mca_maxSupported :: byte
  mca_reportsToFollow :: byte
  mca_nodeMembers :: bytes
  mca_endpointMembers :: "EndpointMember list"

definition encodeMembers :: "byte \<Rightarrow> byte \<Rightarrow> bytes \<Rightarrow> EndpointMember list \<Rightarrow> bool \<Rightarrow> bytes" where
  "encodeMembers command groupId nodeMembers endpointMembers emitMarker =
     [CC_MULTI_CHANNEL_ASSOCIATION, command, groupId] @ nodeMembers
       @ (if emitMarker
          then MCA_MARKER # concat (map (\<lambda>e. [em_nodeId e, em_endpoint e]) endpointMembers)
          else [])"

definition MultichannelAssociation_encodeSet :: "byte \<Rightarrow> bytes \<Rightarrow> EndpointMember list \<Rightarrow> bytes" where
  "MultichannelAssociation_encodeSet groupId nodeMembers endpointMembers =
     encodeMembers MULTI_CHANNEL_ASSOCIATION_SET groupId nodeMembers endpointMembers True"

definition MultichannelAssociation_encodeRemove :: "byte \<Rightarrow> bytes \<Rightarrow> EndpointMember list \<Rightarrow> bytes" where
  "MultichannelAssociation_encodeRemove groupId nodeMembers endpointMembers =
     (let removeAll = (nodeMembers = [] \<and> endpointMembers = []) in
      encodeMembers MULTI_CHANNEL_ASSOCIATION_REMOVE groupId nodeMembers endpointMembers (\<not> removeAll))"

definition MultichannelAssociation_encodeGet :: "byte \<Rightarrow> bytes" where
  "MultichannelAssociation_encodeGet groupId = [CC_MULTI_CHANNEL_ASSOCIATION, MULTI_CHANNEL_ASSOCIATION_GET, groupId]"

definition MultichannelAssociation_encodeGroupingsGet :: bytes where
  "MultichannelAssociation_encodeGroupingsGet = [CC_MULTI_CHANNEL_ASSOCIATION, MULTI_CHANNEL_ASSOCIATION_GROUPINGS_GET]"

text \<open>The loop over the bytes behind the marker, two at a time.\<close>

fun endpointPairs :: "bytes \<Rightarrow> EndpointMember list" where
  "endpointPairs (n # e # rest) = \<lparr>em_nodeId = n, em_endpoint = e\<rparr> # endpointPairs rest"
| "endpointPairs _ = []"

definition MultichannelAssociation_decodeReport :: "bytes \<Rightarrow> MultichannelAssociation_Report option" where
  "MultichannelAssociation_decodeReport p =
     (if length p < 5 \<or> p ! 0 \<noteq> CC_MULTI_CHANNEL_ASSOCIATION \<or> p ! 1 \<noteq> MULTI_CHANNEL_ASSOCIATION_REPORT then None
      else let remaining = drop 5 p;
               nodes = takeWhile (\<lambda>b. b \<noteq> MCA_MARKER) remaining;
               fromMarker = dropWhile (\<lambda>b. b \<noteq> MCA_MARKER) remaining;
               out = \<lparr>mca_groupId = p ! 2, mca_maxSupported = p ! 3, mca_reportsToFollow = p ! 4,
                      mca_nodeMembers = nodes, mca_endpointMembers = []\<rparr>
           in case fromMarker of
                [] \<Rightarrow> Some out
              | _ # endpointBytes \<Rightarrow>
                  if length endpointBytes mod 2 \<noteq> 0 then None
                  else Some (out\<lparr>mca_endpointMembers := endpointPairs endpointBytes\<rparr>))"

definition MultichannelAssociation_decodeGroupingsReport :: "bytes \<Rightarrow> Association_GroupingsReport option" where
  "MultichannelAssociation_decodeGroupingsReport p =
     (if length p < 3 \<or> p ! 0 \<noteq> CC_MULTI_CHANNEL_ASSOCIATION \<or> p ! 1 \<noteq> MULTI_CHANNEL_ASSOCIATION_GROUPINGS_REPORT
      then None
      else Some \<lparr>aso_supportedGroupings = p ! 2\<rparr>)"

section \<open>Multi Channel\<close>

definition CC_MULTI_CHANNEL :: byte where "CC_MULTI_CHANNEL = 0x60"
definition MULTI_CHANNEL_ENDPOINT_GET :: byte where "MULTI_CHANNEL_ENDPOINT_GET = 0x07"
definition MULTI_CHANNEL_ENDPOINT_REPORT :: byte where "MULTI_CHANNEL_ENDPOINT_REPORT = 0x08"
definition MULTI_CHANNEL_CAPABILITY_GET :: byte where "MULTI_CHANNEL_CAPABILITY_GET = 0x09"
definition MULTI_CHANNEL_CAPABILITY_REPORT :: byte where "MULTI_CHANNEL_CAPABILITY_REPORT = 0x0A"
definition MULTI_CHANNEL_ENCAP :: byte where "MULTI_CHANNEL_ENCAP = 0x0D"
definition ENDPOINT_MASK :: byte where "ENDPOINT_MASK = 0x7F"
definition BIT_ADDRESS_FLAG :: byte where "BIT_ADDRESS_FLAG = 0x80"
definition ENDPOINT_DYNAMIC_FLAG :: byte where "ENDPOINT_DYNAMIC_FLAG = 0x80"
definition ENDPOINT_IDENTICAL_FLAG :: byte where "ENDPOINT_IDENTICAL_FLAG = 0x40"

record MultiChannel_Encap =
  mch_sourceEndpoint :: byte
  mch_destinationEndpoint :: byte
  mch_bitAddress :: bool
  mch_innerCommand :: bytes

record MultiChannel_EndpointReport =
  mch_endpointCount :: byte
  mch_dynamic :: bool
  mch_identical :: bool

record MultiChannel_CapabilityReport =
  mch_endpoint :: byte
  mch_generic :: byte
  mch_specific :: byte
  mch_commandClasses :: bytes

definition MultiChannel_decodeEncap :: "bytes \<Rightarrow> MultiChannel_Encap option" where
  "MultiChannel_decodeEncap p =
     (if length p \<le> 4 \<or> p ! 0 \<noteq> CC_MULTI_CHANNEL \<or> p ! 1 \<noteq> MULTI_CHANNEL_ENCAP then None
      else Some \<lparr>mch_sourceEndpoint = p ! 2 AND ENDPOINT_MASK,
                 mch_destinationEndpoint = p ! 3 AND ENDPOINT_MASK,
                 mch_bitAddress = (p ! 3 AND BIT_ADDRESS_FLAG \<noteq> 0),
                 mch_innerCommand = drop 4 p\<rparr>)"

definition MultiChannel_encodeEncap :: "byte \<Rightarrow> byte \<Rightarrow> bytes \<Rightarrow> bytes" where
  "MultiChannel_encodeEncap sourceEndpoint destinationEndpoint innerCommand =
     [CC_MULTI_CHANNEL, MULTI_CHANNEL_ENCAP, sourceEndpoint AND ENDPOINT_MASK,
      destinationEndpoint AND ENDPOINT_MASK] @ innerCommand"

definition MultiChannel_encodeEndpointGet :: bytes where
  "MultiChannel_encodeEndpointGet = [CC_MULTI_CHANNEL, MULTI_CHANNEL_ENDPOINT_GET]"

definition MultiChannel_decodeEndpointReport :: "bytes \<Rightarrow> MultiChannel_EndpointReport option" where
  "MultiChannel_decodeEndpointReport p =
     (if length p < 4 \<or> p ! 0 \<noteq> CC_MULTI_CHANNEL \<or> p ! 1 \<noteq> MULTI_CHANNEL_ENDPOINT_REPORT then None
      else let properties = p ! 2 in
        Some \<lparr>mch_endpointCount = p ! 3 AND ENDPOINT_MASK,
              mch_dynamic = (properties AND ENDPOINT_DYNAMIC_FLAG \<noteq> 0),
              mch_identical = (properties AND ENDPOINT_IDENTICAL_FLAG \<noteq> 0)\<rparr>)"

definition MultiChannel_encodeCapabilityGet :: "byte \<Rightarrow> bytes" where
  "MultiChannel_encodeCapabilityGet ep =
     [CC_MULTI_CHANNEL, MULTI_CHANNEL_CAPABILITY_GET, ep AND ENDPOINT_MASK]"

definition MultiChannel_decodeCapabilityReport :: "bytes \<Rightarrow> MultiChannel_CapabilityReport option" where
  "MultiChannel_decodeCapabilityReport p =
     (if length p < 5 \<or> p ! 0 \<noteq> CC_MULTI_CHANNEL \<or> p ! 1 \<noteq> MULTI_CHANNEL_CAPABILITY_REPORT then None
      else Some \<lparr>mch_endpoint = p ! 2 AND ENDPOINT_MASK, mch_generic = p ! 3, mch_specific = p ! 4,
                 mch_commandClasses = drop 5 p\<rparr>)"

section \<open>Every decoder stands behind its header\<close>

interpretation basic_dec: headed_decoder Basic_decodeReport CC_BASIC
  BASIC_REPORT
  by unfold_locales (auto simp: Basic_decodeReport_def has_header_def Let_def split: if_splits list.splits)

interpretation basicSet_dec: headed_decoder Basic_decodeSet CC_BASIC
  BASIC_SET
  by unfold_locales (auto simp: Basic_decodeSet_def has_header_def Let_def split: if_splits list.splits)

interpretation binarySwitch_dec: headed_decoder BinarySwitch_decodeReport CC_SWITCH_BINARY
  SWITCH_BINARY_REPORT
  by unfold_locales (auto simp: BinarySwitch_decodeReport_def has_header_def Let_def split: if_splits list.splits)

interpretation multilevelSwitch_dec: headed_decoder MultilevelSwitch_decodeReport CC_SWITCH_MULTILEVEL
  SWITCH_MULTILEVEL_REPORT
  by unfold_locales (auto simp: MultilevelSwitch_decodeReport_def has_header_def Let_def split: if_splits list.splits)

interpretation battery_dec: headed_decoder Battery_decodeReport CC_BATTERY
  BATTERY_REPORT
  by unfold_locales (auto simp: Battery_decodeReport_def has_header_def Let_def split: if_splits list.splits)

interpretation indicator_dec: headed_decoder Indicator_decodeReport CC_INDICATOR
  INDICATOR_REPORT
  by unfold_locales (auto simp: Indicator_decodeReport_def has_header_def Let_def split: if_splits list.splits)

interpretation centralSceneNotification_dec: headed_decoder CentralScene_decodeNotification CC_CENTRAL_SCENE
  CENTRAL_SCENE_NOTIFICATION
  by unfold_locales (auto simp: CentralScene_decodeNotification_def has_header_def Let_def split: if_splits list.splits)

interpretation sceneActivationSet_dec: headed_decoder SceneActivation_decodeSet CC_SCENE_ACTIVATION
  SCENE_ACTIVATION_SET
  by unfold_locales (auto simp: SceneActivation_decodeSet_def has_header_def Let_def split: if_splits list.splits)

interpretation sensorBinary_dec: headed_decoder SensorBinary_decodeReport CC_SENSOR_BINARY
  SENSOR_BINARY_REPORT
  by unfold_locales (auto simp: SensorBinary_decodeReport_def has_header_def Let_def split: if_splits list.splits)

interpretation colorSwitch_dec: headed_decoder ColorSwitch_decodeReport CC_SWITCH_COLOR
  SWITCH_COLOR_REPORT
  by unfold_locales (auto simp: ColorSwitch_decodeReport_def has_header_def Let_def split: if_splits list.splits)

interpretation doorLockOperationReport_dec: headed_decoder DoorLock_decodeOperationReport CC_DOOR_LOCK
  DOOR_LOCK_REPORT
  by unfold_locales (auto simp: DoorLock_decodeOperationReport_def has_header_def Let_def split: if_splits list.splits)

interpretation userCode_dec: headed_decoder UserCode_decodeReport CC_USER_CODE
  USER_CODE_REPORT
  by unfold_locales (auto simp: UserCode_decodeReport_def has_header_def Let_def split: if_splits list.splits)

interpretation userCodeUsersNumberReport_dec: headed_decoder UserCode_decodeUsersNumberReport CC_USER_CODE
  USER_CODE_USERS_NUMBER_REPORT
  by unfold_locales (auto simp: UserCode_decodeUsersNumberReport_def has_header_def Let_def split: if_splits list.splits)

interpretation thermostatMode_dec: headed_decoder ThermostatMode_decodeReport CC_THERMOSTAT_MODE
  THERMOSTAT_MODE_REPORT
  by unfold_locales (auto simp: ThermostatMode_decodeReport_def has_header_def Let_def split: if_splits list.splits)

interpretation thermostatOperatingState_dec: headed_decoder ThermostatOperatingState_decodeReport CC_THERMOSTAT_OPERATING_STATE
  THERMOSTAT_OPERATING_STATE_REPORT
  by unfold_locales (auto simp: ThermostatOperatingState_decodeReport_def has_header_def Let_def split: if_splits list.splits)

interpretation thermostatFanMode_dec: headed_decoder ThermostatFanMode_decodeReport CC_THERMOSTAT_FAN_MODE
  THERMOSTAT_FAN_MODE_REPORT
  by unfold_locales (auto simp: ThermostatFanMode_decodeReport_def has_header_def Let_def split: if_splits list.splits)

interpretation nodeVersion_dec: headed_decoder NodeVersion_decodeReport CC_VERSION
  VERSION_REPORT
  by unfold_locales (auto simp: NodeVersion_decodeReport_def has_header_def Let_def split: if_splits list.splits)

interpretation manufacturerSpecific_dec: headed_decoder ManufacturerSpecific_decodeReport CC_MANUFACTURER_SPECIFIC
  MANUFACTURER_SPECIFIC_REPORT
  by unfold_locales (auto simp: ManufacturerSpecific_decodeReport_def has_header_def Let_def split: if_splits list.splits)

interpretation zWavePlusInfo_dec: headed_decoder ZWavePlusInfo_decodeReport CC_ZWAVEPLUS_INFO
  ZWAVEPLUS_INFO_REPORT
  by unfold_locales (auto simp: ZWavePlusInfo_decodeReport_def has_header_def Let_def split: if_splits list.splits)

interpretation notification_dec: headed_decoder Notification_decodeReport CC_NOTIFICATION
  NOTIFICATION_REPORT
  by unfold_locales (auto simp: Notification_decodeReport_def has_header_def Let_def split: if_splits list.splits)

interpretation supervision_dec: headed_decoder Supervision_decodeReport CC_SUPERVISION
  SUPERVISION_REPORT
  by unfold_locales (auto simp: Supervision_decodeReport_def has_header_def Let_def split: if_splits list.splits)

interpretation wakeUpIntervalReport_dec: headed_decoder WakeUp_decodeIntervalReport CC_WAKE_UP
  WAKE_UP_REPORT
  by unfold_locales (auto simp: WakeUp_decodeIntervalReport_def has_header_def Let_def split: if_splits list.splits)

interpretation wakeUpNotification_dec: headed_decoder WakeUp_decodeNotification CC_WAKE_UP
  WAKE_UP_NOTIFICATION
  by unfold_locales (auto simp: WakeUp_decodeNotification_def has_header_def Let_def split: if_splits list.splits)

interpretation association_dec: headed_decoder Association_decodeReport CC_ASSOCIATION
  ASSOCIATION_REPORT
  by unfold_locales (auto simp: Association_decodeReport_def has_header_def Let_def split: if_splits list.splits)

interpretation associationGroupingsReport_dec: headed_decoder Association_decodeGroupingsReport CC_ASSOCIATION
  ASSOCIATION_GROUPINGS_REPORT
  by unfold_locales (auto simp: Association_decodeGroupingsReport_def has_header_def Let_def split: if_splits list.splits)

interpretation multichannelAssociation_dec: headed_decoder MultichannelAssociation_decodeReport CC_MULTI_CHANNEL_ASSOCIATION
  MULTI_CHANNEL_ASSOCIATION_REPORT
  by unfold_locales (auto simp: MultichannelAssociation_decodeReport_def has_header_def Let_def split: if_splits list.splits)

interpretation multichannelAssociationGroupingsReport_dec: headed_decoder MultichannelAssociation_decodeGroupingsReport CC_MULTI_CHANNEL_ASSOCIATION
  MULTI_CHANNEL_ASSOCIATION_GROUPINGS_REPORT
  by unfold_locales (auto simp: MultichannelAssociation_decodeGroupingsReport_def has_header_def Let_def split: if_splits list.splits)

interpretation multiChannelEncap_dec: headed_decoder MultiChannel_decodeEncap CC_MULTI_CHANNEL
  MULTI_CHANNEL_ENCAP
  by unfold_locales (auto simp: MultiChannel_decodeEncap_def has_header_def Let_def split: if_splits list.splits)

interpretation multiChannelEndpointReport_dec: headed_decoder MultiChannel_decodeEndpointReport CC_MULTI_CHANNEL
  MULTI_CHANNEL_ENDPOINT_REPORT
  by unfold_locales (auto simp: MultiChannel_decodeEndpointReport_def has_header_def Let_def split: if_splits list.splits)

interpretation multiChannelCapabilityReport_dec: headed_decoder MultiChannel_decodeCapabilityReport CC_MULTI_CHANNEL
  MULTI_CHANNEL_CAPABILITY_REPORT
  by unfold_locales (auto simp: MultiChannel_decodeCapabilityReport_def has_header_def Let_def split: if_splits list.splits)

text \<open>The decoders with their headers, and which of them accept a payload.\<close>

definition ccHeaders :: "(byte \<times> byte) list" where
  "ccHeaders =
     [(CC_SENSOR_MULTILEVEL, SENSOR_MULTILEVEL_REPORT),
      (CC_THERMOSTAT_SETPOINT, THERMOSTAT_SETPOINT_REPORT),
      (CC_CONFIGURATION, CONFIGURATION_REPORT),
      (CC_METER, METER_REPORT),
      (CC_BASIC, BASIC_REPORT),
      (CC_BASIC, BASIC_SET),
      (CC_SWITCH_BINARY, SWITCH_BINARY_REPORT),
      (CC_SWITCH_MULTILEVEL, SWITCH_MULTILEVEL_REPORT),
      (CC_BATTERY, BATTERY_REPORT),
      (CC_INDICATOR, INDICATOR_REPORT),
      (CC_CENTRAL_SCENE, CENTRAL_SCENE_NOTIFICATION),
      (CC_SCENE_ACTIVATION, SCENE_ACTIVATION_SET),
      (CC_SENSOR_BINARY, SENSOR_BINARY_REPORT),
      (CC_SWITCH_COLOR, SWITCH_COLOR_REPORT),
      (CC_DOOR_LOCK, DOOR_LOCK_REPORT),
      (CC_USER_CODE, USER_CODE_REPORT),
      (CC_USER_CODE, USER_CODE_USERS_NUMBER_REPORT),
      (CC_THERMOSTAT_MODE, THERMOSTAT_MODE_REPORT),
      (CC_THERMOSTAT_OPERATING_STATE, THERMOSTAT_OPERATING_STATE_REPORT),
      (CC_THERMOSTAT_FAN_MODE, THERMOSTAT_FAN_MODE_REPORT),
      (CC_VERSION, VERSION_REPORT),
      (CC_MANUFACTURER_SPECIFIC, MANUFACTURER_SPECIFIC_REPORT),
      (CC_ZWAVEPLUS_INFO, ZWAVEPLUS_INFO_REPORT),
      (CC_NOTIFICATION, NOTIFICATION_REPORT),
      (CC_SUPERVISION, SUPERVISION_REPORT),
      (CC_WAKE_UP, WAKE_UP_REPORT),
      (CC_WAKE_UP, WAKE_UP_NOTIFICATION),
      (CC_ASSOCIATION, ASSOCIATION_REPORT),
      (CC_ASSOCIATION, ASSOCIATION_GROUPINGS_REPORT),
      (CC_MULTI_CHANNEL_ASSOCIATION, MULTI_CHANNEL_ASSOCIATION_REPORT),
      (CC_MULTI_CHANNEL_ASSOCIATION, MULTI_CHANNEL_ASSOCIATION_GROUPINGS_REPORT),
      (CC_MULTI_CHANNEL, MULTI_CHANNEL_ENCAP),
      (CC_MULTI_CHANNEL, MULTI_CHANNEL_ENDPOINT_REPORT),
      (CC_MULTI_CHANNEL, MULTI_CHANNEL_CAPABILITY_REPORT)]"

definition ccAcceptances :: "bytes \<Rightarrow> bool list" where
  "ccAcceptances p =
     [SensorMultilevel_decodeReport p \<noteq> None,
      ThermostatSetpoint_decodeReport p \<noteq> None,
      Configuration_decodeReport p \<noteq> None,
      Meter_decodeReport p \<noteq> None,
      Basic_decodeReport p \<noteq> None,
      Basic_decodeSet p \<noteq> None,
      BinarySwitch_decodeReport p \<noteq> None,
      MultilevelSwitch_decodeReport p \<noteq> None,
      Battery_decodeReport p \<noteq> None,
      Indicator_decodeReport p \<noteq> None,
      CentralScene_decodeNotification p \<noteq> None,
      SceneActivation_decodeSet p \<noteq> None,
      SensorBinary_decodeReport p \<noteq> None,
      ColorSwitch_decodeReport p \<noteq> None,
      DoorLock_decodeOperationReport p \<noteq> None,
      UserCode_decodeReport p \<noteq> None,
      UserCode_decodeUsersNumberReport p \<noteq> None,
      ThermostatMode_decodeReport p \<noteq> None,
      ThermostatOperatingState_decodeReport p \<noteq> None,
      ThermostatFanMode_decodeReport p \<noteq> None,
      NodeVersion_decodeReport p \<noteq> None,
      ManufacturerSpecific_decodeReport p \<noteq> None,
      ZWavePlusInfo_decodeReport p \<noteq> None,
      Notification_decodeReport p \<noteq> None,
      Supervision_decodeReport p \<noteq> None,
      WakeUp_decodeIntervalReport p \<noteq> None,
      WakeUp_decodeNotification p \<noteq> None,
      Association_decodeReport p \<noteq> None,
      Association_decodeGroupingsReport p \<noteq> None,
      MultichannelAssociation_decodeReport p \<noteq> None,
      MultichannelAssociation_decodeGroupingsReport p \<noteq> None,
      MultiChannel_decodeEncap p \<noteq> None,
      MultiChannel_decodeEndpointReport p \<noteq> None,
      MultiChannel_decodeCapabilityReport p \<noteq> None]"

lemmas cc_header_defs = ASSOCIATION_GROUPINGS_REPORT_def
  ASSOCIATION_REPORT_def
  BASIC_REPORT_def
  BASIC_SET_def
  BATTERY_REPORT_def
  CC_ASSOCIATION_def
  CC_BASIC_def
  CC_BATTERY_def
  CC_CENTRAL_SCENE_def
  CC_CONFIGURATION_def
  CC_DOOR_LOCK_def
  CC_INDICATOR_def
  CC_MANUFACTURER_SPECIFIC_def
  CC_METER_def
  CC_MULTI_CHANNEL_def
  CC_MULTI_CHANNEL_ASSOCIATION_def
  CC_NOTIFICATION_def
  CC_SCENE_ACTIVATION_def
  CC_SENSOR_BINARY_def
  CC_SENSOR_MULTILEVEL_def
  CC_SUPERVISION_def
  CC_SWITCH_BINARY_def
  CC_SWITCH_COLOR_def
  CC_SWITCH_MULTILEVEL_def
  CC_THERMOSTAT_FAN_MODE_def
  CC_THERMOSTAT_MODE_def
  CC_THERMOSTAT_OPERATING_STATE_def
  CC_THERMOSTAT_SETPOINT_def
  CC_USER_CODE_def
  CC_VERSION_def
  CC_WAKE_UP_def
  CC_ZWAVEPLUS_INFO_def
  CENTRAL_SCENE_NOTIFICATION_def
  CONFIGURATION_REPORT_def
  DOOR_LOCK_REPORT_def
  INDICATOR_REPORT_def
  MANUFACTURER_SPECIFIC_REPORT_def
  METER_REPORT_def
  MULTI_CHANNEL_ASSOCIATION_GROUPINGS_REPORT_def
  MULTI_CHANNEL_ASSOCIATION_REPORT_def
  MULTI_CHANNEL_CAPABILITY_REPORT_def
  MULTI_CHANNEL_ENCAP_def
  MULTI_CHANNEL_ENDPOINT_REPORT_def
  NOTIFICATION_REPORT_def
  SCENE_ACTIVATION_SET_def
  SENSOR_BINARY_REPORT_def
  SENSOR_MULTILEVEL_REPORT_def
  SUPERVISION_REPORT_def
  SWITCH_BINARY_REPORT_def
  SWITCH_COLOR_REPORT_def
  SWITCH_MULTILEVEL_REPORT_def
  THERMOSTAT_FAN_MODE_REPORT_def
  THERMOSTAT_MODE_REPORT_def
  THERMOSTAT_OPERATING_STATE_REPORT_def
  THERMOSTAT_SETPOINT_REPORT_def
  USER_CODE_REPORT_def
  USER_CODE_USERS_NUMBER_REPORT_def
  VERSION_REPORT_def
  WAKE_UP_NOTIFICATION_def
  WAKE_UP_REPORT_def
  ZWAVEPLUS_INFO_REPORT_def

lemmas cc_accepted =
  sensor_multilevel.accepted_headed
  thermostat_setpoint.accepted_headed
  configuration.accepted_headed
  meter.accepted_headed
  basic_dec.accepted_headed
  basicSet_dec.accepted_headed
  binarySwitch_dec.accepted_headed
  multilevelSwitch_dec.accepted_headed
  battery_dec.accepted_headed
  indicator_dec.accepted_headed
  centralSceneNotification_dec.accepted_headed
  sceneActivationSet_dec.accepted_headed
  sensorBinary_dec.accepted_headed
  colorSwitch_dec.accepted_headed
  doorLockOperationReport_dec.accepted_headed
  userCode_dec.accepted_headed
  userCodeUsersNumberReport_dec.accepted_headed
  thermostatMode_dec.accepted_headed
  thermostatOperatingState_dec.accepted_headed
  thermostatFanMode_dec.accepted_headed
  nodeVersion_dec.accepted_headed
  manufacturerSpecific_dec.accepted_headed
  zWavePlusInfo_dec.accepted_headed
  notification_dec.accepted_headed
  supervision_dec.accepted_headed
  wakeUpIntervalReport_dec.accepted_headed
  wakeUpNotification_dec.accepted_headed
  association_dec.accepted_headed
  associationGroupingsReport_dec.accepted_headed
  multichannelAssociation_dec.accepted_headed
  multichannelAssociationGroupingsReport_dec.accepted_headed
  multiChannelEncap_dec.accepted_headed
  multiChannelEndpointReport_dec.accepted_headed
  multiChannelCapabilityReport_dec.accepted_headed

lemma ccAcceptances_headed:
  "list_all2 (\<lambda>a h. a \<longrightarrow> has_header (fst h) (snd h) p) (ccAcceptances p) ccHeaders"
  unfolding ccAcceptances_def ccHeaders_def
  by (simp only: list.rel_inject list.rel_intros simp_thms fst_conv snd_conv)
    (intro conjI cc_accepted)

lemma ccHeaders_distinct: "distinct ccHeaders"
  by (simp add: ccHeaders_def cc_header_defs)

lemma filter_unique_le_1:
  "distinct xs \<Longrightarrow> (\<And>x y. P x \<Longrightarrow> P y \<Longrightarrow> x = y) \<Longrightarrow> length (filter P xs) \<le> 1"
proof (induction xs)
  case (Cons x xs)
  show ?case
  proof (cases "P x")
    case True
    then have "\<forall>y \<in> set xs. \<not> P y"
      using Cons.prems by auto
    then have "filter P xs = []"
      by (simp add: filter_empty_conv)
    then show ?thesis by simp
  next
    case False
    then show ?thesis
      using Cons by simp
  qed
qed simp

section \<open>Properties\<close>

text \<open>
  No payload is accepted by two of the application decoders: they check the command-class and
  command bytes first, and no two of them share both.
\<close>

theorem cc_decoders_exclusive: "length (filter id (ccAcceptances p)) \<le> 1"
proof -
  have "length (filter (\<lambda>h. has_header (fst h) (snd h) p) ccHeaders) \<le> 1"
    by (rule filter_unique_le_1 [OF ccHeaders_distinct]) (metis has_header_unique prod.collapse)
  then show ?thesis
    using filter_length_list_all2 [OF ccAcceptances_headed] le_trans by blast
qed

text \<open>The endpoint list is read back pair by pair.\<close>

lemma endpointPairs_concat:
  "endpointPairs (concat (map (\<lambda>e. [em_nodeId e, em_endpoint e]) es)) = es"
  by (induction es) auto

lemma length_endpoint_bytes:
  "length (concat (map (\<lambda>e. [em_nodeId e, em_endpoint e]) es)) mod 2 = 0"
  by (induction es) auto

lemma takeWhile_dropWhile_marker:
  assumes "m \<notin> set xs"
  shows "takeWhile (\<lambda>b. b \<noteq> m) (xs @ m # ys) = xs" and "dropWhile (\<lambda>b. b \<noteq> m) (xs @ m # ys) = m # ys"
  using assms by (auto simp: takeWhile_append dropWhile_append)

text \<open>
  A node that reports the association group as it was set is understood: when no node member is
  the marker value, the report built from the member bytes of a Set decodes to the same node
  members and the same endpoint members.
\<close>

theorem association_echo:
  assumes "MCA_MARKER \<notin> set nodes"
  shows "MultichannelAssociation_decodeReport
      ([CC_MULTI_CHANNEL_ASSOCIATION, MULTI_CHANNEL_ASSOCIATION_REPORT, g, mx, rtf]
         @ drop 3 (MultichannelAssociation_encodeSet g nodes es)) =
    Some \<lparr>mca_groupId = g, mca_maxSupported = mx, mca_reportsToFollow = rtf,
          mca_nodeMembers = nodes, mca_endpointMembers = es\<rparr>"
  by (simp add: MultichannelAssociation_decodeReport_def MultichannelAssociation_encodeSet_def
      encodeMembers_def takeWhile_dropWhile_marker [OF assms] Let_def endpointPairs_concat
      length_endpoint_bytes)

theorem association_echo_witness:
  "MultichannelAssociation_decodeReport
      ([CC_MULTI_CHANNEL_ASSOCIATION, MULTI_CHANNEL_ASSOCIATION_REPORT, 2, 5, 0]
         @ drop 3 (MultichannelAssociation_encodeSet 2 [1, 9] [\<lparr>em_nodeId = 7, em_endpoint = 0\<rparr>])) =
    Some \<lparr>mca_groupId = 2, mca_maxSupported = 5, mca_reportsToFollow = 0,
          mca_nodeMembers = [1, 9], mca_endpointMembers = [\<lparr>em_nodeId = 7, em_endpoint = 0\<rparr>]\<rparr>"
  by (rule association_echo) (simp add: MCA_MARKER_def)

text \<open>The Multi Channel wrapper as a codec.\<close>

lemma bit_127_int_iff: "bit (127 :: int) n \<longleftrightarrow> n < 7"
proof -
  have "(127 :: int) = mask 7" by (simp add: mask_eq_exp_minus_1)
  then show ?thesis by (simp only: bit_mask_iff) simp
qed

lemma endpoint_no_flag: "(e AND ENDPOINT_MASK) AND BIT_ADDRESS_FLAG = 0"
  unfolding ENDPOINT_MASK_def BIT_ADDRESS_FLAG_def
  by (rule bit_word_eqI) (auto simp: bit_simps bit_127_int_iff bit_128_int_iff)

lemma endpoint_mask_idem: "(e AND ENDPOINT_MASK) AND ENDPOINT_MASK = e AND ENDPOINT_MASK"
  by (simp add: and.assoc)

lemma decode_encode_encap:
  "inner \<noteq> [] \<Longrightarrow> MultiChannel_decodeEncap (MultiChannel_encodeEncap s d inner) =
   Some \<lparr>mch_sourceEndpoint = s AND ENDPOINT_MASK, mch_destinationEndpoint = d AND ENDPOINT_MASK,
         mch_bitAddress = False, mch_innerCommand = inner\<rparr>"
  by (simp add: MultiChannel_decodeEncap_def MultiChannel_encodeEncap_def endpoint_no_flag
      endpoint_mask_idem numeral_eq_Suc)

interpretation multiChannel_codec: wire_codec
  "\<lambda>e. MultiChannel_encodeEncap (mch_sourceEndpoint e) (mch_destinationEndpoint e) (mch_innerCommand e)"
  MultiChannel_decodeEncap
  "\<lambda>e. mch_sourceEndpoint e AND ENDPOINT_MASK = mch_sourceEndpoint e \<and>
       mch_destinationEndpoint e AND ENDPOINT_MASK = mch_destinationEndpoint e \<and>
       \<not> mch_bitAddress e \<and> mch_innerCommand e \<noteq> []"
  by unfold_locales (simp add: decode_encode_encap)

text \<open>
  A command wrapped for an endpoint is unwrapped to the same command with both endpoints
  reduced to seven bits and no bit addressing, and two wrapped commands with seven-bit endpoints
  are the same bytes only if endpoints and commands agree.
\<close>

theorem multiChannel_roundtrip:
  assumes "inner \<noteq> []" and "inner' \<noteq> []"
  shows "MultiChannel_decodeEncap (MultiChannel_encodeEncap s d inner) =
      Some \<lparr>mch_sourceEndpoint = s AND 0x7F, mch_destinationEndpoint = d AND 0x7F,
            mch_bitAddress = False, mch_innerCommand = inner\<rparr> \<and>
    (MultiChannel_encodeEncap s d inner = MultiChannel_encodeEncap s' d' inner' \<longleftrightarrow>
      s AND 0x7F = s' AND 0x7F \<and> d AND 0x7F = d' AND 0x7F \<and> inner = inner')"
proof (intro conjI)
  show "MultiChannel_decodeEncap (MultiChannel_encodeEncap s d inner) =
      Some \<lparr>mch_sourceEndpoint = s AND 0x7F, mch_destinationEndpoint = d AND 0x7F,
            mch_bitAddress = False, mch_innerCommand = inner\<rparr>"
    using decode_encode_encap [OF assms(1)] by (simp add: ENDPOINT_MASK_def)
  let ?e = "\<lambda>s d i. \<lparr>mch_sourceEndpoint = s AND ENDPOINT_MASK,
      mch_destinationEndpoint = d AND ENDPOINT_MASK, mch_bitAddress = False, mch_innerCommand = i\<rparr>"
  show "MultiChannel_encodeEncap s d inner = MultiChannel_encodeEncap s' d' inner' \<longleftrightarrow>
      s AND 0x7F = s' AND 0x7F \<and> d AND 0x7F = d' AND 0x7F \<and> inner = inner'"
    using multiChannel_codec.enc_inject [of "?e s d inner" "?e s' d' inner'"] assms
    by (simp add: endpoint_mask_idem MultiChannel_encodeEncap_def ENDPOINT_MASK_def)
qed

theorem multiChannel_roundtrip_witness:
  "MultiChannel_decodeEncap (MultiChannel_encodeEncap 0 0x82 [0x25, 0x02]) =
      Some \<lparr>mch_sourceEndpoint = 0 AND 0x7F, mch_destinationEndpoint = 0x82 AND 0x7F,
            mch_bitAddress = False, mch_innerCommand = [0x25, 0x02]\<rparr>"
  using multiChannel_roundtrip [of "[0x25, 0x02]" "[0x25, 0x02]" 0 "0x82" 0 0] by simp

lemma three_bytes:
  "push_bit 16 (ucast (ucast (drop_bit 16 c AND 0xFF) :: byte))
     OR push_bit 8 (ucast (ucast (drop_bit 8 c AND 0xFF) :: byte))
     OR ucast (ucast (c AND 0xFF) :: byte) = take_bit 24 (c :: u32)"
proof (rule bit_word_eqI)
  fix n
  assume "n < LENGTH(32)"
  then show "bit (push_bit 16 (ucast (ucast (drop_bit 16 c AND 0xFF) :: byte))
     OR push_bit 8 (ucast (ucast (drop_bit 8 c AND 0xFF) :: byte))
     OR ucast (ucast (c AND 0xFF) :: byte) :: u32) n = bit (take_bit 24 c) n"
    by (cases "n < 8"; cases "n < 16") (auto simp: bit_simps bit_255_int_iff)
qed

text \<open>
  The wake-up interval survives a round trip up to its 24-bit limit, above which the limit
  itself is sent.
\<close>

theorem wakeUp_interval:
  "\<exists>b2 b1 b0. WakeUp_encodeIntervalSet secs node = [CC_WAKE_UP, WAKE_UP_SET, b2, b1, b0, node] \<and>
     WakeUp_decodeIntervalReport ([CC_WAKE_UP, WAKE_UP_REPORT, b2, b1, b0, node] @ rest) =
       Some \<lparr>wkp_seconds = (if secs \<le> 0xFFFFFF then secs else 0xFFFFFF), wkp_controllerNodeId = node\<rparr>"
proof -
  let ?c = "min secs INTERVAL_MAX"
  have "?c \<le> INTERVAL_MAX" by simp
  then have "unat ?c < 2 ^ 24"
    by (simp add: word_le_nat_alt INTERVAL_MAX_def)
  then have "take_bit 24 ?c = ?c"
    by (simp add: word_unat_eq_iff unsigned_take_bit_eq take_bit_nat_eq_self)
  moreover note three_bytes [of ?c]
  ultimately show ?thesis
    by (simp add: WakeUp_encodeIntervalSet_def WakeUp_decodeIntervalReport_def Let_def INTERVAL_MAX_def
        min_def)
qed

end
