(* ===== verification/Crc16.thy ===== *)
theory Crc16
  imports Zw_Prelude
begin

text \<open>
  The two CRC-16 implementations of the daemon and what a CRC trailer detects:
  \<open>Crc16Encap::checksum\<close> with its wrapper (\<open>application/Crc16Encap.cpp\<close>) and
  \<open>TransportService::fcs\<close> (\<open>application/TransportService.cpp\<close>).
\<close>

section \<open>Definitions\<close>

definition CRC_INIT :: u16 where "CRC_INIT = 0x1D0F"
definition CRC_POLY :: u16 where "CRC_POLY = 0x1021"
definition FCS_INIT :: u16 where "FCS_INIT = 0x1D0F"
definition FCS_POLY :: u16 where "FCS_POLY = 0x1021"
definition MSB_MASK :: u16 where "MSB_MASK = 0x8000"

text \<open>One turn of the inner loop, and the loop over the bits of one byte.\<close>

definition crcBit :: "u16 \<Rightarrow> u16 \<Rightarrow> u16" where
  "crcBit poly crc = (if crc AND MSB_MASK \<noteq> 0 then push_bit 1 crc XOR poly else push_bit 1 crc)"

definition crcByte :: "u16 \<Rightarrow> u16 \<Rightarrow> byte \<Rightarrow> u16" where
  "crcByte poly crc b = (crcBit poly ^^ 8) (crc XOR push_bit 8 (ucast b))"

definition Crc16Encap_checksum :: "bytes \<Rightarrow> u16" where
  "Crc16Encap_checksum data = foldl (crcByte CRC_POLY) CRC_INIT data"

definition fcs :: "bytes \<Rightarrow> u16" where
  "fcs data = foldl (crcByte FCS_POLY) FCS_INIT data"

definition CC_CRC16_ENCAP :: byte where "CC_CRC16_ENCAP = 0x56"
definition CRC16_ENCAP :: byte where "CRC16_ENCAP = 0x01"

definition Crc16Encap_verifyAndUnwrap :: "bytes \<Rightarrow> bytes option" where
  "Crc16Encap_verifyAndUnwrap payload =
     (if length payload < 5 \<or> payload ! 0 \<noteq> CC_CRC16_ENCAP \<or> payload ! 1 \<noteq> CRC16_ENCAP then None
      else let bodyLen = length payload - 2;
               expected = Crc16Encap_checksum (subspan payload 0 bodyLen);
               actual = be16 (payload ! bodyLen) (payload ! (bodyLen + 1))
           in if expected \<noteq> actual then None
              else Some (subspan payload 2 (bodyLen - 2)))"

definition Crc16Encap_encode :: "bytes \<Rightarrow> bytes" where
  "Crc16Encap_encode innerCommand =
     (let out = [CC_CRC16_ENCAP, CRC16_ENCAP] @ innerCommand; crc = Crc16Encap_checksum out
      in out @ [hi8 crc, lo8 crc])"

definition appendFcs :: "bytes \<Rightarrow> bytes" where
  "appendFcs seg = (let crc = fcs seg in seg @ [hi8 crc, lo8 crc])"

section \<open>The shift register is injective\<close>

lemma msb_test: "crc AND MSB_MASK \<noteq> 0 \<longleftrightarrow> bit (crc :: u16) 15"
  using and_exp_eq_0_iff_not_bit [of crc 15] by (simp add: MSB_MASK_def)

text \<open>
  A polynomial with a constant term keeps the bit that is shifted out in the lowest position,
  so no information is lost.
\<close>

lemma crcBit_inject:
  assumes "bit poly 0"
  shows "crcBit poly a = crcBit poly b \<longleftrightarrow> a = b"
proof
  assume eq: "crcBit poly a = crcBit poly b"
  have low: "bit (crcBit poly c) 0 \<longleftrightarrow> bit c 15" for c
    using assms by (simp add: crcBit_def msb_test bit_simps del: push_bit_Suc)
  then have msb: "bit a 15 \<longleftrightarrow> bit b 15" using eq by metis
  have high: "bit (crcBit poly c) (Suc n) \<longleftrightarrow> (bit c n \<noteq> (bit c 15 \<and> bit poly (Suc n)))" if "n < 15" for c n
    using that by (auto simp: crcBit_def msb_test bit_simps simp del: push_bit_Suc)
  show "a = b"
  proof (rule bit_word_eqI)
    fix n
    assume "n < LENGTH(16)"
    then show "bit a n = bit b n"
      using msb high [of n a] high [of n b] eq by (cases "n = 15") auto
  qed
qed simp

lemma crcBit_power_inject: "bit poly 0 \<Longrightarrow> (crcBit poly ^^ k) a = (crcBit poly ^^ k) b \<longleftrightarrow> a = b"
  by (induction k) (simp_all add: crcBit_inject)

lemma crcByte_inject_state: "bit poly 0 \<Longrightarrow> crcByte poly a x = crcByte poly b x \<longleftrightarrow> a = b"
  by (simp add: crcByte_def crcBit_power_inject)

lemma crcByte_inject_byte: "bit poly 0 \<Longrightarrow> crcByte poly a x = crcByte poly a y \<longleftrightarrow> x = y"
proof -
  assume "bit poly 0"
  moreover have "push_bit 8 (ucast x :: u16) = push_bit 8 (ucast y) \<longleftrightarrow> x = y"
    by (metis hi8_be16 be16_def)
  ultimately show ?thesis by (simp add: crcByte_def crcBit_power_inject)
qed

lemma foldl_crc_inject:
  "bit poly 0 \<Longrightarrow> foldl (crcByte poly) a xs = foldl (crcByte poly) b xs \<longleftrightarrow> a = b"
  by (induction xs arbitrary: a b) (simp_all add: crcByte_inject_state)

lemma foldl_crc_update:
  assumes "bit poly 0" and "i < length xs"
    and "foldl (crcByte poly) a (xs[i := y]) = foldl (crcByte poly) a xs"
  shows "y = xs ! i"
proof -
  have split: "xs[i := y] = take i xs @ y # drop (Suc i) xs" "xs = take i xs @ xs ! i # drop (Suc i) xs"
    using assms(2) by (simp_all add: upd_conv_take_nth_drop id_take_nth_drop)
  let ?c = "foldl (crcByte poly) a (take i xs)"
  have "foldl (crcByte poly) (crcByte poly ?c y) (drop (Suc i) xs) =
        foldl (crcByte poly) (crcByte poly ?c (xs ! i)) (drop (Suc i) xs)"
    using assms(3) split by (metis foldl_append foldl_Cons)
  then show ?thesis
    using assms(1) by (simp add: foldl_crc_inject crcByte_inject_byte)
qed

section \<open>Interface: a checksum trailer\<close>

text \<open>
  A 16-bit code that tells apart two messages differing in one byte, written big-endian behind
  the message.
\<close>

locale trailer_code =
  fixes code :: "bytes \<Rightarrow> u16"
  assumes code_update: "i < length xs \<Longrightarrow> code (xs[i := y]) = code xs \<Longrightarrow> y = xs ! i"
begin

lemma damaged_body_detected:
  assumes "i < length xs" and "y \<noteq> xs ! i"
  shows "code (xs[i := y]) \<noteq> be16 (hi8 (code xs)) (lo8 (code xs))"
  using code_update [OF assms(1), of y] assms(2) by auto

lemma damaged_trailer_detected:
  "y \<noteq> hi8 (code xs) \<Longrightarrow> code xs \<noteq> be16 y (lo8 (code xs))"
  "y \<noteq> lo8 (code xs) \<Longrightarrow> code xs \<noteq> be16 (hi8 (code xs)) y"
  by (metis hi8_be16, metis lo8_be16)

text \<open>One damaged byte anywhere in message and trailer leaves the two inconsistent.\<close>

lemma damage_detected:
  assumes "i < length xs + 2" and "y \<noteq> (xs @ [hi8 (code xs), lo8 (code xs)]) ! i"
    and "p = (xs @ [hi8 (code xs), lo8 (code xs)])[i := y]"
  shows "code (take (length xs) p) \<noteq> be16 (p ! length xs) (p ! (length xs + 1))"
proof -
  let ?n = "length xs"
  consider "i < ?n" | "i = ?n" | "i = ?n + 1" using assms(1) by linarith
  then show ?thesis
  proof cases
    case 1
    then have "take ?n p = xs[i := y]" "p ! ?n = hi8 (code xs)" "p ! (?n + 1) = lo8 (code xs)"
      using assms(3) by (simp_all add: list_update_append1 nth_append)
    moreover have "y \<noteq> xs ! i" using 1 assms(2) by (simp add: nth_append)
    ultimately show ?thesis using 1 code_update by force
  next
    case 2
    then have "p = xs @ [y, lo8 (code xs)]" using assms(3) by (simp add: list_update_append)
    moreover have "y \<noteq> hi8 (code xs)" using 2 assms(2) by simp
    ultimately show ?thesis using damaged_trailer_detected(1) by (simp add: nth_append)
  next
    case 3
    then have "p = xs @ [hi8 (code xs), y]" using assms(3) by (simp add: list_update_append)
    moreover have "y \<noteq> lo8 (code xs)" using 3 assms(2) by (simp add: nth_append)
    ultimately show ?thesis using damaged_trailer_detected(2) by (simp add: nth_append)
  qed
qed

end

interpretation crc: trailer_code Crc16Encap_checksum
  by unfold_locales (auto simp: Crc16Encap_checksum_def CRC_POLY_def dest: foldl_crc_update [rotated 2])

interpretation fcs_code: trailer_code fcs
  by unfold_locales (auto simp: fcs_def FCS_POLY_def dest: foldl_crc_update [rotated 2])

section \<open>The CRC-16 wrapper\<close>

lemma encode_shape_crc:
  "\<exists>crc. Crc16Encap_encode inner = [CC_CRC16_ENCAP, CRC16_ENCAP] @ inner @ [hi8 crc, lo8 crc] \<and>
     crc = Crc16Encap_checksum ([CC_CRC16_ENCAP, CRC16_ENCAP] @ inner)"
  by (simp add: Crc16Encap_encode_def Let_def)

lemma unwrap_encode: "inner \<noteq> [] \<Longrightarrow> Crc16Encap_verifyAndUnwrap (Crc16Encap_encode inner) = Some inner"
  by (cases inner)
    (auto simp: Crc16Encap_verifyAndUnwrap_def Crc16Encap_encode_def Let_def subspan_def nth_append)

lemma unwrap_length:
  "Crc16Encap_verifyAndUnwrap p = Some inner \<Longrightarrow> length inner + 4 = length p \<and> inner \<noteq> []"
  by (auto simp: Crc16Encap_verifyAndUnwrap_def Let_def subspan_def split: if_splits)

interpretation crc16_codec: wire_codec Crc16Encap_encode Crc16Encap_verifyAndUnwrap "\<lambda>x. x \<noteq> []"
  by unfold_locales (simp add: unwrap_encode)

interpretation crc16_dec: headed_decoder Crc16Encap_verifyAndUnwrap CC_CRC16_ENCAP CRC16_ENCAP
  by unfold_locales (auto simp: Crc16Encap_verifyAndUnwrap_def has_header_def Let_def split: if_splits)

section \<open>Properties\<close>

text \<open>
  An intact CRC-16 wrapper unwraps to its command, and a wrapper in which exactly one byte was
  damaged, in the header, the command or the checksum, is never unwrapped.
\<close>

theorem crc16_detects_damage:
  assumes "inner \<noteq> []" and "i < length (Crc16Encap_encode inner)" and "y \<noteq> Crc16Encap_encode inner ! i"
  shows "Crc16Encap_verifyAndUnwrap (Crc16Encap_encode inner) = Some inner \<and>
         Crc16Encap_verifyAndUnwrap ((Crc16Encap_encode inner)[i := y]) = None"
proof
  show "Crc16Encap_verifyAndUnwrap (Crc16Encap_encode inner) = Some inner"
    using assms(1) by (rule unwrap_encode)
  let ?xs = "[CC_CRC16_ENCAP, CRC16_ENCAP] @ inner" and ?p = "(Crc16Encap_encode inner)[i := y]"
  have enc: "Crc16Encap_encode inner = ?xs @ [hi8 (Crc16Encap_checksum ?xs), lo8 (Crc16Encap_checksum ?xs)]"
    by (simp add: Crc16Encap_encode_def Let_def)
  have "Crc16Encap_checksum (take (length ?xs) ?p) \<noteq> be16 (?p ! length ?xs) (?p ! (length ?xs + 1))"
    by (rule crc.damage_detected [of i ?xs y]) (use assms enc in simp_all)
  moreover have "length (Crc16Encap_encode inner) = length ?xs + 2" by (simp only: enc) simp
  then have "length ?p - 2 = length ?xs" by simp
  ultimately show "Crc16Encap_verifyAndUnwrap ?p = None"
    by (auto simp: Crc16Encap_verifyAndUnwrap_def Let_def subspan_def)
qed

theorem crc16_detects_damage_witness:
  "Crc16Encap_verifyAndUnwrap (Crc16Encap_encode [0x25, 0x03, 0xFF]) = Some [0x25, 0x03, 0xFF] \<and>
   Crc16Encap_verifyAndUnwrap ((Crc16Encap_encode [0x25, 0x03, 0xFF])[4 := 0x00]) = None"
  by (rule crc16_detects_damage) (simp_all add: Crc16Encap_encode_def Let_def)

text \<open>
  The frame check sequence of the transport service and the checksum of the CRC-16 wrapper are
  the same function: same polynomial and same initial value.
\<close>

theorem fcs_is_checksum: "fcs data = Crc16Encap_checksum data"
  by (simp add: fcs_def Crc16Encap_checksum_def FCS_POLY_def FCS_INIT_def CRC_POLY_def CRC_INIT_def)

end
