(* ===== verification/Transport_Service.thy ===== *)
theory Transport_Service
  imports Crc16
begin

text \<open>
  Segmentation of long datagrams, \<open>application/TransportService.cpp\<close>: the splitter and the
  stateful reassembler. Indexing the reassembler's vectors out of range is undefined behaviour
  in the program; it is the fault \<open>OutOfBounds\<close> of the model.
\<close>

section \<open>Constants\<close>

definition CC_TRANSPORT_SERVICE :: byte where "CC_TRANSPORT_SERVICE = 0x55"
definition TRANSPORT_SERVICE_FIRST_SEGMENT :: byte where "TRANSPORT_SERVICE_FIRST_SEGMENT = 0xC0"
definition TRANSPORT_SERVICE_SUBSEQUENT_SEGMENT :: byte where "TRANSPORT_SERVICE_SUBSEQUENT_SEGMENT = 0xE0"
definition COMMAND_MASK :: byte where "COMMAND_MASK = 0xF8"
definition DATAGRAM_SIZE_MASK :: byte where "DATAGRAM_SIZE_MASK = 0x07"
definition SESSION_ID_MASK :: byte where "SESSION_ID_MASK = 0xF0"
definition SESSION_ID_SHIFT :: nat where "SESSION_ID_SHIFT = 4"
definition EXT_FLAG :: byte where "EXT_FLAG = 0x08"
definition OFFSET_HIGH_MASK :: byte where "OFFSET_HIGH_MASK = 0x07"
definition SEGMENT_PAYLOAD_MAX :: nat where "SEGMENT_PAYLOAD_MAX = 39"
definition FCS_LEN :: nat where "FCS_LEN = 2"

lemmas ts_const_defs = CC_TRANSPORT_SERVICE_def TRANSPORT_SERVICE_FIRST_SEGMENT_def
  TRANSPORT_SERVICE_SUBSEQUENT_SEGMENT_def COMMAND_MASK_def DATAGRAM_SIZE_MASK_def SESSION_ID_MASK_def
  SESSION_ID_SHIFT_def EXT_FLAG_def OFFSET_HIGH_MASK_def

section \<open>Splitting\<close>

text \<open>
  The size and offset fields take bits 8 to 10 and bits 0 to 7 of a \<open>size_t\<close>; the low sixteen
  bits of the number determine them.
\<close>

definition segmentHeader :: "bool \<Rightarrow> nat \<Rightarrow> byte \<Rightarrow> nat \<Rightarrow> bytes" where
  "segmentHeader first sz sessionId offset =
     (let sizeHigh = hi8 (of_nat sz) AND DATAGRAM_SIZE_MASK;
          sizeLow = lo8 (of_nat sz);
          session = push_bit SESSION_ID_SHIFT sessionId AND SESSION_ID_MASK
      in if first
         then [CC_TRANSPORT_SERVICE, TRANSPORT_SERVICE_FIRST_SEGMENT OR sizeHigh, sizeLow, session]
         else [CC_TRANSPORT_SERVICE, TRANSPORT_SERVICE_SUBSEQUENT_SEGMENT OR sizeHigh, sizeLow,
               session OR (hi8 (of_nat offset) AND OFFSET_HIGH_MASK), lo8 (of_nat offset)])"

function splitLoop :: "bytes \<Rightarrow> byte \<Rightarrow> nat \<Rightarrow> bool \<Rightarrow> bytes list" where
  "splitLoop datagram sessionId offset first =
     (if offset < length datagram
      then let chunk = min SEGMENT_PAYLOAD_MAX (length datagram - offset) in
        appendFcs (segmentHeader first (length datagram) sessionId offset @ subspan datagram offset chunk)
          # splitLoop datagram sessionId (offset + chunk) False
      else [])"
  by pat_completeness auto
termination
  by (relation "measure (\<lambda>(d, s, off, f). length d - off)") (auto simp: SEGMENT_PAYLOAD_MAX_def)

declare splitLoop.simps [simp del]

definition splitOutbound :: "bytes \<Rightarrow> byte \<Rightarrow> bytes list" where
  "splitOutbound datagram sessionId =
     (if length datagram = 0 then [] else splitLoop datagram sessionId 0 True)"

section \<open>Reassembly\<close>

record Assembler =
  ts_active :: bool
  ts_sessionId :: byte
  ts_datagramSize :: nat
  ts_receivedCount :: nat
  ts_buffer :: bytes
  ts_received :: "bool list"

definition newAssembler :: Assembler where
  "newAssembler = \<lparr>ts_active = False, ts_sessionId = 0, ts_datagramSize = 0, ts_receivedCount = 0,
     ts_buffer = [], ts_received = []\<rparr>"

definition assembler_reset :: "Assembler \<Rightarrow> Assembler" where
  "assembler_reset A = A\<lparr>ts_active := False, ts_receivedCount := 0, ts_buffer := [], ts_received := []\<rparr>"

fun placeLoop :: "nat \<Rightarrow> bytes \<Rightarrow> Assembler \<Rightarrow> fault + Assembler" where
  "placeLoop pos [] A = Inr A"
| "placeLoop pos (b # bs) A =
     (if pos \<ge> ts_datagramSize A then Inr A
      else if pos \<ge> length (ts_received A) then Inl OutOfBounds
      else if \<not> ts_received A ! pos
        then if pos \<ge> length (ts_buffer A) then Inl OutOfBounds
             else placeLoop (Suc pos) bs
                    (A\<lparr>ts_buffer := (ts_buffer A)[pos := b], ts_received := (ts_received A)[pos := True],
                       ts_receivedCount := ts_receivedCount A + 1\<rparr>)
        else placeLoop (Suc pos) bs A)"

definition place :: "nat \<Rightarrow> bytes \<Rightarrow> Assembler \<Rightarrow> fault + (bytes option \<times> Assembler)" where
  "place offset payload A =
     (case placeLoop offset payload A of
        Inl e \<Rightarrow> Inl e
      | Inr A1 \<Rightarrow>
          if ts_receivedCount A1 = ts_datagramSize A1
          then Inr (Some (ts_buffer A1),
                    A1\<lparr>ts_active := False, ts_buffer := [], ts_received := [], ts_receivedCount := 0\<rparr>)
          else Inr (None, A1))"

definition payloadStart :: "bytes \<Rightarrow> nat \<Rightarrow> nat \<Rightarrow> nat option" where
  "payloadStart segment bodyLen baseHeader =
     (if segment ! 3 AND EXT_FLAG \<noteq> 0
      then if bodyLen < baseHeader + 1 then None
           else let start = baseHeader + 1 + unat (segment ! baseHeader) in
             if start > bodyLen then None else Some start
      else if baseHeader > bodyLen then None else Some baseHeader)"

definition handleFirst :: "bytes \<Rightarrow> nat \<Rightarrow> Assembler \<Rightarrow> fault + (bytes option \<times> Assembler)" where
  "handleFirst segment bodyLen A =
     (if bodyLen < 4 then Inr (None, A)
      else let A1 = A\<lparr>ts_datagramSize := unat (be16 (segment ! 1 AND DATAGRAM_SIZE_MASK) (segment ! 2)),
                      ts_sessionId := drop_bit SESSION_ID_SHIFT (segment ! 3 AND SESSION_ID_MASK)\<rparr>
           in case payloadStart segment bodyLen 4 of
                None \<Rightarrow> Inr (None, A1)
              | Some start \<Rightarrow>
                  if ts_datagramSize A1 = 0 then Inr (None, A1)
                  else place 0 (subspan segment start (bodyLen - start))
                         (A1\<lparr>ts_buffer := replicate (ts_datagramSize A1) 0,
                             ts_received := replicate (ts_datagramSize A1) False,
                             ts_receivedCount := 0, ts_active := True\<rparr>))"

definition handleSubsequent :: "bytes \<Rightarrow> nat \<Rightarrow> Assembler \<Rightarrow> fault + (bytes option \<times> Assembler)" where
  "handleSubsequent segment bodyLen A =
     (if \<not> ts_active A \<or> bodyLen < 5 then Inr (None, A)
      else if drop_bit SESSION_ID_SHIFT (segment ! 3 AND SESSION_ID_MASK) \<noteq> ts_sessionId A
        then Inr (None, A)
      else let offset = unat (be16 (segment ! 3 AND OFFSET_HIGH_MASK) (segment ! 4)) in
        case payloadStart segment bodyLen 5 of
          None \<Rightarrow> Inr (None, A)
        | Some start \<Rightarrow> place offset (subspan segment start (bodyLen - start)) A)"

definition feedSegment :: "bytes \<Rightarrow> Assembler \<Rightarrow> fault + (bytes option \<times> Assembler)" where
  "feedSegment segment A =
     (if length segment < FCS_LEN + 1 \<or> segment ! 0 \<noteq> CC_TRANSPORT_SERVICE then Inr (None, A)
      else let bodyLen = length segment - FCS_LEN;
               expected = fcs (subspan segment 0 bodyLen);
               actual = be16 (segment ! bodyLen) (segment ! (bodyLen + 1))
           in if expected \<noteq> actual then Inr (None, A)
              else let command = segment ! 1 AND COMMAND_MASK in
                if command = TRANSPORT_SERVICE_FIRST_SEGMENT then handleFirst segment bodyLen A
                else if command = TRANSPORT_SERVICE_SUBSEQUENT_SEGMENT
                  then handleSubsequent segment bodyLen A
                else Inr (None, A))"

text \<open>A sequence of segments: the datagrams it completes, in order, and the state it leaves.\<close>

fun feedSegments :: "bytes list \<Rightarrow> Assembler \<Rightarrow> fault + (bytes list \<times> Assembler)" where
  "feedSegments [] A = Inr ([], A)"
| "feedSegments (s # ss) A =
     (case feedSegment s A of
        Inl e \<Rightarrow> Inl e
      | Inr (r, A1) \<Rightarrow>
          (case feedSegments ss A1 of
             Inl e \<Rightarrow> Inl e
           | Inr (ds, A2) \<Rightarrow> Inr ((case r of None \<Rightarrow> ds | Some d \<Rightarrow> d # ds), A2)))"

section \<open>Field packing\<close>

lemma first_fields:
  "(TRANSPORT_SERVICE_FIRST_SEGMENT OR (h AND DATAGRAM_SIZE_MASK)) AND COMMAND_MASK =
     TRANSPORT_SERVICE_FIRST_SEGMENT"
  "(TRANSPORT_SERVICE_FIRST_SEGMENT OR (h AND DATAGRAM_SIZE_MASK)) AND DATAGRAM_SIZE_MASK =
     h AND DATAGRAM_SIZE_MASK"
  by (simp_all add: ts_const_defs bit.conj_disj_distrib2 and.assoc)

lemma subsequent_fields:
  "(TRANSPORT_SERVICE_SUBSEQUENT_SEGMENT OR (h AND DATAGRAM_SIZE_MASK)) AND COMMAND_MASK =
     TRANSPORT_SERVICE_SUBSEQUENT_SEGMENT"
  by (simp_all add: ts_const_defs bit.conj_disj_distrib2 and.assoc)

lemma commands_differ: "TRANSPORT_SERVICE_SUBSEQUENT_SEGMENT \<noteq> TRANSPORT_SERVICE_FIRST_SEGMENT"
  by (simp add: ts_const_defs)

lemma session_fields:
  "(push_bit SESSION_ID_SHIFT s AND SESSION_ID_MASK OR (h AND OFFSET_HIGH_MASK)) AND EXT_FLAG = 0"
  "(push_bit SESSION_ID_SHIFT s AND SESSION_ID_MASK) AND EXT_FLAG = 0"
  "(push_bit SESSION_ID_SHIFT s AND SESSION_ID_MASK OR (h AND OFFSET_HIGH_MASK)) AND OFFSET_HIGH_MASK =
     h AND OFFSET_HIGH_MASK"
  "(push_bit SESSION_ID_SHIFT s AND SESSION_ID_MASK OR (h AND OFFSET_HIGH_MASK)) AND SESSION_ID_MASK =
     push_bit SESSION_ID_SHIFT s AND SESSION_ID_MASK"
  by (simp_all add: ts_const_defs bit.conj_disj_distrib2 and.assoc)

lemma be16_eleven_bits:
  assumes "n < 2048"
  shows "unat (be16 (hi8 (of_nat n) AND 7) (lo8 (of_nat n))) = n"
proof -
  have seven: "(7 :: byte) = mask 3" by (simp add: mask_eq_exp_minus_1)
  have "be16 (hi8 w AND 7) (lo8 w) = take_bit 11 w" for w :: u16
    unfolding seven be16_def hi8_def lo8_def
    by (rule bit_word_eqI) (auto simp: bit_simps bit_255_int_iff)
  moreover have "unat (take_bit 11 (of_nat n :: u16)) = n"
    using assms by (simp add: unsigned_take_bit_eq unat_of_nat take_bit_nat_eq_self)
  ultimately show ?thesis by simp
qed

section \<open>What a well-formed segment does\<close>

lemma feedSegment_appendFcs:
  assumes "2 \<le> length body" and "body ! 0 = CC_TRANSPORT_SERVICE"
  shows "feedSegment (appendFcs body) A =
    (let command = body ! 1 AND COMMAND_MASK in
     if command = TRANSPORT_SERVICE_FIRST_SEGMENT then handleFirst (appendFcs body) (length body) A
     else if command = TRANSPORT_SERVICE_SUBSEQUENT_SEGMENT
       then handleSubsequent (appendFcs body) (length body) A
     else Inr (None, A))"
proof -
  have at: "appendFcs body ! 0 = body ! 0" "appendFcs body ! 1 = body ! 1"
    "appendFcs body ! length body = hi8 (fcs body)" "appendFcs body ! (length body + 1) = lo8 (fcs body)"
    "subspan (appendFcs body) 0 (length body) = body" "length (appendFcs body) = length body + 2"
    using assms(1) by (auto simp: appendFcs_def Let_def nth_append subspan_def)
  have "length (appendFcs body) - FCS_LEN = length body"
    by (simp add: at FCS_LEN_def)
  then show ?thesis
    unfolding feedSegment_def Let_def using assms at by (cases body) (simp_all add: FCS_LEN_def)
qed

definition started :: "nat \<Rightarrow> byte \<Rightarrow> Assembler \<Rightarrow> Assembler" where
  "started n session A =
     A\<lparr>ts_datagramSize := n, ts_sessionId := session, ts_buffer := replicate n 0,
       ts_received := replicate n False, ts_receivedCount := 0, ts_active := True\<rparr>"

abbreviation wireSession :: "byte \<Rightarrow> byte" where
  "wireSession s \<equiv> drop_bit SESSION_ID_SHIFT (push_bit SESSION_ID_SHIFT s AND SESSION_ID_MASK)"

lemma feed_first:
  assumes "0 < n" and "n < 2048"
  shows "feedSegment (appendFcs (segmentHeader True n s 0 @ payload)) A =
         place 0 payload (started n (wireSession s) A)"
proof -
  let ?h = "segmentHeader True n s 0" and ?sz = "hi8 (of_nat n) AND DATAGRAM_SIZE_MASK"
  let ?seg = "appendFcs (?h @ payload)"
  have h: "?h = [CC_TRANSPORT_SERVICE, TRANSPORT_SERVICE_FIRST_SEGMENT OR ?sz, lo8 (of_nat n),
      push_bit SESSION_ID_SHIFT s AND SESSION_ID_MASK]"
    by (simp add: segmentHeader_def Let_def)
  have at: "?seg ! 1 = TRANSPORT_SERVICE_FIRST_SEGMENT OR ?sz" "?seg ! 2 = lo8 (of_nat n)"
    "?seg ! 3 = push_bit SESSION_ID_SHIFT s AND SESSION_ID_MASK"
    "subspan ?seg 4 (length payload) = payload"
    by (simp_all add: appendFcs_def Let_def h subspan_def)
  have len: "length (?h @ payload) = 4 + length payload" by (simp add: h)
  have "payloadStart ?seg (length (?h @ payload)) 4 = Some 4"
    unfolding payloadStart_def at session_fields len by simp
  moreover have "unat (be16 ?sz (lo8 (of_nat n))) = n"
    using be16_eleven_bits [OF assms(2)] by (simp add: DATAGRAM_SIZE_MASK_def)
  moreover have "feedSegment ?seg A = handleFirst ?seg (length (?h @ payload)) A"
    by (subst feedSegment_appendFcs) (simp_all add: h first_fields)
  ultimately show ?thesis
    unfolding handleFirst_def at first_fields len Let_def
    using assms(1) at(4) by (simp add: started_def)
qed

lemma feed_subsequent:
  assumes "off < 2048" and "ts_active A \<longrightarrow> ts_sessionId A = wireSession s"
  shows "feedSegment (appendFcs (segmentHeader False n s off @ payload)) A =
         (if ts_active A then place off payload A else Inr (None, A))"
proof -
  let ?h = "segmentHeader False n s off" and ?sz = "hi8 (of_nat n) AND DATAGRAM_SIZE_MASK"
  let ?seg = "appendFcs (?h @ payload)"
  let ?ss = "push_bit SESSION_ID_SHIFT s AND SESSION_ID_MASK OR (hi8 (of_nat off) AND OFFSET_HIGH_MASK)"
  have h: "?h = [CC_TRANSPORT_SERVICE, TRANSPORT_SERVICE_SUBSEQUENT_SEGMENT OR ?sz, lo8 (of_nat n), ?ss,
      lo8 (of_nat off)]"
    by (simp add: segmentHeader_def Let_def)
  have at: "?seg ! 3 = ?ss" "?seg ! 4 = lo8 (of_nat off)" "subspan ?seg 5 (length payload) = payload"
    by (simp_all add: appendFcs_def Let_def h subspan_def)
  have len: "length (?h @ payload) = 5 + length payload" by (simp add: h)
  have "payloadStart ?seg (length (?h @ payload)) 5 = Some 5"
    unfolding payloadStart_def at session_fields len by simp
  moreover have "unat (be16 (hi8 (of_nat off) AND OFFSET_HIGH_MASK) (lo8 (of_nat off))) = off"
    using be16_eleven_bits [OF assms(1)] by (simp add: OFFSET_HIGH_MASK_def)
  moreover have "feedSegment ?seg A = handleSubsequent ?seg (length (?h @ payload)) A"
    by (subst feedSegment_appendFcs)
      (simp_all add: h subsequent_fields commands_differ)
  ultimately show ?thesis
    unfolding handleSubsequent_def at session_fields len Let_def
    using assms(2) at(3) by simp
qed

section \<open>The reassembly invariant\<close>

text \<open>
  Without reference to a datagram: the two vectors have the announced size and the counter
  counts the bytes received. This is what keeps the accesses in range.
\<close>

definition countTrue :: "bool list \<Rightarrow> nat" where
  "countTrue bs = length (filter id bs)"

lemma countTrue_replicate [simp]: "countTrue (replicate n False) = 0"
  by (induction n) (simp_all add: countTrue_def)

definition assembler_wf :: "Assembler \<Rightarrow> bool" where
  "assembler_wf A \<longleftrightarrow>
     (ts_active A \<longrightarrow>
        length (ts_buffer A) = ts_datagramSize A \<and> length (ts_received A) = ts_datagramSize A \<and>
        ts_receivedCount A = countTrue (ts_received A) \<and>
        ts_receivedCount A < ts_datagramSize A)"

text \<open>Against a datagram: every byte marked as received is the datagram's.\<close>

definition holds_part :: "bytes \<Rightarrow> Assembler \<Rightarrow> bool" where
  "holds_part d A \<longleftrightarrow>
     ts_datagramSize A = length d \<and> length (ts_buffer A) = length d \<and> length (ts_received A) = length d \<and>
     ts_receivedCount A = countTrue (ts_received A) \<and>
     (\<forall>i < length d. ts_received A ! i \<longrightarrow> ts_buffer A ! i = d ! i)"

definition receivedSet :: "Assembler \<Rightarrow> nat set" where
  "receivedSet A = {i. i < length (ts_received A) \<and> ts_received A ! i}"

lemma count_update_True:
  "i < length bs \<Longrightarrow> \<not> bs ! i \<Longrightarrow> countTrue (bs[i := True]) = Suc (countTrue bs)"
proof (induction bs arbitrary: i)
  case (Cons b bs)
  then show ?case by (cases i) (auto simp: countTrue_def)
qed simp

lemma count_all: "countTrue bs = length bs \<longleftrightarrow> (\<forall>i < length bs. bs ! i)"
proof
  assume full: "countTrue bs = length bs"
  show "\<forall>i < length bs. bs ! i"
  proof (rule ccontr)
    assume "\<not> ?thesis"
    then obtain b where "b \<in> set bs" "\<not> id b" by (auto simp: in_set_conv_nth)
    then show False using length_filter_less [of b bs id] full by (simp add: countTrue_def)
  qed
next
  assume "\<forall>i < length bs. bs ! i"
  then have "filter id bs = bs" by (auto simp: filter_id_conv in_set_conv_nth)
  then show "countTrue bs = length bs" by (simp add: countTrue_def)
qed

lemma holds_part_step:
  assumes "holds_part d A" and "pos < length d" and "\<not> ts_received A ! pos"
  defines "A' \<equiv> A\<lparr>ts_buffer := (ts_buffer A)[pos := d ! pos], ts_received := (ts_received A)[pos := True],
                   ts_receivedCount := ts_receivedCount A + 1\<rparr>"
  shows "holds_part d A'" and "receivedSet A' = insert pos (receivedSet A)"
  using assms(1-3)
  by (auto simp: A'_def holds_part_def receivedSet_def count_update_True nth_list_update)

lemma placeLoop_part:
  assumes "holds_part d A" and "off + length p \<le> length d" and "p = subspan d off (length p)"
  shows "\<exists>A'. placeLoop off p A = Inr A' \<and> holds_part d A' \<and>
           receivedSet A' = receivedSet A \<union> {off ..< off + length p} \<and>
           ts_active A' = ts_active A \<and> ts_sessionId A' = ts_sessionId A"
  using assms
proof (induction p arbitrary: off A)
  case Nil
  then show ?case by simp
next
  case (Cons b bs)
  have off: "off < length d" using Cons.prems(2) by simp
  have "subspan d off (Suc (length bs)) = d ! off # subspan d (Suc off) (length bs)"
    using off by (simp add: subspan_def Cons_nth_drop_Suc [symmetric])
  then have b: "b = d ! off" and bs: "bs = subspan d (Suc off) (length bs)"
    using Cons.prems(3) by simp_all
  have range: "{off ..< off + length (b # bs)} = insert off {Suc off ..< Suc off + length bs}"
    by auto
  let ?A = "if ts_received A ! off then A
    else A\<lparr>ts_buffer := (ts_buffer A)[off := d ! off], ts_received := (ts_received A)[off := True],
           ts_receivedCount := ts_receivedCount A + 1\<rparr>"
  have A: "holds_part d ?A" "receivedSet ?A = insert off (receivedSet A)"
    using Cons.prems(1) off holds_part_step [OF Cons.prems(1) off]
    by (auto simp: holds_part_def receivedSet_def)
  have "placeLoop off (b # bs) A = placeLoop (Suc off) bs ?A"
    using Cons.prems(1) off b by (simp add: holds_part_def)
  moreover obtain A' where "placeLoop (Suc off) bs ?A = Inr A'" "holds_part d A'"
    "receivedSet A' = receivedSet ?A \<union> {Suc off ..< Suc off + length bs}"
    "ts_active A' = ts_active ?A" "ts_sessionId A' = ts_sessionId ?A"
    using Cons.IH [OF A(1) _ bs] Cons.prems(2) by auto
  ultimately show ?case
    unfolding range using A(2) by (auto split: if_splits)
qed

lemma complete_iff:
  assumes "holds_part d A"
  shows "ts_receivedCount A = ts_datagramSize A \<longleftrightarrow> receivedSet A = {..< length d}"
    and "receivedSet A = {..< length d} \<Longrightarrow> ts_buffer A = d"
proof -
  have "countTrue (ts_received A) = length (ts_received A) \<longleftrightarrow> receivedSet A = {..< length d}"
    unfolding count_all using assms by (auto simp: holds_part_def receivedSet_def)
  with assms show "ts_receivedCount A = ts_datagramSize A \<longleftrightarrow> receivedSet A = {..< length d}"
    by (simp add: holds_part_def)
  assume "receivedSet A = {..< length d}"
  then have "\<forall>i < length d. ts_received A ! i" by (auto simp: receivedSet_def)
  with assms show "ts_buffer A = d" by (auto simp: holds_part_def intro: nth_equalityI)
qed

text \<open>
  Placing a piece of the datagram: either pieces are still missing and the received set grew by
  the piece, or this was the last one and the datagram is handed out.
\<close>

lemma place_part:
  assumes "holds_part d A" and "off + length p \<le> length d" and "p = subspan d off (length p)"
    and "ts_active A"
  defines "R \<equiv> receivedSet A \<union> {off ..< off + length p}"
  shows "\<exists>A'. place off p A = Inr (if R = {..< length d} then Some d else None, A') \<and>
           (if R = {..< length d} then \<not> ts_active A'
            else holds_part d A' \<and> ts_active A' \<and> receivedSet A' = R \<and> ts_sessionId A' = ts_sessionId A)"
proof -
  obtain A1 where A1: "placeLoop off p A = Inr A1" "holds_part d A1" "receivedSet A1 = R"
      "ts_active A1 = ts_active A" "ts_sessionId A1 = ts_sessionId A"
    using placeLoop_part [OF assms(1-3)] R_def by auto
  then show ?thesis
    using assms(4) complete_iff [OF A1(2)] by (auto simp: place_def)
qed

section \<open>Covering the datagram\<close>

text \<open>The offsets at which the splitter cuts, from an offset on.\<close>

function cutOffsets :: "nat \<Rightarrow> nat \<Rightarrow> nat list" where
  "cutOffsets n off = (if off < n then off # cutOffsets n (off + min SEGMENT_PAYLOAD_MAX (n - off)) else [])"
  by pat_completeness auto
termination
  by (relation "measure (\<lambda>(n, off). n - off)") (auto simp: SEGMENT_PAYLOAD_MAX_def)

declare cutOffsets.simps [simp del]

definition pieceAt :: "bytes \<Rightarrow> nat \<Rightarrow> bytes" where
  "pieceAt d off = subspan d off (min SEGMENT_PAYLOAD_MAX (length d - off))"

definition segmentAt :: "bytes \<Rightarrow> byte \<Rightarrow> bool \<Rightarrow> nat \<Rightarrow> bytes" where
  "segmentAt d s first off = appendFcs (segmentHeader first (length d) s off @ pieceAt d off)"

definition cover :: "nat \<Rightarrow> nat \<Rightarrow> nat set" where
  "cover n off = {off ..< off + min SEGMENT_PAYLOAD_MAX (n - off)}"

lemma splitLoop_cuts: "splitLoop d s off False = map (segmentAt d s False) (cutOffsets (length d) off)"
proof (induction "length d" off rule: cutOffsets.induct)
  case (1 off)
  then show ?case
    by (simp add: splitLoop.simps [of d s off] cutOffsets.simps [of "length d" off] segmentAt_def
        pieceAt_def Let_def)
qed

lemma splitOutbound_cuts:
  assumes "d \<noteq> []"
  shows "splitOutbound d s = segmentAt d s True 0 #
    map (segmentAt d s False) (cutOffsets (length d) (min SEGMENT_PAYLOAD_MAX (length d)))"
  using assms
  by (simp add: splitOutbound_def splitLoop.simps [of d s 0] segmentAt_def pieceAt_def Let_def
      splitLoop_cuts)

lemma cutOffsets_bound: "o' \<in> set (cutOffsets n off) \<Longrightarrow> o' < n"
  by (induction n off rule: cutOffsets.induct) (subst (asm) (2) cutOffsets.simps, auto split: if_splits)

lemma cutOffsets_cover: "off \<le> n \<Longrightarrow> (\<Union>o' \<in> set (cutOffsets n off). cover n o') = {off ..< n}"
proof (induction n off rule: cutOffsets.induct)
  case (1 n off)
  show ?case
  proof (cases "off < n")
    case True
    let ?next = "off + min SEGMENT_PAYLOAD_MAX (n - off)"
    have "(\<Union>o' \<in> set (cutOffsets n off). cover n o') = cover n off \<union> {?next ..< n}"
      using 1 True by (simp add: cutOffsets.simps [of n off])
    also have "\<dots> = {off ..< n}"
      using True by (auto simp: cover_def)
    finally show ?thesis .
  next
    case False
    with "1.prems" have "off = n" by simp
    then show ?thesis by (simp add: cutOffsets.simps [of n n])
  qed
qed

lemma receivedSet_bounded: "holds_part d A \<Longrightarrow> receivedSet A \<subseteq> {..< length d}"
  by (auto simp: holds_part_def receivedSet_def)

lemma cover_bounded: "off < n \<Longrightarrow> cover n off \<subseteq> {..< n}"
  by (auto simp: cover_def)

lemma pieceAt_fits:
  assumes "off < length d"
  shows "off + length (pieceAt d off) \<le> length d" and "pieceAt d off = subspan d off (length (pieceAt d off))"
    and "{off ..< off + length (pieceAt d off)} = cover (length d) off"
  using assms by (simp_all add: pieceAt_def cover_def)

lemma feed_idle:
  "\<not> ts_active A \<Longrightarrow> \<forall>off \<in> set offs. off < 2048 \<Longrightarrow>
   feedSegments (map (segmentAt d s False) offs) A = Inr ([], A)"
  by (induction offs) (simp_all add: segmentAt_def feed_subsequent)

text \<open>Later pieces in any order and with repetitions.\<close>

lemma feed_pieces:
  assumes "length d < 2048" and "\<forall>off \<in> set offs. off < length d"
    and "holds_part d A" and "ts_active A" and "ts_sessionId A = wireSession s"
    and "receivedSet A \<noteq> {..< length d}"
  shows "\<exists>A'. feedSegments (map (segmentAt d s False) offs) A =
    Inr (if receivedSet A \<union> (\<Union>off \<in> set offs. cover (length d) off) = {..< length d} then [d] else [], A')"
  using assms
proof (induction offs arbitrary: A)
  case (Cons off offs)
  let ?n = "length d" and ?p = "pieceAt d off"
  let ?R = "receivedSet A \<union> cover ?n off"
  have off: "off < ?n" using Cons.prems by simp
  note fits = pieceAt_fits [OF off]
  have feed: "feedSegment (segmentAt d s False off) A = place off ?p A"
    using Cons.prems off by (simp add: segmentAt_def feed_subsequent)
  obtain A1 where pl: "place off ?p A = Inr (if ?R = {..< ?n} then Some d else None, A1)"
    and A1: "if ?R = {..< ?n} then \<not> ts_active A1
             else holds_part d A1 \<and> ts_active A1 \<and> receivedSet A1 = ?R \<and> ts_sessionId A1 = ts_sessionId A"
    using place_part [OF Cons.prems(3) fits(1,2) Cons.prems(4)] unfolding fits(3) by blast
  have all: "receivedSet A \<union> (\<Union>o' \<in> set (off # offs). cover ?n o') =
      ?R \<union> (\<Union>o' \<in> set offs. cover ?n o')"
    by auto
  show ?case
  proof (cases "?R = {..< ?n}")
    case True
    then have "feedSegments (map (segmentAt d s False) offs) A1 = Inr ([], A1)"
      using A1 Cons.prems(1,2) by (intro feed_idle) auto
    moreover have "?R \<union> (\<Union>o' \<in> set offs. cover ?n o') = {..< ?n}"
      using True cover_bounded Cons.prems(2) by fastforce
    ultimately show ?thesis
      unfolding all by (simp add: feed pl True)
  next
    case False
    then obtain A' where "feedSegments (map (segmentAt d s False) offs) A1 =
        Inr (if ?R \<union> (\<Union>o' \<in> set offs. cover ?n o') = {..< ?n} then [d] else [], A')"
      using Cons.IH [of A1] Cons.prems A1 by auto
    then show ?thesis
      unfolding all by (simp add: feed pl False)
  qed
qed simp

lemma started_part: "holds_part d (started (length d) ss A)" "receivedSet (started (length d) ss A) = {}"
  by (auto simp: started_def holds_part_def receivedSet_def)

text \<open>The offset a later segment carries.\<close>

definition segmentOffset :: "bytes \<Rightarrow> nat" where
  "segmentOffset seg = unat (be16 (seg ! 3 AND OFFSET_HIGH_MASK) (seg ! 4))"

lemma segmentOffset_segmentAt: "off < 2048 \<Longrightarrow> segmentOffset (segmentAt d s False off) = off"
  using be16_eleven_bits [of off]
  by (simp add: segmentOffset_def segmentAt_def segmentHeader_def appendFcs_def Let_def session_fields)
    (simp add: OFFSET_HIGH_MASK_def)

lemma segments_as_offsets:
  assumes "set segs = segmentAt d s False ` set cuts" and "\<forall>off \<in> set cuts. off < 2048"
  shows "segs = map (segmentAt d s False) (map segmentOffset segs)"
    and "set (map segmentOffset segs) = set cuts"
proof -
  have "segmentAt d s False (segmentOffset seg) = seg" if "seg \<in> set segs" for seg
    using that assms by (auto simp: segmentOffset_segmentAt)
  then show "segs = map (segmentAt d s False) (map segmentOffset segs)"
    by (simp add: map_idI)
  show "set (map segmentOffset segs) = set cuts"
    using assms(2) by (force simp: assms(1) image_image segmentOffset_segmentAt)
qed

section \<open>Properties\<close>

text \<open>
  C18: a datagram of at most 2047 bytes, split for transport, is put together again at the receiver
  exactly once and unchanged, from whatever state the receiver was in, when its first segment
  comes first and the others follow in any order and any number of repetitions.
\<close>

theorem transport_roundtrip:
  assumes "d \<noteq> []" and "length d < 2048" and "set rest = set (tl (splitOutbound d s))"
  shows "\<exists>A'. feedSegments (hd (splitOutbound d s) # rest) A = Inr ([d], A')"
proof -
  let ?n = "length d" and ?cuts = "cutOffsets (length d) (min SEGMENT_PAYLOAD_MAX (length d))"
  let ?A = "started ?n (wireSession s) A"
  have n: "0 < ?n" using assms(1) by simp
  have segs: "set rest = segmentAt d s False ` set ?cuts"
    using assms(3) splitOutbound_cuts [OF assms(1), of s] by simp
  have small: "\<forall>off \<in> set ?cuts. off < ?n"
    by (auto dest: cutOffsets_bound)
  then have "\<forall>off \<in> set ?cuts. off < 2048" using assms(2) by auto
  then obtain offs where rest: "rest = map (segmentAt d s False) offs" "set offs = set ?cuts"
    using segments_as_offsets [OF segs] by blast
  have offs: "\<forall>off \<in> set offs. off < ?n" "\<forall>off \<in> set offs. off < 2048"
    using small assms(2) rest(2) by auto
  have hd: "hd (splitOutbound d s) = segmentAt d s True 0"
    using splitOutbound_cuts [OF assms(1), of s] by simp
  have feed: "feedSegment (segmentAt d s True 0) A = place 0 (pieceAt d 0) ?A"
    using n assms(2) by (simp add: segmentAt_def feed_first)
  note fits = pieceAt_fits [OF n]
  have active: "ts_active ?A" by (simp add: started_def)
  let ?R = "cover ?n 0"
  obtain A1 where pl: "place 0 (pieceAt d 0) ?A = Inr (if ?R = {..< ?n} then Some d else None, A1)"
    and A1: "if ?R = {..< ?n} then \<not> ts_active A1
             else holds_part d A1 \<and> ts_active A1 \<and> receivedSet A1 = ?R \<and> ts_sessionId A1 = wireSession s"
    using place_part [OF started_part(1) fits(1,2) active] fits(3) started_part(2)
    by (auto simp: started_def split: if_splits)
  have all: "?R \<union> (\<Union>off \<in> set offs. cover ?n off) = {..< ?n}"
    using cutOffsets_cover [of "min SEGMENT_PAYLOAD_MAX ?n" ?n] rest(2) by (auto simp: cover_def)
  have "\<exists>A'. feedSegments (map (segmentAt d s False) offs) A1 = Inr (if ?R = {..< ?n} then [] else [d], A')"
  proof (cases "?R = {..< ?n}")
    case True
    then show ?thesis
      using feed_idle [of A1 offs d s] A1 offs(2) by auto
  next
    case False
    then show ?thesis
      using feed_pieces [OF assms(2) offs(1), of A1 s] A1 all by auto
  qed
  then show ?thesis
    using rest(1) feed pl hd by (cases "?R = {..< ?n}") auto
qed

theorem transport_roundtrip_witness:
  "\<exists>A'. feedSegments (hd (splitOutbound (replicate 100 7) 3) # rev (tl (splitOutbound (replicate 100 7) 3)))
     newAssembler = Inr ([replicate 100 7], A')"
  by (rule transport_roundtrip) simp_all

text \<open>
  A first segment the reassembler gives up on: it announces no byte at all, or its header
  extension runs past its end.
\<close>

definition malformedFirst :: "bytes \<Rightarrow> bool" where
  "malformedFirst seg \<longleftrightarrow>
     4 \<le> length seg - 2 \<and> seg ! 1 AND COMMAND_MASK = TRANSPORT_SERVICE_FIRST_SEGMENT \<and>
     (payloadStart seg (length seg - 2) 4 = None \<or>
      unat (be16 (seg ! 1 AND DATAGRAM_SIZE_MASK) (seg ! 2)) = 0)"

lemma placeLoop_wf:
  assumes "length (ts_buffer A) = ts_datagramSize A" "length (ts_received A) = ts_datagramSize A"
    and "ts_receivedCount A = countTrue (ts_received A)"
  shows "\<exists>A'. placeLoop pos p A = Inr A' \<and> ts_active A' = ts_active A \<and>
     ts_datagramSize A' = ts_datagramSize A \<and>
     length (ts_buffer A') = ts_datagramSize A \<and> length (ts_received A') = ts_datagramSize A \<and>
     ts_receivedCount A' = countTrue (ts_received A')"
  using assms
proof (induction p arbitrary: pos A)
  case (Cons b p)
  show ?case
  proof (cases "pos < ts_datagramSize A \<and> \<not> ts_received A ! pos")
    case True
    let ?A = "A\<lparr>ts_buffer := (ts_buffer A)[pos := b], ts_received := (ts_received A)[pos := True],
      ts_receivedCount := ts_receivedCount A + 1\<rparr>"
    have "countTrue ((ts_received A)[pos := True]) = Suc (countTrue (ts_received A))"
      using True Cons.prems by (intro count_update_True) auto
    then show ?thesis
      using True Cons.prems Cons.IH [of ?A "Suc pos"] by simp
  next
    case False
    then show ?thesis
      using Cons.prems Cons.IH [of A "Suc pos"] by auto
  qed
qed simp

lemma place_wf:
  assumes "length (ts_buffer A) = ts_datagramSize A" "length (ts_received A) = ts_datagramSize A"
    and "ts_receivedCount A = countTrue (ts_received A)"
  shows "\<exists>r A'. place pos p A = Inr (r, A') \<and> assembler_wf A'"
proof -
  obtain A1 where A1: "placeLoop pos p A = Inr A1" "ts_datagramSize A1 = ts_datagramSize A"
     "length (ts_buffer A1) = ts_datagramSize A" "length (ts_received A1) = ts_datagramSize A"
     "ts_receivedCount A1 = countTrue (ts_received A1)"
    using placeLoop_wf [OF assms] by metis
  have "ts_receivedCount A1 \<le> ts_datagramSize A1"
    using A1 length_filter_le [of id "ts_received A1"] by (simp add: countTrue_def)
  with A1 show ?thesis
    by (auto simp: place_def assembler_wf_def)
qed

lemma handleFirst_wf:
  assumes "assembler_wf A" and "payloadStart seg bodyLen 4 \<noteq> None"
    and "unat (be16 (seg ! 1 AND DATAGRAM_SIZE_MASK) (seg ! 2)) \<noteq> 0"
  shows "\<exists>r A'. handleFirst seg bodyLen A = Inr (r, A') \<and> assembler_wf A'"
proof (cases "bodyLen < 4")
  case True
  with assms(1) show ?thesis by (simp add: handleFirst_def)
next
  case False
  with assms(2,3) show ?thesis
    by (auto simp: handleFirst_def Let_def simp del: One_nat_def intro!: place_wf)
qed

lemma handleSubsequent_wf:
  "assembler_wf A \<Longrightarrow> \<exists>r A'. handleSubsequent seg bodyLen A = Inr (r, A') \<and> assembler_wf A'"
  by (auto simp: handleSubsequent_def assembler_wf_def Let_def split: option.splits
      intro!: place_wf [unfolded assembler_wf_def])

lemma feedSegment_safe:
  assumes "assembler_wf A" and "\<not> malformedFirst seg"
  shows "\<exists>r A'. feedSegment seg A = Inr (r, A') \<and> assembler_wf A'"
proof -
  have "\<exists>r A'. handleFirst seg (length seg - 2) A = Inr (r, A') \<and> assembler_wf A'"
    if "seg ! 1 AND COMMAND_MASK = TRANSPORT_SERVICE_FIRST_SEGMENT"
  proof (cases "length seg - 2 < 4")
    case True
    with assms(1) show ?thesis by (simp add: handleFirst_def)
  next
    case False
    with that assms show ?thesis
      by (intro handleFirst_wf) (auto simp: malformedFirst_def)
  qed
  then show ?thesis
    using assms(1) handleSubsequent_wf [OF assms(1)]
    by (simp add: feedSegment_def Let_def FCS_LEN_def)
qed

text \<open>
  C23: the reassembler never indexes its vectors out of range, and keeps their sizes in step with
  the announced datagram size, as long as no segment is a first segment it gives up on.
\<close>

theorem assembler_safe:
  assumes "assembler_wf A" and "\<forall>seg \<in> set segs. \<not> malformedFirst seg"
  shows "\<exists>ds A'. feedSegments segs A = Inr (ds, A') \<and> assembler_wf A'"
  using assms
proof (induction segs arbitrary: A)
  case (Cons seg segs)
  have "\<not> malformedFirst seg" using Cons.prems(2) by simp
  from feedSegment_safe [OF Cons.prems(1) this]
  obtain r A1 where "feedSegment seg A = Inr (r, A1)" "assembler_wf A1" by blast
  then show ?case
    using Cons.IH [of A1] Cons.prems(2) by auto
qed simp

theorem assembler_safe_witness:
  "\<exists>ds A'. feedSegments (splitOutbound [1, 2, 3] 5 @ [[0x55, 0xE8, 0x00]]) newAssembler = Inr (ds, A') \<and>
     assembler_wf A'"
proof (rule assembler_safe)
  show "assembler_wf newAssembler" by (simp add: assembler_wf_def newAssembler_def)
  have "splitOutbound [1, 2, 3] 5 = [appendFcs ([0x55, 0xC0, 3, 0x50] @ [1, 2, 3])]"
    by code_simp
  then show "\<forall>seg \<in> set (splitOutbound [1, 2, 3] 5 @ [[0x55, 0xE8, 0x00]]). \<not> malformedFirst seg"
    by (simp add: malformedFirst_def appendFcs_def Let_def payloadStart_def ts_const_defs be16_def)
qed

text \<open>
  A first segment that is given up on while a datagram is in flight has already overwritten the
  announced size and session, so the next segment writes past the end of the vectors.
\<close>

theorem assembler_overrun:
  "feedSegments
     [appendFcs (segmentHeader True 5 0 0 @ [1]),
      appendFcs [CC_TRANSPORT_SERVICE, TRANSPORT_SERVICE_FIRST_SEGMENT OR 0x07, 0xFF, EXT_FLAG],
      appendFcs (segmentHeader False 2047 0 100 @ [1])]
     newAssembler = Inl OutOfBounds"
proof -
  let ?A = "\<lparr>ts_active = True, ts_sessionId = 0, ts_datagramSize = 5, ts_receivedCount = 1,
     ts_buffer = [1, 0, 0, 0, 0], ts_received = [True, False, False, False, False]\<rparr>"
  let ?bad = "[CC_TRANSPORT_SERVICE, TRANSPORT_SERVICE_FIRST_SEGMENT OR 0x07, 0xFF, EXT_FLAG]"
  have "feedSegment (appendFcs (segmentHeader True 5 0 0 @ [1])) newAssembler = Inr (None, ?A)"
    by (simp add: feed_first place_def started_def newAssembler_def eval_nat_numeral)
  moreover have "feedSegment (appendFcs ?bad) ?A = Inr (None, ?A\<lparr>ts_datagramSize := 2047\<rparr>)"
    by (subst feedSegment_appendFcs)
      (simp_all add: handleFirst_def payloadStart_def appendFcs_def Let_def ts_const_defs be16_def)
  moreover have "feedSegment (appendFcs (segmentHeader False 2047 0 100 @ [1])) (?A\<lparr>ts_datagramSize := 2047\<rparr>)
      = Inl OutOfBounds"
    by (simp add: feed_subsequent place_def)
  ultimately show ?thesis by simp
qed

end
