(* ===== verification/S0_Security.thy ===== *)
theory S0_Security
  imports Zw_Prelude
begin

text \<open>
  Security S0, \<open>src/src/zwave-protocol/security/s0\<close> and \<open>SecureMemory.cpp\<close>: the table
  of issued nonces, the nonce commands, the key derivation and message authentication built on
  AES, and the encapsulation of a command. AES itself is OpenSSL's: its ECB, OFB and CBC modes are
  functions of the record \<open>libcrypto\<close>, an argument of every definition that uses them. Random
  bytes and the clock are arguments too.
\<close>

section \<open>The crypto library\<close>

text \<open>
  What the daemon calls of libcrypto: the three AES-128 modes without padding, as functions of
  key, initialisation vector and data, and \<open>CRYPTO_memcmp\<close>.
\<close>

record libcrypto =
  aesEcb :: "bytes \<Rightarrow> bytes \<Rightarrow> bytes"
  aesOfb :: "bytes \<Rightarrow> bytes \<Rightarrow> bytes \<Rightarrow> bytes"
  aesCbc :: "bytes \<Rightarrow> bytes \<Rightarrow> bytes \<Rightarrow> bytes"
  cryptoMemcmp :: "bytes \<Rightarrow> bytes \<Rightarrow> int"

text \<open>
  What the library documents of them: OFB is its own inverse, the modes keep the length, and
  \<open>CRYPTO_memcmp\<close> answers 0 exactly for equal contents.
\<close>

definition ofb_symmetric :: "libcrypto \<Rightarrow> bool" where
  "ofb_symmetric c \<longleftrightarrow> (\<forall>k iv d. aesOfb c k iv (aesOfb c k iv d) = d \<and> length (aesOfb c k iv d) = length d)"

definition cbc_keeps_length :: "libcrypto \<Rightarrow> bool" where
  "cbc_keeps_length c \<longleftrightarrow> (\<forall>k iv d. length (aesCbc c k iv d) = length d)"

definition memcmp_exact :: "libcrypto \<Rightarrow> bool" where
  "memcmp_exact c \<longleftrightarrow> (\<forall>a b. length a = length b \<longrightarrow> (cryptoMemcmp c a b = 0 \<longleftrightarrow> a = b))"

section \<open>Constant-time comparison\<close>

text \<open>Only the verdict is modelled, not the time it takes.\<close>

definition constantTimeEquals :: "libcrypto \<Rightarrow> bytes \<Rightarrow> bytes \<Rightarrow> bool" where
  "constantTimeEquals c lhs rhs =
     (if length lhs \<noteq> length rhs then False
      else if lhs = [] then True
      else cryptoMemcmp c lhs rhs = 0)"

lemma constantTimeEquals_iff: "memcmp_exact c \<Longrightarrow> constantTimeEquals c lhs rhs \<longleftrightarrow> lhs = rhs"
  by (auto simp: constantTimeEquals_def memcmp_exact_def)

section \<open>NonceTable\<close>

definition NONCE_SIZE :: nat where "NONCE_SIZE = 8"

type_synonym Nonce = bytes

record NonceEntry =
  ne_nonce :: Nonce
  ne_issued :: int

record NonceTable =
  nt_freshness :: int
  nt_entries :: "byte \<times> byte \<rightharpoonup> NonceEntry"

definition newNonceTable :: "int \<Rightarrow> NonceTable" where
  "newNonceTable freshness = \<lparr>nt_freshness = freshness, nt_entries = Map.empty\<rparr>"

text \<open>\<open>drawn\<close> is what \<open>RAND_bytes\<close> left in the buffer.\<close>

definition nonce_generate :: "Nonce \<Rightarrow> byte \<Rightarrow> int \<Rightarrow> NonceTable \<Rightarrow> Nonce \<times> NonceTable" where
  "nonce_generate drawn peer now t =
     (drawn, t\<lparr>nt_entries := (nt_entries t)((peer, drawn ! 0) \<mapsto> \<lparr>ne_nonce = drawn, ne_issued = now\<rparr>)\<rparr>)"

definition nonce_take :: "byte \<Rightarrow> byte \<Rightarrow> int \<Rightarrow> NonceTable \<Rightarrow> Nonce option \<times> NonceTable" where
  "nonce_take peer nonceId now t =
     (case nt_entries t (peer, nonceId) of
        None \<Rightarrow> (None, t)
      | Some e \<Rightarrow>
          let t1 = t\<lparr>nt_entries := (nt_entries t)((peer, nonceId) := None)\<rparr> in
          if now - ne_issued e > nt_freshness t then (None, t1) else (Some (ne_nonce e), t1))"

definition purgeExpired :: "int \<Rightarrow> NonceTable \<Rightarrow> NonceTable" where
  "purgeExpired now t =
     t\<lparr>nt_entries := (\<lambda>k. case nt_entries t k of
                        None \<Rightarrow> None
                      | Some e \<Rightarrow> if now - ne_issued e > nt_freshness t then None else Some e)\<rparr>"

definition nonce_size :: "NonceTable \<Rightarrow> nat" where
  "nonce_size t = card (dom (nt_entries t))"

section \<open>Nonce commands\<close>

definition CC_SECURITY :: byte where "CC_SECURITY = 0x98"
definition SECURITY_NONCE_GET :: byte where "SECURITY_NONCE_GET = 0x40"
definition SECURITY_NONCE_REPORT :: byte where "SECURITY_NONCE_REPORT = 0x80"
definition SECURITY_MESSAGE_ENCAPSULATION :: byte where "SECURITY_MESSAGE_ENCAPSULATION = 0x81"

definition Security_encodeNonceGet :: bytes where
  "Security_encodeNonceGet = [CC_SECURITY, SECURITY_NONCE_GET]"

definition Security_encodeNonceReport :: "Nonce \<Rightarrow> bytes" where
  "Security_encodeNonceReport nonce = [CC_SECURITY, SECURITY_NONCE_REPORT] @ nonce"

definition Security_decodeNonceReport :: "bytes \<Rightarrow> Nonce option" where
  "Security_decodeNonceReport payload =
     (if length payload \<noteq> 2 + NONCE_SIZE \<or> payload ! 0 \<noteq> CC_SECURITY \<or> payload ! 1 \<noteq> SECURITY_NONCE_REPORT
      then None
      else Some (subspan payload 2 NONCE_SIZE))"

definition Security_commandByte :: "bytes \<Rightarrow> byte option" where
  "Security_commandByte payload =
     (if length payload < 2 \<or> payload ! 0 \<noteq> CC_SECURITY then None else Some (payload ! 1))"

text \<open>The commands the responder hands to the bus: node, payload, callback id.\<close>

record SendDataCommand =
  sdc_nodeId :: byte
  sdc_payload :: bytes
  sdc_callbackId :: byte

definition NO_CALLBACK :: byte where "NO_CALLBACK = 0x00"

definition nonceResponder_onApplicationCommand ::
  "Nonce \<Rightarrow> int \<Rightarrow> byte \<Rightarrow> bytes \<Rightarrow> NonceTable \<Rightarrow> SendDataCommand list \<times> NonceTable" where
  "nonceResponder_onApplicationCommand drawn now sourceNodeId ccData t =
     (case Security_commandByte ccData of
        None \<Rightarrow> ([], t)
      | Some command \<Rightarrow>
          if command \<noteq> SECURITY_NONCE_GET then ([], t)
          else (case nonce_generate drawn sourceNodeId now t of
              (nonce, t1) \<Rightarrow>
                ([\<lparr>sdc_nodeId = sourceNodeId, sdc_payload = Security_encodeNonceReport nonce,
                   sdc_callbackId = NO_CALLBACK\<rparr>], t1)))"

section \<open>Crypto over AES\<close>

definition BLOCK_SIZE :: nat where "BLOCK_SIZE = 16"
definition MAC_SIZE :: nat where "MAC_SIZE = 8"
definition KEY_DERIVE_ENC :: byte where "KEY_DERIVE_ENC = 0xAA"
definition KEY_DERIVE_AUTH :: byte where "KEY_DERIVE_AUTH = 0x55"

record DerivedKeys =
  dk_encryption :: bytes
  dk_authentication :: bytes

definition ecbEncryptBlock :: "libcrypto \<Rightarrow> bytes \<Rightarrow> bytes \<Rightarrow> bytes" where
  "ecbEncryptBlock c key input = aesEcb c key input"

definition deriveKeys :: "libcrypto \<Rightarrow> bytes \<Rightarrow> DerivedKeys" where
  "deriveKeys c networkKey =
     (let encSeed = replicate BLOCK_SIZE KEY_DERIVE_ENC; authSeed = replicate BLOCK_SIZE KEY_DERIVE_AUTH
      in \<lparr>dk_encryption = ecbEncryptBlock c networkKey encSeed,
          dk_authentication = ecbEncryptBlock c networkKey authSeed\<rparr>)"

definition ofbCrypt :: "libcrypto \<Rightarrow> bytes \<Rightarrow> bytes \<Rightarrow> bytes \<Rightarrow> bytes" where
  "ofbCrypt c key initVector data =
     (if data \<noteq> [] then writtenInto (length data) (aesOfb c key initVector data) else [])"

definition paddedSize :: "nat \<Rightarrow> nat" where
  "paddedSize n = (if n = 0 then BLOCK_SIZE else ((n + BLOCK_SIZE - 1) div BLOCK_SIZE) * BLOCK_SIZE)"

definition cbcMac :: "libcrypto \<Rightarrow> bytes \<Rightarrow> bytes \<Rightarrow> bytes" where
  "cbcMac c key data =
     (let padded = paddedSize (length data);
          input = data @ replicate (padded - length data) 0;
          cipher = aesCbc c key (replicate BLOCK_SIZE 0) input
      in subspan cipher (padded - BLOCK_SIZE) MAC_SIZE)"

section \<open>Encapsulation\<close>

definition SEQUENCE_SINGLE :: byte where "SEQUENCE_SINGLE = 0x00"
definition HEADER_SIZE :: nat where "HEADER_SIZE = 2 + NONCE_SIZE"
definition TRAILER_SIZE :: nat where "TRAILER_SIZE = 1 + MAC_SIZE"
definition FRAME_OVERHEAD :: nat where "FRAME_OVERHEAD = HEADER_SIZE + TRAILER_SIZE"

lemmas s0_size_defs = NONCE_SIZE_def BLOCK_SIZE_def MAC_SIZE_def HEADER_SIZE_def TRAILER_SIZE_def
  FRAME_OVERHEAD_def

definition makeIv :: "Nonce \<Rightarrow> Nonce \<Rightarrow> bytes" where
  "makeIv senderNonce receiverNonce = senderNonce @ receiverNonce"

definition authData :: "Nonce \<Rightarrow> Nonce \<Rightarrow> byte \<Rightarrow> byte \<Rightarrow> bytes \<Rightarrow> bytes" where
  "authData senderNonce receiverNonce senderNodeId receiverNodeId ciphertext =
     senderNonce @ receiverNonce
       @ [SECURITY_MESSAGE_ENCAPSULATION, senderNodeId, receiverNodeId, of_nat (length ciphertext)]
       @ ciphertext"

definition S0_encrypt :: "libcrypto \<Rightarrow> bytes \<Rightarrow> byte \<Rightarrow> byte \<Rightarrow> Nonce \<Rightarrow> Nonce \<Rightarrow> bytes \<Rightarrow> bytes" where
  "S0_encrypt c inner senderNodeId receiverNodeId senderNonce receiverNonce networkKey =
     (let keys = deriveKeys c networkKey;
          plaintext = SEQUENCE_SINGLE # inner;
          ivBlock = makeIv senderNonce receiverNonce;
          ciphertext = ofbCrypt c (dk_encryption keys) ivBlock plaintext;
          mac = cbcMac c (dk_authentication keys)
                  (authData senderNonce receiverNonce senderNodeId receiverNodeId ciphertext)
      in [CC_SECURITY, SECURITY_MESSAGE_ENCAPSULATION] @ senderNonce @ ciphertext
           @ [receiverNonce ! 0] @ mac)"

definition S0_decrypt :: "libcrypto \<Rightarrow> bytes \<Rightarrow> byte \<Rightarrow> byte \<Rightarrow> Nonce \<Rightarrow> bytes \<Rightarrow> bytes option" where
  "S0_decrypt c frame senderNodeId receiverNodeId ourNonce networkKey =
     (if length frame < FRAME_OVERHEAD + 1 \<or> frame ! 0 \<noteq> CC_SECURITY \<or>
         frame ! 1 \<noteq> SECURITY_MESSAGE_ENCAPSULATION then None
      else let senderNonce = subspan frame 2 NONCE_SIZE;
               cipherLen = length frame - FRAME_OVERHEAD;
               ciphertext = subspan frame HEADER_SIZE cipherLen;
               nonceId = frame ! (HEADER_SIZE + cipherLen);
               mac = subspan frame (HEADER_SIZE + cipherLen + 1) MAC_SIZE
           in if nonceId \<noteq> ourNonce ! 0 then None
              else let keys = deriveKeys c networkKey;
                       expected = cbcMac c (dk_authentication keys)
                         (authData senderNonce ourNonce senderNodeId receiverNodeId ciphertext)
                   in if \<not> constantTimeEquals c expected mac then None
                      else let plaintext = ofbCrypt c (dk_encryption keys) (makeIv senderNonce ourNonce)
                                             ciphertext
                           in if plaintext = [] then None else Some (tl plaintext))"

section \<open>The nonce table\<close>

text \<open>What every entry satisfies: it is filed under its first byte.\<close>

definition nonces_ok :: "NonceTable \<Rightarrow> bool" where
  "nonces_ok t \<longleftrightarrow> (\<forall>peer i e. nt_entries t (peer, i) = Some e \<longrightarrow> ne_nonce e ! 0 = i)"

datatype nonceOp = OpGenerate Nonce byte int | OpTake byte byte int | OpPurge int

fun runNonceOp :: "nonceOp \<Rightarrow> NonceTable \<Rightarrow> NonceTable" where
  "runNonceOp (OpGenerate drawn peer now) t = snd (nonce_generate drawn peer now t)"
| "runNonceOp (OpTake peer i now) t = snd (nonce_take peer i now t)"
| "runNonceOp (OpPurge now) t = purgeExpired now t"

fun mints :: "byte \<times> byte \<Rightarrow> nonceOp \<Rightarrow> bool" where
  "mints k (OpGenerate drawn peer now) \<longleftrightarrow> k = (peer, drawn ! 0)"
| "mints k _ \<longleftrightarrow> False"

lemma nonces_ok_op: "nonces_ok t \<Longrightarrow> nonces_ok (runNonceOp op t)"
  by (cases op) (auto simp: nonces_ok_def nonce_generate_def nonce_take_def purgeExpired_def Let_def
      split: option.splits if_splits)

lemma nonces_ok_run: "nonces_ok t \<Longrightarrow> nonces_ok (fold runNonceOp ops t)"
  by (induction ops arbitrary: t) (simp_all add: nonces_ok_op)

lemma freshness_op: "nt_freshness (runNonceOp op t) = nt_freshness t"
  by (cases op) (auto simp: nonce_generate_def nonce_take_def purgeExpired_def Let_def split: option.splits)

section \<open>Interface: a store whose entries are used once\<close>

locale single_use =
  fixes tk :: "'k \<Rightarrow> 't \<Rightarrow> 's \<Rightarrow> 'v option \<times> 's"
    and absent :: "'k \<Rightarrow> 's \<Rightarrow> bool"
    and run :: "'op \<Rightarrow> 's \<Rightarrow> 's"
    and makes :: "'k \<Rightarrow> 'op \<Rightarrow> bool"
  assumes take_removes: "absent k (snd (tk k t s))"
    and absent_take: "absent k s \<Longrightarrow> fst (tk k t s) = None"
    and absent_run: "absent k s \<Longrightarrow> \<not> makes k op \<Longrightarrow> absent k (run op s)"
begin

lemma absent_runs: "absent k s \<Longrightarrow> \<forall>op \<in> set ops. \<not> makes k op \<Longrightarrow> absent k (fold run ops s)"
  by (induction ops arbitrary: s) (simp_all add: absent_run)

lemma used_once:
  "\<forall>op \<in> set ops. \<not> makes k op \<Longrightarrow> fst (tk k t2 (fold run ops (snd (tk k t1 s)))) = None"
  by (intro absent_take absent_runs take_removes)

end

interpretation nonces: single_use "\<lambda>k now t. nonce_take (fst k) (snd k) now t"
  "\<lambda>k t. nt_entries t k = None" runNonceOp mints
proof
  fix k op and t :: NonceTable
  assume "nt_entries t k = None" "\<not> mints k op"
  then show "nt_entries (runNonceOp op t) k = None"
    by (cases op) (auto simp: nonce_generate_def nonce_take_def purgeExpired_def Let_def
        split: option.splits)
qed (auto simp: nonce_take_def Let_def split: option.splits)

text \<open>Where the entries come from, for a table that started empty.\<close>

lemma entries_generated:
  "nt_entries (fold runNonceOp ops (newNonceTable fr)) (peer, i) = Some e \<Longrightarrow>
   OpGenerate (ne_nonce e) peer (ne_issued e) \<in> set ops \<and> ne_nonce e ! 0 = i"
proof (induction ops rule: rev_induct)
  case Nil
  then show ?case by (simp add: newNonceTable_def)
next
  case (snoc op ops)
  then show ?case
    by (cases op) (auto simp: nonce_generate_def nonce_take_def purgeExpired_def Let_def
        split: option.splits if_splits)
qed

lemma freshness_run: "nt_freshness (fold runNonceOp ops t) = nt_freshness t"
  by (induction ops arbitrary: t) (simp_all add: freshness_op)

section \<open>The encapsulated frame\<close>

lemma paddedSize_ge: "n \<le> paddedSize n" "BLOCK_SIZE \<le> paddedSize n"
proof -
  have "n \<le> ((n + 16 - 1) div 16) * 16" by linarith
  then show "n \<le> paddedSize n" by (simp add: paddedSize_def BLOCK_SIZE_def)
  show "BLOCK_SIZE \<le> paddedSize n"
  proof (cases "n = 0")
    case False
    then have "16 div 16 \<le> (n + 16 - 1) div 16" by (intro div_le_mono) simp
    then show ?thesis using False by (simp add: paddedSize_def BLOCK_SIZE_def)
  qed (simp add: paddedSize_def)
qed

lemma length_cbcMac: "cbc_keeps_length c \<Longrightarrow> length (cbcMac c k d) = MAC_SIZE"
  using paddedSize_ge [of "length d"]
  by (simp add: cbcMac_def Let_def cbc_keeps_length_def subspan_def s0_size_defs)

lemma length_ofbCrypt: "length (ofbCrypt c k iv d) = length d"
  by (simp add: ofbCrypt_def)

lemma ofbCrypt_twice: "ofb_symmetric c \<Longrightarrow> ofbCrypt c k iv (ofbCrypt c k iv d) = d"
  by (auto simp: ofbCrypt_def ofb_symmetric_def writtenInto_exact) (metis length_0_conv)

text \<open>The layout of a frame and the fields the receiver cuts out of it.\<close>

definition s0Frame :: "Nonce \<Rightarrow> bytes \<Rightarrow> byte \<Rightarrow> bytes \<Rightarrow> bytes" where
  "s0Frame senderNonce ciphertext nonceId mac =
     [CC_SECURITY, SECURITY_MESSAGE_ENCAPSULATION] @ senderNonce @ ciphertext @ [nonceId] @ mac"

lemma s0Frame_fields:
  fixes ct i
  assumes "length sn = NONCE_SIZE" and "length mac = MAC_SIZE"
  defines "f \<equiv> s0Frame sn ct i mac"
  shows "length f = FRAME_OVERHEAD + length ct" and "f ! 0 = CC_SECURITY"
    and "f ! 1 = SECURITY_MESSAGE_ENCAPSULATION" and "subspan f 2 NONCE_SIZE = sn"
    and "subspan f HEADER_SIZE (length ct) = ct" and "f ! (HEADER_SIZE + length ct) = i"
    and "subspan f (HEADER_SIZE + length ct + 1) MAC_SIZE = mac"
proof -
  have d10: "drop 10 f = ct @ [i] @ mac"
    using assms(1) by (simp add: f_def s0Frame_def s0_size_defs)
  have len: "length f = 19 + length ct"
    using assms by (simp add: f_def s0Frame_def s0_size_defs)
  show "length f = FRAME_OVERHEAD + length ct" by (simp add: len s0_size_defs)
  show "f ! 0 = CC_SECURITY" "f ! 1 = SECURITY_MESSAGE_ENCAPSULATION" "subspan f 2 NONCE_SIZE = sn"
    using assms(1) by (simp_all add: f_def s0Frame_def subspan_def)
  show "subspan f HEADER_SIZE (length ct) = ct"
    by (simp add: subspan_def s0_size_defs d10)
  have "f ! (10 + length ct) = drop 10 f ! length ct"
    by (rule nth_drop [symmetric]) (simp add: len)
  then show "f ! (HEADER_SIZE + length ct) = i"
    by (simp add: d10 s0_size_defs)
  have "drop (HEADER_SIZE + length ct + 1) f = drop (length ct + 1) (drop 10 f)"
    by (simp add: s0_size_defs ac_simps)
  then show "subspan f (HEADER_SIZE + length ct + 1) MAC_SIZE = mac"
    using assms(2) by (simp add: subspan_def d10)
qed

lemma s0Frame_exists:
  assumes "FRAME_OVERHEAD \<le> length f" and "f ! 0 = CC_SECURITY" and "f ! 1 = SECURITY_MESSAGE_ENCAPSULATION"
  obtains sn ct i mac where "f = s0Frame sn ct i mac" "length sn = NONCE_SIZE" "length mac = MAC_SIZE"
proof -
  define n where "n = length f - 19"
  have n: "length f = 19 + n" using assms(1) by (simp add: n_def s0_size_defs)
  have parts: "f = take 2 f @ drop 2 f" "drop 2 f = take 8 (drop 2 f) @ drop 8 (drop 2 f)"
    "drop 8 (drop 2 f) = take n (drop 8 (drop 2 f)) @ drop n (drop 8 (drop 2 f))"
    by (simp_all only: append_take_drop_id)
  define rest where "rest = drop n (drop 8 (drop 2 f))"
  have "length rest = 9" using n by (simp add: rest_def)
  then obtain i mac where "rest = i # mac" "length mac = 8"
    by (cases rest) auto
  then have tail: "drop n (drop 8 (drop 2 f)) = i # mac" "length mac = 8"
    by (simp_all only: rest_def)
  have "take 2 f = [CC_SECURITY, SECURITY_MESSAGE_ENCAPSULATION]"
    using n assms(2,3) by (cases f; cases "tl f") auto
  then have f: "f = s0Frame (take 8 (drop 2 f)) (take n (drop 8 (drop 2 f))) i mac"
    using parts tail(1) unfolding s0Frame_def by (metis append_Cons append_Nil)
  show thesis
    by (rule that [OF f]) (use n tail(2) in \<open>simp_all add: s0_size_defs\<close>)
qed

lemma S0_encrypt_frame:
  "S0_encrypt c inner s r sn rn nk =
     (let keys = deriveKeys c nk;
          ct = ofbCrypt c (dk_encryption keys) (makeIv sn rn) (SEQUENCE_SINGLE # inner)
      in s0Frame sn ct (rn ! 0) (cbcMac c (dk_authentication keys) (authData sn rn s r ct)))"
  by (simp add: S0_encrypt_def s0Frame_def Let_def)

lemma S0_decrypt_frame:
  assumes "length sn = NONCE_SIZE" and "length mac = MAC_SIZE" and "memcmp_exact c"
  shows "S0_decrypt c (s0Frame sn ct i mac) s r our nk =
    (let keys = deriveKeys c nk; plain = ofbCrypt c (dk_encryption keys) (makeIv sn our) ct in
     if ct \<noteq> [] \<and> i = our ! 0 \<and> mac = cbcMac c (dk_authentication keys) (authData sn our s r ct) \<and> plain \<noteq> []
     then Some (tl plain) else None)"
proof -
  note f = s0Frame_fields [OF assms(1,2), of ct i]
  have "length (s0Frame sn ct i mac) < FRAME_OVERHEAD + 1 \<longleftrightarrow> ct = []"
    unfolding f(1) by (cases ct) simp_all
  moreover have "length (s0Frame sn ct i mac) - FRAME_OVERHEAD = length ct"
    unfolding f(1) by simp
  ultimately show ?thesis
    unfolding S0_decrypt_def Let_def f(2,3) using f(4-7) assms(3)
    by (auto simp: constantTimeEquals_iff)
qed

lemma s0_roundtrip_core:
  assumes "ofb_symmetric c" and "cbc_keeps_length c" and "memcmp_exact c"
    and "length sn = 8" and "length rn = 8"
  shows "S0_decrypt c (S0_encrypt c inner s r sn rn nk) s r rn nk = Some inner"
proof -
  let ?keys = "deriveKeys c nk"
  let ?ct = "ofbCrypt c (dk_encryption ?keys) (makeIv sn rn) (SEQUENCE_SINGLE # inner)"
  have "length ?ct = Suc (length inner)" using assms(1) by (simp add: length_ofbCrypt)
  then have "?ct \<noteq> []" by auto
  then show ?thesis
    unfolding S0_encrypt_frame Let_def
    using assms by (subst S0_decrypt_frame) (simp_all add: NONCE_SIZE_def length_cbcMac ofbCrypt_twice Let_def)
qed

section \<open>Properties\<close>

text \<open>
  An encapsulated command is decrypted to the same command by the node that issued the
  receiver nonce, when both sides use the same network key, node ids and nonces.
\<close>

theorem s0_roundtrip:
  assumes "ofb_symmetric c" and "cbc_keeps_length c" and "memcmp_exact c"
    and "length sn = 8" and "length rn = 8"
  shows "S0_decrypt c (S0_encrypt c inner s r sn rn nk) s r rn nk = Some inner"
  using assms by (rule s0_roundtrip_core)

text \<open>A stand-in for the library that satisfies what is assumed of it.\<close>

definition toyCrypto :: libcrypto where
  "toyCrypto = \<lparr>aesEcb = (\<lambda>k b. map2 (XOR) k b), aesOfb = (\<lambda>k iv d. map (\<lambda>b. b XOR hd (k @ [0])) d),
     aesCbc = (\<lambda>k iv d. map (\<lambda>b. b XOR fold (XOR) d 0) d),
     cryptoMemcmp = (\<lambda>a b. if a = b then 0 else 1)\<rparr>"

lemma toyCrypto_ok: "ofb_symmetric toyCrypto" "cbc_keeps_length toyCrypto" "memcmp_exact toyCrypto"
  by (simp_all add: toyCrypto_def ofb_symmetric_def cbc_keeps_length_def memcmp_exact_def comp_def
      xor.assoc)

lemma s0_roundtrip_toy:
  "S0_decrypt toyCrypto (S0_encrypt toyCrypto [0x25, 0x02] 1 7 (replicate 8 3) (replicate 8 4)
     (replicate 16 9)) 1 7 (replicate 8 4) (replicate 16 9) = Some [0x25, 0x02]"
  by code_simp

theorem s0_roundtrip_witness:
  "S0_decrypt toyCrypto (S0_encrypt toyCrypto [0x25, 0x01, 0xFF] 1 7 (replicate 8 3) (replicate 8 4)
     (replicate 16 9)) 1 7 (replicate 8 4) (replicate 16 9) = Some [0x25, 0x01, 0xFF]"
  by (rule s0_roundtrip) (simp_all add: toyCrypto_ok)



text \<open>
  C20: an issued nonce is used at most once and only while fresh: whatever a take returns was
  generated for that peer at most the freshness window earlier, and after any take of the same
  nonce id a further take fails until a nonce with that id is issued to that peer again.
\<close>

theorem nonce_single_use_fresh:
  assumes "\<forall>op \<in> set later. \<not> mints (peer, i) op"
  shows "fst (nonce_take peer i now2 (fold runNonceOp later (snd (nonce_take peer i now1 t)))) = None \<and>
    (fst (nonce_take peer i now1 (fold runNonceOp ops (newNonceTable fr))) = Some n \<longrightarrow>
       n ! 0 = i \<and> (\<exists>issued. OpGenerate n peer issued \<in> set ops \<and> now1 - issued \<le> fr))"
proof (intro conjI impI)
  show "fst (nonce_take peer i now2 (fold runNonceOp later (snd (nonce_take peer i now1 t)))) = None"
    using nonces.used_once [of later "(peer, i)" now2 now1 t] assms by simp
next
  let ?t = "fold runNonceOp ops (newNonceTable fr)"
  assume "fst (nonce_take peer i now1 ?t) = Some n"
  then obtain e where e: "nt_entries ?t (peer, i) = Some e" "now1 - ne_issued e \<le> fr" "n = ne_nonce e"
    by (auto simp: nonce_take_def Let_def freshness_run newNonceTable_def split: option.splits if_splits)
  show "n ! 0 = i" "\<exists>issued. OpGenerate n peer issued \<in> set ops \<and> now1 - issued \<le> fr"
    using entries_generated [OF e(1)] e(2,3) by auto
qed

theorem nonce_single_use_fresh_witness:
  "fst (nonce_take 5 7 12 (fold runNonceOp [OpPurge 11, OpGenerate (replicate 8 9) 5 11]
     (snd (nonce_take 5 7 10 (snd (nonce_generate (replicate 8 7) 5 3 (newNonceTable 10))))))) = None"
  using nonce_single_use_fresh [of "[OpPurge 11, OpGenerate (replicate 8 9) 5 11]" 5 7 12 10
      "snd (nonce_generate (replicate 8 7) 5 3 (newNonceTable 10))" "[]" 0 "[]"]
  by simp

end
