(* ===== verification/Cc_Translator.thy ===== *)
theory Cc_Translator
  imports Transport_Service S0_Security
begin

text \<open>
  The unwrapping of inbound frames, \<open>src/src/cc-translator/Encapsulation.cpp\<close>: CRC-16
  wrappers, transport-service segments and S0 encapsulation. The handler republishes the inner
  command on the bus, where it is subscribed itself, so an inner command that is a wrapper again
  is unwrapped in turn; \<open>deliver\<close> is the handler with this recursion. The other
  subscribers of the bus are not part of this component.
\<close>

section \<open>State\<close>

datatype busEvent =
    ApplicationCommandEvent byte bytes
  | NodeSecurityStatusS0 byte

record translator =
  tr_assemblers :: "byte \<rightharpoonup> Assembler"
  tr_controllerNodeId :: byte
  tr_nonces :: NonceTable
  tr_key :: "bytes option"
  tr_reads :: nat

text \<open>
  The network key and the table of issued nonces are process-wide objects the handler reads and
  updates. \<open>clock\<close> gives the time of each successive reading of the clock.
\<close>

definition MIN_S0_FRAME :: nat where "MIN_S0_FRAME = 20"
definition NONCE_ID_FROM_END :: nat where "NONCE_ID_FROM_END = 9"

definition assemblerOf :: "translator \<Rightarrow> byte \<Rightarrow> Assembler" where
  "assemblerOf st node = (case tr_assemblers st node of None \<Rightarrow> newAssembler | Some A \<Rightarrow> A)"

lemma assemblerOf_update [simp]:
  "assemblerOf (st\<lparr>tr_assemblers := (tr_assemblers st)(node \<mapsto> A)\<rparr>) n =
     (if n = node then A else assemblerOf st n)"
  by (simp add: assemblerOf_def)

section \<open>The handler\<close>

text \<open>
  One call: the events it publishes, the inner command it republishes if any (it is then the last
  event), and the new state.
\<close>

definition unwrapS0 ::
  "libcrypto \<Rightarrow> (nat \<Rightarrow> int) \<Rightarrow> byte \<Rightarrow> bytes \<Rightarrow> translator \<Rightarrow> busEvent list \<times> bytes option \<times> translator" where
  "unwrapS0 c clock node data st =
     (if length data < MIN_S0_FRAME then ([], None, st)
      else case tr_key st of
          None \<Rightarrow> ([], None, st)
        | Some key \<Rightarrow>
            let nonceId = data ! (length data - NONCE_ID_FROM_END) in
            (case nonce_take node nonceId (clock (tr_reads st)) (tr_nonces st) of
               (None, t1) \<Rightarrow> ([], None, st\<lparr>tr_nonces := t1, tr_reads := tr_reads st + 1\<rparr>)
             | (Some ourNonce, t1) \<Rightarrow>
                 let st1 = st\<lparr>tr_nonces := t1, tr_reads := tr_reads st + 1\<rparr> in
                 (case S0_decrypt c data node (tr_controllerNodeId st) ourNonce key of
                    None \<Rightarrow> ([], None, st1)
                  | Some inner \<Rightarrow>
                      ([NodeSecurityStatusS0 node, ApplicationCommandEvent node inner], Some inner, st1))))"

definition onApplicationCommand ::
  "libcrypto \<Rightarrow> (nat \<Rightarrow> int) \<Rightarrow> byte \<Rightarrow> bytes \<Rightarrow> translator \<Rightarrow>
   fault + (busEvent list \<times> bytes option \<times> translator)" where
  "onApplicationCommand c clock node data st =
     (if length data < 2 then Inr ([], None, st)
      else if data ! 0 = CC_CRC16_ENCAP \<and> data ! 1 = CRC16_ENCAP
        then (case Crc16Encap_verifyAndUnwrap data of
                None \<Rightarrow> Inr ([], None, st)
              | Some inner \<Rightarrow> Inr ([ApplicationCommandEvent node inner], Some inner, st))
      else if data ! 0 = CC_TRANSPORT_SERVICE
        then (case feedSegment data (assemblerOf st node) of
                Inl e \<Rightarrow> Inl e
              | Inr (r, A1) \<Rightarrow>
                  let st1 = st\<lparr>tr_assemblers := (tr_assemblers st)(node \<mapsto> A1)\<rparr> in
                  (case r of
                     None \<Rightarrow> Inr ([], None, st1)
                   | Some inner \<Rightarrow> Inr ([ApplicationCommandEvent node inner], Some inner, st1)))
      else if data ! 0 = CC_SECURITY \<and> data ! 1 = SECURITY_MESSAGE_ENCAPSULATION
        then Inr (unwrapS0 c clock node data st)
      else Inr ([], None, st))"

definition onDongleInfo :: "byte \<Rightarrow> translator \<Rightarrow> translator" where
  "onDongleInfo controllerNodeId st = st\<lparr>tr_controllerNodeId := controllerNodeId\<rparr>"

section \<open>Every hop makes the pending bytes fewer\<close>

text \<open>The bytes of the frame and of the datagram in flight for its sender.\<close>

definition pendingBytes :: "byte \<Rightarrow> bytes \<Rightarrow> translator \<Rightarrow> nat" where
  "pendingBytes node data st =
     length data + (let A = assemblerOf st node in if ts_active A then length (ts_buffer A) else 0)"

lemma placeLoop_sizes:
  "placeLoop pos p A = Inr A' \<Longrightarrow>
   length (ts_buffer A') = length (ts_buffer A) \<and> ts_datagramSize A' = ts_datagramSize A \<and>
   ts_receivedCount A' \<le> ts_receivedCount A + length p"
proof (induction pos p A rule: placeLoop.induct)
  case (2 pos b bs A)
  then show ?case by (auto split: if_splits)
qed simp

lemma place_emits:
  assumes "place off p A = Inr (Some d, A')"
  shows "\<not> ts_active A' \<and> length d = length (ts_buffer A) \<and>
         ts_datagramSize A \<le> ts_receivedCount A + length p"
  using assms by (auto simp: place_def split: sum.splits if_splits dest!: placeLoop_sizes)

lemma payloadStart_ge: "payloadStart seg n b = Some s \<Longrightarrow> b \<le> s \<and> s \<le> n"
  by (auto simp: payloadStart_def Let_def split: if_splits)

lemma feedSegment_emits:
  assumes "feedSegment seg A = Inr (Some d, A')"
  shows "\<not> ts_active A' \<and> length d < length seg + (if ts_active A then length (ts_buffer A) else 0)"
proof -
  let ?n = "length seg - FCS_LEN"
  have seg: "2 < length seg"
    using assms by (auto simp: feedSegment_def FCS_LEN_def split: if_splits)
  consider "handleFirst seg ?n A = Inr (Some d, A')" | "handleSubsequent seg ?n A = Inr (Some d, A')"
    using assms by (auto simp: feedSegment_def Let_def split: if_splits)
  then show ?thesis
  proof cases
    case 1
    then show ?thesis
      using seg by (auto simp: handleFirst_def Let_def subspan_def FCS_LEN_def simp del: One_nat_def
          split: if_splits option.splits dest!: place_emits payloadStart_ge)
  next
    case 2
    then obtain off p where "ts_active A" "place off p A = Inr (Some d, A')"
      by (auto simp: handleSubsequent_def Let_def split: if_splits option.splits)
    with place_emits [OF this(2)] show ?thesis
      using seg by auto
  qed
qed

lemma S0_decrypt_shorter:
  "S0_decrypt c f s r our nk = Some inner \<Longrightarrow> length inner < length f"
  by (auto simp: S0_decrypt_def Let_def length_ofbCrypt subspan_def s0_size_defs split: if_splits)

lemma unwrapS0_inner:
  assumes "unwrapS0 c clock node data st = (evs, Some inner, st')"
  shows "length inner < length data \<and> tr_assemblers st' = tr_assemblers st"
  using assms
  by (auto simp: unwrapS0_def Let_def split: if_splits option.splits prod.splits
      dest: S0_decrypt_shorter)

lemma pending_decreases:
  assumes "onApplicationCommand c clock node data st = Inr (evs, Some inner, st')"
  shows "pendingBytes node inner st' < pendingBytes node data st"
proof -
  have len: "\<not> length data < 2"
    by (rule ccontr) (use assms in \<open>simp add: onApplicationCommand_def\<close>)
  note on = onApplicationCommand_def [of c clock node data st]
  show ?thesis
  proof (cases "data ! 0 = CC_CRC16_ENCAP \<and> data ! 1 = CRC16_ENCAP")
    case True
    with assms len have "Crc16Encap_verifyAndUnwrap data = Some inner" "st' = st"
      by (simp_all add: on split: option.splits)
    then show ?thesis
      using unwrap_length by (fastforce simp: pendingBytes_def)
  next
    case noCrc: False
    show ?thesis
    proof (cases "data ! 0 = CC_TRANSPORT_SERVICE")
      case True
      with assms len noCrc obtain A1 where A1:
        "feedSegment data (assemblerOf st node) = Inr (Some inner, A1)"
        "st' = st\<lparr>tr_assemblers := (tr_assemblers st)(node \<mapsto> A1)\<rparr>"
        by (auto simp: on Let_def split: option.splits sum.splits prod.splits)
      then show ?thesis
        using feedSegment_emits [OF A1(1)] by (simp add: pendingBytes_def Let_def)
    next
      case False
      with assms len noCrc have "unwrapS0 c clock node data st = (evs, Some inner, st')"
        by (simp add: on split: if_splits)
      from unwrapS0_inner [OF this] show ?thesis
        by (simp add: pendingBytes_def assemblerOf_def)
    qed
  qed
qed

section \<open>Delivery through the bus\<close>

function deliver ::
  "libcrypto \<Rightarrow> (nat \<Rightarrow> int) \<Rightarrow> byte \<Rightarrow> bytes \<Rightarrow> translator \<Rightarrow> fault + (busEvent list \<times> translator)" where
  "deliver c clock node data st =
     (case onApplicationCommand c clock node data st of
        Inl e \<Rightarrow> Inl e
      | Inr (evs, None, st1) \<Rightarrow> Inr (evs, st1)
      | Inr (evs, Some inner, st1) \<Rightarrow>
          (case deliver c clock node inner st1 of
             Inl e \<Rightarrow> Inl e
           | Inr (evs2, st2) \<Rightarrow> Inr (evs @ evs2, st2)))"
  by pat_completeness auto
termination
  by (relation "measure (\<lambda>(c, clock, node, data, st). pendingBytes node data st)")
    (auto dest: pending_decreases)

declare deliver.simps [simp del]

section \<open>What passes through\<close>

text \<open>A command that none of the three unwrappers takes.\<close>

definition isWrapped :: "bytes \<Rightarrow> bool" where
  "isWrapped data \<longleftrightarrow> 2 \<le> length data \<and>
     (data ! 0 = CC_CRC16_ENCAP \<and> data ! 1 = CRC16_ENCAP \<or> data ! 0 = CC_TRANSPORT_SERVICE \<or>
      data ! 0 = CC_SECURITY \<and> data ! 1 = SECURITY_MESSAGE_ENCAPSULATION)"

lemma deliver_plain: "\<not> isWrapped data \<Longrightarrow> deliver c clock node data st = Inr ([], st)"
  by (subst deliver.simps) (auto simp: onApplicationCommand_def isWrapped_def)

lemma Crc16Encap_encode_header:
  "2 \<le> length (Crc16Encap_encode inner)" "Crc16Encap_encode inner ! 0 = CC_CRC16_ENCAP"
  "Crc16Encap_encode inner ! 1 = CRC16_ENCAP" "Crc16Encap_encode inner \<noteq> []"
  by (simp_all add: Crc16Encap_encode_def Let_def)

lemma deliver_crc:
  assumes "inner \<noteq> []" and "deliver c clock node inner st = Inr (evs, st')"
  shows "deliver c clock node (Crc16Encap_encode inner) st =
         Inr (ApplicationCommandEvent node inner # evs, st')"
  using assms Crc16Encap_encode_header [of inner]
  by (subst deliver.simps) (simp add: onApplicationCommand_def unwrap_encode)

lemma crc_tower_nonempty: "inner \<noteq> [] \<Longrightarrow> (Crc16Encap_encode ^^ k) inner \<noteq> []"
  by (cases k) (simp_all add: Crc16Encap_encode_header)

lemma deliver_crc_tower:
  assumes "inner \<noteq> []" and "\<not> isWrapped inner"
  shows "deliver c clock node ((Crc16Encap_encode ^^ k) inner) st =
    Inr (map (\<lambda>j. ApplicationCommandEvent node ((Crc16Encap_encode ^^ j) inner)) (rev [0 ..< k]), st)"
proof (induction k)
  case 0
  show ?case using assms(2) by (simp add: deliver_plain)
next
  case (Suc k)
  have "deliver c clock node (Crc16Encap_encode ((Crc16Encap_encode ^^ k) inner)) st =
      Inr (ApplicationCommandEvent node ((Crc16Encap_encode ^^ k) inner) #
        map (\<lambda>j. ApplicationCommandEvent node ((Crc16Encap_encode ^^ j) inner)) (rev [0 ..< k]), st)"
    by (rule deliver_crc [OF crc_tower_nonempty [OF assms(1)] Suc.IH])
  then show ?case by simp
qed

text \<open>The number of hops is bounded by the bytes pending.\<close>

fun isCommandEvent :: "busEvent \<Rightarrow> bool" where
  "isCommandEvent (ApplicationCommandEvent _ _) \<longleftrightarrow> True"
| "isCommandEvent _ \<longleftrightarrow> False"

lemma onApplicationCommand_events:
  assumes "onApplicationCommand c clock node data st = Inr (evs, r, st')"
  shows "length (filter isCommandEvent evs) = (case r of None \<Rightarrow> 0 | Some _ \<Rightarrow> 1)"
proof -
  have "length (filter isCommandEvent es) = (case q of None \<Rightarrow> 0 | Some _ \<Rightarrow> 1)"
    if "unwrapS0 c clock node data st = (es, q, s2)" for es q s2
    using that by (auto simp: unwrapS0_def Let_def split: if_splits option.splits prod.splits)
  with assms show ?thesis
    unfolding onApplicationCommand_def Let_def
    by (auto split: if_splits) (auto split: option.splits sum.splits prod.splits)
qed

lemma deliver_hops:
  "deliver c clock node data st = Inr (evs, st') \<Longrightarrow>
   length (filter isCommandEvent evs) \<le> pendingBytes node data st"
proof (induction c clock node data st arbitrary: evs st' rule: deliver.induct)
  case (1 c clock node data st)
  show ?case
  proof (cases "onApplicationCommand c clock node data st")
    case (Inr res)
    obtain evs1 r st1 where res: "res = (evs1, r, st1)" by (rule prod_cases3)
    note on = Inr [unfolded res]
    show ?thesis
    proof (cases r)
      case None
      then show ?thesis
        using "1.prems" on onApplicationCommand_events [OF on] by (simp add: deliver.simps [of c])
    next
      case (Some inner)
      then obtain evs2 st2 where d: "deliver c clock node inner st1 = Inr (evs2, st2)" "evs = evs1 @ evs2"
        using "1.prems" on by (auto simp: deliver.simps [of c _ _ data] split: sum.splits)
      have "length (filter isCommandEvent evs2) \<le> pendingBytes node inner st1"
        using "1.IH" on Some d(1) by fastforce
      moreover have "pendingBytes node inner st1 < pendingBytes node data st"
        using pending_decreases on Some by blast
      ultimately show ?thesis
        using onApplicationCommand_events [OF on] Some d(2) by simp
    qed
  qed (use "1.prems" in \<open>simp add: deliver.simps [of c]\<close>)
qed

section \<open>A secure frame\<close>

lemma S0_encrypt_shape:
  fixes inner s r rn nk
  assumes "cbc_keeps_length c" and "length sn = 8"
  defines "f \<equiv> S0_encrypt c inner s r sn rn nk"
  shows "length f = 20 + length inner" and "f ! 0 = CC_SECURITY" and "f ! 1 = SECURITY_MESSAGE_ENCAPSULATION"
    and "f ! (length f - 9) = rn ! 0"
proof -
  let ?keys = "deriveKeys c nk"
  let ?ct = "ofbCrypt c (dk_encryption ?keys) (makeIv sn rn) (SEQUENCE_SINGLE # inner)"
  let ?mac = "cbcMac c (dk_authentication ?keys) (authData sn rn s r ?ct)"
  have f: "f = s0Frame sn ?ct (rn ! 0) ?mac"
    by (simp add: f_def S0_encrypt_frame Let_def)
  have "length sn = NONCE_SIZE" "length ?mac = MAC_SIZE"
    using assms(1,2) by (simp_all add: NONCE_SIZE_def length_cbcMac)
  note fields = s0Frame_fields [OF this, of ?ct "rn ! 0", folded f]
  show len: "length f = 20 + length inner"
    unfolding fields(1) by (simp add: length_ofbCrypt s0_size_defs)
  show "f ! 0 = CC_SECURITY" "f ! 1 = SECURITY_MESSAGE_ENCAPSULATION" by (fact fields(2), fact fields(3))
  have "length f - 9 = HEADER_SIZE + length ?ct"
    by (simp add: len length_ofbCrypt s0_size_defs)
  then show "f ! (length f - 9) = rn ! 0" by (simp only: fields(6))
qed

lemma deliver_s0:
  assumes "length data \<ge> 20" and "data ! 0 = CC_SECURITY" and "data ! 1 = SECURITY_MESSAGE_ENCAPSULATION"
  shows "onApplicationCommand c clock node data st = Inr (unwrapS0 c clock node data st)"
  using assms
  by (simp add: onApplicationCommand_def CC_SECURITY_def CC_CRC16_ENCAP_def CC_TRANSPORT_SERVICE_def)

text \<open>The state after the nonce of a frame was taken.\<close>

definition nonceTaken :: "byte \<Rightarrow> byte \<Rightarrow> translator \<Rightarrow> translator" where
  "nonceTaken node i st =
     st\<lparr>tr_nonces := (tr_nonces st)\<lparr>nt_entries := (nt_entries (tr_nonces st))((node, i) := None)\<rparr>,
        tr_reads := tr_reads st + 1\<rparr>"

lemma deliver_s0_fresh:
  assumes "ofb_symmetric c" and "cbc_keeps_length c" and "memcmp_exact c"
    and "length sn = 8" and "length rn = 8" and "tr_key st = Some nk"
    and "nt_entries (tr_nonces st) (node, rn ! 0) = Some \<lparr>ne_nonce = rn, ne_issued = issued\<rparr>"
    and "clock (tr_reads st) - issued \<le> nt_freshness (tr_nonces st)"
    and "\<not> isWrapped inner"
  shows "deliver c clock node (S0_encrypt c inner node (tr_controllerNodeId st) sn rn nk) st =
    Inr ([NodeSecurityStatusS0 node, ApplicationCommandEvent node inner], nonceTaken node (rn ! 0) st)"
proof -
  let ?frame = "S0_encrypt c inner node (tr_controllerNodeId st) sn rn nk"
  note shape = S0_encrypt_shape [OF assms(2,4), of inner node "tr_controllerNodeId st" rn nk]
  have dec: "S0_decrypt c ?frame node (tr_controllerNodeId st) rn nk = Some inner"
    by (rule s0_roundtrip_core [OF assms(1-5)])
  have "unwrapS0 c clock node ?frame st =
      ([NodeSecurityStatusS0 node, ApplicationCommandEvent node inner], Some inner, nonceTaken node (rn ! 0) st)"
    using shape assms(6-8) dec
    by (simp add: unwrapS0_def MIN_S0_FRAME_def NONCE_ID_FROM_END_def nonce_take_def nonceTaken_def)
  moreover have "onApplicationCommand c clock node ?frame st = Inr (unwrapS0 c clock node ?frame st)"
    using shape by (intro deliver_s0) simp_all
  ultimately show ?thesis
    using assms(9) by (subst deliver.simps) (simp add: deliver_plain)
qed

lemma deliver_s0_taken:
  assumes "cbc_keeps_length c" and "length sn = 8" and "tr_key st = Some nk"
    and "nt_entries (tr_nonces st) (node, rn ! 0) = None"
  shows "deliver c clock node (S0_encrypt c inner node r sn rn k) st = Inr ([], st\<lparr>tr_reads := tr_reads st + 1\<rparr>)"
proof -
  let ?frame = "S0_encrypt c inner node r sn rn k"
  note shape = S0_encrypt_shape [OF assms(1,2), of inner node r rn k]
  have "unwrapS0 c clock node ?frame st = ([], None, st\<lparr>tr_reads := tr_reads st + 1\<rparr>)"
    using shape assms(3,4) by (simp add: unwrapS0_def MIN_S0_FRAME_def NONCE_ID_FROM_END_def nonce_take_def)
  moreover have "onApplicationCommand c clock node ?frame st = Inr (unwrapS0 c clock node ?frame st)"
    using shape by (intro deliver_s0) simp_all
  ultimately show ?thesis by (subst deliver.simps) simp
qed

section \<open>Properties\<close>


text \<open>
  A command inside any number of CRC-16 wrappers is unwrapped hop by hop down to the command
  itself, which is published last; nothing limits the nesting to one hop.
\<close>

theorem crc_nesting_unwrapped:
  assumes "inner \<noteq> []" and "\<not> isWrapped inner"
  shows "deliver c clock node ((Crc16Encap_encode ^^ k) inner) st =
    Inr (map (\<lambda>j. ApplicationCommandEvent node ((Crc16Encap_encode ^^ j) inner)) (rev [0 ..< k]), st)"
  using assms by (rule deliver_crc_tower)

theorem crc_nesting_unwrapped_witness:
  "deliver toyCrypto (\<lambda>_. 0) 5 ((Crc16Encap_encode ^^ 2) [0x25, 0x03, 0xFF])
     \<lparr>tr_assemblers = Map.empty, tr_controllerNodeId = 1, tr_nonces = newNonceTable 10, tr_key = None,
      tr_reads = 0\<rparr> =
   Inr (map (\<lambda>j. ApplicationCommandEvent 5 ((Crc16Encap_encode ^^ j) [0x25, 0x03, 0xFF])) (rev [0 ..< 2]),
     \<lparr>tr_assemblers = Map.empty, tr_controllerNodeId = 1, tr_nonces = newNonceTable 10, tr_key = None,
      tr_reads = 0\<rparr>)"
  by (rule crc_nesting_unwrapped)
    (simp_all add: isWrapped_def CC_CRC16_ENCAP_def CC_TRANSPORT_SERVICE_def CC_SECURITY_def)

text \<open>
  An S0 frame that was encrypted for this controller under the nonce it issued is delivered
  once: the node is marked as secure and the inner command published, and when the same frame
  arrives again nothing is published, because the nonce is gone.
\<close>

theorem s0_delivered_once:
  assumes "ofb_symmetric c" and "cbc_keeps_length c" and "memcmp_exact c"
    and "length sn = 8" and "length rn = 8" and "tr_key st = Some nk"
    and "nt_entries (tr_nonces st) (node, rn ! 0) = Some \<lparr>ne_nonce = rn, ne_issued = issued\<rparr>"
    and "clock (tr_reads st) - issued \<le> nt_freshness (tr_nonces st)"
    and "\<not> isWrapped inner"
    and "frame = S0_encrypt c inner node (tr_controllerNodeId st) sn rn nk"
  shows "\<exists>st1 st2.
    deliver c clock node frame st =
      Inr ([NodeSecurityStatusS0 node, ApplicationCommandEvent node inner], st1) \<and>
    deliver c clock node frame st1 = Inr ([], st2)"
proof -
  have "deliver c clock node frame st =
      Inr ([NodeSecurityStatusS0 node, ApplicationCommandEvent node inner], nonceTaken node (rn ! 0) st)"
    unfolding assms(10) using assms(1-9) by (rule deliver_s0_fresh)
  moreover have "\<exists>st2. deliver c clock node frame (nonceTaken node (rn ! 0) st) = Inr ([], st2)"
    unfolding assms(10) using deliver_s0_taken [OF assms(2,4)] assms(6) by (simp add: nonceTaken_def)
  ultimately show ?thesis by blast
qed

definition demoTranslator :: translator where
  "demoTranslator = \<lparr>tr_assemblers = Map.empty, tr_controllerNodeId = 1,
     tr_nonces = snd (nonce_generate (replicate 8 4) 7 100 (newNonceTable 10)),
     tr_key = Some (replicate 16 9), tr_reads = 0\<rparr>"

theorem s0_delivered_once_witness:
  "\<exists>st1 st2.
    deliver toyCrypto (\<lambda>i. 105 + int i) 7
      (S0_encrypt toyCrypto [0x25, 0x03, 0xFF] 7 (tr_controllerNodeId demoTranslator) (replicate 8 3)
         (replicate 8 4) (replicate 16 9)) demoTranslator =
      Inr ([NodeSecurityStatusS0 7, ApplicationCommandEvent 7 [0x25, 0x03, 0xFF]], st1) \<and>
    deliver toyCrypto (\<lambda>i. 105 + int i) 7
      (S0_encrypt toyCrypto [0x25, 0x03, 0xFF] 7 (tr_controllerNodeId demoTranslator) (replicate 8 3)
         (replicate 8 4) (replicate 16 9)) st1 = Inr ([], st2)"
  by (rule s0_delivered_once [where issued = 100])
    (simp_all add: toyCrypto_ok demoTranslator_def nonce_generate_def newNonceTable_def isWrapped_def
      CC_CRC16_ENCAP_def CC_TRANSPORT_SERVICE_def CC_SECURITY_def)

end
