(* ===== verification/S2_Crypto.thy ===== *)
theory S2_Crypto
  imports Zw_Prelude
begin

text \<open>
  The cryptographic layer of Security S2, \<open>src/src/zwave-protocol/security/s2\<close>: the wrappers
  of \<open>Crypto.cpp\<close>, the key derivation of \<open>KeyDerivation.cpp\<close>, and the two nonce
  generators, the pairwise one of \<open>Span.cpp\<close> and the group one of \<open>Mpan.cpp\<close> with its
  table. The algorithms of OpenSSL are functions of the record \<open>libcrypto2\<close>, an argument of
  every definition that uses them; a failure of the library, which the code turns into an
  exception, is not modelled. A \<open>std::array\<close> of bytes is a list, its size a fact about the list.
\<close>

section \<open>Crypto\<close>

text \<open>
  What the code calls of the library: AES-128-CCM sealing (ciphertext and tag) and opening,
  AES-CMAC, one block of AES-ECB, the public key of an X25519 private key and the X25519
  agreement, which fails for some peer keys.
\<close>

record libcrypto2 =
  evpCcmSeal :: "bytes \<Rightarrow> bytes \<Rightarrow> bytes \<Rightarrow> bytes \<Rightarrow> nat \<Rightarrow> bytes \<times> bytes"
  evpCcmOpen :: "bytes \<Rightarrow> bytes \<Rightarrow> bytes \<Rightarrow> bytes \<Rightarrow> bytes \<Rightarrow> bytes option"
  evpCmac :: "bytes \<Rightarrow> bytes \<Rightarrow> bytes"
  evpAesBlock :: "bytes \<Rightarrow> bytes \<Rightarrow> bytes"
  evpX25519Public :: "bytes \<Rightarrow> bytes"
  evpX25519 :: "bytes \<Rightarrow> bytes \<Rightarrow> bytes option"

text \<open>
  What the library documents of CCM: the ciphertext has the length of the plaintext, the tag the
  length asked for, and what was sealed opens again under the same key, nonce and associated
  data. Empty plaintexts are left out: for them the calls of the code do not reach the cipher.
\<close>

definition ccm_opens :: "libcrypto2 \<Rightarrow> bool" where
  "ccm_opens c \<longleftrightarrow> (\<forall>k n a p m. p \<noteq> [] \<longrightarrow>
     (case evpCcmSeal c k n a p m of (ct, tag) \<Rightarrow>
        length ct = length p \<and> length tag = m \<and> evpCcmOpen c k n a ct tag = Some p))"

text \<open>And opening accepts only what sealing produces.\<close>

definition ccm_authentic :: "libcrypto2 \<Rightarrow> bool" where
  "ccm_authentic c \<longleftrightarrow> (\<forall>k n a ct tag p. ct \<noteq> [] \<longrightarrow> evpCcmOpen c k n a ct tag = Some p \<longrightarrow>
     length p = length ct \<and> evpCcmSeal c k n a p (length tag) = (ct, tag))"

definition S2_KEY_SIZE :: nat where "S2_KEY_SIZE = 16"
definition S2_BLOCK_SIZE :: nat where "S2_BLOCK_SIZE = 16"
definition S2_CMAC_SIZE :: nat where "S2_CMAC_SIZE = 16"
definition CURVE25519_KEY_SIZE :: nat where "CURVE25519_KEY_SIZE = 32"

lemmas s2_size_defs = S2_KEY_SIZE_def S2_BLOCK_SIZE_def S2_CMAC_SIZE_def CURVE25519_KEY_SIZE_def

record KeyPair =
  kp_publicKey :: bytes
  kp_privateKey :: bytes

definition ccmEncrypt :: "libcrypto2 \<Rightarrow> bytes \<Rightarrow> bytes \<Rightarrow> bytes \<Rightarrow> bytes \<Rightarrow> nat \<Rightarrow> bytes" where
  "ccmEncrypt c key nonce aad plaintext tagLength =
     (case evpCcmSeal c key nonce aad plaintext tagLength of
        (ct, tag) \<Rightarrow> writtenInto (length plaintext) ct @ writtenInto tagLength tag)"

definition ccmDecrypt :: "libcrypto2 \<Rightarrow> bytes \<Rightarrow> bytes \<Rightarrow> bytes \<Rightarrow> bytes \<Rightarrow> nat \<Rightarrow> bytes option" where
  "ccmDecrypt c key nonce aad ciphertextWithTag tagLength =
     (if length ciphertextWithTag < tagLength then None
      else let cipherLen = length ciphertextWithTag - tagLength;
               cipher = subspan ciphertextWithTag 0 cipherLen;
               tag = subspan ciphertextWithTag cipherLen tagLength
           in map_option (writtenInto cipherLen) (evpCcmOpen c key nonce aad cipher tag))"

definition cmac :: "libcrypto2 \<Rightarrow> bytes \<Rightarrow> bytes \<Rightarrow> bytes" where
  "cmac c key data = writtenInto S2_CMAC_SIZE (evpCmac c key data)"

definition aesEcbEncrypt :: "libcrypto2 \<Rightarrow> bytes \<Rightarrow> bytes \<Rightarrow> bytes" where
  "aesEcbEncrypt c key input = writtenInto S2_BLOCK_SIZE (evpAesBlock c key input)"

text \<open>\<open>drawn\<close> is the private key the library generated.\<close>

definition generateKeyPair :: "libcrypto2 \<Rightarrow> bytes \<Rightarrow> KeyPair" where
  "generateKeyPair c drawn = \<lparr>kp_publicKey = evpX25519Public c drawn, kp_privateKey = drawn\<rparr>"

definition ecdh :: "libcrypto2 \<Rightarrow> bytes \<Rightarrow> bytes \<Rightarrow> bytes option" where
  "ecdh c ours theirs =
     (case evpX25519 c ours theirs of
        None \<Rightarrow> None
      | Some secret \<Rightarrow> if length secret \<noteq> CURVE25519_KEY_SIZE then None else Some secret)"

lemma length_cmac [simp]: "length (cmac c k d) = 16"
  by (simp add: cmac_def s2_size_defs)

lemma length_aesEcbEncrypt [simp]: "length (aesEcbEncrypt c k b) = 16"
  by (simp add: aesEcbEncrypt_def s2_size_defs)

lemma length_ccmEncrypt [simp]: "length (ccmEncrypt c k n a p m) = length p + m"
  by (simp add: ccmEncrypt_def split: prod.splits)

lemma ccmDecrypt_encrypt:
  assumes "ccm_opens c" and "p \<noteq> []"
  shows "ccmDecrypt c k n a (ccmEncrypt c k n a p m) m = Some p"
proof -
  obtain ct tag where seal: "evpCcmSeal c k n a p m = (ct, tag)" by (rule prod.exhaust)
  with assms have "length ct = length p" "length tag = m" "evpCcmOpen c k n a ct tag = Some p"
    unfolding ccm_opens_def by (metis (mono_tags, lifting) case_prod_conv)+
  then show ?thesis
    by (simp add: ccmEncrypt_def seal ccmDecrypt_def Let_def subspan_def writtenInto_exact)
qed

lemma ccmDecrypt_sealed:
  assumes "ccm_authentic c" and "ccmDecrypt c k n a w m = Some p" and "p \<noteq> []"
  shows "w = ccmEncrypt c k n a p m"
proof -
  let ?len = "length w - m"
  have "m \<le> length w" using assms(2) by (auto simp: ccmDecrypt_def split: if_splits)
  then obtain p0 where p0: "evpCcmOpen c k n a (subspan w 0 ?len) (subspan w ?len m) = Some p0"
    "p = writtenInto ?len p0"
    using assms(2) by (auto simp: ccmDecrypt_def Let_def)
  have "subspan w 0 ?len \<noteq> []"
    using assms(3) p0(2) by (auto simp: subspan_def writtenInto_def)
  note auth = assms(1) [unfolded ccm_authentic_def, rule_format, OF this p0(1)]
  have "length (subspan w 0 ?len) = ?len" "length (subspan w ?len m) = m"
    using \<open>m \<le> length w\<close> by (simp_all add: subspan_def)
  with auth have seal: "length p0 = ?len" "evpCcmSeal c k n a p0 m = (subspan w 0 ?len, subspan w ?len m)"
    by simp_all
  then have "p = p0" using p0(2) by (simp add: writtenInto_exact)
  then show ?thesis
    using seal \<open>m \<le> length w\<close> by (simp add: ccmEncrypt_def writtenInto_exact subspan_def)
qed

section \<open>KeyDerivation\<close>

definition CONST_PRK_BYTE :: byte where "CONST_PRK_BYTE = 0x33"
definition CONST_PRK_LEN :: nat where "CONST_PRK_LEN = 16"
definition CONST_TE_BYTE :: byte where "CONST_TE_BYTE = 0x88"
definition CONST_NK_BYTE :: byte where "CONST_NK_BYTE = 0x55"
definition CONST_EXPAND_LEN :: nat where "CONST_EXPAND_LEN = 15"

record TempKeys =
  tk_keyCcm :: bytes
  tk_personalization :: bytes

record NetworkKeys =
  nk_keyCcm :: bytes
  nk_personalization :: bytes
  nk_keyMpan :: bytes

text \<open>One turn of the loop of \<open>ckdfExpand\<close>; \<open>chain\<close> holds the blocks so far.\<close>

definition ckdfStep :: "libcrypto2 \<Rightarrow> bytes \<Rightarrow> byte \<Rightarrow> bytes list \<Rightarrow> nat \<Rightarrow> bytes list" where
  "ckdfStep c prk constByte chain index =
     (let msg = (if index > 1 then last chain else []) @ replicate CONST_EXPAND_LEN constByte @ [of_nat index]
      in chain @ [cmac c prk msg])"

definition ckdfExpand :: "libcrypto2 \<Rightarrow> bytes \<Rightarrow> byte \<Rightarrow> nat \<Rightarrow> bytes list" where
  "ckdfExpand c prk constByte blocks = foldl (ckdfStep c prk constByte) [] [1 ..< blocks + 1]"

definition kd_join :: "bytes \<Rightarrow> bytes \<Rightarrow> bytes" where
  "kd_join low high = low @ high"

definition tempExtract :: "libcrypto2 \<Rightarrow> bytes \<Rightarrow> bytes \<Rightarrow> bytes \<Rightarrow> bytes" where
  "tempExtract c sharedSecret controllerPublicKey nodePublicKey =
     cmac c (replicate CONST_PRK_LEN CONST_PRK_BYTE) (sharedSecret @ controllerPublicKey @ nodePublicKey)"

definition tempExpand :: "libcrypto2 \<Rightarrow> bytes \<Rightarrow> TempKeys" where
  "tempExpand c prk =
     (let chain = ckdfExpand c prk CONST_TE_BYTE 3
      in \<lparr>tk_keyCcm = chain ! 0, tk_personalization = kd_join (chain ! 1) (chain ! 2)\<rparr>)"

definition deriveTempKeys :: "libcrypto2 \<Rightarrow> bytes \<Rightarrow> bytes \<Rightarrow> bytes \<Rightarrow> TempKeys" where
  "deriveTempKeys c sharedSecret controllerPublicKey nodePublicKey =
     tempExpand c (tempExtract c sharedSecret controllerPublicKey nodePublicKey)"

definition networkKeyExpand :: "libcrypto2 \<Rightarrow> bytes \<Rightarrow> NetworkKeys" where
  "networkKeyExpand c networkKey =
     (let chain = ckdfExpand c networkKey CONST_NK_BYTE 4
      in \<lparr>nk_keyCcm = chain ! 0, nk_personalization = kd_join (chain ! 1) (chain ! 2),
          nk_keyMpan = chain ! 3\<rparr>)"

lemma ckdf_blocks:
  "length (foldl (ckdfStep c prk b) ch is) = length ch + length is \<and>
   (list_all (\<lambda>x. length x = 16) ch \<longrightarrow> list_all (\<lambda>x. length x = 16) (foldl (ckdfStep c prk b) ch is))"
  by (induction "is" arbitrary: ch) (simp_all add: ckdfStep_def Let_def)

lemma ckdfExpand_sized: "i < n \<Longrightarrow> length (ckdfExpand c prk b n ! i) = 16"
  using ckdf_blocks [of c prk b "[]" "[1 ..< n + 1]"] by (simp add: ckdfExpand_def list_all_length)

lemma derived_sizes:
  "length (nk_keyCcm (networkKeyExpand c k)) = 16"
  "length (nk_personalization (networkKeyExpand c k)) = 32"
  "length (nk_keyMpan (networkKeyExpand c k)) = 16"
  "length (tk_keyCcm (tempExpand c prk)) = 16"
  "length (tk_personalization (tempExpand c prk)) = 32"
  by (simp_all add: networkKeyExpand_def tempExpand_def Let_def kd_join_def ckdfExpand_sized)

section \<open>A stand-in for the library\<close>

text \<open>It satisfies what is assumed of the library; the evaluations of the development use it.\<close>

definition toyPad :: "bytes \<Rightarrow> byte" where
  "toyPad bs = fold (XOR) bs 0"

definition toyCrypto2 :: libcrypto2 where
  "toyCrypto2 =
     \<lparr>evpCcmSeal = (\<lambda>k n a p m. (map (\<lambda>b. b XOR toyPad (k @ n)) p, replicate m (toyPad (k @ n @ a @ p)))),
      evpCcmOpen = (\<lambda>k n a ct tag.
        let p = map (\<lambda>b. b XOR toyPad (k @ n)) ct
        in if tag = replicate (length tag) (toyPad (k @ n @ a @ p)) then Some p else None),
      evpCmac = (\<lambda>k d. map (\<lambda>b. b XOR toyPad d) k),
      evpAesBlock = (\<lambda>k b. map2 (XOR) k b),
      evpX25519Public = (\<lambda>d. d),
      evpX25519 = (\<lambda>a b. Some (map2 (XOR) a b))\<rparr>"

lemma toyCrypto2_opens: "ccm_opens toyCrypto2"
  by (simp add: ccm_opens_def toyCrypto2_def comp_def xor.assoc)

lemma toyCrypto2_authentic: "ccm_authentic toyCrypto2"
  by (auto simp: ccm_authentic_def toyCrypto2_def Let_def comp_def xor.assoc split: if_splits)

end
