(* ===== verification/S2_Nonces.thy ===== *)
theory S2_Nonces
  imports S2_Crypto
begin

text \<open>
  The nonce generators of Security S2: the singlecast generator of \<open>Span.cpp\<close> (an AES CTR_DRBG
  seeded from two entropy inputs) with its table, and the multicast generator of \<open>Mpan.cpp\<close>
  with its table. Both are instances of one interface, a generator whose state can be saved and
  restored.
\<close>

section \<open>The counter\<close>

text \<open>
  \<open>incrementCounter\<close> walks from the last byte to the first and stops at the first byte that
  does not wrap to zero; \<open>incrementLoop i\<close> is the loop with \<open>i\<close> bytes left to visit.
\<close>

primrec incrementLoop :: "nat \<Rightarrow> bytes \<Rightarrow> bytes" where
  "incrementLoop 0 counter = counter"
| "incrementLoop (Suc i) counter =
     (let counter1 = counter[i := counter ! i + 1] in
      if counter1 ! i \<noteq> 0 then counter1 else incrementLoop i counter1)"

definition incrementCounter :: "bytes \<Rightarrow> bytes" where
  "incrementCounter counter = incrementLoop (length counter) counter"

section \<open>Span\<close>

definition EI_SIZE :: nat where "EI_SIZE = 16"
definition MEI_SIZE :: nat where "MEI_SIZE = 32"
definition PERSONALIZATION_SIZE :: nat where "PERSONALIZATION_SIZE = 32"
definition SPAN_NONCE_SIZE :: nat where "SPAN_NONCE_SIZE = 16"
definition CONST_NONCE_BYTE :: byte where "CONST_NONCE_BYTE = 0x26"
definition CONST_EI_BYTE :: byte where "CONST_EI_BYTE = 0x88"
definition CONST_EI_LEN :: nat where "CONST_EI_LEN = 15"
definition DRBG_SEED_LEN :: nat where "DRBG_SEED_LEN = 2 * S2_BLOCK_SIZE"

lemmas span_size_defs = EI_SIZE_def MEI_SIZE_def PERSONALIZATION_SIZE_def SPAN_NONCE_SIZE_def
  CONST_EI_LEN_def DRBG_SEED_LEN_def

record Span =
  sp_key :: bytes
  sp_value :: bytes

text \<open>The block loop of \<open>drbgUpdate\<close>: \<open>temp\<close> collects the blocks, the value is stepped.\<close>

primrec drbgBlocks :: "libcrypto2 \<Rightarrow> nat \<Rightarrow> bytes \<Rightarrow> bytes \<Rightarrow> bytes \<Rightarrow> bytes \<times> bytes" where
  "drbgBlocks c 0 key val temp = (temp, val)"
| "drbgBlocks c (Suc n) key val temp =
     (let val1 = incrementCounter val
      in drbgBlocks c n key val1 (temp @ aesEcbEncrypt c key val1))"

definition drbgUpdate :: "libcrypto2 \<Rightarrow> bytes \<Rightarrow> Span \<Rightarrow> Span" where
  "drbgUpdate c provided s =
     (case drbgBlocks c (DRBG_SEED_LEN div S2_BLOCK_SIZE) (sp_key s) (sp_value s) [] of
        (temp, val) \<Rightarrow>
          let mixed = map2 (XOR) temp provided
          in \<lparr>sp_key = take S2_KEY_SIZE mixed, sp_value = drop S2_KEY_SIZE mixed\<rparr>)"

definition expandBlock :: "libcrypto2 \<Rightarrow> bytes \<Rightarrow> bytes \<Rightarrow> byte \<Rightarrow> bytes" where
  "expandBlock c prkKey prev counter =
     cmac c prkKey (prev @ replicate CONST_EI_LEN CONST_EI_BYTE @ [counter])"

definition mixEntropy :: "libcrypto2 \<Rightarrow> bytes \<Rightarrow> bytes \<Rightarrow> bytes" where
  "mixEntropy c senderEI receiverEI =
     (let prkKey = cmac c (replicate S2_KEY_SIZE CONST_NONCE_BYTE) (senderEI @ receiverEI);
          expandSeed = replicate CONST_EI_LEN CONST_EI_BYTE @ [0];
          meiLow = expandBlock c prkKey expandSeed 1;
          meiHigh = expandBlock c prkKey meiLow 2
      in meiLow @ meiHigh)"

definition span_instantiate :: "libcrypto2 \<Rightarrow> bytes \<Rightarrow> bytes \<Rightarrow> bytes \<Rightarrow> Span" where
  "span_instantiate c senderEI receiverEI personalization =
     (let mei = mixEntropy c senderEI receiverEI;
          seed = map2 (XOR) mei personalization
      in drbgUpdate c seed \<lparr>sp_key = replicate S2_KEY_SIZE 0, sp_value = replicate S2_BLOCK_SIZE 0\<rparr>)"

definition span_nextNonce :: "libcrypto2 \<Rightarrow> Span \<Rightarrow> bytes \<times> Span" where
  "span_nextNonce c s =
     (let s1 = s\<lparr>sp_value := incrementCounter (sp_value s)\<rparr>;
          out = aesEcbEncrypt c (sp_key s1) (sp_value s1)
      in (out, drbgUpdate c (replicate DRBG_SEED_LEN 0) s1))"

definition span_serialize :: "Span \<Rightarrow> bytes" where
  "span_serialize s = sp_key s @ sp_value s"

definition span_deserialize :: "bytes \<Rightarrow> Span" where
  "span_deserialize st = \<lparr>sp_key = take S2_KEY_SIZE st, sp_value = drop S2_KEY_SIZE st\<rparr>"

text \<open>The table of generators by peer.\<close>

type_synonym SpanTable = "byte \<rightharpoonup> Span"

definition spanTable_establish :: "libcrypto2 \<Rightarrow> byte \<Rightarrow> bytes \<Rightarrow> bytes \<Rightarrow> bytes \<Rightarrow> SpanTable \<Rightarrow> SpanTable" where
  "spanTable_establish c peer senderEI receiverEI personalization t =
     t(peer \<mapsto> span_instantiate c senderEI receiverEI personalization)"

definition spanTable_has :: "byte \<Rightarrow> SpanTable \<Rightarrow> bool" where
  "spanTable_has peer t \<longleftrightarrow> t peer \<noteq> None"

definition spanTable_nextNonce :: "libcrypto2 \<Rightarrow> byte \<Rightarrow> SpanTable \<Rightarrow> bytes option \<times> SpanTable" where
  "spanTable_nextNonce c peer t =
     (case t peer of
        None \<Rightarrow> (None, t)
      | Some s \<Rightarrow> (case span_nextNonce c s of (n, s1) \<Rightarrow> (Some n, t(peer \<mapsto> s1))))"

definition spanTable_remove :: "byte \<Rightarrow> SpanTable \<Rightarrow> SpanTable" where
  "spanTable_remove peer t = t(peer := None)"

section \<open>Mpan\<close>

definition CCM_NONCE_SIZE :: nat where "CCM_NONCE_SIZE = 13"

record Generator =
  gen_state :: bytes

definition mpan_nextNonce :: "libcrypto2 \<Rightarrow> bytes \<Rightarrow> Generator \<Rightarrow> bytes \<times> Generator" where
  "mpan_nextNonce c keyMpan g =
     (take CCM_NONCE_SIZE (aesEcbEncrypt c keyMpan (gen_state g)),
      g\<lparr>gen_state := incrementCounter (gen_state g)\<rparr>)"

definition mpan_advance :: "Generator \<Rightarrow> Generator" where
  "mpan_advance g = g\<lparr>gen_state := incrementCounter (gen_state g)\<rparr>"

datatype EntryState = Free | Used | Mos

record MpanEntry =
  me_owner :: byte
  me_groupId :: byte
  me_generator :: Generator
  me_entryState :: EntryState

definition emptyMpanEntry :: MpanEntry where
  "emptyMpanEntry = \<lparr>me_owner = 0, me_groupId = 0,
     me_generator = \<lparr>gen_state = replicate S2_BLOCK_SIZE 0\<rparr>, me_entryState = Free\<rparr>"

type_synonym MpanTable = "byte \<times> byte \<rightharpoonup> MpanEntry"

definition mpanTable_set :: "byte \<Rightarrow> byte \<Rightarrow> bytes \<Rightarrow> MpanTable \<Rightarrow> MpanTable" where
  "mpanTable_set owner groupId st t =
     t((owner, groupId) \<mapsto> \<lparr>me_owner = owner, me_groupId = groupId,
         me_generator = \<lparr>gen_state = st\<rparr>, me_entryState = Used\<rparr>)"

definition mpanTable_find :: "byte \<Rightarrow> byte \<Rightarrow> MpanTable \<Rightarrow> Generator option" where
  "mpanTable_find owner groupId t =
     (case t (owner, groupId) of
        None \<Rightarrow> None
      | Some e \<Rightarrow> if me_entryState e \<noteq> Used then None else Some (me_generator e))"

definition mpanTable_contains :: "byte \<Rightarrow> byte \<Rightarrow> MpanTable \<Rightarrow> bool" where
  "mpanTable_contains owner groupId t =
     (case t (owner, groupId) of None \<Rightarrow> False | Some e \<Rightarrow> me_entryState e = Used)"

definition mpanTable_markOutOfSync :: "byte \<Rightarrow> byte \<Rightarrow> MpanTable \<Rightarrow> MpanTable" where
  "mpanTable_markOutOfSync owner groupId t =
     (let e = (case t (owner, groupId) of None \<Rightarrow> emptyMpanEntry | Some e \<Rightarrow> e)
      in t((owner, groupId) \<mapsto> e\<lparr>me_owner := owner, me_groupId := groupId, me_entryState := Mos\<rparr>))"

definition mpanTable_entryState :: "byte \<Rightarrow> byte \<Rightarrow> MpanTable \<Rightarrow> EntryState" where
  "mpanTable_entryState owner groupId t =
     (case t (owner, groupId) of None \<Rightarrow> Free | Some e \<Rightarrow> me_entryState e)"

definition mpanTable_remove :: "byte \<Rightarrow> byte \<Rightarrow> MpanTable \<Rightarrow> MpanTable" where
  "mpanTable_remove owner groupId t = t((owner, groupId) := None)"

section \<open>What the counter counts\<close>

text \<open>The big-endian number in a list of bytes.\<close>

definition beValue :: "bytes \<Rightarrow> nat" where
  "beValue bs = foldl (\<lambda>a b. 256 * a + unat b) 0 bs"

lemma beValue_snoc [simp]: "beValue (bs @ [b]) = 256 * beValue bs + unat b"
  by (simp add: beValue_def)

lemma beValue_Nil [simp]: "beValue [] = 0"
  by (simp add: beValue_def)

lemma length_incrementLoop [simp]: "length (incrementLoop i c) = length c"
  by (induction i arbitrary: c) (simp_all add: Let_def)

lemma length_incrementCounter [simp]: "length (incrementCounter c) = length c"
  by (simp add: incrementCounter_def)

lemma incrementLoop_append: "i \<le> length c \<Longrightarrow> incrementLoop i (c @ d) = incrementLoop i c @ d"
  by (induction i arbitrary: c) (simp_all add: Let_def nth_append list_update_append)

lemma incrementCounter_snoc:
  "incrementCounter (bs @ [b]) =
     (if b + 1 \<noteq> 0 then bs @ [b + 1] else incrementCounter bs @ [0])"
  by (simp add: incrementCounter_def nth_append incrementLoop_append Let_def)

lemma unat_succ_byte: "b + 1 \<noteq> (0 :: byte) \<Longrightarrow> unat (b + 1) = unat b + 1"
  using unatSuc [of b] by (simp add: add.commute)

lemma unat_wrap_byte: "b + 1 = (0 :: byte) \<Longrightarrow> unat b = 255"
proof -
  assume "b + 1 = 0"
  then have "b = - 1" by (simp add: add_eq_0_iff2)
  then show "unat b = 255" by (simp add: unat_eq_nat_uint uint_word_ariths)
qed

lemma beValue_bound: "beValue bs < 256 ^ length bs"
proof (induction bs rule: rev_induct)
  case (snoc b bs)
  then have "256 * (beValue bs + 1) \<le> 256 * 256 ^ length bs"
    by (intro mult_le_mono2) simp
  then show ?case
    using unat_byte_lt [of b] by (simp del: unat_byte_lt)
qed simp

lemma beValue_incrementCounter: "beValue (incrementCounter bs) = (beValue bs + 1) mod 256 ^ length bs"
proof (induction bs rule: rev_induct)
  case Nil
  show ?case by (simp add: incrementCounter_def)
next
  case (snoc b bs)
  show ?case
  proof (cases "b + 1 = 0")
    case True
    have "256 * ((beValue bs + 1) mod 256 ^ length bs) = (256 * (beValue bs + 1)) mod (256 * 256 ^ length bs)"
      by (simp only: mult_mod_right)
    then show ?thesis
      using snoc True by (simp add: incrementCounter_snoc unat_wrap_byte)
  next
    case False
    have "beValue (bs @ [b + 1]) < 256 ^ length (bs @ [b + 1])" by (rule beValue_bound)
    then show ?thesis
      using False by (simp add: incrementCounter_snoc unat_succ_byte)
  qed
qed

lemma beValue_inject: "length as = length bs \<Longrightarrow> beValue as = beValue bs \<Longrightarrow> as = bs"
proof (induction as arbitrary: bs rule: rev_induct)
  case (snoc a as)
  then obtain b bs' where bs: "bs = bs' @ [b]" by (cases bs rule: rev_cases) auto
  have "256 * beValue as + unat a = 256 * beValue bs' + unat b"
    using snoc.prems(2) by (simp add: bs)
  then have "(256 * beValue as + unat a) div 256 = (256 * beValue bs' + unat b) div 256"
    "(256 * beValue as + unat a) mod 256 = (256 * beValue bs' + unat b) mod 256"
    by simp_all
  then have "beValue as = beValue bs' \<and> unat a = unat b"
    by simp
  then show ?case
    using snoc by (simp add: bs word_unat_eq_iff)
qed simp

lemma beValue_iterate:
  "beValue ((incrementCounter ^^ n) bs) = (beValue bs + n) mod 256 ^ length bs \<and>
   length ((incrementCounter ^^ n) bs) = length bs"
  by (induction n) (simp_all add: beValue_bound beValue_incrementCounter mod_simps)

section \<open>Interface: a generator that can be saved and resumed\<close>

primrec drawMany :: "('s \<Rightarrow> 'n \<times> 's) \<Rightarrow> nat \<Rightarrow> 's \<Rightarrow> 'n list \<times> 's" where
  "drawMany draw 0 s = ([], s)"
| "drawMany draw (Suc n) s =
     (case draw s of (x, s1) \<Rightarrow> (case drawMany draw n s1 of (xs, s2) \<Rightarrow> (x # xs, s2)))"

lemma length_drawMany [simp]: "length (fst (drawMany draw n s)) = n"
  by (induction n arbitrary: s) (simp_all split: prod.splits, metis fst_conv)

lemma drawMany_add:
  "drawMany draw (m + n) s =
     (case drawMany draw m s of (xs, s1) \<Rightarrow> (case drawMany draw n s1 of (ys, s2) \<Rightarrow> (xs @ ys, s2)))"
  by (induction m arbitrary: s) (simp_all split: prod.splits)

locale saved_generator =
  fixes draw :: "'s \<Rightarrow> 'n \<times> 's"
    and save :: "'s \<Rightarrow> bytes"
    and restore :: "bytes \<Rightarrow> 's"
    and wf :: "'s \<Rightarrow> bool"
  assumes restore_save: "wf s \<Longrightarrow> restore (save s) = s"
    and draw_wf: "wf s \<Longrightarrow> draw s = (x, s') \<Longrightarrow> wf s'"
begin

lemma drawMany_wf: "wf s \<Longrightarrow> drawMany draw n s = (xs, s') \<Longrightarrow> wf s'"
proof (induction n arbitrary: s xs)
  case (Suc n)
  then show ?case
    using draw_wf by (fastforce split: prod.splits)
qed simp

lemma resume:
  assumes "wf s"
  shows "drawMany draw (m + n) s =
    (case drawMany draw m s of (xs, s1) \<Rightarrow>
       (case drawMany draw n (restore (save s1)) of (ys, s2) \<Rightarrow> (xs @ ys, s2)))"
  using drawMany_wf [OF assms] by (simp add: drawMany_add restore_save split: prod.splits)

lemma save_inject: "wf s \<Longrightarrow> wf s' \<Longrightarrow> save s = save s' \<longleftrightarrow> s = s'"
  by (metis restore_save)

end

definition span_wf :: "Span \<Rightarrow> bool" where
  "span_wf s \<longleftrightarrow> length (sp_key s) = S2_KEY_SIZE \<and> length (sp_value s) = S2_BLOCK_SIZE"

lemma length_drbgBlocks: "length (fst (drbgBlocks c n k v temp)) = length temp + 16 * n"
  by (induction n arbitrary: v temp) (simp_all add: Let_def)

lemma drbgUpdate_wf: "length provided = 32 \<Longrightarrow> span_wf (drbgUpdate c provided s)"
  using length_drbgBlocks [of c 2 "sp_key s" "sp_value s" "[]"]
  by (cases "drbgBlocks c 2 (sp_key s) (sp_value s) []")
    (simp add: drbgUpdate_def span_wf_def s2_size_defs DRBG_SEED_LEN_def Let_def)

lemma span_nextNonce_wf: "span_nextNonce c s = (n, s') \<Longrightarrow> span_wf s' \<and> length n = 16"
  using drbgUpdate_wf [of "replicate DRBG_SEED_LEN 0" c]
  by (auto simp: span_nextNonce_def Let_def s2_size_defs DRBG_SEED_LEN_def)

lemma length_mixEntropy [simp]: "length (mixEntropy c a b) = 32"
  by (simp add: mixEntropy_def expandBlock_def Let_def)

lemma span_instantiate_wf: "length p = 32 \<Longrightarrow> span_wf (span_instantiate c a b p)"
  by (simp add: span_instantiate_def Let_def drbgUpdate_wf)

lemma span_serialize_inverse: "span_wf s \<Longrightarrow> span_deserialize (span_serialize s) = s"
  by (simp add: span_serialize_def span_deserialize_def span_wf_def)

interpretation span: saved_generator "span_nextNonce c" span_serialize span_deserialize span_wf for c
  by unfold_locales (simp_all add: span_serialize_inverse, metis span_nextNonce_wf)

interpretation mpan: saved_generator "mpan_nextNonce c key" gen_state "\<lambda>st. \<lparr>gen_state = st\<rparr>"
  "\<lambda>g. length (gen_state g) = S2_BLOCK_SIZE" for c key
  by unfold_locales (auto simp: mpan_nextNonce_def)

lemma mpan_draws:
  "drawMany (mpan_nextNonce c key) n g =
     (map (\<lambda>i. take CCM_NONCE_SIZE (aesEcbEncrypt c key ((incrementCounter ^^ i) (gen_state g)))) [0 ..< n],
      \<lparr>gen_state = (incrementCounter ^^ n) (gen_state g)\<rparr>)"
proof (induction n)
  case (Suc n)
  have "drawMany (mpan_nextNonce c key) (n + 1) g =
      (case drawMany (mpan_nextNonce c key) n g of (xs, s1) \<Rightarrow>
        (case drawMany (mpan_nextNonce c key) 1 s1 of (ys, s2) \<Rightarrow> (xs @ ys, s2)))"
    by (rule drawMany_add)
  moreover have "drawMany (mpan_nextNonce c key) 1 s1 =
      ([take CCM_NONCE_SIZE (aesEcbEncrypt c key (gen_state s1))], \<lparr>gen_state = incrementCounter (gen_state s1)\<rparr>)"
      for s1
    by (cases s1) (simp add: mpan_nextNonce_def)
  ultimately show ?case
    by (simp add: Suc del: drawMany.simps)
qed simp

section \<open>The multicast table\<close>

text \<open>A group is usable exactly in state \<open>Used\<close>, and every operation touches one group only.\<close>

lemma mpanTable_contains_iff:
  "mpanTable_contains o' g t \<longleftrightarrow> mpanTable_entryState o' g t = Used"
  "mpanTable_find o' g t \<noteq> None \<longleftrightarrow> mpanTable_contains o' g t"
  by (auto simp: mpanTable_contains_def mpanTable_entryState_def mpanTable_find_def split: option.splits)

lemma mpanTable_frame:
  assumes "k \<noteq> (o', g)"
  shows "mpanTable_set o' g st t k = t k" "mpanTable_markOutOfSync o' g t k = t k"
    "mpanTable_remove o' g t k = t k"
  using assms by (auto simp: mpanTable_set_def mpanTable_markOutOfSync_def mpanTable_remove_def Let_def)

section \<open>Properties\<close>

text \<open>
  C37: \<open>incrementCounter\<close> adds one to the big-endian number in the block modulo two to the power
  of its width, and so the multicast nonces are the encryptions of consecutive counter values:
  the n-th draw encrypts the initial state plus n.
\<close>

theorem mpan_counts:
  assumes "length (gen_state g) = S2_BLOCK_SIZE"
    and "drawMany (mpan_nextNonce c key) n g = (ns, g')"
  shows "beValue (gen_state g') = (beValue (gen_state g) + n) mod 2 ^ 128 \<and>
    (\<forall>i < n. \<exists>ctr. length ctr = 16 \<and> beValue ctr = (beValue (gen_state g) + i) mod 2 ^ 128 \<and>
       ns ! i = take 13 (aesEcbEncrypt c key ctr))"
proof -
  have v: "beValue ((incrementCounter ^^ i) (gen_state g)) = (beValue (gen_state g) + i) mod 2 ^ 128 \<and>
      length ((incrementCounter ^^ i) (gen_state g)) = 16" for i
    using beValue_iterate [of i "gen_state g"] assms(1) by (simp add: s2_size_defs)
  show ?thesis
    using assms(2) v unfolding mpan_draws CCM_NONCE_SIZE_def by fastforce
qed

theorem mpan_counts_witness:
  "beValue (gen_state (snd (drawMany (mpan_nextNonce toyCrypto2 (replicate 16 7)) 3
       \<lparr>gen_state = replicate 16 0xFF\<rparr>))) = (beValue (replicate 16 0xFF) + 3) mod 2 ^ 128 \<and>
   (\<exists>ctr. length ctr = 16 \<and> beValue ctr = (beValue (replicate 16 0xFF) + 1) mod 2 ^ 128 \<and>
     fst (drawMany (mpan_nextNonce toyCrypto2 (replicate 16 7)) 3 \<lparr>gen_state = replicate 16 0xFF\<rparr>) ! 1 =
       take 13 (aesEcbEncrypt toyCrypto2 (replicate 16 7) ctr))"
proof -
  note all = mpan_counts [OF _ prod.collapse [symmetric], of "\<lparr>gen_state = replicate 16 0xFF\<rparr>" toyCrypto2
      "replicate 16 7" 3, unfolded S2_BLOCK_SIZE_def, unfolded Generator.select_convs, OF length_replicate]
  show ?thesis
    by (rule conjI [OF conjunct1 [OF all] mp [OF spec [OF conjunct2 [OF all], of 1]]]) simp
qed

text \<open>
  A singlecast generator that is saved and restored at any point goes on with the same nonces
  as one that was never interrupted.
\<close>

theorem span_resumes:
  assumes "length personalization = 32"
  shows "drawMany (span_nextNonce c) (m + n) (span_instantiate c sei rei personalization) =
    (case drawMany (span_nextNonce c) m (span_instantiate c sei rei personalization) of (xs, s1) \<Rightarrow>
       (case drawMany (span_nextNonce c) n (span_deserialize (span_serialize s1)) of (ys, s2) \<Rightarrow>
          (xs @ ys, s2)))"
  using assms by (intro span.resume span_instantiate_wf)

theorem span_resumes_witness:
  "drawMany (span_nextNonce toyCrypto2) (1 + 1)
      (span_instantiate toyCrypto2 (replicate 16 1) (replicate 16 2) (replicate 32 3)) =
    (case drawMany (span_nextNonce toyCrypto2) 1
        (span_instantiate toyCrypto2 (replicate 16 1) (replicate 16 2) (replicate 32 3)) of (xs, s1) \<Rightarrow>
       (case drawMany (span_nextNonce toyCrypto2) 1 (span_deserialize (span_serialize s1)) of (ys, s2) \<Rightarrow>
          (xs @ ys, s2)))"
  by (rule span_resumes) simp

end
