(* ===== verification/S2_Codecs.thy ===== *)
theory S2_Codecs
  imports S2_Nonces
begin

text \<open>
  The wire formats of Security S2: nonce synchronisation (\<open>NonceSync.cpp\<close>), the key exchange
  negotiation with its grant policy (\<open>Kex.cpp\<close>), the installation of network keys
  (\<open>KeyInstall.cpp\<close>), the public keys with the DSK ritual (\<open>PublicKey.cpp\<close>) and the
  multicast extensions (\<open>Mpan.cpp\<close>). The three files that define the command byte of an S2
  payload define the same function; it is one definition here.
\<close>

section \<open>Constants\<close>

definition CC_SECURITY_2 :: byte where "CC_SECURITY_2 = 0x9F"
definition S2_NONCE_GET :: byte where "S2_NONCE_GET = 0x01"
definition S2_NONCE_REPORT :: byte where "S2_NONCE_REPORT = 0x02"
definition FLAG_SOS :: byte where "FLAG_SOS = 0x01"
definition FLAG_MOS :: byte where "FLAG_MOS = 0x02"
definition SPAN_EXTENSION_TYPE :: byte where "SPAN_EXTENSION_TYPE = 0x01"
definition SPAN_EXTENSION_LENGTH :: byte where "SPAN_EXTENSION_LENGTH = 18"
definition SPAN_EXTENSION_FLAGS :: byte where "SPAN_EXTENSION_FLAGS = 0x41"
definition EXT_TYPE_MASK :: byte where "EXT_TYPE_MASK = 0x3F"
definition EXT_MORE_FOLLOW_BIT :: byte where "EXT_MORE_FOLLOW_BIT = 0x80"
definition REPORT_FIXED_SIZE :: nat where "REPORT_FIXED_SIZE = 4"
definition EXT_MIN_SIZE :: nat where "EXT_MIN_SIZE = 2"
definition MPAN_EXTENSION_TYPE :: byte where "MPAN_EXTENSION_TYPE = 0x02"
definition MPAN_EXTENSION_LENGTH :: byte where "MPAN_EXTENSION_LENGTH = 19"
definition MPAN_EXTENSION_FLAGS :: byte where "MPAN_EXTENSION_FLAGS = 0x42"
definition MGRP_EXTENSION_TYPE :: byte where "MGRP_EXTENSION_TYPE = 0x03"
definition MGRP_EXTENSION_LENGTH :: byte where "MGRP_EXTENSION_LENGTH = 3"
definition MGRP_EXTENSION_FLAGS :: byte where "MGRP_EXTENSION_FLAGS = 0x43"

lemmas s2_ext_defs = SPAN_EXTENSION_TYPE_def SPAN_EXTENSION_LENGTH_def SPAN_EXTENSION_FLAGS_def
  EXT_TYPE_MASK_def EXT_MORE_FOLLOW_BIT_def EXT_MIN_SIZE_def MPAN_EXTENSION_TYPE_def
  MPAN_EXTENSION_LENGTH_def MPAN_EXTENSION_FLAGS_def MGRP_EXTENSION_TYPE_def MGRP_EXTENSION_LENGTH_def
  MGRP_EXTENSION_FLAGS_def

definition s2_commandByte :: "bytes \<Rightarrow> byte option" where
  "s2_commandByte payload =
     (if length payload < 2 \<or> payload ! 0 \<noteq> CC_SECURITY_2 then None else Some (payload ! 1))"

section \<open>NonceSync\<close>

record NonceReport =
  nr_sequenceNumber :: byte
  nr_sos :: bool
  nr_mos :: bool
  nr_rei :: "bytes option"

definition encodeNonceGet :: "byte \<Rightarrow> bytes" where
  "encodeNonceGet sequenceNumber = [CC_SECURITY_2, S2_NONCE_GET, sequenceNumber]"

definition encodeNonceReport :: "NonceReport \<Rightarrow> bytes" where
  "encodeNonceReport r =
     (let flags = (if nr_sos r then FLAG_SOS else 0) OR (if nr_mos r then FLAG_MOS else 0)
      in [CC_SECURITY_2, S2_NONCE_REPORT, nr_sequenceNumber r, flags]
           @ (if nr_sos r then (case nr_rei r of None \<Rightarrow> [] | Some rei \<Rightarrow> rei) else []))"

definition decodeNonceReport :: "bytes \<Rightarrow> NonceReport option" where
  "decodeNonceReport payload =
     (if length payload < REPORT_FIXED_SIZE \<or> payload ! 0 \<noteq> CC_SECURITY_2 \<or> payload ! 1 \<noteq> S2_NONCE_REPORT
      then None
      else let r = \<lparr>nr_sequenceNumber = payload ! 2, nr_sos = payload ! 3 AND FLAG_SOS \<noteq> 0,
                    nr_mos = payload ! 3 AND FLAG_MOS \<noteq> 0, nr_rei = None\<rparr>
           in if nr_sos r
              then if length payload < REPORT_FIXED_SIZE + EI_SIZE then None
                   else Some (r\<lparr>nr_rei := Some (subspan payload REPORT_FIXED_SIZE EI_SIZE)\<rparr>)
              else Some r)"

definition encodeSpanExtension :: "bytes \<Rightarrow> bytes" where
  "encodeSpanExtension senderEntropyInput =
     [SPAN_EXTENSION_LENGTH, SPAN_EXTENSION_FLAGS] @ senderEntropyInput"

function findSpanLoop :: "bytes \<Rightarrow> nat \<Rightarrow> bytes option" where
  "findSpanLoop extensions offset =
     (if offset + EXT_MIN_SIZE \<le> length extensions
      then let len = unat (extensions ! offset) in
        if len < EXT_MIN_SIZE \<or> offset + len > length extensions then None
        else let flags = extensions ! (offset + 1);
                 moreToFollow = flags AND EXT_MORE_FOLLOW_BIT \<noteq> 0
             in if flags AND EXT_TYPE_MASK = SPAN_EXTENSION_TYPE \<and> len = unat SPAN_EXTENSION_LENGTH
                then Some (subspan extensions (offset + EXT_MIN_SIZE) EI_SIZE)
                else if \<not> moreToFollow then None
                else findSpanLoop extensions (offset + len)
      else None)"
  by pat_completeness auto
termination
  by (relation "measure (\<lambda>(xs, off). length xs - off)") (auto simp: EXT_MIN_SIZE_def)

declare findSpanLoop.simps [simp del]

definition findSpanExtension :: "bytes \<Rightarrow> bytes option" where
  "findSpanExtension extensions = findSpanLoop extensions 0"

section \<open>The multicast extensions\<close>

definition encodeMpanExtension :: "byte \<Rightarrow> bytes \<Rightarrow> bytes" where
  "encodeMpanExtension groupId st = [MPAN_EXTENSION_LENGTH, MPAN_EXTENSION_FLAGS, groupId] @ st"

definition encodeMgrpExtension :: "byte \<Rightarrow> bytes" where
  "encodeMgrpExtension groupId = [MGRP_EXTENSION_LENGTH, MGRP_EXTENSION_FLAGS, groupId]"

text \<open>
  The shared walk over a chain of extension objects. The visitor answers \<open>Some\<close> where the
  source's visitor stores a result and returns true.
\<close>

function forEachExtension :: "(byte \<Rightarrow> bytes \<Rightarrow> 'r option) \<Rightarrow> bytes \<Rightarrow> nat \<Rightarrow> 'r option" where
  "forEachExtension visit extensions offset =
     (if offset + 2 \<le> length extensions
      then let len = unat (extensions ! offset) in
        if len < 2 \<or> offset + len > length extensions then None
        else let flags = extensions ! (offset + 1) in
          (case visit flags (subspan extensions (offset + 2) (len - 2)) of
             Some r \<Rightarrow> Some r
           | None \<Rightarrow> if flags AND EXT_MORE_FOLLOW_BIT = 0 then None
                     else forEachExtension visit extensions (offset + len))
      else None)"
  by pat_completeness auto
termination
  by (relation "measure (\<lambda>(v, xs, off). length xs - off)") auto

declare forEachExtension.simps [simp del]

definition findMpanExtension :: "bytes \<Rightarrow> (byte \<times> bytes) option" where
  "findMpanExtension extensions =
     forEachExtension (\<lambda>flags body.
         if flags AND EXT_TYPE_MASK \<noteq> MPAN_EXTENSION_TYPE then None
         else if length body \<noteq> 1 + S2_BLOCK_SIZE then None
         else Some (body ! 0, subspan body 1 S2_BLOCK_SIZE)) extensions 0"

definition findMgrpExtension :: "bytes \<Rightarrow> byte option" where
  "findMgrpExtension extensions =
     forEachExtension (\<lambda>flags body.
         if flags AND EXT_TYPE_MASK \<noteq> MGRP_EXTENSION_TYPE \<or> length body \<noteq> 1 then None
         else Some (body ! 0)) extensions 0"

section \<open>Kex\<close>

definition KEX_GET :: byte where "KEX_GET = 0x04"
definition KEX_REPORT :: byte where "KEX_REPORT = 0x05"
definition KEX_SET :: byte where "KEX_SET = 0x06"
definition KEX_FAIL :: byte where "KEX_FAIL = 0x07"
definition PROP_ECHO :: byte where "PROP_ECHO = 0x01"
definition PROP_REQUEST_CSA :: byte where "PROP_REQUEST_CSA = 0x02"
definition KEX_SCHEME_1 :: byte where "KEX_SCHEME_1 = 0x02"
definition ECDH_CURVE25519 :: byte where "ECDH_CURVE25519 = 0x01"
definition KEY_S2_UNAUTHENTICATED :: byte where "KEY_S2_UNAUTHENTICATED = 0x01"
definition KEY_S2_AUTHENTICATED :: byte where "KEY_S2_AUTHENTICATED = 0x02"
definition KEY_S2_ACCESS_CONTROL :: byte where "KEY_S2_ACCESS_CONTROL = 0x04"
definition KEY_S0 :: byte where "KEY_S0 = 0x80"
definition FAIL_KEY :: byte where "FAIL_KEY = 0x01"
definition FAIL_DECRYPT :: byte where "FAIL_DECRYPT = 0x05"
definition FAIL_AUTH :: byte where "FAIL_AUTH = 0x07"
definition FAIL_KEY_GET :: byte where "FAIL_KEY_GET = 0x08"
definition FAIL_KEY_VERIFY :: byte where "FAIL_KEY_VERIFY = 0x09"

lemmas kex_key_defs = KEY_S2_UNAUTHENTICATED_def KEY_S2_AUTHENTICATED_def KEY_S2_ACCESS_CONTROL_def KEY_S0_def

record KexReport =
  kr_echo :: bool
  kr_requestCsa :: bool
  kr_supportedSchemes :: byte
  kr_supportedCurves :: byte
  kr_requestedKeys :: byte

record KexSet =
  ks_echo :: bool
  ks_requestCsa :: bool
  ks_selectedScheme :: byte
  ks_selectedCurve :: byte
  ks_grantedKeys :: byte

definition Kex_encodeGet :: bytes where
  "Kex_encodeGet = [CC_SECURITY_2, KEX_GET]"

definition Kex_encodeReport :: "KexReport \<Rightarrow> bytes" where
  "Kex_encodeReport r =
     (let props = (if kr_echo r then PROP_ECHO else 0) OR (if kr_requestCsa r then PROP_REQUEST_CSA else 0)
      in [CC_SECURITY_2, KEX_REPORT, props, kr_supportedSchemes r, kr_supportedCurves r, kr_requestedKeys r])"

definition Kex_encodeSet :: "KexSet \<Rightarrow> bytes" where
  "Kex_encodeSet s =
     (let props = (if ks_echo s then PROP_ECHO else 0) OR (if ks_requestCsa s then PROP_REQUEST_CSA else 0)
      in [CC_SECURITY_2, KEX_SET, props, ks_selectedScheme s, ks_selectedCurve s, ks_grantedKeys s])"

definition Kex_encodeFail :: "byte \<Rightarrow> bytes" where
  "Kex_encodeFail failType = [CC_SECURITY_2, KEX_FAIL, failType]"

definition Kex_decodeReport :: "bytes \<Rightarrow> KexReport option" where
  "Kex_decodeReport payload =
     (if length payload < 6 \<or> payload ! 0 \<noteq> CC_SECURITY_2 \<or> payload ! 1 \<noteq> KEX_REPORT then None
      else Some \<lparr>kr_echo = payload ! 2 AND PROP_ECHO \<noteq> 0,
                 kr_requestCsa = payload ! 2 AND PROP_REQUEST_CSA \<noteq> 0,
                 kr_supportedSchemes = payload ! 3, kr_supportedCurves = payload ! 4,
                 kr_requestedKeys = payload ! 5\<rparr>)"

definition Kex_decodeSet :: "bytes \<Rightarrow> KexSet option" where
  "Kex_decodeSet payload =
     (if length payload < 6 \<or> payload ! 0 \<noteq> CC_SECURITY_2 \<or> payload ! 1 \<noteq> KEX_SET then None
      else Some \<lparr>ks_echo = payload ! 2 AND PROP_ECHO \<noteq> 0,
                 ks_requestCsa = payload ! 2 AND PROP_REQUEST_CSA \<noteq> 0,
                 ks_selectedScheme = payload ! 3, ks_selectedCurve = payload ! 4,
                 ks_grantedKeys = payload ! 5\<rparr>)"

definition Kex_decodeFail :: "bytes \<Rightarrow> byte option" where
  "Kex_decodeFail payload =
     (if length payload < 3 \<or> payload ! 0 \<noteq> CC_SECURITY_2 \<or> payload ! 1 \<noteq> KEX_FAIL then None
      else Some (payload ! 2))"

definition grantKeys :: "KexReport \<Rightarrow> byte \<Rightarrow> byte" where
  "grantKeys r controllerSupportedKeys =
     (let granted = kr_requestedKeys r AND controllerSupportedKeys
      in if kr_requestCsa r then granted AND NOT KEY_S2_ACCESS_CONTROL else granted)"

section \<open>KeyInstall\<close>

definition NETWORK_KEY_GET :: byte where "NETWORK_KEY_GET = 0x09"
definition NETWORK_KEY_REPORT :: byte where "NETWORK_KEY_REPORT = 0x0A"
definition NETWORK_KEY_VERIFY :: byte where "NETWORK_KEY_VERIFY = 0x0B"
definition TRANSFER_END :: byte where "TRANSFER_END = 0x0C"
definition TRANSFER_KEY_REQUEST_COMPLETE :: byte where "TRANSFER_KEY_REQUEST_COMPLETE = 0x01"
definition TRANSFER_KEY_VERIFIED :: byte where "TRANSFER_KEY_VERIFIED = 0x02"

record KeyReport =
  kre_grantedKey :: byte
  kre_key :: bytes

record TransferEnd =
  te_keyVerified :: bool
  te_keyRequestComplete :: bool

definition encodeKeyGet :: "byte \<Rightarrow> bytes" where
  "encodeKeyGet requestedKeyBit = [CC_SECURITY_2, NETWORK_KEY_GET, requestedKeyBit]"

definition encodeKeyReport :: "byte \<Rightarrow> bytes \<Rightarrow> bytes" where
  "encodeKeyReport grantedKeyBit key = [CC_SECURITY_2, NETWORK_KEY_REPORT, grantedKeyBit] @ key"

definition encodeKeyVerify :: bytes where
  "encodeKeyVerify = [CC_SECURITY_2, NETWORK_KEY_VERIFY]"

definition encodeTransferEnd :: "bool \<Rightarrow> bool \<Rightarrow> bytes" where
  "encodeTransferEnd keyVerified keyRequestComplete =
     (let props = (if keyVerified then TRANSFER_KEY_VERIFIED else 0)
                    OR (if keyRequestComplete then TRANSFER_KEY_REQUEST_COMPLETE else 0)
      in [CC_SECURITY_2, TRANSFER_END, props])"

definition decodeKeyGet :: "bytes \<Rightarrow> byte option" where
  "decodeKeyGet payload =
     (if length payload < 3 \<or> payload ! 0 \<noteq> CC_SECURITY_2 \<or> payload ! 1 \<noteq> NETWORK_KEY_GET then None
      else Some (payload ! 2))"

definition decodeKeyReport :: "bytes \<Rightarrow> KeyReport option" where
  "decodeKeyReport payload =
     (if length payload \<noteq> 3 + S2_KEY_SIZE \<or> payload ! 0 \<noteq> CC_SECURITY_2 \<or>
         payload ! 1 \<noteq> NETWORK_KEY_REPORT then None
      else Some \<lparr>kre_grantedKey = payload ! 2, kre_key = subspan payload 3 S2_KEY_SIZE\<rparr>)"

definition decodeTransferEnd :: "bytes \<Rightarrow> TransferEnd option" where
  "decodeTransferEnd payload =
     (if length payload < 3 \<or> payload ! 0 \<noteq> CC_SECURITY_2 \<or> payload ! 1 \<noteq> TRANSFER_END then None
      else Some \<lparr>te_keyVerified = payload ! 2 AND TRANSFER_KEY_VERIFIED \<noteq> 0,
                 te_keyRequestComplete = payload ! 2 AND TRANSFER_KEY_REQUEST_COMPLETE \<noteq> 0\<rparr>)"

datatype KeyClass = Unauthenticated | Authenticated | AccessControl | S0Compat

definition classForKeyBit :: "byte \<Rightarrow> KeyClass option" where
  "classForKeyBit keyBit =
     (if keyBit = KEY_S2_UNAUTHENTICATED then Some Unauthenticated
      else if keyBit = KEY_S2_AUTHENTICATED then Some Authenticated
      else if keyBit = KEY_S2_ACCESS_CONTROL then Some AccessControl
      else if keyBit = KEY_S0 then Some S0Compat
      else None)"

section \<open>PublicKey\<close>

definition PUBLIC_KEY_REPORT :: byte where "PUBLIC_KEY_REPORT = 0x08"
definition PROP_INCLUDING_NODE :: byte where "PROP_INCLUDING_NODE = 0x01"
definition OBFUSCATE_NONE :: nat where "OBFUSCATE_NONE = 0"
definition OBFUSCATE_DSK :: nat where "OBFUSCATE_DSK = 2"
definition OBFUSCATE_CSA :: nat where "OBFUSCATE_CSA = 4"
definition DSK_GROUPS :: nat where "DSK_GROUPS = 8"
definition PIN_DIGITS :: nat where "PIN_DIGITS = 5"

record PublicKeyReport =
  pk_includingNode :: bool
  pk_key :: bytes

text \<open>The loop that clears the leading key bytes; \<open>i\<close> counts up as in the source.\<close>

definition PublicKey_encode :: "bool \<Rightarrow> bytes \<Rightarrow> nat \<Rightarrow> bytes" where
  "PublicKey_encode includingNode key obfuscateLeading =
     (let frame = [CC_SECURITY_2, PUBLIC_KEY_REPORT, if includingNode then PROP_INCLUDING_NODE else 0] @ key
      in fold (\<lambda>i f. f[3 + i := 0]) [0 ..< min obfuscateLeading (length key)] frame)"

definition PublicKey_decode :: "bytes \<Rightarrow> PublicKeyReport option" where
  "PublicKey_decode payload =
     (if length payload \<noteq> 3 + CURVE25519_KEY_SIZE \<or> payload ! 0 \<noteq> CC_SECURITY_2 \<or>
         payload ! 1 \<noteq> PUBLIC_KEY_REPORT then None
      else Some \<lparr>pk_includingNode = payload ! 2 AND PROP_INCLUDING_NODE \<noteq> 0,
                 pk_key = subspan payload 3 CURVE25519_KEY_SIZE\<rparr>)"

definition groupValue :: "bytes \<Rightarrow> nat \<Rightarrow> u16" where
  "groupValue key index = be16 (key ! (index * 2)) (key ! (index * 2 + 1))"

text \<open>\<open>std::format("{:05}", v)\<close> for a sixteen bit value: five decimal digits.\<close>

definition digitChar :: "nat \<Rightarrow> char" where
  "digitChar d = char_of (48 + d)"

definition format05 :: "u16 \<Rightarrow> string" where
  "format05 v = (let n = unat v in
     map digitChar [n div 10000 mod 10, n div 1000 mod 10, n div 100 mod 10, n div 10 mod 10, n mod 10])"

definition dskString :: "bytes \<Rightarrow> string" where
  "dskString key =
     concat (map (\<lambda>group. (if group \<noteq> 0 then ''-'' else []) @ format05 (groupValue key group)) [0 ..< DSK_GROUPS])"

definition dskPin :: "bytes \<Rightarrow> string" where
  "dskPin key = format05 (groupValue key 0)"

text \<open>The digit loop of \<open>parsePin\<close> over a \<open>std::uint32_t\<close>, and the range check.\<close>

fun pinLoop :: "string \<Rightarrow> u32 \<Rightarrow> u32 option" where
  "pinLoop [] v = Some v"
| "pinLoop (ch # chs) v =
     (if of_char ch < (48 :: nat) \<or> of_char ch > (57 :: nat) then None
      else pinLoop chs (v * 10 + of_nat (of_char ch - 48)))"

definition parsePin :: "string \<Rightarrow> u16 option" where
  "parsePin pin =
     (if length pin \<noteq> PIN_DIGITS then None
      else case pinLoop pin 0 of
          None \<Rightarrow> None
        | Some v \<Rightarrow> if v > 0xFFFF then None else Some (ucast v))"

definition applyPin :: "bytes \<Rightarrow> u16 \<Rightarrow> bytes" where
  "applyPin obfuscatedKey pin = obfuscatedKey[0 := hi8 pin, 1 := lo8 pin]"

section \<open>The codecs as instances of the wire interface\<close>

lemma flag_pair:
  "((if a then 1 else 0) OR (if b then 2 else 0)) AND (1 :: byte) \<noteq> 0 \<longleftrightarrow> a"
  "((if a then 1 else 0) OR (if b then 2 else 0)) AND (2 :: byte) \<noteq> 0 \<longleftrightarrow> b"
  "((if a then 2 else 0) OR (if b then 1 else 0)) AND (1 :: byte) \<noteq> 0 \<longleftrightarrow> b"
  "((if a then 2 else 0) OR (if b then 1 else 0)) AND (2 :: byte) \<noteq> 0 \<longleftrightarrow> a"
  by (cases a; cases b; simp)+

lemmas s2_flag_defs = FLAG_SOS_def FLAG_MOS_def PROP_ECHO_def PROP_REQUEST_CSA_def
  TRANSFER_KEY_VERIFIED_def TRANSFER_KEY_REQUEST_COMPLETE_def

definition nonceReport_ok :: "NonceReport \<Rightarrow> bool" where
  "nonceReport_ok r \<longleftrightarrow> (case nr_rei r of None \<Rightarrow> \<not> nr_sos r | Some rei \<Rightarrow> nr_sos r \<and> length rei = EI_SIZE)"

interpretation nonceReport_codec: wire_codec encodeNonceReport decodeNonceReport nonceReport_ok
  by unfold_locales
    (auto simp: encodeNonceReport_def decodeNonceReport_def nonceReport_ok_def s2_flag_defs Let_def flag_pair
      REPORT_FIXED_SIZE_def subspan_def split: option.splits)

interpretation kexReport_codec: wire_codec Kex_encodeReport Kex_decodeReport "\<lambda>_. True"
  by unfold_locales
    (simp add: Kex_encodeReport_def Kex_decodeReport_def Let_def s2_flag_defs flag_pair)

interpretation kexSet_codec: wire_codec Kex_encodeSet Kex_decodeSet "\<lambda>_. True"
  by unfold_locales
    (simp add: Kex_encodeSet_def Kex_decodeSet_def Let_def s2_flag_defs flag_pair)

interpretation keyReport_codec: wire_codec "\<lambda>r. encodeKeyReport (kre_grantedKey r) (kre_key r)" decodeKeyReport
  "\<lambda>r. length (kre_key r) = S2_KEY_SIZE"
  by unfold_locales (simp add: encodeKeyReport_def decodeKeyReport_def subspan_def)

interpretation transferEnd_codec: wire_codec "\<lambda>e. encodeTransferEnd (te_keyVerified e) (te_keyRequestComplete e)"
  decodeTransferEnd "\<lambda>_. True"
  by unfold_locales (simp add: encodeTransferEnd_def decodeTransferEnd_def Let_def s2_flag_defs flag_pair)

interpretation nonceReport_headed: headed_decoder decodeNonceReport CC_SECURITY_2 S2_NONCE_REPORT
  by unfold_locales (auto simp: decodeNonceReport_def has_header_def REPORT_FIXED_SIZE_def split: if_splits)

interpretation kexReport_headed: headed_decoder Kex_decodeReport CC_SECURITY_2 KEX_REPORT
  by unfold_locales (auto simp: Kex_decodeReport_def has_header_def split: if_splits)

interpretation kexSet_headed: headed_decoder Kex_decodeSet CC_SECURITY_2 KEX_SET
  by unfold_locales (auto simp: Kex_decodeSet_def has_header_def split: if_splits)

interpretation kexFail_headed: headed_decoder Kex_decodeFail CC_SECURITY_2 KEX_FAIL
  by unfold_locales (auto simp: Kex_decodeFail_def has_header_def split: if_splits)

interpretation keyGet_headed: headed_decoder decodeKeyGet CC_SECURITY_2 NETWORK_KEY_GET
  by unfold_locales (auto simp: decodeKeyGet_def has_header_def split: if_splits)

interpretation keyReport_headed: headed_decoder decodeKeyReport CC_SECURITY_2 NETWORK_KEY_REPORT
  by unfold_locales (auto simp: decodeKeyReport_def has_header_def split: if_splits)

interpretation transferEnd_headed: headed_decoder decodeTransferEnd CC_SECURITY_2 TRANSFER_END
  by unfold_locales (auto simp: decodeTransferEnd_def has_header_def split: if_splits)

interpretation publicKey_headed: headed_decoder PublicKey_decode CC_SECURITY_2 PUBLIC_KEY_REPORT
  by unfold_locales (auto simp: PublicKey_decode_def has_header_def split: if_splits)

lemma headed_commandByte: "has_header CC_SECURITY_2 cmd p \<Longrightarrow> s2_commandByte p = Some cmd"
  by (auto simp: has_header_def s2_commandByte_def)

section \<open>Extensions\<close>

lemma findSpan_encode:
  assumes "length sei = EI_SIZE"
  shows "findSpanExtension (encodeSpanExtension sei @ rest) = Some sei"
  using assms unfolding findSpanExtension_def
  by (subst findSpanLoop.simps) (simp add: encodeSpanExtension_def s2_ext_defs subspan_def Let_def EI_SIZE_def)

lemma findMgrp_encode: "findMgrpExtension (encodeMgrpExtension g @ rest) = Some g"
  unfolding findMgrpExtension_def
  by (subst forEachExtension.simps) (simp add: encodeMgrpExtension_def s2_ext_defs subspan_def Let_def)

lemma findMpan_encode:
  assumes "length st = S2_BLOCK_SIZE"
  shows "findMpanExtension (encodeMpanExtension g st @ rest) = Some (g, st)"
  using assms unfolding findMpanExtension_def
  by (subst forEachExtension.simps)
    (simp add: encodeMpanExtension_def s2_ext_defs subspan_def Let_def S2_BLOCK_SIZE_def)

section \<open>The DSK\<close>

lemma obfuscate_loop:
  "n \<le> length key \<Longrightarrow>
   fold (\<lambda>i f. f[3 + i := 0]) [0 ..< n] ([a, b, c] @ key) = [a, b, c] @ replicate n (0 :: byte) @ drop n key"
proof (induction n)
  case (Suc n)
  then have "drop n key = key ! n # drop (Suc n) key" by (simp add: Cons_nth_drop_Suc)
  then show ?case
    using Suc by (simp add: list_update_append replicate_append_same [symmetric])
qed simp

lemma PublicKey_encode_eq:
  "PublicKey_encode inc key n =
     [CC_SECURITY_2, PUBLIC_KEY_REPORT, if inc then PROP_INCLUDING_NODE else 0]
       @ replicate (min n (length key)) 0 @ drop (min n (length key)) key"
  unfolding PublicKey_encode_def Let_def by (rule obfuscate_loop) simp

lemma PublicKey_decode_encode:
  "length key = CURVE25519_KEY_SIZE \<Longrightarrow>
   PublicKey_decode (PublicKey_encode inc key n) =
     Some \<lparr>pk_includingNode = inc, pk_key = replicate (min n 32) 0 @ drop (min n 32) key\<rparr>"
  by (simp add: PublicKey_encode_eq PublicKey_decode_def CURVE25519_KEY_SIZE_def subspan_def
      PROP_INCLUDING_NODE_def)

lemma of_char_digit: "d < 10 \<Longrightarrow> of_char (digitChar d) = (48 + d :: nat)"
  by (simp add: digitChar_def of_char_of)

lemma pinLoop_digits:
  "\<forall>d \<in> set ds. d < 10 \<Longrightarrow>
   pinLoop (map digitChar ds) (of_nat v) = Some (of_nat (foldl (\<lambda>a d. a * 10 + d) v ds))"
proof (induction ds arbitrary: v)
  case (Cons d ds)
  have "pinLoop (map digitChar (d # ds)) (of_nat v) = pinLoop (map digitChar ds) (of_nat v * 10 + of_nat d)"
    using Cons.prems by (simp add: of_char_digit)
  also have "of_nat v * 10 + of_nat d = (of_nat (v * 10 + d) :: u32)" by simp
  also have "pinLoop (map digitChar ds) (of_nat (v * 10 + d)) =
      Some (of_nat (foldl (\<lambda>a d. a * 10 + d) (v * 10 + d) ds))"
    by (rule Cons.IH) (use Cons.prems in simp)
  finally show ?case by simp
qed simp

lemma decimal_step: "(n div (10 * k)) * 10 + n div k mod 10 = n div (k :: nat)"
  by (metis div_mult2_eq mult.commute mult_div_mod_eq)

lemma five_digits:
  fixes n :: nat
  assumes "n < 100000"
  shows "foldl (\<lambda>a d. a * 10 + d) 0
           [n div 10000 mod 10, n div 1000 mod 10, n div 100 mod 10, n div 10 mod 10, n mod 10] = n"
proof -
  have "n div 10000 mod 10 = n div 10000" using assms by simp
  then show ?thesis
    using decimal_step [of n 1000] decimal_step [of n 100] decimal_step [of n 10] decimal_step [of n 1]
    by simp
qed

lemma parsePin_format05: "parsePin (format05 v) = Some v"
proof -
  let ?n = "unat v"
  let ?ds = "[?n div 10000 mod 10, ?n div 1000 mod 10, ?n div 100 mod 10, ?n div 10 mod 10, ?n mod 10]"
  have n: "?n < 65536" using unsigned_less [of v] by simp
  have "pinLoop (map digitChar ?ds) (of_nat 0) = Some (of_nat (foldl (\<lambda>a d. a * 10 + d) 0 ?ds))"
    by (rule pinLoop_digits) simp
  also have "foldl (\<lambda>a d. a * 10 + d) 0 ?ds = ?n"
    by (rule five_digits) (use n in simp)
  finally have "pinLoop (format05 v) 0 = Some (of_nat ?n)"
    by (simp only: format05_def Let_def semiring_1_class.of_nat_0)
  moreover have "(of_nat ?n :: u32) = ucast v" by simp
  moreover have "\<not> (of_nat ?n :: u32) > 0xFFFF"
    using n by (simp only: word_less_nat_alt unat_of_nat) simp
  moreover have "ucast (ucast v :: u32) = v" by (simp add: unsigned_ucast_eq take_bit_word_eq_self)
  moreover have "length (format05 v) = PIN_DIGITS" by (simp add: format05_def Let_def PIN_DIGITS_def)
  ultimately show ?thesis by (simp add: parsePin_def)
qed

lemma applyPin_restores:
  assumes "2 \<le> length key"
  shows "applyPin (replicate 2 0 @ drop 2 key) (groupValue key 0) = key"
proof -
  obtain a b ys where "key = a # b # ys" using assms by (auto simp: length_ge2_conv)
  then show ?thesis by (simp add: applyPin_def groupValue_def numeral_2_eq_2)
qed

section \<open>Properties\<close>

text \<open>
  The DSK ritual restores the key. A joining node that hides the first two bytes of its
  public key sends a report the controller accepts; the PIN printed on the node's label parses,
  and applying it to the received key gives the node's true public key.
\<close>

theorem dsk_restores_key:
  assumes "length key = CURVE25519_KEY_SIZE"
  shows "\<exists>r pin. PublicKey_decode (PublicKey_encode False key OBFUSCATE_DSK) = Some r \<and>
    pk_key r \<noteq> [] \<and> take 2 (pk_key r) = [0, 0] \<and>
    parsePin (dskPin key) = Some pin \<and> applyPin (pk_key r) pin = key"
  using assms applyPin_restores [of key]
  by (auto simp: PublicKey_decode_encode OBFUSCATE_DSK_def dskPin_def parsePin_format05
      CURVE25519_KEY_SIZE_def numeral_2_eq_2)

theorem dsk_restores_key_witness:
  "\<exists>r pin. PublicKey_decode (PublicKey_encode False (replicate 32 0xAB) OBFUSCATE_DSK) = Some r \<and>
    pk_key r \<noteq> [] \<and> take 2 (pk_key r) = [0, 0] \<and>
    parsePin (dskPin (replicate 32 0xAB)) = Some pin \<and> applyPin (pk_key r) pin = replicate 32 0xAB"
  by (rule dsk_restores_key) (simp add: CURVE25519_KEY_SIZE_def)

text \<open>
  The commands of the key exchange survive the wire: nonce reports, key exchange reports and
  grants, key transfers and transfer ends decode to what was encoded, and each of them carries
  the command byte the handshake dispatches on.
\<close>

theorem s2_commands_roundtrip:
  assumes "nonceReport_ok nr" and "length key = S2_KEY_SIZE"
  shows "decodeNonceReport (encodeNonceReport nr) = Some nr \<and>
    Kex_decodeReport (Kex_encodeReport kr) = Some kr \<and>
    Kex_decodeSet (Kex_encodeSet ks) = Some ks \<and>
    decodeKeyReport (encodeKeyReport kb key) = Some \<lparr>kre_grantedKey = kb, kre_key = key\<rparr> \<and>
    decodeTransferEnd (encodeTransferEnd v d) = Some \<lparr>te_keyVerified = v, te_keyRequestComplete = d\<rparr> \<and>
    map s2_commandByte [encodeNonceReport nr, Kex_encodeReport kr, Kex_encodeSet ks, encodeKeyReport kb key,
        encodeTransferEnd v d] =
      map Some [S2_NONCE_REPORT, KEX_REPORT, KEX_SET, NETWORK_KEY_REPORT, TRANSFER_END]"
proof -
  note codecs = nonceReport_codec.dec_enc [OF assms(1)] kexReport_codec.dec_enc kexSet_codec.dec_enc
    transferEnd_codec.dec_enc [of "\<lparr>te_keyVerified = v, te_keyRequestComplete = d\<rparr>"]
    keyReport_codec.dec_enc [of "\<lparr>kre_grantedKey = kb, kre_key = key\<rparr>"]
  note headed = nonceReport_headed.accepts_headed kexReport_headed.accepts_headed
    kexSet_headed.accepts_headed keyReport_headed.accepts_headed transferEnd_headed.accepts_headed
  show ?thesis
    using codecs assms(2) by (simp add: headed headed_commandByte)
qed

theorem s2_commands_roundtrip_witness:
  "decodeNonceReport (encodeNonceReport \<lparr>nr_sequenceNumber = 7, nr_sos = True, nr_mos = False,
       nr_rei = Some (replicate 16 5)\<rparr>) =
     Some \<lparr>nr_sequenceNumber = 7, nr_sos = True, nr_mos = False, nr_rei = Some (replicate 16 5)\<rparr> \<and>
   decodeKeyReport (encodeKeyReport 2 (replicate 16 9)) = Some \<lparr>kre_grantedKey = 2, kre_key = replicate 16 9\<rparr>"
  using s2_commands_roundtrip [of "\<lparr>nr_sequenceNumber = 7, nr_sos = True, nr_mos = False,
      nr_rei = Some (replicate 16 5)\<rparr>" "replicate 16 9" undefined undefined 2 False False]
  by (simp add: nonceReport_ok_def EI_SIZE_def S2_KEY_SIZE_def)

text \<open>
  The grant policy. The granted classes are among those the node asked for and those the
  controller offers; a node that asks for client-side authentication never gets the access
  control class; and without that request everything both sides support is granted.
\<close>

theorem grant_policy:
  "grantKeys r supported AND NOT (kr_requestedKeys r) = 0 \<and> grantKeys r supported AND NOT supported = 0 \<and>
   (if kr_requestCsa r then grantKeys r supported AND KEY_S2_ACCESS_CONTROL = 0
    else grantKeys r supported = kr_requestedKeys r AND supported)"
  by (auto simp: grantKeys_def Let_def intro!: bit_word_eqI simp: bit_simps)

end
