(* ===== verification/S2_Session.thy ===== *)
theory S2_Session
  imports S2_Codecs
begin

text \<open>
  Security S2 sessions: the message encapsulation (\<open>Encapsulation.cpp\<close>), the per-peer nonce
  synchronisation state machine (\<open>SpanManager.cpp\<close>), the sender side of a multicast group
  (\<open>MulticastSession.cpp\<close>) and the class keys of the live transport (\<open>Transport.cpp\<close>).
\<close>

section \<open>Encapsulation\<close>

definition CMD_ENCAP :: byte where "CMD_ENCAP = 0x03"
definition PROP_EXT :: byte where "PROP_EXT = 0x01"
definition PROP_ENC_EXT :: byte where "PROP_ENC_EXT = 0x02"
definition EXT_MORE_TO_FOLLOW :: byte where "EXT_MORE_TO_FOLLOW = 0x80"
definition S2_HEADER_SIZE :: nat where "S2_HEADER_SIZE = 4"
definition EXT_MIN_BYTES :: nat where "EXT_MIN_BYTES = 2"
definition TAG_SIZE :: nat where "TAG_SIZE = 8"

lemmas encap_defs = CMD_ENCAP_def PROP_EXT_def PROP_ENC_EXT_def EXT_MORE_TO_FOLLOW_def S2_HEADER_SIZE_def
  EXT_MIN_BYTES_def TAG_SIZE_def

record EncapContext =
  ec_senderNodeId :: byte
  ec_receiverNodeId :: byte
  ec_homeId :: bytes
  ec_sequenceNumber :: byte

function extensionsLoop :: "bytes \<Rightarrow> nat \<Rightarrow> nat option" where
  "extensionsLoop data offset =
     (if offset + EXT_MIN_BYTES > length data then None
      else let extLen = unat (data ! offset) in
        if extLen < EXT_MIN_BYTES \<or> offset + extLen > length data then None
        else let moreToFollow = data ! (offset + 1) AND EXT_MORE_TO_FOLLOW \<noteq> 0 in
          if \<not> moreToFollow then Some (offset + extLen)
          else extensionsLoop data (offset + extLen))"
  by pat_completeness auto
termination
  by (relation "measure (\<lambda>(d, off). length d - off)") (auto simp: EXT_MIN_BYTES_def)

declare extensionsLoop.simps [simp del]

definition extensionsLength :: "bytes \<Rightarrow> nat option" where
  "extensionsLength data = extensionsLoop data 0"

definition buildAad :: "EncapContext \<Rightarrow> byte \<Rightarrow> byte \<Rightarrow> bytes \<Rightarrow> nat \<Rightarrow> bytes" where
  "buildAad ctx sequenceNumber props extensions frameLength =
     [ec_senderNodeId ctx, ec_receiverNodeId ctx] @ ec_homeId ctx
       @ [hi8 (of_nat frameLength), lo8 (of_nat frameLength), sequenceNumber, props] @ extensions"

definition S2_encrypt ::
  "libcrypto2 \<Rightarrow> bytes \<Rightarrow> EncapContext \<Rightarrow> bytes \<Rightarrow> bytes \<Rightarrow> bytes \<Rightarrow> bytes \<Rightarrow> bytes" where
  "S2_encrypt c inner ctx classKey nonce nonEncryptedExtensions encryptedExtensions =
     (let props0 = (if nonEncryptedExtensions = [] then 0 else PROP_EXT);
          props = (if encryptedExtensions \<noteq> [] then props0 OR PROP_ENC_EXT else props0);
          plaintext = encryptedExtensions @ inner;
          frameLength = S2_HEADER_SIZE + length nonEncryptedExtensions + length plaintext + TAG_SIZE;
          aad = buildAad ctx (ec_sequenceNumber ctx) props nonEncryptedExtensions frameLength;
          ciphertext = ccmEncrypt c classKey nonce aad plaintext TAG_SIZE
      in [CC_SECURITY_2, CMD_ENCAP, ec_sequenceNumber ctx, props] @ nonEncryptedExtensions @ ciphertext)"

definition S2_decrypt :: "libcrypto2 \<Rightarrow> bytes \<Rightarrow> EncapContext \<Rightarrow> bytes \<Rightarrow> bytes \<Rightarrow> bytes option" where
  "S2_decrypt c frame ctx classKey nonce =
     (if length frame < S2_HEADER_SIZE + TAG_SIZE \<or> frame ! 0 \<noteq> CC_SECURITY_2 \<or> frame ! 1 \<noteq> CMD_ENCAP
      then None
      else let sequenceNumber = frame ! 2; props = frame ! 3 in
        case (if props AND PROP_EXT \<noteq> 0 then extensionsLength (drop S2_HEADER_SIZE frame) else Some 0) of
          None \<Rightarrow> None
        | Some extBytes \<Rightarrow>
            let cipherStart = S2_HEADER_SIZE + extBytes in
            if cipherStart + TAG_SIZE > length frame then None
            else let aad = buildAad ctx sequenceNumber props (subspan frame S2_HEADER_SIZE extBytes) (length frame) in
              case ccmDecrypt c classKey nonce aad (drop cipherStart frame) TAG_SIZE of
                None \<Rightarrow> None
              | Some plaintext \<Rightarrow>
                  if props AND PROP_ENC_EXT \<noteq> 0
                  then (case extensionsLength plaintext of
                          None \<Rightarrow> None
                        | Some len \<Rightarrow> if len > length plaintext then None else Some (drop len plaintext))
                  else Some plaintext)"

section \<open>SpanManager\<close>

record PeerConfig =
  pc_classKey :: bytes
  pc_personalization :: bytes
  pc_homeId :: bytes
  pc_ourNodeId :: byte
  pc_peerNodeId :: byte

record Peer =
  pr_config :: PeerConfig
  pr_span :: "Span option"
  pr_ourRei :: "bytes option"
  pr_peerRei :: "bytes option"
  pr_txSequence :: byte

definition defaultPeer :: Peer where
  "defaultPeer =
     \<lparr>pr_config = \<lparr>pc_classKey = replicate S2_KEY_SIZE 0, pc_personalization = replicate PERSONALIZATION_SIZE 0,
                    pc_homeId = replicate 4 0, pc_ourNodeId = 0, pc_peerNodeId = 0\<rparr>,
      pr_span = None, pr_ourRei = None, pr_peerRei = None, pr_txSequence = 0\<rparr>"

text \<open>
  The entropy source is a function of the number of draws made so far.
\<close>

record SpanManager =
  sm_entropy :: "nat \<Rightarrow> bytes"
  sm_draws :: nat
  sm_peers :: "byte \<rightharpoonup> Peer"

definition newSpanManager :: "(nat \<Rightarrow> bytes) \<Rightarrow> SpanManager" where
  "newSpanManager entropy = \<lparr>sm_entropy = entropy, sm_draws = 0, sm_peers = Map.empty\<rparr>"

definition peerState :: "byte \<Rightarrow> SpanManager \<Rightarrow> Peer" where
  "peerState peer M = (case sm_peers M peer of None \<Rightarrow> defaultPeer | Some p \<Rightarrow> p)"

definition setPeer :: "byte \<Rightarrow> Peer \<Rightarrow> SpanManager \<Rightarrow> SpanManager" where
  "setPeer peer p M = M\<lparr>sm_peers := (sm_peers M)(peer \<mapsto> p)\<rparr>"

definition drawEntropy :: "SpanManager \<Rightarrow> bytes \<times> SpanManager" where
  "drawEntropy M = (sm_entropy M (sm_draws M), M\<lparr>sm_draws := sm_draws M + 1\<rparr>)"

definition configurePeer :: "byte \<Rightarrow> PeerConfig \<Rightarrow> SpanManager \<Rightarrow> SpanManager" where
  "configurePeer peer config M = setPeer peer ((peerState peer M)\<lparr>pr_config := config\<rparr>) M"

definition hasSpan :: "byte \<Rightarrow> SpanManager \<Rightarrow> bool" where
  "hasSpan peer M = (case sm_peers M peer of None \<Rightarrow> False | Some p \<Rightarrow> pr_span p \<noteq> None)"

definition truncatedNonce :: "libcrypto2 \<Rightarrow> Span \<Rightarrow> bytes \<times> Span" where
  "truncatedNonce c s = (case span_nextNonce c s of (full, s1) \<Rightarrow> (take CCM_NONCE_SIZE full, s1))"

definition sm_nonceGet :: "byte \<Rightarrow> SpanManager \<Rightarrow> bytes \<times> SpanManager" where
  "sm_nonceGet peer M =
     (let p = peerState peer M
      in (encodeNonceGet (pr_txSequence p), setPeer peer (p\<lparr>pr_txSequence := pr_txSequence p + 1\<rparr>) M))"

definition respondToNonceGet :: "byte \<Rightarrow> SpanManager \<Rightarrow> bytes \<times> SpanManager" where
  "respondToNonceGet peer M =
     (let p = peerState peer M in
      case drawEntropy M of (rei, M1) \<Rightarrow>
        (encodeNonceReport \<lparr>nr_sequenceNumber = pr_txSequence p, nr_sos = True, nr_mos = False, nr_rei = Some rei\<rparr>,
         setPeer peer (p\<lparr>pr_ourRei := Some rei, pr_txSequence := pr_txSequence p + 1\<rparr>) M1))"

definition acceptNonceReport :: "byte \<Rightarrow> NonceReport \<Rightarrow> SpanManager \<Rightarrow> SpanManager" where
  "acceptNonceReport peer r M =
     (if nr_sos r \<and> nr_rei r \<noteq> None
      then setPeer peer ((peerState peer M)\<lparr>pr_peerRei := nr_rei r\<rparr>) M
      else M)"

text \<open>
  The part of \<open>encrypt\<close> that provides a generator: the one in place, or one mixed from the
  peer's entropy input and a fresh one of ours, which then travels in the extension.
\<close>

definition establishForSend ::
  "libcrypto2 \<Rightarrow> Peer \<Rightarrow> SpanManager \<Rightarrow> (bytes \<times> Span \<times> Peer \<times> SpanManager) option" where
  "establishForSend c p M =
     (case pr_span p of
        Some s \<Rightarrow> Some ([], s, p, M)
      | None \<Rightarrow>
          (case pr_peerRei p of
             None \<Rightarrow> None
           | Some rei \<Rightarrow>
               (case drawEntropy M of
                  (sei, M1) \<Rightarrow>
                    let s = span_instantiate c sei rei (pc_personalization (pr_config p))
                    in Some (encodeSpanExtension sei, s, p\<lparr>pr_span := Some s, pr_peerRei := None\<rparr>, M1))))"

definition sm_encrypt :: "libcrypto2 \<Rightarrow> byte \<Rightarrow> bytes \<Rightarrow> SpanManager \<Rightarrow> bytes option \<times> SpanManager" where
  "sm_encrypt c peer inner M =
     (let p = peerState peer M in
      case establishForSend c p M of
        None \<Rightarrow> (None, setPeer peer p M)
      | Some (spanExtension, s, p1, M1) \<Rightarrow>
          let cfg = pr_config p1;
              ctx = \<lparr>ec_senderNodeId = pc_ourNodeId cfg, ec_receiverNodeId = pc_peerNodeId cfg,
                     ec_homeId = pc_homeId cfg, ec_sequenceNumber = pr_txSequence p1\<rparr>
          in case truncatedNonce c s of
               (nonce, s1) \<Rightarrow>
                 (Some (S2_encrypt c inner ctx (pc_classKey cfg) nonce spanExtension []),
                  setPeer peer (p1\<lparr>pr_txSequence := pr_txSequence p1 + 1, pr_span := Some s1\<rparr>) M1))"

definition isEncap :: "bytes \<Rightarrow> bool" where
  "isEncap frame \<longleftrightarrow> length frame \<ge> S2_HEADER_SIZE \<and> frame ! 0 = CC_SECURITY_2 \<and> frame ! 1 = CMD_ENCAP"

text \<open>The part of \<open>receiveNonce\<close> that instantiates a generator from the frame's extension.\<close>

definition establishFromFrame :: "libcrypto2 \<Rightarrow> bytes \<Rightarrow> Peer \<Rightarrow> Peer" where
  "establishFromFrame c frame p =
     (case pr_ourRei p of
        None \<Rightarrow> p
      | Some rei \<Rightarrow>
          if isEncap frame \<and> frame ! 3 AND PROP_EXT \<noteq> 0
          then (case findSpanExtension (drop S2_HEADER_SIZE frame) of
                  None \<Rightarrow> p
                | Some sei \<Rightarrow>
                    p\<lparr>pr_span := Some (span_instantiate c sei rei (pc_personalization (pr_config p))),
                      pr_ourRei := None\<rparr>)
          else p)"

definition receiveNonce :: "libcrypto2 \<Rightarrow> byte \<Rightarrow> bytes \<Rightarrow> SpanManager \<Rightarrow> bytes option \<times> SpanManager" where
  "receiveNonce c peer frame M =
     (let p = establishFromFrame c frame (peerState peer M) in
      case pr_span p of
        None \<Rightarrow> (None, setPeer peer p M)
      | Some s \<Rightarrow>
          (case truncatedNonce c s of
             (nonce, s1) \<Rightarrow> (Some nonce, setPeer peer (p\<lparr>pr_span := Some s1\<rparr>) M)))"

definition exportSpan :: "byte \<Rightarrow> SpanManager \<Rightarrow> bytes option" where
  "exportSpan peer M =
     (case sm_peers M peer of None \<Rightarrow> None | Some p \<Rightarrow> map_option span_serialize (pr_span p))"

definition importSpan :: "byte \<Rightarrow> bytes \<Rightarrow> SpanManager \<Rightarrow> SpanManager" where
  "importSpan peer st M = setPeer peer ((peerState peer M)\<lparr>pr_span := Some (span_deserialize st)\<rparr>) M"

definition exportAll :: "SpanManager \<Rightarrow> (byte \<rightharpoonup> bytes)" where
  "exportAll M =
     (\<lambda>peer. case sm_peers M peer of
        None \<Rightarrow> None
      | Some p \<Rightarrow> (case pr_span p of None \<Rightarrow> None | Some s \<Rightarrow> Some (span_serialize s)))"

section \<open>MulticastSession\<close>

definition ADVANCE_PER_ROUND :: nat where "ADVANCE_PER_ROUND = 2"

record MulticastSession =
  mc_groupId :: byte
  mc_senderNodeId :: byte
  mc_homeId :: bytes
  mc_classKeyCcm :: bytes
  mc_generator :: Generator

definition followUpExtension :: "MulticastSession \<Rightarrow> bytes" where
  "followUpExtension S = encodeMgrpExtension (mc_groupId S)"

definition mpanExtension :: "MulticastSession \<Rightarrow> bytes" where
  "mpanExtension S = encodeMpanExtension (mc_groupId S) (gen_state (mc_generator S))"

definition multicastFrame :: "libcrypto2 \<Rightarrow> bytes \<Rightarrow> byte \<Rightarrow> MulticastSession \<Rightarrow> bytes \<times> MulticastSession" where
  "multicastFrame c inner sequenceNumber S =
     (let mgrp = followUpExtension S in
      case mpan_nextNonce c (mc_classKeyCcm S) (mc_generator S) of
        (nonce, g1) \<Rightarrow>
          let ctx = \<lparr>ec_senderNodeId = mc_senderNodeId S, ec_receiverNodeId = mc_groupId S,
                     ec_homeId = mc_homeId S, ec_sequenceNumber = sequenceNumber\<rparr>;
              frame = S2_encrypt c inner ctx (mc_classKeyCcm S) nonce mgrp []
          in (frame, S\<lparr>mc_generator := (mpan_advance ^^ (ADVANCE_PER_ROUND - 1)) g1\<rparr>))"

section \<open>Transport\<close>

datatype SecurityScheme = SchemeNone | SchemeS0 | S2Unauthenticated | S2Authenticated | S2AccessControl

fun schemeNumber :: "SecurityScheme \<Rightarrow> byte" where
  "schemeNumber SchemeNone = 0"
| "schemeNumber SchemeS0 = 1"
| "schemeNumber S2Unauthenticated = 2"
| "schemeNumber S2Authenticated = 3"
| "schemeNumber S2AccessControl = 4"

text \<open>Of a node's entry in the registry only the recorded scheme is modelled here.\<close>

type_synonym schemeRegistry = "byte \<rightharpoonup> SecurityScheme"

definition registry_securityScheme :: "byte \<Rightarrow> schemeRegistry \<Rightarrow> SecurityScheme" where
  "registry_securityScheme nodeId nodes = (case nodes nodeId of None \<Rightarrow> SchemeNone | Some s \<Rightarrow> s)"

definition registry_isSecure :: "byte \<Rightarrow> schemeRegistry \<Rightarrow> bool" where
  "registry_isSecure nodeId nodes = (case nodes nodeId of None \<Rightarrow> False | Some s \<Rightarrow> s \<noteq> SchemeNone)"

definition registry_setSecurityScheme :: "byte \<Rightarrow> SecurityScheme \<Rightarrow> schemeRegistry \<Rightarrow> schemeRegistry" where
  "registry_setSecurityScheme nodeId scheme nodes =
     (case nodes nodeId of None \<Rightarrow> nodes | Some _ \<Rightarrow> nodes(nodeId \<mapsto> scheme))"

definition classForScheme :: "byte \<Rightarrow> KeyClass option" where
  "classForScheme securityScheme =
     (if securityScheme = 2 then Some Unauthenticated
      else if securityScheme = 3 then Some Authenticated
      else if securityScheme = 4 then Some AccessControl
      else None)"

fun classIndex :: "KeyClass \<Rightarrow> nat" where
  "classIndex Unauthenticated = 0"
| "classIndex Authenticated = 1"
| "classIndex AccessControl = 2"
| "classIndex S0Compat = 3"

definition keyFor :: "bytes list \<Rightarrow> KeyClass \<Rightarrow> bytes" where
  "keyFor keys cls = keys ! classIndex cls"

definition resolveClassKeys :: "libcrypto2 \<Rightarrow> bytes list option \<Rightarrow> byte \<Rightarrow> NetworkKeys option" where
  "resolveClassKeys c current securityScheme =
     (case classForScheme securityScheme of
        None \<Rightarrow> None
      | Some cls \<Rightarrow>
          (case current of None \<Rightarrow> None | Some keys \<Rightarrow> Some (networkKeyExpand c (keyFor keys cls))))"

section \<open>Chains of extensions\<close>

lemma extensionsLoop_bound: "extensionsLoop data off = Some n \<Longrightarrow> n \<le> length data"
proof (induction data off rule: extensionsLoop.induct)
  case (1 data off)
  then show ?case
    by (subst (asm) (2) extensionsLoop.simps)
      (auto simp: Let_def EXT_MIN_BYTES_def split: if_splits)
qed

lemma extensionsLoop_append:
  "extensionsLoop data off = Some n \<Longrightarrow> extensionsLoop (data @ rest) off = Some n"
proof (induction data off rule: extensionsLoop.induct)
  case (1 data off)
  then show ?case
    by (subst (asm) (2) extensionsLoop.simps, subst extensionsLoop.simps)
      (auto simp: Let_def EXT_MIN_BYTES_def nth_append split: if_splits)
qed

definition ext_chain :: "bytes \<Rightarrow> bool" where
  "ext_chain exts \<longleftrightarrow> exts = [] \<or> extensionsLength exts = Some (length exts)"

lemma ext_chain_append: "ext_chain exts \<Longrightarrow> exts \<noteq> [] \<Longrightarrow> extensionsLength (exts @ rest) = Some (length exts)"
  by (auto simp: ext_chain_def extensionsLength_def intro: extensionsLoop_append)

lemma ext_chain_single:
  assumes "unat len = 2 + length body" and "flags AND EXT_MORE_TO_FOLLOW = 0"
  shows "ext_chain (len # flags # body)"
  using assms unfolding ext_chain_def extensionsLength_def
  by (subst extensionsLoop.simps) (simp add: EXT_MIN_BYTES_def Let_def)

lemma ext_chains:
  "length sei = EI_SIZE \<Longrightarrow> ext_chain (encodeSpanExtension sei)"
  "length st = S2_BLOCK_SIZE \<Longrightarrow> ext_chain (encodeMpanExtension g st)"
  "ext_chain (encodeMgrpExtension g)"
  by (simp_all add: encodeSpanExtension_def encodeMpanExtension_def encodeMgrpExtension_def
      ext_chain_single s2_ext_defs EXT_MORE_TO_FOLLOW_def EI_SIZE_def S2_BLOCK_SIZE_def)

section \<open>The encapsulation\<close>

lemma encap_props:
  "(let p0 = (if a then 0 else PROP_EXT); p = (if b then p0 OR PROP_ENC_EXT else p0)
    in p AND PROP_EXT \<noteq> 0 \<longleftrightarrow> \<not> a)"
  "(let p0 = (if a then 0 else PROP_EXT); p = (if b then p0 OR PROP_ENC_EXT else p0)
    in p AND PROP_ENC_EXT \<noteq> 0 \<longleftrightarrow> b)"
  by (cases a; cases b; simp add: PROP_EXT_def PROP_ENC_EXT_def)+

text \<open>A frame with given header, extensions and ciphertext, and what \<open>decrypt\<close> does with it.\<close>

lemma S2_decrypt_parts:
  assumes "if props AND PROP_EXT \<noteq> 0 then ext_chain ne \<and> ne \<noteq> [] else ne = []" and "TAG_SIZE \<le> length ct"
  shows "S2_decrypt c ([CC_SECURITY_2, CMD_ENCAP, sq, props] @ ne @ ct) ctx key nonce =
    (case ccmDecrypt c key nonce (buildAad ctx sq props ne (4 + length ne + length ct)) ct TAG_SIZE of
       None \<Rightarrow> None
     | Some pt \<Rightarrow>
         if props AND PROP_ENC_EXT \<noteq> 0
         then (case extensionsLength pt of
                 None \<Rightarrow> None
               | Some len \<Rightarrow> if len > length pt then None else Some (drop len pt))
         else Some pt)"
proof -
  let ?f = "[CC_SECURITY_2, CMD_ENCAP, sq, props] @ ne @ ct"
  have ext: "(if props AND PROP_EXT \<noteq> 0 then extensionsLength (drop S2_HEADER_SIZE ?f) else Some 0) =
      Some (length ne)"
    using assms(1) by (auto simp: S2_HEADER_SIZE_def ext_chain_append)
  have "drop (S2_HEADER_SIZE + length ne) ?f = drop (length ne) (drop 4 ?f)"
    by (simp only: drop_drop S2_HEADER_SIZE_def add.commute)
  then have rest: "drop (S2_HEADER_SIZE + length ne) ?f = ct" by simp
  have at: "?f ! 0 = CC_SECURITY_2" "?f ! 1 = CMD_ENCAP" "?f ! 2 = sq" "?f ! 3 = props"
    "subspan ?f S2_HEADER_SIZE (length ne) = ne"
    "length ?f = 4 + length ne + length ct"
    by (simp_all add: S2_HEADER_SIZE_def subspan_def)
  show ?thesis
    unfolding S2_decrypt_def Let_def at ext option.case rest
    using assms(2) by (simp add: S2_HEADER_SIZE_def)
qed

lemma S2_roundtrip_core:
  assumes "ccm_opens c" and "ext_chain ne" and "ext_chain ee" and "ee @ inner \<noteq> []"
    and "ec_senderNodeId ctx' = ec_senderNodeId ctx" "ec_receiverNodeId ctx' = ec_receiverNodeId ctx"
      "ec_homeId ctx' = ec_homeId ctx"
  shows "S2_decrypt c (S2_encrypt c inner ctx key nonce ne ee) ctx' key nonce = Some inner"
proof -
  define props where "props = (let p0 = (if ne = [] then 0 else PROP_EXT)
      in if ee \<noteq> [] then p0 OR PROP_ENC_EXT else p0)"
  define aad where "aad = buildAad ctx (ec_sequenceNumber ctx) props ne (4 + length ne + length (ee @ inner) + 8)"
  define ct where "ct = ccmEncrypt c key nonce aad (ee @ inner) TAG_SIZE"
  have enc: "S2_encrypt c inner ctx key nonce ne ee =
      [CC_SECURITY_2, CMD_ENCAP, ec_sequenceNumber ctx, props] @ ne @ ct"
    by (simp add: S2_encrypt_def Let_def props_def ct_def aad_def encap_defs)
  have p1: "props AND PROP_EXT \<noteq> 0 \<longleftrightarrow> ne \<noteq> []" and p2: "props AND PROP_ENC_EXT \<noteq> 0 \<longleftrightarrow> ee \<noteq> []"
    using encap_props [of "ne = []" "ee \<noteq> []"] by (simp_all add: props_def Let_def)
  have aad': "buildAad ctx' (ec_sequenceNumber ctx) props ne (4 + length ne + length ct) = aad"
    using assms(5-7) by (simp add: aad_def ct_def buildAad_def TAG_SIZE_def add.assoc)
  have dec: "ccmDecrypt c key nonce aad ct TAG_SIZE = Some (ee @ inner)"
    unfolding ct_def by (rule ccmDecrypt_encrypt [OF assms(1,4)])
  have "if props AND PROP_EXT \<noteq> 0 then ext_chain ne \<and> ne \<noteq> [] else ne = []" "TAG_SIZE \<le> length ct"
    using assms(2) by (simp_all add: p1 ct_def)
  note S2_decrypt_parts [OF this, of c "ec_sequenceNumber ctx" ctx' key nonce, unfolded aad' dec p2]
  then show ?thesis
    unfolding enc using assms(3) by (auto simp: ext_chain_append)
qed

lemma S2_decrypt_authentic:
  assumes "ccm_authentic c" and "S2_decrypt c frame ctx key nonce = Some inner" and "inner \<noteq> []"
  shows "\<exists>ne pt. frame = [CC_SECURITY_2, CMD_ENCAP, frame ! 2, frame ! 3] @ ne
      @ ccmEncrypt c key nonce (buildAad ctx (frame ! 2) (frame ! 3) ne (length frame)) pt TAG_SIZE \<and>
    (\<exists>ee. pt = ee @ inner \<and> (frame ! 3 AND PROP_ENC_EXT = 0 \<longrightarrow> ee = []))"
proof -
  have len: "12 \<le> length frame" and head: "frame ! 0 = CC_SECURITY_2" "frame ! 1 = CMD_ENCAP"
    using assms(2) by (auto simp: S2_decrypt_def encap_defs split: if_splits)
  obtain n where n: "(if frame ! 3 AND PROP_EXT \<noteq> 0 then extensionsLength (drop 4 frame) else Some 0) = Some n"
    using assms(2) unfolding S2_decrypt_def Let_def S2_HEADER_SIZE_def
    by (cases "if frame ! 3 AND PROP_EXT \<noteq> 0 then extensionsLength (drop 4 frame) else Some 0")
      (simp_all split: if_splits)
  obtain pt where dec: "ccmDecrypt c key nonce
        (buildAad ctx (frame ! 2) (frame ! 3) (subspan frame 4 n) (length frame)) (drop (4 + n) frame) TAG_SIZE =
        Some pt"
      and pt: "if frame ! 3 AND PROP_ENC_EXT \<noteq> 0 then \<exists>l. inner = drop l pt else inner = pt"
    using assms(2) unfolding S2_decrypt_def Let_def S2_HEADER_SIZE_def n
    by (auto split: if_splits option.splits)
  have "pt \<noteq> []" using pt assms(3) by (auto split: if_splits)
  note sealed = ccmDecrypt_sealed [OF assms(1) dec this]
  have "frame = take 4 frame @ subspan frame 4 n @ drop (4 + n) frame"
    by (simp add: subspan_def add.commute) (metis append_take_drop_id drop_drop)
  moreover have "take 4 frame = [frame ! 0, frame ! 1, frame ! 2, frame ! 3]"
    using len by (cases frame; cases "tl frame"; cases "tl (tl frame)"; cases "tl (tl (tl frame))") auto
  ultimately have "frame = [CC_SECURITY_2, CMD_ENCAP, frame ! 2, frame ! 3] @ subspan frame 4 n
      @ ccmEncrypt c key nonce (buildAad ctx (frame ! 2) (frame ! 3) (subspan frame 4 n) (length frame)) pt TAG_SIZE"
    using sealed head by metis
  moreover have "\<exists>ee. pt = ee @ inner \<and> (frame ! 3 AND PROP_ENC_EXT = 0 \<longrightarrow> ee = [])"
    using pt by (auto split: if_splits) (metis append_take_drop_id)
  ultimately show ?thesis by blast
qed

section \<open>Two peers in lockstep\<close>

text \<open>
  The configurations of two peers for each other, and the two ways in which they are ready to
  exchange messages: they share a generator, or the first one holds an entropy input the second
  one issued.
\<close>

definition mirrored :: "PeerConfig \<Rightarrow> PeerConfig \<Rightarrow> bool" where
  "mirrored f g \<longleftrightarrow> pc_classKey f = pc_classKey g \<and> pc_personalization f = pc_personalization g \<and>
     pc_homeId f = pc_homeId g \<and> pc_ourNodeId f = pc_peerNodeId g \<and> pc_peerNodeId f = pc_ourNodeId g"

lemma mirrored_sym: "mirrored f g \<Longrightarrow> mirrored g f"
  by (simp add: mirrored_def)

definition shared_span :: "Peer \<Rightarrow> Peer \<Rightarrow> bool" where
  "shared_span p q \<longleftrightarrow> (\<exists>s. pr_span p = Some s \<and> pr_span q = Some s)"

definition issued_to :: "Peer \<Rightarrow> Peer \<Rightarrow> bool" where
  "issued_to p q \<longleftrightarrow> pr_span p = None \<and>
     (\<exists>rei. pr_peerRei p = Some rei \<and> pr_ourRei q = Some rei)"

lemma shared_span_sym: "shared_span p q \<Longrightarrow> shared_span q p"
  by (auto simp: shared_span_def)

lemma peerState_setPeer [simp]: "peerState a (setPeer b p M) = (if a = b then p else peerState a M)"
  by (simp add: peerState_def setPeer_def)

lemma peerState_draws [simp]: "peerState a (M\<lparr>sm_draws := n\<rparr>) = peerState a M"
  by (simp add: peerState_def)

lemma entropy_setPeer [simp]: "sm_entropy (setPeer a p M) = sm_entropy M"
  by (simp add: setPeer_def)

definition entropy_ok :: "SpanManager \<Rightarrow> bool" where
  "entropy_ok M \<longleftrightarrow> (\<forall>i. length (sm_entropy M i) = EI_SIZE)"

lemma entropy_ok_setPeer [simp]: "entropy_ok (setPeer a p M) = entropy_ok M"
  "entropy_ok (M\<lparr>sm_draws := n\<rparr>) = entropy_ok M"
  by (simp_all add: entropy_ok_def)

lemma nonce_report_decodes:
  assumes "entropy_ok M"
  shows "\<exists>r. decodeNonceReport (fst (respondToNonceGet peer M)) = Some r \<and> nr_sos r \<and>
    nr_rei r = Some (sm_entropy M (sm_draws M))"
proof -
  define r where "r = \<lparr>nr_sequenceNumber = pr_txSequence (peerState peer M), nr_sos = True, nr_mos = False,
      nr_rei = Some (sm_entropy M (sm_draws M))\<rparr>"
  have "nonceReport_ok r" using assms by (simp add: r_def nonceReport_ok_def entropy_ok_def)
  then have "decodeNonceReport (encodeNonceReport r) = Some r" by (rule nonceReport_codec.dec_enc)
  moreover have "fst (respondToNonceGet peer M) = encodeNonceReport r"
    by (simp add: respondToNonceGet_def drawEntropy_def Let_def r_def)
  ultimately show ?thesis by (auto simp: r_def)
qed

text \<open>The receiver's view of one frame, as the callers of \<open>receiveNonce\<close> assemble it.\<close>

definition receiveFrame :: "libcrypto2 \<Rightarrow> byte \<Rightarrow> bytes \<Rightarrow> SpanManager \<Rightarrow> bytes option \<times> SpanManager" where
  "receiveFrame c peer frame M =
     (case receiveNonce c peer frame M of
        (None, M1) \<Rightarrow> (None, M1)
      | (Some nonce, M1) \<Rightarrow>
          let cfg = pr_config (peerState peer M1);
              ctx = \<lparr>ec_senderNodeId = pc_peerNodeId cfg, ec_receiverNodeId = pc_ourNodeId cfg,
                     ec_homeId = pc_homeId cfg, ec_sequenceNumber = frame ! 2\<rparr>
          in (S2_decrypt c frame ctx (pc_classKey cfg) nonce, M1))"

lemma S2_encrypt_head:
  "S2_encrypt c inner ctx key nonce ne ee ! 0 = CC_SECURITY_2"
  "S2_encrypt c inner ctx key nonce ne ee ! 1 = CMD_ENCAP"
  "S2_encrypt c inner ctx key nonce ne [] ! 3 AND PROP_EXT \<noteq> 0 \<longleftrightarrow> ne \<noteq> []"
  "12 \<le> length (S2_encrypt c inner ctx key nonce ne ee)"
  "\<exists>ct. drop 4 (S2_encrypt c inner ctx key nonce ne ee) = ne @ ct"
  by (simp_all add: S2_encrypt_def Let_def encap_defs)

lemma isEncap_encrypt: "isEncap (S2_encrypt c inner ctx key nonce ne ee)"
  by (simp add: isEncap_def S2_encrypt_def Let_def encap_defs)

lemma establishFromFrame_plain:
  "frame ! 3 AND PROP_EXT = 0 \<Longrightarrow> establishFromFrame c frame p = p"
  by (simp add: establishFromFrame_def split: option.splits)

lemma establishFromFrame_span:
  assumes "isEncap frame" and "frame ! 3 AND PROP_EXT \<noteq> 0" and "pr_ourRei p = Some rei"
    and "drop 4 frame = encodeSpanExtension sei @ rest" and "length sei = EI_SIZE"
  shows "establishFromFrame c frame p =
    p\<lparr>pr_span := Some (span_instantiate c sei rei (pc_personalization (pr_config p))), pr_ourRei := None\<rparr>"
  using assms by (simp add: establishFromFrame_def S2_HEADER_SIZE_def findSpan_encode)

text \<open>
  The generator a sender uses and the one its peer arrives at from the frame are the same, in
  either of the two ready states.
\<close>

lemma establish_pair:
  assumes "entropy_ok A" and "mirrored (pr_config p) (pr_config q)" and "shared_span p q \<or> issued_to p q"
  shows "\<exists>ext s p1 A1. establishForSend c p A = Some (ext, s, p1, A1) \<and> pr_config p1 = pr_config p \<and>
    entropy_ok A1 \<and> ext_chain ext \<and>
    (\<forall>frame rest. isEncap frame \<longrightarrow> (frame ! 3 AND PROP_EXT \<noteq> 0 \<longleftrightarrow> ext \<noteq> []) \<longrightarrow> drop 4 frame = ext @ rest \<longrightarrow>
       pr_span (establishFromFrame c frame q) = Some s \<and>
       pr_config (establishFromFrame c frame q) = pr_config q)"
  using assms(3)
proof
  assume "shared_span p q"
  then obtain s where "pr_span p = Some s" "pr_span q = Some s" by (auto simp: shared_span_def)
  then show ?thesis
    using assms(1) by (intro exI [of _ "[]"] exI [of _ s] exI [of _ p] exI [of _ A])
      (simp add: establishForSend_def establishFromFrame_plain ext_chain_def)
next
  assume "issued_to p q"
  then obtain rei where rei: "pr_span p = None" "pr_peerRei p = Some rei" "pr_ourRei q = Some rei"
    by (auto simp: issued_to_def)
  define sei where "sei = sm_entropy A (sm_draws A)"
  define s where "s = span_instantiate c sei rei (pc_personalization (pr_config p))"
  have sei: "length sei = EI_SIZE" using assms(1) by (simp add: sei_def entropy_ok_def)
  have pers: "pc_personalization (pr_config p) = pc_personalization (pr_config q)"
    using assms(2) by (simp add: mirrored_def)
  have "establishForSend c p A =
      Some (encodeSpanExtension sei, s, p\<lparr>pr_span := Some s, pr_peerRei := None\<rparr>, A\<lparr>sm_draws := sm_draws A + 1\<rparr>)"
    using rei by (simp add: establishForSend_def drawEntropy_def sei_def s_def Let_def)
  moreover have "encodeSpanExtension sei \<noteq> []" by (simp add: encodeSpanExtension_def)
  ultimately show ?thesis
    using rei sei pers assms(1)
    by (intro exI [of _ "encodeSpanExtension sei"] exI [of _ s] exI [of _ "p\<lparr>pr_span := Some s, pr_peerRei := None\<rparr>"]
        exI [of _ "A\<lparr>sm_draws := sm_draws A + 1\<rparr>"]) (auto simp: ext_chains establishFromFrame_span s_def)
qed

text \<open>One message, in either of the two ready states.\<close>

lemma message_step:
  assumes "ccm_opens c" and "entropy_ok A" and "inner \<noteq> []"
    and "mirrored (pr_config (peerState b A)) (pr_config (peerState a B))"
    and "shared_span (peerState b A) (peerState a B) \<or> issued_to (peerState b A) (peerState a B)"
  shows "\<exists>frame A' B'. sm_encrypt c b inner A = (Some frame, A') \<and>
    receiveFrame c a frame B = (Some inner, B') \<and> entropy_ok A' \<and> (entropy_ok B \<longrightarrow> entropy_ok B') \<and>
    shared_span (peerState b A') (peerState a B') \<and>
    pr_config (peerState b A') = pr_config (peerState b A) \<and>
    pr_config (peerState a B') = pr_config (peerState a B)"
proof -
  define p q where "p = peerState b A" and "q = peerState a B"
  have mir: "mirrored (pr_config p) (pr_config q)" using assms(4) by (simp add: p_def q_def)
  obtain ext s p1 A1 where est: "establishForSend c p A = Some (ext, s, p1, A1)"
      and p1: "pr_config p1 = pr_config p" "entropy_ok A1" and chain: "ext_chain ext"
      and rcv: "\<And>frame rest. isEncap frame \<Longrightarrow> (frame ! 3 AND PROP_EXT \<noteq> 0 \<longleftrightarrow> ext \<noteq> []) \<Longrightarrow>
          drop 4 frame = ext @ rest \<Longrightarrow> pr_span (establishFromFrame c frame q) = Some s \<and>
          pr_config (establishFromFrame c frame q) = pr_config q"
    using establish_pair [OF assms(2) mir] assms(5) unfolding p_def q_def by blast
  obtain nonce s1 where nonce: "truncatedNonce c s = (nonce, s1)" by (rule prod.exhaust)
  define ctx where "ctx = \<lparr>ec_senderNodeId = pc_ourNodeId (pr_config p), ec_receiverNodeId = pc_peerNodeId (pr_config p),
      ec_homeId = pc_homeId (pr_config p), ec_sequenceNumber = pr_txSequence p1\<rparr>"
  define frame where "frame = S2_encrypt c inner ctx (pc_classKey (pr_config p)) nonce ext []"
  define A' where "A' = setPeer b (p1\<lparr>pr_txSequence := pr_txSequence p1 + 1, pr_span := Some s1\<rparr>) A1"
  define q1 where "q1 = (establishFromFrame c frame q)\<lparr>pr_span := Some s1\<rparr>"
  have enc: "sm_encrypt c b inner A = (Some frame, A')"
    by (simp add: sm_encrypt_def p_def [symmetric] est Let_def p1 nonce frame_def ctx_def A'_def)
  obtain ct where "drop 4 frame = ext @ ct"
    using S2_encrypt_head(5) unfolding frame_def by blast
  moreover have "isEncap frame" "frame ! 3 AND PROP_EXT \<noteq> 0 \<longleftrightarrow> ext \<noteq> []"
    by (simp_all add: frame_def isEncap_encrypt S2_encrypt_head)
  ultimately have q: "pr_span (establishFromFrame c frame q) = Some s"
      "pr_config (establishFromFrame c frame q) = pr_config q"
    using rcv by blast+
  have rn: "receiveNonce c a frame B = (Some nonce, setPeer a q1 B)"
    by (simp add: receiveNonce_def Let_def q_def [symmetric] q nonce q1_def)
  have "S2_decrypt c frame \<lparr>ec_senderNodeId = pc_peerNodeId (pr_config q), ec_receiverNodeId = pc_ourNodeId (pr_config q),
      ec_homeId = pc_homeId (pr_config q), ec_sequenceNumber = frame ! 2\<rparr> (pc_classKey (pr_config q)) nonce = Some inner"
    using mir assms(1,3) chain unfolding frame_def mirrored_def
    by (auto intro!: S2_roundtrip_core simp: ctx_def ext_chain_def [of "[]"])
  then have "receiveFrame c a frame B = (Some inner, setPeer a q1 B)"
    by (simp add: receiveFrame_def rn Let_def q1_def q)
  with enc show ?thesis
    by (intro exI [of _ frame] exI [of _ A'] exI [of _ "setPeer a q1 B"])
      (simp add: A'_def q1_def q p1 shared_span_def p_def [symmetric] q_def [symmetric])
qed

text \<open>
  A conversation: each entry names the speaker (\<open>True\<close> for the first side) and the command; the
  frame is built by the speaker and handed to the other side before the next one is built.
\<close>

definition speak ::
  "libcrypto2 \<Rightarrow> byte \<Rightarrow> byte \<Rightarrow> bytes \<Rightarrow> SpanManager \<Rightarrow> SpanManager \<Rightarrow> bytes option \<times> SpanManager \<times> SpanManager" where
  "speak c a b inner A B =
     (case sm_encrypt c b inner A of
        (None, A1) \<Rightarrow> (None, A1, B)
      | (Some frame, A1) \<Rightarrow> (case receiveFrame c a frame B of (r, B1) \<Rightarrow> (r, A1, B1)))"

fun converse ::
  "libcrypto2 \<Rightarrow> byte \<Rightarrow> byte \<Rightarrow> (bool \<times> bytes) list \<Rightarrow> SpanManager \<Rightarrow> SpanManager \<Rightarrow> bytes option list" where
  "converse c a b [] A B = []"
| "converse c a b ((True, inner) # msgs) A B =
     (case speak c a b inner A B of (r, A1, B1) \<Rightarrow> r # converse c a b msgs A1 B1)"
| "converse c a b ((False, inner) # msgs) A B =
     (case speak c b a inner B A of (r, B1, A1) \<Rightarrow> r # converse c a b msgs A1 B1)"

lemma speak_step:
  assumes "ccm_opens c" and "entropy_ok A" and "entropy_ok B" and "inner \<noteq> []"
    and "mirrored (pr_config (peerState b A)) (pr_config (peerState a B))"
    and "shared_span (peerState b A) (peerState a B) \<or> issued_to (peerState b A) (peerState a B)"
  shows "\<exists>A' B'. speak c a b inner A B = (Some inner, A', B') \<and> entropy_ok A' \<and> entropy_ok B' \<and>
    shared_span (peerState b A') (peerState a B') \<and>
    mirrored (pr_config (peerState b A')) (pr_config (peerState a B'))"
  using message_step [OF assms(1,2,4,5,6)] assms(3,5) by (fastforce simp: speak_def)

lemma converse_shared:
  assumes "ccm_opens c"
  shows "entropy_ok A \<Longrightarrow> entropy_ok B \<Longrightarrow> list_all (\<lambda>(_, inner). inner \<noteq> []) msgs \<Longrightarrow>
    mirrored (pr_config (peerState b A)) (pr_config (peerState a B)) \<Longrightarrow>
    shared_span (peerState b A) (peerState a B) \<Longrightarrow>
    converse c a b msgs A B = map (\<lambda>(_, inner). Some inner) msgs"
proof (induction msgs arbitrary: A B)
  case (Cons m msgs)
  obtain fromA inner where m: "m = (fromA, inner)" by (rule prod.exhaust)
  note ready = Cons.prems(1,2) Cons.prems(4,5) mirrored_sym [OF Cons.prems(4)] shared_span_sym [OF Cons.prems(5)]
  have inner: "inner \<noteq> []" "list_all (\<lambda>(_, inner). inner \<noteq> []) msgs"
    using Cons.prems(3) by (simp_all add: m)
  show ?case
  proof (cases fromA)
    case True
    obtain A' B' where "speak c a b inner A B = (Some inner, A', B')" "entropy_ok A'" "entropy_ok B'"
      "shared_span (peerState b A') (peerState a B')"
      "mirrored (pr_config (peerState b A')) (pr_config (peerState a B'))"
      using speak_step [OF assms ready(1,2) inner(1) ready(3)] ready(4) by blast
    then show ?thesis using Cons.IH inner by (simp add: m True)
  next
    case False
    obtain B' A' where "speak c b a inner B A = (Some inner, B', A')" "entropy_ok B'" "entropy_ok A'"
      "shared_span (peerState a B') (peerState b A')"
      "mirrored (pr_config (peerState a B')) (pr_config (peerState b A'))"
      using speak_step [OF assms ready(2,1) inner(1) ready(5)] ready(6) by blast
    then show ?thesis using Cons.IH inner mirrored_sym shared_span_sym by (simp add: m False)
  qed
qed simp

section \<open>Properties\<close>

text \<open>
  An S2 encapsulation is decrypted to the command that was put in, with any chain of
  unencrypted and of encrypted extensions around it, by a receiver that uses the same key, nonce,
  node ids and home id; the sequence number is taken from the frame.
\<close>

theorem s2_roundtrip:
  assumes "ccm_opens c" and "ext_chain ne" and "ext_chain ee" and "inner \<noteq> []"
  shows "S2_decrypt c (S2_encrypt c inner ctx key nonce ne ee) (ctx\<lparr>ec_sequenceNumber := n\<rparr>) key nonce = Some inner"
  using assms by (intro S2_roundtrip_core) simp_all

theorem s2_roundtrip_witness:
  "S2_decrypt toyCrypto2
     (S2_encrypt toyCrypto2 [0x25, 1, 0xFF] \<lparr>ec_senderNodeId = 1, ec_receiverNodeId = 5, ec_homeId = [1, 2, 3, 4],
         ec_sequenceNumber = 9\<rparr> (replicate 16 7) (replicate 13 8) (encodeMgrpExtension 3)
       (encodeMpanExtension 3 (replicate 16 6)))
     (\<lparr>ec_senderNodeId = 1, ec_receiverNodeId = 5, ec_homeId = [1, 2, 3, 4], ec_sequenceNumber = 9\<rparr>
        \<lparr>ec_sequenceNumber := 0\<rparr>) (replicate 16 7) (replicate 13 8) = Some [0x25, 1, 0xFF]"
  by (rule s2_roundtrip) (simp_all add: toyCrypto2_opens ext_chains S2_BLOCK_SIZE_def)


definition demoContext :: EncapContext where
  "demoContext = \<lparr>ec_senderNodeId = 1, ec_receiverNodeId = 5, ec_homeId = [1, 2, 3, 4], ec_sequenceNumber = 9\<rparr>"

definition demoFrame :: bytes where
  "demoFrame = S2_encrypt toyCrypto2 [0x25, 2] demoContext (replicate 16 7) (replicate 13 8) [] []"

lemma demoFrame_decrypts:
  "S2_decrypt toyCrypto2 demoFrame demoContext (replicate 16 7) (replicate 13 8) = Some [0x25, 2]"
  unfolding demoFrame_def by (rule S2_roundtrip_core) (simp_all add: toyCrypto2_opens ext_chain_def)


text \<open>
  C16: two peers stay in lockstep. Once one side has answered a nonce request of the other, the
  two can exchange any number of commands in any order of speaking, without a further nonce
  exchange, and each command is decrypted by the other side.
\<close>

theorem s2_conversation:
  assumes "ccm_opens c" and "entropy_ok A" and "entropy_ok B"
    and "mirrored (pr_config (peerState b A)) (pr_config (peerState a B))"
    and "pr_span (peerState b A) = None"
    and "respondToNonceGet a B = (report, B1)" and "decodeNonceReport report = Some r"
    and "first \<noteq> []" and "list_all (\<lambda>(_, inner). inner \<noteq> []) msgs"
  shows "converse c a b ((True, first) # msgs) (acceptNonceReport b r A) B1 =
    Some first # map (\<lambda>(_, inner). Some inner) msgs"
proof -
  let ?A = "acceptNonceReport b r A"
  define rei where "rei = sm_entropy B (sm_draws B)"
  have r: "nr_sos r" "nr_rei r = Some rei"
    using nonce_report_decodes [OF assms(3), of a] assms(6,7) by (auto simp: rei_def)
  have B1: "pr_ourRei (peerState a B1) = Some rei" "pr_config (peerState a B1) = pr_config (peerState a B)"
      "entropy_ok B1"
    using assms(3,6) by (auto simp: respondToNonceGet_def drawEntropy_def Let_def rei_def)
  have A: "pr_peerRei (peerState b ?A) = Some rei" "pr_span (peerState b ?A) = None"
      "pr_config (peerState b ?A) = pr_config (peerState b A)" "entropy_ok ?A"
    using assms(2,5) r by (simp_all add: acceptNonceReport_def)
  have mir: "mirrored (pr_config (peerState b ?A)) (pr_config (peerState a B1))"
    using assms(4) by (simp add: A B1)
  have "issued_to (peerState b ?A) (peerState a B1)" by (simp add: issued_to_def A B1)
  with speak_step [OF assms(1) A(4) B1(3) assms(8) mir] obtain A' B' where
    "speak c a b first ?A B1 = (Some first, A', B')" "entropy_ok A'" "entropy_ok B'"
    "shared_span (peerState b A') (peerState a B')"
    "mirrored (pr_config (peerState b A')) (pr_config (peerState a B'))" by blast
  then show ?thesis
    using converse_shared [OF assms(1)] assms(9) by simp
qed

definition demoConfig :: "byte \<Rightarrow> byte \<Rightarrow> PeerConfig" where
  "demoConfig us them = \<lparr>pc_classKey = replicate 16 7, pc_personalization = replicate 32 3,
     pc_homeId = [1, 2, 3, 4], pc_ourNodeId = us, pc_peerNodeId = them\<rparr>"

definition demoManager :: "byte \<Rightarrow> byte \<Rightarrow> SpanManager" where
  "demoManager us them = configurePeer them (demoConfig us them) (newSpanManager (\<lambda>i. replicate 16 us))"

lemma demoManager_facts:
  "entropy_ok (demoManager us them)" "pr_config (peerState them (demoManager us them)) = demoConfig us them"
  "pr_span (peerState them (demoManager us them)) = None"
  by (simp_all add: demoManager_def configurePeer_def newSpanManager_def entropy_ok_def EI_SIZE_def
      peerState_def setPeer_def defaultPeer_def)

theorem s2_conversation_witness:
  "converse toyCrypto2 1 5 [(True, [0x25, 2]), (False, [0x25, 3, 0xFF]), (True, [0x20, 2]), (True, [0x20, 1, 0])]
     (acceptNonceReport 5 \<lparr>nr_sequenceNumber = 0, nr_sos = True, nr_mos = False, nr_rei = Some (replicate 16 5)\<rparr>
        (demoManager 1 5))
     (snd (respondToNonceGet 1 (demoManager 5 1))) =
   [Some [0x25, 2], Some [0x25, 3, 0xFF], Some [0x20, 2], Some [0x20, 1, 0]]"
proof -
  have "decodeNonceReport (fst (respondToNonceGet 1 (demoManager 5 1))) =
      Some \<lparr>nr_sequenceNumber = 0, nr_sos = True, nr_mos = False, nr_rei = Some (replicate 16 5)\<rparr>"
    by code_simp
  then show ?thesis
    using s2_conversation [where c = toyCrypto2 and A = "demoManager 1 5" and B = "demoManager 5 1" and
        a = 1 and b = 5 and report = "fst (respondToNonceGet 1 (demoManager 5 1))" and
        ?B1.0 = "snd (respondToNonceGet 1 (demoManager 5 1))" and first = "[0x25, 2]" and
        msgs = "[(False, [0x25, 3, 0xFF]), (True, [0x20, 2]), (True, [0x20, 1, 0])]" and
        r = "\<lparr>nr_sequenceNumber = 0, nr_sos = True, nr_mos = False, nr_rei = Some (replicate 16 5)\<rparr>"]
    by (simp add: demoManager_facts toyCrypto2_opens mirrored_def demoConfig_def del: converse.simps)
qed

text \<open>The frames of a sequence of commands to one peer.\<close>

fun encryptAll :: "libcrypto2 \<Rightarrow> byte \<Rightarrow> bytes list \<Rightarrow> SpanManager \<Rightarrow> bytes option list" where
  "encryptAll c peer [] M = []"
| "encryptAll c peer (inner # inners) M =
     (case sm_encrypt c peer inner M of (f, M1) \<Rightarrow> f # encryptAll c peer inners M1)"

definition same_but_rei :: "Peer \<Rightarrow> Peer \<Rightarrow> bool" where
  "same_but_rei p q \<longleftrightarrow> pr_span p \<noteq> None \<and> (\<exists>x. q = p\<lparr>pr_peerRei := x\<rparr>)"

lemma encrypt_same_but_rei:
  assumes "same_but_rei (peerState peer M) (peerState peer N)"
  shows "fst (sm_encrypt c peer inner M) = fst (sm_encrypt c peer inner N) \<and>
    same_but_rei (peerState peer (snd (sm_encrypt c peer inner M))) (peerState peer (snd (sm_encrypt c peer inner N)))"
proof -
  obtain x s where N: "peerState peer N = (peerState peer M)\<lparr>pr_peerRei := x\<rparr>"
      and s: "pr_span (peerState peer M) = Some s"
    using assms by (auto simp: same_but_rei_def)
  show ?thesis
    by (cases "truncatedNonce c s")
      (simp add: sm_encrypt_def Let_def establishForSend_def N s same_but_rei_def, rule exI [of _ x], simp)
qed

lemma encryptAll_same_but_rei:
  "same_but_rei (peerState peer M) (peerState peer N) \<Longrightarrow>
   encryptAll c peer inners M = encryptAll c peer inners N"
proof (induction inners arbitrary: M N)
  case (Cons inner inners)
  note step = encrypt_same_but_rei [OF Cons.prems, of c inner]
  then show ?case using Cons.IH [of "snd (sm_encrypt c peer inner M)" "snd (sm_encrypt c peer inner N)"]
    by (auto split: prod.splits)
qed simp

lemma accept_same_but_rei:
  "pr_span (peerState peer M) \<noteq> None \<Longrightarrow>
   same_but_rei (peerState peer M) (peerState peer (fold (acceptNonceReport peer) reports M))"
proof (induction reports rule: rev_induct)
  case Nil
  then show ?case by (auto simp: same_but_rei_def intro: exI [of _ "pr_peerRei (peerState peer M)"])
next
  case (snoc r reports)
  then show ?case
    by (auto simp: same_but_rei_def acceptNonceReport_def)
qed

text \<open>
  An out-of-sync report is not acted on while a generator exists. Whatever the peer reports,
  and however many reports arrive, every later frame to it is the one that would have been sent
  without the report: the stored entropy input waits for a generator that is never discarded.
\<close>

theorem sos_ignored:
  assumes "hasSpan peer M"
  shows "encryptAll c peer inners (fold (acceptNonceReport peer) reports M) = encryptAll c peer inners M"
proof -
  have "pr_span (peerState peer M) \<noteq> None"
    using assms by (auto simp: hasSpan_def peerState_def split: option.splits)
  then show ?thesis
    using encryptAll_same_but_rei [OF accept_same_but_rei] by metis
qed

theorem sos_ignored_witness:
  "encryptAll toyCrypto2 5 [[0x25, 2], [0x20, 2]]
     (fold (acceptNonceReport 5) [\<lparr>nr_sequenceNumber = 1, nr_sos = True, nr_mos = False,
         nr_rei = Some (replicate 16 6)\<rparr>] (importSpan 5 (replicate 32 4) (demoManager 1 5))) =
   encryptAll toyCrypto2 5 [[0x25, 2], [0x20, 2]] (importSpan 5 (replicate 32 4) (demoManager 1 5))"
  by (rule sos_ignored) (simp add: hasSpan_def importSpan_def setPeer_def)

text \<open>
  A multicast round. A member that was given the group's state by the MPAN extension finds the
  group id in the frame and decrypts it with the nonce it draws from that state; the round moves
  the sender's counter by two. The nonce is drawn under the key that also seals the frame.
\<close>

theorem multicast_round:
  assumes "ccm_opens c" and "inner \<noteq> []" and "length (gen_state (mc_generator S)) = S2_BLOCK_SIZE"
    and "multicastFrame c inner sq S = (frame, S')"
  shows "\<exists>st. findMpanExtension (mpanExtension S) = Some (mc_groupId S, st) \<and>
    findMgrpExtension (drop 4 frame) = Some (mc_groupId S) \<and>
    S2_decrypt c frame \<lparr>ec_senderNodeId = mc_senderNodeId S, ec_receiverNodeId = mc_groupId S,
        ec_homeId = mc_homeId S, ec_sequenceNumber = frame ! 2\<rparr> (mc_classKeyCcm S)
      (fst (mpan_nextNonce c (mc_classKeyCcm S) \<lparr>gen_state = st\<rparr>)) = Some inner \<and>
    beValue (gen_state (mc_generator S')) = (beValue st + 2) mod 2 ^ 128"
proof -
  define st where "st = gen_state (mc_generator S)"
  define nonce where "nonce = fst (mpan_nextNonce c (mc_classKeyCcm S) \<lparr>gen_state = st\<rparr>)"
  define ctx where "ctx = \<lparr>ec_senderNodeId = mc_senderNodeId S, ec_receiverNodeId = mc_groupId S,
      ec_homeId = mc_homeId S, ec_sequenceNumber = sq\<rparr>"
  have st: "length st = S2_BLOCK_SIZE" using assms(3) by (simp add: st_def)
  have f: "frame = S2_encrypt c inner ctx (mc_classKeyCcm S) nonce (encodeMgrpExtension (mc_groupId S)) []"
    and S': "gen_state (mc_generator S') = (incrementCounter ^^ 2) st"
    using assms(4)
    by (auto simp: multicastFrame_def followUpExtension_def mpan_nextNonce_def mpan_advance_def Let_def
        ADVANCE_PER_ROUND_def nonce_def ctx_def st_def numeral_2_eq_2)
  have "findMpanExtension (mpanExtension S) = Some (mc_groupId S, st)"
    using findMpan_encode [OF st, of _ "[]"] by (simp add: mpanExtension_def st_def)
  moreover obtain ct where "drop 4 frame = encodeMgrpExtension (mc_groupId S) @ ct"
    using S2_encrypt_head(5) unfolding f by blast
  then have "findMgrpExtension (drop 4 frame) = Some (mc_groupId S)" by (simp add: findMgrp_encode)
  moreover have "S2_decrypt c frame \<lparr>ec_senderNodeId = mc_senderNodeId S, ec_receiverNodeId = mc_groupId S,
      ec_homeId = mc_homeId S, ec_sequenceNumber = frame ! 2\<rparr> (mc_classKeyCcm S) nonce = Some inner"
    unfolding f using assms(1,2) by (intro S2_roundtrip_core) (simp_all add: ext_chains ext_chain_def [of "[]"] ctx_def)
  moreover have "beValue (gen_state (mc_generator S')) = (beValue st + 2) mod 2 ^ 128"
    using beValue_iterate [of 2 st] st by (simp add: S' S2_BLOCK_SIZE_def)
  ultimately show ?thesis unfolding nonce_def by blast
qed

definition demoGroup :: MulticastSession where
  "demoGroup = \<lparr>mc_groupId = 3, mc_senderNodeId = 1, mc_homeId = [1, 2, 3, 4], mc_classKeyCcm = replicate 16 7,
     mc_generator = \<lparr>gen_state = replicate 16 0xFF\<rparr>\<rparr>"

theorem multicast_round_witness:
  "\<exists>st. findMpanExtension (mpanExtension demoGroup) = Some (mc_groupId demoGroup, st) \<and>
    findMgrpExtension (drop 4 (fst (multicastFrame toyCrypto2 [0x20, 1, 0] 8 demoGroup))) = Some (mc_groupId demoGroup) \<and>
    beValue (gen_state (mc_generator (snd (multicastFrame toyCrypto2 [0x20, 1, 0] 8 demoGroup)))) =
      (beValue st + 2) mod 2 ^ 128"
  using multicast_round [OF toyCrypto2_opens _ _ prod.collapse [symmetric], of "[0x20, 1, 0]" demoGroup 8]
  by (auto simp: demoGroup_def S2_BLOCK_SIZE_def)

end
