(* ===== verification/S0_Orchestrators.thy ===== *)
theory S0_Orchestrators
  imports Cc_Translator S2_Session
begin

text \<open>
  The two orchestrators of Security S0: \<open>SecurityBootstrapOrchestrator.cpp\<close>, which hands the
  network key to a joining node, and \<open>SecurityOutboundOrchestrator.cpp\<close>, which encrypts
  commands for secure nodes, one nonce of the node per command. Both react to events of the message
  bus and return what they publish. The network key of the process, the bytes that
  \<open>RAND_bytes\<close> leaves and the registry's security schemes are arguments or fields. Log lines
  are not modelled.
\<close>

section \<open>Shared parts\<close>

definition SECURITY_SCHEME_GET :: byte where "SECURITY_SCHEME_GET = 0x04"
definition SECURITY_SCHEME_REPORT :: byte where "SECURITY_SCHEME_REPORT = 0x05"
definition SECURITY_NETWORK_KEY_SET :: byte where "SECURITY_NETWORK_KEY_SET = 0x06"
definition SECURITY_NETWORK_KEY_VERIFY :: byte where "SECURITY_NETWORK_KEY_VERIFY = 0x07"

lemmas s0_command_defs = CC_SECURITY_def SECURITY_NONCE_GET_def SECURITY_NONCE_REPORT_def
  SECURITY_MESSAGE_ENCAPSULATION_def SECURITY_SCHEME_GET_def SECURITY_SCHEME_REPORT_def
  SECURITY_NETWORK_KEY_SET_def SECURITY_NETWORK_KEY_VERIFY_def

datatype s0action = S0Send SendDataCommand | S0SecurityStatus byte byte

text \<open>A \<open>Nonce\<close> is an array of eight bytes; \<open>drawn\<close> is what \<open>RAND_bytes\<close> writes into it.\<close>

definition S0_randomNonce :: "bytes \<Rightarrow> Nonce" where
  "S0_randomNonce drawn = writtenInto NONCE_SIZE drawn"

lemma length_randomNonce [simp]: "length (S0_randomNonce drawn) = 8"
  by (simp add: S0_randomNonce_def NONCE_SIZE_def)

definition sendPlaintext :: "byte \<Rightarrow> bytes \<Rightarrow> s0action list" where
  "sendPlaintext nodeId payload =
     [S0Send \<lparr>sdc_nodeId = nodeId, sdc_payload = payload, sdc_callbackId = NO_CALLBACK\<rparr>]"

section \<open>Bootstrap\<close>

datatype S0Phase = AwaitSchemeReport | AwaitNonceReport | AwaitVerify

record S0Bootstrap =
  sb_sessions :: "byte \<rightharpoonup> S0Phase"
  sb_controllerNodeId :: byte
  sb_key :: "bytes option"
  sb_registry :: schemeRegistry

definition s0boot_onNodeIncluded :: "byte \<Rightarrow> bytes \<Rightarrow> S0Bootstrap \<Rightarrow> s0action list \<times> S0Bootstrap" where
  "s0boot_onNodeIncluded nodeId ccs st =
     (if CC_SECURITY \<notin> set ccs then ([], st)
      else if sb_key st = None then ([], st)
      else (sendPlaintext nodeId [CC_SECURITY, SECURITY_SCHEME_GET, 0x00],
            st\<lparr>sb_sessions := (sb_sessions st)(nodeId \<mapsto> AwaitSchemeReport)\<rparr>))"

text \<open>The temporary key of the key transfer: all zero.\<close>

definition S0_tempKey :: bytes where
  "S0_tempKey = replicate 16 0"

definition sendNetworkKeySet ::
  "libcrypto \<Rightarrow> bytes \<Rightarrow> byte \<Rightarrow> Nonce \<Rightarrow> S0Bootstrap \<Rightarrow> s0action list \<times> S0Bootstrap" where
  "sendNetworkKeySet c drawn nodeId nodeNonce st =
     (case sb_key st of
        None \<Rightarrow> ([], st\<lparr>sb_sessions := (sb_sessions st)(nodeId := None)\<rparr>)
      | Some realKey \<Rightarrow>
          let inner = [CC_SECURITY, SECURITY_NETWORK_KEY_SET] @ realKey;
              frame = S0_encrypt c inner (sb_controllerNodeId st) nodeId (S0_randomNonce drawn) nodeNonce S0_tempKey
          in ([S0Send \<lparr>sdc_nodeId = nodeId, sdc_payload = frame, sdc_callbackId = NO_CALLBACK\<rparr>], st))"

definition s0boot_onApplicationCommand ::
  "libcrypto \<Rightarrow> bytes \<Rightarrow> byte \<Rightarrow> bytes \<Rightarrow> S0Bootstrap \<Rightarrow> s0action list \<times> S0Bootstrap" where
  "s0boot_onApplicationCommand c drawn node ccData st =
     (case sb_sessions st node of
        None \<Rightarrow> ([], st)
      | Some phase \<Rightarrow>
          (case Security_commandByte ccData of
             None \<Rightarrow> ([], st)
           | Some command \<Rightarrow>
               (case phase of
                  AwaitSchemeReport \<Rightarrow>
                    if command = SECURITY_SCHEME_REPORT
                    then (sendPlaintext node Security_encodeNonceGet,
                          st\<lparr>sb_sessions := (sb_sessions st)(node \<mapsto> AwaitNonceReport)\<rparr>)
                    else ([], st)
                | AwaitNonceReport \<Rightarrow>
                    if command = SECURITY_NONCE_REPORT
                    then (case Security_decodeNonceReport ccData of
                            None \<Rightarrow> ([], st)
                          | Some nodeNonce \<Rightarrow>
                              sendNetworkKeySet c drawn node nodeNonce
                                (st\<lparr>sb_sessions := (sb_sessions st)(node \<mapsto> AwaitVerify)\<rparr>))
                    else ([], st)
                | AwaitVerify \<Rightarrow>
                    if command = SECURITY_NETWORK_KEY_VERIFY
                    then ([S0SecurityStatus node (schemeNumber SchemeS0)],
                          st\<lparr>sb_registry := registry_setSecurityScheme node SchemeS0 (sb_registry st),
                             sb_sessions := (sb_sessions st)(node := None)\<rparr>)
                    else ([], st))))"

definition s0boot_onDongleInfo :: "byte \<Rightarrow> S0Bootstrap \<Rightarrow> S0Bootstrap" where
  "s0boot_onDongleInfo controllerNodeId st = st\<lparr>sb_controllerNodeId := controllerNodeId\<rparr>"

section \<open>Outbound\<close>

record S0Outbound =
  so_queues :: "byte \<rightharpoonup> (bytes \<times> byte) list"
  so_controllerNodeId :: byte
  so_key :: "bytes option"

definition requestNonce :: "byte \<Rightarrow> s0action list" where
  "requestNonce nodeId =
     [S0Send \<lparr>sdc_nodeId = nodeId, sdc_payload = Security_encodeNonceGet, sdc_callbackId = NO_CALLBACK\<rparr>]"

definition onSecureSendRequest :: "byte \<Rightarrow> bytes \<Rightarrow> byte \<Rightarrow> S0Outbound \<Rightarrow> s0action list \<times> S0Outbound" where
  "onSecureSendRequest nodeId payload callbackId st =
     (let queue = (case so_queues st nodeId of None \<Rightarrow> [] | Some q \<Rightarrow> q) in
      (if queue = [] then requestNonce nodeId else [],
       st\<lparr>so_queues := (so_queues st)(nodeId \<mapsto> queue @ [(payload, callbackId)])\<rparr>))"

definition s0out_onApplicationCommand ::
  "libcrypto \<Rightarrow> bytes \<Rightarrow> byte \<Rightarrow> bytes \<Rightarrow> S0Outbound \<Rightarrow> s0action list \<times> S0Outbound" where
  "s0out_onApplicationCommand c drawn node ccData st =
     (if Security_commandByte ccData \<noteq> Some SECURITY_NONCE_REPORT then ([], st)
      else case so_queues st node of
          None \<Rightarrow> ([], st)
        | Some [] \<Rightarrow> ([], st)
        | Some ((payload, callbackId) # rest) \<Rightarrow>
            (case (Security_decodeNonceReport ccData, so_key st) of
               (Some nodeNonce, Some key) \<Rightarrow>
                 let frame = S0_encrypt c payload (so_controllerNodeId st) node (S0_randomNonce drawn) nodeNonce key;
                     sent = [S0Send \<lparr>sdc_nodeId = node, sdc_payload = frame, sdc_callbackId = callbackId\<rparr>]
                 in if rest \<noteq> []
                    then (sent @ requestNonce node, st\<lparr>so_queues := (so_queues st)(node \<mapsto> rest)\<rparr>)
                    else (sent, st\<lparr>so_queues := (so_queues st)(node := None)\<rparr>)
             | _ \<Rightarrow> ([], st\<lparr>so_queues := (so_queues st)(node := None)\<rparr>)))"

definition s0out_onDongleInfo :: "byte \<Rightarrow> S0Outbound \<Rightarrow> S0Outbound" where
  "s0out_onDongleInfo controllerNodeId st = st\<lparr>so_controllerNodeId := controllerNodeId\<rparr>"

section \<open>Two daemons\<close>

text \<open>
  The commands of \<open>cs\<close> handed to the outbound orchestrator one after the other, and the rounds
  that follow. In a round the receiver answers the nonce request with a nonce it drew, the sender
  reacts to the report, and the receiver's translator gets what the sender sent. There is a next
  round only if the sender asked for a nonce again. Both clock readings of a round come from the
  receiver's clock.
\<close>

fun requestAllS0 :: "byte \<Rightarrow> (bytes \<times> byte) list \<Rightarrow> S0Outbound \<Rightarrow> s0action list \<times> S0Outbound" where
  "requestAllS0 b [] st = ([], st)"
| "requestAllS0 b ((p, cb) # cs) st =
     (case onSecureSendRequest b p cb st of
        (acts, st1) \<Rightarrow> (case requestAllS0 b cs st1 of (acts2, st2) \<Rightarrow> (acts @ acts2, st2)))"

fun sentTo :: "byte \<Rightarrow> s0action list \<Rightarrow> bytes list" where
  "sentTo b [] = []"
| "sentTo b (S0Send m # acts) = (if sdc_nodeId m = b then [sdc_payload m] else []) @ sentTo b acts"
| "sentTo b (_ # acts) = sentTo b acts"

fun deliverAll ::
  "libcrypto \<Rightarrow> (nat \<Rightarrow> int) \<Rightarrow> byte \<Rightarrow> bytes list \<Rightarrow> translator \<Rightarrow> fault + (busEvent list \<times> translator)" where
  "deliverAll c clock a [] tr = Inr ([], tr)"
| "deliverAll c clock a (f # fs) tr =
     (case deliver c clock a f tr of
        Inl e \<Rightarrow> Inl e
      | Inr (evs, tr1) \<Rightarrow>
          (case deliverAll c clock a fs tr1 of
             Inl e \<Rightarrow> Inl e
           | Inr (evs2, tr2) \<Rightarrow> Inr (evs @ evs2, tr2)))"

definition answerNonceGet :: "(nat \<Rightarrow> int) \<Rightarrow> byte \<Rightarrow> Nonce \<Rightarrow> translator \<Rightarrow> bytes list \<times> translator" where
  "answerNonceGet clock a rn tr =
     (case nonceResponder_onApplicationCommand rn (clock (tr_reads tr)) a Security_encodeNonceGet (tr_nonces tr) of
        (replies, t1) \<Rightarrow>
          (map sdc_payload replies, tr\<lparr>tr_nonces := t1, tr_reads := tr_reads tr + 1\<rparr>))"

fun outboundReacts ::
  "libcrypto \<Rightarrow> bytes \<Rightarrow> byte \<Rightarrow> bytes list \<Rightarrow> S0Outbound \<Rightarrow> s0action list \<times> S0Outbound" where
  "outboundReacts c sn b [] st = ([], st)"
| "outboundReacts c sn b (r # rs) st =
     (case s0out_onApplicationCommand c sn b r st of
        (acts, st1) \<Rightarrow> (case outboundReacts c sn b rs st1 of (acts2, st2) \<Rightarrow> (acts @ acts2, st2)))"

fun s0Rounds ::
  "libcrypto \<Rightarrow> (nat \<Rightarrow> int) \<Rightarrow> byte \<Rightarrow> byte \<Rightarrow> (Nonce \<times> bytes) list \<Rightarrow> s0action list \<Rightarrow>
   S0Outbound \<Rightarrow> translator \<Rightarrow> fault + (busEvent list \<times> S0Outbound \<times> translator)" where
  "s0Rounds c clock a b [] pending st tr = Inr ([], st, tr)"
| "s0Rounds c clock a b ((rn, sn) # ns) pending st tr =
     (if Security_encodeNonceGet \<notin> set (sentTo b pending) then Inr ([], st, tr)
      else case answerNonceGet clock a rn tr of
          (reports, tr1) \<Rightarrow>
            (case outboundReacts c sn b reports st of
               (acts, st1) \<Rightarrow>
                 (case deliverAll c clock a (sentTo b acts) tr1 of
                    Inl e \<Rightarrow> Inl e
                  | Inr (evs, tr2) \<Rightarrow>
                      (case s0Rounds c clock a b ns acts st1 tr2 of
                         Inl e \<Rightarrow> Inl e
                       | Inr (evs2, res) \<Rightarrow> Inr (evs @ evs2, res)))))"

lemma nonceReport_read [simp]:
  "Security_commandByte (Security_encodeNonceReport n) = Some SECURITY_NONCE_REPORT"
  "length n = 8 \<Longrightarrow> Security_decodeNonceReport (Security_encodeNonceReport n) = Some n"
  by (simp_all add: Security_commandByte_def Security_encodeNonceReport_def Security_decodeNonceReport_def
      NONCE_SIZE_def subspan_def)

lemma nonceGet_plain: "\<not> isWrapped Security_encodeNonceGet"
  by (simp add: isWrapped_def Security_encodeNonceGet_def s0_command_defs CC_CRC16_ENCAP_def
      CC_TRANSPORT_SERVICE_def)

lemma requestAllS0_queue:
  assumes "so_queues st b = (if q = [] then None else Some q)"
  shows "requestAllS0 b cs st =
    (if q = [] \<and> cs \<noteq> [] then requestNonce b else [],
     if cs = [] then st else st\<lparr>so_queues := (so_queues st)(b \<mapsto> q @ cs)\<rparr>)"
  using assms
proof (induction cs arbitrary: q st)
  case (Cons m cs)
  obtain p cb where m: "m = (p, cb)" by (rule prod.exhaust)
  let ?st1 = "st\<lparr>so_queues := (so_queues st)(b \<mapsto> q @ [m])\<rparr>"
  have "onSecureSendRequest b p cb st = (if q = [] then requestNonce b else [], ?st1)"
    using Cons.prems by (auto simp: onSecureSendRequest_def Let_def m)
  moreover have "requestAllS0 b cs ?st1 =
      ([], if cs = [] then ?st1 else ?st1\<lparr>so_queues := (so_queues ?st1)(b \<mapsto> (q @ [m]) @ cs)\<rparr>)"
    using Cons.IH [of ?st1 "q @ [m]"] by simp
  ultimately show ?case by (auto simp: m)
qed simp

text \<open>One command under one nonce.\<close>

lemma answerNonceGet_eq:
  "answerNonceGet clock a rn tr = ([Security_encodeNonceReport rn],
     tr\<lparr>tr_nonces := (tr_nonces tr)\<lparr>nt_entries := (nt_entries (tr_nonces tr))((a, rn ! 0) \<mapsto>
          \<lparr>ne_nonce = rn, ne_issued = clock (tr_reads tr)\<rparr>)\<rparr>, tr_reads := tr_reads tr + 1\<rparr>)"
  by (simp add: answerNonceGet_def nonceResponder_onApplicationCommand_def Security_commandByte_def
      Security_encodeNonceGet_def nonce_generate_def)

lemma outbound_report:
  assumes "so_queues st b = Some ((p, cb) # rest)" and "so_key st = Some nk" and "length rn = 8"
  shows "s0out_onApplicationCommand c sn b (Security_encodeNonceReport rn) st =
    (S0Send \<lparr>sdc_nodeId = b,
       sdc_payload = S0_encrypt c p (so_controllerNodeId st) b (S0_randomNonce sn) rn nk, sdc_callbackId = cb\<rparr>
       # (if rest = [] then [] else requestNonce b),
     st\<lparr>so_queues := (so_queues st)(b := if rest = [] then None else Some rest)\<rparr>)"
  using assms by (simp add: s0out_onApplicationCommand_def Let_def)

text \<open>What the rounds keep: both sides know each other and hold the same key.\<close>

definition s0Paired :: "byte \<Rightarrow> byte \<Rightarrow> bytes \<Rightarrow> (nat \<Rightarrow> int) \<Rightarrow> S0Outbound \<Rightarrow> translator \<Rightarrow> bool" where
  "s0Paired a b nk clock st tr \<longleftrightarrow> so_controllerNodeId st = a \<and> so_key st = Some nk \<and>
     tr_controllerNodeId tr = b \<and> tr_key tr = Some nk \<and>
     (\<forall>i. clock (Suc i) - clock i \<le> nt_freshness (tr_nonces tr))"

definition receivedEvents :: "byte \<Rightarrow> (bytes \<times> byte) list \<Rightarrow> busEvent list" where
  "receivedEvents a cs = concat (map (\<lambda>(p, cb). [NodeSecurityStatusS0 a, ApplicationCommandEvent a p]) cs)"

lemma s0Rounds_deliver:
  assumes "ofb_symmetric c" and "cbc_keeps_length c" and "memcmp_exact c"
    and "\<forall>(p, cb) \<in> set cs. \<not> isWrapped p" and "\<forall>(rn, sn) \<in> set ns. length rn = 8"
    and "length ns = length cs" and "s0Paired a b nk clock st tr"
    and "so_queues st b = (if cs = [] then None else Some cs)"
    and "cs \<noteq> [] \<longrightarrow> Security_encodeNonceGet \<in> set (sentTo b pending)"
  shows "\<exists>st' tr'. s0Rounds c clock a b ns pending st tr = Inr (receivedEvents a cs, st', tr') \<and>
    so_queues st' b = None"
  using assms(4-9)
proof (induction cs arbitrary: ns pending st tr)
  case (Cons m cs)
  obtain p cb where m: "m = (p, cb)" by (rule prod.exhaust)
  obtain rn sn ns' where ns: "ns = (rn, sn) # ns'" using Cons.prems(3) by (cases ns) auto
  have rn: "length rn = 8" and p: "\<not> isWrapped p" using Cons.prems(1,2) by (auto simp: ns m)
  note paired = Cons.prems(4) [unfolded s0Paired_def]
  obtain tr1 where ans: "answerNonceGet clock a rn tr = ([Security_encodeNonceReport rn], tr1)"
    and tr1: "tr_key tr1 = Some nk" "tr_controllerNodeId tr1 = b" "tr_reads tr1 = Suc (tr_reads tr)"
      "nt_freshness (tr_nonces tr1) = nt_freshness (tr_nonces tr)"
      "nt_entries (tr_nonces tr1) (a, rn ! 0) = Some \<lparr>ne_nonce = rn, ne_issued = clock (tr_reads tr)\<rparr>"
    using paired by (simp add: answerNonceGet_eq)
  let ?frame = "S0_encrypt c p a b (S0_randomNonce sn) rn nk"
  let ?tail = "if cs = [] then [] else requestNonce b"
  let ?acts = "S0Send \<lparr>sdc_nodeId = b, sdc_payload = ?frame, sdc_callbackId = cb\<rparr> # ?tail"
  let ?st1 = "st\<lparr>so_queues := (so_queues st)(b := if cs = [] then None else Some cs)\<rparr>"
  have out: "s0out_onApplicationCommand c sn b (Security_encodeNonceReport rn) st = (?acts, ?st1)"
    using outbound_report [of st b p cb cs nk rn c sn] Cons.prems(5) paired rn by (simp add: m)
  have sent: "sentTo b ?acts = ?frame # (if cs = [] then [] else [Security_encodeNonceGet])"
    by (simp add: requestNonce_def)
  let ?tr2 = "nonceTaken a (rn ! 0) tr1"
  have "deliver c clock a ?frame tr1 = Inr ([NodeSecurityStatusS0 a, ApplicationCommandEvent a p], ?tr2)"
    using deliver_s0_fresh [OF assms(1-3) length_randomNonce rn tr1(1) tr1(5), of clock p] p tr1 paired by simp
  then have del: "deliverAll c clock a (sentTo b ?acts) tr1 =
      Inr ([NodeSecurityStatusS0 a, ApplicationCommandEvent a p], ?tr2)"
    unfolding sent by (simp add: deliver_plain [OF nonceGet_plain])
  have "\<exists>st' tr'. s0Rounds c clock a b ns' ?acts ?st1 ?tr2 = Inr (receivedEvents a cs, st', tr') \<and> so_queues st' b = None"
  proof (rule Cons.IH)
    show "s0Paired a b nk clock ?st1 ?tr2" using paired tr1 by (simp add: s0Paired_def nonceTaken_def)
  qed (use Cons.prems sent in \<open>auto simp: ns\<close>)
  then show ?case
    using Cons.prems(6) ans out del by (auto simp: ns m receivedEvents_def)
qed (auto simp: receivedEvents_def)

section \<open>Runs of the bootstrap\<close>

datatype s0event =
    S0Included byte bytes
  | S0Command byte bytes bytes
  | S0DongleInfo byte
  | S0KeyLoaded "bytes option"

fun s0bootStep :: "libcrypto \<Rightarrow> s0event \<Rightarrow> S0Bootstrap \<Rightarrow> s0action list \<times> S0Bootstrap" where
  "s0bootStep c (S0Included n ccs) st = s0boot_onNodeIncluded n ccs st"
| "s0bootStep c (S0Command n data drawn) st = s0boot_onApplicationCommand c drawn n data st"
| "s0bootStep c (S0DongleInfo i) st = ([], s0boot_onDongleInfo i st)"
| "s0bootStep c (S0KeyLoaded k) st = ([], st\<lparr>sb_key := k\<rparr>)"

text \<open>A run from a state without sessions: its events and what it published, in order.\<close>

inductive s0boot_run :: "libcrypto \<Rightarrow> s0event list \<Rightarrow> s0action list \<Rightarrow> S0Bootstrap \<Rightarrow> bool" for c where
  start: "sb_sessions st = Map.empty \<Longrightarrow> s0boot_run c [] [] st"
| step: "s0boot_run c es acts st \<Longrightarrow> s0bootStep c e st = (new, st') \<Longrightarrow>
         s0boot_run c (es @ [e]) (acts @ new) st'"

text \<open>
  The key went to node \<open>n\<close>: after an inclusion that lists the security class the node reported a
  nonce, and the frame sent to it carries the network key, encrypted under the temporary key, the
  node's nonce and a nonce of the controller.
\<close>

definition includedSecure :: "byte \<Rightarrow> s0event list \<Rightarrow> bool" where
  "includedSecure n es \<longleftrightarrow> (\<exists>ccs. S0Included n ccs \<in> set es \<and> CC_SECURITY \<in> set ccs)"

definition keySent :: "libcrypto \<Rightarrow> byte \<Rightarrow> s0event list \<Rightarrow> s0action list \<Rightarrow> bool" where
  "keySent c n es acts \<longleftrightarrow> (\<exists>report drawn rn key ctrl.
     S0Command n report drawn \<in> set es \<and> Security_decodeNonceReport report = Some rn \<and>
     S0Send \<lparr>sdc_nodeId = n,
       sdc_payload = S0_encrypt c ([CC_SECURITY, SECURITY_NETWORK_KEY_SET] @ key) ctrl n (S0_randomNonce drawn) rn S0_tempKey,
       sdc_callbackId = NO_CALLBACK\<rparr> \<in> set acts)"

definition s0boot_inv :: "libcrypto \<Rightarrow> s0event list \<Rightarrow> s0action list \<Rightarrow> S0Bootstrap \<Rightarrow> bool" where
  "s0boot_inv c es acts st \<longleftrightarrow> (\<forall>n phase. sb_sessions st n = Some phase \<longrightarrow>
     includedSecure n es \<and> (phase = AwaitVerify \<longrightarrow> keySent c n es acts))"

lemma included_mono [simp]: "includedSecure n es \<Longrightarrow> includedSecure n (es @ es')"
  by (auto simp: includedSecure_def)

lemma keySent_mono: "keySent c n es acts \<Longrightarrow> keySent c n (es @ es') (acts @ acts')"
  unfolding keySent_def by fastforce

text \<open>What the handler of commands does in each phase, as one case rule.\<close>

lemma s0command_cases:
  assumes "s0boot_onApplicationCommand c drawn n data st = (new, st')"
  obtains (idle) "new = []" "st' = st"
  | (scheme) "sb_sessions st n \<noteq> None" "new = sendPlaintext n Security_encodeNonceGet"
      "sb_sessions st' = (sb_sessions st)(n \<mapsto> AwaitNonceReport)"
  | (noKey) "new = []" "sb_sessions st' = (sb_sessions st)(n := None)"
  | (key) rn k where "sb_sessions st n \<noteq> None" "Security_decodeNonceReport data = Some rn"
      "sb_sessions st' = (sb_sessions st)(n \<mapsto> AwaitVerify)"
      "new = [S0Send \<lparr>sdc_nodeId = n, sdc_payload = S0_encrypt c ([CC_SECURITY, SECURITY_NETWORK_KEY_SET] @ k)
          (sb_controllerNodeId st) n (S0_randomNonce drawn) rn S0_tempKey, sdc_callbackId = NO_CALLBACK\<rparr>]"
  | (verify) "sb_sessions st n = Some AwaitVerify" "Security_commandByte data = Some SECURITY_NETWORK_KEY_VERIFY"
      "new = [S0SecurityStatus n (schemeNumber SchemeS0)]" "sb_sessions st' = (sb_sessions st)(n := None)"
proof (cases "sb_sessions st n")
  case None
  then show ?thesis using assms idle by (simp add: s0boot_onApplicationCommand_def)
next
  case (Some phase)
  note s = Some
  show ?thesis
  proof (cases "Security_commandByte data")
    case None
    then show ?thesis using assms s idle by (simp add: s0boot_onApplicationCommand_def)
  next
    case (Some command)
    note handled = assms [unfolded s0boot_onApplicationCommand_def, simplified s Some, simplified]
    show ?thesis
    proof (cases phase)
      case AwaitSchemeReport
      then show ?thesis using handled s idle scheme by (auto split: if_splits)
    next
      case AwaitNonceReport
      then show ?thesis using handled s idle noKey key
        by (auto simp: sendNetworkKeySet_def Let_def split: if_splits option.splits)
    next
      case AwaitVerify
      then show ?thesis using handled s Some idle verify by (auto split: if_splits)
    qed
  qed
qed

lemma s0bootStep_inv:
  assumes "s0boot_inv c es acts st" and "s0bootStep c e st = (new, st')"
  shows "s0boot_inv c (es @ [e]) (acts @ new) st'"
proof -
  have keep: "includedSecure n (es @ [e]) \<and> (p = AwaitVerify \<longrightarrow> keySent c n (es @ [e]) (acts @ new))"
    if "sb_sessions st n = Some p" for n p
    using assms(1) that keySent_mono by (auto simp: s0boot_inv_def)
  show ?thesis
  proof (cases e)
    case (S0Included n ccs)
    then have "includedSecure n (es @ [e])" if "CC_SECURITY \<in> set ccs"
      using that by (auto simp: includedSecure_def)
    then show ?thesis using assms(2) keep
      by (auto simp: S0Included s0boot_inv_def s0boot_onNodeIncluded_def split: if_splits)
  next
    case (S0Command n data drawn)
    have "s0boot_onApplicationCommand c drawn n data st = (new, st')" using assms(2) by (simp add: S0Command)
    then show ?thesis
    proof (cases rule: s0command_cases)
      case (key rn k)
      have "keySent c n (es @ [e]) (acts @ new)"
        unfolding keySent_def using key(2,4) by (fastforce simp: S0Command)
      then show ?thesis using keep key(1,3) by (auto simp: s0boot_inv_def split: if_splits)
    qed (use keep in \<open>auto simp: s0boot_inv_def split: if_splits\<close>)
  next
    case (S0DongleInfo i)
    then show ?thesis using assms(2) keep by (auto simp: s0boot_inv_def s0boot_onDongleInfo_def)
  next
    case (S0KeyLoaded k)
    then show ?thesis using assms(2) keep by (auto simp: s0boot_inv_def)
  qed
qed

lemma s0boot_run_inv: "s0boot_run c es acts st \<Longrightarrow> s0boot_inv c es acts st"
proof (induction rule: s0boot_run.induct)
  case (start st)
  then show ?case by (simp add: s0boot_inv_def)
next
  case (step es acts st e new st')
  then show ?case using s0bootStep_inv by blast
qed

text \<open>A status is published by one step only, the one that sees the verification.\<close>

lemma s0bootStep_status:
  assumes "s0bootStep c e st = (new, st')"
  shows "(\<forall>n sch. S0SecurityStatus n sch \<notin> set new) \<or>
    (\<exists>n. new = [S0SecurityStatus n (schemeNumber SchemeS0)] \<and> sb_sessions st n = Some AwaitVerify)"
proof (cases e)
  case (S0Command n data drawn)
  then have "s0boot_onApplicationCommand c drawn n data st = (new, st')" using assms by simp
  then show ?thesis by (cases rule: s0command_cases) (auto simp: sendPlaintext_def)
qed (use assms in \<open>auto simp: s0boot_onNodeIncluded_def sendPlaintext_def split: if_splits\<close>)

lemma split_append:
  assumes "pre @ x # post = xs @ ys" and "x \<notin> set ys \<or> (ys = [x] \<and> post \<noteq> [])"
  obtains post' where "xs = pre @ x # post'"
  using assms by (auto simp: append_eq_append_conv2 append_eq_Cons_conv Cons_eq_append_conv)

lemma s0boot_run_status:
  assumes "s0boot_run c es acts st" and "acts = pre @ S0SecurityStatus n sch # post"
  shows "sch = schemeNumber SchemeS0 \<and> includedSecure n es \<and> keySent c n es pre"
  using assms
proof (induction arbitrary: post rule: s0boot_run.induct)
  case (step es acts st e new st')
  have inv: "s0boot_inv c es acts st" using step.hyps(1) by (rule s0boot_run_inv)
  have IH: "sch = schemeNumber SchemeS0 \<and> includedSecure n (es @ [e]) \<and> keySent c n (es @ [e]) pre"
    if "acts = pre @ S0SecurityStatus n sch # post'" for post'
    using step.IH [OF that] keySent_mono [of c n es pre "[e]" "[]"] by simp
  show ?case
  proof (cases "new = [S0SecurityStatus n sch] \<and> post = []")
    case True
    then have "pre = acts" "sb_sessions st n = Some AwaitVerify" "sch = schemeNumber SchemeS0"
      using step.prems s0bootStep_status [OF step.hyps(2)] by auto
    then show ?thesis
      using inv keySent_mono [of c n es acts "[e]" "[]"] by (simp add: s0boot_inv_def)
  next
    case False
    then have "S0SecurityStatus n sch \<notin> set new \<or> (new = [S0SecurityStatus n sch] \<and> post \<noteq> [])"
      using s0bootStep_status [OF step.hyps(2)] by auto
    with step.prems show ?thesis by (metis split_append IH)
  qed
qed simp

lemma nonceReport_length: "Security_decodeNonceReport r = Some rn \<Longrightarrow> length rn = 8"
  by (auto simp: Security_decodeNonceReport_def subspan_def NONCE_SIZE_def split: if_splits)

section \<open>Properties\<close>

text \<open>
  C14: commands handed to the S0 outbound orchestrator for a node it has no queue for cause one nonce
  request, and with one nonce of the receiver per command the receiving daemon publishes exactly these
  commands, in order, each marked as received securely; afterwards nothing is queued. A nonce is
  asked for again exactly as long as commands are left.
\<close>

theorem s0_end_to_end:
  assumes "ofb_symmetric c" and "cbc_keeps_length c" and "memcmp_exact c"
    and "s0Paired a b nk clock st tr" and "so_queues st b = None" and "cs \<noteq> []"
    and "\<forall>(p, cb) \<in> set cs. \<not> isWrapped p" and "\<forall>(rn, sn) \<in> set ns. length rn = 8"
    and "length ns = length cs"
  shows "\<exists>st1 st2 tr2. requestAllS0 b cs st = (requestNonce b, st1) \<and>
    s0Rounds c clock a b ns (requestNonce b) st1 tr =
      Inr (concat (map (\<lambda>(p, cb). [NodeSecurityStatusS0 a, ApplicationCommandEvent a p]) cs), st2, tr2) \<and>
    so_queues st2 b = None"
proof -
  let ?st1 = "st\<lparr>so_queues := (so_queues st)(b \<mapsto> cs)\<rparr>"
  have "requestAllS0 b cs st = (requestNonce b, ?st1)"
    using requestAllS0_queue [of st b "[]" cs] assms(5,6) by simp
  moreover have "\<exists>st2 tr2. s0Rounds c clock a b ns (requestNonce b) ?st1 tr = Inr (receivedEvents a cs, st2, tr2) \<and>
      so_queues st2 b = None"
    by (rule s0Rounds_deliver [OF assms(1-3,7-9)])
      (use assms(4,6) in \<open>simp_all add: s0Paired_def requestNonce_def\<close>)
  ultimately show ?thesis by (simp add: receivedEvents_def)
qed

definition demoOutbound :: S0Outbound where
  "demoOutbound = \<lparr>so_queues = Map.empty, so_controllerNodeId = 7, so_key = Some (replicate 16 9)\<rparr>"

theorem s0_end_to_end_witness:
  "\<exists>st1 st2 tr2. requestAllS0 1 [([0x25, 0x01, 0xFF], 3), ([0x20, 0x02], 4)] demoOutbound = (requestNonce 1, st1) \<and>
    s0Rounds toyCrypto (\<lambda>i. 100 + 5 * int i) 7 1 [(replicate 8 4, [1]), (replicate 8 6, [2])] (requestNonce 1) st1
      demoTranslator =
      Inr (concat (map (\<lambda>(p, cb). [NodeSecurityStatusS0 7, ApplicationCommandEvent 7 p])
        [([0x25, 0x01, 0xFF], 3 :: byte), ([0x20, 0x02], 4)]), st2, tr2) \<and>
    so_queues st2 1 = None"
  by (rule s0_end_to_end [where nk = "replicate 16 9"])
    (simp_all add: toyCrypto_ok s0Paired_def demoOutbound_def demoTranslator_def nonce_generate_def
      newNonceTable_def isWrapped_def CC_CRC16_ENCAP_def CC_TRANSPORT_SERVICE_def CC_SECURITY_def)


definition demoS0Boot :: S0Bootstrap where
  "demoS0Boot = \<lparr>sb_sessions = Map.empty, sb_controllerNodeId = 1, sb_key = Some (replicate 16 9),
     sb_registry = [7 \<mapsto> SchemeNone]\<rparr>"

fun s0bootAll :: "libcrypto \<Rightarrow> s0event list \<Rightarrow> S0Bootstrap \<Rightarrow> s0action list \<times> S0Bootstrap" where
  "s0bootAll c [] st = ([], st)"
| "s0bootAll c (e # es) st =
     (case s0bootStep c e st of (acts, st1) \<Rightarrow> (case s0bootAll c es st1 of (acts2, st2) \<Rightarrow> (acts @ acts2, st2)))"

lemma s0bootAll_run:
  "s0boot_run c es0 acts0 st \<Longrightarrow> s0bootAll c es st = (acts, st') \<Longrightarrow> s0boot_run c (es0 @ es) (acts0 @ acts) st'"
proof (induction es arbitrary: es0 acts0 st acts)
  case (Cons e es)
  obtain a1 st1 where s1: "s0bootStep c e st = (a1, st1)" by (rule prod.exhaust)
  obtain a2 where s2: "s0bootAll c es st1 = (a2, st')" "acts = a1 @ a2"
    using Cons.prems(2) s1 by (auto split: prod.splits)
  have "s0boot_run c (es0 @ [e]) (acts0 @ a1) st1" using Cons.prems(1) s1 by (rule s0boot_run.step)
  from Cons.IH [OF this s2(1)] show ?case by (simp add: s2(2))
qed simp

definition demoS0Events :: "s0event list" where
  "demoS0Events = [S0Included 7 [0x25, 0x98], S0Command 7 [0x98, 0x05, 0x00] [],
     S0Command 7 ([0x98, 0x80] @ replicate 8 4) [3], S0Command 7 [0x98, 0x07] []]"


text \<open>
  The verification that completes the bootstrap is not authenticated: in the last phase a
  plaintext key-verify command, which the unwrapping layer passes on untouched, makes the node
  S0-secure, whatever the keys are.
\<close>

theorem s0_verify_plaintext:
  assumes "sb_sessions st n = Some AwaitVerify" and "sb_registry st n = Some sch"
    and "data = [CC_SECURITY, SECURITY_NETWORK_KEY_VERIFY]"
  shows "deliver c clock n data tr = Inr ([], tr) \<and>
    (\<exists>st'. s0boot_onApplicationCommand c drawn n data st = ([S0SecurityStatus n (schemeNumber SchemeS0)], st') \<and>
       registry_securityScheme n (sb_registry st') = SchemeS0 \<and> sb_sessions st' n = None)"
proof -
  have "\<not> isWrapped data"
    by (simp add: assms(3) isWrapped_def s0_command_defs CC_CRC16_ENCAP_def CC_TRANSPORT_SERVICE_def)
  moreover have "Security_commandByte data = Some SECURITY_NETWORK_KEY_VERIFY"
    by (simp add: assms(3) Security_commandByte_def)
  ultimately show ?thesis
    using assms(1,2) by (simp add: deliver_plain s0boot_onApplicationCommand_def registry_setSecurityScheme_def
        registry_securityScheme_def)
qed

theorem s0_verify_plaintext_witness:
  "deliver toyCrypto (\<lambda>_. 0) 7 [CC_SECURITY, SECURITY_NETWORK_KEY_VERIFY] demoTranslator = Inr ([], demoTranslator) \<and>
    (\<exists>st'. s0boot_onApplicationCommand toyCrypto [] 7 [CC_SECURITY, SECURITY_NETWORK_KEY_VERIFY]
        (demoS0Boot\<lparr>sb_sessions := [7 \<mapsto> AwaitVerify]\<rparr>) = ([S0SecurityStatus 7 (schemeNumber SchemeS0)], st') \<and>
       registry_securityScheme 7 (sb_registry st') = SchemeS0 \<and> sb_sessions st' 7 = None)"
  by (rule s0_verify_plaintext [where sch = SchemeNone]) (simp_all add: demoS0Boot_def)

end
