(* ===== verification/S2_Orchestrators.thy ===== *)
theory S2_Orchestrators
  imports S2_Session
begin

text \<open>
  The two orchestrators that carry S2 traffic of bootstrapped nodes:
  \<open>SecurityS2InboundOrchestrator.cpp\<close> and \<open>SecurityS2OutboundOrchestrator.cpp\<close>, on the
  process-wide span manager. What they publish on the message bus is a list of actions. Of the
  node registry they use the recorded security scheme only; of the network keys the set loaded at
  startup. Log lines are not modelled.
\<close>

section \<open>State\<close>

datatype s2action = SendData byte bytes byte | PublishCommand byte bytes

definition S2_NO_CALLBACK :: byte where "S2_NO_CALLBACK = 0x00"
definition ENCAP_SEQ_OFFSET :: nat where "ENCAP_SEQ_OFFSET = 2"

record S2Inbound =
  in_homeId :: bytes
  in_controllerNodeId :: byte

record S2Outbound =
  out_queues :: "byte \<rightharpoonup> (bytes \<times> byte) list"
  out_homeId :: bytes
  out_controllerNodeId :: byte

record S2Runtime =
  rt_registry :: schemeRegistry
  rt_keys :: "bytes list option"
  rt_manager :: SpanManager
  rt_inbound :: S2Inbound
  rt_outbound :: S2Outbound

section \<open>Inbound\<close>

definition inbound_configurePeer :: "libcrypto2 \<Rightarrow> byte \<Rightarrow> S2Runtime \<Rightarrow> bytes option \<times> S2Runtime" where
  "inbound_configurePeer c nodeId rt =
     (if \<not> registry_isSecure nodeId (rt_registry rt) then (None, rt)
      else case resolveClassKeys c (rt_keys rt) (schemeNumber (registry_securityScheme nodeId (rt_registry rt))) of
          None \<Rightarrow> (None, rt)
        | Some derived \<Rightarrow>
            (Some (nk_keyCcm derived),
             rt\<lparr>rt_manager := configurePeer nodeId
                  \<lparr>pc_classKey = nk_keyCcm derived, pc_personalization = nk_personalization derived,
                   pc_homeId = in_homeId (rt_inbound rt), pc_ourNodeId = in_controllerNodeId (rt_inbound rt),
                   pc_peerNodeId = nodeId\<rparr> (rt_manager rt)\<rparr>))"

definition inbound_respond :: "byte \<Rightarrow> S2Runtime \<Rightarrow> s2action list \<times> S2Runtime" where
  "inbound_respond nodeId rt =
     (case respondToNonceGet nodeId (rt_manager rt) of
        (payload, M) \<Rightarrow> ([SendData nodeId payload S2_NO_CALLBACK], rt\<lparr>rt_manager := M\<rparr>))"

definition inbound_onApplicationCommand ::
  "libcrypto2 \<Rightarrow> byte \<Rightarrow> bytes \<Rightarrow> S2Runtime \<Rightarrow> fault + (s2action list \<times> S2Runtime)" where
  "inbound_onApplicationCommand c nodeId data rt =
     (if length data < 2 \<or> data ! 0 \<noteq> CC_SECURITY_2 then Inr ([], rt)
      else case inbound_configurePeer c nodeId rt of
          (None, rt1) \<Rightarrow> Inr ([], rt1)
        | (Some classKeyCcm, rt1) \<Rightarrow>
            if data ! 1 = S2_NONCE_GET then Inr (inbound_respond nodeId rt1)
            else if data ! 1 \<noteq> CMD_ENCAP then Inr ([], rt1)
            else (case receiveNonce c nodeId data (rt_manager rt1) of
                (None, M) \<Rightarrow> Inr (inbound_respond nodeId (rt1\<lparr>rt_manager := M\<rparr>))
              | (Some nonce, M) \<Rightarrow>
                  if length data \<le> ENCAP_SEQ_OFFSET then Inl OutOfBounds
                  else let rt2 = rt1\<lparr>rt_manager := M\<rparr>;
                           ctx = \<lparr>ec_senderNodeId = nodeId,
                                  ec_receiverNodeId = in_controllerNodeId (rt_inbound rt2),
                                  ec_homeId = in_homeId (rt_inbound rt2),
                                  ec_sequenceNumber = data ! ENCAP_SEQ_OFFSET\<rparr>
                       in case S2_decrypt c data ctx classKeyCcm nonce of
                            None \<Rightarrow> Inr (inbound_respond nodeId rt2)
                          | Some inner \<Rightarrow> Inr ([PublishCommand nodeId inner], rt2)))"

definition inbound_onDongleInfo :: "bytes \<Rightarrow> byte \<Rightarrow> S2Runtime \<Rightarrow> S2Runtime" where
  "inbound_onDongleInfo homeId controllerNodeId rt =
     (let n = min (length homeId) (length (in_homeId (rt_inbound rt)))
      in rt\<lparr>rt_inbound := (rt_inbound rt)\<lparr>in_controllerNodeId := controllerNodeId,
              in_homeId := take n homeId @ drop n (in_homeId (rt_inbound rt))\<rparr>\<rparr>)"

section \<open>Outbound\<close>

definition outbound_configurePeer :: "libcrypto2 \<Rightarrow> byte \<Rightarrow> S2Runtime \<Rightarrow> bool \<times> S2Runtime" where
  "outbound_configurePeer c nodeId rt =
     (if \<not> registry_isSecure nodeId (rt_registry rt) then (False, rt)
      else case resolveClassKeys c (rt_keys rt) (schemeNumber (registry_securityScheme nodeId (rt_registry rt))) of
          None \<Rightarrow> (False, rt)
        | Some derived \<Rightarrow>
            (True,
             rt\<lparr>rt_manager := configurePeer nodeId
                  \<lparr>pc_classKey = nk_keyCcm derived, pc_personalization = nk_personalization derived,
                   pc_homeId = out_homeId (rt_outbound rt), pc_ourNodeId = out_controllerNodeId (rt_outbound rt),
                   pc_peerNodeId = nodeId\<rparr> (rt_manager rt)\<rparr>))"

definition outbound_sendEncrypted ::
  "libcrypto2 \<Rightarrow> byte \<Rightarrow> bytes \<times> byte \<Rightarrow> S2Runtime \<Rightarrow> bool \<times> s2action list \<times> S2Runtime" where
  "outbound_sendEncrypted c nodeId pending rt =
     (case sm_encrypt c nodeId (fst pending) (rt_manager rt) of
        (None, M) \<Rightarrow> (False, [], rt\<lparr>rt_manager := M\<rparr>)
      | (Some frame, M) \<Rightarrow> (True, [SendData nodeId frame (snd pending)], rt\<lparr>rt_manager := M\<rparr>))"

definition setQueue :: "byte \<Rightarrow> (bytes \<times> byte) list option \<Rightarrow> S2Runtime \<Rightarrow> S2Runtime" where
  "setQueue nodeId q rt =
     rt\<lparr>rt_outbound := (rt_outbound rt)\<lparr>out_queues := (out_queues (rt_outbound rt))(nodeId := q)\<rparr>\<rparr>"

definition onSecureS2SendRequest ::
  "libcrypto2 \<Rightarrow> byte \<Rightarrow> bytes \<Rightarrow> byte \<Rightarrow> S2Runtime \<Rightarrow> s2action list \<times> S2Runtime" where
  "onSecureS2SendRequest c nodeId payload callbackId rt =
     (case outbound_configurePeer c nodeId rt of
        (False, rt1) \<Rightarrow> ([], rt1)
      | (True, rt1) \<Rightarrow>
          (case outbound_sendEncrypted c nodeId (payload, callbackId) rt1 of
             (True, acts, rt2) \<Rightarrow> (acts, rt2)
           | (False, acts, rt2) \<Rightarrow>
               let queue = (case out_queues (rt_outbound rt2) nodeId of None \<Rightarrow> [] | Some q \<Rightarrow> q);
                   wasIdle = (queue = []);
                   rt3 = setQueue nodeId (Some (queue @ [(payload, callbackId)])) rt2
               in if wasIdle
                  then (case sm_nonceGet nodeId (rt_manager rt3) of
                          (request, M) \<Rightarrow>
                            (acts @ [SendData nodeId request S2_NO_CALLBACK], rt3\<lparr>rt_manager := M\<rparr>))
                  else (acts, rt3)))"

text \<open>The loop that drains the queue; it stops at the first command that cannot be encrypted.\<close>

fun drainQueue :: "libcrypto2 \<Rightarrow> byte \<Rightarrow> (bytes \<times> byte) list \<Rightarrow> S2Runtime \<Rightarrow> s2action list \<times> S2Runtime" where
  "drainQueue c nodeId [] rt = ([], rt)"
| "drainQueue c nodeId (p # ps) rt =
     (case outbound_sendEncrypted c nodeId p rt of
        (False, acts, rt1) \<Rightarrow> (acts, rt1)
      | (True, acts, rt1) \<Rightarrow> (case drainQueue c nodeId ps rt1 of (acts2, rt2) \<Rightarrow> (acts @ acts2, rt2)))"

definition outbound_onApplicationCommand ::
  "libcrypto2 \<Rightarrow> byte \<Rightarrow> bytes \<Rightarrow> S2Runtime \<Rightarrow> s2action list \<times> S2Runtime" where
  "outbound_onApplicationCommand c nodeId data rt =
     (case s2_commandByte data of
        None \<Rightarrow> ([], rt)
      | Some command \<Rightarrow>
          if command \<noteq> S2_NONCE_REPORT then ([], rt)
          else (case out_queues (rt_outbound rt) nodeId of
              None \<Rightarrow> ([], rt)
            | Some queue \<Rightarrow>
                if queue = [] then ([], rt)
                else (case decodeNonceReport data of
                    None \<Rightarrow> ([], rt)
                  | Some r \<Rightarrow>
                      let rt1 = rt\<lparr>rt_manager := acceptNonceReport nodeId r (rt_manager rt)\<rparr>
                      in case drainQueue c nodeId queue rt1 of
                           (acts, rt2) \<Rightarrow> (acts, setQueue nodeId None rt2))))"

definition outbound_onDongleInfo :: "bytes \<Rightarrow> byte \<Rightarrow> S2Runtime \<Rightarrow> S2Runtime" where
  "outbound_onDongleInfo homeId controllerNodeId rt =
     (let n = min (length homeId) (length (out_homeId (rt_outbound rt)))
      in rt\<lparr>rt_outbound := (rt_outbound rt)\<lparr>out_controllerNodeId := controllerNodeId,
              out_homeId := take n homeId @ drop n (out_homeId (rt_outbound rt))\<rparr>\<rparr>)"

section \<open>Two daemons that know each other\<close>

text \<open>Each has the other on record with the same class, and they hold the same network keys.\<close>

definition paired :: "byte \<Rightarrow> byte \<Rightarrow> SecurityScheme \<Rightarrow> bytes list \<Rightarrow> S2Runtime \<Rightarrow> S2Runtime \<Rightarrow> bool" where
  "paired a b sch keys RA RB \<longleftrightarrow> classForScheme (schemeNumber sch) \<noteq> None \<and>
     rt_registry RA b = Some sch \<and> rt_registry RB a = Some sch \<and>
     rt_keys RA = Some keys \<and> rt_keys RB = Some keys \<and>
     out_homeId (rt_outbound RA) = in_homeId (rt_inbound RB) \<and>
     out_controllerNodeId (rt_outbound RA) = a \<and> in_controllerNodeId (rt_inbound RB) = b"

definition classConfig :: "libcrypto2 \<Rightarrow> bytes list \<Rightarrow> SecurityScheme \<Rightarrow> bytes \<Rightarrow> byte \<Rightarrow> byte \<Rightarrow> PeerConfig" where
  "classConfig c keys sch home us them =
     (let d = networkKeyExpand c (keyFor keys (the (classForScheme (schemeNumber sch))))
      in \<lparr>pc_classKey = nk_keyCcm d, pc_personalization = nk_personalization d, pc_homeId = home,
          pc_ourNodeId = us, pc_peerNodeId = them\<rparr>)"

lemma classConfig_mirrored: "mirrored (classConfig c keys sch home a b) (classConfig c keys sch home b a)"
  by (simp add: mirrored_def classConfig_def Let_def)

lemma scheme_secure: "classForScheme (schemeNumber sch) \<noteq> None \<Longrightarrow> sch \<noteq> SchemeNone"
  by (auto simp: classForScheme_def)

lemma inbound_configurePeer_paired:
  assumes "paired a b sch keys RA RB"
  shows "inbound_configurePeer c a RB =
    (Some (pc_classKey (classConfig c keys sch (in_homeId (rt_inbound RB)) b a)),
     RB\<lparr>rt_manager := configurePeer a (classConfig c keys sch (in_homeId (rt_inbound RB)) b a) (rt_manager RB)\<rparr>)"
  using assms scheme_secure
  by (auto simp: paired_def inbound_configurePeer_def registry_isSecure_def registry_securityScheme_def
      resolveClassKeys_def classConfig_def Let_def)

lemma outbound_configurePeer_paired:
  assumes "paired a b sch keys RA RB"
  shows "outbound_configurePeer c b RA =
    (True, RA\<lparr>rt_manager := configurePeer b (classConfig c keys sch (out_homeId (rt_outbound RA)) a b) (rt_manager RA)\<rparr>)"
  using assms scheme_secure
  by (auto simp: paired_def outbound_configurePeer_def registry_isSecure_def registry_securityScheme_def
      resolveClassKeys_def classConfig_def Let_def)

lemma paired_manager [simp]:
  "paired a b sch keys (RA\<lparr>rt_manager := M\<rparr>) RB = paired a b sch keys RA RB"
  "paired a b sch keys RA (RB\<lparr>rt_manager := M\<rparr>) = paired a b sch keys RA RB"
  "paired a b sch keys (setQueue n q RA) RB = paired a b sch keys RA RB"
  by (simp_all add: paired_def setQueue_def)

lemma peerState_configurePeer [simp]:
  "peerState p (configurePeer p cfg M) = (peerState p M)\<lparr>pr_config := cfg\<rparr>"
  "entropy_ok (configurePeer p cfg M) = entropy_ok M"
  by (simp_all add: configurePeer_def)

section \<open>Requests before there is a generator\<close>

text \<open>The sender's manager knows no generator and no entropy input of node \<open>b\<close>.\<close>

definition unsynced :: "byte \<Rightarrow> S2Runtime \<Rightarrow> bool" where
  "unsynced b R \<longleftrightarrow> entropy_ok (rt_manager R) \<and> pr_span (peerState b (rt_manager R)) = None \<and>
     pr_peerRei (peerState b (rt_manager R)) = None"

definition queueOf :: "byte \<Rightarrow> S2Runtime \<Rightarrow> (bytes \<times> byte) list" where
  "queueOf b R = (case out_queues (rt_outbound R) b of None \<Rightarrow> [] | Some q \<Rightarrow> q)"

fun requestAll ::
  "libcrypto2 \<Rightarrow> byte \<Rightarrow> (bytes \<times> byte) list \<Rightarrow> S2Runtime \<Rightarrow> s2action list \<times> S2Runtime" where
  "requestAll c b [] R = ([], R)"
| "requestAll c b ((payload, cb) # ps) R =
     (case onSecureS2SendRequest c b payload cb R of
        (acts, R1) \<Rightarrow> (case requestAll c b ps R1 of (acts2, R2) \<Rightarrow> (acts @ acts2, R2)))"

lemma request_queues:
  assumes "paired a b sch keys RA RB" and "unsynced b RA"
  shows "\<exists>acts RA'. onSecureS2SendRequest c b payload cb RA = (acts, RA') \<and>
    (if queueOf b RA = [] then \<exists>n. acts = [SendData b (encodeNonceGet n) S2_NO_CALLBACK] else acts = []) \<and>
    out_queues (rt_outbound RA') b = Some (queueOf b RA @ [(payload, cb)]) \<and>
    paired a b sch keys RA' RB \<and> unsynced b RA' \<and>
    out_homeId (rt_outbound RA') = out_homeId (rt_outbound RA) \<and>
    pr_config (peerState b (rt_manager RA')) = classConfig c keys sch (out_homeId (rt_outbound RA)) a b"
proof -
  define cfg where "cfg = classConfig c keys sch (out_homeId (rt_outbound RA)) a b"
  define M where "M = configurePeer b cfg (rt_manager RA)"
  define R where "R = RA\<lparr>rt_manager := setPeer b (peerState b M) M\<rparr>"
  have conf: "outbound_configurePeer c b RA = (True, RA\<lparr>rt_manager := M\<rparr>)"
    unfolding M_def cfg_def by (rule outbound_configurePeer_paired [OF assms(1)])
  have p: "pr_span (peerState b M) = None" "pr_peerRei (peerState b M) = None" "pr_config (peerState b M) = cfg"
      "entropy_ok M"
    using assms(2) by (simp_all add: M_def unsynced_def)
  have send: "outbound_sendEncrypted c b (payload, cb) (RA\<lparr>rt_manager := M\<rparr>) = (False, [], R)"
    by (simp add: outbound_sendEncrypted_def sm_encrypt_def establishForSend_def p R_def)
  have "queueOf b R = queueOf b RA" by (simp add: queueOf_def R_def)
  then show ?thesis
    using assms p unfolding onSecureS2SendRequest_def conf prod.case bool.case send Let_def queueOf_def [symmetric]
    by (auto simp: sm_nonceGet_def Let_def unsynced_def setQueue_def R_def paired_def cfg_def)
qed

lemma requestAll_queues:
  assumes "paired a b sch keys RA RB" and "unsynced b RA" and "queueOf b RA \<noteq> []"
  shows "\<exists>RA'. requestAll c b ps RA = ([], RA') \<and> queueOf b RA' = queueOf b RA @ ps \<and>
    paired a b sch keys RA' RB \<and> unsynced b RA' \<and> out_homeId (rt_outbound RA') = out_homeId (rt_outbound RA) \<and>
    (ps \<noteq> [] \<longrightarrow>
      pr_config (peerState b (rt_manager RA')) = classConfig c keys sch (out_homeId (rt_outbound RA)) a b)"
  using assms
proof (induction ps arbitrary: RA)
  case (Cons x ps)
  obtain payload cb where x: "x = (payload, cb)" by (rule prod.exhaust)
  obtain R1 where R1: "onSecureS2SendRequest c b payload cb RA = ([], R1)"
      "queueOf b R1 = queueOf b RA @ [x]" "paired a b sch keys R1 RB" "unsynced b R1"
      "out_homeId (rt_outbound R1) = out_homeId (rt_outbound RA)"
      "pr_config (peerState b (rt_manager R1)) = classConfig c keys sch (out_homeId (rt_outbound RA)) a b"
    using request_queues [OF Cons.prems(1,2), of c payload cb] Cons.prems(3)
    by (auto simp: x queueOf_def [of b])
  then show ?case
    using Cons.IH [OF R1(3,4)] by (cases ps) (auto simp: x)
qed simp

section \<open>Delivery of the queue\<close>

fun inboundAll :: "libcrypto2 \<Rightarrow> byte \<Rightarrow> bytes list \<Rightarrow> S2Runtime \<Rightarrow> fault + (s2action list \<times> S2Runtime)" where
  "inboundAll c a [] R = Inr ([], R)"
| "inboundAll c a (f # fs) R =
     (case inbound_onApplicationCommand c a f R of
        Inl e \<Rightarrow> Inl e
      | Inr (acts, R1) \<Rightarrow>
          (case inboundAll c a fs R1 of Inl e \<Rightarrow> Inl e | Inr (acts2, R2) \<Rightarrow> Inr (acts @ acts2, R2)))"

lemma inbound_receives:
  assumes "paired a b sch keys RA RB"
    and "receiveFrame c a frame (configurePeer a (classConfig c keys sch (in_homeId (rt_inbound RB)) b a)
           (rt_manager RB)) = (Some inner, M')"
    and "pr_config (peerState a M') = classConfig c keys sch (in_homeId (rt_inbound RB)) b a"
    and "isEncap frame"
  shows "inbound_onApplicationCommand c a frame RB = Inr ([PublishCommand a inner], RB\<lparr>rt_manager := M'\<rparr>)"
proof -
  let ?cfg = "classConfig c keys sch (in_homeId (rt_inbound RB)) b a"
  let ?M = "configurePeer a ?cfg (rt_manager RB)"
  obtain nonce where nonce: "receiveNonce c a frame ?M = (Some nonce, M')"
      and dec: "S2_decrypt c frame \<lparr>ec_senderNodeId = a, ec_receiverNodeId = b,
          ec_homeId = in_homeId (rt_inbound RB), ec_sequenceNumber = frame ! 2\<rparr> (pc_classKey ?cfg) nonce = Some inner"
    using assms(2,3) by (auto simp: receiveFrame_def Let_def classConfig_def split: prod.splits option.splits)
  have frame: "\<not> length frame < 2" "frame ! 0 = CC_SECURITY_2" "frame ! 1 = CMD_ENCAP" "\<not> length frame \<le> 2"
    using assms(4) by (auto simp: isEncap_def S2_HEADER_SIZE_def)
  have ids: "in_controllerNodeId (rt_inbound RB) = b" using assms(1) by (simp add: paired_def)
  have "CMD_ENCAP \<noteq> S2_NONCE_GET" by (simp add: CMD_ENCAP_def S2_NONCE_GET_def)
  then show ?thesis
    unfolding inbound_onApplicationCommand_def inbound_configurePeer_paired [OF assms(1)]
    using frame nonce dec ids by (simp add: ENCAP_SEQ_OFFSET_def Let_def)
qed

text \<open>The sender and the receiver are ready: they share a generator or an entropy input.\<close>

definition ready :: "libcrypto2 \<Rightarrow> byte \<Rightarrow> byte \<Rightarrow> SecurityScheme \<Rightarrow> bytes list \<Rightarrow> S2Runtime \<Rightarrow> S2Runtime \<Rightarrow> bool" where
  "ready c a b sch keys RA RB \<longleftrightarrow> paired a b sch keys RA RB \<and>
     entropy_ok (rt_manager RA) \<and>
     pr_config (peerState b (rt_manager RA)) = classConfig c keys sch (in_homeId (rt_inbound RB)) a b \<and>
     (shared_span (peerState b (rt_manager RA)) (peerState a (rt_manager RB)) \<or>
      issued_to (peerState b (rt_manager RA)) (peerState a (rt_manager RB)))"

lemma shared_issued_config [simp]:
  "shared_span p (q\<lparr>pr_config := cfg\<rparr>) = shared_span p q"
  "issued_to p (q\<lparr>pr_config := cfg\<rparr>) = issued_to p q"
  by (simp_all add: shared_span_def issued_to_def)

lemma deliver_one:
  assumes "ccm_opens c" and "ready c a b sch keys RA RB" and "fst p \<noteq> []"
  shows "\<exists>frame RA' RB'. outbound_sendEncrypted c b p RA = (True, [SendData b frame (snd p)], RA') \<and>
    inbound_onApplicationCommand c a frame RB = Inr ([PublishCommand a (fst p)], RB') \<and>
    ready c a b sch keys RA' RB' \<and> rt_outbound RA' = rt_outbound RA"
proof -
  define cfg where "cfg = classConfig c keys sch (in_homeId (rt_inbound RB)) b a"
  define MB where "MB = configurePeer a cfg (rt_manager RB)"
  have pair: "paired a b sch keys RA RB" using assms(2) by (simp add: ready_def)
  have mir: "mirrored (pr_config (peerState b (rt_manager RA))) (pr_config (peerState a MB))"
    using assms(2) by (simp add: ready_def MB_def cfg_def classConfig_mirrored)
  have lock: "shared_span (peerState b (rt_manager RA)) (peerState a MB) \<or>
      issued_to (peerState b (rt_manager RA)) (peerState a MB)"
    using assms(2) by (simp add: ready_def MB_def)
  obtain frame A' B' where enc: "sm_encrypt c b (fst p) (rt_manager RA) = (Some frame, A')"
      and rcv: "receiveFrame c a frame MB = (Some (fst p), B')" and A': "entropy_ok A'"
      "shared_span (peerState b A') (peerState a B')"
      "pr_config (peerState b A') = pr_config (peerState b (rt_manager RA))"
      "pr_config (peerState a B') = pr_config (peerState a MB)"
    using message_step [OF assms(1) _ assms(3) mir lock] assms(2) unfolding ready_def by blast
  have "isEncap frame"
    using enc by (auto simp: sm_encrypt_def Let_def isEncap_encrypt split: option.splits prod.splits)
  then have "inbound_onApplicationCommand c a frame RB = Inr ([PublishCommand a (fst p)], RB\<lparr>rt_manager := B'\<rparr>)"
    using rcv A'(4) by (intro inbound_receives [OF pair]) (simp_all add: MB_def cfg_def)
  moreover have "ready c a b sch keys (RA\<lparr>rt_manager := A'\<rparr>) (RB\<lparr>rt_manager := B'\<rparr>)"
    using assms(2) A' by (simp add: ready_def)
  ultimately show ?thesis
    by (intro exI [of _ frame] exI [of _ "RA\<lparr>rt_manager := A'\<rparr>"] exI [of _ "RB\<lparr>rt_manager := B'\<rparr>"])
      (simp add: outbound_sendEncrypted_def enc)
qed

lemma deliver_queue:
  assumes "ccm_opens c"
  shows "ready c a b sch keys RA RB \<Longrightarrow> list_all (\<lambda>p. fst p \<noteq> []) ps \<Longrightarrow>
    \<exists>frames RA' RB'. drainQueue c b ps RA = (map2 (\<lambda>f p. SendData b f (snd p)) frames ps, RA') \<and>
      length frames = length ps \<and>
      inboundAll c a frames RB = Inr (map (\<lambda>p. PublishCommand a (fst p)) ps, RB') \<and>
      rt_outbound RA' = rt_outbound RA"
proof (induction ps arbitrary: RA RB)
  case (Cons p ps)
  then have "fst p \<noteq> []" by simp
  then obtain f RA1 RB1 where one: "outbound_sendEncrypted c b p RA = (True, [SendData b f (snd p)], RA1)"
      "inbound_onApplicationCommand c a f RB = Inr ([PublishCommand a (fst p)], RB1)"
      "ready c a b sch keys RA1 RB1" "rt_outbound RA1 = rt_outbound RA"
    using deliver_one [OF assms Cons.prems(1)] by blast
  obtain fs RA2 RB2 where rest: "drainQueue c b ps RA1 = (map2 (\<lambda>f p. SendData b f (snd p)) fs ps, RA2)"
      "length fs = length ps" "inboundAll c a fs RB1 = Inr (map (\<lambda>p. PublishCommand a (fst p)) ps, RB2)"
      "rt_outbound RA2 = rt_outbound RA1"
    using Cons.IH [OF one(3)] Cons.prems(2) by auto
  show ?case
    by (rule exI [of _ "f # fs"], rule exI [of _ RA2], rule exI [of _ RB2]) (simp add: one rest)
qed simp

section \<open>Properties\<close>

text \<open>
  C4: secure sending from end to end. Commands requested for a node with which no nonce generator
  is agreed are queued behind one nonce request; the other daemon answers it with a nonce report;
  the report makes the sender encrypt the whole queue, in order and each with its callback id; and
  the other daemon decrypts and publishes exactly those commands in that order. Both daemons run
  the orchestrators of this program, hold the same network keys and have each other on record
  with the same class.
\<close>

theorem s2_end_to_end:
  assumes "ccm_opens c" and "paired a b sch keys RA RB" and "unsynced b RA" and "entropy_ok (rt_manager RB)"
    and "queueOf b RA = []" and "ps \<noteq> []" and "list_all (\<lambda>p. fst p \<noteq> []) ps"
    and "requestAll c b ps RA = (requests, RA1)"
  shows "\<exists>get report frames RB1 RA2 RB2. requests = [SendData b get S2_NO_CALLBACK] \<and>
    inbound_onApplicationCommand c a get RB = Inr ([SendData a report S2_NO_CALLBACK], RB1) \<and>
    outbound_onApplicationCommand c b report RA1 = (map2 (\<lambda>f p. SendData b f (snd p)) frames ps, RA2) \<and>
    length frames = length ps \<and> queueOf b RA2 = [] \<and>
    inboundAll c a frames RB1 = Inr (map (\<lambda>p. PublishCommand a (fst p)) ps, RB2)"
proof -
  obtain payload cb qs where ps: "ps = (payload, cb) # qs" using assms(6) by (metis neq_Nil_conv old.prod.exhaust)
  let ?home = "out_homeId (rt_outbound RA)"
  have home: "in_homeId (rt_inbound RB) = ?home" using assms(2) by (simp add: paired_def)
  obtain n R1 where R1: "onSecureS2SendRequest c b payload cb RA = ([SendData b (encodeNonceGet n) S2_NO_CALLBACK], R1)"
      "queueOf b R1 = [(payload, cb)]" "paired a b sch keys R1 RB" "unsynced b R1"
      "out_homeId (rt_outbound R1) = ?home"
      "pr_config (peerState b (rt_manager R1)) = classConfig c keys sch ?home a b"
    using request_queues [OF assms(2,3), of c payload cb] assms(5) by (auto simp: queueOf_def [of b])
  obtain R2 where R2: "requestAll c b qs R1 = ([], R2)" "queueOf b R2 = ps" "paired a b sch keys R2 RB"
      "unsynced b R2" "pr_config (peerState b (rt_manager R2)) = classConfig c keys sch ?home a b"
    using requestAll_queues [OF R1(3,4), of c qs] R1 by (cases qs) (auto simp: ps)
  have req: "requests = [SendData b (encodeNonceGet n) S2_NO_CALLBACK]" "RA1 = R2"
    using assms(8) by (simp_all add: ps R1 R2)
  define MB where "MB = configurePeer a (classConfig c keys sch ?home b a) (rt_manager RB)"
  define rei where "rei = sm_entropy (rt_manager RB) (sm_draws (rt_manager RB))"
  define report where "report = fst (respondToNonceGet a MB)"
  define RB1 where "RB1 = RB\<lparr>rt_manager := snd (respondToNonceGet a MB)\<rparr>"
  have resp: "inbound_onApplicationCommand c a (encodeNonceGet n) RB = Inr ([SendData a report S2_NO_CALLBACK], RB1)"
    unfolding inbound_onApplicationCommand_def inbound_configurePeer_paired [OF assms(2)] home
    by (simp add: encodeNonceGet_def inbound_respond_def report_def RB1_def MB_def split: prod.splits)
  have MB: "entropy_ok MB" "sm_entropy MB (sm_draws MB) = rei"
    using assms(4) by (simp_all add: MB_def rei_def configurePeer_def setPeer_def entropy_ok_def)
  obtain r where r: "decodeNonceReport report = Some r" "nr_sos r" "nr_rei r = Some rei"
    using nonce_report_decodes [OF MB(1), of a] by (auto simp: report_def MB)
  let ?R3 = "R2\<lparr>rt_manager := acceptNonceReport b r (rt_manager R2)\<rparr>"
  have "ready c a b sch keys ?R3 RB1"
    using R2(3-5) assms(4) r
    by (simp add: ready_def unsynced_def home acceptNonceReport_def issued_to_def RB1_def
        respondToNonceGet_def drawEntropy_def Let_def MB(2))
  from deliver_queue [OF assms(1) this assms(7)] obtain frames RA' RB' where
    out: "drainQueue c b ps ?R3 = (map2 (\<lambda>f p. SendData b f (snd p)) frames ps, RA')"
      "length frames = length ps" "inboundAll c a frames RB1 = Inr (map (\<lambda>p. PublishCommand a (fst p)) ps, RB')"
    by blast
  have q: "out_queues (rt_outbound R2) b = Some ps"
    using R2(2) assms(6) by (auto simp: queueOf_def split: option.splits)
  have "outbound_onApplicationCommand c b report R2 =
      (map2 (\<lambda>f p. SendData b f (snd p)) frames ps, setQueue b None RA')"
    using nonceReport_headed.accepts_headed [OF r(1)] assms(6) q r(1) out(1)
    by (simp add: outbound_onApplicationCommand_def headed_commandByte Let_def)
  moreover have "queueOf b (setQueue b None RA') = []" by (simp add: queueOf_def setQueue_def)
  ultimately show ?thesis using req resp out(2,3) by blast
qed

definition demoRuntime :: "byte \<Rightarrow> byte \<Rightarrow> S2Runtime" where
  "demoRuntime us them =
     \<lparr>rt_registry = [them \<mapsto> S2Authenticated], rt_keys = Some (replicate 4 (replicate 16 9)),
      rt_manager = newSpanManager (\<lambda>i. replicate 16 us),
      rt_inbound = \<lparr>in_homeId = [1, 2, 3, 4], in_controllerNodeId = us\<rparr>,
      rt_outbound = \<lparr>out_queues = Map.empty, out_homeId = [1, 2, 3, 4], out_controllerNodeId = us\<rparr>\<rparr>"

definition demoQueue :: "(bytes \<times> byte) list" where
  "demoQueue = [([0x25, 1, 0xFF], 7), ([0x25, 2], 8)]"

theorem s2_end_to_end_witness:
  "\<exists>get report frames RB1 RA2 RB2.
    fst (requestAll toyCrypto2 5 demoQueue (demoRuntime 1 5)) =
      [SendData 5 get S2_NO_CALLBACK] \<and>
    inbound_onApplicationCommand toyCrypto2 1 get (demoRuntime 5 1) =
      Inr ([SendData 1 report S2_NO_CALLBACK], RB1) \<and>
    outbound_onApplicationCommand toyCrypto2 5 report
        (snd (requestAll toyCrypto2 5 demoQueue (demoRuntime 1 5))) =
      (map2 (\<lambda>f p. SendData 5 f (snd p)) frames demoQueue, RA2) \<and>
    length frames = length demoQueue \<and> queueOf 5 RA2 = [] \<and>
    inboundAll toyCrypto2 1 frames RB1 =
      Inr (map (\<lambda>p. PublishCommand 1 (fst p)) demoQueue, RB2)"
  by (rule s2_end_to_end [OF toyCrypto2_opens, where sch = S2Authenticated and keys = "replicate 4 (replicate 16 9)"])
    (simp_all add: demoQueue_def paired_def demoRuntime_def unsynced_def newSpanManager_def entropy_ok_def EI_SIZE_def
      peerState_def defaultPeer_def queueOf_def classForScheme_def del: requestAll.simps)

text \<open>
  The inbound handler reads past the end of exactly one payload. The two-byte encapsulation
  frame of a secure node for which a generator exists is the only input whose sequence byte is
  read outside the payload; on every other input the handler returns.
\<close>

theorem inbound_overread:
  "inbound_onApplicationCommand c nodeId data R = Inl OutOfBounds \<longleftrightarrow>
   data = [CC_SECURITY_2, CMD_ENCAP] \<and>
   (\<exists>key R1. inbound_configurePeer c nodeId R = (Some key, R1) \<and> hasSpan nodeId (rt_manager R1))"
proof (cases "length data < 2 \<or> data ! 0 \<noteq> CC_SECURITY_2")
  case True
  then show ?thesis by (auto simp: inbound_onApplicationCommand_def)
next
  case False
  obtain key R1 where conf: "inbound_configurePeer c nodeId R = (key, R1)" by (rule prod.exhaust)
  show ?thesis
  proof (cases "key = None \<or> data ! 1 \<noteq> CMD_ENCAP")
    case True
    then show ?thesis
      using False conf by (cases key) (auto simp: inbound_onApplicationCommand_def CMD_ENCAP_def S2_NONCE_GET_def)
  next
    case encap: False
    have short: "length data \<le> ENCAP_SEQ_OFFSET \<longleftrightarrow> data = [CC_SECURITY_2, CMD_ENCAP]"
      using False encap by (cases data; cases "tl data"; cases "tl (tl data)") (auto simp: ENCAP_SEQ_OFFSET_def)
    have nonce: "fst (receiveNonce c nodeId data (rt_manager R1)) \<noteq> None \<longleftrightarrow> hasSpan nodeId (rt_manager R1)"
      if "data = [CC_SECURITY_2, CMD_ENCAP]"
    proof -
      have "establishFromFrame c data p = p" for p
        by (simp add: that establishFromFrame_def isEncap_def S2_HEADER_SIZE_def split: option.splits)
      then show ?thesis
        by (auto simp: receiveNonce_def Let_def hasSpan_def peerState_def defaultPeer_def split: option.splits prod.splits)
    qed
    obtain k where k: "key = Some k" using encap by auto
    have "inbound_onApplicationCommand c nodeId data R = Inl OutOfBounds \<longleftrightarrow>
        fst (receiveNonce c nodeId data (rt_manager R1)) \<noteq> None \<and> length data \<le> ENCAP_SEQ_OFFSET"
      using False encap conf k
      by (auto simp: inbound_onApplicationCommand_def CMD_ENCAP_def S2_NONCE_GET_def Let_def
          split: prod.splits option.splits)
    then show ?thesis using short nonce conf k by auto
  qed
qed

end
