(* ===== verification/S2_Bootstrap.thy ===== *)
theory S2_Bootstrap
  imports S2_Orchestrators
begin

text \<open>
  The inclusion handshake of Security S2, \<open>SecurityS2BootstrapOrchestrator.cpp\<close>: a state
  machine per joining node, from the key exchange report over the DSK confirmation and the
  temporary channel to the installation of the class keys. The handlers return what they publish
  on the message bus. The private key that \<open>generateKeyPair\<close> draws is an argument; the span
  managers draw their entropy inputs from the same source, also after \<open>classSpanManager\<close> is
  replaced by a new one.
\<close>

section \<open>State\<close>

datatype Phase = AwaitKexReport | AwaitPublicKey | AwaitDsk | AwaitTempChannel | AwaitKexSetEcho
  | AwaitNetworkKeyGet | AwaitClassNonceGet | AwaitKeyVerify

definition CONTROLLER_SUPPORTED_KEYS :: byte where
  "CONTROLLER_SUPPORTED_KEYS = KEY_S2_UNAUTHENTICATED OR KEY_S2_AUTHENTICATED OR KEY_S2_ACCESS_CONTROL"
definition DSK_REQUIRED_KEYS :: byte where
  "DSK_REQUIRED_KEYS = KEY_S2_AUTHENTICATED OR KEY_S2_ACCESS_CONTROL"

record Session =
  se_phase :: Phase
  se_keyPair :: KeyPair
  se_grantedKeys :: byte
  se_nodePublicKey :: bytes
  se_tempKeys :: TempKeys
  se_sentKexSet :: KexSet
  se_receivedKexReport :: KexReport
  se_installingKeyBit :: byte
  se_installingClassKeys :: NetworkKeys

definition newSession :: "KeyPair \<Rightarrow> Session" where
  "newSession kp =
     \<lparr>se_phase = AwaitKexReport, se_keyPair = kp, se_grantedKeys = 0,
      se_nodePublicKey = replicate CURVE25519_KEY_SIZE 0,
      se_tempKeys = \<lparr>tk_keyCcm = replicate S2_KEY_SIZE 0, tk_personalization = replicate PERSONALIZATION_SIZE 0\<rparr>,
      se_sentKexSet = \<lparr>ks_echo = False, ks_requestCsa = False, ks_selectedScheme = 0, ks_selectedCurve = 0,
        ks_grantedKeys = 0\<rparr>,
      se_receivedKexReport = \<lparr>kr_echo = False, kr_requestCsa = False, kr_supportedSchemes = 0,
        kr_supportedCurves = 0, kr_requestedKeys = 0\<rparr>,
      se_installingKeyBit = 0,
      se_installingClassKeys = \<lparr>nk_keyCcm = replicate S2_KEY_SIZE 0,
        nk_personalization = replicate PERSONALIZATION_SIZE 0, nk_keyMpan = replicate S2_KEY_SIZE 0\<rparr>\<rparr>"

record Bootstrap =
  bs_sessions :: "byte \<rightharpoonup> Session"
  bs_spanManager :: SpanManager
  bs_classSpanManager :: SpanManager
  bs_homeId :: bytes
  bs_controllerNodeId :: byte
  bs_keysReady :: bool
  bs_keys :: "bytes list option"
  bs_registry :: schemeRegistry

datatype baction =
    BootSend byte bytes
  | DSKPendingConfirmation byte string
  | S2KeyAgreementComplete byte
  | NodeSecurityStatus byte byte

definition putSession :: "byte \<Rightarrow> Session \<Rightarrow> Bootstrap \<Rightarrow> Bootstrap" where
  "putSession nodeId s st = st\<lparr>bs_sessions := (bs_sessions st)(nodeId \<mapsto> s)\<rparr>"

definition eraseSession :: "byte \<Rightarrow> Bootstrap \<Rightarrow> Bootstrap" where
  "eraseSession nodeId st = st\<lparr>bs_sessions := (bs_sessions st)(nodeId := None)\<rparr>"

section \<open>The plaintext phase\<close>

definition onNodeIncluded :: "libcrypto2 \<Rightarrow> bytes \<Rightarrow> byte \<Rightarrow> bytes \<Rightarrow> Bootstrap \<Rightarrow> baction list \<times> Bootstrap" where
  "onNodeIncluded c drawn nodeId commandClasses st =
     (if CC_SECURITY_2 \<notin> set commandClasses then ([], st)
      else if \<not> bs_keysReady st then ([], st)
      else ([BootSend nodeId Kex_encodeGet], putSession nodeId (newSession (generateKeyPair c drawn)) st))"

definition onKexReport :: "byte \<Rightarrow> Session \<Rightarrow> bytes \<Rightarrow> Bootstrap \<Rightarrow> baction list \<times> Bootstrap" where
  "onKexReport nodeId session ccData st =
     (case Kex_decodeReport ccData of
        None \<Rightarrow> ([], st)
      | Some report \<Rightarrow>
          let granted = grantKeys report CONTROLLER_SUPPORTED_KEYS in
          if granted = 0
          then ([BootSend nodeId (Kex_encodeFail FAIL_KEY)], eraseSession nodeId st)
          else let kexSet = \<lparr>ks_echo = False, ks_requestCsa = False, ks_selectedScheme = KEX_SCHEME_1,
                             ks_selectedCurve = ECDH_CURVE25519, ks_grantedKeys = granted\<rparr>
               in ([BootSend nodeId (Kex_encodeSet kexSet)],
                   putSession nodeId (session\<lparr>se_grantedKeys := granted, se_receivedKexReport := report,
                     se_sentKexSet := kexSet, se_phase := AwaitPublicKey\<rparr>) st))"

definition finishKeyAgreement :: "libcrypto2 \<Rightarrow> byte \<Rightarrow> Session \<Rightarrow> Bootstrap \<Rightarrow> baction list \<times> Bootstrap" where
  "finishKeyAgreement c nodeId session st =
     (case ecdh c (kp_privateKey (se_keyPair session)) (se_nodePublicKey session) of
        None \<Rightarrow> ([BootSend nodeId (Kex_encodeFail FAIL_DECRYPT)], eraseSession nodeId st)
      | Some shared \<Rightarrow>
          let keys = deriveTempKeys c shared (kp_publicKey (se_keyPair session)) (se_nodePublicKey session);
              st1 = putSession nodeId (session\<lparr>se_tempKeys := keys, se_phase := AwaitTempChannel\<rparr>) st
          in ([S2KeyAgreementComplete nodeId],
              st1\<lparr>bs_spanManager := configurePeer nodeId
                    \<lparr>pc_classKey = tk_keyCcm keys, pc_personalization = tk_personalization keys,
                     pc_homeId = bs_homeId st1, pc_ourNodeId = bs_controllerNodeId st1, pc_peerNodeId = nodeId\<rparr>
                    (bs_spanManager st1)\<rparr>))"

definition onPublicKeyReport ::
  "libcrypto2 \<Rightarrow> byte \<Rightarrow> Session \<Rightarrow> bytes \<Rightarrow> Bootstrap \<Rightarrow> baction list \<times> Bootstrap" where
  "onPublicKeyReport c nodeId session ccData st =
     (case PublicKey_decode ccData of
        None \<Rightarrow> ([], st)
      | Some report \<Rightarrow>
          let session1 = session\<lparr>se_nodePublicKey := pk_key report\<rparr>;
              reply = BootSend nodeId (PublicKey_encode True (kp_publicKey (se_keyPair session1)) OBFUSCATE_NONE)
          in if se_grantedKeys session1 AND DSK_REQUIRED_KEYS \<noteq> 0
             then ([reply, DSKPendingConfirmation nodeId (dskString (pk_key report))],
                   putSession nodeId (session1\<lparr>se_phase := AwaitDsk\<rparr>) st)
             else (case finishKeyAgreement c nodeId session1 (putSession nodeId session1 st) of
                     (acts, st1) \<Rightarrow> (reply # acts, st1)))"

definition onConfirmDsk :: "libcrypto2 \<Rightarrow> byte \<Rightarrow> string \<Rightarrow> Bootstrap \<Rightarrow> baction list \<times> Bootstrap" where
  "onConfirmDsk c nodeId pinText st =
     (case bs_sessions st nodeId of
        None \<Rightarrow> ([], st)
      | Some session \<Rightarrow>
          if se_phase session \<noteq> AwaitDsk then ([], st)
          else (case parsePin pinText of
              None \<Rightarrow> ([], st)
            | Some pin \<Rightarrow>
                let session1 = session\<lparr>se_nodePublicKey := applyPin (se_nodePublicKey session) pin\<rparr>
                in case finishKeyAgreement c nodeId session1 (putSession nodeId session1 st) of
                     (acts, st1) \<Rightarrow> (DSKPendingConfirmation 0 [] # acts, st1)))"

section \<open>The temporary channel\<close>

definition boot_sendEncrypted :: "libcrypto2 \<Rightarrow> byte \<Rightarrow> bytes \<Rightarrow> Bootstrap \<Rightarrow> baction list \<times> Bootstrap" where
  "boot_sendEncrypted c nodeId inner st =
     (case sm_encrypt c nodeId inner (bs_spanManager st) of
        (None, M) \<Rightarrow> ([], st\<lparr>bs_spanManager := M\<rparr>)
      | (Some frame, M) \<Rightarrow> ([BootSend nodeId frame], st\<lparr>bs_spanManager := M\<rparr>))"

definition boot_context :: "byte \<Rightarrow> bytes \<Rightarrow> Bootstrap \<Rightarrow> EncapContext" where
  "boot_context nodeId frame st =
     \<lparr>ec_senderNodeId = nodeId, ec_receiverNodeId = bs_controllerNodeId st, ec_homeId = bs_homeId st,
      ec_sequenceNumber = frame ! ENCAP_SEQ_OFFSET\<rparr>"

definition decryptInbound ::
  "libcrypto2 \<Rightarrow> byte \<Rightarrow> Session \<Rightarrow> bytes \<Rightarrow> Bootstrap \<Rightarrow> fault + (bytes option \<times> Bootstrap)" where
  "decryptInbound c nodeId session frame st =
     (case receiveNonce c nodeId frame (bs_spanManager st) of
        (None, M) \<Rightarrow> Inr (None, st\<lparr>bs_spanManager := M\<rparr>)
      | (Some nonce, M) \<Rightarrow>
          if length frame \<le> ENCAP_SEQ_OFFSET then Inl OutOfBounds
          else Inr (S2_decrypt c frame (boot_context nodeId frame st) (tk_keyCcm (se_tempKeys session)) nonce,
                    st\<lparr>bs_spanManager := M\<rparr>))"

definition onKexSetEcho ::
  "libcrypto2 \<Rightarrow> byte \<Rightarrow> Session \<Rightarrow> bytes \<Rightarrow> Bootstrap \<Rightarrow> fault + (baction list \<times> Bootstrap)" where
  "onKexSetEcho c nodeId session frame st =
     (case decryptInbound c nodeId session frame st of
        Inl e \<Rightarrow> Inl e
      | Inr (None, st1) \<Rightarrow> Inr ([], st1)
      | Inr (Some inner, st1) \<Rightarrow>
          (case Kex_decodeSet inner of
             Some echoed \<Rightarrow>
               if ks_selectedScheme echoed = ks_selectedScheme (se_sentKexSet session) \<and>
                  ks_selectedCurve echoed = ks_selectedCurve (se_sentKexSet session) \<and>
                  ks_grantedKeys echoed = ks_grantedKeys (se_sentKexSet session)
               then (case boot_sendEncrypted c nodeId
                            (Kex_encodeReport ((se_receivedKexReport session)\<lparr>kr_echo := True\<rparr>)) st1 of
                       (acts, st2) \<Rightarrow>
                         Inr (acts, putSession nodeId (session\<lparr>se_phase := AwaitNetworkKeyGet\<rparr>) st2))
               else (case boot_sendEncrypted c nodeId (Kex_encodeFail FAIL_AUTH) st1 of
                       (acts, st2) \<Rightarrow> Inr (acts, eraseSession nodeId st2))
           | None \<Rightarrow>
               (case boot_sendEncrypted c nodeId (Kex_encodeFail FAIL_AUTH) st1 of
                  (acts, st2) \<Rightarrow> Inr (acts, eraseSession nodeId st2))))"

definition schemeFor :: "byte \<Rightarrow> SecurityScheme" where
  "schemeFor grantedKeys =
     (if grantedKeys AND KEY_S2_ACCESS_CONTROL \<noteq> 0 then S2AccessControl
      else if grantedKeys AND KEY_S2_AUTHENTICATED \<noteq> 0 then S2Authenticated
      else S2Unauthenticated)"

definition classKeyForBit :: "bytes list option \<Rightarrow> byte \<Rightarrow> bytes option" where
  "classKeyForBit current keyBit =
     (case (classForKeyBit keyBit, current) of
        (Some cls, Some keys) \<Rightarrow> Some (keyFor keys cls)
      | _ \<Rightarrow> None)"

definition completeBootstrap :: "byte \<Rightarrow> Session \<Rightarrow> Bootstrap \<Rightarrow> baction list \<times> Bootstrap" where
  "completeBootstrap nodeId session st =
     (let scheme = schemeFor (se_grantedKeys session)
      in ([NodeSecurityStatus nodeId (schemeNumber scheme)],
          eraseSession nodeId (st\<lparr>bs_registry := registry_setSecurityScheme nodeId scheme (bs_registry st)\<rparr>)))"

definition onKeyGet :: "libcrypto2 \<Rightarrow> byte \<Rightarrow> Session \<Rightarrow> bytes \<Rightarrow> Bootstrap \<Rightarrow> baction list \<times> Bootstrap" where
  "onKeyGet c nodeId session inner st =
     (case decodeKeyGet inner of
        None \<Rightarrow> ([], st)
      | Some requestedBit \<Rightarrow>
          if requestedBit AND se_grantedKeys session = 0
          then (case boot_sendEncrypted c nodeId (Kex_encodeFail FAIL_KEY_GET) st of
                  (acts, st1) \<Rightarrow> (acts, eraseSession nodeId st1))
          else (case classKeyForBit (bs_keys st) requestedBit of
              None \<Rightarrow> ([], st)
            | Some classKey \<Rightarrow>
                (case boot_sendEncrypted c nodeId (encodeKeyReport requestedBit classKey) st of
                   (acts, st1) \<Rightarrow>
                     (acts, putSession nodeId (session\<lparr>se_installingKeyBit := requestedBit,
                        se_installingClassKeys := networkKeyExpand c classKey,
                        se_phase := AwaitClassNonceGet\<rparr>) st1))))"

definition onTempChannelKeyExchange ::
  "libcrypto2 \<Rightarrow> byte \<Rightarrow> Session \<Rightarrow> bytes \<Rightarrow> Bootstrap \<Rightarrow> fault + (baction list \<times> Bootstrap)" where
  "onTempChannelKeyExchange c nodeId session frame st =
     (case decryptInbound c nodeId session frame st of
        Inl e \<Rightarrow> Inl e
      | Inr (None, st1) \<Rightarrow> Inr ([], st1)
      | Inr (Some inner, st1) \<Rightarrow>
          (case s2_commandByte inner of
             None \<Rightarrow> Inr ([], st1)
           | Some command \<Rightarrow>
               if command = TRANSFER_END
               then (case decodeTransferEnd inner of
                       None \<Rightarrow> Inr ([], st1)
                     | Some e \<Rightarrow> if te_keyRequestComplete e then Inr (completeBootstrap nodeId session st1)
                                 else Inr ([], st1))
               else if command \<noteq> NETWORK_KEY_GET then Inr ([], st1)
               else Inr (onKeyGet c nodeId session inner st1)))"

definition onKeyVerify ::
  "libcrypto2 \<Rightarrow> byte \<Rightarrow> Session \<Rightarrow> bytes \<Rightarrow> Bootstrap \<Rightarrow> fault + (baction list \<times> Bootstrap)" where
  "onKeyVerify c nodeId session frame st =
     (case receiveNonce c nodeId frame (bs_classSpanManager st) of
        (None, M) \<Rightarrow> Inr ([], st\<lparr>bs_classSpanManager := M\<rparr>)
      | (Some nonce, M) \<Rightarrow>
          if length frame \<le> ENCAP_SEQ_OFFSET then Inl OutOfBounds
          else let st1 = st\<lparr>bs_classSpanManager := M\<rparr> in
            case S2_decrypt c frame (boot_context nodeId frame st) (nk_keyCcm (se_installingClassKeys session)) nonce of
              None \<Rightarrow>
                (case boot_sendEncrypted c nodeId (Kex_encodeFail FAIL_KEY_VERIFY) st1 of
                   (acts, st2) \<Rightarrow> Inr (acts, eraseSession nodeId st2))
            | Some inner \<Rightarrow>
                (case boot_sendEncrypted c nodeId (encodeTransferEnd True False) st1 of
                   (acts, st2) \<Rightarrow> Inr (acts, putSession nodeId (session\<lparr>se_phase := AwaitNetworkKeyGet\<rparr>) st2)))"

text \<open>
  The two replies to a nonce request: on the temporary channel, and on the channel of the class
  key being installed, which starts from a new span manager.
\<close>

definition onTempNonceGet :: "byte \<Rightarrow> Session \<Rightarrow> Bootstrap \<Rightarrow> baction list \<times> Bootstrap" where
  "onTempNonceGet nodeId session st =
     (case respondToNonceGet nodeId (bs_spanManager st) of
        (payload, M) \<Rightarrow>
          ([BootSend nodeId payload],
           putSession nodeId (session\<lparr>se_phase := AwaitKexSetEcho\<rparr>) (st\<lparr>bs_spanManager := M\<rparr>)))"

definition onClassNonceGet :: "byte \<Rightarrow> Session \<Rightarrow> Bootstrap \<Rightarrow> baction list \<times> Bootstrap" where
  "onClassNonceGet nodeId session st =
     (let fresh = (bs_classSpanManager st)\<lparr>sm_peers := Map.empty\<rparr>;
          keys = se_installingClassKeys session;
          configured = configurePeer nodeId
            \<lparr>pc_classKey = nk_keyCcm keys, pc_personalization = nk_personalization keys,
             pc_homeId = bs_homeId st, pc_ourNodeId = bs_controllerNodeId st, pc_peerNodeId = nodeId\<rparr> fresh
      in case respondToNonceGet nodeId configured of
           (payload, M) \<Rightarrow>
             ([BootSend nodeId payload],
              putSession nodeId (session\<lparr>se_phase := AwaitKeyVerify\<rparr>) (st\<lparr>bs_classSpanManager := M\<rparr>)))"

definition boot_onApplicationCommand ::
  "libcrypto2 \<Rightarrow> byte \<Rightarrow> bytes \<Rightarrow> Bootstrap \<Rightarrow> fault + (baction list \<times> Bootstrap)" where
  "boot_onApplicationCommand c nodeId ccData st =
     (case bs_sessions st nodeId of
        None \<Rightarrow> Inr ([], st)
      | Some session \<Rightarrow>
          (case s2_commandByte ccData of
             None \<Rightarrow> Inr ([], st)
           | Some command \<Rightarrow>
               (case se_phase session of
                  AwaitKexReport \<Rightarrow>
                    if command = KEX_REPORT then Inr (onKexReport nodeId session ccData st) else Inr ([], st)
                | AwaitPublicKey \<Rightarrow>
                    if command = PUBLIC_KEY_REPORT then Inr (onPublicKeyReport c nodeId session ccData st)
                    else Inr ([], st)
                | AwaitDsk \<Rightarrow> Inr ([], st)
                | AwaitTempChannel \<Rightarrow>
                    if command = S2_NONCE_GET then Inr (onTempNonceGet nodeId session st) else Inr ([], st)
                | AwaitKexSetEcho \<Rightarrow>
                    if command = CMD_ENCAP then onKexSetEcho c nodeId session ccData st else Inr ([], st)
                | AwaitNetworkKeyGet \<Rightarrow>
                    if command = CMD_ENCAP then onTempChannelKeyExchange c nodeId session ccData st else Inr ([], st)
                | AwaitClassNonceGet \<Rightarrow>
                    if command = S2_NONCE_GET then Inr (onClassNonceGet nodeId session st) else Inr ([], st)
                | AwaitKeyVerify \<Rightarrow>
                    if command = CMD_ENCAP then onKeyVerify c nodeId session ccData st else Inr ([], st))))"

definition boot_onDongleInfo :: "bytes \<Rightarrow> byte \<Rightarrow> Bootstrap \<Rightarrow> Bootstrap" where
  "boot_onDongleInfo homeId controllerNodeId st =
     (let n = min (length homeId) (length (bs_homeId st))
      in st\<lparr>bs_controllerNodeId := controllerNodeId, bs_homeId := take n homeId @ drop n (bs_homeId st)\<rparr>)"

definition boot_onKeysReady :: "bool \<Rightarrow> Bootstrap \<Rightarrow> Bootstrap" where
  "boot_onKeysReady isReady st = st\<lparr>bs_keysReady := isReady\<rparr>"

section \<open>Runs\<close>

text \<open>The events of the message bus the orchestrator subscribes to.\<close>

datatype bevent =
    NodeIncluded byte bytes bytes
  | AppCommand byte bytes
  | ConfirmDsk byte string
  | DongleInfo bytes byte
  | S2NetworkKeysReady bool

fun bootStep :: "libcrypto2 \<Rightarrow> bevent \<Rightarrow> Bootstrap \<Rightarrow> fault + (baction list \<times> Bootstrap)" where
  "bootStep c (NodeIncluded n ccs drawn) st = Inr (onNodeIncluded c drawn n ccs st)"
| "bootStep c (AppCommand n data) st = boot_onApplicationCommand c n data st"
| "bootStep c (ConfirmDsk n pin) st = Inr (onConfirmDsk c n pin st)"
| "bootStep c (DongleInfo home i) st = Inr ([], boot_onDongleInfo home i st)"
| "bootStep c (S2NetworkKeysReady r) st = Inr ([], boot_onKeysReady r st)"

text \<open>A run from a state without sessions: the states and events so far, and what was published.\<close>

inductive boot_run :: "libcrypto2 \<Rightarrow> (Bootstrap \<times> bevent) list \<Rightarrow> baction list \<Rightarrow> Bootstrap \<Rightarrow> bool" for c where
  start: "bs_sessions st = Map.empty \<Longrightarrow> boot_run c [] [] st"
| step: "boot_run c h acts st \<Longrightarrow> bootStep c e st = Inr (new, st') \<Longrightarrow>
         boot_run c (h @ [(st, e)]) (acts @ new) st'"

section \<open>The invariant\<close>

text \<open>The phases in which the echo of the grant has been verified.\<close>

definition late :: "Session \<Rightarrow> bool" where
  "late s \<longleftrightarrow> se_phase s \<in> {AwaitNetworkKeyGet, AwaitClassNonceGet, AwaitKeyVerify}"

definition granted_ok :: "Session \<Rightarrow> bool" where
  "granted_ok s \<longleftrightarrow> se_grantedKeys s \<noteq> 0 \<and>
     se_grantedKeys s = grantKeys (se_receivedKexReport s) CONTROLLER_SUPPORTED_KEYS \<and>
     ks_grantedKeys (se_sentKexSet s) = se_grantedKeys s"

definition temp_ok :: "libcrypto2 \<Rightarrow> Session \<Rightarrow> bool" where
  "temp_ok c s \<longleftrightarrow> (\<exists>shared. ecdh c (kp_privateKey (se_keyPair s)) (se_nodePublicKey s) = Some shared \<and>
     se_tempKeys s = deriveTempKeys c shared (kp_publicKey (se_keyPair s)) (se_nodePublicKey s))"

definition installing_ok :: "Session \<Rightarrow> bool" where
  "installing_ok s \<longleftrightarrow> se_installingKeyBit s AND se_grantedKeys s \<noteq> 0 \<and> classForKeyBit (se_installingKeyBit s) \<noteq> None"

definition session_ok :: "libcrypto2 \<Rightarrow> Session \<Rightarrow> bool" where
  "session_ok c s \<longleftrightarrow>
     (se_phase s \<noteq> AwaitKexReport \<longrightarrow> granted_ok s) \<and>
     (se_phase s \<notin> {AwaitKexReport, AwaitPublicKey, AwaitDsk} \<longrightarrow> temp_ok c s) \<and>
     (se_phase s \<in> {AwaitClassNonceGet, AwaitKeyVerify} \<longrightarrow> installing_ok s)"

definition sessions_ok :: "libcrypto2 \<Rightarrow> Bootstrap \<Rightarrow> bool" where
  "sessions_ok c st \<longleftrightarrow> (\<forall>n s. bs_sessions st n = Some s \<longrightarrow> session_ok c s)"

text \<open>
  The step at which the echo of the grant is verified: an encapsulated frame decrypts on the
  temporary channel to a grant equal to the one that was sent.
\<close>

definition verifiedEcho :: "libcrypto2 \<Rightarrow> Bootstrap \<Rightarrow> bevent \<Rightarrow> byte \<Rightarrow> byte \<Rightarrow> bool" where
  "verifiedEcho c st e n granted \<longleftrightarrow> (\<exists>data s inner echoed st1.
     e = AppCommand n data \<and> bs_sessions st n = Some s \<and> temp_ok c s \<and>
     decryptInbound c n s data st = Inr (Some inner, st1) \<and> Kex_decodeSet inner = Some echoed \<and>
     ks_grantedKeys echoed = granted \<and> granted = grantKeys (se_receivedKexReport s) CONTROLLER_SUPPORTED_KEYS)"

text \<open>What one step does to the session of node \<open>n\<close>, and what it publishes.\<close>

definition next_ok :: "libcrypto2 \<Rightarrow> byte \<Rightarrow> bevent \<Rightarrow> Bootstrap \<Rightarrow> Session \<Rightarrow> bool" where
  "next_ok c n e st s' \<longleftrightarrow> session_ok c s' \<and>
     (late s' \<longrightarrow> (\<exists>s. bs_sessions st n = Some s \<and> late s \<and> se_grantedKeys s' = se_grantedKeys s) \<or>
                  verifiedEcho c st e n (se_grantedKeys s'))"

definition step_ok :: "libcrypto2 \<Rightarrow> byte \<Rightarrow> bevent \<Rightarrow> Bootstrap \<Rightarrow> baction list \<Rightarrow> Bootstrap \<Rightarrow> bool" where
  "step_ok c n e st acts st' \<longleftrightarrow>
     (\<exists>x. bs_sessions st' = (bs_sessions st)(n := x) \<and> (\<forall>s'. x = Some s' \<longrightarrow> next_ok c n e st s')) \<and>
     (\<forall>m sch. NodeSecurityStatus m sch \<in> set acts \<longrightarrow> m = n \<and>
        (\<exists>s. bs_sessions st n = Some s \<and> late s \<and> sch = schemeNumber (schemeFor (se_grantedKeys s))))"

lemma session_ok_next: "sessions_ok c st \<Longrightarrow> bs_sessions st n = Some s \<Longrightarrow> next_ok c n e st s"
  by (auto simp: next_ok_def sessions_ok_def)

fun isStatus :: "baction \<Rightarrow> bool" where
  "isStatus (NodeSecurityStatus _ _) \<longleftrightarrow> True"
| "isStatus _ \<longleftrightarrow> False"

lemma step_ok_unchanged:
  assumes "sessions_ok c st" and "bs_sessions st' = bs_sessions st" and "list_all (\<lambda>a. \<not> isStatus a) acts"
  shows "step_ok c n e st acts st'"
  using assms session_ok_next [OF assms(1)]
  by (auto simp: step_ok_def list_all_iff intro!: exI [of _ "bs_sessions st n"])

lemma step_ok_erase:
  assumes "bs_sessions st' = (bs_sessions st)(n := None)" and "list_all (\<lambda>a. \<not> isStatus a) acts"
  shows "step_ok c n e st acts st'"
  using assms by (auto simp: step_ok_def list_all_iff intro!: exI [of _ None])

lemma step_ok_put:
  assumes "bs_sessions st' = (bs_sessions st)(n \<mapsto> s')" and "list_all (\<lambda>a. \<not> isStatus a) acts"
    and "next_ok c n e st s'"
  shows "step_ok c n e st acts st'"
  using assms by (auto simp: step_ok_def list_all_iff intro!: exI [of _ "Some s'"])

lemma sessions_put [simp]: "bs_sessions (putSession n s st) = (bs_sessions st)(n \<mapsto> s)"
  by (simp add: putSession_def)

lemma sessions_erase [simp]: "bs_sessions (eraseSession n st) = (bs_sessions st)(n := None)"
  by (simp add: eraseSession_def)

lemma sendEncrypted_quiet:
  "boot_sendEncrypted c n inner st = (acts, st') \<Longrightarrow>
   bs_sessions st' = bs_sessions st \<and> list_all (\<lambda>a. \<not> isStatus a) acts \<and> bs_keys st' = bs_keys st"
  by (auto simp: boot_sendEncrypted_def split: prod.splits option.splits)

lemma decryptInbound_quiet:
  "decryptInbound c n s frame st = Inr (r, st') \<Longrightarrow> bs_sessions st' = bs_sessions st"
  by (auto simp: decryptInbound_def split: prod.splits option.splits if_splits)

section \<open>Every handler keeps the invariant\<close>

lemma session_updates [simp]:
  "granted_ok (s\<lparr>se_phase := p\<rparr>) = granted_ok s"
  "granted_ok (s\<lparr>se_nodePublicKey := k\<rparr>) = granted_ok s"
  "granted_ok (s\<lparr>se_installingKeyBit := b\<rparr>) = granted_ok s"
  "granted_ok (s\<lparr>se_installingClassKeys := ks\<rparr>) = granted_ok s"
  "temp_ok c (s\<lparr>se_phase := p\<rparr>) = temp_ok c s"
  "temp_ok c (s\<lparr>se_installingKeyBit := b\<rparr>) = temp_ok c s"
  "temp_ok c (s\<lparr>se_installingClassKeys := ks\<rparr>) = temp_ok c s"
  "installing_ok (s\<lparr>se_phase := p\<rparr>) = installing_ok s"
  by (simp_all add: granted_ok_def temp_ok_def installing_ok_def)

lemma newSession_ok: "next_ok c n e st (newSession kp)"
  by (simp add: next_ok_def session_ok_def newSession_def late_def)

lemma onNodeIncluded_ok:
  assumes "sessions_ok c st" and "onNodeIncluded c drawn n ccs st = (acts, st')"
  shows "step_ok c n e st acts st'"
proof (cases "CC_SECURITY_2 \<in> set ccs \<and> bs_keysReady st")
  case True
  then show ?thesis
    using assms(2) by (intro step_ok_put [OF _ _ newSession_ok]) (auto simp: onNodeIncluded_def)
next
  case False
  then show ?thesis
    using assms by (intro step_ok_unchanged) (auto simp: onNodeIncluded_def split: if_splits)
qed

lemma onKexReport_ok:
  assumes "sessions_ok c st" and "onKexReport n s data st = (acts, st')"
  shows "step_ok c n e st acts st'"
proof (cases "Kex_decodeReport data")
  case None
  then show ?thesis using assms by (intro step_ok_unchanged) (simp_all add: onKexReport_def)
next
  case (Some report)
  show ?thesis
  proof (cases "grantKeys report CONTROLLER_SUPPORTED_KEYS = 0")
    case True
    then show ?thesis using assms(2) Some by (intro step_ok_erase) (auto simp: onKexReport_def)
  next
    case False
    then show ?thesis
      using assms(2) Some
      by (intro step_ok_put) (auto simp: onKexReport_def Let_def next_ok_def session_ok_def granted_ok_def late_def)
  qed
qed

lemma finishKeyAgreement_ok:
  assumes "finishKeyAgreement c n s st1 = (acts, st')" and "granted_ok s"
    and "bs_sessions st1 = (bs_sessions st)(n \<mapsto> s1)" and "list_all (\<lambda>a. \<not> isStatus a) pre"
  shows "step_ok c n e st (pre @ acts) st'"
proof (cases "ecdh c (kp_privateKey (se_keyPair s)) (se_nodePublicKey s)")
  case None
  then show ?thesis
    using assms by (intro step_ok_erase) (auto simp: finishKeyAgreement_def)
next
  case (Some shared)
  then show ?thesis
    using assms by (intro step_ok_put)
      (auto simp: finishKeyAgreement_def Let_def next_ok_def session_ok_def granted_ok_def temp_ok_def late_def)
qed

lemma onPublicKeyReport_ok:
  assumes "sessions_ok c st" and "onPublicKeyReport c n s data st = (acts, st')" and "granted_ok s"
  shows "step_ok c n e st acts st'"
proof (cases "PublicKey_decode data")
  case None
  then show ?thesis using assms by (intro step_ok_unchanged) (simp_all add: onPublicKeyReport_def)
next
  case (Some report)
  let ?s1 = "s\<lparr>se_nodePublicKey := pk_key report\<rparr>"
  let ?reply = "BootSend n (PublicKey_encode True (kp_publicKey (se_keyPair s)) OBFUSCATE_NONE)"
  have g: "granted_ok ?s1" using assms(3) by simp
  show ?thesis
  proof (cases "se_grantedKeys s AND DSK_REQUIRED_KEYS \<noteq> 0")
    case True
    then show ?thesis
      using assms(2,3) Some
      by (intro step_ok_put) (auto simp: onPublicKeyReport_def Let_def next_ok_def session_ok_def late_def)
  next
    case False
    obtain acts1 st1 where f: "finishKeyAgreement c n ?s1 (putSession n ?s1 st) = (acts1, st1)" by (rule prod.exhaust)
    have "step_ok c n e st ([?reply] @ acts1) st1"
      by (rule finishKeyAgreement_ok [OF f g]) simp_all
    then show ?thesis
      using assms(2) Some False f by (simp add: onPublicKeyReport_def)
  qed
qed

lemma onConfirmDsk_ok:
  assumes "sessions_ok c st" and "onConfirmDsk c n pinText st = (acts, st')"
  shows "step_ok c n e st acts st'"
proof (cases "\<exists>s pin. bs_sessions st n = Some s \<and> se_phase s = AwaitDsk \<and> parsePin pinText = Some pin")
  case True
  then obtain s pin where s: "bs_sessions st n = Some s" "se_phase s = AwaitDsk" "parsePin pinText = Some pin"
    by blast
  let ?s1 = "s\<lparr>se_nodePublicKey := applyPin (se_nodePublicKey s) pin\<rparr>"
  obtain acts1 st1 where f: "finishKeyAgreement c n ?s1 (putSession n ?s1 st) = (acts1, st1)" by (rule prod.exhaust)
  have "granted_ok s" using assms(1) s by (auto simp: sessions_ok_def session_ok_def)
  then have "granted_ok ?s1" by simp
  then have "step_ok c n e st ([DSKPendingConfirmation 0 []] @ acts1) st1"
    by (intro finishKeyAgreement_ok [OF f]) simp_all
  then show ?thesis using assms(2) s f by (simp add: onConfirmDsk_def)
next
  case False
  then have "onConfirmDsk c n pinText st = ([], st)"
    by (auto simp: onConfirmDsk_def split: option.splits)
  then show ?thesis using assms by (intro step_ok_unchanged) simp_all
qed

lemma onTempNonceGet_ok:
  assumes "onTempNonceGet n s st = (acts, st')" and "granted_ok s" and "temp_ok c s"
  shows "step_ok c n e st acts st'"
  using assms
  by (intro step_ok_put) (auto simp: onTempNonceGet_def next_ok_def session_ok_def late_def
      split: prod.splits)

lemma onClassNonceGet_ok:
  assumes "onClassNonceGet n s st = (acts, st')" and "granted_ok s" and "temp_ok c s" and "installing_ok s"
    and "bs_sessions st n = Some s" and "late s"
  shows "step_ok c n e st acts st'"
  using assms
  by (intro step_ok_put) (auto simp: onClassNonceGet_def Let_def next_ok_def session_ok_def late_def
      split: prod.splits)

lemma onKexSetEcho_ok:
  assumes "sessions_ok c st" and "onKexSetEcho c n s data st = Inr (acts, st')" and "granted_ok s" and "temp_ok c s"
    and "bs_sessions st n = Some s"
  shows "step_ok c n (AppCommand n data) st acts st'"
proof -
  obtain r st1 where d: "decryptInbound c n s data st = Inr (r, st1)"
    using assms(2) by (cases "decryptInbound c n s data st") (auto simp: onKexSetEcho_def)
  note q = decryptInbound_quiet [OF d]
  show ?thesis
  proof (cases "\<exists>inner echoed. r = Some inner \<and> Kex_decodeSet inner = Some echoed \<and>
      ks_selectedScheme echoed = ks_selectedScheme (se_sentKexSet s) \<and>
      ks_selectedCurve echoed = ks_selectedCurve (se_sentKexSet s) \<and>
      ks_grantedKeys echoed = ks_grantedKeys (se_sentKexSet s)")
    case True
    then obtain inner echoed where r: "r = Some inner" "Kex_decodeSet inner = Some echoed"
      "ks_selectedScheme echoed = ks_selectedScheme (se_sentKexSet s)"
      "ks_selectedCurve echoed = ks_selectedCurve (se_sentKexSet s)"
      "ks_grantedKeys echoed = ks_grantedKeys (se_sentKexSet s)" by blast
    obtain as st2 where sent: "boot_sendEncrypted c n
        (Kex_encodeReport ((se_receivedKexReport s)\<lparr>kr_echo := True\<rparr>)) st1 = (as, st2)" by (rule prod.exhaust)
    have res: "acts = as" "st' = putSession n (s\<lparr>se_phase := AwaitNetworkKeyGet\<rparr>) st2"
      using assms(2) by (simp_all add: onKexSetEcho_def d r sent)
    have "verifiedEcho c st (AppCommand n data) n (se_grantedKeys s)"
      using assms(3-5) d r by (auto simp: verifiedEcho_def granted_ok_def)
    then have "next_ok c n (AppCommand n data) st (s\<lparr>se_phase := AwaitNetworkKeyGet\<rparr>)"
      using assms(3,4) by (simp add: next_ok_def session_ok_def)
    then show ?thesis
      using sendEncrypted_quiet [OF sent] q by (intro step_ok_put) (simp_all add: res)
  next
    case False
    show ?thesis
    proof (cases r)
      case None
      then show ?thesis using assms(1,2) q by (intro step_ok_unchanged) (auto simp: onKexSetEcho_def d)
    next
      case (Some inner)
      obtain as st2 where sent: "boot_sendEncrypted c n (Kex_encodeFail FAIL_AUTH) st1 = (as, st2)"
        by (rule prod.exhaust)
      have "acts = as" "st' = eraseSession n st2"
        using assms(2) False by (auto simp: onKexSetEcho_def d Some sent split: option.splits if_splits)
      then show ?thesis
        using sendEncrypted_quiet [OF sent] q by (intro step_ok_erase) simp_all
    qed
  qed
qed

lemma completeBootstrap_ok:
  assumes "completeBootstrap n s st1 = (acts, st')" and "bs_sessions st1 = bs_sessions st"
    and "bs_sessions st n = Some s" and "late s"
  shows "step_ok c n e st acts st'"
  using assms by (auto simp: step_ok_def completeBootstrap_def Let_def)

lemma classKey_class: "classKeyForBit keys kb = Some k \<Longrightarrow> classForKeyBit kb \<noteq> None"
  by (auto simp: classKeyForBit_def split: option.splits)

lemma onKeyGet_ok:
  assumes "sessions_ok c st" and "onKeyGet c n s inner st1 = (acts, st')" and "bs_sessions st1 = bs_sessions st"
    and "bs_sessions st n = Some s" and "late s" and "granted_ok s" and "temp_ok c s"
  shows "step_ok c n e st acts st'"
proof (cases "decodeKeyGet inner")
  case None
  then show ?thesis using assms by (intro step_ok_unchanged) (simp_all add: onKeyGet_def)
next
  case (Some kb)
  show ?thesis
  proof (cases "kb AND se_grantedKeys s = 0")
    case True
    obtain as st2 where sent: "boot_sendEncrypted c n (Kex_encodeFail FAIL_KEY_GET) st1 = (as, st2)"
      by (rule prod.exhaust)
    show ?thesis
      using sendEncrypted_quiet [OF sent] assms(2,3)
      by (intro step_ok_erase) (auto simp: onKeyGet_def Some True sent)
  next
    case False
    show ?thesis
    proof (cases "classKeyForBit (bs_keys st1) kb")
      case None
      then show ?thesis using assms Some False by (intro step_ok_unchanged) (simp_all add: onKeyGet_def)
    next
      case key: (Some k)
      obtain as st2 where sent: "boot_sendEncrypted c n (encodeKeyReport kb k) st1 = (as, st2)"
        by (rule prod.exhaust)
      let ?s1 = "s\<lparr>se_installingKeyBit := kb, se_installingClassKeys := networkKeyExpand c k,
          se_phase := AwaitClassNonceGet\<rparr>"
      have res: "acts = as" "st' = putSession n ?s1 st2"
        using assms(2) by (auto simp: onKeyGet_def Some False key sent)
      have "installing_ok ?s1"
        using False classKey_class [OF key] by (simp add: installing_ok_def)
      then have "next_ok c n e st ?s1"
        using assms(4-7) by (simp add: next_ok_def session_ok_def)
      then show ?thesis
        using sendEncrypted_quiet [OF sent] assms(3) by (intro step_ok_put) (simp_all add: res)
    qed
  qed
qed

lemma onTempChannelKeyExchange_ok:
  assumes "sessions_ok c st" and "onTempChannelKeyExchange c n s data st = Inr (acts, st')"
    and "bs_sessions st n = Some s" and "late s" and "granted_ok s" and "temp_ok c s"
  shows "step_ok c n e st acts st'"
proof -
  obtain r st1 where d: "decryptInbound c n s data st = Inr (r, st1)"
    using assms(2) by (cases "decryptInbound c n s data st") (auto simp: onTempChannelKeyExchange_def)
  note q = decryptInbound_quiet [OF d]
  consider "acts = []" "st' = st1" | "completeBootstrap n s st1 = (acts, st')"
    | inner where "onKeyGet c n s inner st1 = (acts, st')"
    using assms(2) by (auto simp: onTempChannelKeyExchange_def d split: option.splits if_splits)
  then show ?thesis
  proof cases
    case 1
    then show ?thesis using assms(1) q by (intro step_ok_unchanged) simp_all
  next
    case 2
    then show ?thesis using q assms(3,4) by (rule completeBootstrap_ok)
  next
    case 3
    then show ?thesis using q assms(3-6) by (intro onKeyGet_ok [OF assms(1)])
  qed
qed

lemma onKeyVerify_ok:
  assumes "sessions_ok c st" and "onKeyVerify c n s data st = Inr (acts, st')"
    and "bs_sessions st n = Some s" and "late s" and "granted_ok s" and "temp_ok c s"
  shows "step_ok c n e st acts st'"
proof -
  obtain r M where d: "receiveNonce c n data (bs_classSpanManager st) = (r, M)" by (rule prod.exhaust)
  let ?st1 = "st\<lparr>bs_classSpanManager := M\<rparr>"
  consider "acts = []" "st' = ?st1"
    | st2 where "boot_sendEncrypted c n (Kex_encodeFail FAIL_KEY_VERIFY) ?st1 = (acts, st2)" "st' = eraseSession n st2"
    | st2 where "boot_sendEncrypted c n (encodeTransferEnd True False) ?st1 = (acts, st2)"
        "st' = putSession n (s\<lparr>se_phase := AwaitNetworkKeyGet\<rparr>) st2"
    using assms(2) by (auto simp: onKeyVerify_def d Let_def split: option.splits if_splits prod.splits)
  then show ?thesis
  proof cases
    case 1
    then show ?thesis using assms(1) by (intro step_ok_unchanged) simp_all
  next
    case 2
    then show ?thesis using sendEncrypted_quiet [OF 2(1)] by (intro step_ok_erase) simp_all
  next
    case 3
    then show ?thesis
      using sendEncrypted_quiet [OF 3(1)] assms(3-6)
      by (intro step_ok_put [where s' = "s\<lparr>se_phase := AwaitNetworkKeyGet\<rparr>"])
        (simp_all add: next_ok_def session_ok_def)
  qed
qed

lemma onApplicationCommand_ok:
  assumes "sessions_ok c st" and "boot_onApplicationCommand c n data st = Inr (acts, st')"
  shows "step_ok c n (AppCommand n data) st acts st'"
proof (cases "\<exists>s cmd. bs_sessions st n = Some s \<and> s2_commandByte data = Some cmd")
  case False
  then show ?thesis
    using assms by (intro step_ok_unchanged) (auto simp: boot_onApplicationCommand_def split: option.splits)
next
  case True
  then obtain s cmd where s: "bs_sessions st n = Some s" "s2_commandByte data = Some cmd" by blast
  have ok: "session_ok c s" using assms(1) s(1) by (auto simp: sessions_ok_def)
  have un: "step_ok c n (AppCommand n data) st [] st"
    using assms(1) by (rule step_ok_unchanged) simp_all
  note on = assms(2) [unfolded boot_onApplicationCommand_def s option.case]
  show ?thesis
    using on ok s(1) un
    by (cases "se_phase s")
      (auto simp: session_ok_def late_def split: if_splits intro: onKexReport_ok [OF assms(1)]
        onPublicKeyReport_ok [OF assms(1)] onTempNonceGet_ok onClassNonceGet_ok onKexSetEcho_ok [OF assms(1)]
        onTempChannelKeyExchange_ok [OF assms(1)] onKeyVerify_ok [OF assms(1)])
qed

text \<open>The node an event is about.\<close>

fun subject :: "bevent \<Rightarrow> byte" where
  "subject (NodeIncluded n _ _) = n"
| "subject (AppCommand n _) = n"
| "subject (ConfirmDsk n _) = n"
| "subject _ = 0"

lemma bootStep_ok:
  assumes "sessions_ok c st" and "bootStep c e st = Inr (acts, st')"
  shows "step_ok c (subject e) e st acts st'"
  using assms
  by (cases e)
    (auto intro: onNodeIncluded_ok onApplicationCommand_ok onConfirmDsk_ok step_ok_unchanged
      simp: boot_onDongleInfo_def boot_onKeysReady_def Let_def)

lemma step_ok_sessions:
  assumes "step_ok c n e st acts st'" and "sessions_ok c st"
  shows "sessions_ok c st'"
  using assms by (auto simp: step_ok_def sessions_ok_def next_ok_def split: if_splits)

lemma boot_run_ok: "boot_run c h acts st \<Longrightarrow> sessions_ok c st"
proof (induction rule: boot_run.induct)
  case (start st)
  then show ?case by (simp add: sessions_ok_def)
next
  case (step h acts st e new st')
  then show ?case using bootStep_ok step_ok_sessions by blast
qed

text \<open>In the phases after the echo there is a verified echo in the history of the run.\<close>

lemma boot_run_echo:
  assumes "boot_run c h acts st"
  shows "\<forall>n s. bs_sessions st n = Some s \<longrightarrow> late s \<longrightarrow> (\<exists>(st0, e) \<in> set h. verifiedEcho c st0 e n (se_grantedKeys s))"
  using assms
proof (induction rule: boot_run.induct)
  case (step h acts st e new st')
  have "step_ok c (subject e) e st new st'"
    using bootStep_ok [OF boot_run_ok [OF step.hyps(1)] step.hyps(2)] .
  then obtain x where x: "bs_sessions st' = (bs_sessions st)(subject e := x)"
      "\<And>s'. x = Some s' \<Longrightarrow> next_ok c (subject e) e st s'"
    by (auto simp: step_ok_def)
  show ?case
  proof (intro allI impI)
    fix n s assume s: "bs_sessions st' n = Some s" "late s"
    consider "bs_sessions st n = Some s" | "n = subject e" "next_ok c n e st s"
      using s(1) x by (auto split: if_splits)
    then have "(\<exists>s0. bs_sessions st n = Some s0 \<and> late s0 \<and> se_grantedKeys s = se_grantedKeys s0) \<or>
        verifiedEcho c st e n (se_grantedKeys s)"
      using s(2) by cases (auto simp: next_ok_def)
    then show "\<exists>(st0, e') \<in> set (h @ [(st, e)]). verifiedEcho c st0 e' n (se_grantedKeys s)"
      using step.IH by fastforce
  qed
qed simp

lemma boot_run_status:
  assumes "boot_run c h acts st" and "NodeSecurityStatus n sch \<in> set acts"
  shows "\<exists>(st0, e) \<in> set h. \<exists>granted. verifiedEcho c st0 e n granted \<and> sch = schemeNumber (schemeFor granted)"
  using assms
proof (induction rule: boot_run.induct)
  case (step h acts st e new st')
  show ?case
  proof (cases "NodeSecurityStatus n sch \<in> set acts")
    case True
    then show ?thesis using step.IH by fastforce
  next
    case False
    then have new: "NodeSecurityStatus n sch \<in> set new" using step.prems by simp
    have "step_ok c (subject e) e st new st'"
      using bootStep_ok [OF boot_run_ok [OF step.hyps(1)] step.hyps(2)] .
    with new obtain s where "bs_sessions st n = Some s" "late s" "sch = schemeNumber (schemeFor (se_grantedKeys s))"
      by (auto simp: step_ok_def)
    then show ?thesis using boot_run_echo [OF step.hyps(1)] by fastforce
  qed
qed simp

lemma single_bit: "(2 ^ j :: byte) AND g \<noteq> 0 \<Longrightarrow> 2 ^ j AND NOT g = 0"
  unfolding and.commute [of "2 ^ j"] and_eq_0_bit_iff by (simp add: bit_not_iff)

lemma installing_class:
  assumes "session_ok c s" and "se_phase s \<in> {AwaitClassNonceGet, AwaitKeyVerify}"
  shows "se_installingKeyBit s \<in> {KEY_S2_UNAUTHENTICATED, KEY_S2_AUTHENTICATED, KEY_S2_ACCESS_CONTROL} \<and>
    se_installingKeyBit s AND NOT (se_grantedKeys s) = 0"
proof -
  let ?k = "se_installingKeyBit s" and ?g = "se_grantedKeys s"
  have i: "?k AND ?g \<noteq> 0" "classForKeyBit ?k \<noteq> None" and g: "granted_ok s"
    using assms by (auto simp: session_ok_def installing_ok_def)
  have "?g AND 128 = 0"
    using g by (auto simp: granted_ok_def grantKeys_def CONTROLLER_SUPPORTED_KEYS_def kex_key_defs Let_def and.assoc)
  then have "?k \<noteq> 128" using i(1) by (auto simp: and.commute)
  then have k: "?k \<in> {1, 2, 4}"
    using i(2) by (auto simp: classForKeyBit_def kex_key_defs split: if_splits)
  then have "?k AND NOT ?g = 0"
    using i(1) single_bit [of 0 ?g] single_bit [of 1 ?g] single_bit [of 2 ?g] by auto
  with k show ?thesis by (simp add: kex_key_defs)
qed

section \<open>A complete handshake\<close>

text \<open>
  A run given by its events, and the frames a joining node sends in it: the evaluations below use
  them. The node's own span manager follows the controller's frames. The cryptography is a simple
  stand-in whose tags depend on the key, so that the temporary keys of both sides have to agree.
\<close>

fun bootRuns ::
  "libcrypto2 \<Rightarrow> bevent list \<Rightarrow> (Bootstrap \<times> bevent) list \<Rightarrow> baction list \<Rightarrow> Bootstrap \<Rightarrow>
   ((Bootstrap \<times> bevent) list \<times> baction list \<times> Bootstrap) option" where
  "bootRuns c [] h acts st = Some (h, acts, st)"
| "bootRuns c (e # es) h acts st =
     (case bootStep c e st of
        Inl _ \<Rightarrow> None
      | Inr (new, st') \<Rightarrow> bootRuns c es (h @ [(st, e)]) (acts @ new) st')"

lemma bootRuns_run:
  "boot_run c h acts st \<Longrightarrow> bootRuns c es h acts st = Some (h', acts', st') \<Longrightarrow> boot_run c h' acts' st'"
proof (induction es arbitrary: h acts st)
  case (Cons e es)
  then show ?case
    by (auto split: sum.splits prod.splits intro: boot_run.step)
qed simp

definition handshakeCrypto :: libcrypto2 where
  "handshakeCrypto =
     \<lparr>evpCcmSeal = (\<lambda>k n a p m. (p, take m (k @ n))),
      evpCcmOpen = (\<lambda>k n a ct tag. if tag = take (length tag) (k @ n) then Some ct else None),
      evpCmac = (\<lambda>k d. k), evpAesBlock = (\<lambda>k b. b), evpX25519Public = (\<lambda>d. d),
      evpX25519 = (\<lambda>a b. Some (replicate 32 6))\<rparr>"

definition joinManager :: SpanManager where
  "joinManager =
     (let keys = deriveTempKeys handshakeCrypto (replicate 32 6) (replicate 32 3)
                   (replicate 32 9)
      in acceptNonceReport 1
           \<lparr>nr_sequenceNumber = 0, nr_sos = True, nr_mos = False, nr_rei = Some (replicate 16 8)\<rparr>
           (configurePeer 1 \<lparr>pc_classKey = tk_keyCcm keys, pc_personalization = tk_personalization keys,
              pc_homeId = [1, 2, 3, 4], pc_ourNodeId = 7, pc_peerNodeId = 1\<rparr>
              (newSpanManager (\<lambda>i. replicate 16 5))))"

definition joinFrames :: "bytes \<Rightarrow> bytes list" where
  "joinFrames final =
     (case sm_encrypt handshakeCrypto 1 (Kex_encodeSet \<lparr>ks_echo = True, ks_requestCsa = False, ks_selectedScheme = 2,
             ks_selectedCurve = 1, ks_grantedKeys = 1\<rparr>) joinManager of
        (f1, N1) \<Rightarrow>
          (case sm_encrypt handshakeCrypto 1 final (snd (receiveNonce handshakeCrypto 1 [] N1)) of
             (f2, N2) \<Rightarrow> [the f1, the f2]))"

definition joinEvents :: "bytes \<Rightarrow> bevent list" where
  "joinEvents final =
     [DongleInfo [1, 2, 3, 4] 1, S2NetworkKeysReady True, NodeIncluded 7 [0x9F] (replicate 32 3),
      AppCommand 7 (Kex_encodeReport \<lparr>kr_echo = False, kr_requestCsa = False, kr_supportedSchemes = 2,
        kr_supportedCurves = 1, kr_requestedKeys = 1\<rparr>),
      AppCommand 7 (PublicKey_encode False (replicate 32 9) 0), AppCommand 7 (encodeNonceGet 0)]
     @ map (AppCommand 7) (joinFrames final)"

definition demoBoot :: Bootstrap where
  "demoBoot = \<lparr>bs_sessions = Map.empty, bs_spanManager = newSpanManager (\<lambda>i. replicate 16 8),
     bs_classSpanManager = newSpanManager (\<lambda>i. replicate 16 6), bs_homeId = replicate 4 0,
     bs_controllerNodeId = 0, bs_keysReady = False, bs_keys = Some (replicate 4 (replicate 16 9)),
     bs_registry = [7 \<mapsto> SchemeNone]\<rparr>"

lemma demoBoot_start: "boot_run handshakeCrypto [] [] demoBoot"
  by (rule boot_run.start) (simp add: demoBoot_def)

lemma join_completes:
  "(case bootRuns handshakeCrypto (joinEvents (encodeTransferEnd False True)) [] [] demoBoot of
      None \<Rightarrow> False | Some (h, acts, st) \<Rightarrow> NodeSecurityStatus 7 2 \<in> set acts)"
  by code_simp

lemma join_installs:
  "(case bootRuns handshakeCrypto (joinEvents (encodeKeyGet 1)) [] [] demoBoot of
      None \<Rightarrow> False
    | Some (h, acts, st) \<Rightarrow>
        (case bs_sessions st 7 of None \<Rightarrow> False | Some s \<Rightarrow> se_phase s = AwaitClassNonceGet))"
  by code_simp

section \<open>Properties\<close>

text \<open>
  C17: a node is declared secure only after its grant was authenticated. In every run of the
  orchestrator, a published security status for a node is preceded by a frame of that node that
  decrypted, under temporary keys derived from the key agreement with the node, to exactly the
  grant the controller had computed from the node's request; and the published scheme is the
  highest class of that grant.
\<close>

theorem bootstrap_authenticated:
  assumes "boot_run c h acts st" and "NodeSecurityStatus n sch \<in> set acts"
  shows "\<exists>st0 data s inner echoed st1.
    (st0, AppCommand n data) \<in> set h \<and> bs_sessions st0 n = Some s \<and>
    (\<exists>shared. ecdh c (kp_privateKey (se_keyPair s)) (se_nodePublicKey s) = Some shared \<and>
       se_tempKeys s = deriveTempKeys c shared (kp_publicKey (se_keyPair s)) (se_nodePublicKey s)) \<and>
    decryptInbound c n s data st0 = Inr (Some inner, st1) \<and> Kex_decodeSet inner = Some echoed \<and>
    ks_grantedKeys echoed = grantKeys (se_receivedKexReport s) CONTROLLER_SUPPORTED_KEYS \<and>
    sch = schemeNumber (schemeFor (ks_grantedKeys echoed))"
  using boot_run_status [OF assms] unfolding verifiedEcho_def temp_ok_def by fastforce

theorem bootstrap_authenticated_witness:
  "\<exists>h acts st st0 data s inner echoed st1.
    bootRuns handshakeCrypto (joinEvents (encodeTransferEnd False True)) [] [] demoBoot = Some (h, acts, st) \<and>
    (st0, AppCommand 7 data) \<in> set h \<and> bs_sessions st0 7 = Some s \<and>
    decryptInbound handshakeCrypto 7 s data st0 = Inr (Some inner, st1) \<and> Kex_decodeSet inner = Some echoed \<and>
    ks_grantedKeys echoed = grantKeys (se_receivedKexReport s) CONTROLLER_SUPPORTED_KEYS \<and>
    2 = schemeNumber (schemeFor (ks_grantedKeys echoed))"
proof -
  obtain h acts st where r: "bootRuns handshakeCrypto (joinEvents (encodeTransferEnd False True)) [] [] demoBoot =
      Some (h, acts, st)" "NodeSecurityStatus 7 2 \<in> set acts"
    using join_completes by (auto split: option.splits prod.splits)
  show ?thesis
    using bootstrap_authenticated [OF bootRuns_run [OF demoBoot_start r(1)] r(2)] r(1) by fastforce
qed

text \<open>
  Keys are handed out as granted. In every reachable state a session that is installing a key
  is installing one of the three S2 classes, and one that was granted to that node; the grant
  itself follows the policy. The S0 key is never transferred.
\<close>

theorem bootstrap_installs_granted:
  assumes "boot_run c h acts st" and "bs_sessions st n = Some s"
    and "se_phase s \<in> {AwaitClassNonceGet, AwaitKeyVerify}"
  shows "se_installingKeyBit s \<in> {KEY_S2_UNAUTHENTICATED, KEY_S2_AUTHENTICATED, KEY_S2_ACCESS_CONTROL} \<and>
    se_installingKeyBit s AND NOT (se_grantedKeys s) = 0 \<and>
    se_grantedKeys s = grantKeys (se_receivedKexReport s) CONTROLLER_SUPPORTED_KEYS"
proof -
  have ok: "session_ok c s" using boot_run_ok [OF assms(1)] assms(2) by (auto simp: sessions_ok_def)
  then have "granted_ok s" using assms(3) by (auto simp: session_ok_def)
  then show ?thesis using installing_class [OF ok assms(3)] by (simp add: granted_ok_def)
qed

theorem bootstrap_installs_granted_witness:
  "\<exists>h acts st s. bootRuns handshakeCrypto (joinEvents (encodeKeyGet 1)) [] [] demoBoot = Some (h, acts, st) \<and>
    bs_sessions st 7 = Some s \<and>
    se_installingKeyBit s \<in> {KEY_S2_UNAUTHENTICATED, KEY_S2_AUTHENTICATED, KEY_S2_ACCESS_CONTROL} \<and>
    se_installingKeyBit s AND NOT (se_grantedKeys s) = 0"
proof -
  obtain h acts st s where r: "bootRuns handshakeCrypto (joinEvents (encodeKeyGet 1)) [] [] demoBoot = Some (h, acts, st)"
      "bs_sessions st 7 = Some s" "se_phase s = AwaitClassNonceGet"
    using join_installs by (auto split: option.splits prod.splits)
  show ?thesis
    using bootstrap_installs_granted [OF bootRuns_run [OF demoBoot_start r(1)] r(2)] r by auto
qed

end
