(* ===== verification/Data_Frame.thy ===== *)
theory Data_Frame
  imports Zw_Prelude
begin

text \<open>
  The Host API frames of \<open>src/src/zwave-protocol\<close>: the data frame
  (\<open>ZwaveDataFrame\<close>) with its parser, serialiser and checksum, and the three
  single-byte frames (\<open>ZwaveACCFrame\<close>, \<open>ZwaveNAKFrame\<close>, \<open>ZwaveCANFrame\<close>).
  A raw buffer is \<open>bytes option\<close>: \<open>None\<close> is the null pointer, and the length the
  code passes beside the pointer is the length of the list.
\<close>

section \<open>ZwaveDataFrame\<close>

definition SOF :: byte where "SOF = 0x01"
definition CHECKSUM_SEED :: byte where "CHECKSUM_SEED = 0xFF"
definition MIN_FRAME_SIZE :: nat where "MIN_FRAME_SIZE = 5"
definition MAX_PAYLOAD_SIZE :: nat where "MAX_PAYLOAD_SIZE = 250"
definition MAX_FRAME_SIZE :: nat where "MAX_FRAME_SIZE = MAX_PAYLOAD_SIZE + 5"

lemmas frame_const_defs = SOF_def CHECKSUM_SEED_def MIN_FRAME_SIZE_def MAX_PAYLOAD_SIZE_def
  MAX_FRAME_SIZE_def

datatype FrameType = REQUEST | RESPONSE

fun frameTypeByte :: "FrameType \<Rightarrow> byte" where
  "frameTypeByte REQUEST = 0x00"
| "frameTypeByte RESPONSE = 0x01"

record ZwaveDataFrame =
  frameType :: FrameType
  commandId :: byte
  framePayload :: bytes
  frameValid :: bool

definition emptyFrame :: ZwaveDataFrame where
  "emptyFrame = \<lparr>frameType = REQUEST, commandId = 0, framePayload = [], frameValid = False\<rparr>"

definition lengthByte :: "ZwaveDataFrame \<Rightarrow> byte" where
  "lengthByte f = of_nat (2 + length (framePayload f) + 1)"

definition calculateChecksum :: "ZwaveDataFrame \<Rightarrow> byte" where
  "calculateChecksum f =
     xor_fold (CHECKSUM_SEED XOR lengthByte f XOR frameTypeByte (frameType f) XOR commandId f)
       (framePayload f)"

definition validateChecksum :: "ZwaveDataFrame \<Rightarrow> byte \<Rightarrow> bool" where
  "validateChecksum f checksum \<longleftrightarrow> checksum = calculateChecksum f"

definition toBuffer :: "ZwaveDataFrame \<Rightarrow> bytes" where
  "toBuffer f =
     [SOF, lengthByte f, frameTypeByte (frameType f), commandId f] @ framePayload f
       @ [calculateChecksum f]"

text \<open>
  \<open>parseFromBuffer\<close> writes the fields as it goes, so a frame that fails the checksum keeps
  the type, command and payload of the rejected bytes, with \<open>valid\<close> cleared.
\<close>

definition parseFromBuffer :: "ZwaveDataFrame \<Rightarrow> bytes option \<Rightarrow> bool \<times> ZwaveDataFrame" where
  "parseFromBuffer f buffer =
     (case buffer of
        None \<Rightarrow> (False, f\<lparr>frameValid := False\<rparr>)
      | Some buf \<Rightarrow>
          if length buf < MIN_FRAME_SIZE then (False, f\<lparr>frameValid := False\<rparr>)
          else if buf ! 0 \<noteq> SOF then (False, f\<lparr>frameValid := False\<rparr>)
          else let frameLength = unat (buf ! 1) in
            if frameLength < 3 \<or> frameLength > MAX_PAYLOAD_SIZE + 3
            then (False, f\<lparr>frameValid := False\<rparr>)
            else if length buf < frameLength + 2 then (False, f\<lparr>frameValid := False\<rparr>)
            else if buf ! 2 > 1 then (False, f\<lparr>frameValid := False\<rparr>)
            else let g = f\<lparr>frameType := (if buf ! 2 = 0 then REQUEST else RESPONSE),
                           commandId := buf ! 3,
                           framePayload := subspan buf 4 (frameLength - 3)\<rparr> in
              if validateChecksum g (buf ! (1 + frameLength))
              then (True, g\<lparr>frameValid := True\<rparr>)
              else (False, g\<lparr>frameValid := False\<rparr>))"

definition setHeader :: "FrameType \<Rightarrow> byte \<Rightarrow> ZwaveDataFrame \<Rightarrow> ZwaveDataFrame" where
  "setHeader type cmd f = f\<lparr>frameType := type, commandId := cmd, frameValid := True\<rparr>"

definition setPayload :: "bytes option \<Rightarrow> nat \<Rightarrow> ZwaveDataFrame \<Rightarrow> bool \<times> ZwaveDataFrame" where
  "setPayload data sz f =
     (if sz > MAX_PAYLOAD_SIZE then (False, f)
      else (True, f\<lparr>framePayload := (case data of Some d \<Rightarrow> if sz > 0 then take sz d else []
                                               | None \<Rightarrow> []),
                    frameValid := True\<rparr>))"

definition getType :: "ZwaveDataFrame \<Rightarrow> FrameType" where
  "getType f = frameType f"

definition getCommand :: "ZwaveDataFrame \<Rightarrow> byte" where
  "getCommand f = commandId f"

definition getPayload :: "ZwaveDataFrame \<Rightarrow> bytes option" where
  "getPayload f = (if framePayload f = [] then None else Some (framePayload f))"

definition getPayloadSize :: "ZwaveDataFrame \<Rightarrow> nat" where
  "getPayloadSize f = length (framePayload f)"

definition isValid :: "ZwaveDataFrame \<Rightarrow> bool" where
  "isValid f = frameValid f"

lemmas frame_getters [wire_simps] = getType_def getCommand_def getPayload_def getPayloadSize_def
  isValid_def

section \<open>The single-byte frames\<close>

definition ACK :: byte where "ACK = 0x06"
definition NAK :: byte where "NAK = 0x15"
definition CAN :: byte where "CAN = 0x18"

text \<open>The three classes differ only in the byte; the result is the new \<open>valid\<close> flag.\<close>

definition acc_parseFromBuffer :: "bytes option \<Rightarrow> bool" where
  "acc_parseFromBuffer buffer =
     (case buffer of None \<Rightarrow> False
      | Some buf \<Rightarrow> if length buf < 1 then False else if buf ! 0 \<noteq> ACK then False else True)"

definition nak_parseFromBuffer :: "bytes option \<Rightarrow> bool" where
  "nak_parseFromBuffer buffer =
     (case buffer of None \<Rightarrow> False
      | Some buf \<Rightarrow> if length buf < 1 then False else if buf ! 0 \<noteq> NAK then False else True)"

definition can_parseFromBuffer :: "bytes option \<Rightarrow> bool" where
  "can_parseFromBuffer buffer =
     (case buffer of None \<Rightarrow> False
      | Some buf \<Rightarrow> if length buf < 1 then False else if buf ! 0 \<noteq> CAN then False else True)"

definition acc_toByte :: byte where "acc_toByte = ACK"
definition nak_toByte :: byte where "nak_toByte = NAK"
definition can_toByte :: byte where "can_toByte = CAN"

lemmas marker_defs = ACK_def NAK_def CAN_def SOF_def

section \<open>Facts about the serialised form\<close>

text \<open>A frame the wire format can carry: its payload fits.\<close>

definition frame_ok :: "ZwaveDataFrame \<Rightarrow> bool" where
  "frame_ok f \<longleftrightarrow> length (framePayload f) \<le> MAX_PAYLOAD_SIZE"

lemma length_toBuffer [simp]: "length (toBuffer f) = length (framePayload f) + 5"
  by (simp add: toBuffer_def)

lemma toBuffer_nth [simp]:
  "toBuffer f ! 0 = SOF"
  "toBuffer f ! Suc 0 = lengthByte f"
  "toBuffer f ! 1 = lengthByte f"
  "toBuffer f ! 2 = frameTypeByte (frameType f)"
  "toBuffer f ! 3 = commandId f"
  by (simp_all add: toBuffer_def)

lemma unat_lengthByte: "frame_ok f \<Longrightarrow> unat (lengthByte f) = length (framePayload f) + 3"
  unfolding lengthByte_def
  by (subst unat_of_nat_byte) (simp_all add: frame_ok_def frame_const_defs)

lemma frameTypeByte_le_1: "\<not> frameTypeByte t > 1"
  by (cases t) simp_all

lemma frameTypeByte_decode:
  "(if frameTypeByte t = 0 then REQUEST else RESPONSE) = t"
  by (cases t) simp_all

lemma byte_le_1: "(b :: byte) \<le> 1 \<Longrightarrow> b = 0 \<or> b = 1"
  by unat_arith

lemma frameTypeByte_of:
  "b \<le> 1 \<Longrightarrow> frameTypeByte (if b = 0 then REQUEST else RESPONSE) = b"
  by (drule byte_le_1) auto

lemma toBuffer_parts:
  "subspan (toBuffer f) 4 (length (framePayload f)) = framePayload f"
  "toBuffer f ! (4 + length (framePayload f)) = calculateChecksum f"
  by (simp_all add: toBuffer_def subspan_def nth_append)

lemma calculateChecksum_cong:
  "frameType g = frameType f \<Longrightarrow> commandId g = commandId f \<Longrightarrow> framePayload g = framePayload f \<Longrightarrow>
   calculateChecksum g = calculateChecksum f"
  by (simp add: calculateChecksum_def lengthByte_def)

text \<open>Everything after the start marker XORs to the seed.\<close>

lemma toBuffer_xor: "xor_fold CHECKSUM_SEED (drop 1 (toBuffer f)) = 0"
  by (simp add: toBuffer_def calculateChecksum_def xor.assoc)

lemma parse_toBuffer:
  assumes "frame_ok f"
  shows "parseFromBuffer g (Some (toBuffer f)) = (True, f\<lparr>frameValid := True\<rparr>)"
proof -
  let ?g = "g\<lparr>frameType := frameType f, commandId := commandId f, framePayload := framePayload f\<rparr>"
  have len: "unat (lengthByte f) = length (framePayload f) + 3"
    using assms by (rule unat_lengthByte)
  have small: "length (framePayload f) \<le> 250"
    using assms by (simp add: frame_ok_def frame_const_defs)
  have "1 + (length (framePayload f) + 3) = 4 + length (framePayload f)"
    by simp
  moreover have "validateChecksum ?g (calculateChecksum f)"
    by (simp add: validateChecksum_def calculateChecksum_def lengthByte_def)
  ultimately have "parseFromBuffer g (Some (toBuffer f)) = (True, ?g\<lparr>frameValid := True\<rparr>)"
    using small
    by (simp add: parseFromBuffer_def Let_def len frame_const_defs frameTypeByte_le_1
        frameTypeByte_decode toBuffer_parts del: One_nat_def)
  then show ?thesis by simp
qed

lemma parse_imp_toBuffer:
  assumes "parseFromBuffer g (Some buf) = (True, h)"
  shows "toBuffer h = take (unat (buf ! 1) + 2) buf \<and> frame_ok h \<and> frameValid h \<and>
         unat (buf ! 1) + 2 \<le> length buf"
proof -
  let ?n = "unat (buf ! 1)"
  have len: "5 \<le> length buf" and sof: "buf ! 0 = SOF" and n: "3 \<le> ?n" "?n \<le> 253"
    and fits: "?n + 2 \<le> length buf" and ty: "buf ! 2 \<le> 1"
    and h: "h = g\<lparr>frameType := (if buf ! 2 = 0 then REQUEST else RESPONSE), commandId := buf ! 3,
                  framePayload := subspan buf 4 (?n - 3), frameValid := True\<rparr>"
    and chk: "buf ! (1 + ?n) = calculateChecksum h"
    using assms
    by (auto simp: parseFromBuffer_def Let_def frame_const_defs validateChecksum_def not_less
        calculateChecksum_def lengthByte_def split: if_splits)
  have pl: "length (framePayload h) = ?n - 3"
    using n fits by (simp add: h)
  have "lengthByte h = of_nat ?n"
    unfolding lengthByte_def pl using n by simp
  then have lb: "lengthByte h = buf ! 1" by simp
  have "take (?n + 2) buf = take 4 buf @ subspan buf 4 (?n - 3) @ [buf ! (1 + ?n)]"
  proof -
    have "?n + 2 = 4 + ((?n - 3) + 1)" using n by simp
    then have "take (?n + 2) buf = take 4 buf @ take ((?n - 3) + 1) (drop 4 buf)"
      by (metis take_add)
    also have "take ((?n - 3) + 1) (drop 4 buf) = subspan buf 4 (?n - 3) @ [buf ! (1 + ?n)]"
      using n fits by (simp add: subspan_def take_Suc_conv_app_nth add.commute)
    finally show ?thesis .
  qed
  moreover have "take 4 buf = [buf ! 0, buf ! 1, buf ! 2, buf ! 3]"
    using len by (simp add: list_eq_iff_nth_eq nth_Cons numeral_eq_Suc less_Suc_eq)
  moreover have "frame_ok h \<and> frameValid h"
    using pl n by (simp add: frame_ok_def frame_const_defs) (simp add: h)
  ultimately show ?thesis
    using fits sof lb chk frameTypeByte_of [OF ty] by (simp add: toBuffer_def) (simp add: h)
qed

interpretation frame_codec: wire_codec toBuffer
  "\<lambda>buf. case parseFromBuffer emptyFrame (Some buf) of (True, f) \<Rightarrow> Some f | _ \<Rightarrow> None"
  "\<lambda>f. frame_ok f \<and> frameValid f"
  by unfold_locales (auto simp: parse_toBuffer)

text \<open>
  A frame with one damaged byte after the length field is rejected.
\<close>

lemma parse_damaged:
  assumes "frame_ok f" and "2 \<le> i" and "i < length (toBuffer f)" and "y \<noteq> toBuffer f ! i"
  shows "fst (parseFromBuffer g (Some ((toBuffer f)[i := y]))) = False"
proof (rule ccontr)
  let ?buf = "(toBuffer f)[i := y]"
  assume "\<not> ?thesis"
  then obtain h where "parseFromBuffer g (Some ?buf) = (True, h)"
    by (cases "parseFromBuffer g (Some ?buf)") auto
  then have "toBuffer h = take (unat (?buf ! 1) + 2) ?buf"
    by (simp add: parse_imp_toBuffer)
  moreover have "unat (?buf ! 1) + 2 = length ?buf"
    using assms(1,2) by (simp add: unat_lengthByte)
  ultimately have "toBuffer h = ?buf" by simp
  then have "xor_fold CHECKSUM_SEED (drop 1 ?buf) = xor_fold CHECKSUM_SEED (drop 1 (toBuffer f))"
    by (metis toBuffer_xor)
  then have "xor_fold CHECKSUM_SEED ((drop 1 (toBuffer f))[i - 1 := y]) =
             xor_fold CHECKSUM_SEED (drop 1 (toBuffer f))"
    using assms(2) by (simp add: drop_update_swap)
  then have "y = drop 1 (toBuffer f) ! (i - 1)"
    using assms(2,3) by (intro xor_fold_update) auto
  then show False
    using assms(2,3,4) by simp
qed

section \<open>Properties\<close>

lemma toBuffer_trailing:
  assumes "frame_ok f"
  shows "parseFromBuffer g (Some (toBuffer f @ tail)) = parseFromBuffer g (Some (toBuffer f))"
proof -
  have "unat (lengthByte f) = length (framePayload f) + 3"
    using assms by (rule unat_lengthByte)
  then show ?thesis
    using toBuffer_nth [of f]
    by (simp add: parseFromBuffer_def nth_append subspan_def Let_def frame_const_defs del: toBuffer_nth)
qed

text \<open>
  C8: serialising a frame and parsing the bytes gives the frame back, whatever the parsing object
  held before and whatever follows the frame in the buffer; and a buffer is accepted only if it
  starts with the serialisation of the frame that was read.
\<close>

theorem frame_roundtrip:
  assumes "frame_ok f"
  shows "parseFromBuffer g (Some (toBuffer f @ tail)) = (True, f\<lparr>frameValid := True\<rparr>) \<and>
    (\<forall>buf h. parseFromBuffer g (Some buf) = (True, h) \<longrightarrow>
       (\<exists>rest. buf = toBuffer h @ rest) \<and> frame_ok h)"
proof (intro conjI allI impI)
  show "parseFromBuffer g (Some (toBuffer f @ tail)) = (True, f\<lparr>frameValid := True\<rparr>)"
    using assms by (simp add: toBuffer_trailing parse_toBuffer)
next
  fix buf h
  assume "parseFromBuffer g (Some buf) = (True, h)"
  then have h: "toBuffer h = take (unat (buf ! 1) + 2) buf" "frame_ok h"
    by (simp_all add: parse_imp_toBuffer)
  show "\<exists>rest. buf = toBuffer h @ rest"
    unfolding h(1) by (metis append_take_drop_id)
  show "frame_ok h" by (rule h(2))
qed

theorem frame_roundtrip_witness:
  "parseFromBuffer emptyFrame (Some
     (toBuffer \<lparr>frameType = RESPONSE, commandId = 0x02, framePayload = [0x2A, 0x07], frameValid = False\<rparr>
        @ [0x06])) =
   (True, \<lparr>frameType = RESPONSE, commandId = 0x02, framePayload = [0x2A, 0x07], frameValid = True\<rparr>)"
  using frame_roundtrip [of "\<lparr>frameType = RESPONSE, commandId = 0x02, framePayload = [0x2A, 0x07],
      frameValid = False\<rparr>" emptyFrame "[0x06]"]
  by (simp add: frame_ok_def frame_const_defs)

text \<open>
  C9: a frame of which exactly one byte after the length field was damaged on the line is never
  accepted.
\<close>

theorem frame_corruption_rejected:
  assumes "frame_ok f" and "2 \<le> i" and "i < length (toBuffer f)" and "y \<noteq> toBuffer f ! i"
  shows "\<not> fst (parseFromBuffer g (Some ((toBuffer f)[i := y])))"
  using parse_damaged [OF assms] by simp

theorem frame_corruption_rejected_witness:
  "\<not> fst (parseFromBuffer emptyFrame (Some ((toBuffer (setHeader REQUEST 0x13 emptyFrame))[3 := 0x14])))"
  by (rule frame_corruption_rejected)
    (simp_all add: frame_ok_def setHeader_def emptyFrame_def frame_const_defs)

end
