(* ===== verification/Serial_Port.thy ===== *)
theory Serial_Port
  imports Zw_Prelude
begin

text \<open>
  The serial line, \<open>src/src/zwave-protocol/SerialPort.cpp\<close>. The operating system below
  it is not part of the program: what its calls answer is the argument \<open>os\<close>, a record of
  the outcomes the next calls will have, with a monotonic clock in nanoseconds and the
  bytes the line has accepted. An exhausted script answers like a silent line: \<open>poll\<close>
  times out, \<open>read\<close> would block, \<open>write\<close> fails.
\<close>

section \<open>System calls\<close>

datatype errno = EINTR | EAGAIN | EOTHER

datatype pollResult = PollFail errno | PollTimeout | PollReady bool

datatype readResult = ReadOk bytes | ReadFail errno

datatype writeResult = WriteOk nat | WriteFail errno

record os =
  osNow :: nat
  osPolls :: "(nat \<times> pollResult) list"
  osReads :: "readResult list"
  osWrites :: "writeResult list"
  osSent :: bytes
  osFlushes :: nat

abbreviation NS_PER_MS :: nat where "NS_PER_MS \<equiv> 1000000"

text \<open>
  \<open>poll\<close> with a timeout in milliseconds: the time it took and its answer (the flag of
  \<open>PollReady\<close> says whether the event that was asked for is among the returned ones).
\<close>

definition os_poll :: "nat \<Rightarrow> os \<Rightarrow> pollResult \<times> os" where
  "os_poll timeoutMs s =
     (case osPolls s of
        [] \<Rightarrow> (PollTimeout, s\<lparr>osNow := osNow s + timeoutMs * NS_PER_MS\<rparr>)
      | (dt, r) # ps \<Rightarrow> (r, s\<lparr>osNow := osNow s + dt, osPolls := ps\<rparr>))"

text \<open>\<open>read\<close> never returns more bytes than it was asked for.\<close>

definition os_read :: "nat \<Rightarrow> os \<Rightarrow> readResult \<times> os" where
  "os_read n s =
     (case osReads s of
        [] \<Rightarrow> (ReadFail EAGAIN, s)
      | r # rs \<Rightarrow> ((case r of ReadOk d \<Rightarrow> ReadOk (take n d) | ReadFail e \<Rightarrow> ReadFail e),
                  s\<lparr>osReads := rs\<rparr>))"

text \<open>
  Reading the monotonic clock. Consecutive readings differ by at least one nanosecond, so a
  loop that only watches the clock makes progress.
\<close>

definition clock_now :: "os \<Rightarrow> nat \<times> os" where
  "clock_now s = (osNow s, s\<lparr>osNow := osNow s + 1\<rparr>)"

section \<open>SerialPort\<close>

definition INVALID_FD :: int where "INVALID_FD = -1"
definition WRITE_POLL_TIMEOUT_MS :: nat where "WRITE_POLL_TIMEOUT_MS = 1000"

record SerialPort =
  descriptor :: int
  devicePath :: string

definition closedPort :: SerialPort where
  "closedPort = \<lparr>descriptor = INVALID_FD, devicePath = ''''\<rparr>"

definition port_close :: "SerialPort \<Rightarrow> SerialPort" where
  "port_close p =
     (if descriptor p \<noteq> INVALID_FD then p\<lparr>descriptor := INVALID_FD, devicePath := ''''\<rparr> else p)"

definition isOpen :: "SerialPort \<Rightarrow> bool" where
  "isOpen p \<longleftrightarrow> descriptor p \<noteq> INVALID_FD"

text \<open>
  \<open>newFd\<close> is the answer of \<open>::open\<close>, \<open>termiosOk\<close> that of \<open>configureTermios\<close>.
\<close>

definition port_open :: "string \<Rightarrow> int \<Rightarrow> bool \<Rightarrow> SerialPort \<Rightarrow> bool \<times> SerialPort" where
  "port_open path newFd termiosOk p =
     (let p1 = port_close p in
      if newFd < 0 then (False, p1)
      else if \<not> termiosOk then (False, p1)
      else (True, p1\<lparr>descriptor := newFd, devicePath := path\<rparr>))"

definition adoptFd :: "int \<Rightarrow> string \<Rightarrow> SerialPort \<Rightarrow> SerialPort" where
  "adoptFd newFd label p = (port_close p)\<lparr>descriptor := newFd, devicePath := label\<rparr>"

text \<open>The move operations: \<open>(moved-to, moved-from)\<close>.\<close>

definition port_move :: "SerialPort \<Rightarrow> SerialPort \<Rightarrow> SerialPort \<times> SerialPort" where
  "port_move self other =
     ((port_close self)\<lparr>descriptor := descriptor other, devicePath := devicePath other\<rparr>,
      other\<lparr>descriptor := INVALID_FD, devicePath := ''''\<rparr>)"

definition readBytes :: "SerialPort \<Rightarrow> nat \<Rightarrow> nat \<Rightarrow> os \<Rightarrow> int \<times> bytes \<times> os" where
  "readBytes p bufSize timeoutMs s =
     (if descriptor p = INVALID_FD \<or> bufSize = 0 then (-1, [], s)
      else case os_poll timeoutMs s of
          (PollFail e, s1) \<Rightarrow> (if e = EINTR then 0 else -1, [], s1)
        | (PollTimeout, s1) \<Rightarrow> (0, [], s1)
        | (PollReady inEvent, s1) \<Rightarrow>
            if \<not> inEvent then (0, [], s1)
            else (case os_read bufSize s1 of
                (ReadFail e, s2) \<Rightarrow> (if e = EAGAIN \<or> e = EINTR then 0 else -1, [], s2)
              | (ReadOk d, s2) \<Rightarrow> (int (length d), d, s2)))"

text \<open>The loop of \<open>writeAll\<close>; \<open>rest\<close> is what follows position \<open>written\<close>.\<close>

fun writeLoop :: "writeResult list \<Rightarrow> bytes \<Rightarrow> os \<Rightarrow> bool \<times> os" where
  "writeLoop [] rest s = (rest = [], s\<lparr>osWrites := []\<rparr>)"
| "writeLoop (w # ws) rest s =
     (if rest = [] then (True, s\<lparr>osWrites := w # ws\<rparr>)
      else case w of
          WriteOk k \<Rightarrow> writeLoop ws (drop k rest) (s\<lparr>osSent := osSent s @ take k rest\<rparr>)
        | WriteFail EINTR \<Rightarrow> writeLoop ws rest s
        | WriteFail EAGAIN \<Rightarrow>
            (case os_poll WRITE_POLL_TIMEOUT_MS s of
               (PollReady _, s1) \<Rightarrow> writeLoop ws rest s1
             | (_, s1) \<Rightarrow> (False, s1\<lparr>osWrites := ws\<rparr>))
        | WriteFail EOTHER \<Rightarrow> (False, s\<lparr>osWrites := ws\<rparr>))"

definition writeAll :: "SerialPort \<Rightarrow> bytes \<Rightarrow> os \<Rightarrow> bool \<times> os" where
  "writeAll p buffer s =
     (if descriptor p = INVALID_FD \<or> buffer = [] then (False, s)
      else writeLoop (osWrites s) buffer s)"

text \<open>
  \<open>tcflush\<close> drops what the line has received and nobody has read yet. The scripts hold what
  the calls after it answer, so its effect is already in them; the model counts the calls.
\<close>

definition flushInput :: "SerialPort \<Rightarrow> os \<Rightarrow> os" where
  "flushInput p s =
     (if descriptor p \<noteq> INVALID_FD then s\<lparr>osFlushes := osFlushes s + 1\<rparr> else s)"

section \<open>Facts\<close>

lemma os_poll_frame [simp]:
  "osSent (snd (os_poll t s)) = osSent s"
  "osReads (snd (os_poll t s)) = osReads s"
  "osNow s \<le> osNow (snd (os_poll t s))"
  by (auto simp: os_poll_def split: list.splits)

lemma os_read_frame [simp]:
  "osSent (snd (os_read n s)) = osSent s"
  "osNow (snd (os_read n s)) = osNow s"
  by (auto simp: os_read_def split: list.splits)

lemma readBytes_frame:
  "readBytes p n t s = (got, d, s') \<Longrightarrow> osSent s' = osSent s \<and> osNow s \<le> osNow s'"
  by (auto simp: readBytes_def os_poll_def os_read_def
      split: if_splits prod.splits pollResult.splits readResult.splits list.splits)

lemma readBytes_count:
  "readBytes p n t s = (got, d, s') \<Longrightarrow> 0 < got \<Longrightarrow> got = int (length d) \<and> length d \<le> n"
  by (auto simp: readBytes_def os_read_def
      split: if_splits prod.splits pollResult.splits readResult.splits list.splits)

lemma writeLoop_now: "osNow s \<le> osNow (snd (writeLoop ws rest s))"
proof (induction ws arbitrary: rest s)
  case (Cons w ws)
  have poll: "osNow s \<le> osNow s1" if "os_poll WRITE_POLL_TIMEOUT_MS s = (r, s1)" for r s1
    using os_poll_frame(3) [of s WRITE_POLL_TIMEOUT_MS] that by simp
  have "osNow s \<le> osNow (snd (writeLoop ws rest s1))"
    if "os_poll WRITE_POLL_TIMEOUT_MS s = (r, s1)" for r s1
    using Cons.IH [of s1 rest] poll [OF that] by simp
  then show ?case
    using Cons.IH [of "s\<lparr>osSent := _\<rparr>"] Cons.IH [of s] poll
    by (auto split: writeResult.splits errno.splits prod.splits pollResult.splits)
qed simp

lemma writeAll_now: "osNow s \<le> osNow (snd (writeAll p b s))"
  by (simp add: writeAll_def writeLoop_now)

text \<open>
  What \<open>writeAll\<close> put on the line is a prefix of the buffer, and all of it exactly when the
  call reports success.
\<close>

lemma writeLoop_sent:
  "\<exists>pre rest'. rest = pre @ rest' \<and> osSent (snd (writeLoop ws rest s)) = osSent s @ pre \<and>
     (fst (writeLoop ws rest s) \<longleftrightarrow> rest' = [])"
proof (induction ws arbitrary: rest s)
  case Nil
  show ?case by auto
next
  case (Cons w ws)
  have stop: "\<exists>pre rest'. rest = pre @ rest' \<and> osSent s = osSent s @ pre \<and> (False \<longleftrightarrow> rest' = [])"
    if "rest \<noteq> []"
    using that by simp
  show ?case
  proof (cases "rest = []")
    case False
    show ?thesis
    proof (cases w)
      case (WriteOk k)
      let ?s = "s\<lparr>osSent := osSent s @ take k rest\<rparr>"
      obtain pre rest' where "drop k rest = pre @ rest'"
        "osSent (snd (writeLoop ws (drop k rest) ?s)) = osSent ?s @ pre"
        "fst (writeLoop ws (drop k rest) ?s) \<longleftrightarrow> rest' = []"
        using Cons.IH [of "drop k rest" ?s] by blast
      moreover from this(1) have "rest = (take k rest @ pre) @ rest'"
        by (metis append_assoc append_take_drop_id)
      ultimately show ?thesis
        using False WriteOk by (intro exI [of _ "take k rest @ pre"] exI [of _ rest']) simp
    next
      case (WriteFail e)
      obtain r s1 where poll: "os_poll WRITE_POLL_TIMEOUT_MS s = (r, s1)" by fastforce
      then have "osSent s1 = osSent s"
        by (metis os_poll_frame(1) snd_conv)
      then show ?thesis
        using WriteFail False poll stop Cons.IH [of rest s] Cons.IH [of rest s1]
        by (cases e; cases r) simp_all
    qed
  qed simp
qed

lemma writeAll_sent:
  assumes "writeAll p buffer s = (ok, s')"
  shows "\<exists>pre rest. buffer = pre @ rest \<and> osSent s' = osSent s @ pre \<and>
           (ok \<longrightarrow> rest = [] \<and> pre \<noteq> [])"
proof (cases "descriptor p = INVALID_FD \<or> buffer = []")
  case True
  with assms show ?thesis by (auto simp: writeAll_def)
next
  case False
  with assms writeLoop_sent [of buffer "osWrites s" s] show ?thesis
    by (auto simp: writeAll_def)
qed

section \<open>Properties\<close>

text \<open>
  Whatever partial writes, interrupts and full buffers the line goes through, the bytes
  \<open>writeAll\<close> put on it are a prefix of the buffer, each byte once and in order, and a
  reported success means the whole non-empty buffer went out on an open port.
\<close>

theorem writeAll_prefix:
  assumes "writeAll p buffer s = (ok, s')"
  shows "\<exists>pre rest. buffer = pre @ rest \<and> osSent s' = osSent s @ pre \<and>
           (ok \<longrightarrow> rest = [] \<and> pre \<noteq> [] \<and> isOpen p)"
proof -
  have "ok \<longrightarrow> isOpen p"
    using assms by (auto simp: writeAll_def isOpen_def split: if_splits)
  with writeAll_sent [OF assms] show ?thesis by blast
qed

definition demoOs :: os where
  "demoOs = \<lparr>osNow = 0, osPolls = [(5, PollReady True)], osReads = [],
     osWrites = [WriteOk 1, WriteFail EINTR, WriteFail EAGAIN, WriteOk 2], osSent = [], osFlushes = 0\<rparr>"

theorem writeAll_prefix_witness:
  "\<exists>pre rest. [1, 2, 3] = pre @ rest \<and> [1, 2, 3] = osSent demoOs @ pre \<and>
     (True \<longrightarrow> rest = [] \<and> pre \<noteq> [] \<and> isOpen \<lparr>descriptor = 3, devicePath = ''x''\<rparr>)"
proof -
  have "writeAll \<lparr>descriptor = 3, devicePath = ''x''\<rparr> [1, 2, 3] demoOs =
    (True, demoOs\<lparr>osNow := 5, osPolls := [], osWrites := [], osSent := [1, 2, 3]\<rparr>)"
    by (simp add: writeAll_def demoOs_def INVALID_FD_def os_poll_def)
  from writeAll_prefix [OF this] show ?thesis by simp
qed

end
