(* ===== verification/Frame_Transport.thy ===== *)
theory Frame_Transport
  imports Data_Frame Serial_Port
begin

text \<open>
  The serial transport, \<open>src/src/zwave-protocol/FrameTransport.cpp\<close>: the byte parser
  \<open>feed\<close>, the idle pump \<open>pumpOnce\<close> and the retrying \<open>sendRequest\<close>. The object's
  fields are the record \<open>FrameTransport\<close>; the port, the operating system behind it and
  the calls the object makes on the outside are the record \<open>link\<close>. A call of the
  registered handler is recorded in the trace; what the handler itself does is not part of
  this component.
\<close>

section \<open>State\<close>

datatype ParseState = WaitFrameStart | WaitLength | WaitPayload

datatype TransportEvent = EvNone | EvAck | EvNak | EvCan | EvDataFrame

record FrameTransport =
  parseState :: ParseState
  expectedLength :: nat
  frameBytes :: bytes
  lastParsedFrame :: ZwaveDataFrame
  lastParsedValid :: bool
  hasHandler :: bool

definition newTransport :: "bool \<Rightarrow> FrameTransport" where
  "newTransport handler =
     \<lparr>parseState = WaitFrameStart, expectedLength = 0, frameBytes = [],
      lastParsedFrame = emptyFrame, lastParsedValid = False, hasHandler = handler\<rparr>"

datatype action = SentFrame bytes bool | SentAck bool | Slept nat | Flushed | Handled ZwaveDataFrame

record link =
  lkPort :: SerialPort
  lkOs :: os
  lkTrace :: "action list"

definition READ_CHUNK_SIZE :: nat where "READ_CHUNK_SIZE = 64"
definition RETRY_BACKOFF_BASE_MS :: nat where "RETRY_BACKOFF_BASE_MS = 100"
definition RETRY_BACKOFF_PER_ATTEMPT_MS :: nat where "RETRY_BACKOFF_PER_ATTEMPT_MS = 1000"
definition ACK_TIMEOUT_MS :: nat where "ACK_TIMEOUT_MS = 1500"
definition MAX_SEND_RETRIES :: nat where "MAX_SEND_RETRIES = 3"

lemmas transport_const_defs = READ_CHUNK_SIZE_def RETRY_BACKOFF_BASE_MS_def
  RETRY_BACKOFF_PER_ATTEMPT_MS_def ACK_TIMEOUT_MS_def MAX_SEND_RETRIES_def

section \<open>The byte parser\<close>

definition resetParser :: "FrameTransport \<Rightarrow> FrameTransport" where
  "resetParser t = t\<lparr>parseState := WaitFrameStart, expectedLength := 0, frameBytes := [],
                     lastParsedValid := False\<rparr>"

definition feed :: "byte \<Rightarrow> FrameTransport \<Rightarrow> TransportEvent \<times> FrameTransport" where
  "feed b t =
     (case parseState t of
        WaitFrameStart \<Rightarrow>
          if b = ACK then (EvAck, t)
          else if b = NAK then (EvNak, t)
          else if b = CAN then (EvCan, t)
          else if b = SOF then (EvNone, t\<lparr>frameBytes := [b], parseState := WaitLength\<rparr>)
          else (EvNone, t)
      | WaitLength \<Rightarrow>
          let t1 = t\<lparr>frameBytes := frameBytes t @ [b], expectedLength := 2 + unat b\<rparr> in
          if b < 3 \<or> expectedLength t1 > MAX_FRAME_SIZE then (EvNone, resetParser t1)
          else (EvNone, t1\<lparr>parseState := WaitPayload\<rparr>)
      | WaitPayload \<Rightarrow>
          let t1 = t\<lparr>frameBytes := frameBytes t @ [b]\<rparr> in
          if length (frameBytes t1) < expectedLength t1 then (EvNone, t1)
          else (case parseFromBuffer emptyFrame (Some (frameBytes t1)) of
              (False, _) \<Rightarrow> (EvNone, resetParser t1)
            | (True, parsed) \<Rightarrow>
                (EvDataFrame, (resetParser t1)\<lparr>lastParsedFrame := parsed,
                                               lastParsedValid := True\<rparr>)))"

section \<open>The link\<close>

definition trace :: "action \<Rightarrow> link \<Rightarrow> link" where
  "trace a lk = lk\<lparr>lkTrace := lkTrace lk @ [a]\<rparr>"

definition remainingMs :: "nat \<Rightarrow> link \<Rightarrow> nat \<times> link" where
  "remainingMs deadline lk =
     (case clock_now (lkOs lk) of
        (now, os1) \<Rightarrow>
          (if now \<ge> deadline then 0 else (deadline - now) div NS_PER_MS, lk\<lparr>lkOs := os1\<rparr>))"

definition sendAck :: "link \<Rightarrow> link" where
  "sendAck lk =
     (case writeAll (lkPort lk) [ACK] (lkOs lk) of
        (ok, os1) \<Rightarrow> trace (SentAck ok) (lk\<lparr>lkOs := os1\<rparr>))"

definition handleParsedDataFrame :: "FrameTransport \<times> link \<Rightarrow> FrameTransport \<times> link" where
  "handleParsedDataFrame = (\<lambda>(t, lk).
     if \<not> lastParsedValid t then (t, lk)
     else let lk1 = sendAck lk;
              lk2 = (if hasHandler t then trace (Handled (lastParsedFrame t)) lk1 else lk1)
          in (t\<lparr>lastParsedValid := False\<rparr>, lk2))"

definition link_read :: "nat \<Rightarrow> link \<Rightarrow> int \<times> bytes \<times> link" where
  "link_read timeoutMs lk =
     (case readBytes (lkPort lk) READ_CHUNK_SIZE timeoutMs (lkOs lk) of
        (got, d, os1) \<Rightarrow> (got, d, lk\<lparr>lkOs := os1\<rparr>))"

text \<open>The loop of \<open>pumpOnce\<close> over the bytes of one read; stray markers are dropped.\<close>

fun pumpBytes :: "bytes \<Rightarrow> FrameTransport \<times> link \<Rightarrow> FrameTransport \<times> link" where
  "pumpBytes [] st = st"
| "pumpBytes (b # bs) (t, lk) =
     (case feed b t of
        (EvDataFrame, t1) \<Rightarrow> pumpBytes bs (handleParsedDataFrame (t1, lk))
      | (_, t1) \<Rightarrow> pumpBytes bs (t1, lk))"

definition pumpOnce :: "nat \<Rightarrow> FrameTransport \<times> link \<Rightarrow> bool \<times> FrameTransport \<times> link" where
  "pumpOnce timeoutMs = (\<lambda>(t, lk).
     case link_read timeoutMs lk of
       (got, d, lk1) \<Rightarrow> if got \<le> 0 then (False, t, lk1) else (True, pumpBytes d (t, lk1)))"

section \<open>sendRequest\<close>

text \<open>
  The loop over the bytes of one read while a request waits for its acknowledgement. It
  stops at the first ACK, NAK or CAN and leaves the bytes behind it unread.
\<close>

datatype scanOutcome = ScanAck | ScanRetry | ScanMore

fun scanBytes :: "bytes \<Rightarrow> FrameTransport \<times> link \<Rightarrow> scanOutcome \<times> FrameTransport \<times> link" where
  "scanBytes [] st = (ScanMore, st)"
| "scanBytes (b # bs) (t, lk) =
     (case feed b t of
        (EvAck, t1) \<Rightarrow> (ScanAck, t1, lk)
      | (EvNak, t1) \<Rightarrow> (ScanRetry, t1, lk)
      | (EvCan, t1) \<Rightarrow> (ScanRetry, t1, lk)
      | (EvDataFrame, t1) \<Rightarrow> scanBytes bs (handleParsedDataFrame (t1, lk))
      | (EvNone, t1) \<Rightarrow> scanBytes bs (t1, lk))"

lemma handleParsedDataFrame_now:
  "handleParsedDataFrame (t, lk) = (t', lk') \<Longrightarrow> osNow (lkOs lk) \<le> osNow (lkOs lk')"
  using writeAll_now [of "lkOs lk" "lkPort lk" "[ACK]"]
  by (auto simp: handleParsedDataFrame_def sendAck_def trace_def Let_def
      split: if_splits prod.splits)

lemma scanBytes_now:
  "scanBytes bs (t, lk) = (r, t', lk') \<Longrightarrow> osNow (lkOs lk) \<le> osNow (lkOs lk')"
proof (induction bs arbitrary: t lk)
  case (Cons b bs)
  then show ?case
    by (auto split: prod.splits TransportEvent.splits)
      (metis handleParsedDataFrame_now le_trans old.prod.exhaust)
qed simp

lemma link_read_now: "link_read w lk = (got, d, lk') \<Longrightarrow> osNow (lkOs lk) \<le> osNow (lkOs lk')"
  by (auto simp: link_read_def split: prod.splits dest: readBytes_frame)

lemma remainingMs_now:
  "remainingMs deadline lk = (w, lk') \<Longrightarrow>
   osNow (lkOs lk') = Suc (osNow (lkOs lk)) \<and> (0 < w \<longrightarrow> osNow (lkOs lk) < deadline)"
  by (auto simp: remainingMs_def clock_now_def split: if_splits)

text \<open>
  The wait for the acknowledgement: the clock bounds it, since every turn reads the clock.
\<close>

function awaitAck :: "nat \<Rightarrow> FrameTransport \<Rightarrow> link \<Rightarrow> bool \<times> FrameTransport \<times> link" where
  "awaitAck deadline t lk =
     (case remainingMs deadline lk of
        (wait, lk1) \<Rightarrow>
          if wait = 0 then (False, t, lk1)
          else (case link_read wait lk1 of
              (got, d, lk2) \<Rightarrow>
                if got \<le> 0 then awaitAck deadline t lk2
                else (case scanBytes d (t, lk2) of
                    (ScanAck, t1, lk3) \<Rightarrow> (True, t1, lk3)
                  | (ScanRetry, t1, lk3) \<Rightarrow> (False, t1, lk3)
                  | (ScanMore, t1, lk3) \<Rightarrow> awaitAck deadline t1 lk3)))"
  by pat_completeness auto
termination
proof (relation "measure (\<lambda>(deadline, t, lk). deadline - osNow (lkOs lk))", goal_cases)
  case 1
  show ?case by simp
next
  case (2 deadline t lk wait lk1 got z d lk2)
  then show ?case
    using remainingMs_now [of deadline lk wait lk1] link_read_now [of wait lk1 got d lk2] by auto
next
  case (3 deadline t lk wait lk1 got z d lk2 r u t1 lk3)
  then show ?case
    using remainingMs_now [of deadline lk wait lk1] link_read_now [of wait lk1 got d lk2]
      scanBytes_now [of d t lk2 r t1 lk3] by auto
qed

declare awaitAck.simps [simp del]

definition backoffMs :: "nat \<Rightarrow> nat" where
  "backoffMs attempt = RETRY_BACKOFF_BASE_MS + attempt * RETRY_BACKOFF_PER_ATTEMPT_MS"

definition link_sleep :: "nat \<Rightarrow> link \<Rightarrow> link" where
  "link_sleep ms lk =
     trace (Slept ms) (lk\<lparr>lkOs := (lkOs lk)\<lparr>osNow := osNow (lkOs lk) + ms * NS_PER_MS\<rparr>\<rparr>)"

definition link_flush :: "link \<Rightarrow> link" where
  "link_flush lk = trace Flushed (lk\<lparr>lkOs := flushInput (lkPort lk) (lkOs lk)\<rparr>)"

text \<open>One turn of the retry loop up to the write: back-off, flush and parser reset.\<close>

definition prepareAttempt :: "nat \<Rightarrow> FrameTransport \<Rightarrow> link \<Rightarrow> FrameTransport \<times> link" where
  "prepareAttempt attempt t lk =
     (if attempt > 0 then (resetParser t, link_flush (link_sleep (backoffMs attempt) lk))
      else (t, lk))"

function sendAttempts ::
  "nat \<Rightarrow> bytes \<Rightarrow> FrameTransport \<Rightarrow> link \<Rightarrow> bool \<times> FrameTransport \<times> link" where
  "sendAttempts attempt bs t lk =
     (if attempt < MAX_SEND_RETRIES then
        (case prepareAttempt attempt t lk of
           (t0, lk0) \<Rightarrow>
             (case writeAll (lkPort lk0) bs (lkOs lk0) of
                (ok, os1) \<Rightarrow>
                  (let lk1 = trace (SentFrame bs ok) (lk0\<lparr>lkOs := os1\<rparr>) in
                   if \<not> ok then sendAttempts (attempt + 1) bs t0 lk1
                   else (case clock_now (lkOs lk1) of
                       (now, os2) \<Rightarrow>
                         (case awaitAck (now + ACK_TIMEOUT_MS * NS_PER_MS) t0 (lk1\<lparr>lkOs := os2\<rparr>) of
                            (True, t2, lk2) \<Rightarrow> (True, t2, lk2)
                          | (False, t2, lk2) \<Rightarrow> sendAttempts (attempt + 1) bs t2 lk2)))))
      else (False, t, lk))"
  by pat_completeness auto
termination
  by (relation "measure (\<lambda>(attempt, bs, t, lk). MAX_SEND_RETRIES - attempt)") auto

declare sendAttempts.simps [simp del]

definition sendRequest ::
  "ZwaveDataFrame \<Rightarrow> FrameTransport \<times> link \<Rightarrow> bool \<times> FrameTransport \<times> link" where
  "sendRequest frame = (\<lambda>(t, lk).
     let bs = toBuffer frame in
     if bs = [] then (False, t, lk) else sendAttempts 0 bs t lk)"

section \<open>The parser invariant\<close>

definition parser_inv :: "FrameTransport \<Rightarrow> bool" where
  "parser_inv t \<longleftrightarrow>
     (case parseState t of
        WaitFrameStart \<Rightarrow> True
      | WaitLength \<Rightarrow> frameBytes t = [SOF]
      | WaitPayload \<Rightarrow>
          2 \<le> length (frameBytes t) \<and> length (frameBytes t) < expectedLength t \<and>
          5 \<le> expectedLength t \<and> expectedLength t \<le> MAX_FRAME_SIZE \<and>
          frameBytes t ! 0 = SOF \<and> expectedLength t = 2 + unat (frameBytes t ! 1))"

lemma parser_inv_new [simp]: "parser_inv (newTransport h)"
  by (simp add: parser_inv_def newTransport_def)

lemma parser_inv_reset [simp]: "parser_inv (resetParser t)"
  by (simp add: parser_inv_def resetParser_def)

lemma parser_inv_idle: "parseState t = WaitFrameStart \<Longrightarrow> parser_inv t"
  by (simp add: parser_inv_def)

lemma parser_inv_parsedValid [simp]: "parser_inv (t\<lparr>lastParsedValid := v\<rparr>) = parser_inv t"
  by (simp add: parser_inv_def split: ParseState.splits)

lemma feed_inv: "parser_inv t \<Longrightarrow> feed b t = (e, t') \<Longrightarrow> parser_inv t'"
  by (auto simp: parser_inv_def feed_def resetParser_def Let_def nth_append word_less_nat_alt
      frame_const_defs split: ParseState.splits if_splits prod.splits bool.splits)

text \<open>A data frame is reported only for bytes that are its serialisation.\<close>

lemma feed_dataFrame:
  assumes "parser_inv t" and "feed b t = (EvDataFrame, t')"
  shows "toBuffer (lastParsedFrame t') = frameBytes t @ [b] \<and> frame_ok (lastParsedFrame t') \<and>
         frameValid (lastParsedFrame t') \<and> lastParsedValid t' \<and> parseState t' = WaitFrameStart"
proof -
  let ?buf = "frameBytes t @ [b]"
  have ps: "parseState t = WaitPayload"
    using assms(2) by (auto simp: feed_def Let_def split: ParseState.splits if_splits)
  then obtain g where g: "parseFromBuffer emptyFrame (Some ?buf) = (True, g)"
    and t': "t' = (resetParser (t\<lparr>frameBytes := ?buf\<rparr>))\<lparr>lastParsedFrame := g, lastParsedValid := True\<rparr>"
    and long: "expectedLength t \<le> length ?buf"
    using assms(2) by (auto simp: feed_def Let_def not_less split: if_splits prod.splits bool.splits)
  have "expectedLength t = 2 + unat (?buf ! 1)" "length ?buf = expectedLength t"
    using assms(1) ps long by (auto simp: parser_inv_def nth_append)
  then have "toBuffer g = ?buf"
    using parse_imp_toBuffer [OF g] by simp
  then show ?thesis
    using parse_imp_toBuffer [OF g] by (simp add: t' resetParser_def)
qed

section \<open>Pumping whole frames\<close>

lemma resetParser_overwrites [simp]:
  "resetParser (t\<lparr>frameBytes := x\<rparr>) = resetParser t"
  "resetParser (t\<lparr>expectedLength := n\<rparr>) = resetParser t"
  "resetParser (t\<lparr>parseState := p\<rparr>) = resetParser t"
  by (simp_all add: resetParser_def)

lemma pumpBytes_append: "pumpBytes (xs @ ys) st = pumpBytes ys (pumpBytes xs st)"
proof (induction xs arbitrary: st)
  case (Cons x xs)
  show ?case
    by (cases st) (auto simp: Cons split: prod.splits TransportEvent.splits)
qed simp

text \<open>The state after the last byte of frame \<open>f\<close>, before the frame is handled.\<close>

definition parsedState :: "ZwaveDataFrame \<Rightarrow> FrameTransport \<Rightarrow> FrameTransport" where
  "parsedState f t = (resetParser t)\<lparr>lastParsedFrame := f\<lparr>frameValid := True\<rparr>, lastParsedValid := True\<rparr>"

lemma feed_payload_more:
  assumes "parseState t = WaitPayload" and "Suc (length (frameBytes t)) < expectedLength t"
  shows "feed b t = (EvNone, t\<lparr>frameBytes := frameBytes t @ [b]\<rparr>)"
  using assms by (simp add: feed_def)

lemma feed_payload_last:
  assumes "parseState t = WaitPayload" and "Suc (length (frameBytes t)) = expectedLength t"
    and "frameBytes t @ [b] = toBuffer f" and "frame_ok f"
  shows "feed b t = (EvDataFrame, parsedState f t)"
proof -
  have "length (framePayload f) + 5 = expectedLength t"
    using assms(2) arg_cong [OF assms(3), of length] by simp
  then show ?thesis
    using assms by (simp add: feed_def Let_def parse_toBuffer parsedState_def)
qed

lemma pump_body:
  assumes "parseState t = WaitPayload" and "frameBytes t @ body = toBuffer f"
    and "expectedLength t = length (toBuffer f)" and "body \<noteq> []" and "frame_ok f"
  shows "pumpBytes (body @ rest) (t, lk) =
         pumpBytes rest (handleParsedDataFrame (parsedState f t, lk))"
  using assms(1-4)
proof (induction body arbitrary: t)
  case (Cons b body)
  have len: "length (frameBytes t) + Suc (length body) = expectedLength t"
    using Cons.prems(2,3) by (metis length_Cons length_append)
  show ?case
  proof (cases "body = []")
    case True
    with Cons.prems len assms(5) have "feed b t = (EvDataFrame, parsedState f t)"
      by (intro feed_payload_last) auto
    with True show ?thesis by simp
  next
    case False
    let ?t = "t\<lparr>frameBytes := frameBytes t @ [b]\<rparr>"
    have "feed b t = (EvNone, ?t)"
      using Cons.prems(1) len False by (intro feed_payload_more) (auto simp flip: len)
    moreover have "parsedState f ?t = parsedState f t"
      by (simp add: parsedState_def)
    ultimately show ?thesis
      using Cons.IH [of ?t] Cons.prems False by simp
  qed
qed simp

lemma pump_frame:
  assumes "parseState t = WaitFrameStart" and "frame_ok f"
  shows "pumpBytes (toBuffer f @ rest) (t, lk) =
         pumpBytes rest (handleParsedDataFrame (parsedState f t, lk))"
proof -
  let ?body = "[frameTypeByte (frameType f), commandId f] @ framePayload f @ [calculateChecksum f]"
  let ?t1 = "t\<lparr>frameBytes := [SOF], parseState := WaitLength\<rparr>"
  let ?t2 = "?t1\<lparr>frameBytes := [SOF, lengthByte f], expectedLength := 2 + unat (lengthByte f),
                 parseState := WaitPayload\<rparr>"
  have buf: "toBuffer f = [SOF, lengthByte f] @ ?body"
    by (simp add: toBuffer_def)
  have len: "unat (lengthByte f) = length (framePayload f) + 3" "length (framePayload f) \<le> 250"
    using assms(2) by (simp_all add: unat_lengthByte) (simp add: frame_ok_def frame_const_defs)
  have "feed SOF t = (EvNone, ?t1)"
    using assms(1) by (simp add: feed_def marker_defs)
  moreover have "feed (lengthByte f) ?t1 = (EvNone, ?t2)"
    using len by (simp add: feed_def word_less_nat_alt frame_const_defs)
  ultimately have "pumpBytes (toBuffer f @ rest) (t, lk) = pumpBytes (?body @ rest) (?t2, lk)"
    by (simp add: buf)
  also have "\<dots> = pumpBytes rest (handleParsedDataFrame (parsedState f ?t2, lk))"
    using len assms(2) by (intro pump_body) (simp_all add: toBuffer_def)
  also have "parsedState f ?t2 = parsedState f t"
    by (simp add: parsedState_def resetParser_def)
  finally show ?thesis .
qed

text \<open>
  Serial input as the dongle produces it: frames with noise between them, where noise is any
  byte that does not start a frame (a stray ACK, NAK or CAN included).
\<close>

datatype item = Noise byte | Frame ZwaveDataFrame

fun item_bytes :: "item \<Rightarrow> bytes" where
  "item_bytes (Noise b) = [b]"
| "item_bytes (Frame f) = toBuffer f"

fun item_ok :: "item \<Rightarrow> bool" where
  "item_ok (Noise b) \<longleftrightarrow> b \<noteq> SOF"
| "item_ok (Frame f) \<longleftrightarrow> frame_ok f"

fun item_frames :: "item list \<Rightarrow> ZwaveDataFrame list" where
  "item_frames [] = []"
| "item_frames (Noise b # is) = item_frames is"
| "item_frames (Frame f # is) = f\<lparr>frameValid := True\<rparr> # item_frames is"

fun handled :: "action list \<Rightarrow> ZwaveDataFrame list" where
  "handled [] = []"
| "handled (Handled f # as) = f # handled as"
| "handled (_ # as) = handled as"

fun acks :: "action list \<Rightarrow> nat" where
  "acks [] = 0"
| "acks (SentAck _ # as) = Suc (acks as)"
| "acks (_ # as) = acks as"

lemma handled_append [simp]: "handled (xs @ ys) = handled xs @ handled ys"
  by (induction xs rule: handled.induct) simp_all

lemma acks_append [simp]: "acks (xs @ ys) = acks xs + acks ys"
  by (induction xs rule: acks.induct) simp_all

lemma handleParsed_parsedState:
  assumes "handleParsedDataFrame (parsedState f t, lk) = (t', lk')"
  shows "parseState t' = WaitFrameStart \<and> hasHandler t' = hasHandler t \<and>
    handled (lkTrace lk') =
      handled (lkTrace lk) @ (if hasHandler t then [f\<lparr>frameValid := True\<rparr>] else []) \<and>
    acks (lkTrace lk') = Suc (acks (lkTrace lk))"
  using assms
  by (auto simp: handleParsedDataFrame_def parsedState_def resetParser_def sendAck_def trace_def
      Let_def split: prod.splits if_splits)

lemma pump_items:
  assumes "list_all item_ok is" and "parseState t = WaitFrameStart" and "hasHandler t"
    and "pumpBytes (concat (map item_bytes is)) (t, lk) = (t', lk')"
  shows "parseState t' = WaitFrameStart \<and>
         handled (lkTrace lk') = handled (lkTrace lk) @ item_frames is \<and>
         acks (lkTrace lk') = acks (lkTrace lk) + length (item_frames is)"
  using assms
proof (induction "is" arbitrary: t lk)
  case (Cons i "is")
  show ?case
  proof (cases i)
    case (Noise b)
    have "fst (feed b t) \<noteq> EvDataFrame \<and> snd (feed b t) = t"
      using Cons.prems(1,2) Noise by (simp add: feed_def)
    then have "pumpBytes (b # concat (map item_bytes is)) (t, lk) =
               pumpBytes (concat (map item_bytes is)) (t, lk)"
      by (cases "feed b t") (auto split: TransportEvent.splits)
    with Cons Noise show ?thesis by simp
  next
    case (Frame f)
    obtain t1 lk1 where h: "handleParsedDataFrame (parsedState f t, lk) = (t1, lk1)"
      by fastforce
    then have "pumpBytes (concat (map item_bytes is)) (t1, lk1) = (t', lk')"
      using Cons.prems Frame by (simp add: pump_frame)
    then show ?thesis
      using Cons.IH [of t1 lk1] Cons.prems(1,3) handleParsed_parsedState [OF h] Frame by simp
  qed
qed simp

section \<open>The retry discipline of sendRequest\<close>

fun sentFrames :: "action list \<Rightarrow> bytes list" where
  "sentFrames [] = []"
| "sentFrames (SentFrame b _ # as) = b # sentFrames as"
| "sentFrames (_ # as) = sentFrames as"

fun sleeps :: "action list \<Rightarrow> nat list" where
  "sleeps [] = []"
| "sleeps (Slept ms # as) = ms # sleeps as"
| "sleeps (_ # as) = sleeps as"

lemma sentFrames_append [simp]: "sentFrames (xs @ ys) = sentFrames xs @ sentFrames ys"
  by (induction xs rule: sentFrames.induct) simp_all

lemma sleeps_append [simp]: "sleeps (xs @ ys) = sleeps xs @ sleeps ys"
  by (induction xs rule: sleeps.induct) simp_all

text \<open>The requests sent and the back-offs slept so far.\<close>

definition sendHistory :: "link \<Rightarrow> bytes list \<times> nat list" where
  "sendHistory lk = (sentFrames (lkTrace lk), sleeps (lkTrace lk))"

lemma sendHistory_os [simp]: "sendHistory (lk\<lparr>lkOs := s\<rparr>) = sendHistory lk"
  by (simp add: sendHistory_def)

lemma handleParsedDataFrame_history:
  "handleParsedDataFrame (t, lk) = (t', lk') \<Longrightarrow> sendHistory lk' = sendHistory lk"
  by (auto simp: handleParsedDataFrame_def sendAck_def trace_def Let_def sendHistory_def
      split: if_splits prod.splits)

lemma scanBytes_history: "scanBytes bs (t, lk) = (r, t', lk') \<Longrightarrow> sendHistory lk' = sendHistory lk"
proof (induction bs arbitrary: t lk)
  case (Cons b bs)
  then show ?case
    by (auto split: prod.splits TransportEvent.splits)
      (metis handleParsedDataFrame_history old.prod.exhaust)
qed simp

lemma awaitAck_history: "awaitAck deadline t lk = (r, t', lk') \<Longrightarrow> sendHistory lk' = sendHistory lk"
proof (induction deadline t lk rule: awaitAck.induct)
  case (1 deadline t lk)
  obtain wait lk1 where w: "remainingMs deadline lk = (wait, lk1)" by fastforce
  obtain got d lk2 where g: "link_read wait lk1 = (got, d, lk2)" by (rule prod_cases3)
  obtain o1 t1 lk3 where sc: "scanBytes d (t, lk2) = (o1, t1, lk3)" by (rule prod_cases3)
  have h: "sendHistory lk1 = sendHistory lk" "sendHistory lk2 = sendHistory lk1"
    using w g by (auto simp: remainingMs_def link_read_def clock_now_def split: prod.splits)
  show ?case
    using 1 w g sc h scanBytes_history [OF sc]
    by (auto simp: awaitAck.simps [of deadline t lk] split: if_splits scanOutcome.splits)
qed

lemma prepareAttempt_history:
  "prepareAttempt attempt t lk = (t0, lk0) \<Longrightarrow>
   sendHistory lk0 = (fst (sendHistory lk),
     snd (sendHistory lk) @ (if attempt > 0 then [backoffMs attempt] else []))"
  by (auto simp: prepareAttempt_def link_flush_def link_sleep_def trace_def sendHistory_def
      split: if_splits)

text \<open>One turn: the request goes out once, and the turn either succeeds or hands over.\<close>

lemma sendAttempts_turn:
  assumes "sendAttempts attempt bs t lk = (r, t', lk')" and "attempt < MAX_SEND_RETRIES"
  shows "\<exists>t1 lk1. sendHistory lk1 = (fst (sendHistory lk) @ [bs],
             snd (sendHistory lk) @ (if attempt > 0 then [backoffMs attempt] else [])) \<and>
           (r \<and> lk' = lk1 \<or> sendAttempts (attempt + 1) bs t1 lk1 = (r, t', lk'))"
proof -
  obtain t0 lk0 where p: "prepareAttempt attempt t lk = (t0, lk0)" by fastforce
  obtain ok os1 where w: "writeAll (lkPort lk0) bs (lkOs lk0) = (ok, os1)" by fastforce
  define lk1 where "lk1 = trace (SentFrame bs ok) (lk0\<lparr>lkOs := os1\<rparr>)"
  obtain now os2 where c: "clock_now (lkOs lk1) = (now, os2)" by fastforce
  obtain a t2 lk2 where aw:
    "awaitAck (now + ACK_TIMEOUT_MS * NS_PER_MS) t0 (lk1\<lparr>lkOs := os2\<rparr>) = (a, t2, lk2)"
    by (rule prod_cases3)
  have h1: "sendHistory lk1 = (fst (sendHistory lk) @ [bs],
      snd (sendHistory lk) @ (if attempt > 0 then [backoffMs attempt] else []))"
    using prepareAttempt_history [OF p] by (simp add: lk1_def trace_def sendHistory_def)
  have h2: "sendHistory lk2 = sendHistory lk1"
    using awaitAck_history [OF aw] by simp
  note unfold = assms(1) [unfolded sendAttempts.simps [of attempt] p prod.case w Let_def,
      folded lk1_def, unfolded c prod.case aw]
  show ?thesis
  proof (cases "ok \<and> a")
    case True
    then have "r \<and> lk' = lk2" using unfold assms(2) by simp
    then show ?thesis using h1 h2 by (intro exI [of _ t2] exI [of _ lk2]) simp
  next
    case False
    then have "sendAttempts (attempt + 1) bs (if ok then t2 else t0) (if ok then lk2 else lk1) = (r, t', lk')"
      using unfold assms(2) by (cases ok) simp_all
    then show ?thesis
      using h1 h2 by (intro exI [of _ "if ok then t2 else t0"] exI [of _ "if ok then lk2 else lk1"]) simp
  qed
qed

lemma sendAttempts_exhausted: "sendAttempts MAX_SEND_RETRIES bs t lk = (False, t, lk)"
  by (subst sendAttempts.simps) simp

lemma sendAttempts_history:
  assumes "sendAttempts attempt bs t lk = (r, t', lk')" and "attempt \<le> MAX_SEND_RETRIES"
  shows "\<exists>k. attempt + k \<le> MAX_SEND_RETRIES \<and> (r \<longrightarrow> 0 < k) \<and>
           (\<not> r \<longrightarrow> attempt + k = MAX_SEND_RETRIES) \<and>
           sendHistory lk' =
             (fst (sendHistory lk) @ replicate k bs,
              snd (sendHistory lk) @ map backoffMs [max 1 attempt ..< attempt + k])"
  using assms
proof (induction "MAX_SEND_RETRIES - attempt" arbitrary: attempt t lk)
  case 0
  then have "attempt = MAX_SEND_RETRIES" by simp
  with 0 show ?case by (intro exI [of _ 0]) (auto simp: sendAttempts_exhausted)
next
  case (Suc n)
  have up: "[max 1 attempt ..< attempt + Suc k] =
      (if attempt > 0 then [attempt] else []) @ [max 1 (Suc attempt) ..< attempt + Suc k]" for k
    by (cases attempt) (simp_all add: upt_conv_Cons)
  have less: "attempt < MAX_SEND_RETRIES" using Suc.hyps(2) by simp
  obtain t1 lk1 where h: "sendHistory lk1 = (fst (sendHistory lk) @ [bs],
      snd (sendHistory lk) @ (if attempt > 0 then [backoffMs attempt] else []))"
    and turn: "r \<and> lk' = lk1 \<or> sendAttempts (attempt + 1) bs t1 lk1 = (r, t', lk')"
    using sendAttempts_turn [OF Suc.prems(1) less] by blast
  from turn show ?case
  proof
    assume "r \<and> lk' = lk1"
    then show ?thesis
      using h less up [of 0] by (intro exI [of _ 1]) auto
  next
    assume next_turn: "sendAttempts (attempt + 1) bs t1 lk1 = (r, t', lk')"
    have "n = MAX_SEND_RETRIES - (attempt + 1)" "attempt + 1 \<le> MAX_SEND_RETRIES"
      using Suc.hyps(2) less by simp_all
    from Suc.hyps(1) [OF this(1) next_turn this(2)] obtain k where "attempt + 1 + k \<le> MAX_SEND_RETRIES"
      "\<not> r \<longrightarrow> attempt + 1 + k = MAX_SEND_RETRIES"
      "sendHistory lk' = (fst (sendHistory lk1) @ replicate k bs,
         snd (sendHistory lk1) @ map backoffMs [max 1 (attempt + 1) ..< attempt + 1 + k])"
      by blast
    then show ?thesis
      using h up [of k] by (intro exI [of _ "Suc k"]) auto
  qed
qed

text \<open>
  The reading loop stops at the acknowledgement: whatever follows it in the same read is
  neither parsed nor kept for the next read.
\<close>

lemma scanBytes_ack_first:
  "parseState t = WaitFrameStart \<Longrightarrow> scanBytes (ACK # rest) (t, lk) = (ScanAck, t, lk)"
  by (simp add: feed_def)

section \<open>Properties\<close>

text \<open>What one byte after another leaves the parser in, and the events it reports.\<close>

fun feedAll :: "bytes \<Rightarrow> FrameTransport \<Rightarrow> TransportEvent list \<times> FrameTransport" where
  "feedAll [] t = ([], t)"
| "feedAll (b # bs) t =
     (case feed b t of (e, t1) \<Rightarrow> (case feedAll bs t1 of (es, t2) \<Rightarrow> (e # es, t2)))"

lemma feedAll_inv: "parser_inv t \<Longrightarrow> parser_inv (snd (feedAll bs t))"
  by (induction bs arbitrary: t) (auto split: prod.splits dest: feed_inv, metis feed_inv snd_conv)

lemma parser_inv_bounded:
  assumes "parser_inv t" and "parseState t \<noteq> WaitFrameStart"
  shows "length (frameBytes t) < MAX_FRAME_SIZE"
  using assms by (cases "parseState t") (auto simp: parser_inv_def frame_const_defs)

text \<open>
  On every byte sequence from the dongle the parser keeps its invariant: while it collects a
  frame the buffer starts with the start marker, is shorter than the announced length and than the
  largest frame, and the announced length is the one of the length byte.
\<close>

theorem feed_keeps_invariant:
  "parser_inv (snd (feedAll bs (newTransport h))) \<and>
   (parseState (snd (feedAll bs (newTransport h))) = WaitFrameStart \<or>
    length (frameBytes (snd (feedAll bs (newTransport h)))) < MAX_FRAME_SIZE)"
  using feedAll_inv [OF parser_inv_new] parser_inv_bounded by blast

text \<open>
  C1: serial input made of frames with noise between them, cut into reads at arbitrary places, is
  handled frame by frame: the handler gets exactly the frames, in order and intact, and each is
  acknowledged once.
\<close>

theorem pump_stream:
  assumes "list_all item_ok is" and "parseState t = WaitFrameStart" and "hasHandler t"
    and "concat chunks = concat (map item_bytes is)"
    and "fold pumpBytes chunks (t, lk) = (t', lk')"
  shows "parseState t' = WaitFrameStart \<and>
         handled (lkTrace lk') = handled (lkTrace lk) @ item_frames is \<and>
         acks (lkTrace lk') = acks (lkTrace lk) + length (item_frames is)"
proof -
  have "fold pumpBytes chunks st = pumpBytes (concat chunks) st" for st
    by (induction chunks arbitrary: st) (simp_all add: pumpBytes_append)
  with assms show ?thesis
    using pump_items [OF assms(1-3)] by simp
qed

definition demoLink :: "(nat \<times> pollResult) list \<Rightarrow> readResult list \<Rightarrow> writeResult list \<Rightarrow> link" where
  "demoLink ps rs ws =
     \<lparr>lkPort = \<lparr>descriptor = 3, devicePath = ''tty''\<rparr>,
      lkOs = \<lparr>osNow = 0, osPolls = ps, osReads = rs, osWrites = ws, osSent = [], osFlushes = 0\<rparr>,
      lkTrace = []\<rparr>"

theorem pump_stream_witness:
  "handled (lkTrace (snd (fold pumpBytes
      [[0x06, 0x01, 0x03], [0x00, 0x15], [0xE9, 0x18]]
      (newTransport True, demoLink [] [] [WriteOk 1])))) = [setHeader REQUEST 0x15 emptyFrame]"
proof -
  let ?is = "[Noise 0x06, Frame (setHeader REQUEST 0x15 emptyFrame), Noise 0x18]"
  let ?chunks = "[[0x06, 0x01, 0x03], [0x00, 0x15], [0xE9, 0x18]] :: bytes list"
  let ?st = "(newTransport True, demoLink [] [] [WriteOk 1])"
  have "concat ?chunks = concat (map item_bytes ?is)"
    by (simp add: toBuffer_def setHeader_def emptyFrame_def calculateChecksum_def lengthByte_def
        frame_const_defs)
  moreover have "list_all item_ok ?is"
    by (simp add: frame_ok_def setHeader_def emptyFrame_def frame_const_defs)
  ultimately have "handled (lkTrace (snd (fold pumpBytes ?chunks ?st))) =
      handled (lkTrace (snd ?st)) @ item_frames ?is"
    using pump_stream [of ?is "fst ?st" ?chunks "snd ?st" "fst (fold pumpBytes ?chunks ?st)"
        "snd (fold pumpBytes ?chunks ?st)"]
    by (simp add: newTransport_def)
  then show ?thesis
    by (simp add: demoLink_def setHeader_def emptyFrame_def)
qed

text \<open>
  C10: \<open>sendRequest\<close> always returns, after at least one and at most \<open>MAX_SEND_RETRIES\<close>
  transmissions of the same bytes; a failure means every attempt was used, and before attempt
  \<open>i\<close> it waits \<open>100 + i * 1000\<close> milliseconds.
\<close>

theorem sendRequest_retries:
  "\<exists>r t' lk' k. sendRequest f (t, lk) = (r, t', lk') \<and> 1 \<le> k \<and> k \<le> MAX_SEND_RETRIES \<and>
     (r \<or> k = MAX_SEND_RETRIES) \<and>
     sentFrames (lkTrace lk') = sentFrames (lkTrace lk) @ replicate k (toBuffer f) \<and>
     sleeps (lkTrace lk') = sleeps (lkTrace lk) @ map (\<lambda>i. 100 + i * 1000) [1 ..< k]"
proof -
  obtain r t' lk' where s: "sendAttempts 0 (toBuffer f) t lk = (r, t', lk')"
    by (rule prod_cases3)
  obtain k where k: "k \<le> MAX_SEND_RETRIES" "r \<longrightarrow> 0 < k" "\<not> r \<longrightarrow> k = MAX_SEND_RETRIES"
    "sendHistory lk' = (fst (sendHistory lk) @ replicate k (toBuffer f),
       snd (sendHistory lk) @ map backoffMs [1 ..< k])"
    using sendAttempts_history [OF s] by auto
  have "toBuffer f \<noteq> []" by (simp add: toBuffer_def)
  moreover have "1 \<le> k" using k by (cases r) (auto simp: MAX_SEND_RETRIES_def)
  moreover have "map backoffMs [1 ..< k] = map (\<lambda>i. 100 + i * 1000) [1 ..< k]"
    by (simp add: backoffMs_def transport_const_defs)
  ultimately show ?thesis
    using s k by (intro exI [of _ r] exI [of _ t'] exI [of _ lk'] exI [of _ k])
      (auto simp: sendRequest_def sendHistory_def)
qed

lemma writeLoop_done: "writeLoop ws [] s = (True, s\<lparr>osWrites := ws\<rparr>)"
  by (cases ws) simp_all

text \<open>
  When a read that follows the request brings the acknowledgement and, behind it, more bytes,
  \<open>sendRequest\<close> succeeds with the parser untouched and the bytes behind the acknowledgement
  gone: they are neither handled nor left for the next read.
\<close>

theorem ack_tail_dropped:
  assumes "parseState t = WaitFrameStart" and "isOpen (lkPort lk)"
    and "osWrites (lkOs lk) = WriteOk (length (toBuffer f)) # ws"
    and "osPolls (lkOs lk) = (dt, PollReady True) # ps"
    and "osReads (lkOs lk) = ReadOk (ACK # rest) # rs"
  shows "\<exists>lk'. sendRequest f (t, lk) = (True, t, lk') \<and>
           handled (lkTrace lk') = handled (lkTrace lk) \<and> acks (lkTrace lk') = acks (lkTrace lk) \<and>
           osReads (lkOs lk') = rs"
proof -
  have "toBuffer f \<noteq> []" by (simp add: toBuffer_def)
  with assms show ?thesis
    by (simp add: sendRequest_def sendAttempts.simps [of 0] awaitAck.simps [of _ t] prepareAttempt_def
        writeAll_def isOpen_def writeLoop_done trace_def clock_now_def remainingMs_def link_read_def
        readBytes_def os_poll_def os_read_def transport_const_defs feed_def Let_def)
qed

theorem ack_tail_dropped_witness:
  "\<exists>lk'. sendRequest (setHeader REQUEST 0x15 emptyFrame)
           (newTransport True, demoLink [(7, PollReady True)]
              [ReadOk [ACK, 0x01, 0x03, 0x01, 0x15, 0xE8]] [WriteOk 5]) =
           (True, newTransport True, lk') \<and> handled (lkTrace lk') = []"
  using ack_tail_dropped [of "newTransport True" "demoLink [(7, PollReady True)]
      [ReadOk [ACK, 0x01, 0x03, 0x01, 0x15, 0xE8]] [WriteOk 5]" "setHeader REQUEST 0x15 emptyFrame"
      "[]" 7 "[]" "[0x01, 0x03, 0x01, 0x15, 0xE8]" "[]"]
  by (auto simp: newTransport_def demoLink_def isOpen_def INVALID_FD_def setHeader_def emptyFrame_def)

end
