(* ===== verification/Host_Api.thy ===== *)
theory Host_Api
  imports Data_Frame
begin

text \<open>
  The Host API messages, \<open>src/src/zwave-protocol/HostApi.cpp\<close> and
  \<open>HostApiSession.cpp\<close>: the requests the daemon encodes into data frames, the responses
  and callbacks it decodes from them, and the tracker of the one inclusion or exclusion
  session.
\<close>

section \<open>Constants\<close>

definition CMD_SERIAL_API_GET_INIT_DATA :: byte where "CMD_SERIAL_API_GET_INIT_DATA = 0x02"
definition CMD_APPLICATION_COMMAND :: byte where "CMD_APPLICATION_COMMAND = 0x04"
definition CMD_SEND_DATA :: byte where "CMD_SEND_DATA = 0x13"
definition CMD_SEND_DATA_MULTI :: byte where "CMD_SEND_DATA_MULTI = 0x14"
definition CMD_GET_VERSION :: byte where "CMD_GET_VERSION = 0x15"
definition CMD_MEMORY_GET_ID :: byte where "CMD_MEMORY_GET_ID = 0x20"
definition CMD_GET_NODE_PROTOCOL_INFO :: byte where "CMD_GET_NODE_PROTOCOL_INFO = 0x41"
definition CMD_ADD_NODE_TO_NETWORK :: byte where "CMD_ADD_NODE_TO_NETWORK = 0x4A"
definition CMD_REMOVE_NODE_FROM_NETWORK :: byte where "CMD_REMOVE_NODE_FROM_NETWORK = 0x4B"
definition CMD_APPLICATION_UPDATE :: byte where "CMD_APPLICATION_UPDATE = 0x49"
definition CMD_REQUEST_NODE_INFO :: byte where "CMD_REQUEST_NODE_INFO = 0x60"
definition CMD_REMOVE_FAILED_NODE_ID :: byte where "CMD_REMOVE_FAILED_NODE_ID = 0x61"

lemmas cmd_defs = CMD_SERIAL_API_GET_INIT_DATA_def CMD_APPLICATION_COMMAND_def CMD_SEND_DATA_def
  CMD_SEND_DATA_MULTI_def CMD_GET_VERSION_def CMD_MEMORY_GET_ID_def CMD_GET_NODE_PROTOCOL_INFO_def
  CMD_ADD_NODE_TO_NETWORK_def CMD_REMOVE_NODE_FROM_NETWORK_def CMD_APPLICATION_UPDATE_def
  CMD_REQUEST_NODE_INFO_def CMD_REMOVE_FAILED_NODE_ID_def

definition ADD_MODE_ANY_NODE :: byte where "ADD_MODE_ANY_NODE = 0x01"
definition ADD_MODE_SMART_START_INCLUDE :: byte where "ADD_MODE_SMART_START_INCLUDE = 0x08"
definition MODE_MASK :: byte where "MODE_MASK = 0x0F"
definition FLAG_POWER_BIT :: nat where "FLAG_POWER_BIT = 7"
definition FLAG_NWI_BIT :: nat where "FLAG_NWI_BIT = 6"
definition FLAG_PROTOCOL_BIT :: nat where "FLAG_PROTOCOL_BIT = 5"
definition FLAG_SFLND_BIT :: nat where "FLAG_SFLND_BIT = 4"
definition FLAG_NWE_BIT :: nat where "FLAG_NWE_BIT = 6"
definition HOMEID_LEN :: nat where "HOMEID_LEN = 4"
definition VERSION_STRING_LEN :: nat where "VERSION_STRING_LEN = 12"
definition DEVICE_CLASS_BYTES :: nat where "DEVICE_CLASS_BYTES = 3"
definition INIT_DATA_HEADER :: nat where "INIT_DATA_HEADER = 3"
definition INIT_DATA_TRAILER :: nat where "INIT_DATA_TRAILER = 2"
definition MAX_VALID_NODE_ID :: nat where "MAX_VALID_NODE_ID = 232"
definition AU_HEADER_BYTES :: nat where "AU_HEADER_BYTES = 3"
definition AU_NODE_INFO_MIN_BYTES :: nat where "AU_NODE_INFO_MIN_BYTES = 6"
definition AU_OFFSET_CCS :: nat where "AU_OFFSET_CCS = 6"
definition NPI_PAYLOAD_BYTES :: nat where "NPI_PAYLOAD_BYTES = 6"
definition STATUS_NODE_INFO_RECEIVED :: byte where "STATUS_NODE_INFO_RECEIVED = 0x84"

lemmas host_const_defs = ADD_MODE_ANY_NODE_def ADD_MODE_SMART_START_INCLUDE_def MODE_MASK_def
  FLAG_POWER_BIT_def FLAG_NWI_BIT_def FLAG_PROTOCOL_BIT_def FLAG_SFLND_BIT_def FLAG_NWE_BIT_def
  HOMEID_LEN_def VERSION_STRING_LEN_def DEVICE_CLASS_BYTES_def INIT_DATA_HEADER_def
  INIT_DATA_TRAILER_def MAX_VALID_NODE_ID_def AU_HEADER_BYTES_def AU_NODE_INFO_MIN_BYTES_def
  AU_OFFSET_CCS_def NPI_PAYLOAD_BYTES_def STATUS_NODE_INFO_RECEIVED_def

section \<open>Requests\<close>

record AddNodeRequest =
  an_mode :: byte
  an_power :: bool
  an_nwi :: bool
  an_protocolLongRange :: bool
  an_skipFlNeighbors :: bool
  an_sessionId :: byte
  an_includeHomeIds :: bool
  an_nwiHomeId :: bytes
  an_authHomeId :: bytes

record RemoveNodeRequest =
  rn_mode :: byte
  rn_power :: bool
  rn_nwe :: bool
  rn_sessionId :: byte

record SendDataRequest =
  sd_nodeId :: byte
  sd_data :: bytes
  sd_txOptions :: byte
  sd_callbackId :: byte

record SendDataMultiRequest =
  sm_nodeIds :: bytes
  sm_data :: bytes
  sm_txOptions :: byte
  sm_callbackId :: byte

record RemoveFailedNodeRequest =
  rf_nodeId :: byte
  rf_sessionId :: byte

record RequestNodeInfoRequest =
  ri_nodeId :: byte
  ri_sessionId :: byte

text \<open>
  The frame every encoder builds: a fresh frame, the header, then the payload. The encoders
  ignore the answer of \<open>setPayload\<close>.
\<close>

definition requestFrame :: "byte \<Rightarrow> bytes \<Rightarrow> ZwaveDataFrame" where
  "requestFrame cmd payload =
     snd (setPayload (Some payload) (length payload) (setHeader REQUEST cmd emptyFrame))"

definition makeFlagByte ::
  "byte \<Rightarrow> bool \<Rightarrow> nat \<Rightarrow> bool \<Rightarrow> nat \<Rightarrow> bool \<Rightarrow> nat \<Rightarrow> bool \<Rightarrow> byte" where
  "makeFlagByte mode pwr bitB valB bitC valC bitD valD =
     (let out0 = mode AND MODE_MASK;
          out1 = (if pwr then out0 OR push_bit FLAG_POWER_BIT 1 else out0);
          out2 = (if valB then out1 OR push_bit bitB 1 else out1);
          out3 = (if valC then out2 OR push_bit bitC 1 else out2)
      in if valD then out3 OR push_bit bitD 1 else out3)"

definition encodeAddNode :: "AddNodeRequest \<Rightarrow> ZwaveDataFrame" where
  "encodeAddNode r =
     requestFrame CMD_ADD_NODE_TO_NETWORK
       ([makeFlagByte (an_mode r) (an_power r) FLAG_NWI_BIT (an_nwi r) FLAG_PROTOCOL_BIT
           (an_protocolLongRange r) FLAG_SFLND_BIT (an_skipFlNeighbors r),
         an_sessionId r]
        @ (if an_includeHomeIds r
           then an_nwiHomeId r
                @ (if an_mode r = ADD_MODE_SMART_START_INCLUDE then an_authHomeId r else [])
           else []))"

definition encodeRemoveNode :: "RemoveNodeRequest \<Rightarrow> ZwaveDataFrame" where
  "encodeRemoveNode r =
     (let flags0 = rn_mode r AND MODE_MASK;
          flags1 = (if rn_power r then flags0 OR push_bit FLAG_POWER_BIT 1 else flags0);
          flags2 = (if rn_nwe r then flags1 OR push_bit FLAG_NWE_BIT 1 else flags1)
      in requestFrame CMD_REMOVE_NODE_FROM_NETWORK [flags2, rn_sessionId r])"

definition encodeRemoveFailedNode :: "RemoveFailedNodeRequest \<Rightarrow> ZwaveDataFrame" where
  "encodeRemoveFailedNode r = requestFrame CMD_REMOVE_FAILED_NODE_ID [rf_nodeId r, rf_sessionId r]"

definition encodeGetNodeProtocolInfo :: "byte \<Rightarrow> ZwaveDataFrame" where
  "encodeGetNodeProtocolInfo nodeId = requestFrame CMD_GET_NODE_PROTOCOL_INFO [nodeId]"

definition encodeRequestNodeInfo :: "RequestNodeInfoRequest \<Rightarrow> ZwaveDataFrame" where
  "encodeRequestNodeInfo r = requestFrame CMD_REQUEST_NODE_INFO [ri_nodeId r]"

definition encodeSendData :: "SendDataRequest \<Rightarrow> ZwaveDataFrame" where
  "encodeSendData r =
     requestFrame CMD_SEND_DATA
       ([sd_nodeId r, of_nat (length (sd_data r))] @ sd_data r @ [sd_txOptions r, sd_callbackId r])"

definition encodeSendDataMulti :: "SendDataMultiRequest \<Rightarrow> ZwaveDataFrame" where
  "encodeSendDataMulti r =
     requestFrame CMD_SEND_DATA_MULTI
       ([of_nat (length (sm_nodeIds r))] @ sm_nodeIds r @ [of_nat (length (sm_data r))] @ sm_data r
        @ [sm_txOptions r, sm_callbackId r])"

section \<open>Responses and callbacks\<close>

record SendDataCallback =
  sc_callbackId :: byte
  sc_txStatus :: byte

record VersionResponse =
  vr_version :: string
  vr_libraryType :: byte

record MemoryIdResponse =
  mi_homeId :: bytes
  mi_controllerNodeId :: byte

record InitDataResponse =
  id_serialApiVersion :: byte
  id_capabilities :: byte
  id_chipType :: byte
  id_chipVersion :: byte
  id_nodeIds :: bytes

record NodeProtocolInfoResponse =
  np_capabilities :: byte
  np_security :: byte
  np_reserved :: byte
  np_basicDeviceType :: byte
  np_genericDeviceType :: byte
  np_specificDeviceType :: byte

record ApplicationCommand =
  ac_rxStatus :: byte
  ac_sourceNodeId :: byte
  ac_ccData :: bytes

record RemoveFailedNodeResponse =
  rr_status :: byte

record RemoveFailedNodeCallback =
  rc_sessionId :: byte
  rc_status :: byte

record RequestNodeInfoResponse =
  ir_accepted :: bool

record ApplicationUpdate =
  au_status :: byte
  au_nodeId :: byte
  au_basicDeviceType :: byte
  au_genericDeviceType :: byte
  au_specificDeviceType :: byte
  au_commandClasses :: bytes

record NodeStatusCallback =
  ns_commandId :: byte
  ns_sessionId :: byte
  ns_status :: byte
  ns_nodeId :: u16
  ns_basicDeviceType :: byte
  ns_genericDeviceType :: byte
  ns_specificDeviceType :: byte
  ns_commandClasses :: bytes

definition decodeSendDataMultiCallback :: "ZwaveDataFrame \<Rightarrow> SendDataCallback option" where
  "decodeSendDataMultiCallback frame =
     (if \<not> isValid frame \<or> getCommand frame \<noteq> CMD_SEND_DATA_MULTI then None
      else case getPayload frame of
          None \<Rightarrow> None
        | Some p \<Rightarrow> if getPayloadSize frame < 2 then None
                    else Some \<lparr>sc_callbackId = p ! 0, sc_txStatus = p ! 1\<rparr>)"

definition decodeSendDataCallback :: "ZwaveDataFrame \<Rightarrow> SendDataCallback option" where
  "decodeSendDataCallback frame =
     (if \<not> isValid frame \<or> getCommand frame \<noteq> CMD_SEND_DATA then None
      else case getPayload frame of
          None \<Rightarrow> None
        | Some p \<Rightarrow> if getPayloadSize frame < 2 then None
                    else Some \<lparr>sc_callbackId = p ! 0, sc_txStatus = p ! 1\<rparr>)"

definition decodeApplicationCommand :: "ZwaveDataFrame \<Rightarrow> ApplicationCommand option" where
  "decodeApplicationCommand frame =
     (if \<not> isValid frame \<or> getCommand frame \<noteq> CMD_APPLICATION_COMMAND then None
      else case getPayload frame of
          None \<Rightarrow> None
        | Some p \<Rightarrow>
            let total = getPayloadSize frame in
            if total < 3 then None
            else let ccLen = unat (p ! 2) in
              if ccLen = 0 \<or> total < 3 + ccLen then None
              else Some \<lparr>ac_rxStatus = p ! 0, ac_sourceNodeId = p ! 1,
                         ac_ccData = subspan p 3 ccLen\<rparr>)"

definition decodeVersion :: "ZwaveDataFrame \<Rightarrow> VersionResponse option" where
  "decodeVersion frame =
     (if \<not> isValid frame \<or> getCommand frame \<noteq> CMD_GET_VERSION \<or> getType frame \<noteq> RESPONSE then None
      else case getPayload frame of
          None \<Rightarrow> None
        | Some p \<Rightarrow>
            if getPayloadSize frame < VERSION_STRING_LEN + 1 then None
            else Some \<lparr>vr_version = map (\<lambda>b. char_of (unat b))
                                      (takeWhile (\<lambda>b. b \<noteq> 0) (take VERSION_STRING_LEN p)),
                       vr_libraryType = p ! VERSION_STRING_LEN\<rparr>)"

definition libraryTypeName :: "byte \<Rightarrow> string" where
  "libraryTypeName libraryType =
     (if libraryType = 1 then ''Static Controller''
      else if libraryType = 2 then ''Controller''
      else if libraryType = 3 then ''Enhanced Slave''
      else if libraryType = 4 then ''Slave''
      else if libraryType = 5 then ''Installer''
      else if libraryType = 6 then ''Routing Slave''
      else if libraryType = 7 then ''Bridge Controller''
      else if libraryType = 8 then ''DUT''
      else ''unknown'')"

text \<open>The two nested loops over the node bitmap.\<close>

definition bitmapByteNodes :: "bytes \<Rightarrow> nat \<Rightarrow> bytes" where
  "bitmapByteNodes p byteIdx =
     concat (map (\<lambda>bit.
         if p ! (INIT_DATA_HEADER + byteIdx) AND push_bit bit 1 = 0 then []
         else let nodeId = byteIdx * 8 + bit + 1 in
              if nodeId \<le> MAX_VALID_NODE_ID then [of_nat nodeId] else [])
       [0 ..< 8])"

definition decodeInitData :: "ZwaveDataFrame \<Rightarrow> InitDataResponse option" where
  "decodeInitData frame =
     (if \<not> isValid frame \<or> getCommand frame \<noteq> CMD_SERIAL_API_GET_INIT_DATA \<or>
         getType frame \<noteq> RESPONSE then None
      else case getPayload frame of
          None \<Rightarrow> None
        | Some p \<Rightarrow>
            let total = getPayloadSize frame in
            if total < INIT_DATA_HEADER then None
            else let bitmapLen = unat (p ! 2) in
              if total < INIT_DATA_HEADER + bitmapLen + INIT_DATA_TRAILER then None
              else Some \<lparr>id_serialApiVersion = p ! 0, id_capabilities = p ! 1,
                         id_chipType = p ! (INIT_DATA_HEADER + bitmapLen),
                         id_chipVersion = p ! (INIT_DATA_HEADER + bitmapLen + 1),
                         id_nodeIds = concat (map (bitmapByteNodes p) [0 ..< bitmapLen])\<rparr>)"

definition decodeNodeProtocolInfo :: "ZwaveDataFrame \<Rightarrow> NodeProtocolInfoResponse option" where
  "decodeNodeProtocolInfo frame =
     (if \<not> isValid frame \<or> getCommand frame \<noteq> CMD_GET_NODE_PROTOCOL_INFO \<or>
         getType frame \<noteq> RESPONSE then None
      else case getPayload frame of
          None \<Rightarrow> None
        | Some p \<Rightarrow>
            if getPayloadSize frame < NPI_PAYLOAD_BYTES then None
            else Some \<lparr>np_capabilities = p ! 0, np_security = p ! 1, np_reserved = p ! 2,
                       np_basicDeviceType = p ! 3, np_genericDeviceType = p ! 4,
                       np_specificDeviceType = p ! 5\<rparr>)"

definition decodeMemoryId :: "ZwaveDataFrame \<Rightarrow> MemoryIdResponse option" where
  "decodeMemoryId frame =
     (if \<not> isValid frame \<or> getCommand frame \<noteq> CMD_MEMORY_GET_ID \<or> getType frame \<noteq> RESPONSE
      then None
      else case getPayload frame of
          None \<Rightarrow> None
        | Some p \<Rightarrow>
            if getPayloadSize frame < HOMEID_LEN + 1 then None
            else Some \<lparr>mi_homeId = take HOMEID_LEN p, mi_controllerNodeId = p ! HOMEID_LEN\<rparr>)"

definition decodeRemoveFailedNodeResponse :: "ZwaveDataFrame \<Rightarrow> RemoveFailedNodeResponse option" where
  "decodeRemoveFailedNodeResponse frame =
     (if \<not> isValid frame \<or> getCommand frame \<noteq> CMD_REMOVE_FAILED_NODE_ID \<or>
         getType frame \<noteq> RESPONSE then None
      else case getPayload frame of
          None \<Rightarrow> None
        | Some p \<Rightarrow> if getPayloadSize frame < 1 then None else Some \<lparr>rr_status = p ! 0\<rparr>)"

definition decodeRemoveFailedNodeCallback :: "ZwaveDataFrame \<Rightarrow> RemoveFailedNodeCallback option" where
  "decodeRemoveFailedNodeCallback frame =
     (if \<not> isValid frame \<or> getCommand frame \<noteq> CMD_REMOVE_FAILED_NODE_ID \<or>
         getType frame \<noteq> REQUEST then None
      else case getPayload frame of
          None \<Rightarrow> None
        | Some p \<Rightarrow> if getPayloadSize frame < 2 then None
                    else Some \<lparr>rc_sessionId = p ! 0, rc_status = p ! 1\<rparr>)"

definition decodeRequestNodeInfoResponse :: "ZwaveDataFrame \<Rightarrow> RequestNodeInfoResponse option" where
  "decodeRequestNodeInfoResponse frame =
     (if \<not> isValid frame \<or> getCommand frame \<noteq> CMD_REQUEST_NODE_INFO \<or> getType frame \<noteq> RESPONSE
      then None
      else case getPayload frame of
          None \<Rightarrow> None
        | Some p \<Rightarrow> if getPayloadSize frame < 1 then None else Some \<lparr>ir_accepted = (p ! 0 \<noteq> 0)\<rparr>)"

definition decodeApplicationUpdate :: "ZwaveDataFrame \<Rightarrow> ApplicationUpdate option" where
  "decodeApplicationUpdate frame =
     (if \<not> isValid frame \<or> getCommand frame \<noteq> CMD_APPLICATION_UPDATE \<or> getType frame \<noteq> REQUEST
      then None
      else case getPayload frame of
          None \<Rightarrow> None
        | Some p \<Rightarrow>
            let total = getPayloadSize frame in
            if total < AU_HEADER_BYTES then None
            else let out = \<lparr>au_status = p ! 0, au_nodeId = p ! 1, au_basicDeviceType = 0,
                            au_genericDeviceType = 0, au_specificDeviceType = 0,
                            au_commandClasses = []\<rparr>;
                     end' = min total (AU_HEADER_BYTES + unat (p ! 2))
                 in if au_status out = STATUS_NODE_INFO_RECEIVED \<and> end' \<ge> AU_NODE_INFO_MIN_BYTES
                    then Some (out\<lparr>au_basicDeviceType := p ! 3, au_genericDeviceType := p ! 4,
                                   au_specificDeviceType := p ! 5,
                                   au_commandClasses :=
                                     (if end' > AU_OFFSET_CCS
                                      then subspan p AU_OFFSET_CCS (end' - AU_OFFSET_CCS) else [])\<rparr>)
                    else Some out)"

text \<open>
  \<open>decodeNodeCallback\<close> reads a node information block behind the node id. The tail of the
  function, from the length byte at \<open>offset\<close> on, is \<open>nodeInfoTail\<close>.
\<close>

definition nodeInfoTail :: "bytes \<Rightarrow> nat \<Rightarrow> NodeStatusCallback \<Rightarrow> NodeStatusCallback" where
  "nodeInfoTail p offset0 out =
     (let total = length p in
      if total \<le> offset0 then out
      else let bLen = unat (p ! offset0);
               ccLen = (if bLen \<ge> DEVICE_CLASS_BYTES then bLen - DEVICE_CLASS_BYTES else 0);
               offset1 = offset0 + 1;
               triple = (bLen \<ge> DEVICE_CLASS_BYTES \<and> total \<ge> offset1 + DEVICE_CLASS_BYTES);
               out1 = (if triple
                       then out\<lparr>ns_basicDeviceType := p ! offset1,
                                ns_genericDeviceType := p ! (offset1 + 1),
                                ns_specificDeviceType := p ! (offset1 + 2)\<rparr>
                       else out);
               offset2 = (if triple then offset1 + DEVICE_CLASS_BYTES else offset1)
           in if ccLen > 0 \<and> total \<ge> offset2 + ccLen
              then out1\<lparr>ns_commandClasses := subspan p offset2 ccLen\<rparr>
              else out1)"

definition decodeNodeCallback :: "ZwaveDataFrame \<Rightarrow> bool \<Rightarrow> NodeStatusCallback option" where
  "decodeNodeCallback frame nodeId16Bit =
     (if \<not> isValid frame then None
      else let cmd = getCommand frame in
        if cmd \<noteq> CMD_ADD_NODE_TO_NETWORK \<and> cmd \<noteq> CMD_REMOVE_NODE_FROM_NETWORK then None
        else case getPayload frame of
            None \<Rightarrow> None
          | Some p \<Rightarrow>
              let total = getPayloadSize frame in
              if total < 3 then None
              else let out = \<lparr>ns_commandId = cmd, ns_sessionId = p ! 0, ns_status = p ! 1,
                              ns_nodeId = 0, ns_basicDeviceType = 0, ns_genericDeviceType = 0,
                              ns_specificDeviceType = 0, ns_commandClasses = []\<rparr>
                   in if nodeId16Bit
                      then if total < 4 then Some out
                           else Some (nodeInfoTail p 4 (out\<lparr>ns_nodeId := be16 (p ! 2) (p ! 3)\<rparr>))
                      else Some (nodeInfoTail p 3 (out\<lparr>ns_nodeId := ucast (p ! 2)\<rparr>)))"

section \<open>HostApiSession\<close>

record ActiveSession =
  as_commandId :: byte
  as_sessionId :: byte

type_synonym SessionTracker = "ActiveSession option"

definition STATUS_DONE_INCLUSION :: byte where "STATUS_DONE_INCLUSION = 0x06"
definition STATUS_FAILED_INCLUDE :: byte where "STATUS_FAILED_INCLUDE = 0x07"
definition STATUS_DONE_EXCLUSION :: byte where "STATUS_DONE_EXCLUSION = 0x06"
definition STATUS_FAILED_EXCLUDE :: byte where "STATUS_FAILED_EXCLUDE = 0x07"
definition STATUS_NOT_PRIMARY :: byte where "STATUS_NOT_PRIMARY = 0x23"

definition session_active :: "SessionTracker \<Rightarrow> ActiveSession option" where
  "session_active current = current"

definition session_begin :: "byte \<Rightarrow> byte \<Rightarrow> SessionTracker \<Rightarrow> SessionTracker" where
  "session_begin cmd sid current = Some \<lparr>as_commandId = cmd, as_sessionId = sid\<rparr>"

definition session_end :: "SessionTracker \<Rightarrow> SessionTracker" where
  "session_end current = None"

lemmas session_status_defs = STATUS_NOT_PRIMARY_def STATUS_DONE_INCLUSION_def STATUS_FAILED_INCLUDE_def
  STATUS_DONE_EXCLUSION_def STATUS_FAILED_EXCLUDE_def

definition isTerminalStatus :: "byte \<Rightarrow> byte \<Rightarrow> bool" where
  "isTerminalStatus cmd status =
     (if status = STATUS_NOT_PRIMARY then True
      else if cmd = CMD_ADD_NODE_TO_NETWORK
        then status = STATUS_DONE_INCLUSION \<or> status = STATUS_FAILED_INCLUDE
      else if cmd = CMD_REMOVE_NODE_FROM_NETWORK
        then status = STATUS_DONE_EXCLUSION \<or> status = STATUS_FAILED_EXCLUDE
      else False)"

section \<open>Interface: a decoder of one kind of frame\<close>

text \<open>
  A decoder of the Host API accepts only valid frames, of its command and direction, that carry a
  payload.
\<close>

locale frame_decoder =
  fixes fdec :: "ZwaveDataFrame \<Rightarrow> 'a option"
    and kind :: "byte \<Rightarrow> FrameType \<Rightarrow> bool"
  assumes accepts_kind:
    "fdec f = Some r \<Longrightarrow> frameValid f \<and> framePayload f \<noteq> [] \<and> kind (commandId f) (frameType f)"
begin

lemma accepted_kind: "fdec f \<noteq> None \<longrightarrow> kind (commandId f) (frameType f)"
  using accepts_kind by (metis not_Some_eq)

lemma rejects_other_kind: "\<not> kind (commandId f) (frameType f) \<Longrightarrow> fdec f = None"
  using accepts_kind by (metis not_Some_eq)

lemma rejects_unparsed: "\<not> frameValid f \<or> framePayload f = [] \<Longrightarrow> fdec f = None"
  using accepts_kind by (metis not_Some_eq)

end

lemmas decoder_splits = if_splits option.splits

interpretation sendData_cb: frame_decoder decodeSendDataCallback "\<lambda>c t. c = CMD_SEND_DATA"
  by unfold_locales (auto simp: decodeSendDataCallback_def wire_simps split: decoder_splits)

interpretation sendDataMulti_cb: frame_decoder decodeSendDataMultiCallback
  "\<lambda>c t. c = CMD_SEND_DATA_MULTI"
  by unfold_locales (auto simp: decodeSendDataMultiCallback_def wire_simps split: decoder_splits)

interpretation appCommand: frame_decoder decodeApplicationCommand "\<lambda>c t. c = CMD_APPLICATION_COMMAND"
  by unfold_locales (auto simp: decodeApplicationCommand_def wire_simps Let_def split: decoder_splits)

interpretation version: frame_decoder decodeVersion "\<lambda>c t. c = CMD_GET_VERSION \<and> t = RESPONSE"
  by unfold_locales (auto simp: decodeVersion_def wire_simps split: decoder_splits)

interpretation initData: frame_decoder decodeInitData
  "\<lambda>c t. c = CMD_SERIAL_API_GET_INIT_DATA \<and> t = RESPONSE"
  by unfold_locales (auto simp: decodeInitData_def wire_simps Let_def split: decoder_splits)

interpretation nodeProtocolInfo: frame_decoder decodeNodeProtocolInfo
  "\<lambda>c t. c = CMD_GET_NODE_PROTOCOL_INFO \<and> t = RESPONSE"
  by unfold_locales (auto simp: decodeNodeProtocolInfo_def wire_simps split: decoder_splits)

interpretation memoryId: frame_decoder decodeMemoryId "\<lambda>c t. c = CMD_MEMORY_GET_ID \<and> t = RESPONSE"
  by unfold_locales (auto simp: decodeMemoryId_def wire_simps split: decoder_splits)

interpretation removeFailed_rsp: frame_decoder decodeRemoveFailedNodeResponse
  "\<lambda>c t. c = CMD_REMOVE_FAILED_NODE_ID \<and> t = RESPONSE"
  by unfold_locales (auto simp: decodeRemoveFailedNodeResponse_def wire_simps split: decoder_splits)

interpretation removeFailed_cb: frame_decoder decodeRemoveFailedNodeCallback
  "\<lambda>c t. c = CMD_REMOVE_FAILED_NODE_ID \<and> t = REQUEST"
  by unfold_locales (auto simp: decodeRemoveFailedNodeCallback_def wire_simps split: decoder_splits)

interpretation nodeInfo_rsp: frame_decoder decodeRequestNodeInfoResponse
  "\<lambda>c t. c = CMD_REQUEST_NODE_INFO \<and> t = RESPONSE"
  by unfold_locales (auto simp: decodeRequestNodeInfoResponse_def wire_simps split: decoder_splits)

interpretation appUpdate: frame_decoder decodeApplicationUpdate
  "\<lambda>c t. c = CMD_APPLICATION_UPDATE \<and> t = REQUEST"
  by unfold_locales (auto simp: decodeApplicationUpdate_def wire_simps Let_def split: decoder_splits)

interpretation nodeCallback: frame_decoder "\<lambda>f. decodeNodeCallback f wide"
  "\<lambda>c t. c = CMD_ADD_NODE_TO_NETWORK \<or> c = CMD_REMOVE_NODE_FROM_NETWORK" for wide
  by unfold_locales (auto simp: decodeNodeCallback_def wire_simps Let_def split: decoder_splits)

lemmas decoder_kinds = sendData_cb.accepted_kind sendDataMulti_cb.accepted_kind
  appCommand.accepted_kind version.accepted_kind initData.accepted_kind
  nodeProtocolInfo.accepted_kind memoryId.accepted_kind removeFailed_rsp.accepted_kind
  removeFailed_cb.accepted_kind nodeInfo_rsp.accepted_kind appUpdate.accepted_kind
  nodeCallback.accepted_kind

text \<open>The decoders the protocol thread tries on a frame, as acceptance flags.\<close>

definition acceptances :: "ZwaveDataFrame \<Rightarrow> bool \<Rightarrow> bool list" where
  "acceptances f wide =
     [decodeSendDataCallback f \<noteq> None, decodeSendDataMultiCallback f \<noteq> None,
      decodeApplicationCommand f \<noteq> None, decodeVersion f \<noteq> None, decodeInitData f \<noteq> None,
      decodeNodeProtocolInfo f \<noteq> None, decodeMemoryId f \<noteq> None,
      decodeRemoveFailedNodeResponse f \<noteq> None, decodeRemoveFailedNodeCallback f \<noteq> None,
      decodeRequestNodeInfoResponse f \<noteq> None, decodeApplicationUpdate f \<noteq> None,
      decodeNodeCallback f wide \<noteq> None]"

definition decoderKinds :: "(byte \<Rightarrow> FrameType \<Rightarrow> bool) list" where
  "decoderKinds =
     [\<lambda>c t. c = CMD_SEND_DATA, \<lambda>c t. c = CMD_SEND_DATA_MULTI, \<lambda>c t. c = CMD_APPLICATION_COMMAND,
      \<lambda>c t. c = CMD_GET_VERSION \<and> t = RESPONSE,
      \<lambda>c t. c = CMD_SERIAL_API_GET_INIT_DATA \<and> t = RESPONSE,
      \<lambda>c t. c = CMD_GET_NODE_PROTOCOL_INFO \<and> t = RESPONSE,
      \<lambda>c t. c = CMD_MEMORY_GET_ID \<and> t = RESPONSE,
      \<lambda>c t. c = CMD_REMOVE_FAILED_NODE_ID \<and> t = RESPONSE,
      \<lambda>c t. c = CMD_REMOVE_FAILED_NODE_ID \<and> t = REQUEST,
      \<lambda>c t. c = CMD_REQUEST_NODE_INFO \<and> t = RESPONSE,
      \<lambda>c t. c = CMD_APPLICATION_UPDATE \<and> t = REQUEST,
      \<lambda>c t. c = CMD_ADD_NODE_TO_NETWORK \<or> c = CMD_REMOVE_NODE_FROM_NETWORK]"

lemma acceptances_kinds:
  "list_all2 (\<lambda>a k. a \<longrightarrow> k (commandId f) (frameType f)) (acceptances f wide) decoderKinds"
  unfolding acceptances_def decoderKinds_def
  by (simp only: list.rel_inject list.rel_intros simp_thms) (intro conjI decoder_kinds)

lemma one_kind: "length (filter (\<lambda>k. k c t) decoderKinds) \<le> 1"
  by (cases t) (simp_all add: decoderKinds_def cmd_defs)

section \<open>The node bitmap\<close>

lemma and_push_bit_one_eq_0: "(w :: byte) AND push_bit k 1 = 0 \<longleftrightarrow> \<not> bit w k"
  by (simp add: push_bit_eq_mult and_exp_eq_0_iff_not_bit)

lemma upt_blocks: "concat (map (\<lambda>i. map (\<lambda>j. i * 8 + j) [0 ..< 8]) [0 ..< n]) = [0 ..< n * 8 :: nat]"
proof (induction n)
  case (Suc n)
  have "map (\<lambda>j. n * 8 + j) [0 ..< 8] = [n * 8 ..< n * 8 + 8]"
    using map_add_upt [of "n * 8" 8] by (simp add: add.commute)
  then have "concat (map (\<lambda>i. map (\<lambda>j. i * 8 + j) [0 ..< 8]) [0 ..< Suc n]) =
      [0 ..< n * 8] @ [n * 8 ..< n * 8 + 8]"
    using Suc.IH by simp
  also have "\<dots> = [0 ..< Suc n * 8]"
    using upt_add_eq_append [of 0 "n * 8" 8] by (simp add: add.commute)
  finally show ?case .
qed simp

lemma filter_upt_less: "filter (\<lambda>k. k < m) [0 ..< n] = [0 ..< min m n]"
  by (induction n) (auto simp: min_def le_Suc_eq)

definition nodeListed :: "bytes \<Rightarrow> nat \<Rightarrow> bool" where
  "nodeListed p k \<longleftrightarrow> bit (p ! (3 + k div 8)) (k mod 8) \<and> k < 232"

lemma concat_guarded:
  "concat (map (\<lambda>x. if P x then [] else if Q x then [g x] else []) xs) =
   map g (filter (\<lambda>x. \<not> P x \<and> Q x) xs)"
  by (induction xs) auto

lemma filter_map_shift: "map g (filter P (map h xs)) = map (g \<circ> h) (filter (P \<circ> h) xs)"
  by (simp add: filter_map)

lemma bitmapByteNodes_eq:
  "bitmapByteNodes p i = map (\<lambda>k. of_nat (k + 1)) (filter (nodeListed p) (map (\<lambda>j. i * 8 + j) [0 ..< 8]))"
proof -
  have "bitmapByteNodes p i =
    map (\<lambda>j. of_nat (i * 8 + j + 1)) (filter (\<lambda>j. bit (p ! (3 + i)) j \<and> i * 8 + j + 1 \<le> 232) [0 ..< 8])"
    unfolding bitmapByteNodes_def Let_def and_push_bit_one_eq_0 host_const_defs concat_guarded by simp
  also have "filter (\<lambda>j. bit (p ! (3 + i)) j \<and> i * 8 + j + 1 \<le> 232) [0 ..< 8] =
    filter (nodeListed p \<circ> (\<lambda>j. i * 8 + j)) [0 ..< 8]"
    by (rule filter_cong) (auto simp: nodeListed_def)
  finally show ?thesis
    by (simp add: filter_map_shift comp_def)
qed

lemma bitmapNodes_eq:
  "concat (map (bitmapByteNodes p) [0 ..< n]) = map (\<lambda>k. of_nat (k + 1)) (filter (nodeListed p) [0 ..< n * 8])"
  unfolding upt_blocks [symmetric] bitmapByteNodes_eq filter_concat map_concat
  by (simp add: comp_def)

section \<open>Properties\<close>

text \<open>
  No frame is accepted by two of the Host API decoders, so the order in which the protocol
  thread tries them does not matter.
\<close>

theorem decoders_exclusive: "length (filter id (acceptances f wide)) \<le> 1"
  using filter_length_list_all2 [OF acceptances_kinds] one_kind le_trans by blast

text \<open>
  The node ids of the init-data response are exactly the ids up to 232 whose bit is set in the
  bitmap, in increasing order and each once.
\<close>

theorem initData_nodes:
  assumes "decodeInitData f = Some r"
  shows "map unat (id_nodeIds r) =
           filter (\<lambda>n. bit (framePayload f ! (3 + (n - 1) div 8)) ((n - 1) mod 8))
             [1 ..< min 232 (8 * unat (framePayload f ! 2)) + 1]"
proof -
  let ?p = "framePayload f" and ?n = "unat (framePayload f ! 2)"
  have ids: "id_nodeIds r = map (\<lambda>k. of_nat (k + 1)) (filter (nodeListed ?p) [0 ..< ?n * 8])"
    using assms bitmapNodes_eq [of ?p ?n]
    by (auto simp: decodeInitData_def wire_simps Let_def split: decoder_splits)
  have "map unat (id_nodeIds r) = map (\<lambda>k. k + 1) (filter (nodeListed ?p) [0 ..< ?n * 8])"
    unfolding ids map_map
    by (rule map_cong) (auto simp: nodeListed_def unat_of_nat_byte simp del: of_nat_Suc of_nat_add)
  also have "filter (nodeListed ?p) [0 ..< ?n * 8] =
      filter (\<lambda>k. bit (?p ! (3 + k div 8)) (k mod 8)) [0 ..< min 232 (8 * ?n)]"
  proof -
    have "filter (\<lambda>k. k < 232) [0 ..< ?n * 8] = [0 ..< min 232 (8 * ?n)]"
      by (simp add: filter_upt_less mult.commute)
    moreover have "filter (nodeListed ?p) xs =
        filter (\<lambda>k. bit (?p ! (3 + k div 8)) (k mod 8)) (filter (\<lambda>k. k < 232) xs)" for xs
      by (induction xs) (simp_all add: nodeListed_def)
    ultimately show ?thesis by (simp del: filter_filter)
  qed
  also have "map (\<lambda>k. k + 1) (filter (\<lambda>k. bit (?p ! (3 + k div 8)) (k mod 8)) [0 ..< min 232 (8 * ?n)]) =
      filter (\<lambda>n. bit (?p ! (3 + (n - 1) div 8)) ((n - 1) mod 8)) (map (\<lambda>k. k + 1) [0 ..< min 232 (8 * ?n)])"
    by (simp add: filter_map comp_def)
  finally show ?thesis
    by (simp add: map_Suc_upt del: upt_Suc)
qed

theorem initData_nodes_witness:
  "map unat (id_nodeIds (the (decodeInitData \<lparr>frameType = RESPONSE, commandId = 0x02,
     framePayload = [8, 0, 1, 0x21, 7, 0], frameValid = True\<rparr>))) = [1, 6]"
proof -
  let ?f = "\<lparr>frameType = RESPONSE, commandId = 0x02, framePayload = [8, 0, 1, 0x21, 7, 0],
     frameValid = True\<rparr>"
  have d: "decodeInitData ?f = Some (the (decodeInitData ?f))"
    by (simp add: decodeInitData_def wire_simps cmd_defs host_const_defs)
  show ?thesis
    unfolding initData_nodes [OF d] by code_simp
qed

lemma requestFrame_simps [simp]:
  "frameType (requestFrame cmd p) = REQUEST"
  "commandId (requestFrame cmd p) = cmd"
  "framePayload (requestFrame cmd p) = (if length p \<le> MAX_PAYLOAD_SIZE then p else [])"
  "frameValid (requestFrame cmd p)"
  by (auto simp: requestFrame_def setPayload_def setHeader_def emptyFrame_def)

lemma requestFrame_ok: "frame_ok (requestFrame cmd p)"
  by (simp add: frame_ok_def)

lemma requestFrame_wire:
  "parseFromBuffer g (Some (toBuffer (requestFrame cmd p))) = (True, requestFrame cmd p)"
  by (simp add: parse_toBuffer requestFrame_ok)

text \<open>
  A transmit request of at most 246 data bytes reaches the dongle as it was asked for: the
  serialised frame parses back to the frame, and its payload is the node id, the exact data length,
  the data, the transmit options and the callback id.
\<close>

theorem sendData_wire:
  assumes "length (sd_data r) \<le> 246"
  shows "parseFromBuffer g (Some (toBuffer (encodeSendData r))) = (True, encodeSendData r) \<and>
    commandId (encodeSendData r) = CMD_SEND_DATA \<and>
    (\<exists>n. unat n = length (sd_data r) \<and>
       framePayload (encodeSendData r) =
         [sd_nodeId r, n] @ sd_data r @ [sd_txOptions r, sd_callbackId r])"
proof -
  have "unat (of_nat (length (sd_data r)) :: byte) = length (sd_data r)"
    using assms by (intro unat_of_nat_byte) simp
  with assms show ?thesis
    by (simp add: encodeSendData_def requestFrame_wire frame_const_defs)
qed

theorem sendData_wire_witness:
  "\<exists>n. unat n = length [0x25 :: byte, 0x01, 0xFF] \<and>
     framePayload (encodeSendData
       \<lparr>sd_nodeId = 7, sd_data = [0x25, 0x01, 0xFF], sd_txOptions = 0x25, sd_callbackId = 9\<rparr>) =
     [7, n] @ [0x25, 0x01, 0xFF] @ [0x25, 9]"
  using sendData_wire [of "\<lparr>sd_nodeId = 7, sd_data = [0x25, 0x01, 0xFF], sd_txOptions = 0x25,
      sd_callbackId = 9\<rparr>"]
  by simp

text \<open>
  A transmit request of more than 246 data bytes is not refused: the encoder drops the answer
  of \<open>setPayload\<close> and returns a valid frame with an empty payload, which the dongle parses as
  a well-formed request.
\<close>

theorem sendData_oversize:
  assumes "246 < length (sd_data r)"
  shows "framePayload (encodeSendData r) = [] \<and>
    parseFromBuffer g (Some (toBuffer (encodeSendData r))) =
      (True, setHeader REQUEST CMD_SEND_DATA emptyFrame)"
proof -
  have "framePayload (encodeSendData r) = []"
    using assms by (simp add: encodeSendData_def frame_const_defs)
  moreover have "encodeSendData r = setHeader REQUEST CMD_SEND_DATA emptyFrame"
    using assms by (simp add: encodeSendData_def requestFrame_def setPayload_def frame_const_defs)
  ultimately show ?thesis
    using parse_toBuffer [of "encodeSendData r" g]
    by (simp add: frame_ok_def setHeader_def)
qed

theorem sendData_oversize_witness:
  "framePayload (encodeSendData
     \<lparr>sd_nodeId = 7, sd_data = replicate 247 0, sd_txOptions = 0x25, sd_callbackId = 9\<rparr>) = []"
  using sendData_oversize [of "\<lparr>sd_nodeId = 7, sd_data = replicate 247 0, sd_txOptions = 0x25,
      sd_callbackId = 9\<rparr>"]
  by simp

text \<open>
  An application command is decoded exactly when the frame carries the announced number of
  command bytes, at least one, and then the command bytes are handed on unchanged, bytes behind
  them ignored.
\<close>

theorem applicationCommand_exact:
  "decodeApplicationCommand f = Some r \<longleftrightarrow>
     frameValid f \<and> commandId f = CMD_APPLICATION_COMMAND \<and>
     (\<exists>n rest. framePayload f = [ac_rxStatus r, ac_sourceNodeId r, n] @ ac_ccData r @ rest \<and>
        unat n = length (ac_ccData r) \<and> ac_ccData r \<noteq> [])"
  (is "?L \<longleftrightarrow> ?R")
proof
  assume ?L
  then obtain st src n q where p: "framePayload f = st # src # n # q"
    and f: "frameValid f" "commandId f = CMD_APPLICATION_COMMAND"
    and n: "unat n \<noteq> 0" "unat n \<le> length q" "ac_ccData r = take (unat n) q"
      "ac_rxStatus r = st" "ac_sourceNodeId r = src"
    by (auto simp: decodeApplicationCommand_def wire_simps Let_def subspan_def not_less
        numeral_3_eq_3 Suc_le_length_iff split: decoder_splits)
  then show ?R
    by (auto intro!: exI [of _ n] exI [of _ "drop (unat n) q"])
next
  assume ?R
  then show ?L
    by (auto simp: decodeApplicationCommand_def wire_simps Let_def subspan_def)
qed

text \<open>
  An inclusion or exclusion callback that carries a complete node information block is decoded
  field by field, for one-byte and for two-byte node ids.
\<close>

theorem nodeCallback_fields:
  assumes "frameValid f"
    and "commandId f = CMD_ADD_NODE_TO_NETWORK \<or> commandId f = CMD_REMOVE_NODE_FROM_NETWORK"
    and "framePayload f =
      [sid, st] @ (if wide then [hi8 node, lo8 node] else [lo8 node])
        @ [of_nat (3 + length ccs), basic, gen, spec] @ ccs"
    and "length ccs \<le> 252" and "wide \<or> hi8 node = 0"
  shows "decodeNodeCallback f wide =
    Some \<lparr>ns_commandId = commandId f, ns_sessionId = sid, ns_status = st, ns_nodeId = node,
          ns_basicDeviceType = basic, ns_genericDeviceType = gen, ns_specificDeviceType = spec,
          ns_commandClasses = ccs\<rparr>"
proof -
  have n: "unat (of_nat (3 + length ccs) :: byte) = 3 + length ccs"
    using assms(4) by (intro unat_of_nat_byte) simp
  have node: "ucast (lo8 node) = node" if "\<not> wide"
  proof -
    have "node = be16 (hi8 node) (lo8 node)" by simp
    also have "\<dots> = ucast (lo8 node)"
      using assms(5) that by (simp add: be16_def del: be16_hi_lo)
    finally show ?thesis by simp
  qed
  show ?thesis
    using assms(1-3) n node
    by (cases wide; cases ccs)
      (auto simp: decodeNodeCallback_def nodeInfoTail_def wire_simps Let_def host_const_defs
        subspan_def numeral_eq_Suc simp del: of_nat_add of_nat_Suc)
qed

theorem nodeCallback_fields_witness:
  "decodeNodeCallback \<lparr>frameType = REQUEST, commandId = 0x4A,
     framePayload = [1, 3] @ [lo8 5] @ [of_nat (3 + length [0x25, 0x86 :: byte]), 4, 0x10, 1] @ [0x25, 0x86],
     frameValid = True\<rparr> False =
   Some \<lparr>ns_commandId = 0x4A, ns_sessionId = 1, ns_status = 3, ns_nodeId = 5,
         ns_basicDeviceType = 4, ns_genericDeviceType = 0x10, ns_specificDeviceType = 1,
         ns_commandClasses = [0x25, 0x86]\<rparr>"
  using nodeCallback_fields [of "\<lparr>frameType = REQUEST, commandId = 0x4A,
     framePayload = [1, 3] @ [lo8 5] @ [of_nat (3 + length [0x25, 0x86 :: byte]), 4, 0x10, 1] @ [0x25, 0x86],
     frameValid = True\<rparr>" 1 3 False 5 "[0x25, 0x86]" 4 "0x10" 1]
  by (simp add: cmd_defs hi8_def)

text \<open>
  A callback whose node information block was cut off after two bytes is accepted, and the two
  device-class bytes are reported as supported command classes.
\<close>

theorem nodeCallback_truncated:
  assumes "frameValid f" and "commandId f = CMD_ADD_NODE_TO_NETWORK"
    and "framePayload f = [sid, st, node, 5, basic, gen]"
  shows "\<exists>r. decodeNodeCallback f False = Some r \<and> ns_commandClasses r = [basic, gen] \<and>
           ns_basicDeviceType r = 0 \<and> ns_genericDeviceType r = 0"
  using assms
  by (simp add: decodeNodeCallback_def nodeInfoTail_def wire_simps Let_def host_const_defs subspan_def)

theorem nodeCallback_truncated_witness:
  "\<exists>r. decodeNodeCallback \<lparr>frameType = REQUEST, commandId = 0x4A,
         framePayload = [1, 3, 9, 5, 4, 0x10], frameValid = True\<rparr> False = Some r \<and>
       ns_commandClasses r = [4, 0x10]"
  using nodeCallback_truncated [of "\<lparr>frameType = REQUEST, commandId = 0x4A,
         framePayload = [1, 3, 9, 5, 4, 0x10], frameValid = True\<rparr>" 1 3 9 4 "0x10"]
  by (auto simp: cmd_defs)

end
