(* ===== verification/Node_Registry.thy ===== *)
theory Node_Registry
  imports S2_Session
begin

text \<open>
  The registry of included nodes, \<open>src/src/node-registry/NodeRegistry.cpp\<close>: the in-memory map,
  the home id it is bound to and the table \<open>nodes\<close> of the database, keyed by home id and node
  id. Each SQL statement of the file is a function on the table. A column gives back the value that
  was bound to it, so a row is a \<open>NodeInfo\<close>. \<open>nr_db\<close> is \<open>None\<close> when the database
  could not be opened; statements on an open database are taken to succeed. Opening, schema migration
  and the path of the file are in \<open>Database_Schema\<close> and \<open>Registry_Start\<close>.
\<close>

section \<open>State\<close>

record NodeInfo =
  ni_nodeId :: byte
  ni_basicType :: byte
  ni_genericType :: byte
  ni_specificType :: byte
  ni_commandClasses :: bytes
  ni_securityScheme :: SecurityScheme
  ni_manufacturerId :: u16
  ni_productTypeId :: u16
  ni_productId :: u16
  ni_libraryType :: byte
  ni_protocolVersion :: byte
  ni_protocolSubVersion :: byte
  ni_applicationVersion :: byte
  ni_applicationSubVersion :: byte
  ni_endpointCount :: byte
  ni_endpointsDynamic :: bool
  ni_endpointsIdentical :: bool
  ni_zwavePlusVersion :: byte
  ni_roleType :: byte
  ni_nodeType :: byte
  ni_installerIconType :: u16
  ni_userIconType :: u16

definition newNodeInfo :: "byte \<Rightarrow> NodeInfo" where
  "newNodeInfo nodeId =
     \<lparr>ni_nodeId = nodeId, ni_basicType = 0, ni_genericType = 0, ni_specificType = 0, ni_commandClasses = [],
      ni_securityScheme = SchemeNone, ni_manufacturerId = 0, ni_productTypeId = 0, ni_productId = 0,
      ni_libraryType = 0, ni_protocolVersion = 0, ni_protocolSubVersion = 0, ni_applicationVersion = 0,
      ni_applicationSubVersion = 0, ni_endpointCount = 0, ni_endpointsDynamic = False,
      ni_endpointsIdentical = False, ni_zwavePlusVersion = 0, ni_roleType = 0, ni_nodeType = 0,
      ni_installerIconType = 0, ni_userIconType = 0\<rparr>"

type_synonym nodeTable = "string \<times> byte \<rightharpoonup> NodeInfo"

record NodeRegistry =
  nr_nodes :: "byte \<rightharpoonup> NodeInfo"
  nr_home :: "string option"
  nr_db :: "nodeTable option"

text \<open>The entries of \<open>NodeListChanged\<close>: id, device class triple and command classes.\<close>

record NodeEntry =
  en_nodeId :: byte
  en_basicType :: byte
  en_genericType :: byte
  en_specificType :: byte
  en_commandClasses :: bytes

section \<open>The statements\<close>

definition nodes_UPSERT :: "string \<Rightarrow> NodeInfo \<Rightarrow> nodeTable \<Rightarrow> nodeTable" where
  "nodes_UPSERT home info t =
     (let old = (case t (home, ni_nodeId info) of None \<Rightarrow> newNodeInfo (ni_nodeId info) | Some row \<Rightarrow> row) in
      t((home, ni_nodeId info) \<mapsto>
          old\<lparr>ni_basicType := ni_basicType info, ni_genericType := ni_genericType info,
              ni_specificType := ni_specificType info, ni_commandClasses := ni_commandClasses info\<rparr>))"

definition nodes_DELETE :: "string \<Rightarrow> byte \<Rightarrow> nodeTable \<Rightarrow> nodeTable" where
  "nodes_DELETE home nodeId t = t((home, nodeId) := None)"

text \<open>\<open>UPDATE nodes SET ... WHERE home_id = ? AND node_id = ?\<close>\<close>

definition nodes_UPDATE :: "(NodeInfo \<Rightarrow> NodeInfo) \<Rightarrow> string \<Rightarrow> byte \<Rightarrow> nodeTable \<Rightarrow> nodeTable" where
  "nodes_UPDATE cols home nodeId t = t((home, nodeId) := map_option cols (t (home, nodeId)))"

definition loadNodesForHome :: "nodeTable \<Rightarrow> string \<Rightarrow> (byte \<rightharpoonup> NodeInfo)" where
  "loadNodesForHome t home = (\<lambda>nodeId. t (home, nodeId))"

definition persistAdd :: "string \<Rightarrow> NodeInfo \<Rightarrow> NodeRegistry \<Rightarrow> NodeRegistry" where
  "persistAdd home info r = r\<lparr>nr_db := map_option (nodes_UPSERT home info) (nr_db r)\<rparr>"

definition persistRemove :: "string \<Rightarrow> byte \<Rightarrow> NodeRegistry \<Rightarrow> NodeRegistry" where
  "persistRemove home nodeId r = r\<lparr>nr_db := map_option (nodes_DELETE home nodeId) (nr_db r)\<rparr>"

section \<open>Operations\<close>

definition hexDigit :: "nat \<Rightarrow> char" where
  "hexDigit d = ''0123456789ABCDEF'' ! d"

definition formatHomeId :: "bytes \<Rightarrow> string" where
  "formatHomeId bs = concat (map (\<lambda>b. [hexDigit (unat b div 16), hexDigit (unat b mod 16)]) bs)"

text \<open>The map is ordered by node id; ids are bytes.\<close>

definition nodeIds :: "(byte \<rightharpoonup> NodeInfo) \<Rightarrow> byte list" where
  "nodeIds nodes = filter (\<lambda>n. nodes n \<noteq> None) (map of_nat [0 ..< 256])"

definition snapshot :: "NodeRegistry \<Rightarrow> NodeInfo list" where
  "snapshot r = map (\<lambda>n. the (nr_nodes r n)) (nodeIds (nr_nodes r))"

definition snapshotEvent :: "NodeRegistry \<Rightarrow> NodeEntry list" where
  "snapshotEvent r =
     map (\<lambda>i. \<lparr>en_nodeId = ni_nodeId i, en_basicType = ni_basicType i, en_genericType = ni_genericType i,
               en_specificType = ni_specificType i, en_commandClasses = ni_commandClasses i\<rparr>)
       (snapshot r)"

text \<open>The result of an operation: the \<open>NodeListChanged\<close> it publishes, if any, and the state.\<close>

definition withBoundHome ::
  "(string \<Rightarrow> NodeRegistry \<Rightarrow> bool \<times> NodeRegistry) \<Rightarrow> NodeRegistry \<Rightarrow> NodeEntry list option \<times> NodeRegistry" where
  "withBoundHome mutator r =
     (case nr_home r of
        None \<Rightarrow> (None, r)
      | Some home \<Rightarrow>
          (case mutator home r of
             (changed, r1) \<Rightarrow> if changed then (Some (snapshotEvent r1), r1) else (None, r1)))"

definition nr_setHomeId :: "bytes \<Rightarrow> NodeRegistry \<Rightarrow> NodeEntry list option \<times> NodeRegistry" where
  "nr_setHomeId homeIdBytes r =
     (let home = formatHomeId homeIdBytes in
      if nr_home r = Some home then (None, r)
      else let r1 = r\<lparr>nr_home := Some home,
                      nr_nodes := (case nr_db r of None \<Rightarrow> Map.empty | Some t \<Rightarrow> loadNodesForHome t home)\<rparr>
           in (Some (snapshotEvent r1), r1))"

definition nr_add :: "NodeInfo \<Rightarrow> NodeRegistry \<Rightarrow> NodeEntry list option \<times> NodeRegistry" where
  "nr_add info = withBoundHome (\<lambda>home r.
     (True, persistAdd home info (r\<lparr>nr_nodes := (nr_nodes r)(ni_nodeId info \<mapsto> info)\<rparr>)))"

definition nr_remove :: "byte \<Rightarrow> NodeRegistry \<Rightarrow> NodeEntry list option \<times> NodeRegistry" where
  "nr_remove nodeId = withBoundHome (\<lambda>home r.
     (True, persistRemove home nodeId (r\<lparr>nr_nodes := (nr_nodes r)(nodeId := None)\<rparr>)))"

definition nr_seed :: "byte \<Rightarrow> NodeRegistry \<Rightarrow> NodeEntry list option \<times> NodeRegistry" where
  "nr_seed nodeId = withBoundHome (\<lambda>home r.
     if nr_nodes r nodeId \<noteq> None then (False, r)
     else let info = newNodeInfo nodeId in
          (True, persistAdd home info (r\<lparr>nr_nodes := (nr_nodes r)(nodeId \<mapsto> info)\<rparr>)))"

definition nr_updateCommandClasses :: "byte \<Rightarrow> bytes \<Rightarrow> NodeRegistry \<Rightarrow> NodeEntry list option \<times> NodeRegistry" where
  "nr_updateCommandClasses nodeId ccs = withBoundHome (\<lambda>home r.
     case nr_nodes r nodeId of
       None \<Rightarrow> (False, r)
     | Some i \<Rightarrow> let i1 = i\<lparr>ni_commandClasses := ccs\<rparr> in
                 (True, persistAdd home i1 (r\<lparr>nr_nodes := (nr_nodes r)(nodeId \<mapsto> i1)\<rparr>)))"

definition nr_updateDeviceClass ::
  "byte \<Rightarrow> byte \<Rightarrow> byte \<Rightarrow> byte \<Rightarrow> NodeRegistry \<Rightarrow> NodeEntry list option \<times> NodeRegistry" where
  "nr_updateDeviceClass nodeId basic generic specific = withBoundHome (\<lambda>home r.
     case nr_nodes r nodeId of
       None \<Rightarrow> (False, r)
     | Some i \<Rightarrow> let i1 = i\<lparr>ni_basicType := basic, ni_genericType := generic, ni_specificType := specific\<rparr> in
                 (True, persistAdd home i1 (r\<lparr>nr_nodes := (nr_nodes r)(nodeId \<mapsto> i1)\<rparr>)))"

text \<open>
  The five setters differ in the columns they write only: they change the entry of a known node and,
  with a database and a bound home, the same columns of its row. None of them publishes.
\<close>

definition setColumns :: "(NodeInfo \<Rightarrow> NodeInfo) \<Rightarrow> byte \<Rightarrow> NodeRegistry \<Rightarrow> NodeRegistry" where
  "setColumns cols nodeId r =
     (case nr_nodes r nodeId of
        None \<Rightarrow> r
      | Some i \<Rightarrow>
          let r1 = r\<lparr>nr_nodes := (nr_nodes r)(nodeId \<mapsto> cols i)\<rparr> in
          (case (nr_db r, nr_home r) of
             (Some t, Some home) \<Rightarrow> r1\<lparr>nr_db := Some (nodes_UPDATE cols home nodeId t)\<rparr>
           | _ \<Rightarrow> r1))"

definition nr_setSecurityScheme :: "byte \<Rightarrow> SecurityScheme \<Rightarrow> NodeRegistry \<Rightarrow> NodeRegistry" where
  "nr_setSecurityScheme nodeId scheme = setColumns (ni_securityScheme_update (\<lambda>_. scheme)) nodeId"

definition nr_setDeviceIdentity :: "byte \<Rightarrow> u16 \<Rightarrow> u16 \<Rightarrow> u16 \<Rightarrow> NodeRegistry \<Rightarrow> NodeRegistry" where
  "nr_setDeviceIdentity nodeId manufacturer productType product =
     setColumns (\<lambda>i. i\<lparr>ni_manufacturerId := manufacturer, ni_productTypeId := productType,
                       ni_productId := product\<rparr>) nodeId"

definition nr_setVersionInfo :: "byte \<Rightarrow> byte \<Rightarrow> byte \<Rightarrow> byte \<Rightarrow> byte \<Rightarrow> byte \<Rightarrow> NodeRegistry \<Rightarrow> NodeRegistry" where
  "nr_setVersionInfo nodeId library protocol protocolSub application applicationSub =
     setColumns (\<lambda>i. i\<lparr>ni_libraryType := library, ni_protocolVersion := protocol,
                       ni_protocolSubVersion := protocolSub, ni_applicationVersion := application,
                       ni_applicationSubVersion := applicationSub\<rparr>) nodeId"

definition nr_setEndpointInfo :: "byte \<Rightarrow> byte \<Rightarrow> bool \<Rightarrow> bool \<Rightarrow> NodeRegistry \<Rightarrow> NodeRegistry" where
  "nr_setEndpointInfo nodeId count dynamic identical =
     setColumns (\<lambda>i. i\<lparr>ni_endpointCount := count, ni_endpointsDynamic := dynamic,
                       ni_endpointsIdentical := identical\<rparr>) nodeId"

definition nr_setZWavePlusInfo :: "byte \<Rightarrow> byte \<Rightarrow> byte \<Rightarrow> byte \<Rightarrow> u16 \<Rightarrow> u16 \<Rightarrow> NodeRegistry \<Rightarrow> NodeRegistry" where
  "nr_setZWavePlusInfo nodeId version role type installerIcon userIcon =
     setColumns (\<lambda>i. i\<lparr>ni_zwavePlusVersion := version, ni_roleType := role, ni_nodeType := type,
                       ni_installerIconType := installerIcon, ni_userIconType := userIcon\<rparr>) nodeId"

text \<open>What the send path and the security orchestrators see of the registry.\<close>

definition schemesOf :: "NodeRegistry \<Rightarrow> schemeRegistry" where
  "schemesOf r n = map_option ni_securityScheme (nr_nodes r n)"

definition nr_securityScheme :: "byte \<Rightarrow> NodeRegistry \<Rightarrow> SecurityScheme" where
  "nr_securityScheme nodeId r = (case nr_nodes r nodeId of None \<Rightarrow> SchemeNone | Some i \<Rightarrow> ni_securityScheme i)"

definition nr_isSecure :: "byte \<Rightarrow> NodeRegistry \<Rightarrow> bool" where
  "nr_isSecure nodeId r = (case nr_nodes r nodeId of None \<Rightarrow> False | Some i \<Rightarrow> ni_securityScheme i \<noteq> SchemeNone)"

section \<open>Sequences of operations\<close>

datatype registryOp =
    RSetHome bytes
  | RAdd NodeInfo
  | RRemove byte
  | RSeed byte
  | RCommandClasses byte bytes
  | RDeviceClass byte byte byte byte
  | RScheme byte SecurityScheme
  | RIdentity byte u16 u16 u16
  | RVersion byte byte byte byte byte byte
  | REndpoints byte byte bool bool
  | RZWavePlus byte byte byte byte u16 u16

fun runRegistryOp :: "registryOp \<Rightarrow> NodeRegistry \<Rightarrow> NodeRegistry" where
  "runRegistryOp (RSetHome home) r = snd (nr_setHomeId home r)"
| "runRegistryOp (RAdd info) r = snd (nr_add info r)"
| "runRegistryOp (RRemove n) r = snd (nr_remove n r)"
| "runRegistryOp (RSeed n) r = snd (nr_seed n r)"
| "runRegistryOp (RCommandClasses n ccs) r = snd (nr_updateCommandClasses n ccs r)"
| "runRegistryOp (RDeviceClass n b g s) r = snd (nr_updateDeviceClass n b g s r)"
| "runRegistryOp (RScheme n s) r = nr_setSecurityScheme n s r"
| "runRegistryOp (RIdentity n m t p) r = nr_setDeviceIdentity n m t p r"
| "runRegistryOp (RVersion n l p ps a as) r = nr_setVersionInfo n l p ps a as r"
| "runRegistryOp (REndpoints n k d i) r = nr_setEndpointInfo n k d i r"
| "runRegistryOp (RZWavePlus n v ro ty ii ui) r = nr_setZWavePlusInfo n v ro ty ii ui r"

text \<open>
  What every state satisfies: entries and rows are filed under their node id, without a home there
  are no entries, and the entries are the rows of the bound home.
\<close>

definition filed :: "(byte \<rightharpoonup> NodeInfo) \<Rightarrow> bool" where
  "filed nodes \<longleftrightarrow> (\<forall>n i. nodes n = Some i \<longrightarrow> ni_nodeId i = n)"

definition coherent :: "NodeRegistry \<Rightarrow> bool" where
  "coherent r \<longleftrightarrow> filed (nr_nodes r) \<and> (nr_home r = None \<longrightarrow> nr_nodes r = Map.empty) \<and>
     (\<forall>t. nr_db r = Some t \<longrightarrow> (\<forall>h. filed (loadNodesForHome t h)) \<and>
        (\<forall>h. nr_home r = Some h \<longrightarrow> nr_nodes r = loadNodesForHome t h))"

text \<open>
  The columns that \<open>UPSERT\<close> does not write keep their value in the database, while \<open>add\<close>
  replaces the whole entry in memory: the two agree if the new entry has them as the old one did.
\<close>

definition addFits :: "NodeInfo \<Rightarrow> NodeRegistry \<Rightarrow> bool" where
  "addFits info r \<longleftrightarrow> info =
     (case nr_nodes r (ni_nodeId info) of None \<Rightarrow> newNodeInfo (ni_nodeId info) | Some i \<Rightarrow> i)
       \<lparr>ni_basicType := ni_basicType info, ni_genericType := ni_genericType info,
        ni_specificType := ni_specificType info, ni_commandClasses := ni_commandClasses info\<rparr>"

fun addsFit :: "registryOp list \<Rightarrow> NodeRegistry \<Rightarrow> bool" where
  "addsFit [] r \<longleftrightarrow> True"
| "addsFit (op # ops) r \<longleftrightarrow>
     (case op of RAdd info \<Rightarrow> addFits info r | _ \<Rightarrow> True) \<and> addsFit ops (runRegistryOp op r)"

lemma filed_update [simp]:
  "filed nodes \<Longrightarrow> ni_nodeId i = n \<Longrightarrow> filed (nodes(n \<mapsto> i))"
  "filed nodes \<Longrightarrow> filed (nodes(n := None))" "filed Map.empty"
  by (auto simp: filed_def)

lemma load_UPSERT:
  "loadNodesForHome (nodes_UPSERT home info t) h =
     (if h = home then (loadNodesForHome t home)(ni_nodeId info \<mapsto>
        (case t (home, ni_nodeId info) of None \<Rightarrow> newNodeInfo (ni_nodeId info) | Some row \<Rightarrow> row)
          \<lparr>ni_basicType := ni_basicType info, ni_genericType := ni_genericType info,
           ni_specificType := ni_specificType info, ni_commandClasses := ni_commandClasses info\<rparr>)
      else loadNodesForHome t h)"
  by (auto simp: loadNodesForHome_def nodes_UPSERT_def Let_def fun_eq_iff)

lemma load_DELETE:
  "loadNodesForHome (nodes_DELETE home n t) h =
     (if h = home then (loadNodesForHome t home)(n := None) else loadNodesForHome t h)"
  by (auto simp: loadNodesForHome_def nodes_DELETE_def fun_eq_iff)

lemma load_UPDATE:
  "loadNodesForHome (nodes_UPDATE cols home n t) h =
     (if h = home then (loadNodesForHome t home)(n := map_option cols (loadNodesForHome t home n))
      else loadNodesForHome t h)"
  by (auto simp: loadNodesForHome_def nodes_UPDATE_def fun_eq_iff)

lemma ni_newNodeInfo [simp]: "ni_nodeId (newNodeInfo n) = n"
  by (simp add: newNodeInfo_def)

text \<open>A stored entry: the entry and the row of node \<open>ni_nodeId i\<close> become \<open>i\<close>.\<close>

lemma coherent_persistAdd:
  assumes "coherent r" and "nr_home r = Some home" and "addFits i r"
  shows "coherent (persistAdd home i (r\<lparr>nr_nodes := (nr_nodes r)(ni_nodeId i \<mapsto> i)\<rparr>))"
proof -
  have "loadNodesForHome (nodes_UPSERT home i t) home = (loadNodesForHome t home)(ni_nodeId i \<mapsto> i)"
    if "nr_db r = Some t" for t
  proof -
    have "nr_nodes r = loadNodesForHome t home" using assms(1,2) that by (simp add: coherent_def)
    then have "(case t (home, ni_nodeId i) of None \<Rightarrow> newNodeInfo (ni_nodeId i) | Some row \<Rightarrow> row)
        \<lparr>ni_basicType := ni_basicType i, ni_genericType := ni_genericType i,
         ni_specificType := ni_specificType i, ni_commandClasses := ni_commandClasses i\<rparr> = i"
      using assms(3) by (simp add: addFits_def loadNodesForHome_def)
    then show ?thesis by (simp add: load_UPSERT)
  qed
  moreover have "loadNodesForHome (nodes_UPSERT home i t) h = loadNodesForHome t h" if "h \<noteq> home" for t h
    using that by (simp add: load_UPSERT)
  ultimately show ?thesis
    using assms(1,2) by (auto simp: coherent_def persistAdd_def) (metis filed_update(1))
qed

lemma coherent_setColumns:
  assumes "coherent r" and "\<And>i. ni_nodeId (cols i) = ni_nodeId i"
  shows "coherent (setColumns cols n r)"
proof (cases "nr_nodes r n")
  case None
  then show ?thesis using assms(1) by (simp add: setColumns_def)
next
  case (Some i)
  then have id: "ni_nodeId (cols i) = n" using assms by (auto simp: coherent_def filed_def)
  obtain home where home: "nr_home r = Some home"
    using assms(1) Some by (cases "nr_home r") (auto simp: coherent_def)
  show ?thesis
  proof (cases "nr_db r")
    case None
    then show ?thesis using assms(1) Some home id by (simp add: coherent_def setColumns_def)
  next
    case (Some t)
    have nodes: "nr_nodes r = loadNodesForHome t home" using assms(1) home Some by (simp add: coherent_def)
    have "loadNodesForHome (nodes_UPDATE cols home n t) h =
        (if h = home then (nr_nodes r)(n \<mapsto> cols i) else loadNodesForHome t h)" for h
      using nodes \<open>nr_nodes r n = Some i\<close> by (simp add: load_UPDATE)
    then show ?thesis
      using assms(1) Some home id \<open>nr_nodes r n = Some i\<close> by (simp add: coherent_def setColumns_def)
  qed
qed

lemma coherent_setHome: "coherent r \<Longrightarrow> coherent (snd (nr_setHomeId home r))"
  by (auto simp: coherent_def nr_setHomeId_def Let_def split: option.splits)

lemma coherent_remove: "coherent r \<Longrightarrow> coherent (snd (nr_remove n r))"
  by (auto simp: coherent_def nr_remove_def withBoundHome_def persistRemove_def load_DELETE
      split: option.splits)

lemma coherent_bound:
  assumes "coherent r" and "\<And>home. nr_home r = Some home \<Longrightarrow> coherent (snd (mutator home r))"
  shows "coherent (snd (withBoundHome mutator r))"
  using assms by (auto simp: withBoundHome_def split: option.splits prod.splits)

lemma coherent_add: "coherent r \<Longrightarrow> addFits info r \<Longrightarrow> coherent (snd (nr_add info r))"
  unfolding nr_add_def by (rule coherent_bound) (simp_all add: coherent_persistAdd)

lemma coherent_seed: "coherent r \<Longrightarrow> coherent (snd (nr_seed n r))"
  unfolding nr_seed_def
  using coherent_persistAdd [of r _ "newNodeInfo n"]
  by (intro coherent_bound) (auto simp: Let_def addFits_def newNodeInfo_def)

lemma coherent_updates:
  assumes "coherent r"
  shows "coherent (snd (nr_updateCommandClasses n ccs r))" and "coherent (snd (nr_updateDeviceClass n b g s r))"
proof -
  have put: "coherent (persistAdd home i1 (r\<lparr>nr_nodes := (nr_nodes r)(n \<mapsto> i1)\<rparr>))"
    if "nr_home r = Some home" "nr_nodes r n = Some i" "ni_nodeId i1 = ni_nodeId i" "addFits i1 r" for home i i1
  proof -
    have "ni_nodeId i = n" using assms that(2) by (simp add: coherent_def filed_def)
    then show ?thesis using coherent_persistAdd [OF assms that(1,4)] that(3) by simp
  qed
  have own: "ni_nodeId i = n" if "nr_nodes r n = Some i" for i
    using assms that by (simp add: coherent_def filed_def)
  show "coherent (snd (nr_updateCommandClasses n ccs r))"
    unfolding nr_updateCommandClasses_def
    by (rule coherent_bound [OF assms]) (auto simp: Let_def addFits_def assms own intro!: put split: option.splits)
  show "coherent (snd (nr_updateDeviceClass n b g s r))"
    unfolding nr_updateDeviceClass_def
    by (rule coherent_bound [OF assms]) (auto simp: Let_def addFits_def assms own intro!: put split: option.splits)
qed

lemmas nr_setter_defs = nr_setSecurityScheme_def nr_setDeviceIdentity_def nr_setVersionInfo_def
  nr_setEndpointInfo_def nr_setZWavePlusInfo_def

lemma coherent_op:
  assumes "coherent r" and "\<And>info. op = RAdd info \<Longrightarrow> addFits info r"
  shows "coherent (runRegistryOp op r)"
  using assms
  by (cases op)
    (auto simp: nr_setter_defs intro!: coherent_setColumns coherent_setHome coherent_remove coherent_add
      coherent_seed coherent_updates)

lemma coherent_run: "coherent r \<Longrightarrow> addsFit ops r \<Longrightarrow> coherent (fold runRegistryOp ops r)"
proof (induction ops arbitrary: r)
  case (Cons op ops)
  then show ?case using coherent_op [of r op] by (auto split: registryOp.splits)
qed simp

text \<open>The registry a restarted daemon has after it was bound to its home again.\<close>

definition restarted :: "bytes \<Rightarrow> nodeTable \<Rightarrow> NodeRegistry" where
  "restarted home t = snd (nr_setHomeId home \<lparr>nr_nodes = Map.empty, nr_home = None, nr_db = Some t\<rparr>)"

lemma restarted_nodes: "nr_nodes (restarted home t) = loadNodesForHome t (formatHomeId home)"
  by (simp add: restarted_def nr_setHomeId_def Let_def)

text \<open>The views of the security code.\<close>

lemma schemes_views:
  "nr_isSecure n r = registry_isSecure n (schemesOf r)"
  "nr_securityScheme n r = registry_securityScheme n (schemesOf r)"
  by (simp_all add: nr_isSecure_def nr_securityScheme_def registry_isSecure_def registry_securityScheme_def
      schemesOf_def split: option.splits)

lemma schemes_set: "schemesOf (nr_setSecurityScheme n s r) = registry_setSecurityScheme n s (schemesOf r)"
  by (auto simp: fun_eq_iff schemesOf_def nr_setSecurityScheme_def setColumns_def registry_setSecurityScheme_def
      Let_def split: option.splits)

section \<open>Properties\<close>

text \<open>
  C13: the database mirrors the registry: after any operations, a daemon that restarts on the database
  and is bound to the same network has the same nodes with the same data, provided no \<open>add\<close>
  replaced an entry whose remaining columns differ from the new one.
\<close>

theorem registry_restart:
  assumes "coherent r" and "addsFit ops r" and "fold runRegistryOp ops r = r'"
    and "nr_home r' = Some (formatHomeId home)" and "nr_db r' = Some t"
  shows "nr_nodes (restarted home t) = nr_nodes r'"
proof -
  have "coherent r'" using coherent_run [OF assms(1,2)] assms(3) by simp
  then show ?thesis using assms(4,5) by (simp add: restarted_nodes coherent_def)
qed

definition emptyRegistry :: NodeRegistry where
  "emptyRegistry = \<lparr>nr_nodes = Map.empty, nr_home = None, nr_db = Some Map.empty\<rparr>"

definition demoRegistryOps :: "registryOp list" where
  "demoRegistryOps = [RSetHome [0xE2, 0xA1, 0xB0, 0x7C], RSeed 5, RDeviceClass 5 4 16 1,
     RCommandClasses 5 [0x25, 0x98], RScheme 5 SchemeS0, RIdentity 5 0x86 3 0x60, RAdd (newNodeInfo 6)]"

lemmas registry_eval_defs = emptyRegistry_def nr_setHomeId_def nr_seed_def nr_updateDeviceClass_def
  nr_updateCommandClasses_def nr_add_def nr_setter_defs setColumns_def withBoundHome_def persistAdd_def
  loadNodesForHome_def Let_def

lemma coherent_empty: "coherent emptyRegistry"
  by (simp add: coherent_def emptyRegistry_def loadNodesForHome_def)

theorem registry_restart_witness:
  "nr_nodes (restarted [0xE2, 0xA1, 0xB0, 0x7C] (the (nr_db (fold runRegistryOp demoRegistryOps emptyRegistry)))) =
     nr_nodes (fold runRegistryOp demoRegistryOps emptyRegistry)"
proof (rule registry_restart [OF coherent_empty])
  show "addsFit demoRegistryOps emptyRegistry"
    by (simp add: demoRegistryOps_def registry_eval_defs addFits_def)
  show "nr_home (fold runRegistryOp demoRegistryOps emptyRegistry) = Some (formatHomeId [0xE2, 0xA1, 0xB0, 0x7C])"
    "nr_db (fold runRegistryOp demoRegistryOps emptyRegistry) =
       Some (the (nr_db (fold runRegistryOp demoRegistryOps emptyRegistry)))"
    by (simp_all add: demoRegistryOps_def registry_eval_defs)
qed (rule refl)

text \<open>
  A node that is added again, as a new inclusion callback does it, loses its security scheme in
  memory but keeps it in the database: the running daemon treats it as insecure and a restarted one as
  secure.
\<close>

theorem registry_add_diverges:
  assumes "coherent r" and "nr_home r = Some (formatHomeId home)" and "nr_db r = Some t"
    and "nr_isSecure n r" and "ni_nodeId info = n" and "ni_securityScheme info = SchemeNone"
    and "snd (nr_add info r) = r'"
  shows "\<not> nr_isSecure n r' \<and> (\<exists>t'. nr_db r' = Some t' \<and> nr_isSecure n (restarted home t'))"
proof -
  let ?h = "formatHomeId home"
  obtain i where i: "nr_nodes r n = Some i" "ni_securityScheme i \<noteq> SchemeNone"
    using assms(4) by (auto simp: nr_isSecure_def split: option.splits)
  have row: "t (?h, n) = Some i"
    using assms(1-3) i(1) by (simp add: coherent_def loadNodesForHome_def)
  have r': "r' = persistAdd ?h info (r\<lparr>nr_nodes := (nr_nodes r)(n \<mapsto> info)\<rparr>)"
    using assms(2,5,7) by (auto simp: nr_add_def withBoundHome_def)
  have "nr_db r' = Some (nodes_UPSERT ?h info t)" using assms(3) by (simp add: r' persistAdd_def)
  moreover have "nr_isSecure n (restarted home (nodes_UPSERT ?h info t))"
    using row i(2) assms(5) by (simp add: nr_isSecure_def restarted_nodes load_UPSERT)
  moreover have "\<not> nr_isSecure n r'" using assms(6) by (simp add: r' nr_isSecure_def persistAdd_def)
  ultimately show ?thesis by blast
qed

definition demoRegistry :: NodeRegistry where
  "demoRegistry = restarted [0xE2, 0xA1, 0xB0, 0x7C]
     [(formatHomeId [0xE2, 0xA1, 0xB0, 0x7C], 5) \<mapsto> (newNodeInfo 5)\<lparr>ni_securityScheme := S2Authenticated\<rparr>]"

theorem registry_add_diverges_witness:
  "\<not> nr_isSecure 5 (snd (nr_add (newNodeInfo 5) demoRegistry)) \<and>
    (\<exists>t'. nr_db (snd (nr_add (newNodeInfo 5) demoRegistry)) = Some t' \<and>
       nr_isSecure 5 (restarted [0xE2, 0xA1, 0xB0, 0x7C] t'))"
proof (rule registry_add_diverges)
  show "coherent demoRegistry"
    unfolding demoRegistry_def restarted_def
    by (rule coherent_setHome) (auto simp: coherent_def filed_def loadNodesForHome_def split: if_splits)
  show "nr_isSecure 5 demoRegistry" "ni_securityScheme (newNodeInfo 5) = SchemeNone"
    by (simp_all add: demoRegistry_def nr_isSecure_def restarted_nodes loadNodesForHome_def newNodeInfo_def)
qed (simp_all add: demoRegistry_def restarted_def nr_setHomeId_def Let_def)

end
