(* ===== verification/Bus_Commands.thy ===== *)
theory Bus_Commands
  imports Host_Api Node_Registry Command_Classes
begin

text \<open>
  The bus side of the protocol thread, the first half of
  \<open>src/src/zwave-protocol/ProtocolThread.cpp\<close>: its state, the request queue, and the
  handlers that turn commands of the message bus into requests. A handler returns what it publishes
  and the new state. Encoders that the build generates from \<open>InterfaceManifest.yml\<close> are the
  fields of the record \<open>genCodecs\<close>, an argument of the handlers that call them. Threads are not
  modelled: an operation on the queue holds its mutex and is one step. Log lines are left out.
\<close>

section \<open>State\<close>

datatype Request =
    ReqAddNode AddNodeRequest
  | ReqRemoveNode RemoveNodeRequest
  | ReqRemoveFailedNode RemoveFailedNodeRequest
  | ReqRequestNodeInfo RequestNodeInfoRequest
  | ReqSendData SendDataRequest
  | ReqSendDataMulti SendDataMultiRequest

record Protocol =
  pt_running :: bool
  pt_path :: "string option"
  pt_queue :: "Request list"
  pt_activeFailedNodeRemoval :: "RemoveFailedNodeRequest option"
  pt_activeRequestNodeInfo :: "RequestNodeInfoRequest option"
  pt_controllerNodeId :: "byte option"
  pt_pendingInclusion :: "(byte \<times> bytes) option"
  pt_registry :: NodeRegistry

record DongleInfo =
  di_libraryVersion :: string
  di_libraryType :: byte
  di_homeId :: bytes
  di_controllerNodeId :: byte

text \<open>What the thread publishes; \<open>BindStores\<close> stands for the calls that bind the other stores to a home.\<close>

datatype ptEvent =
    PubSecureS2SendRequest byte bytes byte
  | PubSecureSendRequest byte bytes byte
  | PubSendDataCallback byte byte
  | PubApplicationCommand ApplicationCommand
  | PubRemoveFailedNodeStatus byte byte byte byte
  | PubRequestNodeInfoStatus byte byte bool
  | PubNodeInfoUpdate ApplicationUpdate
  | PubNodeInclusionStatus NodeStatusCallback
  | PubNodeExclusionStatus NodeStatusCallback
  | PubNodeIncluded byte bytes
  | PubSessionStatus bool byte byte
  | PubNodeListChanged "NodeEntry list"
  | PubDaemonError byte byte string
  | PubDongleInfo DongleInfo
  | PubInitData InitDataResponse
  | BindStores bytes

text \<open>The generated encoders.\<close>

record genCodecs =
  gc_BinarySwitch_encodeSet :: "bool \<Rightarrow> bytes"
  gc_BinarySwitch_encodeGet :: bytes
  gc_Indicator_encodeSet :: "byte \<Rightarrow> bytes"
  gc_Indicator_encodeGet :: bytes
  gc_Basic_encodeSet :: "byte \<Rightarrow> bytes"
  gc_Basic_encodeGet :: bytes
  gc_MultilevelSwitch_encodeSet :: "byte \<Rightarrow> byte \<Rightarrow> bytes"
  gc_MultilevelSwitch_encodeGet :: bytes
  gc_Battery_encodeGet :: bytes
  gc_SensorMultilevel_encodeGet :: bytes
  gc_SensorBinary_encodeGet :: bytes
  gc_DoorLock_encodeSet :: "byte \<Rightarrow> bytes"
  gc_DoorLock_encodeGet :: bytes
  gc_UserCode_encodeGet :: "byte \<Rightarrow> bytes"
  gc_UserCode_encodeUsersNumberGet :: bytes
  gc_ThermostatMode_encodeSet :: "byte \<Rightarrow> bytes"
  gc_ThermostatMode_encodeGet :: bytes
  gc_ThermostatOperatingState_encodeGet :: bytes
  gc_ThermostatFanMode_encodeSet :: "byte \<Rightarrow> bool \<Rightarrow> bytes"
  gc_ThermostatFanMode_encodeGet :: bytes
  gc_ManufacturerSpecific_encodeGet :: bytes
  gc_ZWavePlusInfo_encodeGet :: bytes
  gc_NodeVersion_encodeGet :: bytes
  gc_WakeUp_encodeGet :: bytes
  gc_WakeUp_encodeNoMoreInformation :: bytes

section \<open>The queue\<close>

definition pushRequest :: "Request \<Rightarrow> Protocol \<Rightarrow> Protocol" where
  "pushRequest r pt = pt\<lparr>pt_queue := pt_queue pt @ [r]\<rparr>"

definition popRequest :: "Protocol \<Rightarrow> Request option \<times> Protocol" where
  "popRequest pt =
     (case pt_queue pt of
        [] \<Rightarrow> (None, pt)
      | r # rest \<Rightarrow> (Some r, pt\<lparr>pt_queue := rest\<rparr>))"

definition clearRequests :: "Protocol \<Rightarrow> Protocol" where
  "clearRequests pt = pt\<lparr>pt_queue := []\<rparr>"

definition TRANSMIT_OPTION_DEFAULT :: byte where
  "TRANSMIT_OPTION_DEFAULT = 0x01 OR 0x04 OR 0x20"
definition TRANSMIT_COMPLETE_FAIL :: byte where "TRANSMIT_COMPLETE_FAIL = 0x02"
definition ccSecurity :: byte where "ccSecurity = 0x98"
definition ccSecurity2 :: byte where "ccSecurity2 = 0x9F"

definition pushSendData :: "byte \<Rightarrow> byte \<Rightarrow> bytes \<Rightarrow> Protocol \<Rightarrow> ptEvent list \<times> Protocol" where
  "pushSendData nodeId callbackId payload pt =
     (if payload \<noteq> [] \<and> payload ! 0 \<noteq> ccSecurity \<and> payload ! 0 \<noteq> ccSecurity2 \<and> nr_isSecure nodeId (pt_registry pt)
      then if nr_securityScheme nodeId (pt_registry pt) \<in> {S2Unauthenticated, S2Authenticated, S2AccessControl}
           then ([PubSecureS2SendRequest nodeId payload callbackId], pt)
           else ([PubSecureSendRequest nodeId payload callbackId], pt)
      else ([], pushRequest (ReqSendData \<lparr>sd_nodeId = nodeId, sd_data = payload,
                 sd_txOptions = TRANSMIT_OPTION_DEFAULT, sd_callbackId = callbackId\<rparr>) pt))"

section \<open>Handlers of bus commands\<close>

definition onDongleStatus :: "bool \<Rightarrow> string \<Rightarrow> Protocol \<Rightarrow> Protocol" where
  "onDongleStatus connected ttyPath pt =
     pt\<lparr>pt_path := if connected \<and> ttyPath \<noteq> [] then Some ttyPath else None\<rparr>"

definition onAddNodeCommand :: "AddNodeRequest \<Rightarrow> Protocol \<Rightarrow> Protocol" where
  "onAddNodeCommand cmd pt = pushRequest (ReqAddNode
     \<lparr>an_mode = an_mode cmd, an_power = an_power cmd, an_nwi = an_nwi cmd,
      an_protocolLongRange = an_protocolLongRange cmd, an_skipFlNeighbors = an_skipFlNeighbors cmd,
      an_sessionId = an_sessionId cmd, an_includeHomeIds = an_includeHomeIds cmd,
      an_nwiHomeId = an_nwiHomeId cmd, an_authHomeId = an_authHomeId cmd\<rparr>) pt"

definition onRemoveNodeCommand :: "byte \<Rightarrow> bool \<Rightarrow> bool \<Rightarrow> byte \<Rightarrow> Protocol \<Rightarrow> Protocol" where
  "onRemoveNodeCommand mode pow nwe sessionId pt = pushRequest (ReqRemoveNode
     \<lparr>rn_mode = mode, rn_power = pow, rn_nwe = nwe, rn_sessionId = sessionId\<rparr>) pt"

definition onRemoveFailedNodeCommand :: "byte \<Rightarrow> byte \<Rightarrow> Protocol \<Rightarrow> Protocol" where
  "onRemoveFailedNodeCommand nodeId sessionId pt =
     pushRequest (ReqRemoveFailedNode \<lparr>rf_nodeId = nodeId, rf_sessionId = sessionId\<rparr>) pt"

definition onRequestNodeInfoCommand :: "byte \<Rightarrow> byte \<Rightarrow> Protocol \<Rightarrow> Protocol" where
  "onRequestNodeInfoCommand nodeId sessionId pt =
     pushRequest (ReqRequestNodeInfo \<lparr>ri_nodeId = nodeId, ri_sessionId = sessionId\<rparr>) pt"

text \<open>The endpoint members of the bus have the shape of the codec's: node id and endpoint.\<close>

type_synonym busEndpoint = "byte \<times> byte"

definition toCodecEndpoints :: "busEndpoint list \<Rightarrow> EndpointMember list" where
  "toCodecEndpoints busMembers = map (\<lambda>(n, e). \<lparr>em_nodeId = n, em_endpoint = e\<rparr>) busMembers"

definition onSetSwitchBinary :: "genCodecs \<Rightarrow> byte \<Rightarrow> byte \<Rightarrow> bool \<Rightarrow> Protocol \<Rightarrow> ptEvent list \<times> Protocol" where
  "onSetSwitchBinary g nodeId callbackId turnOn pt = pushSendData nodeId callbackId (gc_BinarySwitch_encodeSet g turnOn) pt"

definition onGetSwitchBinary :: "genCodecs \<Rightarrow> byte \<Rightarrow> byte \<Rightarrow> Protocol \<Rightarrow> ptEvent list \<times> Protocol" where
  "onGetSwitchBinary g nodeId callbackId pt = pushSendData nodeId callbackId (gc_BinarySwitch_encodeGet g) pt"

definition onSetIndicator :: "genCodecs \<Rightarrow> byte \<Rightarrow> byte \<Rightarrow> byte \<Rightarrow> Protocol \<Rightarrow> ptEvent list \<times> Protocol" where
  "onSetIndicator g nodeId callbackId v pt = pushSendData nodeId callbackId (gc_Indicator_encodeSet g v) pt"

definition onGetIndicator :: "genCodecs \<Rightarrow> byte \<Rightarrow> byte \<Rightarrow> Protocol \<Rightarrow> ptEvent list \<times> Protocol" where
  "onGetIndicator g nodeId callbackId pt = pushSendData nodeId callbackId (gc_Indicator_encodeGet g) pt"

definition onSetBasic :: "genCodecs \<Rightarrow> byte \<Rightarrow> byte \<Rightarrow> byte \<Rightarrow> Protocol \<Rightarrow> ptEvent list \<times> Protocol" where
  "onSetBasic g nodeId callbackId v pt = pushSendData nodeId callbackId (gc_Basic_encodeSet g v) pt"

definition onSendSupervised :: "byte \<Rightarrow> byte \<Rightarrow> byte \<Rightarrow> bytes \<Rightarrow> Protocol \<Rightarrow> ptEvent list \<times> Protocol" where
  "onSendSupervised nodeId callbackId sessionId ccData pt = pushSendData nodeId callbackId (Supervision_encodeGet sessionId False ccData) pt"

definition onSendDataToEndpoint :: "byte \<Rightarrow> byte \<Rightarrow> byte \<Rightarrow> bytes \<Rightarrow> Protocol \<Rightarrow> ptEvent list \<times> Protocol" where
  "onSendDataToEndpoint nodeId callbackId endpoint ccData pt = pushSendData nodeId callbackId (MultiChannel_encodeEncap 0 endpoint ccData) pt"

definition onGetMultiChannelEndpoints :: "byte \<Rightarrow> byte \<Rightarrow> Protocol \<Rightarrow> ptEvent list \<times> Protocol" where
  "onGetMultiChannelEndpoints nodeId callbackId pt = pushSendData nodeId callbackId (MultiChannel_encodeEndpointGet) pt"

definition onGetMultiChannelCapability :: "byte \<Rightarrow> byte \<Rightarrow> byte \<Rightarrow> Protocol \<Rightarrow> ptEvent list \<times> Protocol" where
  "onGetMultiChannelCapability nodeId callbackId endpoint pt = pushSendData nodeId callbackId (MultiChannel_encodeCapabilityGet endpoint) pt"

definition onGetBasic :: "genCodecs \<Rightarrow> byte \<Rightarrow> byte \<Rightarrow> Protocol \<Rightarrow> ptEvent list \<times> Protocol" where
  "onGetBasic g nodeId callbackId pt = pushSendData nodeId callbackId (gc_Basic_encodeGet g) pt"

definition onSetMultilevelSwitch :: "genCodecs \<Rightarrow> byte \<Rightarrow> byte \<Rightarrow> byte \<Rightarrow> byte \<Rightarrow> Protocol \<Rightarrow> ptEvent list \<times> Protocol" where
  "onSetMultilevelSwitch g nodeId callbackId v duration pt = pushSendData nodeId callbackId (gc_MultilevelSwitch_encodeSet g v duration) pt"

definition onGetMultilevelSwitch :: "genCodecs \<Rightarrow> byte \<Rightarrow> byte \<Rightarrow> Protocol \<Rightarrow> ptEvent list \<times> Protocol" where
  "onGetMultilevelSwitch g nodeId callbackId pt = pushSendData nodeId callbackId (gc_MultilevelSwitch_encodeGet g) pt"

definition onGetBattery :: "genCodecs \<Rightarrow> byte \<Rightarrow> byte \<Rightarrow> Protocol \<Rightarrow> ptEvent list \<times> Protocol" where
  "onGetBattery g nodeId callbackId pt = pushSendData nodeId callbackId (gc_Battery_encodeGet g) pt"

definition onGetSensorMultilevel :: "genCodecs \<Rightarrow> byte \<Rightarrow> byte \<Rightarrow> Protocol \<Rightarrow> ptEvent list \<times> Protocol" where
  "onGetSensorMultilevel g nodeId callbackId pt = pushSendData nodeId callbackId (gc_SensorMultilevel_encodeGet g) pt"

definition onGetSensorBinary :: "genCodecs \<Rightarrow> byte \<Rightarrow> byte \<Rightarrow> Protocol \<Rightarrow> ptEvent list \<times> Protocol" where
  "onGetSensorBinary g nodeId callbackId pt = pushSendData nodeId callbackId (gc_SensorBinary_encodeGet g) pt"

definition onGetNotification :: "byte \<Rightarrow> byte \<Rightarrow> byte \<Rightarrow> Protocol \<Rightarrow> ptEvent list \<times> Protocol" where
  "onGetNotification nodeId callbackId notificationType pt = pushSendData nodeId callbackId (Notification_encodeGet notificationType) pt"

definition onGetMeter :: "byte \<Rightarrow> byte \<Rightarrow> byte \<Rightarrow> Protocol \<Rightarrow> ptEvent list \<times> Protocol" where
  "onGetMeter nodeId callbackId scale pt = pushSendData nodeId callbackId (Meter_encodeGet scale) pt"

definition onSetColorSwitch :: "byte \<Rightarrow> byte \<Rightarrow> bytes \<Rightarrow> byte \<Rightarrow> Protocol \<Rightarrow> ptEvent list \<times> Protocol" where
  "onSetColorSwitch nodeId callbackId components duration pt = pushSendData nodeId callbackId (ColorSwitch_encodeSet components duration) pt"

definition onGetColorSwitch :: "byte \<Rightarrow> byte \<Rightarrow> byte \<Rightarrow> Protocol \<Rightarrow> ptEvent list \<times> Protocol" where
  "onGetColorSwitch nodeId callbackId componentId pt = pushSendData nodeId callbackId (ColorSwitch_encodeGet componentId) pt"

definition onSetDoorLock :: "genCodecs \<Rightarrow> byte \<Rightarrow> byte \<Rightarrow> byte \<Rightarrow> Protocol \<Rightarrow> ptEvent list \<times> Protocol" where
  "onSetDoorLock g nodeId callbackId mode pt = pushSendData nodeId callbackId (gc_DoorLock_encodeSet g mode) pt"

definition onGetDoorLock :: "genCodecs \<Rightarrow> byte \<Rightarrow> byte \<Rightarrow> Protocol \<Rightarrow> ptEvent list \<times> Protocol" where
  "onGetDoorLock g nodeId callbackId pt = pushSendData nodeId callbackId (gc_DoorLock_encodeGet g) pt"

definition onSetUserCode :: "byte \<Rightarrow> byte \<Rightarrow> byte \<Rightarrow> byte \<Rightarrow> bytes \<Rightarrow> Protocol \<Rightarrow> ptEvent list \<times> Protocol" where
  "onSetUserCode nodeId callbackId userIdentifier userIdStatus userCode pt = pushSendData nodeId callbackId (UserCode_encodeSet userIdentifier userIdStatus userCode) pt"

definition onGetUserCode :: "genCodecs \<Rightarrow> byte \<Rightarrow> byte \<Rightarrow> byte \<Rightarrow> Protocol \<Rightarrow> ptEvent list \<times> Protocol" where
  "onGetUserCode g nodeId callbackId userIdentifier pt = pushSendData nodeId callbackId (gc_UserCode_encodeGet g userIdentifier) pt"

definition onGetUserCodeCount :: "genCodecs \<Rightarrow> byte \<Rightarrow> byte \<Rightarrow> Protocol \<Rightarrow> ptEvent list \<times> Protocol" where
  "onGetUserCodeCount g nodeId callbackId pt = pushSendData nodeId callbackId (gc_UserCode_encodeUsersNumberGet g) pt"

definition onSetThermostatMode :: "genCodecs \<Rightarrow> byte \<Rightarrow> byte \<Rightarrow> byte \<Rightarrow> Protocol \<Rightarrow> ptEvent list \<times> Protocol" where
  "onSetThermostatMode g nodeId callbackId mode pt = pushSendData nodeId callbackId (gc_ThermostatMode_encodeSet g mode) pt"

definition onGetThermostatMode :: "genCodecs \<Rightarrow> byte \<Rightarrow> byte \<Rightarrow> Protocol \<Rightarrow> ptEvent list \<times> Protocol" where
  "onGetThermostatMode g nodeId callbackId pt = pushSendData nodeId callbackId (gc_ThermostatMode_encodeGet g) pt"

definition onSetThermostatSetpoint :: "byte \<Rightarrow> byte \<Rightarrow> byte \<Rightarrow> byte \<Rightarrow> byte \<Rightarrow> i32 \<Rightarrow> Protocol \<Rightarrow> ptEvent list \<times> Protocol" where
  "onSetThermostatSetpoint nodeId callbackId setpointType precision scale v pt = pushSendData nodeId callbackId (ThermostatSetpoint_encodeSet setpointType precision scale v) pt"

definition onGetThermostatSetpoint :: "byte \<Rightarrow> byte \<Rightarrow> byte \<Rightarrow> Protocol \<Rightarrow> ptEvent list \<times> Protocol" where
  "onGetThermostatSetpoint nodeId callbackId setpointType pt = pushSendData nodeId callbackId (ThermostatSetpoint_encodeGet setpointType) pt"

definition onGetThermostatOperatingState :: "genCodecs \<Rightarrow> byte \<Rightarrow> byte \<Rightarrow> Protocol \<Rightarrow> ptEvent list \<times> Protocol" where
  "onGetThermostatOperatingState g nodeId callbackId pt = pushSendData nodeId callbackId (gc_ThermostatOperatingState_encodeGet g) pt"

definition onSetThermostatFanMode :: "genCodecs \<Rightarrow> byte \<Rightarrow> byte \<Rightarrow> byte \<Rightarrow> bool \<Rightarrow> Protocol \<Rightarrow> ptEvent list \<times> Protocol" where
  "onSetThermostatFanMode g nodeId callbackId mode off pt = pushSendData nodeId callbackId (gc_ThermostatFanMode_encodeSet g mode off) pt"

definition onGetThermostatFanMode :: "genCodecs \<Rightarrow> byte \<Rightarrow> byte \<Rightarrow> Protocol \<Rightarrow> ptEvent list \<times> Protocol" where
  "onGetThermostatFanMode g nodeId callbackId pt = pushSendData nodeId callbackId (gc_ThermostatFanMode_encodeGet g) pt"

definition onGetManufacturerSpecific :: "genCodecs \<Rightarrow> byte \<Rightarrow> byte \<Rightarrow> Protocol \<Rightarrow> ptEvent list \<times> Protocol" where
  "onGetManufacturerSpecific g nodeId callbackId pt = pushSendData nodeId callbackId (gc_ManufacturerSpecific_encodeGet g) pt"

definition onGetZWavePlusInfo :: "genCodecs \<Rightarrow> byte \<Rightarrow> byte \<Rightarrow> Protocol \<Rightarrow> ptEvent list \<times> Protocol" where
  "onGetZWavePlusInfo g nodeId callbackId pt = pushSendData nodeId callbackId (gc_ZWavePlusInfo_encodeGet g) pt"

definition onGetNodeVersion :: "genCodecs \<Rightarrow> byte \<Rightarrow> byte \<Rightarrow> Protocol \<Rightarrow> ptEvent list \<times> Protocol" where
  "onGetNodeVersion g nodeId callbackId pt = pushSendData nodeId callbackId (gc_NodeVersion_encodeGet g) pt"

definition onSetWakeUpInterval :: "byte \<Rightarrow> byte \<Rightarrow> u32 \<Rightarrow> byte \<Rightarrow> Protocol \<Rightarrow> ptEvent list \<times> Protocol" where
  "onSetWakeUpInterval nodeId callbackId seconds controllerNodeId pt = pushSendData nodeId callbackId (WakeUp_encodeIntervalSet seconds controllerNodeId) pt"

definition onGetWakeUpInterval :: "genCodecs \<Rightarrow> byte \<Rightarrow> byte \<Rightarrow> Protocol \<Rightarrow> ptEvent list \<times> Protocol" where
  "onGetWakeUpInterval g nodeId callbackId pt = pushSendData nodeId callbackId (gc_WakeUp_encodeGet g) pt"

definition onSendWakeUpNoMoreInformation :: "genCodecs \<Rightarrow> byte \<Rightarrow> byte \<Rightarrow> Protocol \<Rightarrow> ptEvent list \<times> Protocol" where
  "onSendWakeUpNoMoreInformation g nodeId callbackId pt = pushSendData nodeId callbackId (gc_WakeUp_encodeNoMoreInformation g) pt"

definition onSendData :: "byte \<Rightarrow> byte \<Rightarrow> bytes \<Rightarrow> Protocol \<Rightarrow> ptEvent list \<times> Protocol" where
  "onSendData nodeId callbackId payload pt = pushSendData nodeId callbackId (payload) pt"

definition onSetConfiguration :: "byte \<Rightarrow> byte \<Rightarrow> byte \<Rightarrow> byte \<Rightarrow> i32 \<Rightarrow> Protocol \<Rightarrow> ptEvent list \<times> Protocol" where
  "onSetConfiguration nodeId callbackId parameter sz v pt = pushSendData nodeId callbackId (Configuration_encodeSet parameter sz v) pt"

definition onGetConfiguration :: "byte \<Rightarrow> byte \<Rightarrow> byte \<Rightarrow> Protocol \<Rightarrow> ptEvent list \<times> Protocol" where
  "onGetConfiguration nodeId callbackId parameter pt = pushSendData nodeId callbackId (Configuration_encodeGet parameter) pt"

definition onSetAssociation :: "byte \<Rightarrow> byte \<Rightarrow> byte \<Rightarrow> bytes \<Rightarrow> Protocol \<Rightarrow> ptEvent list \<times> Protocol" where
  "onSetAssociation nodeId callbackId groupId members pt = pushSendData nodeId callbackId (Association_encodeSet groupId members) pt"

definition onRemoveAssociation :: "byte \<Rightarrow> byte \<Rightarrow> byte \<Rightarrow> bytes \<Rightarrow> Protocol \<Rightarrow> ptEvent list \<times> Protocol" where
  "onRemoveAssociation nodeId callbackId groupId members pt = pushSendData nodeId callbackId (Association_encodeRemove groupId members) pt"

definition onGetAssociation :: "byte \<Rightarrow> byte \<Rightarrow> byte \<Rightarrow> Protocol \<Rightarrow> ptEvent list \<times> Protocol" where
  "onGetAssociation nodeId callbackId groupId pt = pushSendData nodeId callbackId (Association_encodeGet groupId) pt"

definition onSetMultichannelAssociation :: "byte \<Rightarrow> byte \<Rightarrow> byte \<Rightarrow> bytes \<Rightarrow> (busEndpoint list) \<Rightarrow> Protocol \<Rightarrow> ptEvent list \<times> Protocol" where
  "onSetMultichannelAssociation nodeId callbackId groupId nodeMembers endpointMembers pt = pushSendData nodeId callbackId (MultichannelAssociation_encodeSet groupId nodeMembers (toCodecEndpoints endpointMembers)) pt"

definition onRemoveMultichannelAssociation :: "byte \<Rightarrow> byte \<Rightarrow> byte \<Rightarrow> bytes \<Rightarrow> (busEndpoint list) \<Rightarrow> Protocol \<Rightarrow> ptEvent list \<times> Protocol" where
  "onRemoveMultichannelAssociation nodeId callbackId groupId nodeMembers endpointMembers pt = pushSendData nodeId callbackId (MultichannelAssociation_encodeRemove groupId nodeMembers (toCodecEndpoints endpointMembers)) pt"

definition onGetMultichannelAssociation :: "byte \<Rightarrow> byte \<Rightarrow> byte \<Rightarrow> Protocol \<Rightarrow> ptEvent list \<times> Protocol" where
  "onGetMultichannelAssociation nodeId callbackId groupId pt = pushSendData nodeId callbackId (MultichannelAssociation_encodeGet groupId) pt"

definition onGetMultichannelAssociationGroupings :: "byte \<Rightarrow> byte \<Rightarrow> Protocol \<Rightarrow> ptEvent list \<times> Protocol" where
  "onGetMultichannelAssociationGroupings nodeId callbackId pt = pushSendData nodeId callbackId (MultichannelAssociation_encodeGroupingsGet) pt"

definition onGetAssociationGroupings :: "byte \<Rightarrow> byte \<Rightarrow> Protocol \<Rightarrow> ptEvent list \<times> Protocol" where
  "onGetAssociationGroupings nodeId callbackId pt = pushSendData nodeId callbackId (Association_encodeGroupingsGet) pt"

definition onSendDataMulticast :: "bytes \<Rightarrow> bytes \<Rightarrow> byte \<Rightarrow> Protocol \<Rightarrow> ptEvent list \<times> Protocol" where
  "onSendDataMulticast nodes payload callbackId pt =
     (if nodes = [] \<or> payload = []
      then ([PubSendDataCallback callbackId TRANSMIT_COMPLETE_FAIL], pt)
      else if filter (\<lambda>n. nr_isSecure n (pt_registry pt)) nodes \<noteq> []
      then ([PubSendDataCallback callbackId TRANSMIT_COMPLETE_FAIL], pt)
      else ([], pushRequest (ReqSendDataMulti \<lparr>sm_nodeIds = nodes, sm_data = payload,
                 sm_txOptions = TRANSMIT_OPTION_DEFAULT, sm_callbackId = callbackId\<rparr>) pt))"

section \<open>All commands\<close>

text \<open>
  One constructor per bus command the thread subscribes to, and the subscription table. The commands
  for one node carry its id and the callback id first.
\<close>

datatype (plugins only: code) busCommand =
    SetSwitchBinaryCommand byte byte bool
  | GetSwitchBinaryCommand byte byte
  | SetIndicatorCommand byte byte byte
  | GetIndicatorCommand byte byte
  | SetBasicCommand byte byte byte
  | SendSupervisedCommand byte byte byte bytes
  | SendDataToEndpointCommand byte byte byte bytes
  | GetMultiChannelEndpointsCommand byte byte
  | GetMultiChannelCapabilityCommand byte byte byte
  | GetBasicCommand byte byte
  | SetMultilevelSwitchCommand byte byte byte byte
  | GetMultilevelSwitchCommand byte byte
  | GetBatteryCommand byte byte
  | GetSensorMultilevelCommand byte byte
  | GetSensorBinaryCommand byte byte
  | GetNotificationCommand byte byte byte
  | GetMeterCommand byte byte byte
  | SetColorSwitchCommand byte byte bytes byte
  | GetColorSwitchCommand byte byte byte
  | SetDoorLockCommand byte byte byte
  | GetDoorLockCommand byte byte
  | SetUserCodeCommand byte byte byte byte bytes
  | GetUserCodeCommand byte byte byte
  | GetUserCodeCountCommand byte byte
  | SetThermostatModeCommand byte byte byte
  | GetThermostatModeCommand byte byte
  | SetThermostatSetpointCommand byte byte byte byte byte i32
  | GetThermostatSetpointCommand byte byte byte
  | GetThermostatOperatingStateCommand byte byte
  | SetThermostatFanModeCommand byte byte byte bool
  | GetThermostatFanModeCommand byte byte
  | GetManufacturerSpecificCommand byte byte
  | GetZWavePlusInfoCommand byte byte
  | GetNodeVersionCommand byte byte
  | SetWakeUpIntervalCommand byte byte u32 byte
  | GetWakeUpIntervalCommand byte byte
  | SendWakeUpNoMoreInformationCommand byte byte
  | SendDataCommand byte byte bytes
  | SetConfigurationCommand byte byte byte byte i32
  | GetConfigurationCommand byte byte byte
  | SetAssociationCommand byte byte byte bytes
  | RemoveAssociationCommand byte byte byte bytes
  | GetAssociationCommand byte byte byte
  | SetMultichannelAssociationCommand byte byte byte bytes "busEndpoint list"
  | RemoveMultichannelAssociationCommand byte byte byte bytes "busEndpoint list"
  | GetMultichannelAssociationCommand byte byte byte
  | GetMultichannelAssociationGroupingsCommand byte byte
  | GetAssociationGroupingsCommand byte byte
  | SendDataMulticastCommand bytes bytes byte
  | AddNodeCommand AddNodeRequest
  | RemoveNodeCommand byte bool bool byte
  | RemoveFailedNodeCommand byte byte
  | RequestNodeInfoCommand byte byte
  | DongleStatus bool string

primrec onBusCommand :: "genCodecs \<Rightarrow> busCommand \<Rightarrow> Protocol \<Rightarrow> ptEvent list \<times> Protocol" where
  "onBusCommand g (SetSwitchBinaryCommand n cb turnOn) pt = onSetSwitchBinary g n cb turnOn pt"
| "onBusCommand g (GetSwitchBinaryCommand n cb) pt = onGetSwitchBinary g n cb pt"
| "onBusCommand g (SetIndicatorCommand n cb v) pt = onSetIndicator g n cb v pt"
| "onBusCommand g (GetIndicatorCommand n cb) pt = onGetIndicator g n cb pt"
| "onBusCommand g (SetBasicCommand n cb v) pt = onSetBasic g n cb v pt"
| "onBusCommand g (SendSupervisedCommand n cb sessionId ccData) pt = onSendSupervised n cb sessionId ccData pt"
| "onBusCommand g (SendDataToEndpointCommand n cb endpoint ccData) pt = onSendDataToEndpoint n cb endpoint ccData pt"
| "onBusCommand g (GetMultiChannelEndpointsCommand n cb) pt = onGetMultiChannelEndpoints n cb pt"
| "onBusCommand g (GetMultiChannelCapabilityCommand n cb endpoint) pt = onGetMultiChannelCapability n cb endpoint pt"
| "onBusCommand g (GetBasicCommand n cb) pt = onGetBasic g n cb pt"
| "onBusCommand g (SetMultilevelSwitchCommand n cb v duration) pt = onSetMultilevelSwitch g n cb v duration pt"
| "onBusCommand g (GetMultilevelSwitchCommand n cb) pt = onGetMultilevelSwitch g n cb pt"
| "onBusCommand g (GetBatteryCommand n cb) pt = onGetBattery g n cb pt"
| "onBusCommand g (GetSensorMultilevelCommand n cb) pt = onGetSensorMultilevel g n cb pt"
| "onBusCommand g (GetSensorBinaryCommand n cb) pt = onGetSensorBinary g n cb pt"
| "onBusCommand g (GetNotificationCommand n cb notificationType) pt = onGetNotification n cb notificationType pt"
| "onBusCommand g (GetMeterCommand n cb scale) pt = onGetMeter n cb scale pt"
| "onBusCommand g (SetColorSwitchCommand n cb components duration) pt = onSetColorSwitch n cb components duration pt"
| "onBusCommand g (GetColorSwitchCommand n cb componentId) pt = onGetColorSwitch n cb componentId pt"
| "onBusCommand g (SetDoorLockCommand n cb mode) pt = onSetDoorLock g n cb mode pt"
| "onBusCommand g (GetDoorLockCommand n cb) pt = onGetDoorLock g n cb pt"
| "onBusCommand g (SetUserCodeCommand n cb userIdentifier userIdStatus userCode) pt = onSetUserCode n cb userIdentifier userIdStatus userCode pt"
| "onBusCommand g (GetUserCodeCommand n cb userIdentifier) pt = onGetUserCode g n cb userIdentifier pt"
| "onBusCommand g (GetUserCodeCountCommand n cb) pt = onGetUserCodeCount g n cb pt"
| "onBusCommand g (SetThermostatModeCommand n cb mode) pt = onSetThermostatMode g n cb mode pt"
| "onBusCommand g (GetThermostatModeCommand n cb) pt = onGetThermostatMode g n cb pt"
| "onBusCommand g (SetThermostatSetpointCommand n cb setpointType precision scale v) pt = onSetThermostatSetpoint n cb setpointType precision scale v pt"
| "onBusCommand g (GetThermostatSetpointCommand n cb setpointType) pt = onGetThermostatSetpoint n cb setpointType pt"
| "onBusCommand g (GetThermostatOperatingStateCommand n cb) pt = onGetThermostatOperatingState g n cb pt"
| "onBusCommand g (SetThermostatFanModeCommand n cb mode off) pt = onSetThermostatFanMode g n cb mode off pt"
| "onBusCommand g (GetThermostatFanModeCommand n cb) pt = onGetThermostatFanMode g n cb pt"
| "onBusCommand g (GetManufacturerSpecificCommand n cb) pt = onGetManufacturerSpecific g n cb pt"
| "onBusCommand g (GetZWavePlusInfoCommand n cb) pt = onGetZWavePlusInfo g n cb pt"
| "onBusCommand g (GetNodeVersionCommand n cb) pt = onGetNodeVersion g n cb pt"
| "onBusCommand g (SetWakeUpIntervalCommand n cb seconds controllerNodeId) pt = onSetWakeUpInterval n cb seconds controllerNodeId pt"
| "onBusCommand g (GetWakeUpIntervalCommand n cb) pt = onGetWakeUpInterval g n cb pt"
| "onBusCommand g (SendWakeUpNoMoreInformationCommand n cb) pt = onSendWakeUpNoMoreInformation g n cb pt"
| "onBusCommand g (SendDataCommand n cb payload) pt = onSendData n cb payload pt"
| "onBusCommand g (SetConfigurationCommand n cb parameter sz v) pt = onSetConfiguration n cb parameter sz v pt"
| "onBusCommand g (GetConfigurationCommand n cb parameter) pt = onGetConfiguration n cb parameter pt"
| "onBusCommand g (SetAssociationCommand n cb groupId members) pt = onSetAssociation n cb groupId members pt"
| "onBusCommand g (RemoveAssociationCommand n cb groupId members) pt = onRemoveAssociation n cb groupId members pt"
| "onBusCommand g (GetAssociationCommand n cb groupId) pt = onGetAssociation n cb groupId pt"
| "onBusCommand g (SetMultichannelAssociationCommand n cb groupId nodeMembers endpointMembers) pt = onSetMultichannelAssociation n cb groupId nodeMembers endpointMembers pt"
| "onBusCommand g (RemoveMultichannelAssociationCommand n cb groupId nodeMembers endpointMembers) pt = onRemoveMultichannelAssociation n cb groupId nodeMembers endpointMembers pt"
| "onBusCommand g (GetMultichannelAssociationCommand n cb groupId) pt = onGetMultichannelAssociation n cb groupId pt"
| "onBusCommand g (GetMultichannelAssociationGroupingsCommand n cb) pt = onGetMultichannelAssociationGroupings n cb pt"
| "onBusCommand g (GetAssociationGroupingsCommand n cb) pt = onGetAssociationGroupings n cb pt"
| "onBusCommand g (SendDataMulticastCommand ns p cb) pt = onSendDataMulticast ns p cb pt"
| "onBusCommand g (AddNodeCommand cmd) pt = ([], onAddNodeCommand cmd pt)"
| "onBusCommand g (RemoveNodeCommand mode pow nwe sid) pt = ([], onRemoveNodeCommand mode pow nwe sid pt)"
| "onBusCommand g (RemoveFailedNodeCommand n sid) pt = ([], onRemoveFailedNodeCommand n sid pt)"
| "onBusCommand g (RequestNodeInfoCommand n sid) pt = ([], onRequestNodeInfoCommand n sid pt)"
| "onBusCommand g (DongleStatus connected tty) pt = ([], onDongleStatus connected tty pt)"

lemmas send_handler_defs = onSetSwitchBinary_def onGetSwitchBinary_def onSetIndicator_def onGetIndicator_def
  onSetBasic_def onSendSupervised_def onSendDataToEndpoint_def onGetMultiChannelEndpoints_def
  onGetMultiChannelCapability_def onGetBasic_def onSetMultilevelSwitch_def onGetMultilevelSwitch_def
  onGetBattery_def onGetSensorMultilevel_def onGetSensorBinary_def onGetNotification_def onGetMeter_def
  onSetColorSwitch_def onGetColorSwitch_def onSetDoorLock_def onGetDoorLock_def onSetUserCode_def
  onGetUserCode_def onGetUserCodeCount_def onSetThermostatMode_def onGetThermostatMode_def
  onSetThermostatSetpoint_def onGetThermostatSetpoint_def onGetThermostatOperatingState_def
  onSetThermostatFanMode_def onGetThermostatFanMode_def onGetManufacturerSpecific_def onGetZWavePlusInfo_def
  onGetNodeVersion_def onSetWakeUpInterval_def onGetWakeUpInterval_def onSendWakeUpNoMoreInformation_def
  onSendData_def onSetConfiguration_def onGetConfiguration_def onSetAssociation_def onRemoveAssociation_def
  onGetAssociation_def onSetMultichannelAssociation_def onRemoveMultichannelAssociation_def
  onGetMultichannelAssociation_def onGetMultichannelAssociationGroupings_def onGetAssociationGroupings_def

lemmas request_handler_defs = onSendDataMulticast_def onAddNodeCommand_def onRemoveNodeCommand_def
  onRemoveFailedNodeCommand_def onRequestNodeInfoCommand_def onDongleStatus_def pushRequest_def

section \<open>What a command does to the queue\<close>

text \<open>A request that would put an unencrypted application command for a secure node on the air.\<close>

fun plaintextToSecure :: "NodeRegistry \<Rightarrow> Request \<Rightarrow> bool" where
  "plaintextToSecure reg (ReqSendData q) \<longleftrightarrow>
     nr_isSecure (sd_nodeId q) reg \<and> sd_data q \<noteq> [] \<and> sd_data q ! 0 \<notin> {ccSecurity, ccSecurity2}"
| "plaintextToSecure reg (ReqSendDataMulti q) \<longleftrightarrow> (\<exists>n \<in> set (sm_nodeIds q). nr_isSecure n reg)"
| "plaintextToSecure reg _ \<longleftrightarrow> False"

text \<open>
  A command has one outcome: one request appended to the queue, or one publication that hands it to a
  security orchestrator or refuses it.
\<close>

definition oneOutcome :: "Protocol \<Rightarrow> ptEvent list \<times> Protocol \<Rightarrow> bool" where
  "oneOutcome pt res \<longleftrightarrow>
     (\<exists>r. res = ([], pushRequest r pt) \<and> \<not> plaintextToSecure (pt_registry pt) r) \<or>
     (\<exists>e. res = ([e], pt) \<and>
        (case e of
           PubSecureS2SendRequest n p cb \<Rightarrow> nr_securityScheme n (pt_registry pt) \<notin> {SchemeNone, SchemeS0}
         | PubSecureSendRequest n p cb \<Rightarrow> nr_securityScheme n (pt_registry pt) = SchemeS0
         | PubSendDataCallback cb status \<Rightarrow> status = TRANSMIT_COMPLETE_FAIL
         | _ \<Rightarrow> False))"

lemma isSecure_scheme: "nr_isSecure n r \<longleftrightarrow> nr_securityScheme n r \<noteq> SchemeNone"
  by (simp add: nr_isSecure_def nr_securityScheme_def split: option.splits)

lemma oneOutcome_queued: "\<not> plaintextToSecure (pt_registry pt) r \<Longrightarrow> oneOutcome pt ([], pushRequest r pt)"
  by (auto simp: oneOutcome_def)

lemma pushSendData_outcome: "oneOutcome pt (pushSendData nodeId callbackId payload pt)"
  by (cases "nr_securityScheme nodeId (pt_registry pt)")
    (auto simp: oneOutcome_def pushSendData_def isSecure_scheme)

lemma multicast_outcome: "oneOutcome pt (onSendDataMulticast ns payload callbackId pt)"
  by (auto simp: oneOutcome_def onSendDataMulticast_def filter_empty_conv)

lemma onBusCommand_outcome:
  assumes "\<nexists>connected tty. c = DongleStatus connected tty"
  shows "oneOutcome pt (onBusCommand g c pt)"
  using assms
  by (cases c) (simp_all add: send_handler_defs pushSendData_outcome multicast_outcome onAddNodeCommand_def
      onRemoveNodeCommand_def onRemoveFailedNodeCommand_def onRequestNodeInfoCommand_def oneOutcome_queued)

text \<open>A command appends at most one request; only the notification about the dongle changes the path.\<close>

lemma onBusCommand_queue:
  assumes "onBusCommand g c pt = (evs, pt')"
  shows "\<exists>added. pt_queue pt' = pt_queue pt @ added \<and> length added \<le> 1 \<and> pt_running pt' = pt_running pt"
proof (cases "\<exists>connected tty. c = DongleStatus connected tty")
  case True
  then show ?thesis using assms by (auto simp: onDongleStatus_def)
next
  case False
  then have "oneOutcome pt (evs, pt')" using onBusCommand_outcome assms by metis
  then show ?thesis by (auto simp: oneOutcome_def pushRequest_def)
qed

section \<open>Properties\<close>

text \<open>
  C2: whatever command arrives, no unencrypted application command for a secure node enters the
  queue: the command becomes one request that is safe for its node, or it is handed to the
  orchestrator of the node's security class, or it is refused with a failure callback. Only the
  notification about the dongle itself has no such outcome.
\<close>

theorem secure_never_plaintext:
  "(\<exists>connected tty. c = DongleStatus connected tty \<and> onBusCommand g c pt =
      ([], pt\<lparr>pt_path := if connected \<and> tty \<noteq> [] then Some tty else None\<rparr>)) \<or>
   (\<exists>r. onBusCommand g c pt = ([], pt\<lparr>pt_queue := pt_queue pt @ [r]\<rparr>) \<and>
      (case r of
         ReqSendData q \<Rightarrow> nr_isSecure (sd_nodeId q) (pt_registry pt) \<longrightarrow>
           sd_data q = [] \<or> sd_data q ! 0 \<in> {ccSecurity, ccSecurity2}
       | ReqSendDataMulti q \<Rightarrow> \<forall>n \<in> set (sm_nodeIds q). \<not> nr_isSecure n (pt_registry pt)
       | _ \<Rightarrow> True)) \<or>
   (\<exists>e. onBusCommand g c pt = ([e], pt) \<and>
      (case e of
         PubSecureS2SendRequest n p cb \<Rightarrow> nr_securityScheme n (pt_registry pt) \<notin> {SchemeNone, SchemeS0}
       | PubSecureSendRequest n p cb \<Rightarrow> nr_securityScheme n (pt_registry pt) = SchemeS0
       | PubSendDataCallback cb status \<Rightarrow> status = TRANSMIT_COMPLETE_FAIL
       | _ \<Rightarrow> False))"
proof (cases "\<exists>connected tty. c = DongleStatus connected tty")
  case True
  then obtain connected tty where "c = DongleStatus connected tty" by blast
  then show ?thesis by (intro disjI1 exI [of _ connected] exI [of _ tty]) (simp add: onDongleStatus_def)
next
  case False
  then consider r where "onBusCommand g c pt = ([], pushRequest r pt)" "\<not> plaintextToSecure (pt_registry pt) r"
    | e where "onBusCommand g c pt = ([e], pt)"
      "case e of
         PubSecureS2SendRequest n p cb \<Rightarrow> nr_securityScheme n (pt_registry pt) \<notin> {SchemeNone, SchemeS0}
       | PubSecureSendRequest n p cb \<Rightarrow> nr_securityScheme n (pt_registry pt) = SchemeS0
       | PubSendDataCallback cb status \<Rightarrow> status = TRANSMIT_COMPLETE_FAIL
       | _ \<Rightarrow> False"
    using onBusCommand_outcome unfolding oneOutcome_def by blast
  then show ?thesis
  proof cases
    case (1 r)
    from 1(2) have "case r of
         ReqSendData q \<Rightarrow> nr_isSecure (sd_nodeId q) (pt_registry pt) \<longrightarrow>
           sd_data q = [] \<or> sd_data q ! 0 \<in> {ccSecurity, ccSecurity2}
       | ReqSendDataMulti q \<Rightarrow> \<forall>n \<in> set (sm_nodeIds q). \<not> nr_isSecure n (pt_registry pt)
       | _ \<Rightarrow> True"
      by (cases r) auto
    with 1(1) show ?thesis unfolding pushRequest_def by blast
  qed blast
qed

definition demoCodecs :: genCodecs where
  "demoCodecs = \<lparr>gc_BinarySwitch_encodeSet = \<lambda>on. [0x25, 0x01, if on then 0xFF else 0x00],
     gc_BinarySwitch_encodeGet = [0x25, 0x02], gc_Indicator_encodeSet = \<lambda>v. [0x87, 0x01, v],
     gc_Indicator_encodeGet = [0x87, 0x02], gc_Basic_encodeSet = \<lambda>v. [0x20, 0x01, v],
     gc_Basic_encodeGet = [0x20, 0x02], gc_MultilevelSwitch_encodeSet = \<lambda>v d. [0x26, 0x01, v, d],
     gc_MultilevelSwitch_encodeGet = [0x26, 0x02], gc_Battery_encodeGet = [0x80, 0x02],
     gc_SensorMultilevel_encodeGet = [0x31, 0x04], gc_SensorBinary_encodeGet = [0x30, 0x02],
     gc_DoorLock_encodeSet = \<lambda>m. [0x62, 0x01, m], gc_DoorLock_encodeGet = [0x62, 0x02],
     gc_UserCode_encodeGet = \<lambda>u. [0x63, 0x02, u], gc_UserCode_encodeUsersNumberGet = [0x63, 0x04],
     gc_ThermostatMode_encodeSet = \<lambda>m. [0x40, 0x01, m], gc_ThermostatMode_encodeGet = [0x40, 0x02],
     gc_ThermostatOperatingState_encodeGet = [0x42, 0x02],
     gc_ThermostatFanMode_encodeSet = \<lambda>m off. [0x44, 0x01, m], gc_ThermostatFanMode_encodeGet = [0x44, 0x02],
     gc_ManufacturerSpecific_encodeGet = [0x72, 0x04], gc_ZWavePlusInfo_encodeGet = [0x5E, 0x01],
     gc_NodeVersion_encodeGet = [0x86, 0x11], gc_WakeUp_encodeGet = [0x84, 0x05],
     gc_WakeUp_encodeNoMoreInformation = [0x84, 0x08]\<rparr>"

definition demoProtocol :: Protocol where
  "demoProtocol = \<lparr>pt_running = True, pt_path = Some ''/dev/ttyACM0'', pt_queue = [],
     pt_activeFailedNodeRemoval = None, pt_activeRequestNodeInfo = None, pt_controllerNodeId = Some 1,
     pt_pendingInclusion = None, pt_registry = demoRegistry\<rparr>"

theorem secure_never_plaintext_witness:
  "onBusCommand demoCodecs (SetSwitchBinaryCommand 5 9 True) demoProtocol =
     ([PubSecureS2SendRequest 5 [0x25, 0x01, 0xFF] 9], demoProtocol) \<and>
   (\<exists>e. onBusCommand demoCodecs (SetSwitchBinaryCommand 5 9 True) demoProtocol = ([e], demoProtocol))"
proof -
  have "nr_securityScheme 5 demoRegistry = S2Authenticated"
    by (simp add: nr_securityScheme_def demoRegistry_def restarted_nodes loadNodesForHome_def)
  then have "onBusCommand demoCodecs (SetSwitchBinaryCommand 5 9 True) demoProtocol =
      ([PubSecureS2SendRequest 5 [0x25, 0x01, 0xFF] 9], demoProtocol)"
    by (simp add: onSetSwitchBinary_def pushSendData_def isSecure_scheme demoCodecs_def demoProtocol_def
        ccSecurity_def ccSecurity2_def)
  then show ?thesis
    using secure_never_plaintext [of "SetSwitchBinaryCommand 5 9 True" demoCodecs demoProtocol] by simp
qed



end
