(* ===== verification/Protocol_Thread.thy ===== *)
theory Protocol_Thread
  imports Frame_Transport Bus_Commands
begin

text \<open>
  The dongle side of the protocol thread, the second half of
  \<open>src/src/zwave-protocol/ProtocolThread.cpp\<close>: what incoming frames do, how requests are
  dispatched, the start-up queries to the dongle and the session loop. The transport calls the
  thread's frame handler from within \<open>pumpOnce\<close> and \<open>sendRequest\<close>; the handler does not
  touch the transport, so the frames handled during one such call are given to it, in order, when the
  call returns. What other threads do between two turns of a loop is an argument of the loop.
\<close>

section \<open>Incoming frames\<close>

definition PHASE_RESPONSE :: byte where "PHASE_RESPONSE = 0"
definition PHASE_CALLBACK :: byte where "PHASE_CALLBACK = 1"
definition REMOVE_STATUS_STARTED :: byte where "REMOVE_STATUS_STARTED = 0x00"
definition REMOVE_STATUS_REMOVE_FAIL :: byte where "REMOVE_STATUS_REMOVE_FAIL = 0x20"
definition REMOVE_STATUS_REMOVED :: byte where "REMOVE_STATUS_REMOVED = 0x01"
definition STATUS_PROTOCOL_DONE :: byte where "STATUS_PROTOCOL_DONE = 0x05"
definition STATUS_COMPLETED :: byte where "STATUS_COMPLETED = 0x06"
definition ADD_MODE_STOP :: byte where "ADD_MODE_STOP = 0x05"
definition ADD_MODE_STOP_REPLICATION :: byte where "ADD_MODE_STOP_REPLICATION = 0x06"
definition REMOVE_MODE_STOP :: byte where "REMOVE_MODE_STOP = 0x05"

text \<open>A call into the registry, with the list it publishes.\<close>

definition callRegistry ::
  "(NodeRegistry \<Rightarrow> NodeEntry list option \<times> NodeRegistry) \<Rightarrow> Protocol \<Rightarrow> ptEvent list \<times> Protocol" where
  "callRegistry f pt =
     (case f (pt_registry pt) of
        (published, reg) \<Rightarrow>
          ((case published of None \<Rightarrow> [] | Some l \<Rightarrow> [PubNodeListChanged l]), pt\<lparr>pt_registry := reg\<rparr>))"

definition publishNodeStatus :: "NodeStatusCallback \<Rightarrow> ptEvent list" where
  "publishNodeStatus callback =
     (if ns_commandId callback = CMD_REMOVE_NODE_FROM_NETWORK then [PubNodeExclusionStatus callback]
      else [PubNodeInclusionStatus callback])"

definition handleRemoveFailedNodeFrame :: "ZwaveDataFrame \<Rightarrow> Protocol \<Rightarrow> (ptEvent list \<times> Protocol) option" where
  "handleRemoveFailedNodeFrame frame pt =
     (case decodeRemoveFailedNodeResponse frame of
        Some resp \<Rightarrow>
          let pending = pt_activeFailedNodeRemoval pt;
              ev = PubRemoveFailedNodeStatus
                     (case pending of None \<Rightarrow> 0 | Some q \<Rightarrow> rf_nodeId q)
                     (case pending of None \<Rightarrow> 0 | Some q \<Rightarrow> rf_sessionId q) PHASE_RESPONSE (rr_status resp)
          in Some ([ev], if rr_status resp \<noteq> REMOVE_STATUS_STARTED
                         then pt\<lparr>pt_activeFailedNodeRemoval := None\<rparr> else pt)
      | None \<Rightarrow>
          (case decodeRemoveFailedNodeCallback frame of
             Some callback \<Rightarrow>
               let nodeId = (case pt_activeFailedNodeRemoval pt of None \<Rightarrow> 0 | Some q \<Rightarrow> rf_nodeId q);
                   ev = PubRemoveFailedNodeStatus nodeId (rc_sessionId callback) PHASE_CALLBACK (rc_status callback)
               in (case (if rc_status callback = REMOVE_STATUS_REMOVED \<and> nodeId \<noteq> 0
                         then callRegistry (nr_remove nodeId) pt else ([], pt)) of
                     (evs, pt1) \<Rightarrow> Some (ev # evs, pt1\<lparr>pt_activeFailedNodeRemoval := None\<rparr>))
           | None \<Rightarrow> None))"

definition handleRequestNodeInfoResponse :: "ZwaveDataFrame \<Rightarrow> Protocol \<Rightarrow> (ptEvent list \<times> Protocol) option" where
  "handleRequestNodeInfoResponse frame pt =
     (case decodeRequestNodeInfoResponse frame of
        None \<Rightarrow> None
      | Some resp \<Rightarrow>
          let pending = pt_activeRequestNodeInfo pt in
          Some ([PubRequestNodeInfoStatus
                   (case pending of None \<Rightarrow> 0 | Some q \<Rightarrow> ri_nodeId q)
                   (case pending of None \<Rightarrow> 0 | Some q \<Rightarrow> ri_sessionId q) (ir_accepted resp)],
                pt\<lparr>pt_activeRequestNodeInfo := None\<rparr>))"

definition handleApplicationUpdateFrame :: "ZwaveDataFrame \<Rightarrow> Protocol \<Rightarrow> (ptEvent list \<times> Protocol) option" where
  "handleApplicationUpdateFrame frame pt =
     (case decodeApplicationUpdate frame of
        None \<Rightarrow> None
      | Some u \<Rightarrow>
          if au_status u = STATUS_NODE_INFO_RECEIVED \<and> au_nodeId u \<noteq> 0
          then (case callRegistry (nr_updateDeviceClass (au_nodeId u) (au_basicDeviceType u)
                        (au_genericDeviceType u) (au_specificDeviceType u)) pt of
                  (evs1, pt1) \<Rightarrow>
                    (case (if au_commandClasses u \<noteq> []
                           then callRegistry (nr_updateCommandClasses (au_nodeId u) (au_commandClasses u)) pt1
                           else ([], pt1)) of
                       (evs2, pt2) \<Rightarrow> Some (PubNodeInfoUpdate u # evs1 @ evs2, pt2)))
          else Some ([PubNodeInfoUpdate u], pt))"

text \<open>The callbacks of an inclusion or exclusion: registry, pending inclusion and end of the session.\<close>

definition registerNodeCallback :: "NodeStatusCallback \<Rightarrow> Protocol \<Rightarrow> ptEvent list \<times> Protocol" where
  "registerNodeCallback cb pt =
     (if ns_commandId cb = CMD_ADD_NODE_TO_NETWORK \<and> ns_nodeId cb \<noteq> 0
      then if ns_commandClasses cb \<noteq> [] \<or> ns_basicDeviceType cb \<noteq> 0 \<or> ns_genericDeviceType cb \<noteq> 0 \<or>
              ns_specificDeviceType cb \<noteq> 0
           then (case callRegistry (nr_add ((newNodeInfo (ucast (ns_nodeId cb)))
                        \<lparr>ni_basicType := ns_basicDeviceType cb, ni_genericType := ns_genericDeviceType cb,
                         ni_specificType := ns_specificDeviceType cb, ni_commandClasses := ns_commandClasses cb\<rparr>)) pt of
                   (evs, pt1) \<Rightarrow>
                     (evs, pt1\<lparr>pt_pendingInclusion := Some (ucast (ns_nodeId cb), ns_commandClasses cb)\<rparr>))
           else ([], pt)
      else if ns_commandId cb = CMD_REMOVE_NODE_FROM_NETWORK \<and> ns_nodeId cb \<noteq> 0 \<and>
              (ns_status cb = STATUS_PROTOCOL_DONE \<or> ns_status cb = STATUS_COMPLETED)
           then callRegistry (nr_remove (ucast (ns_nodeId cb))) pt
           else ([], pt))"

definition finishNodeCallback ::
  "NodeStatusCallback \<Rightarrow> SessionTracker \<Rightarrow> Protocol \<Rightarrow> ptEvent list \<times> SessionTracker \<times> Protocol" where
  "finishNodeCallback cb tracker pt =
     (if isTerminalStatus (ns_commandId cb) (ns_status cb)
      then ((if ns_commandId cb = CMD_ADD_NODE_TO_NETWORK
             then (case pt_pendingInclusion pt of
                     None \<Rightarrow> []
                   | Some (nodeId, ccs) \<Rightarrow> [PubNodeIncluded nodeId ccs])
             else []) @ [PubSessionStatus False 0 0],
            session_end tracker, pt\<lparr>pt_pendingInclusion := None\<rparr>)
      else ([], tracker, pt))"

definition handleNodeCallback ::
  "NodeStatusCallback \<Rightarrow> SessionTracker \<Rightarrow> Protocol \<Rightarrow> ptEvent list \<times> SessionTracker \<times> Protocol" where
  "handleNodeCallback cb tracker pt =
     (case registerNodeCallback cb pt of
        (evs1, pt1) \<Rightarrow>
          (case finishNodeCallback cb tracker pt1 of
             (evs2, tracker2, pt2) \<Rightarrow> (publishNodeStatus cb @ evs1 @ evs2, tracker2, pt2)))"

definition handleIncomingFrame ::
  "ZwaveDataFrame \<Rightarrow> SessionTracker \<Rightarrow> Protocol \<Rightarrow> ptEvent list \<times> SessionTracker \<times> Protocol" where
  "handleIncomingFrame frame tracker pt =
     (case decodeSendDataCallback frame of
        Some cb \<Rightarrow> ([PubSendDataCallback (sc_callbackId cb) (sc_txStatus cb)], tracker, pt)
      | None \<Rightarrow>
     (case decodeSendDataMultiCallback frame of
        Some cb \<Rightarrow> ([PubSendDataCallback (sc_callbackId cb) (sc_txStatus cb)], tracker, pt)
      | None \<Rightarrow>
     (case decodeApplicationCommand frame of
        Some cmd \<Rightarrow> ([PubApplicationCommand cmd], tracker, pt)
      | None \<Rightarrow>
     (case handleRemoveFailedNodeFrame frame pt of
        Some (evs, pt1) \<Rightarrow> (evs, tracker, pt1)
      | None \<Rightarrow>
     (case handleRequestNodeInfoResponse frame pt of
        Some (evs, pt1) \<Rightarrow> (evs, tracker, pt1)
      | None \<Rightarrow>
     (case handleApplicationUpdateFrame frame pt of
        Some (evs, pt1) \<Rightarrow> (evs, tracker, pt1)
      | None \<Rightarrow>
     (case decodeNodeCallback frame False of
        Some cb \<Rightarrow> handleNodeCallback cb tracker pt
      | None \<Rightarrow> ([], tracker, pt))))))))"

section \<open>The connection\<close>

record Connection =
  cn_transport :: FrameTransport
  cn_link :: link
  cn_tracker :: SessionTracker
  cn_pending :: "byte option"

text \<open>The frame handler of a session: the gate of the pending transmission, then the dispatch.\<close>

definition sendDataOutcome :: "ZwaveDataFrame \<Rightarrow> SendDataCallback option" where
  "sendDataOutcome frame =
     (case decodeSendDataCallback frame of None \<Rightarrow> decodeSendDataMultiCallback frame | Some cb \<Rightarrow> Some cb)"

definition clearGate :: "ZwaveDataFrame \<Rightarrow> byte option \<Rightarrow> byte option" where
  "clearGate frame pending =
     (case pending of
        None \<Rightarrow> None
      | Some waiting \<Rightarrow>
          (case sendDataOutcome frame of
             None \<Rightarrow> Some waiting
           | Some cb \<Rightarrow> if sc_callbackId cb = waiting then None else Some waiting))"

definition onFrame :: "ZwaveDataFrame \<Rightarrow> Connection \<Rightarrow> Protocol \<Rightarrow> ptEvent list \<times> Connection \<times> Protocol" where
  "onFrame frame cn pt =
     (case handleIncomingFrame frame (cn_tracker cn) pt of
        (evs, tracker, pt1) \<Rightarrow>
          (evs, cn\<lparr>cn_tracker := tracker, cn_pending := clearGate frame (cn_pending cn)\<rparr>, pt1))"

fun onFrames :: "ZwaveDataFrame list \<Rightarrow> Connection \<Rightarrow> Protocol \<Rightarrow> ptEvent list \<times> Connection \<times> Protocol" where
  "onFrames [] cn pt = ([], cn, pt)"
| "onFrames (f # fs) cn pt =
     (case onFrame f cn pt of
        (evs, cn1, pt1) \<Rightarrow> (case onFrames fs cn1 pt1 of (evs2, cn2, pt2) \<Rightarrow> (evs @ evs2, cn2, pt2)))"

text \<open>The frames the transport handled since the trace had length \<open>n\<close>.\<close>

definition newlyHandled :: "nat \<Rightarrow> link \<Rightarrow> ZwaveDataFrame list" where
  "newlyHandled n lk = handled (drop n (lkTrace lk))"

definition pumpConnection :: "nat \<Rightarrow> Connection \<Rightarrow> Protocol \<Rightarrow> ptEvent list \<times> Connection \<times> Protocol" where
  "pumpConnection timeoutMs cn pt =
     (case pumpOnce timeoutMs (cn_transport cn, cn_link cn) of
        (_, t1, lk1) \<Rightarrow>
          onFrames (newlyHandled (length (lkTrace (cn_link cn))) lk1) (cn\<lparr>cn_transport := t1, cn_link := lk1\<rparr>) pt)"

definition sendConnection ::
  "ZwaveDataFrame \<Rightarrow> Connection \<Rightarrow> Protocol \<Rightarrow> bool \<times> ptEvent list \<times> Connection \<times> Protocol" where
  "sendConnection frame cn pt =
     (case sendRequest frame (cn_transport cn, cn_link cn) of
        (ok, t1, lk1) \<Rightarrow>
          (ok, onFrames (newlyHandled (length (lkTrace (cn_link cn))) lk1)
                 (cn\<lparr>cn_transport := t1, cn_link := lk1\<rparr>) pt))"

section \<open>Waiting for a transmission\<close>

definition IDLE_PUMP_TIMEOUT_MS :: nat where "IDLE_PUMP_TIMEOUT_MS = 100"
definition SEND_DATA_CALLBACK_TIMEOUT_MS :: nat where "SEND_DATA_CALLBACK_TIMEOUT_MS = 5000"
definition SEND_DATA_NO_CALLBACK_DELAY_MS :: nat where "SEND_DATA_NO_CALLBACK_DELAY_MS = 300"
definition INTROSPECTION_TIMEOUT_MS :: nat where "INTROSPECTION_TIMEOUT_MS = 2000"

abbreviation linkNow :: "link \<Rightarrow> nat" where "linkNow lk \<equiv> osNow (lkOs lk)"

definition link_clock :: "link \<Rightarrow> nat \<times> link" where
  "link_clock lk = (case clock_now (lkOs lk) of (now, os1) \<Rightarrow> (now, lk\<lparr>lkOs := os1\<rparr>))"

lemma link_clock_now: "link_clock lk = (now, lk') \<longleftrightarrow> now = linkNow lk \<and> lk' = lk\<lparr>lkOs := snd (clock_now (lkOs lk))\<rparr>"
  by (auto simp: link_clock_def clock_now_def)

lemma pumpBytes_now: "pumpBytes bs (t, lk) = (t', lk') \<Longrightarrow> linkNow lk \<le> linkNow lk'"
proof (induction bs arbitrary: t lk)
  case (Cons b bs)
  obtain e t1 where f: "feed b t = (e, t1)" by (rule prod.exhaust)
  show ?case
  proof (cases e)
    case EvDataFrame
    obtain t2 lk2 where h: "handleParsedDataFrame (t1, lk) = (t2, lk2)" by (rule prod.exhaust)
    then have "pumpBytes bs (t2, lk2) = (t', lk')" using Cons.prems f EvDataFrame by simp
    from Cons.IH [OF this] handleParsedDataFrame_now [OF h] show ?thesis by simp
  qed (use Cons f in \<open>auto\<close>)
qed simp

lemma pumpOnce_now: "pumpOnce ms (t, lk) = (got, t', lk') \<Longrightarrow> linkNow lk \<le> linkNow lk'"
  by (auto simp: pumpOnce_def split: prod.splits if_splits dest: link_read_now)
    (metis le_trans link_read_now pumpBytes_now)

lemma onFrames_link: "onFrames fs cn pt = (evs, cn', pt') \<Longrightarrow> cn_link cn' = cn_link cn \<and> cn_transport cn' = cn_transport cn"
proof (induction fs arbitrary: cn pt evs)
  case (Cons f fs)
  then show ?case by (fastforce simp: onFrame_def split: prod.splits)
qed simp

lemma pumpConnection_now:
  "pumpConnection ms cn pt = (evs, cn', pt') \<Longrightarrow> linkNow (cn_link cn) \<le> linkNow (cn_link cn')"
  unfolding pumpConnection_def by (auto split: prod.splits dest!: onFrames_link pumpOnce_now)

text \<open>
  The loop that waits for the completion callback. The flag \<open>pt_running\<close> is read from the state;
  the clock bounds the wait in any case.
\<close>

function awaitCallback :: "nat \<Rightarrow> Connection \<Rightarrow> Protocol \<Rightarrow> ptEvent list \<times> Connection \<times> Protocol" where
  "awaitCallback deadline cn pt =
     (if cn_pending cn = None then ([], cn, pt)
      else (case link_clock (cn_link cn) of
          (now, lk1) \<Rightarrow>
            if \<not> now < deadline \<or> \<not> pt_running pt then ([], cn\<lparr>cn_link := lk1\<rparr>, pt)
            else (case pumpConnection IDLE_PUMP_TIMEOUT_MS (cn\<lparr>cn_link := lk1\<rparr>) pt of
                (evs, cn2, pt2) \<Rightarrow>
                  (case awaitCallback deadline cn2 pt2 of (evs2, res) \<Rightarrow> (evs @ evs2, res)))))"
  by pat_completeness auto
termination
proof (relation "measure (\<lambda>(deadline, cn, pt). deadline - linkNow (cn_link cn))")
qed (auto simp: clock_now_def dest!: link_clock_now [THEN iffD1, OF sym] pumpConnection_now [OF sym])

declare awaitCallback.simps [simp del]

text \<open>
  The common end of a singlecast and a multicast transmission: a failed send publishes a failure
  callback, otherwise the completion callback or a fixed delay is waited for.
\<close>

definition transmit ::
  "ZwaveDataFrame \<Rightarrow> byte \<Rightarrow> Connection \<Rightarrow> Protocol \<Rightarrow> ptEvent list \<times> Connection \<times> Protocol" where
  "transmit frame callbackId cn pt =
     (case sendConnection frame cn pt of
        (ok, evs, cn1, pt1) \<Rightarrow>
          if \<not> ok then (evs @ [PubSendDataCallback callbackId TRANSMIT_COMPLETE_FAIL], cn1, pt1)
          else if callbackId \<noteq> 0
          then (case link_clock (cn_link cn1) of
                  (now, lk2) \<Rightarrow>
                    (case awaitCallback (now + SEND_DATA_CALLBACK_TIMEOUT_MS * NS_PER_MS)
                            (cn1\<lparr>cn_pending := Some callbackId, cn_link := lk2\<rparr>) pt1 of
                       (evs2, cn2, pt2) \<Rightarrow> (evs @ evs2, cn2\<lparr>cn_pending := None\<rparr>, pt2)))
          else (evs, cn1\<lparr>cn_link := link_sleep SEND_DATA_NO_CALLBACK_DELAY_MS (cn_link cn1)\<rparr>, pt1))"

definition dispatchRequest ::
  "Request \<Rightarrow> Connection \<Rightarrow> Protocol \<Rightarrow> ptEvent list \<times> Connection \<times> Protocol" where
  "dispatchRequest request cn pt =
     (case request of
        ReqAddNode q \<Rightarrow>
          (case (if an_mode q \<noteq> ADD_MODE_STOP \<and> an_mode q \<noteq> ADD_MODE_STOP_REPLICATION
                 then ([PubSessionStatus True CMD_ADD_NODE_TO_NETWORK (an_sessionId q)],
                       cn\<lparr>cn_tracker := session_begin CMD_ADD_NODE_TO_NETWORK (an_sessionId q) (cn_tracker cn)\<rparr>)
                 else ([], cn)) of
             (evs, cn1) \<Rightarrow> (case sendConnection (encodeAddNode q) cn1 pt of (_, evs2, res) \<Rightarrow> (evs @ evs2, res)))
      | ReqRemoveNode q \<Rightarrow>
          (case (if rn_mode q \<noteq> REMOVE_MODE_STOP
                 then ([PubSessionStatus True CMD_REMOVE_NODE_FROM_NETWORK (rn_sessionId q)],
                       cn\<lparr>cn_tracker := session_begin CMD_REMOVE_NODE_FROM_NETWORK (rn_sessionId q) (cn_tracker cn)\<rparr>)
                 else ([], cn)) of
             (evs, cn1) \<Rightarrow> (case sendConnection (encodeRemoveNode q) cn1 pt of (_, evs2, res) \<Rightarrow> (evs @ evs2, res)))
      | ReqRemoveFailedNode q \<Rightarrow>
          (case sendConnection (encodeRemoveFailedNode q) cn (pt\<lparr>pt_activeFailedNodeRemoval := Some q\<rparr>) of
             (ok, evs, cn1, pt1) \<Rightarrow>
               if ok then (evs, cn1, pt1)
               else (evs @ [PubRemoveFailedNodeStatus (rf_nodeId q) (rf_sessionId q) PHASE_RESPONSE
                              REMOVE_STATUS_REMOVE_FAIL],
                     cn1, pt1\<lparr>pt_activeFailedNodeRemoval := None\<rparr>))
      | ReqRequestNodeInfo q \<Rightarrow>
          (case sendConnection (encodeRequestNodeInfo q) cn (pt\<lparr>pt_activeRequestNodeInfo := Some q\<rparr>) of
             (ok, evs, cn1, pt1) \<Rightarrow>
               if ok then (evs, cn1, pt1)
               else (evs @ [PubRequestNodeInfoStatus (ri_nodeId q) (ri_sessionId q) False],
                     cn1, pt1\<lparr>pt_activeRequestNodeInfo := None\<rparr>))
      | ReqSendData q \<Rightarrow> transmit (encodeSendData q) (sd_callbackId q) cn pt
      | ReqSendDataMulti q \<Rightarrow> transmit (encodeSendDataMulti q) (sm_callbackId q) cn pt)"

section \<open>The session loop\<close>

text \<open>
  One turn of \<open>runConnectedSession\<close>. Between two turns other threads run handlers of bus
  commands; they are the list a turn starts with. The loop ends when the thread is stopped, the port
  is closed or the device path is gone; the turns left then have no effect.
\<close>

definition sessionTurn :: "Connection \<Rightarrow> Protocol \<Rightarrow> ptEvent list \<times> Connection \<times> Protocol" where
  "sessionTurn cn pt =
     (if pt_path pt = None
      then ([], cn\<lparr>cn_link := (cn_link cn)\<lparr>lkPort := port_close (lkPort (cn_link cn))\<rparr>\<rparr>, pt)
      else case popRequest pt of
          (Some request, pt1) \<Rightarrow> dispatchRequest request cn pt1
        | (None, pt1) \<Rightarrow> pumpConnection IDLE_PUMP_TIMEOUT_MS cn pt1)"

fun busCommands :: "genCodecs \<Rightarrow> busCommand list \<Rightarrow> Protocol \<Rightarrow> ptEvent list \<times> Protocol" where
  "busCommands g [] pt = ([], pt)"
| "busCommands g (c # cs) pt =
     (case onBusCommand g c pt of
        (evs, pt1) \<Rightarrow> (case busCommands g cs pt1 of (evs2, pt2) \<Rightarrow> (evs @ evs2, pt2)))"

fun runConnectedSession ::
  "genCodecs \<Rightarrow> busCommand list list \<Rightarrow> Connection \<Rightarrow> Protocol \<Rightarrow> ptEvent list \<times> Connection \<times> Protocol" where
  "runConnectedSession g [] cn pt = ([], cn, pt)"
| "runConnectedSession g (cs # turns) cn pt =
     (case busCommands g cs pt of
        (evs, pt1) \<Rightarrow>
          if pt_running pt1 \<and> isOpen (lkPort (cn_link cn))
          then (case sessionTurn cn pt1 of
                  (evs2, cn2, pt2) \<Rightarrow>
                    (case runConnectedSession g turns cn2 pt2 of (evs3, res) \<Rightarrow> (evs @ evs2 @ evs3, res)))
          else (evs, cn, pt1))"

definition newConnection :: "link \<Rightarrow> Connection" where
  "newConnection lk = \<lparr>cn_transport = newTransport True, cn_link = lk, cn_tracker = None, cn_pending = None\<rparr>"

section \<open>Questions to the dongle at start-up\<close>

record IntrospectionSlots =
  sl_version :: "VersionResponse option"
  sl_identity :: "MemoryIdResponse option"
  sl_initData :: "InitDataResponse option"
  sl_nodeProtocolInfo :: "NodeProtocolInfoResponse option"

record Introspection =
  ix_transport :: FrameTransport
  ix_link :: link
  ix_slots :: IntrospectionSlots

text \<open>The handler of the short-lived transport: the first decoder that matches fills its slot.\<close>

definition captureFrame :: "ZwaveDataFrame \<Rightarrow> IntrospectionSlots \<Rightarrow> IntrospectionSlots" where
  "captureFrame frame sl =
     (case decodeVersion frame of
        Some resp \<Rightarrow> sl\<lparr>sl_version := Some resp\<rparr>
      | None \<Rightarrow>
     (case decodeMemoryId frame of
        Some resp \<Rightarrow> sl\<lparr>sl_identity := Some resp\<rparr>
      | None \<Rightarrow>
     (case decodeInitData frame of
        Some resp \<Rightarrow> sl\<lparr>sl_initData := Some resp\<rparr>
      | None \<Rightarrow>
     (case decodeNodeProtocolInfo frame of
        Some resp \<Rightarrow> sl\<lparr>sl_nodeProtocolInfo := Some resp\<rparr>
      | None \<Rightarrow> sl))))"

definition captureNew :: "FrameTransport \<times> link \<Rightarrow> Introspection \<Rightarrow> Introspection" where
  "captureNew = (\<lambda>(t1, lk1) ix.
     \<lparr>ix_transport = t1, ix_link = lk1,
      ix_slots = fold captureFrame (newlyHandled (length (lkTrace (ix_link ix))) lk1) (ix_slots ix)\<rparr>)"

definition pumpIntrospection :: "Introspection \<Rightarrow> Introspection" where
  "pumpIntrospection ix =
     captureNew (snd (pumpOnce IDLE_PUMP_TIMEOUT_MS (ix_transport ix, ix_link ix))) ix"

definition sendIntrospection :: "ZwaveDataFrame \<Rightarrow> Introspection \<Rightarrow> bool \<times> Introspection" where
  "sendIntrospection frame ix =
     (case sendRequest frame (ix_transport ix, ix_link ix) of (ok, st) \<Rightarrow> (ok, captureNew st ix))"

lemma pumpIntrospection_now: "linkNow (ix_link ix) \<le> linkNow (ix_link (pumpIntrospection ix))"
proof -
  obtain got t1 lk1 where p: "pumpOnce IDLE_PUMP_TIMEOUT_MS (ix_transport ix, ix_link ix) = (got, t1, lk1)"
    by (rule prod_cases3)
  show ?thesis using pumpOnce_now [OF p] by (simp add: pumpIntrospection_def captureNew_def p)
qed

lemma pumpIntrospection_later:
  assumes "linkNow (ix_link ix) < linkNow lk1"
  shows "linkNow (ix_link ix) < linkNow (ix_link (pumpIntrospection (ix\<lparr>ix_link := lk1\<rparr>)))"
  using assms pumpIntrospection_now [of "ix\<lparr>ix_link := lk1\<rparr>"] by simp

function awaitSlot :: "(IntrospectionSlots \<Rightarrow> bool) \<Rightarrow> nat \<Rightarrow> Introspection \<Rightarrow> Introspection" where
  "awaitSlot filled deadline ix =
     (if filled (ix_slots ix) then ix
      else (case link_clock (ix_link ix) of
          (now, lk1) \<Rightarrow>
            if \<not> now < deadline then ix\<lparr>ix_link := lk1\<rparr>
            else awaitSlot filled deadline (pumpIntrospection (ix\<lparr>ix_link := lk1\<rparr>))))"
  by pat_completeness auto
termination
proof (relation "measure (\<lambda>(filled, deadline, ix). deadline - linkNow (ix_link ix))")
qed (auto simp: link_clock_def clock_now_def intro!: diff_less_mono2 pumpIntrospection_later)

declare awaitSlot.simps [simp del]

definition awaitResponse ::
  "(IntrospectionSlots \<Rightarrow> bool) \<Rightarrow> ZwaveDataFrame \<Rightarrow> Introspection \<Rightarrow> bool \<times> Introspection" where
  "awaitResponse filled frame ix =
     (case sendIntrospection frame ix of
        (ok, ix1) \<Rightarrow>
          if \<not> ok then (False, ix1)
          else (case link_clock (ix_link ix1) of
              (now, lk2) \<Rightarrow>
                let ix3 = awaitSlot filled (now + INTROSPECTION_TIMEOUT_MS * NS_PER_MS) (ix1\<lparr>ix_link := lk2\<rparr>)
                in (filled (ix_slots ix3), ix3)))"

definition sendAndAwait ::
  "byte \<Rightarrow> (IntrospectionSlots \<Rightarrow> bool) \<Rightarrow> Introspection \<Rightarrow> bool \<times> Introspection" where
  "sendAndAwait cmd filled ix = awaitResponse filled (setHeader REQUEST cmd emptyFrame) ix"

definition fetchNodeProtocolInfo ::
  "byte \<Rightarrow> Introspection \<Rightarrow> NodeProtocolInfoResponse option \<times> Introspection" where
  "fetchNodeProtocolInfo nodeId ix =
     (case awaitResponse (\<lambda>sl. sl_nodeProtocolInfo sl \<noteq> None) (encodeGetNodeProtocolInfo nodeId)
             (ix\<lparr>ix_slots := (ix_slots ix)\<lparr>sl_nodeProtocolInfo := None\<rparr>\<rparr>) of
        (ok, ix1) \<Rightarrow> (if ok then sl_nodeProtocolInfo (ix_slots ix1) else None, ix1))"

fun queryNodes ::
  "byte \<Rightarrow> bytes \<Rightarrow> Introspection \<Rightarrow> (byte \<times> NodeProtocolInfoResponse) list \<times> Introspection" where
  "queryNodes controller [] ix = ([], ix)"
| "queryNodes controller (n # ns) ix =
     (if n = controller then queryNodes controller ns ix
      else (case fetchNodeProtocolInfo n ix of
          (None, ix1) \<Rightarrow> queryNodes controller ns ix1
        | (Some info, ix1) \<Rightarrow>
            (case queryNodes controller ns ix1 of
               (rest, ix2) \<Rightarrow>
                 (if np_basicDeviceType info = 0 \<and> np_genericDeviceType info = 0 \<and> np_specificDeviceType info = 0
                  then rest else (n, info) # rest,
                  ix2))))"

record IntrospectionResult =
  ir_dongleInfo :: "DongleInfo option"
  ir_initData :: "InitDataResponse option"
  ir_nodeProtocolInfo :: "(byte \<times> NodeProtocolInfoResponse) list"

definition noResult :: IntrospectionResult where
  "noResult = \<lparr>ir_dongleInfo = None, ir_initData = None, ir_nodeProtocolInfo = []\<rparr>"

definition SEVERITY_ERROR :: byte where "SEVERITY_ERROR = 3"
definition CODE_DONGLE_OPEN_FAILED :: byte where "CODE_DONGLE_OPEN_FAILED = 0x10"
definition CODE_DONGLE_INTROSPECTION_FAILED :: byte where "CODE_DONGLE_INTROSPECTION_FAILED = 0x11"

definition introspectionFailed :: "string \<Rightarrow> ptEvent" where
  "introspectionFailed what = PubDaemonError SEVERITY_ERROR CODE_DONGLE_INTROSPECTION_FAILED what"

definition newIntrospection :: "link \<Rightarrow> Introspection" where
  "newIntrospection lk =
     \<lparr>ix_transport = newTransport True, ix_link = lk,
      ix_slots = \<lparr>sl_version = None, sl_identity = None, sl_initData = None, sl_nodeProtocolInfo = None\<rparr>\<rparr>"

definition introspectDongle :: "link \<Rightarrow> ptEvent list \<times> IntrospectionResult \<times> link" where
  "introspectDongle lk =
     (case sendAndAwait CMD_GET_VERSION (\<lambda>sl. sl_version sl \<noteq> None) (newIntrospection lk) of
        (False, ix1) \<Rightarrow> ([introspectionFailed ''GET_VERSION introspection failed''], noResult, ix_link ix1)
      | (True, ix1) \<Rightarrow>
     (case sendAndAwait CMD_MEMORY_GET_ID (\<lambda>sl. sl_identity sl \<noteq> None) ix1 of
        (False, ix2) \<Rightarrow> ([introspectionFailed ''MEMORY_GET_ID introspection failed''], noResult, ix_link ix2)
      | (True, ix2) \<Rightarrow>
     (case sendAndAwait CMD_SERIAL_API_GET_INIT_DATA (\<lambda>sl. sl_initData sl \<noteq> None) ix2 of
        (_, ix3) \<Rightarrow>
     (case (sl_version (ix_slots ix3), sl_identity (ix_slots ix3)) of
        (Some version, Some identity) \<Rightarrow>
          let info = \<lparr>di_libraryVersion = vr_version version, di_libraryType = vr_libraryType version,
                      di_homeId = mi_homeId identity, di_controllerNodeId = mi_controllerNodeId identity\<rparr>
          in (case sl_initData (ix_slots ix3) of
                None \<Rightarrow> ([], noResult\<lparr>ir_dongleInfo := Some info\<rparr>, ix_link ix3)
              | Some initData \<Rightarrow>
                  (case queryNodes (mi_controllerNodeId identity) (id_nodeIds initData) ix3 of
                     (npi, ix4) \<Rightarrow>
                       ([], \<lparr>ir_dongleInfo = Some info, ir_initData = Some initData, ir_nodeProtocolInfo = npi\<rparr>,
                        ix_link ix4)))
      | _ \<Rightarrow> ([], noResult, ix_link ix3)))))"

section \<open>The body of the thread's loop\<close>

definition seedNodes :: "bytes \<Rightarrow> Protocol \<Rightarrow> ptEvent list \<times> Protocol" where
  "seedNodes ns pt = fold (\<lambda>n (evs, p). case callRegistry (nr_seed n) p of (e, p1) \<Rightarrow> (evs @ e, p1)) ns ([], pt)"

definition overlayNodes ::
  "(byte \<times> NodeProtocolInfoResponse) list \<Rightarrow> Protocol \<Rightarrow> ptEvent list \<times> Protocol" where
  "overlayNodes npi pt =
     fold (\<lambda>(n, i) (evs, p).
       case callRegistry (nr_updateDeviceClass n (np_basicDeviceType i) (np_genericDeviceType i)
              (np_specificDeviceType i)) p of (e, p1) \<Rightarrow> (evs @ e, p1)) npi ([], pt)"

definition SEVERITY_INFO :: byte where "SEVERITY_INFO = 1"
definition CODE_NONE :: byte where "CODE_NONE = 0x00"

definition PubNoError :: ptEvent where "PubNoError = PubDaemonError SEVERITY_INFO CODE_NONE ''''"

text \<open>
  What the thread does with the answers: it clears the last error, binds the stores to the network of
  the dongle, and records the nodes the dongle knows.
\<close>

definition adoptDongle :: "IntrospectionResult \<Rightarrow> Protocol \<Rightarrow> ptEvent list \<times> Protocol" where
  "adoptDongle res pt =
     (case ir_dongleInfo res of
        None \<Rightarrow> ([], pt)
      | Some info \<Rightarrow>
          (case callRegistry (nr_setHomeId (di_homeId info))
                  (pt\<lparr>pt_controllerNodeId := Some (di_controllerNodeId info)\<rparr>) of
             (evs1, pt1) \<Rightarrow>
          (case ir_initData res of
             None \<Rightarrow> (PubNoError # evs1 @ [BindStores (di_homeId info), PubDongleInfo info], pt1)
           | Some init \<Rightarrow>
               (case seedNodes (id_nodeIds init) pt1 of
                  (evs2, pt2) \<Rightarrow>
               (case overlayNodes (ir_nodeProtocolInfo res) pt2 of
                  (evs3, pt3) \<Rightarrow>
                    (PubNoError # evs1 @ [BindStores (di_homeId info), PubDongleInfo info] @ evs2 @ evs3
                       @ [PubInitData init], pt3))))))"

definition resetSession :: "Protocol \<Rightarrow> Protocol" where
  "resetSession pt =
     (clearRequests pt)\<lparr>pt_activeFailedNodeRemoval := None, pt_activeRequestNodeInfo := None,
                         pt_pendingInclusion := None\<rparr>"

text \<open>
  One turn of the loop of \<open>zwaveCommunicationThread\<close>, from a device path on. \<open>newFd\<close> and
  \<open>termiosOk\<close> are the answers of the operating system to the opening of the port.
\<close>

definition connectTurn ::
  "genCodecs \<Rightarrow> busCommand list list \<Rightarrow> int \<Rightarrow> bool \<Rightarrow> link \<Rightarrow> Protocol \<Rightarrow> ptEvent list \<times> link \<times> Protocol" where
  "connectTurn g turns newFd termiosOk lk pt =
     (case pt_path pt of
        None \<Rightarrow> ([], lk, pt)
      | Some path \<Rightarrow>
          if \<not> pt_running pt \<or> path = [] then ([], lk, pt)
          else (case port_open path newFd termiosOk closedPort of
              (False, port) \<Rightarrow>
                ([PubDaemonError SEVERITY_ERROR CODE_DONGLE_OPEN_FAILED (''failed to open serial port '' @ path)],
                 link_sleep 1000 (lk\<lparr>lkPort := port\<rparr>), pt)
            | (True, port) \<Rightarrow>
                (case introspectDongle (lk\<lparr>lkPort := port\<rparr>) of
                   (evs1, res, lk1) \<Rightarrow>
                (case adoptDongle res pt of
                   (evs2, pt1) \<Rightarrow>
                (case runConnectedSession g turns (newConnection lk1) (resetSession pt1) of
                   (evs3, cn, pt2) \<Rightarrow> (evs1 @ evs2 @ evs3, cn_link cn, pt2))))))"

section \<open>What a session puts on the wire\<close>

fun encodeRequest :: "Request \<Rightarrow> ZwaveDataFrame" where
  "encodeRequest (ReqAddNode q) = encodeAddNode q"
| "encodeRequest (ReqRemoveNode q) = encodeRemoveNode q"
| "encodeRequest (ReqRemoveFailedNode q) = encodeRemoveFailedNode q"
| "encodeRequest (ReqRequestNodeInfo q) = encodeRequestNodeInfo q"
| "encodeRequest (ReqSendData q) = encodeSendData q"
| "encodeRequest (ReqSendDataMulti q) = encodeSendDataMulti q"

text \<open>The part of a link that only transmissions change: the frames written and the port.\<close>

definition wireView :: "link \<Rightarrow> bytes list \<times> SerialPort" where
  "wireView lk = (sentFrames (lkTrace lk), lkPort lk)"

lemma wireView_os [simp]: "wireView (lk\<lparr>lkOs := s\<rparr>) = wireView lk"
  by (simp add: wireView_def)

lemma wireView_sleep [simp]: "wireView (link_sleep ms lk) = wireView lk"
  by (simp add: wireView_def link_sleep_def trace_def)

lemma handleParsed_view: "handleParsedDataFrame (t, lk) = (t', lk') \<Longrightarrow> wireView lk' = wireView lk"
  by (auto simp: handleParsedDataFrame_def sendAck_def trace_def Let_def wireView_def split: if_splits prod.splits)

lemma pumpBytes_view: "pumpBytes bs (t, lk) = (t', lk') \<Longrightarrow> wireView lk' = wireView lk"
proof (induction bs arbitrary: t lk)
  case (Cons b bs)
  obtain e t1 where f: "feed b t = (e, t1)" by (rule prod.exhaust)
  obtain t2 lk2 where h: "handleParsedDataFrame (t1, lk) = (t2, lk2)" by (rule prod.exhaust)
  show ?case
  proof (cases "e = EvDataFrame")
    case True
    then have "pumpBytes bs (t2, lk2) = (t', lk')" using Cons.prems f h by simp
    from Cons.IH [OF this] handleParsed_view [OF h] show ?thesis by simp
  next
    case False
    then have "pumpBytes bs (t1, lk) = (t', lk')" using Cons.prems f by (cases e) simp_all
    from Cons.IH [OF this] show ?thesis .
  qed
qed simp

lemma pumpBytes_trace: "pumpBytes bs (t, lk) = (t', lk') \<Longrightarrow> \<exists>new. lkTrace lk' = lkTrace lk @ new"
proof (induction bs arbitrary: t lk)
  case (Cons b bs)
  obtain e t1 where f: "feed b t = (e, t1)" by (rule prod.exhaust)
  obtain t2 lk2 where h: "handleParsedDataFrame (t1, lk) = (t2, lk2)" by (rule prod.exhaust)
  then have "\<exists>new. lkTrace lk2 = lkTrace lk @ new"
    by (auto simp: handleParsedDataFrame_def sendAck_def trace_def Let_def split: if_splits prod.splits)
  moreover have "pumpBytes bs (t2, lk2) = (t', lk') \<or> pumpBytes bs (t1, lk) = (t', lk')"
    using Cons.prems f h by (cases e) simp_all
  ultimately show ?case using Cons.IH by fastforce
qed simp

lemma pumpOnce_view: "pumpOnce ms (t, lk) = (got, t', lk') \<Longrightarrow> wireView lk' = wireView lk"
  by (auto simp: pumpOnce_def link_read_def split: prod.splits if_splits dest!: pumpBytes_view)

lemma link_sleep_port [simp]: "lkPort (link_sleep ms lk) = lkPort lk"
  by (simp add: link_sleep_def trace_def)

lemma scanBytes_port: "scanBytes bs (t, lk) = (r, t', lk') \<Longrightarrow> lkPort lk' = lkPort lk"
proof (induction bs arbitrary: t lk)
  case (Cons b bs)
  obtain e t1 where f: "feed b t = (e, t1)" by (rule prod.exhaust)
  obtain t2 lk2 where h: "handleParsedDataFrame (t1, lk) = (t2, lk2)" by (rule prod.exhaust)
  from Cons.prems f h consider "lk' = lk" | "scanBytes bs (t2, lk2) = (r, t', lk')" | "scanBytes bs (t1, lk) = (r, t', lk')"
    by (cases e) simp_all
  then show ?case
    using Cons.IH handleParsed_view [OF h] by cases (simp_all add: wireView_def)
qed simp

lemma awaitAck_port: "awaitAck deadline t lk = (r, t', lk') \<Longrightarrow> lkPort lk' = lkPort lk"
proof (induction deadline t lk rule: awaitAck.induct)
  case (1 deadline t lk)
  obtain wait lk1 where w: "remainingMs deadline lk = (wait, lk1)" by fastforce
  obtain got d lk2 where g: "link_read wait lk1 = (got, d, lk2)" by (rule prod_cases3)
  obtain o1 t1 lk3 where sc: "scanBytes d (t, lk2) = (o1, t1, lk3)" by (rule prod_cases3)
  have "lkPort lk1 = lkPort lk" "lkPort lk2 = lkPort lk1"
    using w g by (auto simp: remainingMs_def link_read_def clock_now_def split: prod.splits)
  then show ?case
    using 1 w g sc scanBytes_port [OF sc]
    by (auto simp: awaitAck.simps [of deadline t lk] split: if_splits scanOutcome.splits)
qed

lemma prepareAttempt_port: "prepareAttempt attempt t lk = (t0, lk0) \<Longrightarrow> lkPort lk0 = lkPort lk"
  by (auto simp: prepareAttempt_def link_flush_def trace_def split: if_splits)

lemma sendAttempts_turn_port:
  assumes "sendAttempts attempt bs t lk = (r, t', lk')" and "attempt < MAX_SEND_RETRIES"
  shows "\<exists>t1 lk1. lkPort lk1 = lkPort lk \<and>
           (lk' = lk1 \<or> sendAttempts (attempt + 1) bs t1 lk1 = (r, t', lk'))"
proof -
  obtain t0 lk0 where p: "prepareAttempt attempt t lk = (t0, lk0)" by fastforce
  obtain ok os1 where w: "writeAll (lkPort lk0) bs (lkOs lk0) = (ok, os1)" by fastforce
  define lk1 where "lk1 = trace (SentFrame bs ok) (lk0\<lparr>lkOs := os1\<rparr>)"
  obtain now os2 where c: "clock_now (lkOs lk1) = (now, os2)" by fastforce
  obtain a t2 lk2 where aw:
    "awaitAck (now + ACK_TIMEOUT_MS * NS_PER_MS) t0 (lk1\<lparr>lkOs := os2\<rparr>) = (a, t2, lk2)"
    by (rule prod_cases3)
  have same: "lkPort lk1 = lkPort lk" "lkPort lk2 = lkPort lk"
    using prepareAttempt_port [OF p] awaitAck_port [OF aw] by (simp_all add: lk1_def trace_def)
  note turn = assms(1) [unfolded sendAttempts.simps [of attempt] p prod.case w Let_def,
      folded lk1_def, unfolded c prod.case aw]
  show ?thesis
    using turn assms(2) same
    by (intro exI [of _ "if ok then t2 else t0"] exI [of _ "if ok then lk2 else lk1"])
      (auto split: if_splits bool.splits)
qed

lemma sendAttempts_port:
  "sendAttempts attempt bs t lk = (r, t', lk') \<Longrightarrow> attempt \<le> MAX_SEND_RETRIES \<Longrightarrow> lkPort lk' = lkPort lk"
proof (induction "MAX_SEND_RETRIES - attempt" arbitrary: attempt t lk)
  case 0
  then have "attempt = MAX_SEND_RETRIES" by simp
  with 0 show ?case by (simp add: sendAttempts_exhausted)
next
  case (Suc n)
  then have less: "attempt < MAX_SEND_RETRIES" and n: "n = MAX_SEND_RETRIES - (attempt + 1)" by simp_all
  obtain t1 lk1 where "lkPort lk1 = lkPort lk"
    "lk' = lk1 \<or> sendAttempts (attempt + 1) bs t1 lk1 = (r, t', lk')"
    using sendAttempts_turn_port [OF Suc.prems(1) less] by blast
  with Suc.hyps(1) [OF n] less show ?case by fastforce
qed

lemma sendRequest_wire:
  assumes "sendRequest f (t, lk) = (ok, t', lk')"
  shows "\<exists>k. 1 \<le> k \<and> k \<le> MAX_SEND_RETRIES \<and> wireView lk' = (fst (wireView lk) @ replicate k (toBuffer f), lkPort lk)"
proof -
  have s: "sendAttempts 0 (toBuffer f) t lk = (ok, t', lk')"
    using assms by (simp add: sendRequest_def toBuffer_def)
  obtain k where "k \<le> MAX_SEND_RETRIES" "ok \<longrightarrow> 0 < k" "\<not> ok \<longrightarrow> k = MAX_SEND_RETRIES"
    "sendHistory lk' = (fst (sendHistory lk) @ replicate k (toBuffer f), snd (sendHistory lk) @ map backoffMs [1 ..< k])"
    using sendAttempts_history [OF s] by auto
  then show ?thesis
    using sendAttempts_port [OF s le0]
    by (intro exI [of _ k]) (cases ok; simp add: sendHistory_def wireView_def MAX_SEND_RETRIES_def)
qed

text \<open>The part of the thread's state that frames from the dongle leave alone.\<close>

definition busView :: "Protocol \<Rightarrow> Request list \<times> bool \<times> string option" where
  "busView pt = (pt_queue pt, pt_running pt, pt_path pt)"

lemma callRegistry_view: "callRegistry f pt = (evs, pt') \<Longrightarrow> busView pt' = busView pt"
  by (auto simp: callRegistry_def busView_def split: prod.splits)

lemma handleNodeCallback_view: "handleNodeCallback cb tr pt = (evs, tr', pt') \<Longrightarrow> busView pt' = busView pt"
  by (auto simp: handleNodeCallback_def registerNodeCallback_def finishNodeCallback_def busView_def
      split: prod.splits if_splits dest!: callRegistry_view)

lemma handleRemoveFailed_view: "handleRemoveFailedNodeFrame f pt = Some (evs, pt') \<Longrightarrow> busView pt' = busView pt"
  by (auto simp: handleRemoveFailedNodeFrame_def busView_def Let_def
      split: prod.splits if_splits option.splits dest!: callRegistry_view)

lemma handleUpdate_view: "handleApplicationUpdateFrame f pt = Some (evs, pt') \<Longrightarrow> busView pt' = busView pt"
  by (auto simp: handleApplicationUpdateFrame_def busView_def
      split: prod.splits if_splits option.splits dest!: callRegistry_view)

lemma handleInfoResponse_view: "handleRequestNodeInfoResponse f pt = Some (evs, pt') \<Longrightarrow> busView pt' = busView pt"
  by (auto simp: handleRequestNodeInfoResponse_def busView_def Let_def split: option.splits)

lemma handleIncomingFrame_view: "handleIncomingFrame f tr pt = (evs, tr', pt') \<Longrightarrow> busView pt' = busView pt"
  unfolding handleIncomingFrame_def
  by (auto split: option.splits prod.splits
      dest: handleNodeCallback_view handleRemoveFailed_view handleUpdate_view handleInfoResponse_view)

lemma onFrames_view:
  "onFrames fs cn pt = (evs, cn', pt') \<Longrightarrow>
   busView pt' = busView pt \<and> cn_link cn' = cn_link cn \<and> (cn_pending cn = None \<longrightarrow> cn_pending cn' = None)"
proof (induction fs arbitrary: cn pt evs)
  case (Cons f fs)
  obtain e1 tr pt1 where h: "handleIncomingFrame f (cn_tracker cn) pt = (e1, tr, pt1)" by (rule prod_cases3)
  define cn1 where "cn1 = cn\<lparr>cn_tracker := tr, cn_pending := clearGate f (cn_pending cn)\<rparr>"
  obtain e2 cn2 pt2 where r: "onFrames fs cn1 pt1 = (e2, cn2, pt2)" by (rule prod_cases3)
  have "cn' = cn2" "pt' = pt2" using Cons.prems h r by (simp_all add: onFrame_def cn1_def)
  with r have "onFrames fs cn1 pt1 = (e2, cn', pt')" by simp
  from Cons.IH [OF this] handleIncomingFrame_view [OF h] show ?case by (simp add: cn1_def clearGate_def)
qed simp

text \<open>Waiting neither writes a request nor touches the queue.\<close>

definition quietStep :: "Connection \<Rightarrow> Protocol \<Rightarrow> Connection \<Rightarrow> Protocol \<Rightarrow> bool" where
  "quietStep cn pt cn' pt' \<longleftrightarrow>
     wireView (cn_link cn') = wireView (cn_link cn) \<and> busView pt' = busView pt \<and>
     (cn_pending cn = None \<longrightarrow> cn_pending cn' = None)"

lemma pumpConnection_quiet: "pumpConnection ms cn pt = (evs, cn', pt') \<Longrightarrow> quietStep cn pt cn' pt'"
  unfolding pumpConnection_def quietStep_def
  by (auto split: prod.splits dest!: onFrames_view pumpOnce_view)

lemma awaitCallback_quiet:
  "awaitCallback deadline cn pt = (evs, cn', pt') \<Longrightarrow> quietStep cn pt cn' pt'"
proof (induction deadline cn pt arbitrary: evs rule: awaitCallback.induct)
  case (1 deadline cn pt)
  obtain now lk1 where c: "link_clock (cn_link cn) = (now, lk1)" by (rule prod.exhaust)
  then have same: "wireView lk1 = wireView (cn_link cn)" by (simp add: link_clock_now)
  obtain e cn2 pt2 where p: "pumpConnection IDLE_PUMP_TIMEOUT_MS (cn\<lparr>cn_link := lk1\<rparr>) pt = (e, cn2, pt2)"
    by (rule prod_cases3)
  obtain e3 cn3 pt3 where r: "awaitCallback deadline cn2 pt2 = (e3, cn3, pt3)" by (rule prod_cases3)
  have res: "(if cn_pending cn = None then ([], cn, pt)
      else if \<not> now < deadline \<or> \<not> pt_running pt then ([], cn\<lparr>cn_link := lk1\<rparr>, pt)
      else (e @ e3, cn3, pt3)) = (evs, cn', pt')"
    using 1(2) unfolding awaitCallback.simps [of deadline cn] c prod.case p r .
  show ?case
  proof (cases "cn_pending cn = None \<or> \<not> now < deadline \<or> \<not> pt_running pt")
    case True
    then show ?thesis using res same by (auto simp: quietStep_def split: if_splits)
  next
    case False
    then have go: "cn_pending cn \<noteq> None" "\<not> (\<not> now < deadline \<or> \<not> pt_running pt)" by auto
    have "quietStep cn2 pt2 cn' pt'"
      by (rule 1(1) [OF go(1) c [symmetric] go(2) p [symmetric] refl]) (use r res go in simp)
    then show ?thesis
      using pumpConnection_quiet [OF p] same go(1) by (auto simp: quietStep_def)
  qed
qed

text \<open>A transmission: the frame goes out once to three times, and nothing is left pending.\<close>

definition sentOnce :: "ZwaveDataFrame \<Rightarrow> Connection \<Rightarrow> Protocol \<Rightarrow> Connection \<Rightarrow> Protocol \<Rightarrow> bool" where
  "sentOnce frame cn pt cn' pt' \<longleftrightarrow>
     (\<exists>k. 1 \<le> k \<and> k \<le> MAX_SEND_RETRIES \<and>
        wireView (cn_link cn') =
          (fst (wireView (cn_link cn)) @ replicate k (toBuffer frame), lkPort (cn_link cn))) \<and>
     busView pt' = busView pt \<and> (cn_pending cn = None \<longrightarrow> cn_pending cn' = None)"

lemma sendConnection_sent:
  assumes "sendConnection frame cn pt = (ok, evs, cn', pt')"
  shows "sentOnce frame cn pt cn' pt'"
proof -
  obtain r t1 lk1 where s: "sendRequest frame (cn_transport cn, cn_link cn) = (r, t1, lk1)"
    by (rule prod_cases3)
  define cn1 where "cn1 = cn\<lparr>cn_transport := t1, cn_link := lk1\<rparr>"
  obtain e2 cn2 pt2 where o: "onFrames (newlyHandled (length (lkTrace (cn_link cn))) lk1) cn1 pt = (e2, cn2, pt2)"
    by (rule prod_cases3)
  have "cn' = cn2" "pt' = pt2" using assms s o by (simp_all add: sendConnection_def cn1_def)
  then show ?thesis
    using sendRequest_wire [OF s] onFrames_view [OF o] by (auto simp: sentOnce_def cn1_def)
qed

lemma transmit_sent:
  assumes "transmit frame callbackId cn pt = (evs, cn', pt')"
  shows "sentOnce frame cn pt cn' pt'"
proof -
  obtain ok e1 cn1 pt1 where s: "sendConnection frame cn pt = (ok, e1, cn1, pt1)" by (rule prod_cases4)
  obtain now lk2 where c: "link_clock (cn_link cn1) = (now, lk2)" by (rule prod.exhaust)
  obtain e3 cn3 pt3 where w: "awaitCallback (now + SEND_DATA_CALLBACK_TIMEOUT_MS * NS_PER_MS)
      (cn1\<lparr>cn_pending := Some callbackId, cn_link := lk2\<rparr>) pt1 = (e3, cn3, pt3)" by (rule prod_cases3)
  have "wireView lk2 = wireView (cn_link cn1)" using c by (simp add: link_clock_now)
  with sendConnection_sent [OF s] awaitCallback_quiet [OF w] assms show ?thesis
    by (auto simp: transmit_def s c w sentOnce_def quietStep_def split: if_splits)
qed

lemma dispatchRequest_sent:
  assumes "dispatchRequest request cn pt = (evs, cn', pt')"
  shows "sentOnce (encodeRequest request) cn pt cn' pt'"
proof (cases request)
  case (ReqAddNode q)
  with assms show ?thesis
    by (auto simp: dispatchRequest_def sentOnce_def split: prod.splits if_splits dest!: sendConnection_sent)
next
  case (ReqRemoveNode q)
  with assms show ?thesis
    by (auto simp: dispatchRequest_def sentOnce_def split: prod.splits if_splits dest!: sendConnection_sent)
next
  case (ReqRemoveFailedNode q)
  with assms show ?thesis
    by (auto simp: dispatchRequest_def sentOnce_def busView_def
        split: prod.splits if_splits dest!: sendConnection_sent)
next
  case (ReqRequestNodeInfo q)
  with assms show ?thesis
    by (auto simp: dispatchRequest_def sentOnce_def busView_def
        split: prod.splits if_splits dest!: sendConnection_sent)
qed (use assms transmit_sent in \<open>auto simp: dispatchRequest_def\<close>)

section \<open>Order and progress\<close>

lemma busCommands_queue:
  "busCommands g cs pt = (evs, pt') \<Longrightarrow>
   \<exists>added. pt_queue pt' = pt_queue pt @ added \<and> length added \<le> length cs \<and> pt_running pt' = pt_running pt"
proof (induction cs arbitrary: pt evs)
  case (Cons c cs)
  obtain e1 pt1 where c: "onBusCommand g c pt = (e1, pt1)" by (rule prod.exhaust)
  obtain e2 pt2 where r: "busCommands g cs pt1 = (e2, pt2)" by (rule prod.exhaust)
  have "pt' = pt2" using Cons.prems c r by simp
  with Cons.IH [of pt1 e2] r onBusCommand_queue [OF c] show ?case by fastforce
qed simp

text \<open>The requests the commands of a run of the session append to the queue.\<close>

fun submissions :: "genCodecs \<Rightarrow> busCommand list list \<Rightarrow> Connection \<Rightarrow> Protocol \<Rightarrow> Request list" where
  "submissions g [] cn pt = []"
| "submissions g (cs # turns) cn pt =
     (case busCommands g cs pt of
        (_, pt1) \<Rightarrow>
          drop (length (pt_queue pt)) (pt_queue pt1) @
          (if pt_running pt1 \<and> isOpen (lkPort (cn_link cn))
           then (case sessionTurn cn pt1 of (_, cn2, pt2) \<Rightarrow> submissions g turns cn2 pt2)
           else []))"

text \<open>The wire image of requests, each written as often as \<open>ks\<close> says.\<close>

definition onWire :: "nat list \<Rightarrow> Request list \<Rightarrow> bytes list" where
  "onWire ks reqs = concat (map2 (\<lambda>k r. replicate k (toBuffer (encodeRequest r))) ks reqs)"

definition tries :: "nat list \<Rightarrow> Request list \<Rightarrow> bool" where
  "tries ks reqs \<longleftrightarrow> length ks = length reqs \<and> (\<forall>k \<in> set ks. 1 \<le> k \<and> k \<le> MAX_SEND_RETRIES)"

lemma onWire_simps [simp]:
  "onWire [] reqs = []"
  "onWire (k # ks) (r # reqs) = replicate k (toBuffer (encodeRequest r)) @ onWire ks reqs"
  by (simp_all add: onWire_def)

lemma sessionTurn_step:
  assumes "sessionTurn cn pt = (evs, cn', pt')" and "cn_pending cn = None"
  obtains (dispatched) r k where "pt_queue pt = r # pt_queue pt'" "1 \<le> k" "k \<le> MAX_SEND_RETRIES"
      "sentFrames (lkTrace (cn_link cn')) =
         sentFrames (lkTrace (cn_link cn)) @ replicate k (toBuffer (encodeRequest r))"
      "lkPort (cn_link cn') = lkPort (cn_link cn)" "pt_running pt' = pt_running pt" "pt_path pt' = pt_path pt"
      "cn_pending cn' = None"
    | (idle) "pt_queue pt' = pt_queue pt" "pt_path pt = None \<or> pt_queue pt = [] \<and> lkPort (cn_link cn') = lkPort (cn_link cn)"
      "sentFrames (lkTrace (cn_link cn')) = sentFrames (lkTrace (cn_link cn))"
      "pt_running pt' = pt_running pt" "pt_path pt' = pt_path pt" "cn_pending cn' = None"
proof (cases "pt_path pt = None")
  case True
  with assms show thesis by (intro idle) (auto simp: sessionTurn_def)
next
  case path: False
  show thesis
  proof (cases "pt_queue pt")
    case Nil
    then have "pumpConnection IDLE_PUMP_TIMEOUT_MS cn pt = (evs, cn', pt')"
      using assms path by (simp add: sessionTurn_def popRequest_def)
    from pumpConnection_quiet [OF this] Nil assms(2) show thesis
      by (intro idle) (simp_all add: quietStep_def wireView_def busView_def)
  next
    case (Cons r rest)
    then have d: "dispatchRequest r cn (pt\<lparr>pt_queue := rest\<rparr>) = (evs, cn', pt')"
      using assms path by (simp add: sessionTurn_def popRequest_def)
    from dispatchRequest_sent [OF this] obtain k where "1 \<le> k" "k \<le> MAX_SEND_RETRIES"
      "wireView (cn_link cn') =
        (fst (wireView (cn_link cn)) @ replicate k (toBuffer (encodeRequest r)), lkPort (cn_link cn))"
      unfolding sentOnce_def by blast
    with dispatchRequest_sent [OF d] Cons assms(2) show thesis
      by (intro dispatched [of r k]) (simp_all add: sentOnce_def wireView_def busView_def)
  qed
qed

lemma run_fifo:
  "runConnectedSession g turns cn pt = (evs, cn', pt') \<Longrightarrow> cn_pending cn = None \<Longrightarrow>
   \<exists>reqs ks. tries ks reqs \<and>
     sentFrames (lkTrace (cn_link cn')) = sentFrames (lkTrace (cn_link cn)) @ onWire ks reqs \<and>
     reqs @ pt_queue pt' = pt_queue pt @ submissions g turns cn pt \<and> cn_pending cn' = None"
proof (induction turns arbitrary: cn pt evs)
  case Nil
  then show ?case by (intro exI [of _ "[]"]) (simp add: tries_def)
next
  case (Cons cs turns)
  obtain e1 pt1 where b: "busCommands g cs pt = (e1, pt1)" by (rule prod.exhaust)
  then obtain added where added: "pt_queue pt1 = pt_queue pt @ added" using busCommands_queue by blast
  obtain e2 cn2 pt2 where t: "sessionTurn cn pt1 = (e2, cn2, pt2)" by (rule prod_cases3)
  obtain e3 cn3 pt3 where r: "runConnectedSession g turns cn2 pt2 = (e3, cn3, pt3)" by (rule prod_cases3)
  show ?case
  proof (cases "pt_running pt1 \<and> isOpen (lkPort (cn_link cn))")
    case False
    then show ?thesis
      using Cons.prems b added by (intro exI [of _ "[]"]) (auto simp: tries_def)
  next
    case True
    then have same: "cn' = cn3" "pt' = pt3" using Cons.prems b t r by simp_all
    have subs: "submissions g (cs # turns) cn pt = added @ submissions g turns cn2 pt2"
      using True b t added by simp
    have pend: "cn_pending cn2 = None" by (rule sessionTurn_step [OF t Cons.prems(2)])
    have r': "runConnectedSession g turns cn2 pt2 = (e3, cn', pt')" using r same by simp
    obtain reqs ks where ih: "tries ks reqs"
      "sentFrames (lkTrace (cn_link cn')) = sentFrames (lkTrace (cn_link cn2)) @ onWire ks reqs"
      "reqs @ pt_queue pt' = pt_queue pt2 @ submissions g turns cn2 pt2" "cn_pending cn' = None"
      using Cons.IH [OF r' pend] by blast
    show ?thesis
      using t Cons.prems(2)
    proof (cases rule: sessionTurn_step)
      case (dispatched q k)
      then show ?thesis
        using ih added subs by (intro exI [of _ "q # reqs"] exI [of _ "k # ks"]) (auto simp: tries_def)
    next
      case idle
      then show ?thesis using ih added subs by (intro exI [of _ reqs] exI [of _ ks]) auto
    qed
  qed
qed

text \<open>
  C3: requests go out first in, first out: in any run of a session, whatever commands arrive
  meanwhile and whatever the dongle answers, the frames written are the encodings of the requests
  taken from the queue, in the order they entered it, each written once to three times before the
  next; the requests not taken yet are still in the queue, in order, and no transmission is pending
  between two turns.
\<close>

theorem session_fifo:
  assumes "runConnectedSession g turns cn pt = (evs, cn', pt')" and "cn_pending cn = None"
  shows "\<exists>reqs ks. length ks = length reqs \<and> (\<forall>k \<in> set ks. 1 \<le> k \<and> k \<le> 3) \<and>
     sentFrames (lkTrace (cn_link cn')) = sentFrames (lkTrace (cn_link cn)) @
       concat (map2 (\<lambda>k r. replicate k (toBuffer (encodeRequest r))) ks reqs) \<and>
     reqs @ pt_queue pt' = pt_queue pt @ submissions g turns cn pt \<and> cn_pending cn' = None"
  using run_fifo [OF assms] unfolding tries_def onWire_def MAX_SEND_RETRIES_def by blast

lemma run_drains:
  "runConnectedSession g (replicate n []) cn pt = (evs, cn', pt') \<Longrightarrow> cn_pending cn = None \<Longrightarrow>
   pt_running pt \<Longrightarrow> pt_path pt \<noteq> None \<Longrightarrow> isOpen (lkPort (cn_link cn)) \<Longrightarrow>
   length (pt_queue pt') = length (pt_queue pt) - n"
proof (induction n arbitrary: cn pt evs)
  case (Suc n)
  obtain e2 cn2 pt2 where t: "sessionTurn cn pt = (e2, cn2, pt2)" by (rule prod_cases3)
  obtain e3 cn3 pt3 where r: "runConnectedSession g (replicate n []) cn2 pt2 = (e3, cn3, pt3)"
    by (rule prod_cases3)
  have r': "runConnectedSession g (replicate n []) cn2 pt2 = (e3, cn', pt')"
    using Suc.prems t r by simp
  show ?case
    using t Suc.prems(2)
  proof (cases rule: sessionTurn_step)
    case (dispatched q k)
    then have "length (pt_queue pt') = length (pt_queue pt2) - n"
      using Suc.prems by (intro Suc.IH [OF r']) simp_all
    with dispatched show ?thesis by simp
  next
    case idle
    then have "length (pt_queue pt') = length (pt_queue pt2) - n"
      using Suc.prems by (intro Suc.IH [OF r']) auto
    with idle Suc.prems show ?thesis by auto
  qed
qed simp

lemma submissions_quiet: "submissions g (replicate n []) cn pt = []"
  by (induction n arbitrary: cn pt) (auto split: prod.splits)


theorem session_fifo_witness:
  "\<exists>reqs. reqs @ pt_queue (snd (snd (runConnectedSession demoCodecs [[RequestNodeInfoCommand 5 9]]
        (newConnection (demoLink [] [] [])) demoProtocol))) =
     [ReqRequestNodeInfo \<lparr>ri_nodeId = 5, ri_sessionId = 9\<rparr>]"
proof -
  let ?turns = "[[RequestNodeInfoCommand 5 9]]" and ?cn = "newConnection (demoLink [] [] [])"
  obtain evs cn' pt' where r: "runConnectedSession demoCodecs ?turns ?cn demoProtocol = (evs, cn', pt')"
    by (rule prod_cases3)
  have "submissions demoCodecs ?turns ?cn demoProtocol = [ReqRequestNodeInfo \<lparr>ri_nodeId = 5, ri_sessionId = 9\<rparr>]"
    by (simp add: onRequestNodeInfoCommand_def pushRequest_def demoProtocol_def split: prod.splits)
  with session_fifo [OF r] r show ?thesis by (auto simp: newConnection_def demoProtocol_def)
qed


section \<open>Application commands reach the bus\<close>

fun publishedCommands :: "ptEvent list \<Rightarrow> ApplicationCommand list" where
  "publishedCommands [] = []"
| "publishedCommands (PubApplicationCommand c # evs) = c # publishedCommands evs"
| "publishedCommands (_ # evs) = publishedCommands evs"

lemma publishedCommands_append [simp]:
  "publishedCommands (xs @ ys) = publishedCommands xs @ publishedCommands ys"
  by (induction xs rule: publishedCommands.induct) simp_all

lemma callRegistry_commands: "callRegistry f pt = (evs, pt') \<Longrightarrow> publishedCommands evs = []"
  by (auto simp: callRegistry_def split: prod.splits option.splits)

lemma handleNodeCallback_commands: "handleNodeCallback cb tr pt = (evs, tr', pt') \<Longrightarrow> publishedCommands evs = []"
  by (auto simp: handleNodeCallback_def registerNodeCallback_def finishNodeCallback_def publishNodeStatus_def
      split: prod.splits if_splits option.splits dest!: callRegistry_commands)

lemma handlers_commands:
  "handleRemoveFailedNodeFrame f pt = Some (evs, pt') \<Longrightarrow> publishedCommands evs = []"
  "handleRequestNodeInfoResponse f pt = Some (evs, pt') \<Longrightarrow> publishedCommands evs = []"
  "handleApplicationUpdateFrame f pt = Some (evs, pt') \<Longrightarrow> publishedCommands evs = []"
  by (auto simp: handleRemoveFailedNodeFrame_def handleRequestNodeInfoResponse_def handleApplicationUpdateFrame_def
      Let_def split: prod.splits if_splits option.splits dest!: callRegistry_commands)

lemma handleIncomingFrame_commands:
  assumes "handleIncomingFrame f tr pt = (evs, tr', pt')"
  shows "publishedCommands evs = (case decodeApplicationCommand f of None \<Rightarrow> [] | Some c \<Rightarrow> [c])"
proof (cases "decodeApplicationCommand f")
  case (Some c)
  then have "commandId f = CMD_APPLICATION_COMMAND" using appCommand.accepts_kind by blast
  then have "decodeSendDataCallback f = None" "decodeSendDataMultiCallback f = None"
    using sendData_cb.rejects_other_kind [of f] sendDataMulti_cb.rejects_other_kind [of f]
    by (simp_all add: cmd_defs)
  with Some assms show ?thesis by (auto simp: handleIncomingFrame_def)
next
  case None
  with assms show ?thesis
    unfolding handleIncomingFrame_def
    by (auto split: option.splits prod.splits dest: handlers_commands handleNodeCallback_commands)
qed

lemma onFrames_commands:
  "onFrames fs cn pt = (evs, cn', pt') \<Longrightarrow> publishedCommands evs = List.map_filter decodeApplicationCommand fs"
proof (induction fs arbitrary: cn pt evs)
  case (Cons f fs)
  obtain e1 tr pt1 where h: "handleIncomingFrame f (cn_tracker cn) pt = (e1, tr, pt1)" by (rule prod_cases3)
  define cn1 where "cn1 = cn\<lparr>cn_tracker := tr, cn_pending := clearGate f (cn_pending cn)\<rparr>"
  obtain e2 cn2 pt2 where r: "onFrames fs cn1 pt1 = (e2, cn2, pt2)" by (rule prod_cases3)
  have "evs = e1 @ e2" "onFrames fs cn1 pt1 = (e2, cn', pt')"
    using Cons.prems h r by (simp_all add: onFrame_def cn1_def)
  with Cons.IH [of cn1 pt1 e2] handleIncomingFrame_commands [OF h] show ?case
    by (simp add: List.map_filter_simps split: option.splits)
qed (simp add: List.map_filter_simps)

lemma link_read_trace: "link_read ms lk = (got, d, lk1) \<Longrightarrow> lkTrace lk1 = lkTrace lk"
  by (auto simp: link_read_def split: prod.splits)

text \<open>
  C5: from the serial port to the bus: when one read of the port delivers a sequence of well-formed
  frames with stray bytes between them, the thread publishes exactly the application commands those
  frames carry, in order, each once; every frame is acknowledged, and no other frame is published as
  an application command.
\<close>

theorem serial_to_bus:
  assumes "pumpConnection ms cn pt = (evs, cn', pt')"
    and "link_read ms (cn_link cn) = (got, concat (map item_bytes is), lk1)" and "0 < got"
    and "list_all item_ok is" and "parseState (cn_transport cn) = WaitFrameStart" and "hasHandler (cn_transport cn)"
  shows "publishedCommands evs = List.map_filter decodeApplicationCommand (item_frames is) \<and>
     acks (lkTrace (cn_link cn')) = acks (lkTrace (cn_link cn)) + length (item_frames is) \<and>
     parseState (cn_transport cn') = WaitFrameStart"
proof -
  obtain t2 lk2 where p: "pumpBytes (concat (map item_bytes is)) (cn_transport cn, lk1) = (t2, lk2)"
    by (rule prod.exhaust)
  note items = pump_items [OF assms(4-6) p]
  have pre: "\<exists>new. lkTrace lk2 = lkTrace (cn_link cn) @ new"
    using pumpBytes_trace [OF p] link_read_trace [OF assms(2)] by simp
  then have new: "newlyHandled (length (lkTrace (cn_link cn))) lk2 = item_frames is"
    using items link_read_trace [OF assms(2)] by (auto simp: newlyHandled_def)
  have "onFrames (item_frames is) (cn\<lparr>cn_transport := t2, cn_link := lk2\<rparr>) pt = (evs, cn', pt')"
    using assms(1,3) by (simp add: pumpConnection_def pumpOnce_def assms(2) p new)
  from onFrames_commands [OF this] onFrames_link [OF this] items link_read_trace [OF assms(2)] show ?thesis
    by simp
qed

definition demoReport :: ZwaveDataFrame where
  "demoReport = \<lparr>frameType = REQUEST, commandId = 0x04, framePayload = [0x00, 0x05, 0x03, 0x25, 0x03, 0xFF],
     frameValid = True\<rparr>"

theorem serial_to_bus_witness:
  "publishedCommands (fst (pumpConnection 100
      (newConnection (demoLink [(7, PollReady True)] [ReadOk (toBuffer demoReport)] [WriteOk 1])) demoProtocol)) =
   [\<lparr>ac_rxStatus = 0x00, ac_sourceNodeId = 0x05, ac_ccData = [0x25, 0x03, 0xFF]\<rparr>]"
proof -
  let ?lk = "demoLink [(7, PollReady True)] [ReadOk (toBuffer demoReport)] [WriteOk 1]"
  obtain evs cn' pt' where p: "pumpConnection 100 (newConnection ?lk) demoProtocol = (evs, cn', pt')"
    by (rule prod_cases3)
  have "\<exists>lk1. link_read 100 ?lk = (int (length (toBuffer demoReport)), toBuffer demoReport, lk1)"
    by (simp add: link_read_def readBytes_def demoLink_def os_poll_def os_read_def INVALID_FD_def READ_CHUNK_SIZE_def
        toBuffer_def demoReport_def)
  then obtain lk1 where
    r: "link_read 100 ?lk = (int (length (toBuffer demoReport)), concat (map item_bytes [Frame demoReport]), lk1)"
    by auto
  have v: "demoReport\<lparr>frameValid := True\<rparr> = demoReport" by (simp add: demoReport_def)
  have d: "decodeApplicationCommand demoReport =
      Some \<lparr>ac_rxStatus = 0x00, ac_sourceNodeId = 0x05, ac_ccData = [0x25, 0x03, 0xFF]\<rparr>"
    by (simp add: decodeApplicationCommand_def wire_simps demoReport_def cmd_defs subspan_def)
  have "publishedCommands evs = List.map_filter decodeApplicationCommand (item_frames [Frame demoReport])"
    using serial_to_bus [OF p, of _ "[Frame demoReport]"] r
    by (simp add: newConnection_def newTransport_def frame_ok_def demoReport_def frame_const_defs toBuffer_def)
  with p d v show ?thesis by (simp add: List.map_filter_simps)
qed

section \<open>Inclusion sessions\<close>

fun handleNodeCallbacks ::
  "NodeStatusCallback list \<Rightarrow> SessionTracker \<Rightarrow> Protocol \<Rightarrow> ptEvent list \<times> SessionTracker \<times> Protocol" where
  "handleNodeCallbacks [] tracker pt = ([], tracker, pt)"
| "handleNodeCallbacks (cb # cbs) tracker pt =
     (case handleNodeCallback cb tracker pt of
        (evs, tracker1, pt1) \<Rightarrow>
          (case handleNodeCallbacks cbs tracker1 pt1 of (evs2, res) \<Rightarrow> (evs @ evs2, res)))"

definition carriesNodeInfo :: "NodeStatusCallback \<Rightarrow> bool" where
  "carriesNodeInfo cb \<longleftrightarrow> ns_nodeId cb \<noteq> 0 \<and>
     (ns_commandClasses cb \<noteq> [] \<or> ns_basicDeviceType cb \<noteq> 0 \<or> ns_genericDeviceType cb \<noteq> 0 \<or>
      ns_specificDeviceType cb \<noteq> 0)"

fun announcedNodes :: "ptEvent list \<Rightarrow> (byte \<times> bytes) list" where
  "announcedNodes [] = []"
| "announcedNodes (PubNodeIncluded n ccs # evs) = (n, ccs) # announcedNodes evs"
| "announcedNodes (_ # evs) = announcedNodes evs"

lemma announcedNodes_append [simp]: "announcedNodes (xs @ ys) = announcedNodes xs @ announcedNodes ys"
  by (induction xs rule: announcedNodes.induct) simp_all

lemma callRegistry_announced: "callRegistry f pt = (evs, pt') \<Longrightarrow> announcedNodes evs = []"
  by (auto simp: callRegistry_def split: prod.splits option.splits)

lemma callRegistry_pending: "callRegistry f pt = (evs, pt') \<Longrightarrow> pt_pendingInclusion pt' = pt_pendingInclusion pt"
  by (auto simp: callRegistry_def split: prod.splits)

definition pendingOf :: "NodeStatusCallback \<Rightarrow> byte \<times> bytes" where
  "pendingOf cb = (ucast (ns_nodeId cb), ns_commandClasses cb)"

lemma registerNodeCallback_pending:
  assumes "registerNodeCallback cb pt = (evs, pt')" and "ns_commandId cb = CMD_ADD_NODE_TO_NETWORK"
  shows "announcedNodes evs = [] \<and> pt_pendingInclusion pt' =
     (if carriesNodeInfo cb then Some (pendingOf cb) else pt_pendingInclusion pt)"
  using assms
  by (auto simp: registerNodeCallback_def carriesNodeInfo_def pendingOf_def
      split: if_splits prod.splits dest: callRegistry_announced callRegistry_pending)

definition lastPending :: "(byte \<times> bytes) option \<Rightarrow> NodeStatusCallback list \<Rightarrow> (byte \<times> bytes) option" where
  "lastPending p cbs = fold (\<lambda>cb q. if carriesNodeInfo cb then Some (pendingOf cb) else q) cbs p"

lemma ongoing_callbacks:
  assumes "handleNodeCallbacks cbs tr pt = (evs, tr', pt')"
    and "\<forall>cb \<in> set cbs. ns_commandId cb = CMD_ADD_NODE_TO_NETWORK"
    and "\<forall>cb \<in> set cbs. \<not> isTerminalStatus CMD_ADD_NODE_TO_NETWORK (ns_status cb)"
  shows "announcedNodes evs = [] \<and> tr' = tr \<and> pt_pendingInclusion pt' = lastPending (pt_pendingInclusion pt) cbs"
  using assms
proof (induction cbs arbitrary: tr pt evs)
  case (Cons cb cbs)
  obtain e1 pt1 where r: "registerNodeCallback cb pt = (e1, pt1)" by (rule prod.exhaust)
  obtain e2 tr2 pt2 where rest: "handleNodeCallbacks cbs tr pt1 = (e2, tr2, pt2)" by (rule prod_cases3)
  have add: "ns_commandId cb = CMD_ADD_NODE_TO_NETWORK" using Cons.prems by simp
  have "handleNodeCallback cb tr pt = (publishNodeStatus cb @ e1, tr, pt1)"
    using Cons.prems(2,3) r by (simp add: handleNodeCallback_def finishNodeCallback_def)
  then have "evs = publishNodeStatus cb @ e1 @ e2" "handleNodeCallbacks cbs tr pt1 = (e2, tr', pt')"
    using Cons.prems(1) rest by simp_all
  moreover have "announcedNodes (publishNodeStatus cb) = []" by (simp add: publishNodeStatus_def)
  ultimately show ?case
    using Cons.IH [of tr pt1 e2] Cons.prems(2,3) registerNodeCallback_pending [OF r add]
    by (simp add: lastPending_def)
qed (simp add: lastPending_def)

lemma handleNodeCallbacks_append:
  "handleNodeCallbacks (xs @ ys) tr pt =
     (case handleNodeCallbacks xs tr pt of
        (e1, tr1, pt1) \<Rightarrow> (case handleNodeCallbacks ys tr1 pt1 of (e2, res) \<Rightarrow> (e1 @ e2, res)))"
  by (induction xs arbitrary: tr pt) (auto split: prod.splits)

text \<open>
  An inclusion session, as the sequence of its callbacks, announces a node only at its terminal
  callback and at most once: the node and classes of the last callback that carried them, if any;
  then the session is over and nothing is left pending for the next one. The status of the terminal
  callback plays no part: an inclusion that ends with \<open>STATUS_FAILED_INCLUDE\<close> or
  \<open>STATUS_NOT_PRIMARY\<close> announces the node like a successful one.
\<close>

theorem inclusion_announced_once:
  assumes "handleNodeCallbacks (cbs @ [final]) tr pt = (evs, tr', pt')"
    and "\<forall>cb \<in> set (cbs @ [final]). ns_commandId cb = CMD_ADD_NODE_TO_NETWORK"
    and "\<forall>cb \<in> set cbs. \<not> isTerminalStatus CMD_ADD_NODE_TO_NETWORK (ns_status cb)"
    and "ns_status final \<in> {STATUS_DONE_INCLUSION, STATUS_FAILED_INCLUDE, STATUS_NOT_PRIMARY}"
    and "pt_pendingInclusion pt = None"
  shows "announcedNodes evs =
       (case filter carriesNodeInfo (cbs @ [final]) of
          [] \<Rightarrow> []
        | infos \<Rightarrow> [(ucast (ns_nodeId (last infos)), ns_commandClasses (last infos))]) \<and>
     tr' = None \<and> pt_pendingInclusion pt' = None"
proof -
  obtain e1 tr1 pt1 where on: "handleNodeCallbacks cbs tr pt = (e1, tr1, pt1)" by (rule prod_cases3)
  obtain e2 pt2 where r: "registerNodeCallback final pt1 = (e2, pt2)" by (rule prod.exhaust)
  have add: "ns_commandId final = CMD_ADD_NODE_TO_NETWORK" using assms(2) by simp
  have terminal: "isTerminalStatus (ns_commandId final) (ns_status final)"
    using assms(4) add by (auto simp: isTerminalStatus_def)
  have pending: "pt_pendingInclusion pt2 = lastPending None (cbs @ [final])"
    using registerNodeCallback_pending [OF r add] ongoing_callbacks [OF on] assms(2,3,5)
    by (simp add: lastPending_def)
  have "evs = e1 @ publishNodeStatus final @ e2 @
      (case pt_pendingInclusion pt2 of None \<Rightarrow> [] | Some (n, ccs) \<Rightarrow> [PubNodeIncluded n ccs]) @ [PubSessionStatus False 0 0]"
    "tr' = None" "pt_pendingInclusion pt' = None"
    using assms(1) on r add terminal
    by (auto simp: handleNodeCallbacks_append handleNodeCallback_def finishNodeCallback_def session_end_def)
  moreover have "announcedNodes (publishNodeStatus final) = []" by (simp add: publishNodeStatus_def)
  moreover have "lastPending p xs =
      (case filter carriesNodeInfo xs of [] \<Rightarrow> p | infos \<Rightarrow> Some (pendingOf (last infos)))" for p xs
    by (induction xs arbitrary: p) (auto simp: lastPending_def split: list.splits)
  ultimately show ?thesis
    using registerNodeCallback_pending [OF r add] ongoing_callbacks [OF on] assms(2,3) pending
    by (auto simp: pendingOf_def split: list.splits)
qed

definition demoInclusion :: "byte \<Rightarrow> bytes \<Rightarrow> NodeStatusCallback" where
  "demoInclusion status ccs = \<lparr>ns_commandId = CMD_ADD_NODE_TO_NETWORK, ns_sessionId = 1, ns_status = status,
     ns_nodeId = 6, ns_basicDeviceType = 0, ns_genericDeviceType = 0, ns_specificDeviceType = 0,
     ns_commandClasses = ccs\<rparr>"

theorem inclusion_announced_once_witness:
  "announcedNodes (fst (handleNodeCallbacks [demoInclusion 0x03 [0x25, 0x86], demoInclusion STATUS_FAILED_INCLUDE []]
     (session_begin CMD_ADD_NODE_TO_NETWORK 1 None) demoProtocol)) = [(6, [0x25, 0x86])]"
proof -
  let ?cbs = "[demoInclusion 0x03 [0x25, 0x86]]" and ?final = "demoInclusion STATUS_FAILED_INCLUDE []"
    and ?tr = "session_begin CMD_ADD_NODE_TO_NETWORK 1 None"
  obtain evs tr' pt' where
    r: "handleNodeCallbacks (?cbs @ [?final]) ?tr demoProtocol = (evs, tr', pt')" by (rule prod_cases3)
  have "announcedNodes evs = (case filter carriesNodeInfo (?cbs @ [?final]) of
          [] \<Rightarrow> [] | infos \<Rightarrow> [(ucast (ns_nodeId (last infos)), ns_commandClasses (last infos))])"
    by (rule conjunct1 [OF inclusion_announced_once [OF r]])
      (simp_all add: demoInclusion_def demoProtocol_def isTerminalStatus_def session_status_defs cmd_defs)
  also have "\<dots> = [(6, [0x25, 0x86])]"
    by (simp add: carriesNodeInfo_def demoInclusion_def)
  finally show ?thesis using r by simp
qed

section \<open>What start-up learns from the dongle\<close>

lemma captureFrame_keeps:
  "sl_version sl \<noteq> None \<Longrightarrow> sl_version (captureFrame f sl) \<noteq> None"
  "sl_identity sl \<noteq> None \<Longrightarrow> sl_identity (captureFrame f sl) \<noteq> None"
  by (auto simp: captureFrame_def split: option.splits)

lemma captureFrames_keep:
  "sl_version sl \<noteq> None \<Longrightarrow> sl_version (fold captureFrame fs sl) \<noteq> None"
  "sl_identity sl \<noteq> None \<Longrightarrow> sl_identity (fold captureFrame fs sl) \<noteq> None"
  by (induction fs arbitrary: sl) (simp_all add: captureFrame_keeps del: not_None_eq)

text \<open>An answered question stays answered.\<close>

definition keepsAnswers :: "Introspection \<Rightarrow> Introspection \<Rightarrow> bool" where
  "keepsAnswers ix ix' \<longleftrightarrow>
     (sl_version (ix_slots ix) \<noteq> None \<longrightarrow> sl_version (ix_slots ix') \<noteq> None) \<and>
     (sl_identity (ix_slots ix) \<noteq> None \<longrightarrow> sl_identity (ix_slots ix') \<noteq> None)"

lemma keepsAnswers_trans: "keepsAnswers a b \<Longrightarrow> keepsAnswers b c \<Longrightarrow> keepsAnswers a c"
  by (simp add: keepsAnswers_def)

lemma captureNew_keeps: "keepsAnswers ix (captureNew st ix)"
  by (simp add: keepsAnswers_def captureNew_def captureFrames_keep split: prod.splits del: not_None_eq)

lemma awaitSlot_keeps: "keepsAnswers ix (awaitSlot filled deadline ix)"
proof (induction filled deadline ix rule: awaitSlot.induct)
  case (1 filled deadline ix)
  obtain now lk1 where c: "link_clock (ix_link ix) = (now, lk1)" by (rule prod.exhaust)
  have same: "keepsAnswers ix (ix\<lparr>ix_link := lk1\<rparr>)" "keepsAnswers ix ix" by (simp_all add: keepsAnswers_def)
  show ?case
  proof (cases "\<not> filled (ix_slots ix) \<and> now < deadline")
    case True
    then have "keepsAnswers (pumpIntrospection (ix\<lparr>ix_link := lk1\<rparr>)) (awaitSlot filled deadline ix)"
      using 1 [OF _ c [symmetric]] c by (simp add: awaitSlot.simps [of filled deadline ix])
    then show ?thesis
      using same captureNew_keeps keepsAnswers_trans unfolding pumpIntrospection_def by blast
  next
    case False
    then show ?thesis using same c by (auto simp: awaitSlot.simps [of filled deadline ix])
  qed
qed

lemma sendAndAwait_keeps:
  assumes "sendAndAwait cmd filled ix = (ok, ix')"
  shows "keepsAnswers ix ix'" and "ok \<Longrightarrow> filled (ix_slots ix')"
proof -
  obtain sent ix1 where s: "sendIntrospection (setHeader REQUEST cmd emptyFrame) ix = (sent, ix1)"
    by (rule prod.exhaust)
  then have k1: "keepsAnswers ix ix1"
    using captureNew_keeps by (auto simp: sendIntrospection_def split: prod.splits)
  obtain now lk2 where c: "link_clock (ix_link ix1) = (now, lk2)" by (rule prod.exhaust)
  have k2: "keepsAnswers ix1 (awaitSlot filled d (ix1\<lparr>ix_link := lk2\<rparr>))" for d
    using awaitSlot_keeps [of "ix1\<lparr>ix_link := lk2\<rparr>" filled d] by (simp add: keepsAnswers_def)
  show "keepsAnswers ix ix'" "ok \<Longrightarrow> filled (ix_slots ix')"
    using assms s c k1 keepsAnswers_trans [OF k1 k2]
    by (auto simp: sendAndAwait_def awaitResponse_def Let_def split: if_splits)
qed

lemma queryNodes_sound:
  "queryNodes controller ns ix = (npi, ix') \<Longrightarrow> (n, i) \<in> set npi \<Longrightarrow>
   n \<in> set ns \<and> n \<noteq> controller \<and>
   \<not> (np_basicDeviceType i = 0 \<and> np_genericDeviceType i = 0 \<and> np_specificDeviceType i = 0)"
proof (induction ns arbitrary: ix npi ix')
  case (Cons m ns)
  obtain r1 ix1 where f: "fetchNodeProtocolInfo m ix = (r1, ix1)" by (rule prod.exhaust)
  obtain r2 ix2 where q: "queryNodes controller ns ix = (r2, ix2)" by (rule prod.exhaust)
  obtain r3 ix3 where q1: "queryNodes controller ns ix1 = (r3, ix3)" by (rule prod.exhaust)
  show ?case
    using Cons.prems f q q1 Cons.IH [OF q] Cons.IH [OF q1]
    by (auto split: if_splits option.splits)
qed simp

text \<open>
  The questions at start-up end in one of two ways: one error is published and nothing is known,
  or no error is published and the identity of the dongle is known. Device classes are recorded only
  for nodes of the dongle's own list, never for the controller itself, and never as all zero.
\<close>

theorem introspection_outcome:
  assumes "introspectDongle lk = (evs, res, lk')"
  shows "(ir_dongleInfo res = None \<and> res = noResult \<and> (\<exists>what. evs = [introspectionFailed what]) \<or>
          ir_dongleInfo res \<noteq> None \<and> evs = []) \<and>
     (\<forall>(n, i) \<in> set (ir_nodeProtocolInfo res). \<exists>info init.
        ir_dongleInfo res = Some info \<and> ir_initData res = Some init \<and>
        n \<in> set (id_nodeIds init) \<and> n \<noteq> di_controllerNodeId info \<and>
        \<not> (np_basicDeviceType i = 0 \<and> np_genericDeviceType i = 0 \<and> np_specificDeviceType i = 0))"
proof -
  obtain ok1 ix1 where s1: "sendAndAwait CMD_GET_VERSION (\<lambda>sl. sl_version sl \<noteq> None) (newIntrospection lk) = (ok1, ix1)"
    by (rule prod.exhaust)
  obtain ok2 ix2 where s2: "sendAndAwait CMD_MEMORY_GET_ID (\<lambda>sl. sl_identity sl \<noteq> None) ix1 = (ok2, ix2)"
    by (rule prod.exhaust)
  obtain ok3 ix3 where s3: "sendAndAwait CMD_SERIAL_API_GET_INIT_DATA (\<lambda>sl. sl_initData sl \<noteq> None) ix2 = (ok3, ix3)"
    by (rule prod.exhaust)
  show ?thesis
  proof (cases "ok1 \<and> ok2")
    case True
    then obtain v ident where known: "sl_version (ix_slots ix3) = Some v" "sl_identity (ix_slots ix3) = Some ident"
      using sendAndAwait_keeps [OF s1] sendAndAwait_keeps [OF s2] sendAndAwait_keeps(1) [OF s3]
      by (auto simp: keepsAnswers_def)
    show ?thesis
      using assms True known s1 s2 s3
      by (auto simp: introspectDongle_def noResult_def Let_def split: option.splits prod.splits dest: queryNodes_sound)
  next
    case False
    then show ?thesis
      using assms s1 s2 by (cases ok1) (auto simp: introspectDongle_def noResult_def)
  qed
qed

text \<open>What adopting a dongle leaves in the registry.\<close>

definition extendsNodes :: "NodeRegistry \<Rightarrow> NodeRegistry \<Rightarrow> bool" where
  "extendsNodes r r' \<longleftrightarrow> nr_home r' = nr_home r \<and>
     (\<forall>n i. nr_nodes r n = Some i \<longrightarrow>
        (\<exists>j. nr_nodes r' n = Some j \<and> ni_commandClasses j = ni_commandClasses i \<and>
             ni_securityScheme j = ni_securityScheme i))"

lemma extendsNodes_refl: "extendsNodes r r"
  by (simp add: extendsNodes_def)

lemma extendsNodes_trans: "extendsNodes a b \<Longrightarrow> extendsNodes b c \<Longrightarrow> extendsNodes a c"
  unfolding extendsNodes_def by metis

lemma nr_seed_extends:
  assumes "nr_seed n r = (out, r')" and "nr_home r \<noteq> None"
  shows "extendsNodes r r' \<and> nr_nodes r' n \<noteq> None"
  using assms
  by (auto simp: nr_seed_def withBoundHome_def extendsNodes_def persistAdd_def Let_def split: if_splits option.splits)

lemma nr_updateDeviceClass_extends:
  assumes "nr_updateDeviceClass n b g s r = (out, r')"
  shows "extendsNodes r r'"
  using assms
  by (auto simp: nr_updateDeviceClass_def withBoundHome_def extendsNodes_def persistAdd_def Let_def
      split: if_splits option.splits)

lemma seedNodes_extends:
  "fold (\<lambda>n (evs, p). case callRegistry (nr_seed n) p of (e, p1) \<Rightarrow> (evs @ e, p1)) ns (evs, pt) = (evs', pt') \<Longrightarrow>
   nr_home (pt_registry pt) \<noteq> None \<Longrightarrow>
   extendsNodes (pt_registry pt) (pt_registry pt') \<and> (\<forall>n \<in> set ns. nr_nodes (pt_registry pt') n \<noteq> None)"
proof (induction ns arbitrary: evs pt)
  case (Cons n ns)
  obtain out r1 where s: "nr_seed n (pt_registry pt) = (out, r1)" by (rule prod.exhaust)
  obtain e1 pt1 where c: "callRegistry (nr_seed n) pt = (e1, pt1)" by (rule prod.exhaust)
  then have reg: "pt_registry pt1 = r1" using s by (auto simp: callRegistry_def)
  have one: "extendsNodes (pt_registry pt) r1" "nr_nodes r1 n \<noteq> None" "nr_home r1 \<noteq> None"
    using nr_seed_extends [OF s Cons.prems(2)] Cons.prems(2) by (auto simp: extendsNodes_def)
  have rest: "extendsNodes r1 (pt_registry pt')" "\<forall>m \<in> set ns. nr_nodes (pt_registry pt') m \<noteq> None"
    using Cons.IH [of "evs @ e1" pt1] Cons.prems(1) c one(3) by (simp_all add: reg)
  moreover have "nr_nodes (pt_registry pt') n \<noteq> None"
    using rest(1) one(2) unfolding extendsNodes_def by fastforce
  ultimately show ?case using extendsNodes_trans [OF one(1)] by simp
qed (simp add: extendsNodes_refl)

lemma overlayNodes_extends:
  "fold (\<lambda>(n, i) (evs, p).
       case callRegistry (nr_updateDeviceClass n (np_basicDeviceType i) (np_genericDeviceType i)
              (np_specificDeviceType i)) p of (e, p1) \<Rightarrow> (evs @ e, p1)) npi (evs, pt) = (evs', pt') \<Longrightarrow>
   extendsNodes (pt_registry pt) (pt_registry pt')"
proof (induction npi arbitrary: evs pt)
  case (Cons p npi)
  obtain n i where p: "p = (n, i)" by (rule prod.exhaust)
  let ?upd = "nr_updateDeviceClass n (np_basicDeviceType i) (np_genericDeviceType i) (np_specificDeviceType i)"
  obtain out r1 where s: "?upd (pt_registry pt) = (out, r1)" by (rule prod.exhaust)
  obtain e1 pt1 where c: "callRegistry ?upd pt = (e1, pt1)" by (rule prod.exhaust)
  then have reg: "pt_registry pt1 = r1" using s by (auto simp: callRegistry_def)
  have "extendsNodes r1 (pt_registry pt')"
    using Cons.IH [of "evs @ e1" pt1] Cons.prems c p by (simp add: reg)
  with nr_updateDeviceClass_extends [OF s] show ?case by (rule extendsNodes_trans)
qed (simp add: extendsNodes_refl)

lemma callRegistry_controller: "callRegistry f pt = (evs, pt') \<Longrightarrow> pt_controllerNodeId pt' = pt_controllerNodeId pt"
  by (auto simp: callRegistry_def split: prod.splits)

lemma fold_controller:
  "(\<And>x evs p evs' p'. step x (evs, p) = (evs', p') \<Longrightarrow> pt_controllerNodeId p' = pt_controllerNodeId p) \<Longrightarrow>
   fold step xs (evs, pt) = (evs', pt') \<Longrightarrow> pt_controllerNodeId pt' = pt_controllerNodeId pt"
proof (induction xs arbitrary: evs pt)
  case (Cons x xs)
  obtain e p where s: "step x (evs, pt) = (e, p)" by (rule prod.exhaust)
  then have "fold step xs (e, p) = (evs', pt')" using Cons.prems(2) by simp
  from Cons.IH [OF Cons.prems(1) this] Cons.prems(1) [OF s] show ?case by simp
qed simp

lemma seedNodes_controller: "seedNodes ns pt = (e, pt') \<Longrightarrow> pt_controllerNodeId pt' = pt_controllerNodeId pt"
  unfolding seedNodes_def by (rule fold_controller) (auto split: prod.splits dest: callRegistry_controller)

lemma overlayNodes_controller: "overlayNodes npi pt = (e, pt') \<Longrightarrow> pt_controllerNodeId pt' = pt_controllerNodeId pt"
  unfolding overlayNodes_def by (rule fold_controller) (auto split: prod.splits dest: callRegistry_controller)

text \<open>
  When a dongle is adopted the registry is bound to its network, every node the dongle lists is
  registered, and a node already known on that network keeps its command classes and its security
  scheme, so that a restart never turns a secure node into an insecure one.
\<close>

theorem adopt_keeps_security:
  assumes "adoptDongle res pt = (evs, pt')" and "ir_dongleInfo res = Some info"
  shows "nr_home (pt_registry pt') = Some (formatHomeId (di_homeId info)) \<and>
     pt_controllerNodeId pt' = Some (di_controllerNodeId info) \<and>
     (\<forall>init n. ir_initData res = Some init \<longrightarrow> n \<in> set (id_nodeIds init) \<longrightarrow> nr_nodes (pt_registry pt') n \<noteq> None) \<and>
     (\<forall>n i. nr_nodes (snd (nr_setHomeId (di_homeId info) (pt_registry pt))) n = Some i \<longrightarrow>
        (\<exists>j. nr_nodes (pt_registry pt') n = Some j \<and> ni_commandClasses j = ni_commandClasses i \<and>
             ni_securityScheme j = ni_securityScheme i))"
proof -
  let ?r1 = "snd (nr_setHomeId (di_homeId info) (pt_registry pt))"
  have home: "nr_home ?r1 = Some (formatHomeId (di_homeId info))" by (auto simp: nr_setHomeId_def Let_def)
  obtain e1 pt1 where c: "callRegistry (nr_setHomeId (di_homeId info))
      (pt\<lparr>pt_controllerNodeId := Some (di_controllerNodeId info)\<rparr>) = (e1, pt1)" by (rule prod.exhaust)
  then have pt1: "pt_registry pt1 = ?r1" "pt_controllerNodeId pt1 = Some (di_controllerNodeId info)"
    by (auto simp: callRegistry_def split: prod.splits)
  show ?thesis
  proof (cases "ir_initData res")
    case None
    then have "pt' = pt1" using assms c by (simp add: adoptDongle_def)
    then show ?thesis using pt1 home None by simp
  next
    case (Some init)
    obtain e2 pt2 where s: "seedNodes (id_nodeIds init) pt1 = (e2, pt2)" by (rule prod.exhaust)
    obtain e3 pt3 where o: "overlayNodes (ir_nodeProtocolInfo res) pt2 = (e3, pt3)" by (rule prod.exhaust)
    have same: "pt' = pt3" using assms c s o Some by (simp add: adoptDongle_def)
    have 1: "extendsNodes ?r1 (pt_registry pt2)" "\<forall>n \<in> set (id_nodeIds init). nr_nodes (pt_registry pt2) n \<noteq> None"
      using seedNodes_extends [OF s [unfolded seedNodes_def]] pt1 home by simp_all
    have 2: "extendsNodes (pt_registry pt2) (pt_registry pt')"
      using overlayNodes_extends [OF o [unfolded overlayNodes_def]] same by simp
    have ctl: "pt_controllerNodeId pt' = Some (di_controllerNodeId info)"
      using overlayNodes_controller [OF o] seedNodes_controller [OF s] pt1 same by simp
    have "nr_nodes (pt_registry pt') n \<noteq> None" if "n \<in> set (id_nodeIds init)" for n
      using 1(2) 2 that unfolding extendsNodes_def by fastforce
    with extendsNodes_trans [OF 1(1) 2] home ctl Some show ?thesis by (simp add: extendsNodes_def)
  qed
qed

definition demoAnswers :: IntrospectionResult where
  "demoAnswers =
     \<lparr>ir_dongleInfo = Some \<lparr>di_libraryVersion = ''Z-Wave 7.19'', di_libraryType = 1,
        di_homeId = [0xE2, 0xA1, 0xB0, 0x7C], di_controllerNodeId = 1\<rparr>,
      ir_initData = Some \<lparr>id_serialApiVersion = 8, id_capabilities = 0, id_chipType = 7, id_chipVersion = 0,
        id_nodeIds = [1, 5, 7]\<rparr>, ir_nodeProtocolInfo = []\<rparr>"

theorem adopt_keeps_security_witness:
  "nr_nodes (pt_registry (snd (adoptDongle demoAnswers demoProtocol))) 7 \<noteq> None \<and>
   nr_isSecure 5 (pt_registry (snd (adoptDongle demoAnswers demoProtocol)))"
proof -
  obtain evs pt' where a: "adoptDongle demoAnswers demoProtocol = (evs, pt')" by (rule prod.exhaust)
  let ?home = "[0xE2, 0xA1, 0xB0, 0x7C] :: bytes"
  let ?info = "\<lparr>di_libraryVersion = ''Z-Wave 7.19'', di_libraryType = 1, di_homeId = ?home, di_controllerNodeId = 1\<rparr>"
  have bound: "snd (nr_setHomeId ?home demoRegistry) = demoRegistry"
    by (simp add: nr_setHomeId_def demoRegistry_def restarted_def Let_def)
  have known: "nr_nodes demoRegistry 5 = Some ((newNodeInfo 5)\<lparr>ni_securityScheme := S2Authenticated\<rparr>)"
    by (simp add: demoRegistry_def restarted_nodes loadNodesForHome_def)
  have "ir_dongleInfo demoAnswers = Some ?info" by (simp add: demoAnswers_def)
  note adopted = adopt_keeps_security [OF a this]
  have "\<exists>j. nr_nodes (pt_registry pt') 5 = Some j \<and> ni_securityScheme j = S2Authenticated"
    using adopted bound known by (fastforce simp: demoProtocol_def)
  moreover have "nr_nodes (pt_registry pt') 7 \<noteq> None"
    using adopted by (auto simp: demoAnswers_def)
  ultimately show ?thesis using a by (auto simp: nr_isSecure_def)
qed

text \<open>
  The end of a removal is credited to the removal dispatched last, whatever session the callback
  names: when a second removal was dispatched before the first one's callback arrived, a success of
  the first takes the second node out of the registry and reports it under the first one's session.
\<close>

theorem removal_misattributed:
  assumes "pt_activeFailedNodeRemoval pt = Some q" and "rf_nodeId q \<noteq> 0"
    and "decodeRemoveFailedNodeCallback f = Some cb" and "rc_status cb = REMOVE_STATUS_REMOVED"
    and "nr_home (pt_registry pt) \<noteq> None"
    and "handleIncomingFrame f tr pt = (evs, tr', pt')"
  shows "nr_nodes (pt_registry pt') (rf_nodeId q) = None \<and>
     PubRemoveFailedNodeStatus (rf_nodeId q) (rc_sessionId cb) PHASE_CALLBACK REMOVE_STATUS_REMOVED \<in> set evs \<and>
     pt_activeFailedNodeRemoval pt' = None"
proof -
  have k: "commandId f = CMD_REMOVE_FAILED_NODE_ID" "frameType f = REQUEST"
    using removeFailed_cb.accepts_kind [OF assms(3)] by simp_all
  then have none: "decodeSendDataCallback f = None" "decodeSendDataMultiCallback f = None"
    "decodeApplicationCommand f = None" "decodeRemoveFailedNodeResponse f = None"
    using sendData_cb.rejects_other_kind [of f] sendDataMulti_cb.rejects_other_kind [of f]
      appCommand.rejects_other_kind [of f] removeFailed_rsp.rejects_other_kind [of f]
    by (simp_all add: cmd_defs)
  obtain e1 pt1 where c: "callRegistry (nr_remove (rf_nodeId q)) pt = (e1, pt1)" by (rule prod.exhaust)
  have gone: "nr_nodes (pt_registry pt1) (rf_nodeId q) = None"
    using c assms(5) by (auto simp: callRegistry_def nr_remove_def withBoundHome_def persistRemove_def split: option.splits)
  have "handleRemoveFailedNodeFrame f pt =
      Some (PubRemoveFailedNodeStatus (rf_nodeId q) (rc_sessionId cb) PHASE_CALLBACK REMOVE_STATUS_REMOVED # e1,
            pt1\<lparr>pt_activeFailedNodeRemoval := None\<rparr>)"
    using assms(1-4) none c by (simp add: handleRemoveFailedNodeFrame_def Let_def)
  then show ?thesis using assms(6) none gone by (auto simp: handleIncomingFrame_def)
qed

theorem removal_misattributed_witness:
  "nr_nodes (pt_registry (snd (snd (handleIncomingFrame
      \<lparr>frameType = REQUEST, commandId = CMD_REMOVE_FAILED_NODE_ID, framePayload = [1, REMOVE_STATUS_REMOVED],
       frameValid = True\<rparr> None
      (demoProtocol\<lparr>pt_activeFailedNodeRemoval := Some \<lparr>rf_nodeId = 5, rf_sessionId = 2\<rparr>\<rparr>))))) 5 = None"
proof -
  let ?f = "\<lparr>frameType = REQUEST, commandId = CMD_REMOVE_FAILED_NODE_ID, framePayload = [1, REMOVE_STATUS_REMOVED],
       frameValid = True\<rparr>"
  let ?pt = "demoProtocol\<lparr>pt_activeFailedNodeRemoval := Some \<lparr>rf_nodeId = 5, rf_sessionId = 2\<rparr>\<rparr>"
  obtain evs tr' pt' where h: "handleIncomingFrame ?f None ?pt = (evs, tr', pt')" by (rule prod_cases3)
  have "nr_home demoRegistry \<noteq> None" by (simp add: demoRegistry_def restarted_def nr_setHomeId_def Let_def)
  then have "nr_nodes (pt_registry pt') 5 = None"
    using removal_misattributed [of ?pt "\<lparr>rf_nodeId = 5, rf_sessionId = 2\<rparr>" ?f
        "\<lparr>rc_sessionId = 1, rc_status = REMOVE_STATUS_REMOVED\<rparr>", OF _ _ _ _ _ h]
    by (simp add: demoProtocol_def decodeRemoveFailedNodeCallback_def wire_simps)
  with h show ?thesis by simp
qed

end
