(* ===== verification/Pending_Queue.thy ===== *)
theory Pending_Queue
  imports Bus_Commands "HOL-Library.Multiset"
begin

text \<open>
  Commands for sleeping nodes: the persistent queue of \<open>src/src/pending-queue/PendingQueue.cpp\<close>
  and its consumer, \<open>src/src/orchestrator/WakeUpOrchestrator.cpp\<close>. The table
  \<open>pending_commands\<close> is the list of its rows in the order of insertion, with the counter that
  \<open>AUTOINCREMENT\<close> keeps; a statement that SQLite refuses is not modelled.
\<close>

section \<open>The queue\<close>

definition PRIORITY_HIGH :: byte where "PRIORITY_HIGH = 50"
definition PRIORITY_NORMAL :: byte where "PRIORITY_NORMAL = 100"
definition PRIORITY_LOW :: byte where "PRIORITY_LOW = 200"

record PendingRow =
  pr_sequence :: nat
  pr_home :: string
  pr_node :: byte
  pr_priority :: byte
  pr_payload :: bytes

text \<open>\<open>pq_dbValid\<close> says whether the database could be opened.\<close>

record PendingQueue =
  pq_dbValid :: bool
  pq_home :: "string option"
  pq_rows :: "PendingRow list"
  pq_lastSequence :: nat

record PendingEntry =
  pe_sequence :: u32
  pe_priority :: byte
  pe_payload :: bytes

datatype queueEvent =
    PubPendingCommandEnqueued byte u32 byte
  | PubPendingCommandsDrained byte u32

definition pq_setHomeId :: "bytes \<Rightarrow> PendingQueue \<Rightarrow> PendingQueue" where
  "pq_setHomeId homeIdBytes q = q\<lparr>pq_home := Some (formatHomeId homeIdBytes)\<rparr>"

definition pending_INSERT :: "string \<Rightarrow> byte \<Rightarrow> byte \<Rightarrow> bytes \<Rightarrow> PendingQueue \<Rightarrow> PendingQueue" where
  "pending_INSERT home nodeId priority payload q =
     (let sequence = pq_lastSequence q + 1 in
      q\<lparr>pq_rows := pq_rows q @ [\<lparr>pr_sequence = sequence, pr_home = home, pr_node = nodeId,
                                 pr_priority = priority, pr_payload = payload\<rparr>],
        pq_lastSequence := sequence\<rparr>)"

text \<open>\<open>ORDER BY priority ASC, sequence ASC\<close>: sorted by sequence, then stably by priority.\<close>

definition pending_SELECT :: "string \<Rightarrow> byte \<Rightarrow> PendingQueue \<Rightarrow> PendingRow list" where
  "pending_SELECT home nodeId q =
     sort_key pr_priority (sort_key pr_sequence
       (filter (\<lambda>r. pr_home r = home \<and> pr_node r = nodeId) (pq_rows q)))"

definition pending_DELETE :: "string \<Rightarrow> byte \<Rightarrow> PendingQueue \<Rightarrow> PendingQueue" where
  "pending_DELETE home nodeId q =
     q\<lparr>pq_rows := filter (\<lambda>r. \<not> (pr_home r = home \<and> pr_node r = nodeId)) (pq_rows q)\<rparr>"

definition pq_enqueue :: "byte \<Rightarrow> bytes \<Rightarrow> byte \<Rightarrow> PendingQueue \<Rightarrow> queueEvent list \<times> PendingQueue" where
  "pq_enqueue nodeId payload priority q =
     (case pq_home q of
        None \<Rightarrow> ([], q)
      | Some home \<Rightarrow>
          if \<not> pq_dbValid q then ([], q)
          else let q1 = pending_INSERT home nodeId priority payload q in
            ([PubPendingCommandEnqueued nodeId (of_nat (pq_lastSequence q1)) priority], q1))"

definition pq_drain :: "byte \<Rightarrow> PendingQueue \<Rightarrow> bytes list \<times> queueEvent list \<times> PendingQueue" where
  "pq_drain nodeId q =
     (case pq_home q of
        None \<Rightarrow> ([], [PubPendingCommandsDrained nodeId 0], q)
      | Some home \<Rightarrow>
          if \<not> pq_dbValid q then ([], [PubPendingCommandsDrained nodeId 0], q)
          else let out = filter (\<lambda>p. p \<noteq> []) (map pr_payload (pending_SELECT home nodeId q)) in
            (out, [PubPendingCommandsDrained nodeId (of_nat (length out))], pending_DELETE home nodeId q))"

definition pq_peek :: "byte \<Rightarrow> PendingQueue \<Rightarrow> PendingEntry list" where
  "pq_peek nodeId q =
     (case pq_home q of
        None \<Rightarrow> []
      | Some home \<Rightarrow>
          if \<not> pq_dbValid q then []
          else map (\<lambda>r. \<lparr>pe_sequence = of_nat (pr_sequence r), pe_priority = pr_priority r,
                         pe_payload = pr_payload r\<rparr>) (pending_SELECT home nodeId q))"

definition pq_clearForNode :: "byte \<Rightarrow> PendingQueue \<Rightarrow> PendingQueue" where
  "pq_clearForNode nodeId q =
     (case pq_home q of
        None \<Rightarrow> q
      | Some home \<Rightarrow> if \<not> pq_dbValid q then q else pending_DELETE home nodeId q)"

text \<open>The daemon stopped and started again: a new connection to the same table.\<close>

definition pq_reopen :: "PendingQueue \<Rightarrow> PendingQueue" where
  "pq_reopen q = q\<lparr>pq_home := None\<rparr>"

section \<open>WakeUpOrchestrator\<close>

datatype wakeEvent =
    WuCommand busCommand
  | WuQueue queueEvent
  | PubWakeUpCycleComplete byte u32

definition ORCHESTRATOR_NO_CALLBACK :: byte where "ORCHESTRATOR_NO_CALLBACK = 0x00"

definition onWakeUpNotification :: "byte \<Rightarrow> PendingQueue \<Rightarrow> wakeEvent list \<times> PendingQueue" where
  "onWakeUpNotification nodeId q =
     (case pq_drain nodeId q of
        (payloads, evs, q1) \<Rightarrow>
          (map WuQueue evs @ map (\<lambda>p. WuCommand (SendDataCommand nodeId ORCHESTRATOR_NO_CALLBACK p)) payloads @
           [WuCommand (SendWakeUpNoMoreInformationCommand nodeId ORCHESTRATOR_NO_CALLBACK),
            PubWakeUpCycleComplete nodeId (of_nat (length payloads))],
           q1))"

section \<open>Interface: a queue of commands per node\<close>

text \<open>
  What a client of such a queue relies on: the commands waiting for a node come out in the order of
  their priority, and in the order they were queued within a priority; queueing for one node or
  taking its commands does not touch those of another.
\<close>

lemma sort_key_append_sorted: "sort_key f (sort_key f xs @ ys) = sort_key f (xs @ ys)"
proof (rule properties_for_sort_key)
  show "mset (sort_key f (xs @ ys)) = mset (sort_key f xs @ ys)" by simp
  show "filter (\<lambda>x. f k = f x) (sort_key f (xs @ ys)) = filter (\<lambda>x. f k = f x) (sort_key f xs @ ys)" for k
    using sort_key_stable [of f "f k" "xs @ ys"] sort_key_stable [of f "f k" xs] by (simp add: eq_commute)
  show "sorted (map f (sort_key f (xs @ ys)))" by simp
qed

lemma sort_key_idem [simp]: "sort_key f (sort_key f xs) = sort_key f xs"
  using sort_key_append_sorted [of f xs "[]"] by simp

locale node_queue =
  fixes ok :: "'q \<Rightarrow> bool"
    and enq :: "byte \<Rightarrow> bytes \<Rightarrow> byte \<Rightarrow> 'q \<Rightarrow> 'q"
    and waiting :: "byte \<Rightarrow> 'q \<Rightarrow> (byte \<times> bytes) list"
    and taken :: "byte \<Rightarrow> 'q \<Rightarrow> 'q"
  assumes ok_enq: "ok q \<Longrightarrow> ok (enq n p pr q)"
    and ok_taken: "ok q \<Longrightarrow> ok (taken n q)"
    and waiting_enq: "ok q \<Longrightarrow> waiting m (enq n p pr q) =
           (if m = n then sort_key fst (waiting m q @ [(pr, p)]) else waiting m q)"
    and waiting_taken: "ok q \<Longrightarrow> waiting m (taken n q) = (if m = n then [] else waiting m q)"
begin

lemma ok_enqs: "ok q \<Longrightarrow> ok (fold (\<lambda>e. enq (fst e) (fst (snd e)) (snd (snd e))) es q)"
  by (induction es arbitrary: q) (simp_all add: ok_enq)

lemma waiting_enqs:
  "ok q \<Longrightarrow> sort_key fst (waiting m q) = waiting m q \<Longrightarrow>
   waiting m (fold (\<lambda>e. enq (fst e) (fst (snd e)) (snd (snd e))) es q) =
     sort_key fst (waiting m q @ map (\<lambda>e. (snd (snd e), fst (snd e))) (filter (\<lambda>e. fst e = m) es))"
proof (induction es arbitrary: q)
  case (Cons e es)
  let ?q = "enq (fst e) (fst (snd e)) (snd (snd e)) q"
  have sorted: "sort_key fst (waiting m ?q) = waiting m ?q"
    using Cons.prems by (simp add: waiting_enq)
  have "waiting m (fold (\<lambda>e. enq (fst e) (fst (snd e)) (snd (snd e))) (e # es) q) =
      sort_key fst (waiting m ?q @ map (\<lambda>e. (snd (snd e), fst (snd e))) (filter (\<lambda>e. fst e = m) es))"
    using Cons.IH [OF ok_enq [OF Cons.prems(1)] sorted] by simp
  also have "\<dots> = sort_key fst (waiting m q @ map (\<lambda>e. (snd (snd e), fst (snd e))) (filter (\<lambda>e. fst e = m) (e # es)))"
    using Cons.prems by (simp add: waiting_enq sort_key_append_sorted)
  finally show ?case .
qed simp

end

section \<open>The pending queue is such a queue\<close>

lemma insort_key_map: "insort_key f (g x) (map g ys) = map g (insort_key (\<lambda>y. f (g y)) x ys)"
  by (induction ys) auto

lemma sort_key_map: "sort_key f (map g xs) = map g (sort_key (\<lambda>x. f (g x)) xs)"
  by (induction xs) (simp_all add: insort_key_map)

definition pq_ok :: "PendingQueue \<Rightarrow> bool" where
  "pq_ok q \<longleftrightarrow> pq_dbValid q \<and> pq_home q \<noteq> None \<and> sorted (map pr_sequence (pq_rows q)) \<and>
     (\<forall>r \<in> set (pq_rows q). pr_sequence r \<le> pq_lastSequence q)"

definition pq_waiting :: "byte \<Rightarrow> PendingQueue \<Rightarrow> (byte \<times> bytes) list" where
  "pq_waiting nodeId q = map (\<lambda>r. (pr_priority r, pr_payload r)) (pending_SELECT (the (pq_home q)) nodeId q)"

text \<open>Rows are inserted in the order of their sequence, so sorting by it changes nothing.\<close>

lemma pending_SELECT_ordered:
  "sorted (map pr_sequence (pq_rows q)) \<Longrightarrow> pending_SELECT home n q =
     sort_key pr_priority (filter (\<lambda>r. pr_home r = home \<and> pr_node r = n) (pq_rows q))"
  by (simp add: pending_SELECT_def sorted_filter sort_key_id_if_sorted)

lemma pq_waiting_ordered:
  "pq_ok q \<Longrightarrow> pq_waiting n q = sort_key fst (map (\<lambda>r. (pr_priority r, pr_payload r))
     (filter (\<lambda>r. pr_home r = the (pq_home q) \<and> pr_node r = n) (pq_rows q)))"
  by (simp add: pq_ok_def pq_waiting_def pending_SELECT_ordered sort_key_map)

lemma pq_ok_enqueue: "pq_ok q \<Longrightarrow> pq_ok (snd (pq_enqueue n p pr q))"
  by (auto simp: pq_ok_def pq_enqueue_def pending_INSERT_def Let_def sorted_append le_Suc_eq)

lemma pq_waiting_enqueue:
  assumes "pq_ok q"
  shows "pq_waiting m (snd (pq_enqueue n p pr q)) =
    (if m = n then sort_key fst (pq_waiting m q @ [(pr, p)]) else pq_waiting m q)"
  using pq_waiting_ordered [OF assms] pq_waiting_ordered [OF pq_ok_enqueue [OF assms], of m n p pr] assms
  by (auto simp: pq_ok_def pq_enqueue_def pending_INSERT_def Let_def sort_key_append_sorted)

lemma pq_ok_delete: "pq_ok q \<Longrightarrow> pq_ok (pending_DELETE home n q)"
  by (auto simp: pq_ok_def pending_DELETE_def sorted_filter)

lemma pq_ok_drain: "pq_ok q \<Longrightarrow> pq_ok (snd (snd (pq_drain n q)))"
  by (auto simp: pq_drain_def Let_def pq_ok_delete split: option.splits)

lemma pending_SELECT_delete:
  "pending_SELECT home m (pending_DELETE home n q) = (if m = n then [] else pending_SELECT home m q)"
proof -
  have "filter (\<lambda>r. pr_home r = home \<and> pr_node r = m) (pq_rows (pending_DELETE home n q)) =
      (if m = n then [] else filter (\<lambda>r. pr_home r = home \<and> pr_node r = m) (pq_rows q))"
    by (auto simp: pending_DELETE_def intro: filter_cong)
  then show ?thesis unfolding pending_SELECT_def by simp
qed

lemma pq_home_drain [simp]: "pq_home (snd (snd (pq_drain n q))) = pq_home q"
  by (simp add: pq_drain_def pending_DELETE_def Let_def split: option.splits)

lemma pq_waiting_drain:
  "pq_ok q \<Longrightarrow> pq_waiting m (snd (snd (pq_drain n q))) = (if m = n then [] else pq_waiting m q)"
  unfolding pq_waiting_def pq_home_drain
  by (auto simp: pq_ok_def pq_drain_def pending_SELECT_delete Let_def)

interpretation pendingQueue: node_queue pq_ok "\<lambda>n p pr q. snd (pq_enqueue n p pr q)" pq_waiting
  "\<lambda>n q. snd (snd (pq_drain n q))"
  by unfold_locales (simp_all add: pq_ok_enqueue pq_ok_drain pq_waiting_enqueue pq_waiting_drain)

lemma pq_drain_waiting: "pq_ok q \<Longrightarrow> fst (pq_drain n q) = filter (\<lambda>p. p \<noteq> []) (map snd (pq_waiting n q))"
  by (auto simp: pq_ok_def pq_drain_def pq_waiting_def Let_def comp_def)

text \<open>A restart of the daemon, bound to the same network again.\<close>

definition pq_restart :: "bytes \<Rightarrow> PendingQueue \<Rightarrow> PendingQueue" where
  "pq_restart home q = pq_setHomeId home (pq_reopen q)"

lemma pq_restart_same: "pq_home q = Some (formatHomeId home) \<Longrightarrow> pq_restart home q = q"
  by (simp add: pq_restart_def pq_setHomeId_def pq_reopen_def)

lemma pq_home_enqueue [simp]: "pq_home (snd (pq_enqueue n p pr q)) = pq_home q"
  by (simp add: pq_enqueue_def pending_INSERT_def Let_def split: option.splits)

text \<open>Queueing a list of commands, each with its node and priority.\<close>

definition enqueueAll :: "(byte \<times> bytes \<times> byte) list \<Rightarrow> PendingQueue \<Rightarrow> PendingQueue" where
  "enqueueAll es = fold (\<lambda>e q. snd (pq_enqueue (fst e) (fst (snd e)) (snd (snd e)) q)) es"

lemma pq_home_enqueueAll [simp]: "pq_home (enqueueAll es q) = pq_home q"
  by (induction es arbitrary: q) (simp_all add: enqueueAll_def)

lemma pq_ok_enqueueAll: "pq_ok q \<Longrightarrow> pq_ok (enqueueAll es q)"
  unfolding enqueueAll_def by (rule pendingQueue.ok_enqs)

lemma pq_waiting_enqueueAll:
  assumes "pq_ok q" and "pq_waiting m q = []"
  shows "pq_waiting m (enqueueAll es q) =
    sort_key fst (map (\<lambda>e. (snd (snd e), fst (snd e))) (filter (\<lambda>e. fst e = m) es))"
  unfolding enqueueAll_def using pendingQueue.waiting_enqs [OF assms(1), of m es] assms(2) by simp

lemma pq_peek_drain:
  "pq_ok q \<Longrightarrow> pq_peek m (snd (snd (pq_drain n q))) = (if m = n then [] else pq_peek m q)"
  unfolding pq_peek_def pq_home_drain
  by (auto simp: pq_ok_def pq_drain_def pending_SELECT_delete Let_def) (simp_all add: pending_DELETE_def)

text \<open>
  C12: the pending queue delivers what was queued: the commands queued for a node, in any order and
  among commands for other nodes, come out once, stably sorted by priority, also after a restart of
  the daemon in between; a command without content is dropped; afterwards nothing is left for the
  node, and what waits for other nodes is untouched.
\<close>

theorem pending_delivery:
  fixes es :: "(byte \<times> bytes \<times> byte) list"
  assumes "pq_ok q" and "pq_waiting m q = []" and "pq_home q = Some (formatHomeId home)"
  defines "q1 \<equiv> pq_restart home (enqueueAll es q)"
  shows "fst (pq_drain m q1) =
       filter (\<lambda>p. p \<noteq> []) (map (\<lambda>e. fst (snd e)) (sort_key (\<lambda>e. snd (snd e)) (filter (\<lambda>e. fst e = m) es))) \<and>
     pq_peek m (snd (snd (pq_drain m q1))) = [] \<and>
     (\<forall>n. n \<noteq> m \<longrightarrow> pq_peek n (snd (snd (pq_drain m q1))) = pq_peek n q1)"
proof -
  have q1: "q1 = enqueueAll es q" by (simp add: q1_def pq_restart_same assms(3))
  have ok: "pq_ok q1" by (simp add: q1 pq_ok_enqueueAll assms(1))
  have "map snd (pq_waiting m q1) =
      map (\<lambda>e. fst (snd e)) (sort_key (\<lambda>e. snd (snd e)) (filter (\<lambda>e. fst e = m) es))"
    by (simp add: q1 pq_waiting_enqueueAll [OF assms(1,2)] sort_key_map)
  then show ?thesis by (simp add: pq_drain_waiting [OF ok] pq_peek_drain [OF ok])
qed

definition demoPendingQueue :: PendingQueue where
  "demoPendingQueue = \<lparr>pq_dbValid = True, pq_home = Some (formatHomeId [0xE2, 0xA1, 0xB0, 0x7C]), pq_rows = [], pq_lastSequence = 0\<rparr>"

lemma demoPendingQueue_ok: "pq_ok demoPendingQueue" "pq_waiting m demoPendingQueue = []"
  by (simp_all add: demoPendingQueue_def pq_ok_def pq_waiting_def pending_SELECT_def)

theorem pending_delivery_witness:
  "fst (pq_drain 7 (pq_restart [0xE2, 0xA1, 0xB0, 0x7C] (enqueueAll
      [(7, [0x25, 0x02], PRIORITY_NORMAL), (9, [0x20, 0x02], PRIORITY_HIGH), (7, [0x84, 0x05], PRIORITY_HIGH)] demoPendingQueue))) =
   [[0x84, 0x05], [0x25, 0x02]]"
  using pending_delivery [OF demoPendingQueue_ok, of "[0xE2, 0xA1, 0xB0, 0x7C]" 7
      "[(7, [0x25, 0x02], PRIORITY_NORMAL), (9, [0x20, 0x02], PRIORITY_HIGH), (7, [0x84, 0x05], PRIORITY_HIGH)]"]
  by (simp add: demoPendingQueue_def PRIORITY_NORMAL_def PRIORITY_HIGH_def)

section \<open>A wake-up cycle\<close>

fun wakeCommands :: "wakeEvent list \<Rightarrow> busCommand list" where
  "wakeCommands [] = []"
| "wakeCommands (WuCommand c # evs) = c # wakeCommands evs"
| "wakeCommands (_ # evs) = wakeCommands evs"

lemma wakeCommands_append [simp]: "wakeCommands (xs @ ys) = wakeCommands xs @ wakeCommands ys"
  by (induction xs rule: wakeCommands.induct) simp_all

lemma wakeCommands_maps [simp]:
  "wakeCommands (map WuQueue evs) = []" "wakeCommands (map (\<lambda>x. WuCommand (f x)) xs) = map f xs"
  by (induction evs, simp_all) (induction xs, simp_all)

lemma onWakeUpNotification_commands:
  "wakeCommands (fst (onWakeUpNotification n q)) =
     map (SendDataCommand n ORCHESTRATOR_NO_CALLBACK) (fst (pq_drain n q)) @ [SendWakeUpNoMoreInformationCommand n ORCHESTRATOR_NO_CALLBACK]"
  by (simp add: onWakeUpNotification_def split: prod.splits)

text \<open>The request a plain node is sent.\<close>

definition plainRequest :: "byte \<Rightarrow> bytes \<Rightarrow> Request" where
  "plainRequest n p = ReqSendData \<lparr>sd_nodeId = n, sd_data = p, sd_txOptions = TRANSMIT_OPTION_DEFAULT,
     sd_callbackId = ORCHESTRATOR_NO_CALLBACK\<rparr>"

lemma runSteps_plain:
  assumes "\<not> nr_isSecure n (pt_registry pt)"
  shows "runSteps (onBusCommand g) (map (SendDataCommand n ORCHESTRATOR_NO_CALLBACK) ps) pt =
     ([], pt\<lparr>pt_queue := pt_queue pt @ map (plainRequest n) ps\<rparr>)"
  using assms
proof (induction ps arbitrary: pt)
  case (Cons p ps)
  have "onBusCommand g (SendDataCommand n ORCHESTRATOR_NO_CALLBACK p) pt = ([], pt\<lparr>pt_queue := pt_queue pt @ [plainRequest n p]\<rparr>)"
    using Cons.prems by (simp add: onSendData_def pushSendData_def pushRequest_def plainRequest_def)
  then show ?case
    using Cons.IH [of "pt\<lparr>pt_queue := pt_queue pt @ [plainRequest n p]\<rparr>"] Cons.prems by simp
qed simp

text \<open>
  C7: a wake-up cycle end to end, from the commands queued for a sleeping node to the requests for the
  dongle: when a node without security wakes up, the commands queued for it enter the request queue,
  stably ordered by priority, followed by the one command that sends the node back to sleep; nothing
  is left for the node.
\<close>

theorem wakeup_cycle:
  assumes "pq_ok q" and "pq_waiting n q = []" and "\<not> nr_isSecure n (pt_registry pt)"
    and "onWakeUpNotification n (enqueueAll es q) = (evs, q')"
  shows "runSteps (onBusCommand g) (wakeCommands evs) pt =
       ([], pt\<lparr>pt_queue := pt_queue pt @
          map (plainRequest n) (filter (\<lambda>p. p \<noteq> []) (map (\<lambda>e. fst (snd e))
            (sort_key (\<lambda>e. snd (snd e)) (filter (\<lambda>e. fst e = n) es)))) @
          [plainRequest n (gc_WakeUp_encodeNoMoreInformation g)]\<rparr>) \<and>
     pq_waiting n q' = []"
proof -
  have ok: "pq_ok (enqueueAll es q)" by (rule pq_ok_enqueueAll [OF assms(1)])
  have q': "q' = snd (snd (pq_drain n (enqueueAll es q)))"
    using assms(4) by (auto simp: onWakeUpNotification_def split: prod.splits)
  have evs: "wakeCommands evs = map (SendDataCommand n ORCHESTRATOR_NO_CALLBACK) (fst (pq_drain n (enqueueAll es q))) @
      [SendWakeUpNoMoreInformationCommand n ORCHESTRATOR_NO_CALLBACK]"
    using onWakeUpNotification_commands [of n "enqueueAll es q"] assms(4) by simp
  have drained: "fst (pq_drain n (enqueueAll es q)) = filter (\<lambda>p. p \<noteq> []) (map (\<lambda>e. fst (snd e))
      (sort_key (\<lambda>e. snd (snd e)) (filter (\<lambda>e. fst e = n) es)))"
    by (simp add: pq_drain_waiting [OF ok] pq_waiting_enqueueAll [OF assms(1,2)] sort_key_map comp_def)
  show ?thesis
    using assms(3)
    by (simp add: evs drained runSteps_append runSteps_plain onSendWakeUpNoMoreInformation_def pushSendData_def
        pushRequest_def plainRequest_def q' pq_waiting_drain [OF ok])
qed

theorem wakeup_cycle_witness:
  "map (\<lambda>r. case r of ReqSendData d \<Rightarrow> sd_data d | _ \<Rightarrow> []) (pt_queue (snd (runSteps (onBusCommand demoCodecs)
     (wakeCommands (fst (onWakeUpNotification 7 (enqueueAll [(7, [0x25, 0x02], 100), (7, [0x84, 0x05], 50)] demoPendingQueue))))
     demoProtocol))) = [[0x84, 0x05], [0x25, 0x02], [0x84, 0x08]]"
proof -
  let ?es = "[(7, [0x25, 0x02], 100), (7, [0x84, 0x05], 50)]"
  obtain evs q' where w: "onWakeUpNotification 7 (enqueueAll ?es demoPendingQueue) = (evs, q')" by (rule prod.exhaust)
  have "\<not> nr_isSecure 7 (pt_registry demoProtocol)"
    by (simp add: demoProtocol_def nr_isSecure_def demoRegistry_def restarted_nodes loadNodesForHome_def)
  from wakeup_cycle [OF demoPendingQueue_ok this w, of demoCodecs] w show ?thesis
    by (simp add: plainRequest_def demoProtocol_def demoCodecs_def)
qed

end
