(* ===== verification/Interview.thy ===== *)
theory Interview
  imports Pending_Queue Command_Classes "HOL-Library.Sublist"
begin

text \<open>
  The interview of a node that joined the network,
  \<open>src/src/orchestrator/InterviewOrchestrator.cpp\<close>: a session per node that asks one question
  after the other and advances on the matching reports, live for a node that is always on, through
  the pending queue for a sleeping one, and only after the security bootstrap for a node that
  advertises a security class.
\<close>

section \<open>Sessions\<close>

definition CC_MULTI_CHANNEL_MARKER :: byte where "CC_MULTI_CHANNEL_MARKER = 0x60"
definition CC_WAKE_UP_MARKER :: byte where "CC_WAKE_UP_MARKER = 0x84"
definition CC_SECURITY_0_MARKER :: byte where "CC_SECURITY_0_MARKER = 0x98"
definition CC_SECURITY_2_MARKER :: byte where "CC_SECURITY_2_MARKER = 0x9F"
definition SCHEME_NONE :: byte where "SCHEME_NONE = 0x00"

datatype Step = StepManufacturerSpecific | StepVersion | StepEndpoints | StepZWavePlus

record InterviewSession =
  is_steps :: "Step list"
  is_index :: nat
  is_started :: bool
  is_viaQueue :: bool

definition MANUFACTURER_SPECIFIC_GET :: byte where "MANUFACTURER_SPECIFIC_GET = 0x04"
definition VERSION_GET :: byte where "VERSION_GET = 0x11"
definition ZWAVEPLUS_INFO_GET :: byte where "ZWAVEPLUS_INFO_GET = 0x01"

fun payloadForStep :: "Step \<Rightarrow> bytes" where
  "payloadForStep StepManufacturerSpecific = [CC_MANUFACTURER_SPECIFIC, MANUFACTURER_SPECIFIC_GET]"
| "payloadForStep StepVersion = [CC_VERSION, VERSION_GET]"
| "payloadForStep StepEndpoints = [CC_MULTI_CHANNEL, MULTI_CHANNEL_ENDPOINT_GET]"
| "payloadForStep StepZWavePlus = [CC_ZWAVEPLUS_INFO, ZWAVEPLUS_INFO_GET]"

fun stepCommand :: "byte \<Rightarrow> Step \<Rightarrow> busCommand" where
  "stepCommand nodeId StepManufacturerSpecific = GetManufacturerSpecificCommand nodeId ORCHESTRATOR_NO_CALLBACK"
| "stepCommand nodeId StepVersion = GetNodeVersionCommand nodeId ORCHESTRATOR_NO_CALLBACK"
| "stepCommand nodeId StepEndpoints = GetMultiChannelEndpointsCommand nodeId ORCHESTRATOR_NO_CALLBACK"
| "stepCommand nodeId StepZWavePlus = GetZWavePlusInfoCommand nodeId ORCHESTRATOR_NO_CALLBACK"

datatype interviewEvent =
    IvCommand busCommand
  | IvQueue queueEvent
  | PubNodeInterviewComplete byte

record Interviews =
  iv_sessions :: "byte \<rightharpoonup> InterviewSession"
  iv_queue :: PendingQueue

definition sendStep :: "byte \<Rightarrow> Step \<Rightarrow> interviewEvent list" where
  "sendStep nodeId step = [IvCommand (stepCommand nodeId step)]"

fun enqueueSteps :: "byte \<Rightarrow> Step list \<Rightarrow> PendingQueue \<Rightarrow> interviewEvent list \<times> PendingQueue" where
  "enqueueSteps nodeId [] q = ([], q)"
| "enqueueSteps nodeId (step # steps) q =
     (case pq_enqueue nodeId (payloadForStep step) PRIORITY_NORMAL q of
        (evs, q1) \<Rightarrow> (case enqueueSteps nodeId steps q1 of (evs2, q2) \<Rightarrow> (map IvQueue evs @ evs2, q2)))"

definition beginInterview :: "byte \<Rightarrow> InterviewSession \<Rightarrow> Interviews \<Rightarrow> interviewEvent list \<times> Interviews" where
  "beginInterview nodeId session st =
     (let session1 = session\<lparr>is_started := True, is_index := 0\<rparr>;
          st1 = st\<lparr>iv_sessions := (iv_sessions st)(nodeId \<mapsto> session1)\<rparr>
      in if is_viaQueue session
         then (case enqueueSteps nodeId (is_steps session) (iv_queue st) of
                 (evs, q1) \<Rightarrow> (evs, st1\<lparr>iv_queue := q1\<rparr>))
         else (sendStep nodeId (is_steps session ! 0), st1))"

text \<open>Advance a session if the report matches the step it awaits.\<close>

definition advance :: "byte \<Rightarrow> Step \<Rightarrow> Interviews \<Rightarrow> interviewEvent list \<times> Interviews" where
  "advance nodeId completed st =
     (case iv_sessions st nodeId of
        None \<Rightarrow> ([], st)
      | Some session \<Rightarrow>
          if \<not> is_started session \<or> is_index session \<ge> length (is_steps session) \<or>
             is_steps session ! is_index session \<noteq> completed
          then ([], st)
          else let session1 = session\<lparr>is_index := is_index session + 1\<rparr> in
            if is_index session1 \<ge> length (is_steps session1)
            then ([PubNodeInterviewComplete nodeId], st\<lparr>iv_sessions := (iv_sessions st)(nodeId := None)\<rparr>)
            else (if is_viaQueue session1 then [] else sendStep nodeId (is_steps session1 ! is_index session1),
                  st\<lparr>iv_sessions := (iv_sessions st)(nodeId \<mapsto> session1)\<rparr>))"

definition sessionFor :: "bytes \<Rightarrow> InterviewSession" where
  "sessionFor ccs =
     \<lparr>is_steps = [StepManufacturerSpecific, StepVersion] @
        (if CC_MULTI_CHANNEL_MARKER \<in> set ccs then [StepEndpoints] else []) @
        (if CC_ZWAVEPLUS_INFO \<in> set ccs then [StepZWavePlus] else []),
      is_index = 0, is_started = False, is_viaQueue = CC_WAKE_UP_MARKER \<in> set ccs\<rparr>"

definition iv_onNodeIncluded :: "byte \<Rightarrow> bytes \<Rightarrow> Interviews \<Rightarrow> interviewEvent list \<times> Interviews" where
  "iv_onNodeIncluded nodeId ccs st =
     (let session = sessionFor ccs;
          st1 = st\<lparr>iv_sessions := (iv_sessions st)(nodeId \<mapsto> session)\<rparr>
      in if CC_SECURITY_0_MARKER \<in> set ccs \<or> CC_SECURITY_2_MARKER \<in> set ccs then ([], st1)
         else beginInterview nodeId session st1)"

definition iv_onNodeSecurityStatus :: "byte \<Rightarrow> byte \<Rightarrow> Interviews \<Rightarrow> interviewEvent list \<times> Interviews" where
  "iv_onNodeSecurityStatus nodeId scheme st =
     (if scheme = SCHEME_NONE then ([], st)
      else case iv_sessions st nodeId of
          None \<Rightarrow> ([], st)
        | Some session \<Rightarrow> if \<not> is_started session then beginInterview nodeId session st else ([], st))"

section \<open>The orchestrator as a reactor\<close>

text \<open>The events it subscribes to; a report carries its sender only.\<close>

datatype interviewInput =
    NodeIncluded byte bytes
  | NodeSecurityStatus byte byte
  | Report byte Step

fun onInterviewInput :: "interviewInput \<Rightarrow> Interviews \<Rightarrow> interviewEvent list \<times> Interviews" where
  "onInterviewInput (NodeIncluded nodeId ccs) st = iv_onNodeIncluded nodeId ccs st"
| "onInterviewInput (NodeSecurityStatus nodeId scheme) st = iv_onNodeSecurityStatus nodeId scheme st"
| "onInterviewInput (Report nodeId step) st = advance nodeId step st"

section \<open>Progress\<close>

fun completions :: "byte \<Rightarrow> interviewEvent list \<Rightarrow> nat" where
  "completions n [] = 0"
| "completions n (PubNodeInterviewComplete m # evs) = (if m = n then 1 else 0) + completions n evs"
| "completions n (_ # evs) = completions n evs"

lemma completions_append [simp]: "completions n (xs @ ys) = completions n xs + completions n ys"
  by (induction n xs rule: completions.induct) simp_all

text \<open>The questions put to a node directly.\<close>

fun asked :: "byte \<Rightarrow> interviewEvent list \<Rightarrow> busCommand list" where
  "asked n [] = []"
| "asked n (IvCommand c # evs) = (if c \<in> range (stepCommand n) then [c] else []) @ asked n evs"
| "asked n (_ # evs) = asked n evs"

lemma asked_append [simp]: "asked n (xs @ ys) = asked n xs @ asked n ys"
  by (induction n xs rule: asked.induct) simp_all

lemma stepCommand_other [simp]: "stepCommand m s \<in> range (stepCommand n) \<longleftrightarrow> m = n"
proof
  show "m = n" if "stepCommand m s \<in> range (stepCommand n)"
  proof -
    from that obtain s' where "stepCommand m s = stepCommand n s'" by blast
    then show "m = n" by (cases s; cases s') simp_all
  qed
qed auto

fun reportsOf :: "byte \<Rightarrow> (byte \<times> Step) list \<Rightarrow> Step list" where
  "reportsOf n [] = []"
| "reportsOf n ((m, s) # rs) = (if m = n then [s] else []) @ reportsOf n rs"

abbreviation feedReports :: "(byte \<times> Step) list \<Rightarrow> Interviews \<Rightarrow> interviewEvent list \<times> Interviews" where
  "feedReports rs st \<equiv> runSteps onInterviewInput (map (\<lambda>(m, s). Report m s) rs) st"

lemma advance_other:
  assumes "m \<noteq> n"
  shows "iv_sessions (snd (advance m s st)) n = iv_sessions st n" "completions n (fst (advance m s st)) = 0"
    "asked n (fst (advance m s st)) = []"
  using assms by (auto simp: advance_def sendStep_def Let_def split: option.splits)

lemma advance_none: "iv_sessions st n = None \<Longrightarrow> advance n s st = ([], st)"
  by (simp add: advance_def)

lemma finished_silent:
  "iv_sessions st n = None \<Longrightarrow> completions n (fst (feedReports rs st)) = 0 \<and> asked n (fst (feedReports rs st)) = []"
proof (induction rs arbitrary: st)
  case (Cons r rs)
  obtain m s where r: "r = (m, s)" by (rule prod.exhaust)
  show ?case
  proof (cases "m = n")
    case True
    then show ?thesis using Cons r by (simp add: advance_none)
  next
    case False
    obtain e st1 where a: "advance m s st = (e, st1)" by (rule prod.exhaust)
    then show ?thesis
      using Cons.IH [of st1] Cons.prems advance_other [OF False, of s st] r by (auto split: prod.splits)
  qed
qed simp

definition inProgress :: "byte \<Rightarrow> InterviewSession \<Rightarrow> Interviews \<Rightarrow> bool" where
  "inProgress n ses st \<longleftrightarrow>
     iv_sessions st n = Some ses \<and> is_started ses \<and> is_index ses < length (is_steps ses)"

definition awaited :: "InterviewSession \<Rightarrow> Step list" where
  "awaited ses = drop (is_index ses) (is_steps ses)"

lemma awaited_next:
  "is_index ses < length (is_steps ses) \<Longrightarrow>
   awaited ses = is_steps ses ! is_index ses # awaited (ses\<lparr>is_index := Suc (is_index ses)\<rparr>)"
  by (simp add: awaited_def Cons_nth_drop_Suc)

lemma advance_mismatch:
  assumes "inProgress n ses st" and "\<not> (m = n \<and> s = is_steps ses ! is_index ses)"
    and "advance m s st = (e, st1)"
  shows "inProgress n ses st1 \<and> completions n e = 0 \<and> asked n e = []"
proof (cases "m = n")
  case True
  then show ?thesis using assms by (simp add: inProgress_def advance_def)
next
  case False
  then show ?thesis using advance_other [OF False, of s st] assms by (simp add: inProgress_def)
qed

lemma advance_match:
  assumes "inProgress n ses st" and "advance n (is_steps ses ! is_index ses) st = (e, st1)"
    and "Suc (is_index ses) < length (is_steps ses)"
  shows "inProgress n (ses\<lparr>is_index := Suc (is_index ses)\<rparr>) st1 \<and> completions n e = 0 \<and>
     asked n e = (if is_viaQueue ses then [] else [stepCommand n (is_steps ses ! Suc (is_index ses))])"
  using assms by (auto simp: inProgress_def advance_def sendStep_def Let_def)

lemma advance_last:
  assumes "inProgress n ses st" and "advance n (is_steps ses ! is_index ses) st = (e, st1)"
    and "\<not> Suc (is_index ses) < length (is_steps ses)"
  shows "iv_sessions st1 n = None \<and> completions n e = 1 \<and> asked n e = []"
  using assms by (auto simp: inProgress_def advance_def Let_def)

lemma feedReports_Cons:
  "advance m s st = (e, st1) \<Longrightarrow> fst (feedReports ((m, s) # rs) st) = e @ fst (feedReports rs st1)"
  by (simp split: prod.splits)

text \<open>A session in progress completes exactly when its remaining steps are reported in order.\<close>

lemma session_progress:
  "inProgress n ses st \<Longrightarrow>
   completions n (fst (feedReports rs st)) = (if subseq (awaited ses) (reportsOf n rs) then 1 else 0) \<and>
   (\<not> is_viaQueue ses \<longrightarrow> subseq (awaited ses) (reportsOf n rs) \<longrightarrow>
    asked n (fst (feedReports rs st)) = map (stepCommand n) (awaited (ses\<lparr>is_index := Suc (is_index ses)\<rparr>)))"
proof (induction rs arbitrary: st ses)
  case Nil
  then show ?case by (simp add: inProgress_def awaited_next)
next
  case (Cons r rs)
  obtain m s where r: "r = (m, s)" by (rule prod.exhaust)
  obtain e st1 where a: "advance m s st = (e, st1)" by (rule prod.exhaust)
  have len: "is_index ses < length (is_steps ses)" using Cons.prems by (simp add: inProgress_def)
  let ?ses = "ses\<lparr>is_index := Suc (is_index ses)\<rparr>"
  show ?case
  proof (cases "m = n \<and> s = is_steps ses ! is_index ses")
    case False
    have "subseq (awaited ses) (reportsOf n (r # rs)) \<longleftrightarrow> subseq (awaited ses) (reportsOf n rs)"
      unfolding awaited_next [OF len] using False r by (auto simp: subseq_Cons2_iff)
    with advance_mismatch [OF Cons.prems False a] Cons.IH [of ses st1] show ?thesis
      unfolding r feedReports_Cons [OF a] by simp
  next
    case True
    then have a': "advance n (is_steps ses ! is_index ses) st = (e, st1)" using a by simp
    have sub: "subseq (awaited ses) (reportsOf n (r # rs)) \<longleftrightarrow> subseq (awaited ?ses) (reportsOf n rs)"
      unfolding awaited_next [OF len] using True r by simp
    show ?thesis
    proof (cases "Suc (is_index ses) < length (is_steps ses)")
      case more: True
      then show ?thesis
        using advance_match [OF Cons.prems a' more] Cons.IH [of ?ses st1] awaited_next [of ?ses] sub
        unfolding r feedReports_Cons [OF a] by simp
    next
      case last: False
      then have "awaited ?ses = []" by (simp add: awaited_def)
      with advance_last [OF Cons.prems a' last] finished_silent [of st1 n rs] sub show ?thesis
        unfolding r feedReports_Cons [OF a] by simp
    qed
  qed
qed

abbreviation plainClasses :: "bytes \<Rightarrow> bool" where
  "plainClasses ccs \<equiv> CC_SECURITY_0_MARKER \<notin> set ccs \<and> CC_SECURITY_2_MARKER \<notin> set ccs"

lemma enqueueSteps_Cons:
  "fst (enqueueSteps n (s # ss) q) = map IvQueue (fst (pq_enqueue n (payloadForStep s) PRIORITY_NORMAL q)) @
     fst (enqueueSteps n ss (snd (pq_enqueue n (payloadForStep s) PRIORITY_NORMAL q)))"
  "snd (enqueueSteps n (s # ss) q) = snd (enqueueSteps n ss (snd (pq_enqueue n (payloadForStep s) PRIORITY_NORMAL q)))"
  by (simp_all split: prod.splits)

lemma enqueueSteps_events: "completions n (fst (enqueueSteps m ss q)) = 0 \<and> asked n (fst (enqueueSteps m ss q)) = []"
proof -
  have none: "completions n (map IvQueue es) = 0 \<and> asked n (map IvQueue es) = []" for es
    by (induction es) simp_all
  show ?thesis
    by (induction ss arbitrary: q) (simp_all add: none enqueueSteps_Cons del: enqueueSteps.simps(2))
qed

lemma enqueueSteps_queue:
  "snd (enqueueSteps n ss q) = enqueueAll (map (\<lambda>s. (n, payloadForStep s, PRIORITY_NORMAL)) ss) q"
  by (induction ss arbitrary: q) (simp_all add: enqueueAll_def enqueueSteps_Cons del: enqueueSteps.simps(2))

lemma sessionFor_steps: "is_steps (sessionFor ccs) \<noteq> []" "is_steps (sessionFor ccs) ! 0 = StepManufacturerSpecific"
  by (simp_all add: sessionFor_def)

lemma started_session:
  assumes "plainClasses ccs" and "iv_onNodeIncluded n ccs st = (evs, st0)"
  shows "inProgress n ((sessionFor ccs)\<lparr>is_started := True\<rparr>) st0"
    and "completions n evs = 0"
    and "asked n evs = (if is_viaQueue (sessionFor ccs) then [] else [stepCommand n StepManufacturerSpecific])"
proof -
  have i0: "is_index (sessionFor ccs) = 0" by (simp add: sessionFor_def)
  obtain e q1 where q: "enqueueSteps n (is_steps (sessionFor ccs)) (iv_queue st) = (e, q1)" by (rule prod.exhaust)
  have first: "GetManufacturerSpecificCommand n ORCHESTRATOR_NO_CALLBACK \<in> range (stepCommand n)"
    by (rule range_eqI [of _ _ StepManufacturerSpecific]) simp
  have none: "completions n e = 0" "asked n e = []"
    using enqueueSteps_events [of n n "is_steps (sessionFor ccs)" "iv_queue st"] q by simp_all
  show "inProgress n ((sessionFor ccs)\<lparr>is_started := True\<rparr>) st0"
    "completions n evs = 0"
    "asked n evs = (if is_viaQueue (sessionFor ccs) then [] else [stepCommand n StepManufacturerSpecific])"
    using assms q none sessionFor_steps i0 first
    by (auto simp: iv_onNodeIncluded_def beginInterview_def Let_def inProgress_def sendStep_def split: if_splits)
qed



lemma constant_sorted: "sorted (map (\<lambda>x. c) xs)"
  by (induction xs) simp_all

text \<open>
  A sleeping node is interviewed in its next waking window: nothing is sent when it joins, and
  when it wakes up it receives the questions of the interview, in order, and then the command to go
  back to sleep.
\<close>

theorem sleeping_interview:
  assumes "CC_SECURITY_0_MARKER \<notin> set ccs" and "CC_SECURITY_2_MARKER \<notin> set ccs" and "CC_WAKE_UP_MARKER \<in> set ccs"
    and "pq_ok (iv_queue st)" and "pq_waiting n (iv_queue st) = []"
    and "iv_onNodeIncluded n ccs st = (evs, st1)"
    and "onWakeUpNotification n (iv_queue st1) = (wevs, q')"
  shows "asked n evs = [] \<and>
     wakeCommands wevs =
       map (\<lambda>s. SendDataCommand n ORCHESTRATOR_NO_CALLBACK (payloadForStep s)) (is_steps (sessionFor ccs)) @
       [SendWakeUpNoMoreInformationCommand n ORCHESTRATOR_NO_CALLBACK] \<and>
     pq_waiting n q' = []"
proof -
  let ?steps = "is_steps (sessionFor ccs)"
  let ?es = "map (\<lambda>s. (n, payloadForStep s, PRIORITY_NORMAL)) ?steps"
  have via: "is_viaQueue (sessionFor ccs)" using assms(3) by (simp add: sessionFor_def)
  have q: "iv_queue st1 = enqueueAll ?es (iv_queue st)"
    using assms(1,2,6) via enqueueSteps_queue [of n ?steps "iv_queue st"]
    by (auto simp: iv_onNodeIncluded_def beginInterview_def Let_def split: prod.splits)
  have ok: "pq_ok (iv_queue st1)" unfolding q by (rule pq_ok_enqueueAll [OF assms(4)])
  have "pq_waiting n (iv_queue st1) = sort_key fst (map (\<lambda>s. (PRIORITY_NORMAL, payloadForStep s)) ?steps)"
    unfolding q using pq_waiting_enqueueAll [OF assms(4,5)] by (simp add: comp_def)
  also have "\<dots> = map (\<lambda>s. (PRIORITY_NORMAL, payloadForStep s)) ?steps"
    by (rule sort_key_id_if_sorted) (simp add: comp_def constant_sorted)
  finally have "fst (pq_drain n (iv_queue st1)) = filter (\<lambda>p. p \<noteq> []) (map payloadForStep ?steps)"
    by (simp add: pq_drain_waiting [OF ok] comp_def)
  moreover have "payloadForStep s \<noteq> []" for s by (cases s) simp_all
  ultimately have d: "fst (pq_drain n (iv_queue st1)) = map payloadForStep ?steps" by (simp add: filter_True)
  have "q' = snd (snd (pq_drain n (iv_queue st1)))"
    using assms(7) by (auto simp: onWakeUpNotification_def split: prod.splits)
  then have "pq_waiting n q' = []" by (simp add: pq_waiting_drain [OF ok])
  moreover have "asked n evs = []" using started_session(3) [OF _ assms(6)] assms(1,2) via by simp
  ultimately show ?thesis
    using onWakeUpNotification_commands [of n "iv_queue st1"] assms(7) d by (simp add: comp_def)
qed

theorem sleeping_interview_witness:
  "wakeCommands (fst (onWakeUpNotification 7 (iv_queue (snd (iv_onNodeIncluded 7 [0x84, 0x80]
      \<lparr>iv_sessions = Map.empty, iv_queue = demoPendingQueue\<rparr>))))) =
   [SendDataCommand 7 0 [0x72, 0x04], SendDataCommand 7 0 [0x86, 0x11], SendWakeUpNoMoreInformationCommand 7 0]"
proof -
  let ?st = "\<lparr>iv_sessions = Map.empty, iv_queue = demoPendingQueue\<rparr>"
  obtain evs st1 where i: "iv_onNodeIncluded 7 [0x84, 0x80] ?st = (evs, st1)" by (rule prod.exhaust)
  obtain wevs q' where w: "onWakeUpNotification 7 (iv_queue st1) = (wevs, q')" by (rule prod.exhaust)
  have "wakeCommands wevs = map (\<lambda>s. SendDataCommand 7 ORCHESTRATOR_NO_CALLBACK (payloadForStep s)) (is_steps (sessionFor [0x84, 0x80])) @
       [SendWakeUpNoMoreInformationCommand 7 ORCHESTRATOR_NO_CALLBACK]"
    using sleeping_interview [OF _ _ _ _ _ i w]
    by (simp add: demoPendingQueue_ok CC_SECURITY_0_MARKER_def CC_SECURITY_2_MARKER_def CC_WAKE_UP_MARKER_def)
  with i w show ?thesis
    by (simp add: sessionFor_def CC_MULTI_CHANNEL_MARKER_def CC_ZWAVEPLUS_INFO_def ORCHESTRATOR_NO_CALLBACK_def
        CC_MANUFACTURER_SPECIFIC_def MANUFACTURER_SPECIFIC_GET_def CC_VERSION_def VERSION_GET_def)
qed

section \<open>Secure nodes wait for the bootstrap\<close>

definition startsSession :: "byte \<Rightarrow> interviewInput \<Rightarrow> bool" where
  "startsSession n e \<longleftrightarrow>
     (case e of
        NodeIncluded m ccs \<Rightarrow> m = n
      | NodeSecurityStatus m scheme \<Rightarrow> m = n \<and> scheme \<noteq> SCHEME_NONE
      | Report m s \<Rightarrow> False)"

definition deferred :: "byte \<Rightarrow> Interviews \<Rightarrow> bool" where
  "deferred n st \<longleftrightarrow> (\<forall>ses. iv_sessions st n = Some ses \<longrightarrow> \<not> is_started ses)"

fun concerns :: "byte \<Rightarrow> interviewEvent \<Rightarrow> bool" where
  "concerns n (IvCommand c) \<longleftrightarrow> c \<in> range (stepCommand n)"
| "concerns n (IvQueue (PubPendingCommandEnqueued m seq pr)) \<longleftrightarrow> m = n"
| "concerns n (IvQueue (PubPendingCommandsDrained m k)) \<longleftrightarrow> m = n"
| "concerns n (PubNodeInterviewComplete m) \<longleftrightarrow> m = n"

lemma enqueueSteps_concerns:
  assumes "m \<noteq> n"
  shows "\<forall>e \<in> set (fst (enqueueSteps m ss q)). \<not> concerns n e"
proof (induction ss arbitrary: q)
  case (Cons s ss)
  have "\<forall>e \<in> set (fst (pq_enqueue m p pr q)). \<not> concerns n (IvQueue e)" for p pr
    using assms by (simp add: pq_enqueue_def Let_def split: option.splits)
  with Cons.IH show ?case unfolding enqueueSteps_Cons by auto
qed simp

lemma beginInterview_other:
  assumes "m \<noteq> n"
  shows "iv_sessions (snd (beginInterview m ses st)) n = iv_sessions st n"
    and "\<forall>e \<in> set (fst (beginInterview m ses st)). \<not> concerns n e"
proof -
  obtain evs q1 where q: "enqueueSteps m (is_steps ses) (iv_queue st) = (evs, q1)" by (rule prod.exhaust)
  have "\<forall>e \<in> set evs. \<not> concerns n e"
    using enqueueSteps_concerns [OF assms, of "is_steps ses" "iv_queue st"] q by simp
  then show "iv_sessions (snd (beginInterview m ses st)) n = iv_sessions st n"
    and "\<forall>e \<in> set (fst (beginInterview m ses st)). \<not> concerns n e"
    using assms q by (simp_all add: beginInterview_def Let_def sendStep_def)
qed

interpretation interview: reactor onInterviewInput "\<lambda>e. \<not> startsSession n e" "deferred n" "\<lambda>out. \<not> concerns n out" for n
proof
  fix e st
  assume no: "\<not> startsSession n e" and def: "deferred n st"
  have "deferred n (snd (onInterviewInput e st)) \<and> (\<forall>out \<in> set (fst (onInterviewInput e st)). \<not> concerns n out)"
  proof (cases e)
    case (NodeIncluded m ccs)
    then have "m \<noteq> n" using no by (simp add: startsSession_def)
    with NodeIncluded def beginInterview_other [OF this] show ?thesis
      by (auto simp: iv_onNodeIncluded_def deferred_def Let_def)
  next
    case (NodeSecurityStatus m scheme)
    show ?thesis
    proof (cases "scheme = SCHEME_NONE")
      case False
      then have "m \<noteq> n" using no NodeSecurityStatus by (simp add: startsSession_def)
      with NodeSecurityStatus def beginInterview_other [OF this] show ?thesis
        by (auto simp: iv_onNodeSecurityStatus_def deferred_def split: option.splits)
    qed (use NodeSecurityStatus def in \<open>simp add: iv_onNodeSecurityStatus_def\<close>)
  next
    case (Report m s)
    with def show ?thesis
      by (auto simp: advance_def deferred_def sendStep_def Let_def split: option.splits)
  qed
  then show "deferred n (snd (onInterviewInput e st))"
    and "\<forall>out \<in> set (fst (onInterviewInput e st)). \<not> concerns n out" by simp_all
qed

text \<open>
  C24: a node that advertises a security class is not interviewed before its bootstrap has succeeded:
  whatever else happens on the network, until the node is reported with a security scheme or joins
  anew, no question is sent to it or queued for it and its interview is not reported complete.
\<close>

theorem interview_after_security:
  assumes "CC_SECURITY_0_MARKER \<in> set ccs \<or> CC_SECURITY_2_MARKER \<in> set ccs"
    and "list_all (\<lambda>e. \<not> startsSession n e) es"
  shows "fst (iv_onNodeIncluded n ccs st) = [] \<and>
     (\<forall>out \<in> set (fst (runSteps onInterviewInput es (snd (iv_onNodeIncluded n ccs st)))). \<not> concerns n out)"
proof -
  have "deferred n (snd (iv_onNodeIncluded n ccs st))"
    using assms(1) by (auto simp: iv_onNodeIncluded_def deferred_def sessionFor_def Let_def)
  with interview.run_allowed [of n es] assms show ?thesis by (simp add: iv_onNodeIncluded_def Let_def)
qed

theorem interview_after_security_witness:
  "fst (runSteps onInterviewInput [Report 7 StepVersion, NodeSecurityStatus 7 SCHEME_NONE]
     (snd (iv_onNodeIncluded 7 [0x25, 0x9F] \<lparr>iv_sessions = Map.empty, iv_queue = demoPendingQueue\<rparr>))) = [] \<and>
   fst (iv_onNodeIncluded 7 [0x25, 0x9F] \<lparr>iv_sessions = Map.empty, iv_queue = demoPendingQueue\<rparr>) = []"
  using interview_after_security [of "[0x25, 0x9F]" 7 "[Report 7 StepVersion, NodeSecurityStatus 7 SCHEME_NONE]"
      "\<lparr>iv_sessions = Map.empty, iv_queue = demoPendingQueue\<rparr>"]
  by (simp add: startsSession_def CC_SECURITY_0_MARKER_def CC_SECURITY_2_MARKER_def iv_onNodeIncluded_def Let_def
      advance_def iv_onNodeSecurityStatus_def sessionFor_def)

end
