(* ===== verification/Policy_Register.thy ===== *)
theory Policy_Register
  imports Node_Registry
begin

text \<open>
  Policies, \<open>src/src/policy-register/PolicyRegister.cpp\<close>: what to apply to a node after it
  joined. The binary form that is stored, the merge of a device default with a node's override, and
  the register itself, with its two tables as maps from their primary keys to the stored bytes. A
  database that could not be opened is \<open>pg_dbValid = False\<close>; a statement that SQLite refuses
  is not modelled.
\<close>

section \<open>Policies\<close>

record ConfigurationEntry =
  pc_parameter :: byte
  pc_size :: byte
  pc_isSigned :: bool
  pc_value :: i32

record AssociationEntry =
  pa_groupId :: byte
  pa_members :: bytes

record WakeUpEntry =
  pw_intervalSeconds :: u32
  pw_notificationNodeId :: byte

datatype PolicyEntry =
    Configuration ConfigurationEntry
  | Association AssociationEntry
  | WakeUp WakeUpEntry

type_synonym Policy = "PolicyEntry list"

section \<open>The stored form\<close>

definition POLICY_BLOB_VERSION :: byte where "POLICY_BLOB_VERSION = 1"
definition KIND_CONFIGURATION :: byte where "KIND_CONFIGURATION = 1"
definition KIND_ASSOCIATION :: byte where "KIND_ASSOCIATION = 2"
definition KIND_WAKEUP :: byte where "KIND_WAKEUP = 3"
definition CONFIG_BODY_LEN :: nat where "CONFIG_BODY_LEN = 7"
definition ASSOC_HEADER_LEN :: nat where "ASSOC_HEADER_LEN = 2"
definition WAKEUP_BODY_LEN :: nat where "WAKEUP_BODY_LEN = 5"

lemmas policy_const_defs = POLICY_BLOB_VERSION_def KIND_CONFIGURATION_def KIND_ASSOCIATION_def KIND_WAKEUP_def
  CONFIG_BODY_LEN_def ASSOC_HEADER_LEN_def WAKEUP_BODY_LEN_def

definition appendU32Be :: "u32 \<Rightarrow> bytes" where
  "appendU32Be v = [ucast (drop_bit 24 v AND 0xFF), ucast (drop_bit 16 v AND 0xFF), ucast (drop_bit 8 v AND 0xFF),
     ucast (v AND 0xFF)]"

definition readU32Be :: "bytes \<Rightarrow> u32" where
  "readU32Be bs = push_bit 24 (ucast (bs ! 0)) OR push_bit 16 (ucast (bs ! 1)) OR push_bit 8 (ucast (bs ! 2))
     OR ucast (bs ! 3)"

fun serializeEntry :: "PolicyEntry \<Rightarrow> bytes" where
  "serializeEntry (Configuration c) =
     [KIND_CONFIGURATION, pc_parameter c, pc_size c, if pc_isSigned c then 1 else 0] @ appendU32Be (pc_value c)"
| "serializeEntry (Association a) =
     [KIND_ASSOCIATION, pa_groupId a, of_nat (length (pa_members a))] @ pa_members a"
| "serializeEntry (WakeUp w) =
     [KIND_WAKEUP] @ appendU32Be (pw_intervalSeconds w) @ [pw_notificationNodeId w]"

definition serialize :: "Policy \<Rightarrow> bytes" where
  "serialize policy = [POLICY_BLOB_VERSION, of_nat (length policy)] @ concat (map serializeEntry policy)"

text \<open>One turn of the loop of \<open>deserialize\<close>: the bytes from \<open>pos\<close> on, and what is left after the entry.\<close>

definition deserializeEntry :: "bytes \<Rightarrow> (PolicyEntry \<times> bytes) option" where
  "deserializeEntry bs =
     (case bs of
        [] \<Rightarrow> None
      | kind # body \<Rightarrow>
          if kind = KIND_CONFIGURATION
          then if length body < CONFIG_BODY_LEN then None
               else Some (Configuration \<lparr>pc_parameter = body ! 0, pc_size = body ! 1, pc_isSigned = body ! 2 \<noteq> 0,
                            pc_value = readU32Be (drop 3 body)\<rparr>, drop CONFIG_BODY_LEN body)
          else if kind = KIND_ASSOCIATION
          then if length body < ASSOC_HEADER_LEN then None
               else let memberCt = unat (body ! 1); rest = drop ASSOC_HEADER_LEN body in
                 if length rest < memberCt then None
                 else Some (Association \<lparr>pa_groupId = body ! 0, pa_members = take memberCt rest\<rparr>, drop memberCt rest)
          else if kind = KIND_WAKEUP
          then if length body < WAKEUP_BODY_LEN then None
               else Some (WakeUp \<lparr>pw_intervalSeconds = readU32Be body, pw_notificationNodeId = body ! 4\<rparr>,
                          drop WAKEUP_BODY_LEN body)
          else None)"

fun deserializeEntries :: "nat \<Rightarrow> bytes \<Rightarrow> Policy option" where
  "deserializeEntries 0 bs = Some []"
| "deserializeEntries (Suc n) bs =
     (case deserializeEntry bs of
        None \<Rightarrow> None
      | Some (e, rest) \<Rightarrow> map_option ((#) e) (deserializeEntries n rest))"

definition deserialize :: "bytes \<Rightarrow> Policy option" where
  "deserialize bs =
     (if length bs < 2 \<or> bs ! 0 \<noteq> POLICY_BLOB_VERSION then None
      else deserializeEntries (unat (bs ! 1)) (drop 2 bs))"

section \<open>Merging\<close>

fun sameSlot :: "PolicyEntry \<Rightarrow> PolicyEntry \<Rightarrow> bool" where
  "sameSlot (Configuration c) (Configuration d) \<longleftrightarrow> pc_parameter c = pc_parameter d"
| "sameSlot (Association a) (Association b) \<longleftrightarrow> pa_groupId a = pa_groupId b"
| "sameSlot (WakeUp v) (WakeUp w) \<longleftrightarrow> True"
| "sameSlot _ _ \<longleftrightarrow> False"

text \<open>One turn of the outer loop: the first entry of the slot is replaced, or the override is appended.\<close>

fun overrideEntry :: "PolicyEntry \<Rightarrow> Policy \<Rightarrow> Policy" where
  "overrideEntry ov [] = [ov]"
| "overrideEntry ov (existing # rest) =
     (if sameSlot existing ov then ov # rest else existing # overrideEntry ov rest)"

definition merge :: "Policy \<Rightarrow> Policy \<Rightarrow> Policy" where
  "merge deviceDefault nodeOverride = fold overrideEntry nodeOverride deviceDefault"

section \<open>The register\<close>

record DeviceId =
  dv_manufacturerId :: u16
  dv_productTypeId :: u16
  dv_productId :: u16

record PolicyRegister =
  pg_dbValid :: bool
  pg_home :: "string option"
  pg_devicePolicies :: "DeviceId \<rightharpoonup> bytes"
  pg_nodeOverrides :: "string \<times> byte \<rightharpoonup> bytes"
  pg_identityCache :: "string \<times> byte \<rightharpoonup> DeviceId"

text \<open>Operations that publish return the node of the \<open>PolicyChanged\<close> event.\<close>

definition pg_setHomeId :: "bytes \<Rightarrow> PolicyRegister \<Rightarrow> PolicyRegister" where
  "pg_setHomeId homeIdBytes r = r\<lparr>pg_home := Some (formatHomeId homeIdBytes)\<rparr>"

definition setDevicePolicy :: "DeviceId \<Rightarrow> Policy \<Rightarrow> PolicyRegister \<Rightarrow> byte option \<times> PolicyRegister" where
  "setDevicePolicy device policy r =
     (if \<not> pg_dbValid r then (None, r)
      else (Some 0, r\<lparr>pg_devicePolicies := (pg_devicePolicies r)(device \<mapsto> serialize policy)\<rparr>))"

definition setNodeOverride :: "byte \<Rightarrow> Policy \<Rightarrow> PolicyRegister \<Rightarrow> byte option \<times> PolicyRegister" where
  "setNodeOverride nodeId policy r =
     (case pg_home r of
        None \<Rightarrow> (None, r)
      | Some home \<Rightarrow>
          if \<not> pg_dbValid r then (None, r)
          else (Some nodeId, r\<lparr>pg_nodeOverrides := (pg_nodeOverrides r)((home, nodeId) \<mapsto> serialize policy)\<rparr>))"

definition deleteDevicePolicy :: "DeviceId \<Rightarrow> PolicyRegister \<Rightarrow> byte option \<times> PolicyRegister" where
  "deleteDevicePolicy device r =
     (if \<not> pg_dbValid r then (None, r)
      else (Some 0, r\<lparr>pg_devicePolicies := (pg_devicePolicies r)(device := None)\<rparr>))"

definition deleteNodeOverride :: "byte \<Rightarrow> PolicyRegister \<Rightarrow> byte option \<times> PolicyRegister" where
  "deleteNodeOverride nodeId r =
     (case pg_home r of
        None \<Rightarrow> (None, r)
      | Some home \<Rightarrow>
          if \<not> pg_dbValid r then (None, r)
          else (Some nodeId, r\<lparr>pg_nodeOverrides := (pg_nodeOverrides r)((home, nodeId) := None)\<rparr>))"

definition devicePolicy :: "DeviceId \<Rightarrow> PolicyRegister \<Rightarrow> Policy option" where
  "devicePolicy device r =
     (if \<not> pg_dbValid r then None
      else case pg_devicePolicies r device of None \<Rightarrow> None | Some blob \<Rightarrow> deserialize blob)"

definition nodeOverride :: "byte \<Rightarrow> PolicyRegister \<Rightarrow> Policy option" where
  "nodeOverride nodeId r =
     (case pg_home r of
        None \<Rightarrow> None
      | Some home \<Rightarrow>
          if \<not> pg_dbValid r then None
          else case pg_nodeOverrides r (home, nodeId) of None \<Rightarrow> None | Some blob \<Rightarrow> deserialize blob)"

text \<open>\<open>listDevicePolicies\<close> for a given order of the rows, which SQLite leaves open.\<close>

definition listDevicePolicies :: "DeviceId list \<Rightarrow> PolicyRegister \<Rightarrow> (DeviceId \<times> Policy) list" where
  "listDevicePolicies rowOrder r =
     (if \<not> pg_dbValid r then []
      else map (\<lambda>d. (d, case deserialize (the (pg_devicePolicies r d)) of None \<Rightarrow> [] | Some p \<Rightarrow> p)) rowOrder)"

definition noteDeviceIdentity :: "byte \<Rightarrow> DeviceId \<Rightarrow> PolicyRegister \<Rightarrow> PolicyRegister" where
  "noteDeviceIdentity nodeId device r =
     (case pg_home r of
        None \<Rightarrow> r
      | Some home \<Rightarrow> r\<lparr>pg_identityCache := (pg_identityCache r)((home, nodeId) \<mapsto> device)\<rparr>)"

definition effectivePolicy :: "byte \<Rightarrow> PolicyRegister \<Rightarrow> Policy" where
  "effectivePolicy nodeId r =
     (let identity = (case pg_home r of None \<Rightarrow> None | Some home \<Rightarrow> pg_identityCache r (home, nodeId));
          ov = nodeOverride nodeId r;
          deviceDefault = (case identity of None \<Rightarrow> None | Some d \<Rightarrow> devicePolicy d r)
      in case (deviceDefault, ov) of
           (Some d, Some v) \<Rightarrow> merge d v
         | (None, Some v) \<Rightarrow> v
         | (Some d, None) \<Rightarrow> d
         | (None, None) \<Rightarrow> [])"

section \<open>Round trip of the stored form\<close>

lemma readU32Be_append [simp]: "readU32Be (appendU32Be v @ rest) = v"
proof (rule bit_word_eqI)
  fix n
  assume "n < LENGTH(32)"
  then consider "n < 8" | "8 \<le> n" "n < 16" | "16 \<le> n" "n < 24" | "24 \<le> n" "n < 32" by fastforce
  then show "bit (readU32Be (appendU32Be v @ rest)) n = bit v n"
    by cases (auto simp: readU32Be_def appendU32Be_def bit_simps bit_255_int_iff)
qed

lemma length_appendU32Be [simp]: "length (appendU32Be v) = 4"
  by (simp add: appendU32Be_def)

fun entryFits :: "PolicyEntry \<Rightarrow> bool" where
  "entryFits (Association a) \<longleftrightarrow> length (pa_members a) \<le> 255"
| "entryFits _ \<longleftrightarrow> True"

lemma deserializeEntry_serialize: "entryFits e \<Longrightarrow> deserializeEntry (serializeEntry e @ rest) = Some (e, rest)"
proof (cases e)
  case (Configuration c)
  then show ?thesis
    by (cases c) (simp add: deserializeEntry_def policy_const_defs eval_nat_numeral)
next
  case (Association a)
  moreover assume "entryFits e"
  ultimately show ?thesis
    by (cases a) (simp add: deserializeEntry_def policy_const_defs unat_of_nat_byte eval_nat_numeral)
next
  case (WakeUp w)
  then show ?thesis
    by (cases w) (simp add: deserializeEntry_def policy_const_defs nth_append eval_nat_numeral)
qed

lemma deserializeEntries_serialize:
  "list_all entryFits p \<Longrightarrow> deserializeEntries (length p) (concat (map serializeEntry p) @ rest) = Some p"
  by (induction p) (simp_all add: deserializeEntry_serialize)

text \<open>
  A stored policy is read back unchanged, as long as it has at most 255 entries and no
  association lists more than 255 members, the largest counts its format can express.
\<close>

theorem policy_roundtrip:
  assumes "length p \<le> 255" and "list_all entryFits p"
  shows "deserialize (serialize p) = Some p"
  using deserializeEntries_serialize [OF assms(2), of "[]"] assms(1)
  by (simp add: deserialize_def serialize_def unat_of_nat_byte)

theorem policy_roundtrip_witness:
  "deserialize (serialize [Configuration \<lparr>pc_parameter = 3, pc_size = 2, pc_isSigned = True, pc_value = -5\<rparr>,
      Association \<lparr>pa_groupId = 1, pa_members = [1, 9]\<rparr>, WakeUp \<lparr>pw_intervalSeconds = 3600, pw_notificationNodeId = 1\<rparr>]) =
   Some [Configuration \<lparr>pc_parameter = 3, pc_size = 2, pc_isSigned = True, pc_value = -5\<rparr>,
      Association \<lparr>pa_groupId = 1, pa_members = [1, 9]\<rparr>, WakeUp \<lparr>pw_intervalSeconds = 3600, pw_notificationNodeId = 1\<rparr>]"
  by (rule policy_roundtrip) simp_all

text \<open>
  The count of entries is stored in one byte, so a policy of 256 entries is stored as one without
  entries, and the daemon then applies nothing.
\<close>

theorem policy_count_wraps:
  assumes "length p = 256"
  shows "deserialize (serialize p) = Some []"
proof -
  have "(of_nat (length p) :: byte) = 0" by (simp add: assms)
  then show ?thesis by (simp add: deserialize_def serialize_def)
qed

theorem policy_count_wraps_witness:
  "deserialize (serialize (replicate 256 (WakeUp \<lparr>pw_intervalSeconds = 60, pw_notificationNodeId = 1\<rparr>))) = Some []"
  by (rule policy_count_wraps) simp

section \<open>A policy as a map of slots\<close>

datatype slot = ConfigurationSlot byte | AssociationSlot byte | WakeUpSlot

fun slotOf :: "PolicyEntry \<Rightarrow> slot" where
  "slotOf (Configuration c) = ConfigurationSlot (pc_parameter c)"
| "slotOf (Association a) = AssociationSlot (pa_groupId a)"
| "slotOf (WakeUp w) = WakeUpSlot"

lemma sameSlot_slotOf: "sameSlot a b \<longleftrightarrow> slotOf a = slotOf b"
  by (cases a; cases b) simp_all

text \<open>What a policy says about each slot: its first entry.\<close>

definition policyMap :: "Policy \<Rightarrow> (slot \<rightharpoonup> PolicyEntry)" where
  "policyMap p = map_of (map (\<lambda>e. (slotOf e, e)) p)"

lemma policyMap_override: "policyMap (overrideEntry ov p) = (policyMap p)(slotOf ov \<mapsto> ov)"
  by (induction p) (auto simp: policyMap_def sameSlot_slotOf fun_eq_iff)

lemma overrideEntry_slots:
  "map slotOf (overrideEntry ov p) = (if slotOf ov \<in> slotOf ` set p then map slotOf p else map slotOf p @ [slotOf ov])"
  by (induction p) (auto simp: sameSlot_slotOf)

lemma merge_Cons: "merge d (e # v) = merge (overrideEntry e d) v"
  by (simp add: merge_def)

lemma policyMap_append: "policyMap (xs @ ys) = policyMap ys ++ policyMap xs"
  by (simp add: policyMap_def)

lemma merge_map: "policyMap (merge d v) = policyMap d ++ policyMap (rev v)"
proof (induction v arbitrary: d)
  case (Cons e v)
  have "policyMap [e] = [slotOf e \<mapsto> e]" by (simp add: policyMap_def fun_eq_iff)
  then show ?case
    by (auto simp: merge_Cons Cons.IH policyMap_override policyMap_append map_add_def fun_eq_iff split: option.splits)
qed (simp add: merge_def policyMap_def)

lemma merge_slots: "\<exists>new. map slotOf (merge d v) = map slotOf d @ new \<and> distinct new \<and> set new \<inter> slotOf ` set d = {}"
proof (induction v arbitrary: d)
  case (Cons e v)
  obtain new where new: "map slotOf (merge (overrideEntry e d) v) = map slotOf (overrideEntry e d) @ new" "distinct new"
    "set new \<inter> slotOf ` set (overrideEntry e d) = {}"
    using Cons.IH by blast
  have set: "slotOf ` set (overrideEntry e d) = set (map slotOf (overrideEntry e d))" by simp
  show ?case
  proof (cases "slotOf e \<in> slotOf ` set d")
    case True
    then show ?thesis using new unfolding set overrideEntry_slots merge_Cons by (intro exI [of _ new]) auto
  next
    case False
    then show ?thesis
      using new unfolding set overrideEntry_slots merge_Cons by (intro exI [of _ "slotOf e # new"]) auto
  qed
qed (simp add: merge_def)

text \<open>
  C25: merging an override into a device default refines the update of one map of slots by another:
  for every slot the last entry of the override wins, and the default decides where the override is
  silent. The slots of the default keep their order, and new slots follow, none of them twice.
\<close>

theorem merge_refines_override:
  "policyMap (merge d v) = policyMap d ++ policyMap (rev v) \<and>
   (\<exists>new. map slotOf (merge d v) = map slotOf d @ new \<and> distinct new \<and> set new \<inter> slotOf ` set d = {})"
  using merge_map merge_slots by blast

section \<open>The register as two stores\<close>

definition policyFits :: "Policy \<Rightarrow> bool" where
  "policyFits p \<longleftrightarrow> length p \<le> 255 \<and> list_all entryFits p"

lemma deserialize_fits: "policyFits p \<Longrightarrow> deserialize (serialize p) = Some p"
  using deserializeEntries_serialize [of p "[]"]
  by (simp add: policyFits_def deserialize_def serialize_def unat_of_nat_byte)

definition pg_ok :: "PolicyRegister \<Rightarrow> bool" where
  "pg_ok r \<longleftrightarrow> pg_dbValid r \<and> pg_home r \<noteq> None"

interpretation devicePolicies: keyed_store pg_ok policyFits "\<lambda>d p r. snd (setDevicePolicy d p r)"
  "\<lambda>d r. snd (deleteDevicePolicy d r)" devicePolicy
  by unfold_locales (auto simp: pg_ok_def setDevicePolicy_def deleteDevicePolicy_def devicePolicy_def deserialize_fits)

interpretation nodeOverrides: keyed_store pg_ok policyFits "\<lambda>n p r. snd (setNodeOverride n p r)"
  "\<lambda>n r. snd (deleteNodeOverride n r)" nodeOverride
  by unfold_locales (auto simp: pg_ok_def setNodeOverride_def deleteNodeOverride_def nodeOverride_def deserialize_fits)

lemma stores_independent:
  "devicePolicy d (snd (setNodeOverride n p r)) = devicePolicy d r"
  "nodeOverride n (snd (setDevicePolicy d p r)) = nodeOverride n r"
  "devicePolicy d (noteDeviceIdentity n i r) = devicePolicy d r"
  "nodeOverride n (noteDeviceIdentity m i r) = nodeOverride n r"
  by (auto simp: devicePolicy_def setNodeOverride_def nodeOverride_def setDevicePolicy_def noteDeviceIdentity_def
      split: option.splits)

text \<open>
  Once a node's device is known, its effective policy is the default of the device with the node's
  override merged into it; until then it is the override alone.
\<close>

theorem effective_policy:
  fixes n :: byte and dev :: DeviceId
  assumes "pg_dbValid r" and "pg_home r = Some home" and "policyFits d" and "policyFits v"
  defines "r1 \<equiv> snd (setNodeOverride n v (snd (setDevicePolicy dev d r)))"
  shows "effectivePolicy n (noteDeviceIdentity n dev r1) = merge d v \<and>
     (pg_identityCache r (home, n) = None \<longrightarrow> effectivePolicy n r1 = v)"
proof -
  have ok: "pg_ok r" using assms(1,2) by (simp add: pg_ok_def)
  have home: "pg_home r1 = Some home" "pg_identityCache r1 = pg_identityCache r"
    using assms(1,2) by (simp_all add: r1_def setNodeOverride_def setDevicePolicy_def)
  have got: "nodeOverride n r1 = Some v" "devicePolicy dev r1 = Some d"
    using nodeOverrides.get_put [OF devicePolicies.put_ok [OF ok] assms(4)] devicePolicies.get_put [OF ok assms(3)]
    by (simp_all add: r1_def stores_independent)
  have "pg_home (noteDeviceIdentity n dev r1) = Some home"
    "pg_identityCache (noteDeviceIdentity n dev r1) (home, n) = Some dev"
    using home by (simp_all add: noteDeviceIdentity_def)
  with got home show ?thesis by (simp add: effectivePolicy_def stores_independent)
qed

definition demoPolicies :: PolicyRegister where
  "demoPolicies = \<lparr>pg_dbValid = True, pg_home = Some (formatHomeId [0xE2, 0xA1, 0xB0, 0x7C]),
     pg_devicePolicies = Map.empty, pg_nodeOverrides = Map.empty, pg_identityCache = Map.empty\<rparr>"

abbreviation demoConfig :: "byte \<Rightarrow> i32 \<Rightarrow> PolicyEntry" where
  "demoConfig p v \<equiv> Configuration \<lparr>pc_parameter = p, pc_size = 1, pc_isSigned = False, pc_value = v\<rparr>"

abbreviation demoDevice :: DeviceId where
  "demoDevice \<equiv> \<lparr>dv_manufacturerId = 0x0086, dv_productTypeId = 3, dv_productId = 0x74\<rparr>"

theorem effective_policy_witness:
  "effectivePolicy 7 (noteDeviceIdentity 7 demoDevice (snd (setNodeOverride 7 [demoConfig 5 2]
      (snd (setDevicePolicy demoDevice [demoConfig 3 1, demoConfig 5 0] demoPolicies))))) =
   [demoConfig 3 1, demoConfig 5 2]"
  using effective_policy [of demoPolicies "formatHomeId [0xE2, 0xA1, 0xB0, 0x7C]" "[demoConfig 3 1, demoConfig 5 0]"
      "[demoConfig 5 2]" 7 demoDevice]
  by (simp add: demoPolicies_def policyFits_def merge_def)

end
