(* ===== verification/Inclusion.thy ===== *)
theory Inclusion
  imports Interview Policy_Register
begin

text \<open>
  What happens to a node after it joined, \<open>src/src/orchestrator/InclusionOrchestrator.cpp\<close>: the
  lifeline is set at once, the policy when the interview is complete, each entry only if the node
  supports the command class it needs.
\<close>

section \<open>The orchestrator\<close>

definition CC_CONFIGURATION_SUPPORT :: byte where "CC_CONFIGURATION_SUPPORT = 0x70"
definition CC_WAKE_UP_SUPPORT :: byte where "CC_WAKE_UP_SUPPORT = 0x84"
definition CC_ASSOCIATION_SUPPORT :: byte where "CC_ASSOCIATION_SUPPORT = 0x85"
definition CC_MARK :: byte where "CC_MARK = 0xEF"
definition LIFELINE_GROUP_ID :: byte where "LIFELINE_GROUP_ID = 1"
definition CODE_ORCHESTRATOR_NO_CONTROLLER :: byte where "CODE_ORCHESTRATOR_NO_CONTROLLER = 0x50"
definition SEVERITY_WARN :: byte where "SEVERITY_WARN = 2"

lemmas inclusion_const_defs = CC_CONFIGURATION_SUPPORT_def CC_WAKE_UP_SUPPORT_def CC_ASSOCIATION_SUPPORT_def
  CC_MARK_def LIFELINE_GROUP_ID_def

record SupportedCcs =
  su_association :: bool
  su_configuration :: bool
  su_wakeUp :: bool

definition noSupport :: SupportedCcs where
  "noSupport = \<lparr>su_association = False, su_configuration = False, su_wakeUp = False\<rparr>"

fun scanFrom :: "bytes \<Rightarrow> SupportedCcs \<Rightarrow> SupportedCcs" where
  "scanFrom [] found = found"
| "scanFrom (cls # rest) found =
     (if cls = CC_MARK then found
      else scanFrom rest
        (if cls = CC_ASSOCIATION_SUPPORT then found\<lparr>su_association := True\<rparr>
         else if cls = CC_CONFIGURATION_SUPPORT then found\<lparr>su_configuration := True\<rparr>
         else if cls = CC_WAKE_UP_SUPPORT then found\<lparr>su_wakeUp := True\<rparr> else found))"

definition scanSupported :: "bytes \<Rightarrow> SupportedCcs" where
  "scanSupported ccs = scanFrom ccs noSupport"

record InclusionState =
  io_controllerNodeId :: "byte option"
  io_autoLifeline :: bool
  io_pendingPolicy :: "byte \<rightharpoonup> SupportedCcs"

datatype inclusionEvent =
    IoCommand busCommand
  | PubInclusionLifelineSet byte
  | PubInclusionPolicyApplied byte u32
  | PubInclusionComplete byte
  | IoDaemonError byte byte string

text \<open>The command an entry stands for, if the node supports its class.\<close>

fun applyPolicyEntry :: "byte option \<Rightarrow> byte \<Rightarrow> SupportedCcs \<Rightarrow> PolicyEntry \<Rightarrow> inclusionEvent list" where
  "applyPolicyEntry controller nodeId supported (Configuration c) =
     (if \<not> su_configuration supported then []
      else [IoCommand (SetConfigurationCommand nodeId ORCHESTRATOR_NO_CALLBACK (pc_parameter c) (pc_size c) (pc_value c))])"
| "applyPolicyEntry controller nodeId supported (Association a) =
     (if \<not> su_association supported then []
      else [IoCommand (SetAssociationCommand nodeId ORCHESTRATOR_NO_CALLBACK (pa_groupId a) (pa_members a))])"
| "applyPolicyEntry controller nodeId supported (WakeUp w) =
     (if \<not> su_wakeUp supported then []
      else [IoCommand (SetWakeUpIntervalCommand nodeId ORCHESTRATOR_NO_CALLBACK (pw_intervalSeconds w)
              (if pw_notificationNodeId w \<noteq> 0 then pw_notificationNodeId w
               else (case controller of None \<Rightarrow> 0 | Some c \<Rightarrow> c)))])"

definition io_onNodeIncluded :: "byte \<Rightarrow> bytes \<Rightarrow> InclusionState \<Rightarrow> inclusionEvent list \<times> InclusionState" where
  "io_onNodeIncluded nodeId ccs st =
     (let supported = scanSupported ccs;
          evs = (if su_association supported \<and> io_autoLifeline st
                 then (case io_controllerNodeId st of
                         Some controller \<Rightarrow>
                           [IoCommand (SetAssociationCommand nodeId ORCHESTRATOR_NO_CALLBACK LIFELINE_GROUP_ID [controller]),
                            PubInclusionLifelineSet nodeId]
                       | None \<Rightarrow>
                           [IoDaemonError SEVERITY_WARN CODE_ORCHESTRATOR_NO_CONTROLLER
                              ''inclusion lifeline skipped - controller node id unknown''])
                 else [])
      in (evs, st\<lparr>io_pendingPolicy := (io_pendingPolicy st)(nodeId \<mapsto> supported)\<rparr>))"

definition io_onNodeInterviewComplete ::
  "PolicyRegister \<Rightarrow> byte \<Rightarrow> InclusionState \<Rightarrow> inclusionEvent list \<times> InclusionState" where
  "io_onNodeInterviewComplete policies nodeId st =
     (let supported = (case io_pendingPolicy st nodeId of None \<Rightarrow> noSupport | Some s \<Rightarrow> s);
          applied = concat (map (applyPolicyEntry (io_controllerNodeId st) nodeId supported)
                       (effectivePolicy nodeId policies))
      in (applied @ [PubInclusionPolicyApplied nodeId (of_nat (length applied)), PubInclusionComplete nodeId],
          st\<lparr>io_pendingPolicy := (io_pendingPolicy st)(nodeId := None)\<rparr>))"

definition io_onDongleInfo :: "byte \<Rightarrow> InclusionState \<Rightarrow> InclusionState" where
  "io_onDongleInfo controllerNodeId st = st\<lparr>io_controllerNodeId := Some controllerNodeId\<rparr>"

definition io_onBehaviorConfig :: "bool \<Rightarrow> InclusionState \<Rightarrow> InclusionState" where
  "io_onBehaviorConfig autoLifeline st = st\<lparr>io_autoLifeline := autoLifeline\<rparr>"

section \<open>What a node supports\<close>

lemma scanFrom_spec:
  "scanFrom ccs found =
     \<lparr>su_association = su_association found \<or> CC_ASSOCIATION_SUPPORT \<in> set (takeWhile (\<lambda>c. c \<noteq> CC_MARK) ccs),
      su_configuration = su_configuration found \<or> CC_CONFIGURATION_SUPPORT \<in> set (takeWhile (\<lambda>c. c \<noteq> CC_MARK) ccs),
      su_wakeUp = su_wakeUp found \<or> CC_WAKE_UP_SUPPORT \<in> set (takeWhile (\<lambda>c. c \<noteq> CC_MARK) ccs)\<rparr>"
  by (induction ccs arbitrary: found) (auto simp: inclusion_const_defs)

text \<open>The classes of the half of a node's list in front of the mark.\<close>

abbreviation supports :: "bytes \<Rightarrow> byte \<Rightarrow> bool" where
  "supports ccs cls \<equiv> cls \<in> set (takeWhile (\<lambda>c. c \<noteq> CC_MARK) ccs)"

lemma scanSupported_spec:
  "su_association (scanSupported ccs) \<longleftrightarrow> supports ccs CC_ASSOCIATION_SUPPORT"
  "su_configuration (scanSupported ccs) \<longleftrightarrow> supports ccs CC_CONFIGURATION_SUPPORT"
  "su_wakeUp (scanSupported ccs) \<longleftrightarrow> supports ccs CC_WAKE_UP_SUPPORT"
  by (simp_all add: scanSupported_def scanFrom_spec noSupport_def)

text \<open>Which class an entry needs, and the command it becomes.\<close>

fun neededClass :: "PolicyEntry \<Rightarrow> byte" where
  "neededClass (Configuration c) = CC_CONFIGURATION_SUPPORT"
| "neededClass (Association a) = CC_ASSOCIATION_SUPPORT"
| "neededClass (WakeUp w) = CC_WAKE_UP_SUPPORT"

fun entryCommand :: "byte \<Rightarrow> byte \<Rightarrow> PolicyEntry \<Rightarrow> busCommand" where
  "entryCommand controller nodeId (Configuration c) =
     SetConfigurationCommand nodeId ORCHESTRATOR_NO_CALLBACK (pc_parameter c) (pc_size c) (pc_value c)"
| "entryCommand controller nodeId (Association a) =
     SetAssociationCommand nodeId ORCHESTRATOR_NO_CALLBACK (pa_groupId a) (pa_members a)"
| "entryCommand controller nodeId (WakeUp w) =
     SetWakeUpIntervalCommand nodeId ORCHESTRATOR_NO_CALLBACK (pw_intervalSeconds w)
       (if pw_notificationNodeId w \<noteq> 0 then pw_notificationNodeId w else controller)"

lemma applyPolicyEntry_spec:
  "applyPolicyEntry (Some controller) n (scanSupported ccs) e =
     (if supports ccs (neededClass e) then [IoCommand (entryCommand controller n e)] else [])"
  by (cases e) (simp_all add: scanSupported_spec)

section \<open>Properties\<close>

text \<open>
  The set-up of a node: on joining, a node that supports associations gets the controller as its
  lifeline; when its interview completes, it gets the commands of its effective policy, in the order
  of the policy, exactly those whose command class stands in front of the mark in the node's list;
  then the set-up is reported complete, once, with the number of commands sent, and forgotten.
\<close>

theorem inclusion_setup:
  assumes "io_controllerNodeId st = Some controller" and "io_autoLifeline st"
    and "io_onNodeIncluded n ccs st = (evs0, st0)"
    and "io_onNodeInterviewComplete policies n st0 = (evs1, st1)"
  shows "evs0 = (if supports ccs CC_ASSOCIATION_SUPPORT
       then [IoCommand (SetAssociationCommand n ORCHESTRATOR_NO_CALLBACK LIFELINE_GROUP_ID [controller]), PubInclusionLifelineSet n]
       else []) \<and>
     evs1 = map (\<lambda>e. IoCommand (entryCommand controller n e))
         (filter (\<lambda>e. supports ccs (neededClass e)) (effectivePolicy n policies)) @
       [PubInclusionPolicyApplied n (of_nat (length
          (filter (\<lambda>e. supports ccs (neededClass e)) (effectivePolicy n policies)))), PubInclusionComplete n] \<and>
     io_pendingPolicy st1 n = None"
proof -
  have concat_if: "concat (map (\<lambda>e. if P e then [f e] else []) es) = map f (filter P es)" for P f and es :: Policy
    by (induction es) simp_all
  have st0: "io_controllerNodeId st0 = Some controller" "io_pendingPolicy st0 n = Some (scanSupported ccs)"
    using assms(1,3) by (auto simp: io_onNodeIncluded_def Let_def)
  have "applyPolicyEntry (Some controller) n (scanSupported ccs) =
      (\<lambda>e. if supports ccs (neededClass e) then [IoCommand (entryCommand controller n e)] else [])"
    by (simp add: fun_eq_iff applyPolicyEntry_spec)
  with assms(4) st0 have "evs1 = map (\<lambda>e. IoCommand (entryCommand controller n e))
         (filter (\<lambda>e. supports ccs (neededClass e)) (effectivePolicy n policies)) @
       [PubInclusionPolicyApplied n (of_nat (length
          (filter (\<lambda>e. supports ccs (neededClass e)) (effectivePolicy n policies)))), PubInclusionComplete n]"
    "io_pendingPolicy st1 n = None"
    by (auto simp: io_onNodeInterviewComplete_def Let_def concat_if)
  moreover have "evs0 = (if supports ccs CC_ASSOCIATION_SUPPORT
       then [IoCommand (SetAssociationCommand n ORCHESTRATOR_NO_CALLBACK LIFELINE_GROUP_ID [controller]), PubInclusionLifelineSet n]
       else [])"
    using assms(1-3) by (auto simp: io_onNodeIncluded_def Let_def scanSupported_spec)
  ultimately show ?thesis by blast
qed

definition demoInclusionState :: InclusionState where
  "demoInclusionState = \<lparr>io_controllerNodeId = Some 1, io_autoLifeline = True, io_pendingPolicy = Map.empty\<rparr>"

theorem inclusion_setup_witness:
  "fst (io_onNodeIncluded 7 [0x70, 0x85, 0xEF, 0x84] demoInclusionState) =
     [IoCommand (SetAssociationCommand 7 0 1 [1]), PubInclusionLifelineSet 7] \<and>
   fst (io_onNodeInterviewComplete (snd (setNodeOverride 7
       [demoConfig 5 2, WakeUp \<lparr>pw_intervalSeconds = 60, pw_notificationNodeId = 0\<rparr>] demoPolicies)) 7
     (snd (io_onNodeIncluded 7 [0x70, 0x85, 0xEF, 0x84] demoInclusionState))) =
   [IoCommand (SetConfigurationCommand 7 0 5 1 2), PubInclusionPolicyApplied 7 1, PubInclusionComplete 7]"
proof -
  let ?ccs = "[0x70, 0x85, 0xEF, 0x84] :: bytes"
  let ?p = "[demoConfig 5 2, WakeUp \<lparr>pw_intervalSeconds = 60, pw_notificationNodeId = 0\<rparr>]"
  let ?r = "snd (setNodeOverride 7 ?p demoPolicies)"
  obtain evs0 st0 where i: "io_onNodeIncluded 7 ?ccs demoInclusionState = (evs0, st0)" by (rule prod.exhaust)
  obtain evs1 st1 where c: "io_onNodeInterviewComplete ?r 7 st0 = (evs1, st1)" by (rule prod.exhaust)
  have "nodeOverride 7 ?r = Some ?p"
    using nodeOverrides.get_put [of demoPolicies ?p 7 7] by (simp add: pg_ok_def demoPolicies_def policyFits_def)
  then have eff: "effectivePolicy 7 ?r = ?p"
    by (simp add: effectivePolicy_def setNodeOverride_def demoPolicies_def)
  from inclusion_setup [OF _ _ i c, of 1] i c show ?thesis
    by (simp add: demoInclusionState_def eff inclusion_const_defs ORCHESTRATOR_NO_CALLBACK_def)
qed

text \<open>
  A node that only controls the wake-up class (its byte stands behind the mark) is not a sleeping
  node, and the set-up above treats it so; the interview does not look at the mark: it queues its
  questions for a wake-up that never comes, and asks the node nothing.
\<close>

theorem controlled_wakeup_stalls_interview:
  assumes "CC_WAKE_UP_SUPPORT \<in> set ccs" and "\<not> supports ccs CC_WAKE_UP_SUPPORT"
    and "CC_SECURITY_0_MARKER \<notin> set ccs" and "CC_SECURITY_2_MARKER \<notin> set ccs"
  shows "\<not> su_wakeUp (scanSupported ccs) \<and> asked n (fst (iv_onNodeIncluded n ccs st)) = [] \<and>
     (\<exists>ses. iv_sessions (snd (iv_onNodeIncluded n ccs st)) n = Some ses \<and> is_viaQueue ses \<and> is_index ses = 0)"
proof -
  have via: "is_viaQueue (sessionFor ccs)"
    using assms(1) by (simp add: sessionFor_def CC_WAKE_UP_MARKER_def CC_WAKE_UP_SUPPORT_def)
  obtain evs st1 where i: "iv_onNodeIncluded n ccs st = (evs, st1)" by (rule prod.exhaust)
  have ses: "inProgress n ((sessionFor ccs)\<lparr>is_started := True\<rparr>) st1" "asked n evs = []"
    using started_session [OF _ i] assms(3,4) via by simp_all
  then show ?thesis
    using assms(2) via i by (simp add: scanSupported_spec inProgress_def) (simp add: sessionFor_def)
qed

theorem controlled_wakeup_stalls_interview_witness:
  "asked 7 (fst (iv_onNodeIncluded 7 [0x25, 0xEF, 0x84] \<lparr>iv_sessions = Map.empty, iv_queue = demoPendingQueue\<rparr>)) = []"
  using controlled_wakeup_stalls_interview [of "[0x25, 0xEF, 0x84]" 7 "\<lparr>iv_sessions = Map.empty, iv_queue = demoPendingQueue\<rparr>"]
  by (simp add: inclusion_const_defs CC_SECURITY_0_MARKER_def CC_SECURITY_2_MARKER_def)

end
