(* ===== verification/Scene_Store.thy ===== *)
theory Scene_Store
  imports Pending_Queue "HOL-Library.List_Lexorder" "HOL-Library.Char_ord"
begin

text \<open>
  Scenes, \<open>src/src/scene-store/SceneStore.cpp\<close> and
  \<open>src/src/orchestrator/SceneOrchestrator.cpp\<close>: lists of commands that a press of a button
  replays. The two tables are the lists of their rows, a later row replacing an earlier one of the
  same key. A database that could not be opened is \<open>ss_dbValid = False\<close>; a statement that
  SQLite refuses is not modelled. The creation of the tables is modelled with the schema.
\<close>

section \<open>The stored form of a scene\<close>

record Action =
  ac_targetNodeId :: byte
  ac_ccPayload :: bytes

definition BLOB_VERSION :: byte where "BLOB_VERSION = 1"
definition MAX_BLOB_ITEMS :: nat where "MAX_BLOB_ITEMS = 255"

definition encodeAction :: "Action \<Rightarrow> bytes" where
  "encodeAction a = [ac_targetNodeId a, of_nat (length (ac_ccPayload a))] @ ac_ccPayload a"

definition encodeActions :: "Action list \<Rightarrow> bytes" where
  "encodeActions actions = [BLOB_VERSION, of_nat (length actions)] @ concat (map encodeAction actions)"

fun decodeActionList :: "nat \<Rightarrow> bytes \<Rightarrow> Action list option" where
  "decodeActionList 0 bs = Some []"
| "decodeActionList (Suc n) bs =
     (if length bs < 2 then None
      else let len = unat (bs ! 1); rest = drop 2 bs in
        if length rest < len then None
        else map_option ((#) \<lparr>ac_targetNodeId = bs ! 0, ac_ccPayload = take len rest\<rparr>)
               (decodeActionList n (drop len rest)))"

definition decodeActions :: "bytes option \<Rightarrow> Action list option" where
  "decodeActions blob =
     (case blob of
        None \<Rightarrow> None
      | Some bs \<Rightarrow>
          if length bs < 2 \<or> bs ! 0 \<noteq> BLOB_VERSION then None
          else decodeActionList (unat (bs ! 1)) (drop 2 bs))"

section \<open>The store\<close>

definition SOURCE_CENTRAL_SCENE :: byte where "SOURCE_CENTRAL_SCENE = 0"
definition SOURCE_BASIC_SET :: byte where "SOURCE_BASIC_SET = 1"
definition SOURCE_SCENE_ACTIVATION :: byte where "SOURCE_SCENE_ACTIVATION = 2"

text \<open>The selector of a press: source, node, scene number and key attribute.\<close>

type_synonym press = "byte \<times> byte \<times> byte \<times> byte"

record SceneStore =
  ss_dbValid :: bool
  ss_home :: "string option"
  ss_scenes :: "((string \<times> string) \<times> bytes) list"
  ss_triggers :: "((string \<times> press) \<times> string) list"

definition boundHome :: "SceneStore \<Rightarrow> string option" where
  "boundHome st = (if \<not> ss_dbValid st then None else ss_home st)"

definition ss_setHomeId :: "bytes \<Rightarrow> SceneStore \<Rightarrow> SceneStore" where
  "ss_setHomeId homeIdBytes st = st\<lparr>ss_home := Some (formatHomeId homeIdBytes)\<rparr>"

definition setScene :: "string \<Rightarrow> Action list \<Rightarrow> SceneStore \<Rightarrow> SceneStore" where
  "setScene sceneId actions st =
     (if length actions > MAX_BLOB_ITEMS then st
      else case boundHome st of
          None \<Rightarrow> st
        | Some home \<Rightarrow> st\<lparr>ss_scenes := insertOrReplace (home, sceneId) (encodeActions actions) (ss_scenes st)\<rparr>)"

definition getScene :: "string \<Rightarrow> SceneStore \<Rightarrow> Action list option" where
  "getScene sceneId st =
     (case boundHome st of
        None \<Rightarrow> None
      | Some home \<Rightarrow>
          (case map_of (ss_scenes st) (home, sceneId) of
             None \<Rightarrow> None
           | Some blob \<Rightarrow> decodeActions (Some blob)))"

definition deleteScene :: "string \<Rightarrow> SceneStore \<Rightarrow> SceneStore" where
  "deleteScene sceneId st =
     (case boundHome st of
        None \<Rightarrow> st
      | Some home \<Rightarrow> st\<lparr>ss_scenes := deleteKey (home, sceneId) (ss_scenes st)\<rparr>)"

definition listScenes :: "SceneStore \<Rightarrow> string list" where
  "listScenes st =
     (case boundHome st of
        None \<Rightarrow> []
      | Some home \<Rightarrow> sort (map (snd \<circ> fst) (filter (\<lambda>r. fst (fst r) = home) (ss_scenes st))))"

definition bindTrigger :: "press \<Rightarrow> string \<Rightarrow> SceneStore \<Rightarrow> SceneStore" where
  "bindTrigger press sceneId st =
     (case boundHome st of
        None \<Rightarrow> st
      | Some home \<Rightarrow> st\<lparr>ss_triggers := insertOrReplace (home, press) sceneId (ss_triggers st)\<rparr>)"

definition unbindTrigger :: "press \<Rightarrow> SceneStore \<Rightarrow> SceneStore" where
  "unbindTrigger press st =
     (case boundHome st of
        None \<Rightarrow> st
      | Some home \<Rightarrow> st\<lparr>ss_triggers := deleteKey (home, press) (ss_triggers st)\<rparr>)"

definition resolveTrigger :: "press \<Rightarrow> SceneStore \<Rightarrow> string option" where
  "resolveTrigger press st =
     (case boundHome st of None \<Rightarrow> None | Some home \<Rightarrow> map_of (ss_triggers st) (home, press))"

text \<open>\<open>ORDER BY source, source_node_id, scene_number, key_attribute\<close>: stable sorts, the last key first.\<close>

definition listTriggers :: "SceneStore \<Rightarrow> (press \<times> string) list" where
  "listTriggers st =
     (case boundHome st of
        None \<Rightarrow> []
      | Some home \<Rightarrow>
          sort_key (\<lambda>((source, node, scene, key), s). source)
            (sort_key (\<lambda>((source, node, scene, key), s). node)
              (sort_key (\<lambda>((source, node, scene, key), s). scene)
                (sort_key (\<lambda>((source, node, scene, key), s). key)
                  (map (\<lambda>r. (snd (fst r), snd r)) (filter (\<lambda>r. fst (fst r) = home) (ss_triggers st)))))))"

section \<open>SceneOrchestrator\<close>

datatype sceneEvent =
    ScCommand busCommand
  | PubSceneActivated byte byte byte string u32

definition runScene :: "byte \<Rightarrow> byte \<Rightarrow> byte \<Rightarrow> byte \<Rightarrow> SceneStore \<Rightarrow> sceneEvent list" where
  "runScene source sourceNodeId sceneNumber keyAttribute st =
     (case resolveTrigger (source, sourceNodeId, sceneNumber, keyAttribute) st of
        None \<Rightarrow> []
      | Some sceneId \<Rightarrow>
          let sent = (case getScene sceneId st of
                        None \<Rightarrow> []
                      | Some actions \<Rightarrow>
                          map (\<lambda>a. ScCommand (SendDataCommand (ac_targetNodeId a) ORCHESTRATOR_NO_CALLBACK (ac_ccPayload a))) actions)
          in sent @ [PubSceneActivated sourceNodeId sceneNumber keyAttribute sceneId (of_nat (length sent))])"

definition onCentralScene :: "byte \<Rightarrow> byte \<Rightarrow> byte \<Rightarrow> SceneStore \<Rightarrow> sceneEvent list" where
  "onCentralScene sourceNodeId sceneNumber keyAttribute =
     runScene SOURCE_CENTRAL_SCENE sourceNodeId sceneNumber keyAttribute"

definition onBasicSet :: "byte \<Rightarrow> byte \<Rightarrow> SceneStore \<Rightarrow> sceneEvent list" where
  "onBasicSet sourceNodeId v = runScene SOURCE_BASIC_SET sourceNodeId v 0"

definition onSceneActivation :: "byte \<Rightarrow> byte \<Rightarrow> SceneStore \<Rightarrow> sceneEvent list" where
  "onSceneActivation sourceNodeId sceneId = runScene SOURCE_SCENE_ACTIVATION sourceNodeId sceneId 0"

section \<open>The store as two keyed stores\<close>

definition actionsFit :: "Action list \<Rightarrow> bool" where
  "actionsFit actions \<longleftrightarrow> length actions \<le> 255 \<and> list_all (\<lambda>a. length (ac_ccPayload a) \<le> 255) actions"

lemma decodeActionList_encode:
  "list_all (\<lambda>a. length (ac_ccPayload a) \<le> 255) actions \<Longrightarrow>
   decodeActionList (length actions) (concat (map encodeAction actions)) = Some actions"
  by (induction actions) (simp_all add: encodeAction_def unat_of_nat_byte)

lemma decodeActions_encode: "actionsFit actions \<Longrightarrow> decodeActions (Some (encodeActions actions)) = Some actions"
  by (simp add: actionsFit_def decodeActions_def encodeActions_def unat_of_nat_byte decodeActionList_encode)

definition ss_ok :: "SceneStore \<Rightarrow> bool" where
  "ss_ok st \<longleftrightarrow> boundHome st \<noteq> None"

lemma boundHome_updates [simp]:
  "boundHome (st\<lparr>ss_scenes := x\<rparr>) = boundHome st" "boundHome (st\<lparr>ss_triggers := y\<rparr>) = boundHome st"
  by (simp_all add: boundHome_def)

interpretation scenes: keyed_store ss_ok actionsFit setScene deleteScene getScene
  by unfold_locales (auto simp: ss_ok_def setScene_def deleteScene_def getScene_def map_of_insertOrReplace
      map_of_deleteKey decodeActions_encode actionsFit_def MAX_BLOB_ITEMS_def split: option.splits)

interpretation triggers: keyed_store ss_ok "\<lambda>_. True" bindTrigger unbindTrigger resolveTrigger
  by unfold_locales (auto simp: ss_ok_def bindTrigger_def unbindTrigger_def resolveTrigger_def map_of_insertOrReplace
      map_of_deleteKey split: option.splits)

lemma tables_independent:
  "resolveTrigger p (setScene s a st) = resolveTrigger p st" "getScene s (bindTrigger p t st) = getScene s st"
  "resolveTrigger p (deleteScene s st) = resolveTrigger p st"
  by (auto simp: resolveTrigger_def setScene_def getScene_def bindTrigger_def deleteScene_def split: option.splits)

section \<open>Properties\<close>

text \<open>
  A press replays the scene bound to it: after a scene was stored and a press bound to it, that
  press sends the scene's commands, in order and each once, and reports how many; a press that
  differs in source, node, number or key from every bound one does nothing. After the scene is
  deleted the press sends nothing and is still reported, with no commands.
\<close>

theorem scene_replay:
  fixes source n number key :: byte and sceneId :: string
  assumes "ss_ok st" and "actionsFit actions"
  defines "st1 \<equiv> bindTrigger (source, n, number, key) sceneId (setScene sceneId actions st)"
  shows "runScene source n number key st1 =
       map (\<lambda>a. ScCommand (SendDataCommand (ac_targetNodeId a) ORCHESTRATOR_NO_CALLBACK (ac_ccPayload a))) actions @
       [PubSceneActivated n number key sceneId (of_nat (length actions))] \<and>
     ((s', n', u', k') \<noteq> (source, n, number, key) \<longrightarrow> resolveTrigger (s', n', u', k') st = None \<longrightarrow>
      runScene s' n' u' k' st1 = []) \<and>
     runScene source n number key (deleteScene sceneId st1) = [PubSceneActivated n number key sceneId 0]"
proof -
  have ok: "ss_ok (setScene sceneId actions st)" "ss_ok st1"
    unfolding st1_def by (intro scenes.put_ok triggers.put_ok assms(1))+
  have r: "resolveTrigger p st1 = (if p = (source, n, number, key) then Some sceneId else resolveTrigger p st)" for p
    unfolding st1_def by (subst triggers.get_put [OF ok(1)]) (simp_all add: tables_independent)
  have g: "getScene sceneId st1 = Some actions"
    unfolding st1_def tables_independent using scenes.get_put [OF assms(1,2), of sceneId sceneId] by simp
  have d: "getScene sceneId (deleteScene sceneId st1) = None"
    using scenes.get_del [OF ok(2), of sceneId sceneId] by simp
  show ?thesis by (simp add: runScene_def Let_def r g d tables_independent)
qed

definition demoScenes :: SceneStore where
  "demoScenes = \<lparr>ss_dbValid = True, ss_home = Some ''E2A1B07C'', ss_scenes = [], ss_triggers = []\<rparr>"

theorem scene_replay_witness:
  "onCentralScene 4 1 0 (bindTrigger (SOURCE_CENTRAL_SCENE, 4, 1, 0) ''evening''
     (setScene ''evening'' [\<lparr>ac_targetNodeId = 7, ac_ccPayload = [0x25, 0x01, 0xFF]\<rparr>] demoScenes)) =
   [ScCommand (SendDataCommand 7 ORCHESTRATOR_NO_CALLBACK [0x25, 0x01, 0xFF]), PubSceneActivated 4 1 0 ''evening'' 1]"
  using scene_replay [of demoScenes "[\<lparr>ac_targetNodeId = 7, ac_ccPayload = [0x25, 0x01, 0xFF]\<rparr>]"
      SOURCE_CENTRAL_SCENE 4 1 0 "''evening''"]
  by (simp add: onCentralScene_def ss_ok_def boundHome_def demoScenes_def actionsFit_def)

text \<open>
  The length of a command is stored in one byte and \<open>setScene\<close> checks only the number of
  commands: a scene whose one command has 256 bytes is read back with an empty command.
\<close>

theorem long_action_lost:
  assumes "ss_ok st" and "length p = 256"
  shows "getScene sceneId (setScene sceneId [\<lparr>ac_targetNodeId = n, ac_ccPayload = p\<rparr>] st) =
     Some [\<lparr>ac_targetNodeId = n, ac_ccPayload = []\<rparr>]"
proof -
  have "(of_nat (length p) :: byte) = 0" by (simp add: assms(2))
  then show ?thesis
    using assms(1)
    by (auto simp: ss_ok_def setScene_def getScene_def MAX_BLOB_ITEMS_def map_of_insertOrReplace decodeActions_def
        encodeActions_def encodeAction_def Let_def)
qed

theorem long_action_lost_witness:
  "getScene ''s'' (setScene ''s'' [\<lparr>ac_targetNodeId = 7, ac_ccPayload = replicate 256 0\<rparr>] demoScenes) =
     Some [\<lparr>ac_targetNodeId = 7, ac_ccPayload = []\<rparr>]"
  by (rule long_action_lost) (simp_all add: ss_ok_def boundHome_def demoScenes_def)

end
