(* ===== verification/Database_Schema.thy ===== *)
theory Database_Schema
  imports Zw_Prelude
begin

text \<open>
  The schema of the shared database file \<open>nodes.db\<close>: \<open>migrateSchema\<close> of
  \<open>src/src/node-registry/NodeRegistry.cpp\<close> and \<open>runSchema\<close> of
  \<open>src/src/scene-store/SceneStore.cpp\<close>. A database is the columns of its tables and the number
  \<open>PRAGMA user_version\<close> keeps, of which a file has one. The statements that occur behave as
  SQLite documents them; the rows of the tables play no part.
\<close>

section \<open>Statements\<close>

record Database =
  db_tables :: "string \<rightharpoonup> string list"
  db_userVersion :: nat

datatype sql =
    CreateIfNotExists string "string list"
  | DropIfExists string
  | DropTable string
  | AddColumn string string
  | RenameColumn string string string
  | RenameTable string string
  | CopyRows string string
  | SetUserVersion nat

fun db_exec :: "sql \<Rightarrow> Database \<Rightarrow> bool \<times> Database" where
  "db_exec (CreateIfNotExists t cols) db =
     (if db_tables db t \<noteq> None then (True, db) else (True, db\<lparr>db_tables := (db_tables db)(t \<mapsto> cols)\<rparr>))"
| "db_exec (DropIfExists t) db = (True, db\<lparr>db_tables := (db_tables db)(t := None)\<rparr>)"
| "db_exec (DropTable t) db =
     (if db_tables db t = None then (False, db) else (True, db\<lparr>db_tables := (db_tables db)(t := None)\<rparr>))"
| "db_exec (AddColumn t c) db =
     (case db_tables db t of
        None \<Rightarrow> (False, db)
      | Some cols \<Rightarrow>
          if c \<in> set cols then (False, db) else (True, db\<lparr>db_tables := (db_tables db)(t \<mapsto> cols @ [c])\<rparr>))"
| "db_exec (RenameColumn t old new) db =
     (case db_tables db t of
        None \<Rightarrow> (False, db)
      | Some cols \<Rightarrow>
          if old \<notin> set cols \<or> new \<in> set cols then (False, db)
          else (True, db\<lparr>db_tables := (db_tables db)(t \<mapsto> map (\<lambda>c. if c = old then new else c) cols)\<rparr>))"
| "db_exec (RenameTable old new) db =
     (case db_tables db old of
        None \<Rightarrow> (False, db)
      | Some cols \<Rightarrow>
          if db_tables db new \<noteq> None then (False, db)
          else (True, db\<lparr>db_tables := (db_tables db)(old := None, new \<mapsto> cols)\<rparr>))"
| "db_exec (CopyRows from to) db = (db_tables db from \<noteq> None \<and> db_tables db to \<noteq> None, db)"
| "db_exec (SetUserVersion n) db = (True, db\<lparr>db_userVersion := n\<rparr>)"

text \<open>Statements in sequence; the first failure ends it and leaves what was done before.\<close>

fun execAll :: "sql list \<Rightarrow> Database \<Rightarrow> bool \<times> Database" where
  "execAll [] db = (True, db)"
| "execAll (s # ss) db = (case db_exec s db of (ok, db1) \<Rightarrow> if ok then execAll ss db1 else (False, db1))"

section \<open>The node registry\<close>

definition CURRENT_SCHEMA_VERSION :: nat where "CURRENT_SCHEMA_VERSION = 5"

definition identityColumns :: "string list" where
  "identityColumns = [''manufacturer_id'', ''product_type_id'', ''product_id'']"

definition capabilityColumns :: "string list" where
  "capabilityColumns = [''library_type'', ''protocol_version'', ''protocol_sub_version'', ''application_version'',
     ''application_sub_version'', ''endpoint_count'', ''endpoints_dynamic'', ''endpoints_identical'',
     ''zwaveplus_version'', ''role_type'', ''node_type'', ''installer_icon_type'', ''user_icon_type'']"

definition v1Columns :: "string list" where
  "v1Columns = [''home_id'', ''node_id'', ''basic_type'', ''generic_type'', ''specific_type'', ''command_classes'']"

definition nodesColumns :: "string list" where
  "nodesColumns = v1Columns @ [''security_scheme''] @ identityColumns @ capabilityColumns"

definition migrateSchema :: "Database \<Rightarrow> bool \<times> Database" where
  "migrateSchema db =
     (let version = db_userVersion db in
      if version \<ge> CURRENT_SCHEMA_VERSION then (True, db)
      else execAll
        ((if version = 0 then [DropIfExists ''nodes'', CreateIfNotExists ''nodes'' nodesColumns]
          else (if version = 1 then [AddColumn ''nodes'' ''security_scheme''] else []) @
               (if version = 2 then [RenameColumn ''nodes'' ''secure'' ''security_scheme''] else []) @
               (if version \<le> 3 then map (AddColumn ''nodes'') identityColumns else []) @
               map (AddColumn ''nodes'') capabilityColumns) @
         [SetUserVersion 5]) db)"

section \<open>The scene store\<close>

definition SCHEMA_VERSION :: nat where "SCHEMA_VERSION = 1"

definition scenesColumns :: "string list" where
  "scenesColumns = [''home_id'', ''scene_id'', ''actions'']"

definition triggersColumns :: "string list" where
  "triggersColumns = [''home_id'', ''source'', ''source_node_id'', ''scene_number'', ''key_attribute'', ''scene_id'']"

definition runSchema :: "Database \<Rightarrow> bool \<times> Database" where
  "runSchema db =
     (case db_exec (CreateIfNotExists ''scenes'' scenesColumns) db of
        (False, db1) \<Rightarrow> (False, db1)
      | (True, db1) \<Rightarrow>
          if db_userVersion db1 \<ge> SCHEMA_VERSION then (True, db1)
          else execAll
            ((if db_tables db1 ''scene_triggers'' \<noteq> None
              then [RenameTable ''scene_triggers'' ''scene_triggers_legacy'',
                    CreateIfNotExists ''scene_triggers'' triggersColumns,
                    CopyRows ''scene_triggers_legacy'' ''scene_triggers'',
                    DropTable ''scene_triggers_legacy'']
              else [CreateIfNotExists ''scene_triggers'' triggersColumns]) @
             [SetUserVersion 1]) db1)"

section \<open>Migration of the node table\<close>

text \<open>The shapes of the node table that earlier versions wrote.\<close>

fun shapeOf :: "nat \<Rightarrow> string list" where
  "shapeOf v =
     (if v = 1 then v1Columns
      else if v = 2 then v1Columns @ [''secure'']
      else if v = 3 then v1Columns @ [''security_scheme'']
      else if v = 4 then v1Columns @ [''security_scheme''] @ identityColumns
      else nodesColumns)"

lemma execAll_append:
  "execAll (xs @ ys) db = (case execAll xs db of (ok, db1) \<Rightarrow> if ok then execAll ys db1 else (False, db1))"
  by (induction xs arbitrary: db) (auto split: prod.splits)

lemma execAll_addColumns:
  "db_tables db t = Some cols \<Longrightarrow> set cs \<inter> set cols = {} \<Longrightarrow> distinct cs \<Longrightarrow>
   execAll (map (AddColumn t) cs) db = (True, db\<lparr>db_tables := (db_tables db)(t \<mapsto> cols @ cs)\<rparr>)"
proof (induction cs arbitrary: db cols)
  case Nil
  then have "(db_tables db)(t \<mapsto> cols) = db_tables db" by (simp add: fun_upd_idem_iff)
  then show ?case by simp
next
  case (Cons c cs)
  let ?db = "db\<lparr>db_tables := (db_tables db)(t \<mapsto> cols @ [c])\<rparr>"
  have "execAll (map (AddColumn t) (c # cs)) db = execAll (map (AddColumn t) cs) ?db" using Cons.prems by simp
  also have "\<dots> = (True, ?db\<lparr>db_tables := (db_tables ?db)(t \<mapsto> (cols @ [c]) @ cs)\<rparr>)"
    using Cons.prems by (intro Cons.IH) auto
  also have "(db_tables ?db)(t \<mapsto> (cols @ [c]) @ cs) = (db_tables db)(t \<mapsto> cols @ c # cs)" by (simp add: fun_eq_iff)
  finally show ?case by simp
qed

lemma columns_apart:
  "set identityColumns \<inter> set (v1Columns @ [''security_scheme'']) = {}" "distinct identityColumns"
  "set capabilityColumns \<inter> set (v1Columns @ [''security_scheme''] @ identityColumns) = {}" "distinct capabilityColumns"
  "''security_scheme'' \<notin> set v1Columns" "''secure'' \<notin> set v1Columns"
  by (simp_all add: identityColumns_def capabilityColumns_def v1Columns_def)

text \<open>
  The migrations of the node table compose: from the table of any earlier version the migration
  succeeds, ends with exactly the columns a fresh database gets, and touches no other table.
\<close>

theorem migration_reaches_current:
  assumes "v \<in> {1, 2, 3, 4}" and "db_userVersion db = v" and "db_tables db ''nodes'' = Some (shapeOf v)"
  shows "migrateSchema db =
     (True, \<lparr>db_tables = (db_tables db)(''nodes'' \<mapsto> nodesColumns), db_userVersion = 5\<rparr>)"
proof -
  let ?v3 = "v1Columns @ [''security_scheme'']"
  let ?up = "\<lambda>cols. db\<lparr>db_tables := (db_tables db)(''nodes'' \<mapsto> cols)\<rparr>"
  have caps: "execAll (map (AddColumn ''nodes'') capabilityColumns @ [SetUserVersion 5]) (?up (?v3 @ identityColumns)) =
      (True, \<lparr>db_tables = (db_tables db)(''nodes'' \<mapsto> nodesColumns), db_userVersion = 5\<rparr>)"
    using execAll_addColumns [of "?up (?v3 @ identityColumns)" "''nodes''" "?v3 @ identityColumns" capabilityColumns]
      columns_apart by (simp add: execAll_append nodesColumns_def)
  have ident: "execAll (map (AddColumn ''nodes'') identityColumns @ map (AddColumn ''nodes'') capabilityColumns @
        [SetUserVersion 5]) (?up ?v3) =
      (True, \<lparr>db_tables = (db_tables db)(''nodes'' \<mapsto> nodesColumns), db_userVersion = 5\<rparr>)"
    using execAll_addColumns [of "?up ?v3" "''nodes''" ?v3 identityColumns] columns_apart caps
    by (simp add: execAll_append)
  have same: "?up cols = db" if "db_tables db ''nodes'' = Some cols" for cols
    using that by (simp add: fun_upd_idem_iff)
  have rename: "map (\<lambda>c. if c = ''secure'' then ''security_scheme'' else c) v1Columns = v1Columns"
    using columns_apart(6) by (intro map_idI) auto
  consider "v = 1" | "v = 2" | "v = 3" | "v = 4" using assms(1) by blast
  then show ?thesis
  proof cases
    case 1
    then show ?thesis
      using assms ident columns_apart by (simp add: migrateSchema_def CURRENT_SCHEMA_VERSION_def)
  next
    case 2
    then show ?thesis
      using assms ident columns_apart rename by (simp add: migrateSchema_def CURRENT_SCHEMA_VERSION_def)
  next
    case 3
    then show ?thesis
      using assms ident same [of ?v3] by (simp add: migrateSchema_def CURRENT_SCHEMA_VERSION_def)
  next
    case 4
    then show ?thesis
      using assms caps same [of "?v3 @ identityColumns"] by (simp add: migrateSchema_def CURRENT_SCHEMA_VERSION_def)
  qed
qed

theorem migration_reaches_current_witness:
  "fst (migrateSchema \<lparr>db_tables = [''nodes'' \<mapsto> shapeOf 2], db_userVersion = 2\<rparr>)"
  using migration_reaches_current [of 2 "\<lparr>db_tables = [''nodes'' \<mapsto> shapeOf 2], db_userVersion = 2\<rparr>"] by simp

text \<open>
  The two modules share the one version number of the file. On a new database, when the node
  registry migrates first, the scene store takes its version for its own, reports success and never
  creates the table of triggers; when the scene store comes first, the migration of the node registry
  takes the number for an old node table and fails for want of one.
\<close>

theorem shared_user_version:
  assumes "db_userVersion db = 0" and "db_tables db ''scene_triggers'' = None" and "db_tables db ''nodes'' = None"
  shows "fst (migrateSchema db) \<and> fst (runSchema (snd (migrateSchema db))) \<and>
       db_tables (snd (runSchema (snd (migrateSchema db)))) ''scene_triggers'' = None \<and>
       fst (runSchema db) \<and> \<not> fst (migrateSchema (snd (runSchema db)))"
  using assms by (simp add: migrateSchema_def runSchema_def CURRENT_SCHEMA_VERSION_def SCHEMA_VERSION_def)

theorem shared_user_version_witness:
  "\<not> fst (migrateSchema (snd (runSchema \<lparr>db_tables = Map.empty, db_userVersion = 0\<rparr>)))"
  using shared_user_version [of "\<lparr>db_tables = Map.empty, db_userVersion = 0\<rparr>"] by simp

end
