(* ===== verification/Node_Metadata.thy ===== *)
theory Node_Metadata
  imports Node_Registry "HOL-Library.List_Lexorder" "HOL-Library.Char_ord"
begin

text \<open>
  Descriptions of nodes, \<open>src/src/node-metadata/NodeMetadata.cpp\<close>: free key and value strings
  per node, with the reverse lookup that the logical thermostats resolve their members with. The table
  is the list of its rows under the primary key (home, node, key).
\<close>

section \<open>The store\<close>

record NodeMetadata =
  md_dbValid :: bool
  md_home :: "string option"
  md_rows :: "((string \<times> byte \<times> string) \<times> string) list"

definition md_boundHome :: "NodeMetadata \<Rightarrow> string option" where
  "md_boundHome st = (if \<not> md_dbValid st then None else md_home st)"

definition md_setHomeId :: "bytes \<Rightarrow> NodeMetadata \<Rightarrow> NodeMetadata" where
  "md_setHomeId homeIdBytes st = st\<lparr>md_home := Some (formatHomeId homeIdBytes)\<rparr>"

text \<open>An operation returns the node of the \<open>NodeMetadataChanged\<close> it publishes, if it publishes one.\<close>

definition md_remove :: "byte \<Rightarrow> string \<Rightarrow> NodeMetadata \<Rightarrow> byte option \<times> NodeMetadata" where
  "md_remove nodeId key st =
     (case md_boundHome st of
        None \<Rightarrow> (None, st)
      | Some home \<Rightarrow> (Some nodeId, st\<lparr>md_rows := deleteKey (home, nodeId, key) (md_rows st)\<rparr>))"

definition md_set :: "byte \<Rightarrow> string \<Rightarrow> string \<Rightarrow> NodeMetadata \<Rightarrow> byte option \<times> NodeMetadata" where
  "md_set nodeId key val st =
     (if val = [] then md_remove nodeId key st
      else case md_boundHome st of
          None \<Rightarrow> (None, st)
        | Some home \<Rightarrow> (Some nodeId, st\<lparr>md_rows := insertOrReplace (home, nodeId, key) val (md_rows st)\<rparr>))"

definition md_get :: "byte \<Rightarrow> string \<Rightarrow> NodeMetadata \<Rightarrow> string option" where
  "md_get nodeId key st =
     (case md_boundHome st of None \<Rightarrow> None | Some home \<Rightarrow> map_of (md_rows st) (home, nodeId, key))"

text \<open>\<open>ORDER BY key\<close> compares the bytes of the keys.\<close>

definition md_getAll :: "byte \<Rightarrow> NodeMetadata \<Rightarrow> (string \<times> string) list" where
  "md_getAll nodeId st =
     (case md_boundHome st of
        None \<Rightarrow> []
      | Some home \<Rightarrow>
          sort_key fst (map (\<lambda>((h, n, k), v). (k, v))
            (filter (\<lambda>((h, n, k), v). h = home \<and> n = nodeId) (md_rows st))))"

definition nodesWith :: "string \<Rightarrow> string \<Rightarrow> NodeMetadata \<Rightarrow> byte list" where
  "nodesWith key val st =
     (case md_boundHome st of
        None \<Rightarrow> []
      | Some home \<Rightarrow>
          sort (map (\<lambda>((h, n, k), v). n)
            (filter (\<lambda>((h, n, k), v). h = home \<and> k = key \<and> v = val) (md_rows st))))"

lemmas md_defs = md_boundHome_def md_remove_def md_set_def md_get_def md_getAll_def nodesWith_def

section \<open>Lookup and reverse lookup\<close>

text \<open>The primary key of the table.\<close>

definition md_keys :: "NodeMetadata \<Rightarrow> bool" where
  "md_keys st \<longleftrightarrow> distinct (map fst (md_rows st))"

datatype metadataOp =
    SetMetadata byte string string
  | RemoveMetadata byte string

fun runMetadataOp :: "metadataOp \<Rightarrow> NodeMetadata \<Rightarrow> NodeMetadata" where
  "runMetadataOp (SetMetadata n k v) st = snd (md_set n k v st)"
| "runMetadataOp (RemoveMetadata n k) st = snd (md_remove n k st)"

lemma runMetadataOp_keys: "md_keys st \<Longrightarrow> md_keys (runMetadataOp op st)"
  by (cases op) (auto simp: md_keys_def md_defs keys_insertOrReplace keys_deleteKey split: option.split)

lemma run_keys: "md_keys st \<Longrightarrow> md_keys (fold runMetadataOp ops st)"
  by (induction ops arbitrary: st) (simp_all add: runMetadataOp_keys)

definition md_ok :: "NodeMetadata \<Rightarrow> bool" where
  "md_ok st \<longleftrightarrow> md_dbValid st \<and> md_home st \<noteq> None"

interpretation metadata: keyed_store md_ok "\<lambda>v. v \<noteq> []" "\<lambda>(n, k) v st. snd (md_set n k v st)"
  "\<lambda>(n, k) st. snd (md_remove n k st)" "\<lambda>(n, k). md_get n k"
  by unfold_locales (auto simp: md_ok_def md_defs map_of_insertOrReplace map_of_deleteKey split: option.splits prod.splits)

lemma nodesWith_iff:
  assumes "md_keys st"
  shows "n \<in> set (nodesWith key val st) \<longleftrightarrow> md_get n key st = Some val"
  using assms by (force simp: md_defs md_keys_def split: option.split)

lemma nodesWith_distinct:
  assumes "md_keys st"
  shows "distinct (nodesWith key val st)"
proof -
  have "inj_on (\<lambda>((h, n, k), v). n) (set (filter (\<lambda>((h, n, k), v). h = home \<and> k = key \<and> v = val) (md_rows st)))" for home
    by (auto simp: inj_on_def)
  moreover have "distinct (md_rows st)" using assms by (simp add: md_keys_def distinct_map)
  ultimately show ?thesis by (simp add: nodesWith_def distinct_map split: option.split)
qed

text \<open>
  The reverse lookup is exact: after any sequence of updates the nodes found for a tag are, in
  ascending order and each once, those for which a lookup of the key gives the value.
\<close>

theorem metadata_reverse_lookup:
  fixes ops :: "metadataOp list"
  assumes "md_rows st = []"
  defines "st' \<equiv> fold runMetadataOp ops st"
  shows "sorted (nodesWith key val st') \<and> distinct (nodesWith key val st') \<and>
     set (nodesWith key val st') = {n. md_get n key st' = Some val}"
proof -
  have keys: "md_keys st'" unfolding st'_def by (rule run_keys) (simp add: md_keys_def assms(1))
  have "sorted (nodesWith key val st')" by (simp add: nodesWith_def split: option.split)
  then show ?thesis using nodesWith_distinct [OF keys] nodesWith_iff [OF keys] by auto
qed

definition demoMetadata :: NodeMetadata where
  "demoMetadata = \<lparr>md_dbValid = True, md_home = Some ''E2A1B07C'', md_rows = []\<rparr>"

definition demoTags :: "metadataOp list" where
  "demoTags = [SetMetadata 9 ''room'' ''hall'', SetMetadata 5 ''room'' ''attic'', SetMetadata 7 ''room'' ''hall'',
     SetMetadata 5 ''room'' ''hall'', SetMetadata 9 ''room'' '''']"

theorem metadata_reverse_lookup_witness:
  "distinct (nodesWith ''room'' ''hall'' (fold runMetadataOp demoTags demoMetadata)) \<and>
   nodesWith ''room'' ''hall'' (fold runMetadataOp demoTags demoMetadata) = [5, 7]"
  using metadata_reverse_lookup [where st = demoMetadata and ops = demoTags and key = "''room''" and val = "''hall''"]
  by (simp add: demoMetadata_def demoTags_def md_defs insertOrReplace_def deleteKey_def)

end
