(* ===== verification/Decimal_Text.thy ===== *)
theory Decimal_Text
  imports Zw_Prelude
begin

text \<open>
  Decimal numbers as the program prints them with \<open>std::to_string\<close>, and reading them back.
\<close>

section \<open>Printing\<close>

definition decDigit :: "nat \<Rightarrow> char" where "decDigit d = char_of (48 + d)"

fun decString :: "nat \<Rightarrow> string" where
  "decString n = (if n < 10 then [decDigit n] else decString (n div 10) @ [decDigit (n mod 10)])"

declare decString.simps [simp del]

definition decInt :: "int \<Rightarrow> string" where
  "decInt z = (if z < 0 then CHR ''-'' # decString (nat (- z)) else decString (nat z))"

section \<open>Reading\<close>

definition digitValue :: "char \<Rightarrow> nat" where "digitValue c = of_char c - 48"

lemma digitValue_decDigit [simp]: "d < 10 \<Longrightarrow> digitValue (decDigit d) = d"
  by (simp add: digitValue_def decDigit_def)

lemma decDigit_neq: "d < 10 \<Longrightarrow> decDigit d \<notin> {CHR '':'', CHR ''-'', CHR ''.''}"
proof -
  assume "d < 10"
  then have "of_char (decDigit d) = 48 + d" by (simp add: decDigit_def)
  moreover have "of_char (CHR '':'') = (58 :: nat)" "of_char (CHR ''-'') = (45 :: nat)" "of_char (CHR ''.'') = (46 :: nat)"
    by simp_all
  ultimately show ?thesis using \<open>d < 10\<close> by auto
qed

text \<open>The number a row of digits stands for.\<close>

definition digitsValue :: "string \<Rightarrow> nat" where
  "digitsValue s = foldl (\<lambda>a c. 10 * a + digitValue c) 0 s"

lemma digitsValue_from: "foldl (\<lambda>a c. 10 * a + digitValue c) n s = n * 10 ^ length s + digitsValue s"
proof (induction s arbitrary: n)
  case (Cons c s)
  from Cons.IH [of "10 * n + digitValue c"] Cons.IH [of "digitValue c"] show ?case
    by (simp add: digitsValue_def algebra_simps)
qed (simp add: digitsValue_def)

lemma digitsValue_append: "digitsValue (s @ t) = digitsValue s * 10 ^ length t + digitsValue t"
  using digitsValue_from [of "digitsValue s" t] by (simp add: digitsValue_def)

lemma digitsValue_zeros: "digitsValue (replicate n (CHR ''0'')) = 0"
  by (induction n) (simp_all add: digitsValue_def digitValue_def)

lemma decString_value [simp]: "digitsValue (decString n) = n"
proof (induction n rule: decString.induct)
  case (1 n)
  show ?case
  proof (cases "n < 10")
    case True
    then show ?thesis by (simp add: decString.simps [of n] digitsValue_def)
  next
    case False
    with 1 have "digitsValue (decString (n div 10) @ [decDigit (n mod 10)]) = n"
      unfolding digitsValue_append by (simp add: digitsValue_def)
    then show ?thesis using False by (simp add: decString.simps [of n])
  qed
qed

lemma decString_chars: "c \<in> set (decString n) \<Longrightarrow> c \<notin> {CHR '':'', CHR ''-'', CHR ''.''}"
proof (induction n rule: decString.induct)
  case (1 n)
  show ?case
  proof (cases "n < 10")
    case True
    with "1.prems" have "c = decDigit n" by (simp add: decString.simps [of n])
    then show ?thesis using decDigit_neq [OF True] by simp
  next
    case False
    with "1.prems" have "c \<in> set (decString (n div 10)) \<or> c = decDigit (n mod 10)"
      by (auto simp: decString.simps [of n])
    then show ?thesis
    proof
      assume "c = decDigit (n mod 10)"
      then show ?thesis using decDigit_neq [of "n mod 10"] by (simp only:) simp
    qed (rule "1.IH" [OF False])
  qed
qed

lemma decString_length: "n < 10 ^ k \<Longrightarrow> 0 < k \<Longrightarrow> length (decString n) \<le> k"
proof (induction n arbitrary: k rule: decString.induct)
  case (1 n)
  show ?case
  proof (cases "n < 10")
    case True
    then show ?thesis using "1.prems"(2) by (simp add: decString.simps [of n])
  next
    case False
    then obtain j where k: "k = Suc (Suc j)" using "1.prems" by (metis One_nat_def less_numeral_extra(3) not0_implies_Suc power_one_right)
    then have "n div 10 < 10 ^ Suc j" using "1.prems"(1) by (simp add: less_mult_imp_div_less mult.commute)
    from "1.IH" [OF False this] k False show ?thesis by (simp add: decString.simps [of n])
  qed
qed

lemma decString_inject: "decString m = decString n \<longleftrightarrow> m = n"
  by (metis decString_value)

lemma decInt_inject: "decInt y = decInt z \<longleftrightarrow> y = z"
proof -
  have "decString m \<noteq> CHR ''-'' # s" for m s using decString_chars [of "CHR ''-''" m] by force
  then show ?thesis by (auto simp: decInt_def decString_inject dest: sym)
qed

lemma decInt_chars: "CHR '':'' \<notin> set (decInt z)"
  using decString_chars [of "CHR '':''"] by (auto simp: decInt_def)

end
