(* ===== verification/Thermostat.thy ===== *)
theory Thermostat
  imports Node_Metadata Pending_Queue Decimal_Text "HOL-Library.Product_Lexorder"
begin

text \<open>
  Logical thermostats, \<open>src/src/orchestrator/ThermostatOrchestrator.cpp\<close>: the nodes that share a
  metadata tag are commanded together, and their reports are followed as one aggregate that is published
  whenever it changes. The orchestrator reads the metadata store and the node registry at every event, so
  both are part of the event.
\<close>

section \<open>State\<close>

definition TAGGED_CC_THERMOSTAT_MODE :: byte where "TAGGED_CC_THERMOSTAT_MODE = 0x40"
definition TAGGED_CC_THERMOSTAT_SETPOINT :: byte where "TAGGED_CC_THERMOSTAT_SETPOINT = 0x43"
definition OP_STATE_IDLE :: byte where "OP_STATE_IDLE = 0"
definition OP_STATE_HEATING :: byte where "OP_STATE_HEATING = 1"
definition OP_STATE_COOLING :: byte where "OP_STATE_COOLING = 2"
definition MODE_MIXED :: byte where "MODE_MIXED = 0xFF"

type_synonym GroupKey = "string \<times> string"

record Setpoint =
  sp_type :: byte
  sp_scale :: byte
  sp_precision :: byte
  sp_value :: i32

definition noSetpoint :: Setpoint where
  "noSetpoint = \<lparr>sp_type = 0, sp_scale = 0, sp_precision = 0, sp_value = 0\<rparr>"

record NodeClimate =
  cl_mode :: "byte option"
  cl_operatingState :: "byte option"
  cl_fanMode :: "byte option"
  cl_setpoint :: "Setpoint option"
  cl_setpointSeq :: "64 word"

definition noClimate :: NodeClimate where
  "noClimate = \<lparr>cl_mode = None, cl_operatingState = None, cl_fanMode = None, cl_setpoint = None, cl_setpointSeq = 0\<rparr>"

text \<open>
  \<open>knownGroups\<close> is a \<open>std::set\<close>, here its elements in ascending order; \<open>lastSignature[g]\<close> is
  the empty string for a group that has none.
\<close>

record Thermostats =
  th_perNode :: "byte \<rightharpoonup> NodeClimate"
  th_knownGroups :: "GroupKey list"
  th_lastSignature :: "GroupKey \<Rightarrow> string"
  th_setpointCounter :: "64 word"

definition newThermostats :: Thermostats where
  "newThermostats = \<lparr>th_perNode = Map.empty, th_knownGroups = [], th_lastSignature = (\<lambda>_. []), th_setpointCounter = 0\<rparr>"

record LogicalThermostatState =
  ls_group :: GroupKey
  ls_memberCount :: byte
  ls_mode :: byte
  ls_operatingState :: byte
  ls_fanMode :: byte
  ls_setpointType :: byte
  ls_setpointScale :: byte
  ls_setpointPrecision :: byte
  ls_setpointValue :: i32

fun supportsCc :: "NodeInfo list \<Rightarrow> byte \<Rightarrow> byte \<Rightarrow> bool" where
  "supportsCc [] nodeId classByte = False"
| "supportsCc (info # rest) nodeId classByte =
     (if ni_nodeId info = nodeId then classByte \<in> set (ni_commandClasses info) else supportsCc rest nodeId classByte)"

section \<open>Aggregation\<close>

text \<open>The loops over the members keep the local variables of the code as parameters.\<close>

fun aggregateByteLoop ::
  "(byte \<rightharpoonup> NodeClimate) \<Rightarrow> (NodeClimate \<Rightarrow> byte option) \<Rightarrow> byte list \<Rightarrow> byte option \<Rightarrow> bool \<Rightarrow> byte" where
  "aggregateByteLoop perNode pick [] common mixed =
     (if mixed then MODE_MIXED else case common of None \<Rightarrow> 0 | Some v \<Rightarrow> v)"
| "aggregateByteLoop perNode pick (member # ms) common mixed =
     (case perNode member of
        None \<Rightarrow> aggregateByteLoop perNode pick ms common mixed
      | Some entry \<Rightarrow>
          (case pick entry of
             None \<Rightarrow> aggregateByteLoop perNode pick ms common mixed
           | Some v \<Rightarrow>
               (case common of
                  None \<Rightarrow> aggregateByteLoop perNode pick ms (Some v) mixed
                | Some c \<Rightarrow> aggregateByteLoop perNode pick ms common (mixed \<or> c \<noteq> v))))"

definition aggregateByte :: "(byte \<rightharpoonup> NodeClimate) \<Rightarrow> byte list \<Rightarrow> (NodeClimate \<Rightarrow> byte option) \<Rightarrow> byte" where
  "aggregateByte perNode members pick = aggregateByteLoop perNode pick members None False"

fun aggregateOperatingLoop :: "(byte \<rightharpoonup> NodeClimate) \<Rightarrow> byte list \<Rightarrow> bool \<Rightarrow> byte" where
  "aggregateOperatingLoop perNode [] anyCooling = (if anyCooling then OP_STATE_COOLING else OP_STATE_IDLE)"
| "aggregateOperatingLoop perNode (member # ms) anyCooling =
     (case perNode member of
        None \<Rightarrow> aggregateOperatingLoop perNode ms anyCooling
      | Some entry \<Rightarrow>
          (case cl_operatingState entry of
             None \<Rightarrow> aggregateOperatingLoop perNode ms anyCooling
           | Some opState \<Rightarrow>
               if opState = OP_STATE_HEATING then OP_STATE_HEATING
               else aggregateOperatingLoop perNode ms (anyCooling \<or> opState = OP_STATE_COOLING)))"

definition aggregateOperatingState :: "(byte \<rightharpoonup> NodeClimate) \<Rightarrow> byte list \<Rightarrow> byte" where
  "aggregateOperatingState perNode members = aggregateOperatingLoop perNode members False"

fun aggregateSetpointLoop :: "(byte \<rightharpoonup> NodeClimate) \<Rightarrow> byte list \<Rightarrow> Setpoint \<Rightarrow> 64 word \<Rightarrow> Setpoint" where
  "aggregateSetpointLoop perNode [] best bestSeq = best"
| "aggregateSetpointLoop perNode (member # ms) best bestSeq =
     (case perNode member of
        None \<Rightarrow> aggregateSetpointLoop perNode ms best bestSeq
      | Some entry \<Rightarrow>
          (case cl_setpoint entry of
             None \<Rightarrow> aggregateSetpointLoop perNode ms best bestSeq
           | Some setpoint \<Rightarrow>
               if cl_setpointSeq entry \<ge> bestSeq
               then aggregateSetpointLoop perNode ms setpoint (cl_setpointSeq entry)
               else aggregateSetpointLoop perNode ms best bestSeq))"

definition aggregateSetpoint :: "(byte \<rightharpoonup> NodeClimate) \<Rightarrow> byte list \<Rightarrow> Setpoint" where
  "aggregateSetpoint perNode members = aggregateSetpointLoop perNode members noSetpoint 0"

text \<open>The event of \<open>publishGroupState\<close>, and its signature.\<close>

definition groupState :: "NodeMetadata \<Rightarrow> GroupKey \<Rightarrow> (byte \<rightharpoonup> NodeClimate) \<Rightarrow> LogicalThermostatState" where
  "groupState md grp perNode =
     (let members = nodesWith (fst grp) (snd grp) md;
          setpoint = aggregateSetpoint perNode members
      in \<lparr>ls_group = grp,
          ls_memberCount = of_nat (length members),
          ls_mode = aggregateByte perNode members cl_mode,
          ls_operatingState = aggregateOperatingState perNode members,
          ls_fanMode = aggregateByte perNode members cl_fanMode,
          ls_setpointType = sp_type setpoint,
          ls_setpointScale = sp_scale setpoint,
          ls_setpointPrecision = sp_precision setpoint,
          ls_setpointValue = sp_value setpoint\<rparr>)"

fun joinColons :: "string list \<Rightarrow> string" where
  "joinColons [] = []"
| "joinColons [s] = s"
| "joinColons (s # t # rest) = s @ CHR '':'' # joinColons (t # rest)"

definition signature :: "LogicalThermostatState \<Rightarrow> string" where
  "signature e = joinColons
     (map (decString \<circ> unat) [ls_memberCount e, ls_mode e, ls_operatingState e, ls_fanMode e,
        ls_setpointType e, ls_setpointScale e, ls_setpointPrecision e] @
      [decInt (sint (ls_setpointValue e))])"

section \<open>Handlers\<close>

datatype thermostatEvent =
    ThCommand busCommand
  | PubLogicalThermostatState LogicalThermostatState

definition publishGroupState ::
  "NodeMetadata \<Rightarrow> GroupKey \<Rightarrow> Thermostats \<Rightarrow> thermostatEvent list \<times> Thermostats" where
  "publishGroupState md grp st =
     (let event = groupState md grp (th_perNode st); sig = signature event in
      if th_lastSignature st grp = sig then ([], st)
      else ([PubLogicalThermostatState event],
            st\<lparr>th_lastSignature := (th_lastSignature st)(grp := sig)\<rparr>))"

fun refreshGroups :: "NodeMetadata \<Rightarrow> byte \<Rightarrow> GroupKey list \<Rightarrow> Thermostats \<Rightarrow> thermostatEvent list \<times> Thermostats" where
  "refreshGroups md nodeId [] st = ([], st)"
| "refreshGroups md nodeId (grp # gs) st =
     (if nodeId \<in> set (nodesWith (fst grp) (snd grp) md)
      then case publishGroupState md grp st of
          (evs, st1) \<Rightarrow> (case refreshGroups md nodeId gs st1 of (evs2, st2) \<Rightarrow> (evs @ evs2, st2))
      else refreshGroups md nodeId gs st)"

definition refreshGroupsForNode :: "NodeMetadata \<Rightarrow> byte \<Rightarrow> Thermostats \<Rightarrow> thermostatEvent list \<times> Thermostats" where
  "refreshGroupsForNode md nodeId st = refreshGroups md nodeId (th_knownGroups st) st"

definition addressGroup :: "GroupKey \<Rightarrow> Thermostats \<Rightarrow> Thermostats" where
  "addressGroup grp st = st\<lparr>th_knownGroups := insort_insert grp (th_knownGroups st)\<rparr>"

fun fanOut :: "(byte \<Rightarrow> busCommand) \<Rightarrow> byte \<Rightarrow> NodeInfo list \<Rightarrow> byte list \<Rightarrow> thermostatEvent list" where
  "fanOut command classByte nodes [] = []"
| "fanOut command classByte nodes (member # ms) =
     (if \<not> supportsCc nodes member classByte then fanOut command classByte nodes ms
      else ThCommand (command member) # fanOut command classByte nodes ms)"

definition onModeCommand ::
  "NodeMetadata \<Rightarrow> NodeRegistry \<Rightarrow> GroupKey \<Rightarrow> byte \<Rightarrow> Thermostats \<Rightarrow> thermostatEvent list \<times> Thermostats" where
  "onModeCommand md reg grp mode st =
     (fanOut (\<lambda>n. SetThermostatModeCommand n ORCHESTRATOR_NO_CALLBACK mode) TAGGED_CC_THERMOSTAT_MODE (snapshot reg)
        (nodesWith (fst grp) (snd grp) md),
      addressGroup grp st)"

definition onSetpointCommand ::
  "NodeMetadata \<Rightarrow> NodeRegistry \<Rightarrow> GroupKey \<Rightarrow> Setpoint \<Rightarrow> Thermostats \<Rightarrow> thermostatEvent list \<times> Thermostats" where
  "onSetpointCommand md reg grp sp st =
     (fanOut (\<lambda>n. SetThermostatSetpointCommand n ORCHESTRATOR_NO_CALLBACK (sp_type sp) (sp_precision sp) (sp_scale sp) (sp_value sp))
        TAGGED_CC_THERMOSTAT_SETPOINT (snapshot reg) (nodesWith (fst grp) (snd grp) md),
      addressGroup grp st)"

definition climateOf :: "byte \<Rightarrow> Thermostats \<Rightarrow> NodeClimate" where
  "climateOf nodeId st = (case th_perNode st nodeId of None \<Rightarrow> noClimate | Some c \<Rightarrow> c)"

definition onModeReport :: "NodeMetadata \<Rightarrow> byte \<Rightarrow> byte \<Rightarrow> Thermostats \<Rightarrow> thermostatEvent list \<times> Thermostats" where
  "onModeReport md nodeId mode st =
     refreshGroupsForNode md nodeId
       (st\<lparr>th_perNode := (th_perNode st)(nodeId \<mapsto> (climateOf nodeId st)\<lparr>cl_mode := Some mode\<rparr>)\<rparr>)"

definition onOperatingStateReport :: "NodeMetadata \<Rightarrow> byte \<Rightarrow> byte \<Rightarrow> Thermostats \<Rightarrow> thermostatEvent list \<times> Thermostats" where
  "onOperatingStateReport md nodeId opState st =
     refreshGroupsForNode md nodeId
       (st\<lparr>th_perNode := (th_perNode st)(nodeId \<mapsto> (climateOf nodeId st)\<lparr>cl_operatingState := Some opState\<rparr>)\<rparr>)"

definition onFanModeReport :: "NodeMetadata \<Rightarrow> byte \<Rightarrow> byte \<Rightarrow> Thermostats \<Rightarrow> thermostatEvent list \<times> Thermostats" where
  "onFanModeReport md nodeId mode st =
     refreshGroupsForNode md nodeId
       (st\<lparr>th_perNode := (th_perNode st)(nodeId \<mapsto> (climateOf nodeId st)\<lparr>cl_fanMode := Some mode\<rparr>)\<rparr>)"

definition onSetpointReport :: "NodeMetadata \<Rightarrow> byte \<Rightarrow> Setpoint \<Rightarrow> Thermostats \<Rightarrow> thermostatEvent list \<times> Thermostats" where
  "onSetpointReport md nodeId sp st =
     (let counter = th_setpointCounter st + 1 in
      refreshGroupsForNode md nodeId
        (st\<lparr>th_perNode := (th_perNode st)(nodeId \<mapsto> (climateOf nodeId st)\<lparr>cl_setpoint := Some sp, cl_setpointSeq := counter\<rparr>),
            th_setpointCounter := counter\<rparr>))"

datatype thermostatInput =
    LogicalModeCommand GroupKey byte
  | LogicalSetpointCommand GroupKey Setpoint
  | ModeReport byte byte
  | OperatingStateReport byte byte
  | FanModeReport byte byte
  | SetpointReport byte Setpoint

fun onThermostatInput ::
  "NodeMetadata \<times> NodeRegistry \<times> thermostatInput \<Rightarrow> Thermostats \<Rightarrow> thermostatEvent list \<times> Thermostats" where
  "onThermostatInput (md, reg, LogicalModeCommand g mode) = onModeCommand md reg g mode"
| "onThermostatInput (md, reg, LogicalSetpointCommand g sp) = onSetpointCommand md reg g sp"
| "onThermostatInput (md, reg, ModeReport n mode) = onModeReport md n mode"
| "onThermostatInput (md, reg, OperatingStateReport n opState) = onOperatingStateReport md n opState"
| "onThermostatInput (md, reg, FanModeReport n mode) = onFanModeReport md n mode"
| "onThermostatInput (md, reg, SetpointReport n sp) = onSetpointReport md n sp"

section \<open>Signatures tell states apart\<close>

lemma append_sep_inject:
  "c \<notin> set xs \<Longrightarrow> c \<notin> set ys \<Longrightarrow> xs @ c # us = ys @ c # vs \<longleftrightarrow> xs = ys \<and> us = vs"
  by (induction xs arbitrary: ys; case_tac ys) auto

lemma joinColons_inject:
  "length xs = length ys \<Longrightarrow> \<forall>s \<in> set xs \<union> set ys. CHR '':'' \<notin> set s \<Longrightarrow> joinColons xs = joinColons ys \<longleftrightarrow> xs = ys"
proof (induction xs arbitrary: ys rule: joinColons.induct)
  case (2 s)
  then show ?case by (cases ys) auto
next
  case (3 s t rest)
  then obtain s' t' rest' where "ys = s' # t' # rest'" by (metis Suc_length_conv)
  with 3 show ?case by (auto simp: append_sep_inject)
qed simp

lemma signature_inject: "ls_group d = ls_group e \<Longrightarrow> signature d = signature e \<longleftrightarrow> d = e"
proof -
  assume g: "ls_group d = ls_group e"
  let ?fields = "\<lambda>e. map (decString \<circ> unat) [ls_memberCount e, ls_mode e, ls_operatingState e, ls_fanMode e,
        ls_setpointType e, ls_setpointScale e, ls_setpointPrecision e] @ [decInt (sint (ls_setpointValue e))]"
  have "CHR '':'' \<notin> set s" if "s \<in> set (?fields e)" for s and e :: LogicalThermostatState
    using that decString_chars [of "CHR '':''"] decInt_chars by auto
  then have "signature d = signature e \<longleftrightarrow> ?fields d = ?fields e"
    unfolding signature_def by (intro joinColons_inject) auto
  then show ?thesis using g
    by (cases d; cases e) (auto simp: decString_inject decInt_inject word_unat_eq_iff [symmetric] signed_word_eqI)
qed

lemma signature_nonempty: "signature e \<noteq> []"
  by (simp add: signature_def)

section \<open>The mirror\<close>

text \<open>The published states of one group.\<close>

fun about :: "GroupKey \<Rightarrow> thermostatEvent list \<Rightarrow> LogicalThermostatState list" where
  "about g [] = []"
| "about g (PubLogicalThermostatState e # evs) = (if ls_group e = g then e # about g evs else about g evs)"
| "about g (ThCommand c # evs) = about g evs"

lemma about_append [simp]: "about g (xs @ ys) = about g xs @ about g ys"
  by (induction g xs rule: about.induct) auto

lemma about_fanOut [simp]: "about g (fanOut command cls nodes ms) = []"
  by (induction ms) auto

lemma groupState_group [simp]: "ls_group (groupState md g perNode) = g"
  by (simp add: groupState_def Let_def)

text \<open>What has been published determines the remembered signature, and never repeats itself.\<close>

definition followed :: "GroupKey \<Rightarrow> thermostatEvent list \<Rightarrow> Thermostats \<Rightarrow> bool" where
  "followed g out st \<longleftrightarrow>
     th_lastSignature st g = (if about g out = [] then [] else signature (last (about g out))) \<and>
     (\<forall>e \<in> set (about g out). ls_group e = g) \<and> distinct_adj (about g out)"

definition upToDate :: "NodeMetadata \<Rightarrow> GroupKey \<Rightarrow> thermostatEvent list \<Rightarrow> Thermostats \<Rightarrow> bool" where
  "upToDate md g out st \<longleftrightarrow> about g out \<noteq> [] \<and> last (about g out) = groupState md g (th_perNode st)"

lemma publishGroupState_keeps [simp]:
  "th_perNode (snd (publishGroupState md grp st)) = th_perNode st"
  "th_knownGroups (snd (publishGroupState md grp st)) = th_knownGroups st"
  by (simp_all add: publishGroupState_def Let_def)

lemma publishGroupState_followed:
  assumes "followed g out st"
  shows "followed g (out @ fst (publishGroupState md grp st)) (snd (publishGroupState md grp st))"
proof (cases "th_lastSignature st grp = signature (groupState md grp (th_perNode st))")
  case False
  have "last (about g out) \<noteq> groupState md g (th_perNode st)" if "grp = g" "about g out \<noteq> []"
    using that False assms by (auto simp: followed_def)
  then show ?thesis using False assms
    by (auto simp: followed_def publishGroupState_def Let_def distinct_adj_append_iff)
qed (use assms in \<open>simp add: publishGroupState_def Let_def\<close>)

lemma publishGroupState_upToDate:
  assumes "followed g out st"
  shows "upToDate md g (out @ fst (publishGroupState md g st)) (snd (publishGroupState md g st))"
proof (cases "th_lastSignature st g = signature (groupState md g (th_perNode st))")
  case True
  moreover have "ls_group (last (about g out)) = g" if "about g out \<noteq> []"
    using assms that by (simp add: followed_def)
  ultimately show ?thesis using assms signature_nonempty
    by (auto simp: followed_def upToDate_def publishGroupState_def Let_def signature_inject split: if_splits)
qed (simp add: upToDate_def publishGroupState_def Let_def)

lemma publishGroupState_stays_upToDate:
  "upToDate md g out st \<Longrightarrow> upToDate md g (out @ fst (publishGroupState md grp st)) (snd (publishGroupState md grp st))"
  by (auto simp: upToDate_def publishGroupState_def Let_def)

lemma refreshGroups_Cons:
  "refreshGroups md n (grp # gs) st =
     (if n \<in> set (nodesWith (fst grp) (snd grp) md)
      then (fst (publishGroupState md grp st) @ fst (refreshGroups md n gs (snd (publishGroupState md grp st))),
            snd (refreshGroups md n gs (snd (publishGroupState md grp st))))
      else refreshGroups md n gs st)"
  by (simp split: prod.split)

lemma refreshGroups_keeps [simp]:
  "th_perNode (snd (refreshGroups md n gs st)) = th_perNode st"
  "th_knownGroups (snd (refreshGroups md n gs st)) = th_knownGroups st"
  by (induction gs arbitrary: st) (simp_all add: refreshGroups_Cons del: refreshGroups.simps(2))

lemma refreshGroups_followed:
  "followed g out st \<Longrightarrow> followed g (out @ fst (refreshGroups md n gs st)) (snd (refreshGroups md n gs st))"
proof (induction gs arbitrary: st out)
  case (Cons grp gs)
  from Cons.IH [OF Cons.prems] Cons.IH [OF publishGroupState_followed [OF Cons.prems]]
  show ?case by (simp add: refreshGroups_Cons del: refreshGroups.simps(2))
qed simp

lemma refreshGroups_stays_upToDate:
  "upToDate md g out st \<Longrightarrow> upToDate md g (out @ fst (refreshGroups md n gs st)) (snd (refreshGroups md n gs st))"
proof (induction gs arbitrary: st out)
  case (Cons grp gs)
  from Cons.IH [OF Cons.prems] Cons.IH [OF publishGroupState_stays_upToDate [OF Cons.prems]]
  show ?case by (simp add: refreshGroups_Cons del: refreshGroups.simps(2))
qed simp

lemma refreshGroups_upToDate:
  assumes "followed g out st" and "g \<in> set gs" and "n \<in> set (nodesWith (fst g) (snd g) md)"
  shows "upToDate md g (out @ fst (refreshGroups md n gs st)) (snd (refreshGroups md n gs st))"
  using assms(1,2)
proof (induction gs arbitrary: st out)
  case (Cons grp gs)
  show ?case
  proof (cases "grp = g")
    case True
    from refreshGroups_stays_upToDate [OF publishGroupState_upToDate [OF Cons.prems(1)]] True assms(3)
    show ?thesis by (simp add: refreshGroups_Cons del: refreshGroups.simps(2))
  next
    case False
    with Cons.prems(2) have "g \<in> set gs" by simp
    from Cons.IH [OF Cons.prems(1) this] Cons.IH [OF publishGroupState_followed [OF Cons.prems(1)] this]
    show ?thesis by (simp add: refreshGroups_Cons del: refreshGroups.simps(2))
  qed
qed simp

fun reportedBy :: "thermostatInput \<Rightarrow> byte option" where
  "reportedBy (ModeReport n mode) = Some n"
| "reportedBy (OperatingStateReport n opState) = Some n"
| "reportedBy (FanModeReport n mode) = Some n"
| "reportedBy (SetpointReport n sp) = Some n"
| "reportedBy _ = None"

lemmas report_defs = onModeReport_def onOperatingStateReport_def onFanModeReport_def onSetpointReport_def
  refreshGroupsForNode_def

lemma onThermostatInput_report:
  assumes "reportedBy e = Some n"
  obtains st1 where "onThermostatInput (md, reg, e) st = refreshGroups md n (th_knownGroups st) st1"
    and "th_lastSignature st1 = th_lastSignature st"
  using assms by (cases e) (simp_all add: report_defs Let_def)

lemma onThermostatInput_followed:
  assumes "followed g out st"
  shows "followed g (out @ fst (onThermostatInput i st)) (snd (onThermostatInput i st))"
proof -
  obtain md reg e where i: "i = (md, reg, e)" by (cases i) auto
  show ?thesis
  proof (cases "reportedBy e")
    case None
    then show ?thesis using assms i
      by (cases e) (simp_all add: followed_def onModeCommand_def onSetpointCommand_def addressGroup_def)
  next
    case (Some n)
    from onThermostatInput_report [OF Some] obtain st1
      where "onThermostatInput (md, reg, e) st = refreshGroups md n (th_knownGroups st) st1"
        and "th_lastSignature st1 = th_lastSignature st" by blast
    moreover from this assms have "followed g out st1" by (simp add: followed_def)
    ultimately show ?thesis using refreshGroups_followed i by simp
  qed
qed

lemma runThermostats_followed:
  "followed g out st \<Longrightarrow>
   followed g (out @ fst (runSteps onThermostatInput es st)) (snd (runSteps onThermostatInput es st))"
proof (induction es arbitrary: out st)
  case (Cons e es)
  from Cons.IH [OF onThermostatInput_followed [OF Cons.prems]]
  show ?case by (simp add: runSteps_out runSteps_state del: runSteps.simps(2) onThermostatInput.simps)
qed simp


definition demoHall :: NodeMetadata where
  "demoHall = \<lparr>md_dbValid = True, md_home = Some ''E2A1B07C'',
     md_rows = [((''E2A1B07C'', 7, ''room''), ''hall''), ((''E2A1B07C'', 5, ''room''), ''hall'')]\<rparr>"

definition demoThermostatRun :: "(NodeMetadata \<times> NodeRegistry \<times> thermostatInput) list" where
  "demoThermostatRun = [(demoHall, emptyRegistry, LogicalModeCommand (''room'', ''hall'') 1),
     (demoHall, emptyRegistry, ModeReport 7 1)]"

lemma demoHall_nodes: "nodesWith ''room'' ''hall'' demoHall = [5, 7]"
  by (simp add: demoHall_def nodesWith_def md_boundHome_def)


section \<open>The aggregate\<close>

text \<open>The values of one reading that members have reported.\<close>

definition readings :: "(byte \<rightharpoonup> NodeClimate) \<Rightarrow> (NodeClimate \<Rightarrow> byte option) \<Rightarrow> byte list \<Rightarrow> byte set" where
  "readings perNode pick members = {v. \<exists>m \<in> set members. \<exists>c. perNode m = Some c \<and> pick c = Some v}"

lemma readings_simps [simp]:
  "readings perNode pick [] = {}"
  "readings perNode pick (m # ms) =
     (case perNode m of None \<Rightarrow> {} | Some c \<Rightarrow> set_option (pick c)) \<union> readings perNode pick ms"
  by (auto simp: readings_def split: option.splits)

lemma aggregateByteLoop_spec:
  "aggregateByteLoop perNode pick ms common mixed =
     (let vs = set_option common \<union> readings perNode pick ms in
      if mixed \<or> (\<exists>v \<in> vs. \<exists>w \<in> vs. v \<noteq> w) then MODE_MIXED else if vs = {} then 0 else THE v. v \<in> vs)"
proof (induction ms arbitrary: common mixed)
  case Nil
  then show ?case by (auto simp: Let_def split: option.split)
next
  case (Cons m ms)
  show ?case
  proof (cases "perNode m")
    case (Some c)
    show ?thesis
    proof (cases "pick c")
      case (Some v)
      with \<open>perNode m = Some c\<close> show ?thesis
      proof (cases common)
        case None
        with Some \<open>perNode m = Some c\<close> show ?thesis by (simp add: Cons.IH Let_def)
      next
        case (Some u)
        then show ?thesis using \<open>perNode m = Some c\<close> \<open>pick c = Some v\<close>
          by (cases "u = v") (auto simp: Cons.IH Let_def)
      qed
    qed (use Some in \<open>simp add: Cons.IH\<close>)
  qed (simp add: Cons.IH)
qed

lemma aggregateOperatingLoop_spec:
  "aggregateOperatingLoop perNode ms cooling =
     (if OP_STATE_HEATING \<in> readings perNode cl_operatingState ms then OP_STATE_HEATING
      else if cooling \<or> OP_STATE_COOLING \<in> readings perNode cl_operatingState ms then OP_STATE_COOLING
      else OP_STATE_IDLE)"
  by (induction ms arbitrary: cooling) (auto split: option.split)

lemma the_elem_singleton: "is_singleton A \<Longrightarrow> (THE v. v \<in> A) = the_elem A"
  by (auto simp: is_singleton_def)

lemma is_singleton_agree: "A \<noteq> {} \<Longrightarrow> is_singleton A \<longleftrightarrow> \<not> (\<exists>v \<in> A. \<exists>w \<in> A. v \<noteq> w)"
  by (auto simp: is_singleton_def)

text \<open>
  The loops over the members compute what the interface promises: the mode all reporting members
  agree on, 0 when none reported and the mixed mark when they disagree; heating when any member heats,
  otherwise cooling when any cools, otherwise idle.
\<close>

theorem climate_aggregate:
  "aggregateByte perNode members pick =
     (let vs = readings perNode pick members in
      if vs = {} then 0 else if is_singleton vs then the_elem vs else MODE_MIXED) \<and>
   aggregateOperatingState perNode members =
     (if OP_STATE_HEATING \<in> readings perNode cl_operatingState members then OP_STATE_HEATING
      else if OP_STATE_COOLING \<in> readings perNode cl_operatingState members then OP_STATE_COOLING
      else OP_STATE_IDLE)"
proof -
  have "aggregateByte perNode members pick =
     (let vs = readings perNode pick members in
      if vs = {} then 0 else if is_singleton vs then the_elem vs else MODE_MIXED)"
    unfolding aggregateByte_def aggregateByteLoop_spec Let_def
    using is_singleton_agree [of "readings perNode pick members"] the_elem_singleton [of "readings perNode pick members"]
    by auto
  then show ?thesis by (simp add: aggregateOperatingState_def aggregateOperatingLoop_spec)
qed

section \<open>The most recent setpoint\<close>

fun setpointReports :: "(NodeMetadata \<times> NodeRegistry \<times> thermostatInput) list \<Rightarrow> (byte \<times> Setpoint) list" where
  "setpointReports [] = []"
| "setpointReports ((md, reg, SetpointReport n sp) # es) = (n, sp) # setpointReports es"
| "setpointReports (e # es) = setpointReports es"

lemma setpointReports_append [simp]: "setpointReports (xs @ ys) = setpointReports xs @ setpointReports ys"
  by (induction xs rule: setpointReports.induct) auto

lemma setpointReports_le: "length (setpointReports es) \<le> length es"
  by (induction es rule: setpointReports.induct) auto

text \<open>Sequence numbers never run ahead of the counter.\<close>

definition sequenced :: "Thermostats \<Rightarrow> bool" where
  "sequenced st \<longleftrightarrow> (\<forall>m c. th_perNode st m = Some c \<longrightarrow> cl_setpointSeq c \<le> th_setpointCounter st)"

lemma setpointLoop_other:
  "n \<notin> set ms \<Longrightarrow> aggregateSetpointLoop (perNode(n \<mapsto> c)) ms best seq = aggregateSetpointLoop perNode ms best seq"
  by (induction ms arbitrary: best seq) (auto split: option.split)

lemma setpointLoop_best:
  assumes "\<forall>m c. perNode m = Some c \<longrightarrow> cl_setpointSeq c < seq"
  shows "aggregateSetpointLoop (perNode(n \<mapsto> new\<lparr>cl_setpoint := Some sp, cl_setpointSeq := seq\<rparr>)) ms sp seq = sp"
proof -
  have "\<not> seq \<le> cl_setpointSeq c" if "perNode m = Some c" for m c using assms that by (simp add: not_le)
  then show ?thesis by (induction ms) (auto split: option.split)
qed

lemma setpointLoop_new:
  assumes "\<forall>m c. perNode m = Some c \<longrightarrow> cl_setpointSeq c < seq" and "n \<in> set ms" and "bestSeq < seq"
  shows "aggregateSetpointLoop (perNode(n \<mapsto> new\<lparr>cl_setpoint := Some sp, cl_setpointSeq := seq\<rparr>)) ms best bestSeq = sp"
  using assms(2,3)
proof (induction ms arbitrary: best bestSeq)
  case (Cons m ms)
  show ?case
  proof (cases "m = n")
    case True
    then show ?thesis using Cons.prems setpointLoop_best [OF assms(1)] by (simp add: fun_upd_def)
  next
    case False
    then have "n \<in> set ms" using Cons.prems(1) by simp
    with Cons False assms(1) show ?thesis by (auto split: option.split)
  qed
qed simp

lemma refreshGroups_counter [simp]: "th_setpointCounter (snd (refreshGroups md n gs st)) = th_setpointCounter st"
  by (induction gs arbitrary: st)
    (simp_all add: refreshGroups_Cons publishGroupState_def Let_def del: refreshGroups.simps(2))

definition setpointView :: "NodeClimate option \<Rightarrow> (Setpoint \<times> 64 word) option" where
  "setpointView c = (case c of None \<Rightarrow> None | Some c \<Rightarrow> map_option (\<lambda>sp. (sp, cl_setpointSeq c)) (cl_setpoint c))"

lemma setpointLoop_cong:
  "(\<And>m. setpointView (p m) = setpointView (q m)) \<Longrightarrow>
   aggregateSetpointLoop p ms best seq = aggregateSetpointLoop q ms best seq"
proof (induction ms arbitrary: best seq)
  case (Cons m ms)
  from Cons.prems [of m] Cons.IH [OF Cons.prems] show ?case
    by (auto simp: setpointView_def split: option.splits)
qed simp

lemma onThermostatInput_other:
  assumes "\<And>n sp. e \<noteq> SetpointReport n sp"
  shows "setpointView (th_perNode (snd (onThermostatInput (md, reg, e) st)) m) = setpointView (th_perNode st m)"
    and "th_setpointCounter (snd (onThermostatInput (md, reg, e) st)) = th_setpointCounter st"
    and "sequenced st \<Longrightarrow> sequenced (snd (onThermostatInput (md, reg, e) st))"
  using assms
  by (cases e; auto simp: report_defs onModeCommand_def onSetpointCommand_def addressGroup_def climateOf_def
      noClimate_def setpointView_def sequenced_def split: option.splits)+

lemma onThermostatInput_setpoint:
  "th_perNode (snd (onThermostatInput (md, reg, SetpointReport n sp) st)) =
     (th_perNode st)(n \<mapsto> (climateOf n st)\<lparr>cl_setpoint := Some sp, cl_setpointSeq := th_setpointCounter st + 1\<rparr>)"
  "th_setpointCounter (snd (onThermostatInput (md, reg, SetpointReport n sp) st)) = th_setpointCounter st + 1"
  by (simp_all add: report_defs Let_def)

definition latestSetpoint :: "byte list \<Rightarrow> (byte \<times> Setpoint) list \<Rightarrow> Setpoint" where
  "latestSetpoint members reports =
     (let rs = filter (\<lambda>r. fst r \<in> set members) reports in if rs = [] then noSetpoint else snd (last rs))"

lemma latestSetpoint_snoc:
  "latestSetpoint members (reports @ [(n, sp)]) = (if n \<in> set members then sp else latestSetpoint members reports)"
  by (simp add: latestSetpoint_def)

lemma counter_next:
  fixes x :: "64 word"
  assumes "unat x + 1 < 2 ^ 64"
  shows "unat (x + 1) = unat x + 1" and "y \<le> x \<Longrightarrow> y < x + 1"
proof -
  show *: "unat (x + 1) = unat x + 1" using assms by (simp add: unat_word_ariths)
  show "y < x + 1" if "y \<le> x" using that unfolding word_less_nat_alt word_le_nat_alt * by simp
qed

lemma runThermostats_setpoints:
  assumes "length es < 2 ^ 64"
  defines "st \<equiv> snd (runSteps onThermostatInput es newThermostats)"
  shows "sequenced st \<and> unat (th_setpointCounter st) = length (setpointReports es) \<and>
     aggregateSetpoint (th_perNode st) members = latestSetpoint members (setpointReports es)"
  using assms(1) unfolding st_def
proof (induction es rule: rev_induct)
  case Nil
  have "aggregateSetpointLoop Map.empty members best seq = best" for best seq by (induction members) simp_all
  then show ?case
    by (simp add: newThermostats_def sequenced_def aggregateSetpoint_def latestSetpoint_def)
next
  case (snoc i es)
  let ?st = "snd (runSteps onThermostatInput es newThermostats)"
  obtain md reg e where i: "i = (md, reg, e)" by (cases i) auto
  have step: "snd (runSteps onThermostatInput (es @ [i]) newThermostats) = snd (onThermostatInput i ?st)"
    by (simp add: runSteps_append split: prod.split)
  from snoc have IH: "sequenced ?st" "unat (th_setpointCounter ?st) = length (setpointReports es)"
    "aggregateSetpoint (th_perNode ?st) members = latestSetpoint members (setpointReports es)" by auto
  show ?case
  proof (cases "\<exists>n sp. e = SetpointReport n sp")
    case False
    then have other: "\<And>n sp. e \<noteq> SetpointReport n sp" by blast
    have "setpointReports [i] = []" using other i by (cases e) auto
    moreover have "aggregateSetpoint (th_perNode (snd (onThermostatInput i ?st))) members =
        aggregateSetpoint (th_perNode ?st) members"
      unfolding aggregateSetpoint_def i by (rule setpointLoop_cong) (rule onThermostatInput_other(1) [OF other])
    ultimately show ?thesis unfolding step using IH onThermostatInput_other [OF other] i by simp
  next
    case True
    then obtain n sp where e: "e = SetpointReport n sp" by blast
    have small: "unat (th_setpointCounter ?st) + 1 < 2 ^ 64"
      using IH(2) setpointReports_le [of es] snoc.prems by simp
    have older: "\<forall>m c. th_perNode ?st m = Some c \<longrightarrow> cl_setpointSeq c < th_setpointCounter ?st + 1"
      using IH(1) counter_next(2) [OF small] by (auto simp: sequenced_def)
    have "0 < th_setpointCounter ?st + 1" using counter_next(2) [OF small, of 0] by simp
    from setpointLoop_new [OF older _ this] setpointLoop_other IH(3)
    have "aggregateSetpoint (th_perNode (snd (onThermostatInput i ?st))) members =
        latestSetpoint members (setpointReports (es @ [i]))"
      unfolding i e onThermostatInput_setpoint by (simp add: aggregateSetpoint_def latestSetpoint_snoc)
    moreover have "sequenced (snd (onThermostatInput i ?st))"
      using older unfolding i e by (auto simp: sequenced_def onThermostatInput_setpoint less_imp_le simp del: onThermostatInput.simps)
    ultimately show ?thesis
      unfolding step using IH(2) counter_next(1) [OF small] by (simp add: i e onThermostatInput_setpoint fun_upd_def del: onThermostatInput.simps)
  qed
qed

text \<open>
  The setpoint of a group is the most recently reported one: over any history of fewer than \<open>2^64\<close>
  events it is the setpoint of the last report that came from any of the members, and all zero when none
  of them reported.
\<close>

theorem latest_setpoint:
  assumes "length es < 2 ^ 64"
  shows "aggregateSetpoint (th_perNode (snd (runSteps onThermostatInput es newThermostats))) members =
     latestSetpoint members (setpointReports es)"
  using runThermostats_setpoints [OF assms] by blast

theorem latest_setpoint_witness:
  "aggregateSetpoint (th_perNode (snd (runSteps onThermostatInput
     [(demoHall, emptyRegistry, SetpointReport 5 \<lparr>sp_type = 1, sp_scale = 0, sp_precision = 1, sp_value = 215\<rparr>),
      (demoHall, emptyRegistry, SetpointReport 7 \<lparr>sp_type = 1, sp_scale = 0, sp_precision = 1, sp_value = 190\<rparr>)]
     newThermostats))) [5, 7] = \<lparr>sp_type = 1, sp_scale = 0, sp_precision = 1, sp_value = 190\<rparr>"
  using latest_setpoint [of
     "[(demoHall, emptyRegistry, SetpointReport 5 \<lparr>sp_type = 1, sp_scale = 0, sp_precision = 1, sp_value = 215\<rparr>),
      (demoHall, emptyRegistry, SetpointReport 7 \<lparr>sp_type = 1, sp_scale = 0, sp_precision = 1, sp_value = 190\<rparr>)]" "[5, 7]"]
  by (simp add: latestSetpoint_def del: runSteps.simps onThermostatInput.simps)

section \<open>Fan-out\<close>

lemma fanOut_filter: "fanOut command cls nodes ms = map (ThCommand \<circ> command) (filter (\<lambda>m. supportsCc nodes m cls) ms)"
  by (induction ms) auto

lemma supportsCc_map:
  "\<forall>i \<in> set ids. ni_nodeId (f i) = i \<Longrightarrow>
   supportsCc (map f ids) n cls \<longleftrightarrow> n \<in> set ids \<and> cls \<in> set (ni_commandClasses (f n))"
  by (induction ids) auto

lemma supportsCc_snapshot:
  assumes "filed (nr_nodes reg)"
  shows "supportsCc (snapshot reg) n cls \<longleftrightarrow> (\<exists>i. nr_nodes reg n = Some i \<and> cls \<in> set (ni_commandClasses i))"
proof -
  have "n \<in> set (nodeIds (nr_nodes reg)) \<longleftrightarrow> nr_nodes reg n \<noteq> None"
  proof -
    have "n = of_nat (unat n)" "unat n < 256" using unsigned_less [of n] by simp_all
    then have "n \<in> of_nat ` {0 ..< 256}" by (metis atLeastLessThan_iff image_eqI zero_le)
    then show ?thesis by (simp add: nodeIds_def)
  qed
  moreover have "ni_nodeId (the (nr_nodes reg i)) = i" if "i \<in> set (nodeIds (nr_nodes reg))" for i
    using that assms by (auto simp: nodeIds_def filed_def)
  ultimately show ?thesis by (auto simp: snapshot_def supportsCc_map)
qed

text \<open>
  A command to a logical thermostat reaches exactly its members: one command, in ascending order of
  the node ids, for each node that carries the tag and lists the class in the registry, and none else.
\<close>

theorem thermostat_fanout:
  assumes "filed (nr_nodes reg)" and "md_keys md"
  shows "\<exists>ns. fst (onModeCommand md reg (key, val) mode st) =
       map (\<lambda>n. ThCommand (SetThermostatModeCommand n ORCHESTRATOR_NO_CALLBACK mode)) ns \<and>
     sorted ns \<and> distinct ns \<and>
     set ns = {n. md_get n key md = Some val \<and>
       (\<exists>i. nr_nodes reg n = Some i \<and> TAGGED_CC_THERMOSTAT_MODE \<in> set (ni_commandClasses i))}"
proof (intro exI conjI)
  let ?ns = "filter (\<lambda>m. supportsCc (snapshot reg) m TAGGED_CC_THERMOSTAT_MODE) (nodesWith key val md)"
  show "fst (onModeCommand md reg (key, val) mode st) =
       map (\<lambda>n. ThCommand (SetThermostatModeCommand n ORCHESTRATOR_NO_CALLBACK mode)) ?ns"
    by (simp add: onModeCommand_def fanOut_filter o_def)
  have "sorted (nodesWith key val md)" by (simp add: nodesWith_def split: option.split)
  then show "sorted ?ns" using sorted_filter [of "\<lambda>x. x" "nodesWith key val md"] by simp
  show "distinct ?ns" using nodesWith_distinct [OF assms(2)] by simp
  show "set ?ns = {n. md_get n key md = Some val \<and>
       (\<exists>i. nr_nodes reg n = Some i \<and> TAGGED_CC_THERMOSTAT_MODE \<in> set (ni_commandClasses i))}"
    using nodesWith_iff [OF assms(2)] supportsCc_snapshot [OF assms(1)] by auto
qed

theorem thermostat_fanout_witness:
  "\<exists>ns. fst (onModeCommand demoHall (emptyRegistry\<lparr>nr_nodes := [5 \<mapsto> (newNodeInfo 5)\<lparr>ni_commandClasses := [0x40]\<rparr>]\<rparr>)
        (''room'', ''hall'') 1 newThermostats) =
      map (\<lambda>n. ThCommand (SetThermostatModeCommand n ORCHESTRATOR_NO_CALLBACK 1)) ns \<and> 5 \<in> set ns \<and> 7 \<notin> set ns"
proof -
  have "filed (nr_nodes (emptyRegistry\<lparr>nr_nodes := [5 \<mapsto> (newNodeInfo 5)\<lparr>ni_commandClasses := [0x40]\<rparr>]\<rparr>))"
    by (simp add: filed_def newNodeInfo_def)
  moreover have "md_keys demoHall" by (simp add: md_keys_def demoHall_def)
  ultimately show ?thesis
    using thermostat_fanout [of "emptyRegistry\<lparr>nr_nodes := [5 \<mapsto> (newNodeInfo 5)\<lparr>ni_commandClasses := [0x40]\<rparr>]\<rparr>"
        demoHall "''room''" "''hall''" 1 newThermostats]
    by (auto simp: TAGGED_CC_THERMOSTAT_MODE_def md_get_def md_boundHome_def demoHall_def)
qed

end
