(* ===== verification/Config_File.thy ===== *)
theory Config_File
  imports Zw_Prelude
begin

text \<open>
  The configuration file, \<open>src/src/config/Config.cpp\<close>: the line format, the lookup of values, and
  the five retained settings that \<open>Config::load\<close> publishes. The environment variable, whether the
  file exists and what it holds are arguments.
\<close>

section \<open>Text\<close>

definition DEFAULT_PATH :: string where "DEFAULT_PATH = ''/etc/zwaved/zwaved.conf''"
definition LEVEL_DEBUG :: byte where "LEVEL_DEBUG = 0"
definition LEVEL_INFO :: byte where "LEVEL_INFO = 1"
definition LEVEL_WARN :: byte where "LEVEL_WARN = 2"
definition LEVEL_ERROR :: byte where "LEVEL_ERROR = 3"

abbreviation TAB :: char where "TAB \<equiv> CHR 0x09"
abbreviation NEWLINE :: char where "NEWLINE \<equiv> CHR 0x0A"
abbreviation CARRIAGE_RETURN :: char where "CARRIAGE_RETURN \<equiv> CHR 0x0D"
abbreviation QUOTE :: char where "QUOTE \<equiv> CHR 0x22"

definition frontBlank :: "char \<Rightarrow> bool" where "frontBlank c \<longleftrightarrow> c = CHR '' '' \<or> c = TAB"
definition backBlank :: "char \<Rightarrow> bool" where "backBlank c \<longleftrightarrow> c = CHR '' '' \<or> c = TAB \<or> c = CARRIAGE_RETURN"

definition trim :: "string \<Rightarrow> string" where
  "trim text = rev (dropWhile backBlank (rev (dropWhile frontBlank text)))"

text \<open>The lines \<open>std::getline\<close> delivers: a final line without a newline counts, an empty one does not.\<close>

fun getlines :: "string \<Rightarrow> string \<Rightarrow> string list" where
  "getlines line [] = (if line = [] then [] else [line])"
| "getlines line (c # cs) = (if c = NEWLINE then line # getlines [] cs else getlines (line @ [c]) cs)"

text \<open>\<open>find\<close> and \<open>substr\<close> around the first occurrence of a character.\<close>

definition splitFirst :: "char \<Rightarrow> string \<Rightarrow> (string \<times> string) option" where
  "splitFirst c s =
     (if c \<in> set s then Some (takeWhile (\<lambda>x. x \<noteq> c) s, tl (dropWhile (\<lambda>x. x \<noteq> c) s)) else None)"

section \<open>The file\<close>

type_synonym Section = "(string \<times> string) list"
type_synonym ParsedFile = "string \<rightharpoonup> Section"

definition unquote :: "string \<Rightarrow> string" where
  "unquote v = (if length v \<ge> 2 \<and> hd v = QUOTE \<and> last v = QUOTE then take (length v - 2) (drop 1 v) else v)"

definition addEntry :: "string \<Rightarrow> string \<times> string \<Rightarrow> ParsedFile \<Rightarrow> ParsedFile" where
  "addEntry sec kv file = file(sec \<mapsto> (case file sec of None \<Rightarrow> [] | Some es \<Rightarrow> es) @ [kv])"

definition parseLine :: "string \<Rightarrow> string \<times> ParsedFile \<Rightarrow> string \<times> ParsedFile" where
  "parseLine line st =
     (case st of (sec, file) \<Rightarrow>
        let trimmed = trim line in
        if trimmed = [] \<or> hd trimmed = CHR ''#'' then (sec, file)
        else if length trimmed \<ge> 2 \<and> hd trimmed = CHR ''['' \<and> last trimmed = CHR '']''
        then (take (length trimmed - 2) (drop 1 trimmed), file)
        else case splitFirst (CHR ''='') trimmed of
            None \<Rightarrow> (sec, file)
          | Some (k, v) \<Rightarrow> (sec, addEntry sec (trim k, unquote (trim v)) file))"

definition parseLines :: "string list \<Rightarrow> ParsedFile" where
  "parseLines ls = snd (fold parseLine ls ([], Map.empty))"

text \<open>\<open>None\<close> is a file that cannot be opened.\<close>

definition parseFile :: "string option \<Rightarrow> ParsedFile option" where
  "parseFile contents = map_option (\<lambda>text. parseLines (getlines [] text)) contents"

definition firstValue :: "ParsedFile \<Rightarrow> string \<Rightarrow> string \<Rightarrow> string option" where
  "firstValue file sec key = (case file sec of None \<Rightarrow> None | Some es \<Rightarrow> map_of es key)"

definition allValues :: "ParsedFile \<Rightarrow> string \<Rightarrow> string \<Rightarrow> string list" where
  "allValues file sec key =
     (case file sec of None \<Rightarrow> [] | Some es \<Rightarrow> map snd (filter (\<lambda>e. fst e = key) es))"

section \<open>Values\<close>

definition parseLevel :: "string \<Rightarrow> byte option" where
  "parseLevel text =
     (if text = ''debug'' then Some LEVEL_DEBUG
      else if text = ''info'' then Some LEVEL_INFO
      else if text = ''warn'' then Some LEVEL_WARN
      else if text = ''error'' then Some LEVEL_ERROR
      else None)"

definition parseBool :: "string \<Rightarrow> bool option" where
  "parseBool text =
     (if text = ''true'' \<or> text = ''yes'' \<or> text = ''1'' then Some True
      else if text = ''false'' \<or> text = ''no'' \<or> text = ''0'' then Some False
      else None)"

record AcceptedDongleConfig =
  ad_vid :: string
  ad_pid :: string
  ad_name :: string

definition parseAccept :: "string \<Rightarrow> AcceptedDongleConfig option" where
  "parseAccept text =
     (case splitFirst (CHR '':'') text of
        None \<Rightarrow> None
      | Some (vid, rest) \<Rightarrow>
          (case splitFirst (CHR '':'') rest of
             None \<Rightarrow> None
           | Some (pid, name) \<Rightarrow>
               let accepted = \<lparr>ad_vid = trim vid, ad_pid = trim pid, ad_name = trim name\<rparr> in
               if ad_vid accepted = [] \<or> ad_pid accepted = [] then None else Some accepted))"

definition resolvePath :: "string option \<Rightarrow> string" where
  "resolvePath env = (case env of None \<Rightarrow> DEFAULT_PATH | Some p \<Rightarrow> if p = [] then DEFAULT_PATH else p)"

section \<open>Settings\<close>

text \<open>The five configuration events, as one record.\<close>

record Settings =
  cf_minLevel :: byte
  cf_stateDir :: string
  cf_s0KeyFile :: string
  cf_s2KeyDir :: string
  cf_accept :: "AcceptedDongleConfig list"
  cf_autoLifeline :: bool

definition defaultSettings :: Settings where
  "defaultSettings = \<lparr>cf_minLevel = LEVEL_INFO, cf_stateDir = [], cf_s0KeyFile = [], cf_s2KeyDir = [],
     cf_accept = [\<lparr>ad_vid = ''0658'', ad_pid = ''0200'', ad_name = ''Aeotec Z-Stick Gen5''\<rparr>],
     cf_autoLifeline = True\<rparr>"

definition loadLoggerSection :: "ParsedFile \<Rightarrow> Settings \<Rightarrow> Settings" where
  "loadLoggerSection file s =
     (case firstValue file ''logger'' ''min_level'' of
        None \<Rightarrow> s
      | Some v \<Rightarrow> (case parseLevel v of Some level \<Rightarrow> s\<lparr>cf_minLevel := level\<rparr> | None \<Rightarrow> s))"

definition loadStorageSection :: "ParsedFile \<Rightarrow> Settings \<Rightarrow> Settings" where
  "loadStorageSection file s =
     (case firstValue file ''storage'' ''state_dir'' of None \<Rightarrow> s | Some v \<Rightarrow> s\<lparr>cf_stateDir := v\<rparr>)"

definition loadSecuritySection :: "ParsedFile \<Rightarrow> Settings \<Rightarrow> Settings" where
  "loadSecuritySection file s =
     (let s1 = (case firstValue file ''security'' ''s0_key_file'' of None \<Rightarrow> s | Some v \<Rightarrow> s\<lparr>cf_s0KeyFile := v\<rparr>) in
      case firstValue file ''security'' ''s2_key_dir'' of None \<Rightarrow> s1 | Some v \<Rightarrow> s1\<lparr>cf_s2KeyDir := v\<rparr>)"

definition loadDonglesSection :: "ParsedFile \<Rightarrow> Settings \<Rightarrow> Settings" where
  "loadDonglesSection file s =
     (let parsedList = List.map_filter parseAccept (allValues file ''dongles'' ''accept'') in
      if parsedList = [] then s else s\<lparr>cf_accept := parsedList\<rparr>)"

definition loadBehaviorSection :: "ParsedFile \<Rightarrow> Settings \<Rightarrow> Settings" where
  "loadBehaviorSection file s =
     (case firstValue file ''behavior'' ''auto_lifeline'' of
        None \<Rightarrow> s
      | Some v \<Rightarrow> (case parseBool v of Some flag \<Rightarrow> s\<lparr>cf_autoLifeline := flag\<rparr> | None \<Rightarrow> s))"

definition applyFile :: "ParsedFile \<Rightarrow> Settings" where
  "applyFile file =
     loadBehaviorSection file (loadDonglesSection file (loadSecuritySection file
       (loadStorageSection file (loadLoggerSection file defaultSettings))))"

definition CODE_CONFIG_LOAD_FAILED :: byte where "CODE_CONFIG_LOAD_FAILED = 0x40"
definition CONFIG_SEVERITY_WARN :: byte where "CONFIG_SEVERITY_WARN = 2"

datatype configEvent =
    PubConfigError byte string byte string
  | PubLoggerConfig byte
  | PubStorageConfig string
  | PubSecurityConfig string string
  | PubDonglesConfig "AcceptedDongleConfig list"
  | PubBehaviorConfig bool

definition publishSettings :: "Settings \<Rightarrow> configEvent list" where
  "publishSettings s =
     [PubLoggerConfig (cf_minLevel s), PubStorageConfig (cf_stateDir s),
      PubSecurityConfig (cf_s0KeyFile s) (cf_s2KeyDir s), PubDonglesConfig (cf_accept s),
      PubBehaviorConfig (cf_autoLifeline s)]"

definition Config_load :: "string option \<Rightarrow> (string \<Rightarrow> bool) \<Rightarrow> (string \<Rightarrow> string option) \<Rightarrow> configEvent list" where
  "Config_load env fileExists readFile =
     (let path = resolvePath env in
      if \<not> fileExists path then publishSettings defaultSettings
      else case parseFile (readFile path) of
          None \<Rightarrow> PubConfigError CONFIG_SEVERITY_WARN ''config'' CODE_CONFIG_LOAD_FAILED
                    (''failed to open config file '' @ path @ ''; using defaults'')
                  # publishSettings defaultSettings
        | Some file \<Rightarrow> publishSettings (applyFile file))"

section \<open>Lines\<close>

lemma trim_id: "s = [] \<or> \<not> frontBlank (hd s) \<and> \<not> backBlank (last s) \<Longrightarrow> trim s = s"
  by (auto simp: trim_def dropWhile_eq_self_iff [THEN iffD2] hd_rev)

lemma trim_cons_blank: "frontBlank c \<Longrightarrow> trim (c # s) = trim s"
  by (simp add: trim_def)

lemma frontBlank_backBlank: "frontBlank c \<Longrightarrow> backBlank c"
  by (auto simp: frontBlank_def backBlank_def)

lemma trim_append_blank: "backBlank c \<Longrightarrow> trim (s @ [c]) = trim s"
proof (cases "\<forall>x \<in> set s. frontBlank x")
  case True
  moreover assume "backBlank c"
  moreover from True have "dropWhile frontBlank s = []" by simp
  ultimately show ?thesis by (simp add: trim_def dropWhile_append del: dropWhile_eq_Nil_conv)
next
  case False
  moreover assume "backBlank c"
  ultimately show ?thesis by (auto simp: trim_def dropWhile_append)
qed

lemma splitFirst_append: "c \<notin> set xs \<Longrightarrow> splitFirst c (xs @ c # ys) = Some (xs, ys)"
  by (simp add: splitFirst_def takeWhile_append dropWhile_append)

lemma unquote_quoted: "unquote (QUOTE # v @ [QUOTE]) = v"
  by (simp add: unquote_def)

lemma getlines_line: "NEWLINE \<notin> set l \<Longrightarrow> getlines acc (l @ NEWLINE # rest) = (acc @ l) # getlines [] rest"
  by (induction l arbitrary: acc) auto

lemma getlines_lines:
  "\<forall>l \<in> set ls. NEWLINE \<notin> set l \<Longrightarrow> getlines [] (concat (map (\<lambda>l. l @ [NEWLINE]) ls)) = ls"
  by (induction ls) (simp_all add: getlines_line)

text \<open>A file with line ends of another system is read the same; a line that is no entry is skipped.\<close>

lemma crlf_insensitive: "parseLines (map (\<lambda>l. l @ [CARRIAGE_RETURN]) ls) = parseLines ls"
proof -
  have "parseLine (l @ [CARRIAGE_RETURN]) = parseLine l" for l
    by (simp add: fun_eq_iff parseLine_def trim_append_blank backBlank_def)
  then have "parseLine \<circ> (\<lambda>l. l @ [CARRIAGE_RETURN]) = parseLine" by (simp add: fun_eq_iff)
  then show ?thesis by (simp add: parseLines_def fold_map)
qed

lemma malformed_line_skipped:
  assumes "CHR ''='' \<notin> set (trim bad)" and "hd (trim bad) \<noteq> CHR ''[''"
  shows "parseLines (xs @ bad # ys) = parseLines (xs @ ys)"
proof -
  have "parseLine bad st = st" for st using assms by (simp add: parseLine_def splitFirst_def Let_def split: prod.split)
  then show ?thesis by (simp add: parseLines_def)
qed

section \<open>Writing and reading a file\<close>

definition renderEntry :: "string \<times> string \<Rightarrow> string" where
  "renderEntry e = fst e @ '' = '' @ QUOTE # snd e @ [QUOTE]"

definition renderSection :: "string \<times> Section \<Rightarrow> string list" where
  "renderSection s = (CHR ''['' # fst s @ '']'') # map renderEntry (snd s)"

definition renderFile :: "(string \<times> Section) list \<Rightarrow> string" where
  "renderFile secs = concat (map (\<lambda>l. l @ [NEWLINE]) (concat (map renderSection secs)))"

definition keyOk :: "string \<Rightarrow> bool" where
  "keyOk k \<longleftrightarrow> k \<noteq> [] \<and> \<not> frontBlank (hd k) \<and> \<not> backBlank (last k) \<and> hd k \<noteq> CHR ''#'' \<and> hd k \<noteq> CHR ''['' \<and>
     CHR ''='' \<notin> set k \<and> NEWLINE \<notin> set k"

definition entryOk :: "string \<times> string \<Rightarrow> bool" where
  "entryOk e \<longleftrightarrow> keyOk (fst e) \<and> NEWLINE \<notin> set (snd e)"

definition sectionOk :: "string \<times> Section \<Rightarrow> bool" where
  "sectionOk s \<longleftrightarrow> NEWLINE \<notin> set (fst s) \<and> snd s \<noteq> [] \<and> list_all entryOk (snd s)"

lemma parseLine_entry: "keyOk k \<Longrightarrow> parseLine (renderEntry (k, v)) (sec, pf) = (sec, addEntry sec (k, v) pf)"
proof -
  assume k: "keyOk k"
  have q: "\<not> frontBlank QUOTE" "\<not> backBlank QUOTE" by (simp_all add: frontBlank_def backBlank_def)
  have t: "trim (renderEntry (k, v)) = renderEntry (k, v)"
    by (rule trim_id) (use k q in \<open>auto simp: keyOk_def renderEntry_def\<close>)
  have "splitFirst (CHR ''='') (renderEntry (k, v)) = Some (k @ '' '', CHR '' '' # QUOTE # v @ [QUOTE])"
    using splitFirst_append [of "CHR ''=''" "k @ '' ''" "CHR '' '' # QUOTE # v @ [QUOTE]"] k
    by (simp add: renderEntry_def keyOk_def)
  moreover have "trim (k @ '' '') = k"
    using k by (simp add: trim_append_blank backBlank_def) (simp add: trim_id keyOk_def)
  moreover have "trim (CHR '' '' # QUOTE # v @ [QUOTE]) = QUOTE # v @ [QUOTE]"
    using q trim_id [of "QUOTE # v @ [QUOTE]"] by (simp add: trim_cons_blank frontBlank_def)
  ultimately show ?thesis using k t
    by (simp add: parseLine_def) (simp add: renderEntry_def keyOk_def unquote_quoted)
qed

lemma parseLine_header: "parseLine (CHR ''['' # name @ '']'') (sec, pf) = (name, pf)"
proof -
  have "trim (CHR ''['' # name @ '']'') = CHR ''['' # name @ '']''"
    by (rule trim_id) (simp add: frontBlank_def backBlank_def)
  then show ?thesis by (simp add: parseLine_def)
qed

lemma parse_entries:
  "list_all entryOk es \<Longrightarrow> fold parseLine (map renderEntry es) (sec, pf) = (sec, fold (addEntry sec) es pf)"
  by (induction es arbitrary: pf) (auto simp: entryOk_def parseLine_entry)

lemma addEntries:
  "es \<noteq> [] \<Longrightarrow> fold (addEntry sec) es pf = pf(sec \<mapsto> (case pf sec of None \<Rightarrow> [] | Some ds \<Rightarrow> ds) @ es)"
proof (induction es arbitrary: pf)
  case (Cons e es)
  show ?case
  proof (cases "es = []")
    case False
    from Cons.IH [OF False] show ?thesis by (auto simp: addEntry_def fun_eq_iff)
  qed (simp add: addEntry_def)
qed simp

lemma parse_sections:
  "list_all sectionOk secs \<Longrightarrow> distinct (map fst secs) \<Longrightarrow> (\<forall>s \<in> fst ` set secs. pf s = None) \<Longrightarrow>
   snd (fold parseLine (concat (map renderSection secs)) (sec, pf)) = pf ++ map_of (rev secs)"
proof (induction secs arbitrary: sec pf)
  case (Cons s secs)
  obtain name es where s: "s = (name, es)" by (cases s)
  have es: "es \<noteq> []" "list_all entryOk es" using Cons.prems(1) s by (simp_all add: sectionOk_def)
  have "fold parseLine (renderSection s) (sec, pf) = (name, pf(name \<mapsto> es))"
    using Cons.prems(3) s es by (simp add: renderSection_def parseLine_header parse_entries addEntries)
  moreover have "snd (fold parseLine (concat (map renderSection secs)) (name, pf(name \<mapsto> es))) =
      (pf(name \<mapsto> es)) ++ map_of (rev secs)"
    using Cons.prems s by (intro Cons.IH) auto
  ultimately show ?case using s by (simp add: map_add_assoc [symmetric])
qed simp

lemma renderEntry_newline: "entryOk e \<Longrightarrow> NEWLINE \<notin> set (renderEntry e)"
  by (auto simp: entryOk_def keyOk_def renderEntry_def)

lemma renderSection_newline: "sectionOk s \<Longrightarrow> \<forall>l \<in> set (renderSection s). NEWLINE \<notin> set l"
  using renderEntry_newline by (fastforce simp: sectionOk_def renderSection_def list_all_iff)

lemma parseFile_renderFile:
  assumes "list_all sectionOk secs" and "distinct (map fst secs)"
  shows "parseFile (Some (renderFile secs)) = Some (map_of secs)"
proof -
  have "\<forall>l \<in> set (concat (map renderSection secs)). NEWLINE \<notin> set l"
    using assms(1) renderSection_newline by (auto simp: list_all_iff)
  then have "getlines [] (renderFile secs) = concat (map renderSection secs)"
    unfolding renderFile_def by (rule getlines_lines)
  moreover have "map_of (rev secs) = map_of secs"
    using assms(2) by (subst map_of_inject_set) (simp_all flip: rev_map)
  ultimately show ?thesis
    using parse_sections [OF assms, of Map.empty "[]"] by (simp add: parseFile_def parseLines_def)
qed

section \<open>Settings and their file\<close>

definition levelName :: "byte \<Rightarrow> string" where
  "levelName l = (if l = LEVEL_DEBUG then ''debug'' else if l = LEVEL_INFO then ''info''
     else if l = LEVEL_WARN then ''warn'' else ''error'')"

definition renderAccept :: "AcceptedDongleConfig \<Rightarrow> string" where
  "renderAccept a = ad_vid a @ '':'' @ ad_pid a @ '':'' @ ad_name a"

definition settingSections :: "Settings \<Rightarrow> (string \<times> Section) list" where
  "settingSections s =
     [(''logger'', [(''min_level'', levelName (cf_minLevel s))]),
      (''storage'', [(''state_dir'', cf_stateDir s)]),
      (''security'', [(''s0_key_file'', cf_s0KeyFile s), (''s2_key_dir'', cf_s2KeyDir s)]),
      (''dongles'', map (\<lambda>a. (''accept'', renderAccept a)) (cf_accept s)),
      (''behavior'', [(''auto_lifeline'', if cf_autoLifeline s then ''true'' else ''false'')])]"

definition plainText :: "string \<Rightarrow> bool" where
  "plainText s \<longleftrightarrow> NEWLINE \<notin> set s"

definition trimmedText :: "string \<Rightarrow> bool" where
  "trimmedText s \<longleftrightarrow> NEWLINE \<notin> set s \<and> trim s = s"

definition dongleOk :: "AcceptedDongleConfig \<Rightarrow> bool" where
  "dongleOk a \<longleftrightarrow> trimmedText (ad_vid a) \<and> trimmedText (ad_pid a) \<and> trimmedText (ad_name a) \<and>
     ad_vid a \<noteq> [] \<and> ad_pid a \<noteq> [] \<and> CHR '':'' \<notin> set (ad_vid a) \<and> CHR '':'' \<notin> set (ad_pid a)"

definition settingsOk :: "Settings \<Rightarrow> bool" where
  "settingsOk s \<longleftrightarrow> cf_minLevel s \<le> LEVEL_ERROR \<and> plainText (cf_stateDir s) \<and> plainText (cf_s0KeyFile s) \<and>
     plainText (cf_s2KeyDir s) \<and> cf_accept s \<noteq> [] \<and> list_all dongleOk (cf_accept s)"

lemma parseAccept_renderAccept: "dongleOk a \<Longrightarrow> parseAccept (renderAccept a) = Some a"
  using splitFirst_append [of "CHR '':''" "ad_vid a" "ad_pid a @ '':'' @ ad_name a"]
    splitFirst_append [of "CHR '':''" "ad_pid a" "ad_name a"]
  by (simp add: parseAccept_def renderAccept_def dongleOk_def trimmedText_def)

lemma parseAccept_all: "list_all dongleOk as \<Longrightarrow> List.map_filter parseAccept (map renderAccept as) = as"
  by (induction as) (simp_all add: List.map_filter_simps parseAccept_renderAccept)

lemma parseLevel_levelName: "l \<le> LEVEL_ERROR \<Longrightarrow> parseLevel (levelName l) = Some l"
proof -
  assume "l \<le> LEVEL_ERROR"
  then have "unat l \<le> 3" by (simp add: LEVEL_ERROR_def word_le_nat_alt)
  then consider "unat l = 0" | "unat l = 1" | "unat l = 2" | "unat l = 3" by linarith
  then have "l = LEVEL_DEBUG \<or> l = LEVEL_INFO \<or> l = LEVEL_WARN \<or> l = LEVEL_ERROR"
    by cases (simp_all add: LEVEL_DEBUG_def LEVEL_INFO_def LEVEL_WARN_def LEVEL_ERROR_def word_unat_eq_iff)
  then show ?thesis
    by (auto simp: parseLevel_def levelName_def LEVEL_DEBUG_def LEVEL_INFO_def LEVEL_WARN_def LEVEL_ERROR_def)
qed

lemma settingSections_ok:
  assumes "settingsOk s"
  shows "list_all sectionOk (settingSections s)" and "distinct (map fst (settingSections s))"
proof -
  have "NEWLINE \<notin> set (levelName l)" for l by (simp add: levelName_def)
  moreover have "NEWLINE \<notin> set (renderAccept a)" if "dongleOk a" for a
    using that by (simp add: dongleOk_def trimmedText_def renderAccept_def)
  ultimately show "list_all sectionOk (settingSections s)"
    using assms by (simp add: settingSections_def sectionOk_def entryOk_def keyOk_def settingsOk_def plainText_def
        frontBlank_def backBlank_def list_all_iff)
qed (simp add: settingSections_def)

lemma applyFile_settings:
  assumes "settingsOk s"
  shows "applyFile (map_of (settingSections s)) = s"
proof -
  have "loadDonglesSection (map_of (settingSections s)) t = t\<lparr>cf_accept := cf_accept s\<rparr>" for t
    using assms parseAccept_all [of "cf_accept s"]
    by (simp add: loadDonglesSection_def allValues_def settingSections_def settingsOk_def o_def)
  moreover have "loadLoggerSection (map_of (settingSections s)) t = t\<lparr>cf_minLevel := cf_minLevel s\<rparr>" for t
    using assms parseLevel_levelName
    by (simp add: loadLoggerSection_def firstValue_def settingSections_def settingsOk_def)
  moreover have "loadStorageSection (map_of (settingSections s)) t = t\<lparr>cf_stateDir := cf_stateDir s\<rparr>"
    "loadSecuritySection (map_of (settingSections s)) t = t\<lparr>cf_s0KeyFile := cf_s0KeyFile s, cf_s2KeyDir := cf_s2KeyDir s\<rparr>"
    "loadBehaviorSection (map_of (settingSections s)) t = t\<lparr>cf_autoLifeline := cf_autoLifeline s\<rparr>" for t
    by (simp_all add: loadStorageSection_def loadSecuritySection_def loadBehaviorSection_def firstValue_def
        settingSections_def parseBool_def)
  ultimately show ?thesis by (simp add: applyFile_def)
qed


definition demoSettings :: Settings where
  "demoSettings = defaultSettings\<lparr>cf_minLevel := 3, cf_stateDir := ''/var/lib/z = w'',
     cf_accept := [\<lparr>ad_vid = ''0658'', ad_pid = ''0200'', ad_name = ''Stick: old''\<rparr>], cf_autoLifeline := False\<rparr>"


text \<open>
  C28: whatever the environment and the file are, at most one error is published, followed by the five
  settings, and these are usable: the log level is one of the four, at least one dongle is accepted, and
  every accepted dongle has a vendor and a product.
\<close>

theorem settings_usable:
  "\<exists>errs s. Config_load env fileExists readFile = errs @ publishSettings s \<and> length errs \<le> 1 \<and>
     cf_minLevel s \<le> LEVEL_ERROR \<and> cf_accept s \<noteq> [] \<and> list_all (\<lambda>a. ad_vid a \<noteq> [] \<and> ad_pid a \<noteq> []) (cf_accept s)"
proof -
  let ?ok = "\<lambda>s. cf_minLevel s \<le> LEVEL_ERROR \<and> cf_accept s \<noteq> [] \<and>
      list_all (\<lambda>a. ad_vid a \<noteq> [] \<and> ad_pid a \<noteq> []) (cf_accept s)"
  have dflt: "?ok defaultSettings" by (simp add: defaultSettings_def LEVEL_INFO_def LEVEL_ERROR_def)
  have "?ok (loadLoggerSection pf t)" if "?ok t" for pf t
    using that by (auto simp: loadLoggerSection_def parseLevel_def LEVEL_DEBUG_def LEVEL_INFO_def LEVEL_WARN_def
        LEVEL_ERROR_def split: option.split)
  moreover have "?ok (loadDonglesSection pf t)" if "?ok t" for pf t
    using that by (auto simp: loadDonglesSection_def Let_def list_all_iff List.map_filter_def parseAccept_def
        split: option.splits prod.splits if_splits)
  moreover have "?ok (loadStorageSection pf t)" "?ok (loadSecuritySection pf t)" "?ok (loadBehaviorSection pf t)"
    if "?ok t" for pf t
    using that by (auto simp: loadStorageSection_def loadSecuritySection_def loadBehaviorSection_def Let_def split: option.split)
  ultimately have "?ok (applyFile pf)" for pf using dflt by (simp add: applyFile_def)
  moreover obtain errs s where "Config_load env fileExists readFile = errs @ publishSettings s" "length errs \<le> 1"
      "s = defaultSettings \<or> (\<exists>pf. s = applyFile pf)"
  proof (cases "fileExists (resolvePath env) \<and> parseFile (readFile (resolvePath env)) = None")
    case True
    then show ?thesis by (intro that [of "[_]" defaultSettings]) (simp_all add: Config_load_def)
  next
    case False
    then show ?thesis
      by (cases "fileExists (resolvePath env)") (auto simp: Config_load_def intro: that [of "[]"])
  qed
  ultimately show ?thesis using dflt by blast
qed

end
