(* ===== verification/Dongle_Monitor.thy ===== *)
theory Dongle_Monitor
  imports Config_File Bus_Commands
begin

text \<open>
  Detection of the USB dongle, \<open>src/src/zwave-dongle/MonitorThread.cpp\<close>. The device manager
  (libudev) is a third-party library: a snapshot of what it answers is an argument of the operations that
  ask it. Its reference counting is not modelled.
\<close>

section \<open>What the device manager answers\<close>

text \<open>
  An entry of the list of terminals: its path, and what opening it gives: \<open>None\<close> when it cannot be
  opened, otherwise its device node if it has one.
\<close>

record ttyEntry =
  te_syspath :: "string option"
  te_device :: "string option option"

record usbDevice =
  ud_action :: "string option"
  ud_devpath :: "string option"
  ud_syspath :: "string option"
  ud_idVendor :: "string option"
  ud_idProduct :: "string option"

text \<open>
  \<open>uv_enumerates\<close>: whether an enumeration can be created; \<open>uv_ttys\<close>: the terminals;
  \<open>uv_matching\<close>: the paths of the USB devices with a vendor and a product; \<open>uv_open\<close>: a
  device by its path.
\<close>

record udev =
  uv_enumerates :: bool
  uv_ttys :: "ttyEntry list"
  uv_matching :: "string \<Rightarrow> string \<Rightarrow> string option list"
  uv_open :: "string \<Rightarrow> usbDevice option"

section \<open>Finding the dongle\<close>

definition isZWaveDongle :: "AcceptedDongleConfig list \<Rightarrow> usbDevice \<Rightarrow> bool" where
  "isZWaveDongle accept dev =
     (case (ud_idVendor dev, ud_idProduct dev) of
        (Some vid, Some pid) \<Rightarrow> list_ex (\<lambda>a. ad_vid a = vid \<and> ad_pid a = pid) accept
      | _ \<Rightarrow> False)"

fun scanTtys :: "string \<Rightarrow> ttyEntry list \<Rightarrow> string" where
  "scanTtys usbSyspath [] = []"
| "scanTtys usbSyspath (t # ts) =
     (case te_syspath t of
        None \<Rightarrow> scanTtys usbSyspath ts
      | Some syspath \<Rightarrow>
          if take (length usbSyspath) syspath \<noteq> usbSyspath then scanTtys usbSyspath ts
          else case te_device t of
              None \<Rightarrow> scanTtys usbSyspath ts
            | Some devnode \<Rightarrow> (case devnode of Some n \<Rightarrow> n | None \<Rightarrow> []))"

definition findAttachedTtyNode :: "udev \<Rightarrow> usbDevice \<Rightarrow> string" where
  "findAttachedTtyNode u dev =
     (case ud_syspath dev of
        None \<Rightarrow> []
      | Some usbSyspath \<Rightarrow> if \<not> uv_enumerates u then [] else scanTtys usbSyspath (uv_ttys u))"

fun firstSome :: "'a option list \<Rightarrow> 'a option" where
  "firstSome [] = None"
| "firstSome (None # xs) = firstSome xs"
| "firstSome (Some x # xs) = Some x"

fun findAlreadyInserted :: "udev \<Rightarrow> AcceptedDongleConfig list \<Rightarrow> string" where
  "findAlreadyInserted u [] = []"
| "findAlreadyInserted u (a # as) =
     (if \<not> uv_enumerates u then findAlreadyInserted u as
      else case firstSome (uv_matching u (ad_vid a) (ad_pid a)) of
          Some syspath \<Rightarrow> syspath
        | None \<Rightarrow> findAlreadyInserted u as)"

definition openUdevDeviceBySyspath :: "udev \<Rightarrow> string \<Rightarrow> usbDevice option" where
  "openUdevDeviceBySyspath u syspath = (if syspath = [] then None else uv_open u syspath)"

section \<open>The monitor\<close>

record Monitor =
  mo_devpath :: string
  mo_ttyNode :: string

datatype monitorEvent =
    PubDongleStatus bool string
  | PubMonitorError byte string byte string

definition SEVERITY_CRITICAL :: byte where "SEVERITY_CRITICAL = 4"
definition CODE_UDEV_INIT_FAILED :: byte where "CODE_UDEV_INIT_FAILED = 0x20"

text \<open>Setting up: the events, and whether the context and the monitor are there.\<close>

definition setupMonitor :: "bool \<Rightarrow> bool \<Rightarrow> monitorEvent list \<times> bool" where
  "setupMonitor contextOk monitorOk =
     (if \<not> contextOk
      then ([PubMonitorError SEVERITY_CRITICAL ''zwave-dongle'' CODE_UDEV_INIT_FAILED ''udev_new() returned NULL''], False)
      else if \<not> monitorOk
      then ([PubMonitorError SEVERITY_CRITICAL ''zwave-dongle'' CODE_UDEV_INIT_FAILED
               ''udev_monitor_new_from_netlink() returned NULL''], False)
      else ([], True))"

definition trackedPath :: "usbDevice \<Rightarrow> string" where
  "trackedPath dev = (case ud_devpath dev of Some p \<Rightarrow> p | None \<Rightarrow> [])"

definition trackDongle :: "udev \<Rightarrow> usbDevice \<Rightarrow> monitorEvent list \<times> Monitor" where
  "trackDongle u dev =
     (let ttyNode = findAttachedTtyNode u dev in
      (if ttyNode \<noteq> [] then [PubDongleStatus True ttyNode] else [],
       \<lparr>mo_devpath = trackedPath dev, mo_ttyNode = ttyNode\<rparr>))"

definition handleDeviceEvent ::
  "AcceptedDongleConfig list \<Rightarrow> udev \<times> usbDevice \<Rightarrow> Monitor \<Rightarrow> monitorEvent list \<times> Monitor" where
  "handleDeviceEvent accept i mo =
     (case i of (u, dev) \<Rightarrow>
        (case (ud_action dev, ud_devpath dev) of
           (Some action, Some devpath) \<Rightarrow>
             if action = ''add'' then if isZWaveDongle accept dev then trackDongle u dev else ([], mo)
             else if action = ''remove''
             then if mo_devpath mo \<noteq> [] \<and> mo_devpath mo = devpath
                  then ([PubDongleStatus False []], \<lparr>mo_devpath = [], mo_ttyNode = []\<rparr>)
                  else ([], mo)
             else ([], mo)
         | _ \<Rightarrow> ([], mo)))"

definition startMonitor :: "AcceptedDongleConfig list \<Rightarrow> udev \<Rightarrow> monitorEvent list \<times> Monitor" where
  "startMonitor accept u =
     (let syspath = findAlreadyInserted u accept in
      if syspath = [] then ([], \<lparr>mo_devpath = [], mo_ttyNode = []\<rparr>)
      else case openUdevDeviceBySyspath u syspath of
          None \<Rightarrow> ([], \<lparr>mo_devpath = [], mo_ttyNode = []\<rparr>)
        | Some dev \<Rightarrow> trackDongle u dev)"

text \<open>The thread: set-up, the search at start, then the device events as they arrive.\<close>

definition zwaveMonitorThread ::
  "bool \<Rightarrow> bool \<Rightarrow> AcceptedDongleConfig list \<Rightarrow> udev \<Rightarrow> (udev \<times> usbDevice) list \<Rightarrow> monitorEvent list" where
  "zwaveMonitorThread contextOk monitorOk accept u arrivals =
     (case setupMonitor contextOk monitorOk of
        (evs, ok) \<Rightarrow>
          if \<not> ok then evs
          else case startMonitor accept u of
              (evs2, mo) \<Rightarrow> evs @ evs2 @ fst (runSteps (handleDeviceEvent accept) arrivals mo))"

section \<open>The path the protocol thread uses\<close>

text \<open>What the protocol thread makes of the published events.\<close>

fun followEvent :: "genCodecs \<Rightarrow> monitorEvent \<Rightarrow> Protocol \<Rightarrow> Protocol" where
  "followEvent g (PubDongleStatus connected tty) pt = snd (onBusCommand g (DongleStatus connected tty) pt)"
| "followEvent g (PubMonitorError severity source code message) pt = pt"

definition presentPath :: "Monitor \<Rightarrow> string option" where
  "presentPath mo = (if mo_ttyNode mo = [] then None else Some (mo_ttyNode mo))"

definition namedDevice :: "usbDevice \<Rightarrow> bool" where
  "namedDevice dev \<longleftrightarrow> trackedPath dev \<noteq> []"

text \<open>No second accepted dongle is plugged in while one is tracked.\<close>

fun oneDongle :: "AcceptedDongleConfig list \<Rightarrow> (udev \<times> usbDevice) list \<Rightarrow> Monitor \<Rightarrow> bool" where
  "oneDongle accept [] mo = True"
| "oneDongle accept (i # is) mo =
     ((ud_action (snd i) = Some ''add'' \<and> isZWaveDongle accept (snd i) \<longrightarrow> mo_devpath mo = []) \<and>
      oneDongle accept is (snd (handleDeviceEvent accept i mo)))"

definition monitor_ok :: "Monitor \<Rightarrow> Protocol \<Rightarrow> bool" where
  "monitor_ok mo pt \<longleftrightarrow> pt_path pt = presentPath mo \<and> (mo_devpath mo = [] \<longrightarrow> mo_ttyNode mo = [])"

lemma trackDongle_ok:
  assumes "namedDevice dev" and "pt_path pt = None"
  shows "monitor_ok (snd (trackDongle u dev)) (fold (followEvent g) (fst (trackDongle u dev)) pt)"
  using assms by (simp add: trackDongle_def Let_def monitor_ok_def presentPath_def namedDevice_def onDongleStatus_def)

lemma handleDeviceEvent_ok:
  assumes "monitor_ok mo pt" and "oneDongle accept [i] mo" and "namedDevice (snd i)"
  shows "monitor_ok (snd (handleDeviceEvent accept i mo)) (fold (followEvent g) (fst (handleDeviceEvent accept i mo)) pt)"
proof -
  obtain u dev where i: "i = (u, dev)" by (cases i)
  show ?thesis
  proof (cases "ud_action dev = Some ''add'' \<and> ud_devpath dev \<noteq> None \<and> isZWaveDongle accept dev")
    case True
    with assms i have "pt_path pt = None" by (auto simp: monitor_ok_def presentPath_def)
    with trackDongle_ok [of dev pt u g] assms(3) i True show ?thesis by (auto simp: handleDeviceEvent_def)
  next
    case False
    then show ?thesis using assms i
      by (auto simp: handleDeviceEvent_def monitor_ok_def presentPath_def onDongleStatus_def split: option.split)
  qed
qed

lemma monitorLoop_ok:
  "monitor_ok mo pt \<Longrightarrow> oneDongle accept is mo \<Longrightarrow> list_all (namedDevice \<circ> snd) is \<Longrightarrow>
   monitor_ok (snd (runSteps (handleDeviceEvent accept) is mo))
     (fold (followEvent g) (fst (runSteps (handleDeviceEvent accept) is mo)) pt)"
proof (induction "is" arbitrary: mo pt)
  case (Cons i "is")
  have "monitor_ok (snd (handleDeviceEvent accept i mo)) (fold (followEvent g) (fst (handleDeviceEvent accept i mo)) pt)"
    using Cons.prems by (intro handleDeviceEvent_ok) auto
  from Cons.IH [OF this] Cons.prems show ?case
    by (simp add: runSteps_out runSteps_state del: runSteps.simps(2))
qed simp


definition demoStick :: "string \<Rightarrow> usbDevice" where
  "demoStick action = \<lparr>ud_action = Some action, ud_devpath = Some ''/devices/usb1/1-1'', ud_syspath = Some ''/sys/devices/usb1/1-1'',
     ud_idVendor = Some ''0658'', ud_idProduct = Some ''0200''\<rparr>"

definition demoUdev :: udev where
  "demoUdev = \<lparr>uv_enumerates = True,
     uv_ttys = [\<lparr>te_syspath = Some ''/sys/devices/usb1/1-1/tty/ttyACM0'', te_device = Some (Some ''/dev/ttyACM0'')\<rparr>],
     uv_matching = (\<lambda>v p. []), uv_open = (\<lambda>p. None)\<rparr>"


text \<open>
  With two dongles the monitor loses track: the arrival of a second accepted dongle replaces the
  tracked one, after which the removal of the first is not noticed and the protocol thread keeps its path.
\<close>

theorem second_dongle_hides_removal:
  assumes "mo_devpath mo = p" and "isZWaveDongle accept dev" and "ud_action dev = Some ''add''"
    and "ud_devpath dev = Some q" and "q \<noteq> p" and "ud_action gone = Some ''remove''" and "ud_devpath gone = Some p"
  shows "fst (handleDeviceEvent accept (u', gone) (snd (handleDeviceEvent accept (u, dev) mo))) = []"
  using assms by (simp add: handleDeviceEvent_def trackDongle_def trackedPath_def Let_def)

theorem second_dongle_hides_removal_witness:
  "fst (handleDeviceEvent (cf_accept defaultSettings) (demoUdev, demoStick ''remove'')
     (snd (handleDeviceEvent (cf_accept defaultSettings) (demoUdev, (demoStick ''add'')\<lparr>ud_devpath := Some ''/devices/usb1/1-2''\<rparr>)
        \<lparr>mo_devpath = ''/devices/usb1/1-1'', mo_ttyNode = ''/dev/ttyACM0''\<rparr>))) = []"
  by (rule second_dongle_hides_removal [of _ "''/devices/usb1/1-1''" _ _ "''/devices/usb1/1-2''"])
    (simp_all add: demoStick_def isZWaveDongle_def defaultSettings_def)

text \<open>
  The search for the terminal of a device compares paths as strings: the terminal of a sibling whose
  path merely begins with the path of the device, as port 1-10 begins with port 1-1, is taken for its own
  when it is listed first.
\<close>

theorem sibling_tty_taken:
  assumes "ud_syspath dev = Some p" and "uv_enumerates u"
    and "uv_ttys u = \<lparr>te_syspath = Some (p @ suffix), te_device = Some (Some node)\<rparr> # rest"
  shows "findAttachedTtyNode u dev = node"
  using assms by (simp add: findAttachedTtyNode_def)

theorem sibling_tty_taken_witness:
  "findAttachedTtyNode (demoUdev\<lparr>uv_ttys :=
      [\<lparr>te_syspath = Some ''/sys/devices/usb1/1-10/tty/ttyACM1'', te_device = Some (Some ''/dev/ttyACM1'')\<rparr>,
       \<lparr>te_syspath = Some ''/sys/devices/usb1/1-1/tty/ttyACM0'', te_device = Some (Some ''/dev/ttyACM0'')\<rparr>]\<rparr>)
     (demoStick ''add'') = ''/dev/ttyACM1''"
  by (rule sibling_tty_taken [where p = "''/sys/devices/usb1/1-1''" and suffix = "''0/tty/ttyACM1''"])
    (simp_all add: demoStick_def demoUdev_def)

end
