(* ===== verification/Span_Store.thy ===== *)
theory Span_Store
  imports S2_Session
begin

text \<open>
  Persistence of the S2 nonce generators, \<open>src/src/span-store/SpanStore.cpp\<close> and
  \<open>SpanStoreService.cpp\<close>: the table of generator states, the periodic checkpoint that writes the states
  that changed, the final save, and the restoring of the states when a dongle is adopted. The checkpoint
  thread and the mutexes appear as the interleaving of the operations.
\<close>

section \<open>The store\<close>

definition INNER_STATE_SIZE :: nat where "INNER_STATE_SIZE = 32"

record SpanStore =
  sst_dbValid :: bool
  sst_home :: "string option"
  sst_rows :: "((string \<times> byte) \<times> bytes) list"

definition sst_setHomeId :: "bytes \<Rightarrow> SpanStore \<Rightarrow> SpanStore" where
  "sst_setHomeId homeIdBytes st = st\<lparr>sst_home := Some (toHex homeIdBytes)\<rparr>"

definition sst_save :: "byte \<Rightarrow> bytes \<Rightarrow> SpanStore \<Rightarrow> SpanStore" where
  "sst_save peer inner st =
     (if \<not> sst_dbValid st then st
      else case sst_home st of
          None \<Rightarrow> st
        | Some home \<Rightarrow> st\<lparr>sst_rows := insertOrReplace (home, peer) inner (sst_rows st)\<rparr>)"

definition sst_remove :: "byte \<Rightarrow> SpanStore \<Rightarrow> SpanStore" where
  "sst_remove peer st =
     (if \<not> sst_dbValid st then st
      else case sst_home st of
          None \<Rightarrow> st
        | Some home \<Rightarrow> st\<lparr>sst_rows := deleteKey (home, peer) (sst_rows st)\<rparr>)"

text \<open>A row whose blob has another size is skipped.\<close>

definition sst_loadAll :: "SpanStore \<Rightarrow> (byte \<rightharpoonup> bytes)" where
  "sst_loadAll st =
     (if \<not> sst_dbValid st then Map.empty
      else case sst_home st of
          None \<Rightarrow> Map.empty
        | Some home \<Rightarrow>
            (\<lambda>peer. case map_of (sst_rows st) (home, peer) of
               None \<Rightarrow> None
             | Some blob \<Rightarrow> if length blob \<noteq> INNER_STATE_SIZE then None else Some blob))"

section \<open>The service\<close>

record SpanService =
  sv_running :: bool
  sv_homeBound :: bool
  sv_lastWritten :: "byte \<rightharpoonup> bytes"

definition newSpanService :: SpanService where
  "newSpanService = \<lparr>sv_running = True, sv_homeBound = False, sv_lastWritten = Map.empty\<rparr>"

text \<open>The peers of a map in its order, and the loop of \<open>checkpoint\<close> over them.\<close>

definition mapPeers :: "(byte \<rightharpoonup> bytes) \<Rightarrow> (byte \<times> bytes) list" where
  "mapPeers m = map (\<lambda>p. (p, the (m p))) (filter (\<lambda>p. m p \<noteq> None) (map of_nat [0 ..< 256]))"

fun checkpointLoop :: "(byte \<times> bytes) list \<Rightarrow> SpanService \<times> SpanStore \<Rightarrow> nat \<times> SpanService \<times> SpanStore" where
  "checkpointLoop [] (sv, st) = (0, sv, st)"
| "checkpointLoop ((peer, inner) # rest) (sv, st) =
     (if sv_lastWritten sv peer = Some inner then checkpointLoop rest (sv, st)
      else case checkpointLoop rest
                  (sv\<lparr>sv_lastWritten := (sv_lastWritten sv)(peer \<mapsto> inner)\<rparr>, sst_save peer inner st) of
          (written, res) \<Rightarrow> (written + 1, res))"

definition checkpoint :: "SpanManager \<Rightarrow> SpanService \<times> SpanStore \<Rightarrow> nat \<times> SpanService \<times> SpanStore" where
  "checkpoint M s = (if \<not> sv_homeBound (fst s) then (0, s) else checkpointLoop (mapPeers (exportAll M)) s)"

definition importAll :: "(byte \<times> bytes) list \<Rightarrow> SpanManager \<Rightarrow> SpanManager" where
  "importAll ps M = fold (\<lambda>(peer, inner). importSpan peer inner) ps M"

definition bindAndRestore ::
  "bytes \<Rightarrow> SpanService \<times> SpanStore \<times> SpanManager \<Rightarrow> SpanService \<times> SpanStore \<times> SpanManager" where
  "bindAndRestore homeId s =
     (case s of (sv, st, M) \<Rightarrow>
        let st1 = sst_setHomeId homeId st; persisted = sst_loadAll st1 in
        (sv\<lparr>sv_homeBound := True, sv_lastWritten := persisted\<rparr>, st1, importAll (mapPeers persisted) M))"

text \<open>The destructor of the service.\<close>

definition shutdownSave :: "SpanManager \<Rightarrow> SpanService \<times> SpanStore \<Rightarrow> SpanService \<times> SpanStore" where
  "shutdownSave M s =
     (case s of (sv, st) \<Rightarrow> if \<not> sv_running sv then (sv, st) else snd (checkpoint M (sv\<lparr>sv_running := False\<rparr>, st)))"

section \<open>What is written\<close>

text \<open>
  The service knows what the table holds: a state it remembers as written is the state of the row.
\<close>

definition store_ok :: "bytes \<Rightarrow> SpanStore \<Rightarrow> bool" where
  "store_ok home st \<longleftrightarrow> sst_dbValid st \<and> sst_home st = Some (toHex home)"

definition written_ok :: "SpanService \<Rightarrow> SpanStore \<Rightarrow> bool" where
  "written_ok sv st \<longleftrightarrow> (\<forall>peer inner. sv_lastWritten sv peer = Some inner \<longrightarrow> sst_loadAll st peer = Some inner)"

interpretation spans: keyed_store "store_ok home" "\<lambda>inner. length inner = INNER_STATE_SIZE" sst_save sst_remove
  "\<lambda>peer st. sst_loadAll st peer" for home
  by unfold_locales (auto simp: store_ok_def sst_save_def sst_remove_def sst_loadAll_def map_of_insertOrReplace
      map_of_deleteKey)

lemma byte_listed: "p \<in> set (map of_nat [0 ..< 256])" for p :: byte
proof -
  have "p = of_nat (unat p)" "unat p < 256" using unsigned_less [of p] by simp_all
  then show ?thesis by (metis atLeastLessThan_iff image_eqI list.set_map set_upt zero_le)
qed

lemma distinct_bytes: "distinct (map of_nat [0 ..< 256] :: byte list)"
  by (auto simp: distinct_map inj_on_def word_of_nat_eq_iff take_bit_eq_mod)

lemma map_of_mapPeers: "map_of (mapPeers m) = m"
proof
  fix p
  have "map_of (map (\<lambda>p. (p, the (m p))) ps) p = (if p \<in> set ps then Some (the (m p)) else None)" for ps
    by (induction ps) auto
  then show "map_of (mapPeers m) p = m p" using byte_listed [of p] by (simp add: mapPeers_def)
qed

lemma distinct_mapPeers: "distinct (map fst (mapPeers m))"
  using distinct_bytes by (simp add: mapPeers_def o_def)

lemma checkpointLoop_Cons:
  "checkpointLoop ((peer, inner) # rest) (sv, st) =
     (let changed = (sv_lastWritten sv peer \<noteq> Some inner);
          next = (if changed then (sv\<lparr>sv_lastWritten := (sv_lastWritten sv)(peer \<mapsto> inner)\<rparr>, sst_save peer inner st)
                  else (sv, st))
      in ((if changed then 1 else 0) + fst (checkpointLoop rest next), snd (checkpointLoop rest next)))"
  by (simp add: Let_def split: prod.split)

lemma checkpointLoop_spec:
  assumes "store_ok home st" and "written_ok sv st" and "\<forall>(peer, inner) \<in> set ps. length inner = INNER_STATE_SIZE"
    and "distinct (map fst ps)" and "checkpointLoop ps (sv, st) = (n, sv', st')"
  shows "store_ok home st' \<and> written_ok sv' st' \<and> sv_homeBound sv' = sv_homeBound sv \<and>
     sst_loadAll st' = sst_loadAll st ++ map_of ps \<and> sv_lastWritten sv' = sv_lastWritten sv ++ map_of ps"
  using assms
proof (induction ps arbitrary: sv st n)
  case (Cons a ps)
  obtain peer inner where a: "a = (peer, inner)" by (cases a)
  let ?sv = "sv\<lparr>sv_lastWritten := (sv_lastWritten sv)(peer \<mapsto> inner)\<rparr>" and ?st = "sst_save peer inner st"
  have len: "length inner = INNER_STATE_SIZE" using Cons.prems(3) a by simp
  have new: "peer \<notin> dom (map_of ps)" using Cons.prems(4) a by (simp add: dom_map_of_conv_image_fst)
  show ?case
  proof (cases "sv_lastWritten sv peer = Some inner")
    case True
    have run: "checkpointLoop ps (sv, st) = (n, sv', st')" using Cons.prems(5) True a by simp
    have "sst_loadAll st peer = Some inner" using True Cons.prems(2) by (simp add: written_ok_def)
    moreover have "store_ok home st' \<and> written_ok sv' st' \<and> sv_homeBound sv' = sv_homeBound sv \<and>
       sst_loadAll st' = sst_loadAll st ++ map_of ps \<and> sv_lastWritten sv' = sv_lastWritten sv ++ map_of ps"
      using Cons.prems a run by (intro Cons.IH) auto
    ultimately show ?thesis using new True a
      by (auto simp: fun_eq_iff map_add_def dom_def split: option.splits)
  next
    case False
    obtain m where run: "checkpointLoop ps (?sv, ?st) = (m, sv', st')"
      using Cons.prems(5) False a by (simp split: prod.splits)
    have ok: "store_ok home ?st" using spans.put_ok [OF Cons.prems(1)] .
    have load: "sst_loadAll ?st = (sst_loadAll st)(peer \<mapsto> inner)"
      using spans.get_put [OF Cons.prems(1) len] by (auto simp: fun_eq_iff)
    then have "written_ok ?sv ?st" using Cons.prems(2) by (auto simp: written_ok_def)
    with ok have "store_ok home st' \<and> written_ok sv' st' \<and> sv_homeBound sv' = sv_homeBound ?sv \<and>
       sst_loadAll st' = sst_loadAll ?st ++ map_of ps \<and> sv_lastWritten sv' = sv_lastWritten ?sv ++ map_of ps"
      using Cons.prems a run by (intro Cons.IH) auto
    then show ?thesis using new a load
      by (auto simp: fun_eq_iff map_add_def dom_def split: option.splits)
  qed
qed simp

definition spans_wf :: "SpanManager \<Rightarrow> bool" where
  "spans_wf M \<longleftrightarrow> (\<forall>peer s. pr_span (peerState peer M) = Some s \<longrightarrow> span_wf s)"

lemma exportAll_alt: "exportAll M peer = map_option span_serialize (pr_span (peerState peer M))"
  by (simp add: exportAll_def peerState_def defaultPeer_def split: option.split)

lemma exportAll_length: "spans_wf M \<Longrightarrow> exportAll M peer = Some inner \<Longrightarrow> length inner = INNER_STATE_SIZE"
  by (auto simp: exportAll_alt spans_wf_def span_wf_def span_serialize_def INNER_STATE_SIZE_def s2_size_defs)

lemma mapPeers_set: "(peer, inner) \<in> set (mapPeers m) \<Longrightarrow> m peer = Some inner"
  by (auto simp: mapPeers_def)

lemma span_importAll:
  "pr_span (peerState peer (importAll ps M)) =
     (case map_of (rev ps) peer of None \<Rightarrow> pr_span (peerState peer M) | Some inner \<Rightarrow> Some (span_deserialize inner))"
proof (induction ps arbitrary: M)
  case (Cons a ps)
  obtain p inner where a: "a = (p, inner)" by (cases a)
  have "pr_span (peerState peer (importSpan p inner M)) =
      (if peer = p then Some (span_deserialize inner) else pr_span (peerState peer M))"
    by (simp add: importSpan_def setPeer_def peerState_def)
  with Cons.IH [of "importSpan p inner M"] a show ?case
    by (cases "map_of (rev ps) peer") (auto simp: importAll_def map_add_def)
qed (simp add: importAll_def)

lemma map_of_rev_mapPeers: "map_of (rev (mapPeers m)) = m"
proof -
  have "map_of (rev (mapPeers m)) = map_of (mapPeers m)"
    using distinct_mapPeers [of m] by (subst map_of_inject_set) (simp_all flip: rev_map)
  then show ?thesis by (simp add: map_of_mapPeers)
qed

lemma span_restore:
  "pr_span (peerState peer (snd (snd (bindAndRestore home (sv, st, M))))) =
     (case sst_loadAll (sst_setHomeId home st) peer of
        None \<Rightarrow> pr_span (peerState peer M)
      | Some inner \<Rightarrow> Some (span_deserialize inner))"
  by (simp add: bindAndRestore_def span_importAll map_of_rev_mapPeers Let_def)

lemma checkpoint_spec:
  assumes "store_ok home st" and "written_ok sv st" and "sv_homeBound sv" and "spans_wf M"
    and "checkpoint M (sv, st) = (n, sv', st')"
  shows "store_ok home st' \<and> written_ok sv' st' \<and> sv_homeBound sv' \<and>
     sst_loadAll st' = sst_loadAll st ++ exportAll M \<and> sv_lastWritten sv' = sv_lastWritten sv ++ exportAll M"
proof -
  have "\<forall>(peer, inner) \<in> set (mapPeers (exportAll M)). length inner = INNER_STATE_SIZE"
    using mapPeers_set exportAll_length [OF assms(4)] by fastforce
  from checkpointLoop_spec [OF assms(1,2) this distinct_mapPeers, of n sv' st'] assms(3,5)
  show ?thesis by (simp add: checkpoint_def map_of_mapPeers)
qed

lemma checkpointLoop_unchanged:
  "\<forall>(peer, inner) \<in> set ps. sv_lastWritten sv peer = Some inner \<Longrightarrow> checkpointLoop ps (sv, st) = (0, sv, st)"
  by (induction ps) auto

text \<open>A checkpoint right after another one writes nothing.\<close>

lemma checkpoint_idempotent:
  assumes "store_ok home st" and "written_ok sv st" and "sv_homeBound sv" and "spans_wf M"
  shows "checkpoint M (snd (checkpoint M (sv, st))) = (0, snd (checkpoint M (sv, st)))"
proof -
  obtain n sv' st' where run: "checkpoint M (sv, st) = (n, sv', st')" by (cases "checkpoint M (sv, st)") auto
  from checkpoint_spec [OF assms run] have "\<forall>(peer, inner) \<in> set (mapPeers (exportAll M)). sv_lastWritten sv' peer = Some inner"
    using mapPeers_set by fastforce
  from checkpointLoop_unchanged [OF this] show ?thesis using run by (simp add: checkpoint_def)
qed

section \<open>Restart\<close>


definition demoSpanStore :: SpanStore where
  "demoSpanStore = \<lparr>sst_dbValid = True, sst_home = Some (toHex [0xE2, 0xA1, 0xB0, 0x7C]), sst_rows = []\<rparr>"

definition demoSpans :: SpanManager where
  "demoSpans = importSpan 5 (replicate 32 4) (demoManager 1 5)"

lemma demoSpans_wf: "spans_wf demoSpans" "hasSpan 5 demoSpans"
  by (auto simp: demoSpans_def demoManager_def newSpanManager_def configurePeer_def importSpan_def setPeer_def peerState_def spans_wf_def span_wf_def span_deserialize_def s2_size_defs
      defaultPeer_def hasSpan_def split: if_splits)


section \<open>Restoring over a live table\<close>

lemma config_importAll: "pr_config (peerState peer (importAll ps M)) = pr_config (peerState peer M)"
proof (induction ps arbitrary: M)
  case (Cons a ps)
  obtain p inner where a: "a = (p, inner)" by (cases a)
  have "pr_config (peerState peer (importSpan p inner M)) = pr_config (peerState peer M)"
    by (simp add: importSpan_def setPeer_def peerState_def)
  with Cons.IH [of "importSpan p inner M"] a show ?case by (simp add: importAll_def)
qed (simp add: importAll_def)

lemma config_restore: "pr_config (peerState peer (snd (snd (bindAndRestore home (sv, st, M))))) = pr_config (peerState peer M)"
  by (simp add: bindAndRestore_def config_importAll Let_def)

lemma config_encrypt: "pr_config (peerState p (snd (sm_encrypt c peer inner M))) = pr_config (peerState p M)"
  by (auto simp: sm_encrypt_def establishForSend_def drawEntropy_def setPeer_def peerState_def Let_def
      split: option.splits prod.splits)

text \<open>
  C31: the restoring also runs when a dongle is adopted again while the process lives on. The generators
  then fall back to the last checkpoint: the first frame sent to a peer after that is encrypted under the
  same nonce and key as the first frame sent after the checkpoint.
\<close>

theorem readoption_reuses_nonce:
  assumes "store_ok home st" and "written_ok sv st" and "sv_homeBound sv" and "spans_wf M" and "hasSpan peer M"
    and "checkpoint M (sv, st) = (n, sv1, st1)"
    and "sm_encrypt c peer first M = (Some frame1, M1)"
    and "bindAndRestore home (sv1, st1, M1) = (sv2, st2, M2)"
    and "sm_encrypt c peer second M2 = (Some frame2, M3)"
  shows "\<exists>nonce ctx1 ctx2. frame1 = S2_encrypt c first ctx1 (pc_classKey (pr_config (peerState peer M))) nonce [] [] \<and>
     frame2 = S2_encrypt c second ctx2 (pc_classKey (pr_config (peerState peer M))) nonce [] []"
proof -
  obtain s where s: "pr_span (peerState peer M) = Some s"
    using assms(5) by (auto simp: hasSpan_def peerState_def split: option.splits)
  then have "span_wf s" using assms(4) by (simp add: spans_wf_def)
  from checkpoint_spec [OF assms(1-4,6)] have "store_ok home st1" "sst_loadAll st1 peer = Some (span_serialize s)"
    using s by (auto simp: exportAll_alt)
  then have "sst_loadAll (sst_setHomeId home st1) peer = Some (span_serialize s)"
    by (simp add: sst_loadAll_def sst_setHomeId_def store_ok_def)
  then have restored: "pr_span (peerState peer M2) = Some s"
    using span_restore [of peer home sv1 st1 M1] assms(8) \<open>span_wf s\<close> by (simp add: span_serialize_inverse)
  have cfg: "pr_config (peerState peer M2) = pr_config (peerState peer M)"
    using config_restore [of peer home sv1 st1 M1] config_encrypt [of peer c peer first M] assms(7,8) by simp
  show ?thesis using s restored cfg assms(7,9)
    by (auto simp: sm_encrypt_def establishForSend_def Let_def split: prod.splits)
qed

theorem readoption_reuses_nonce_witness:
  "\<exists>nonce ctx1 ctx2 frame1 frame2 M1 M3.
     sm_encrypt toyCrypto2 5 [0x25, 1, 0xFF] demoSpans = (Some frame1, M1) \<and>
     sm_encrypt toyCrypto2 5 [0x25, 1, 0] (snd (snd (bindAndRestore [0xE2, 0xA1, 0xB0, 0x7C]
       (fst (snd (checkpoint demoSpans (newSpanService\<lparr>sv_homeBound := True\<rparr>, demoSpanStore))),
        snd (snd (checkpoint demoSpans (newSpanService\<lparr>sv_homeBound := True\<rparr>, demoSpanStore))), M1)))) = (Some frame2, M3) \<and>
     frame1 = S2_encrypt toyCrypto2 [0x25, 1, 0xFF] ctx1 (replicate 16 7) nonce [] [] \<and>
     frame2 = S2_encrypt toyCrypto2 [0x25, 1, 0] ctx2 (replicate 16 7) nonce [] []"
proof -
  let ?home = "[0xE2, 0xA1, 0xB0, 0x7C] :: bytes" and ?s = "(newSpanService\<lparr>sv_homeBound := True\<rparr>, demoSpanStore)"
  obtain n sv1 st1 where ck: "checkpoint demoSpans ?s = (n, sv1, st1)" by (cases "checkpoint demoSpans ?s") auto
  have sends: "\<exists>f M'. sm_encrypt toyCrypto2 5 inner M = (Some f, M')" if "hasSpan 5 M" for inner M
    using that by (auto simp: sm_encrypt_def establishForSend_def hasSpan_def peerState_def Let_def split: option.splits prod.splits)
  obtain f1 M1 where e1: "sm_encrypt toyCrypto2 5 [0x25, 1, 0xFF] demoSpans = (Some f1, M1)"
    using sends [OF demoSpans_wf(2)] by blast
  obtain sv2 st2 M2 where br: "bindAndRestore ?home (sv1, st1, M1) = (sv2, st2, M2)"
    by (cases "bindAndRestore ?home (sv1, st1, M1)") auto
  have "hasSpan 5 M1" using e1 by (auto simp: sm_encrypt_def establishForSend_def hasSpan_def setPeer_def Let_def
        split: option.splits prod.splits)
  then have "pr_span (peerState 5 M2) \<noteq> None" using span_restore [of 5 ?home sv1 st1 M1] br
    by (auto simp: hasSpan_def peerState_def split: option.splits)
  then have "hasSpan 5 M2" by (auto simp: hasSpan_def peerState_def defaultPeer_def split: option.splits)
  from sends [OF this] obtain f2 M3 where e2: "sm_encrypt toyCrypto2 5 [0x25, 1, 0] M2 = (Some f2, M3)" by blast
  have "pc_classKey (pr_config (peerState 5 demoSpans)) = replicate 16 7"
    by (simp add: demoSpans_def importSpan_def setPeer_def peerState_def demoManager_def configurePeer_def demoConfig_def)
  moreover have "store_ok ?home (snd ?s)" "written_ok (fst ?s) (snd ?s)" "sv_homeBound (fst ?s)"
    by (simp_all add: store_ok_def demoSpanStore_def written_ok_def newSpanService_def)
  ultimately show ?thesis
    using readoption_reuses_nonce [of ?home "snd ?s" "fst ?s" demoSpans 5 n sv1 st1 toyCrypto2 "[0x25, 1, 0xFF]" f1 M1 sv2 st2 M2
        "[0x25, 1, 0]" f2 M3] demoSpans_wf ck e1 br e2 by auto
qed

end
