(* ===== verification/Node_Values.thy ===== *)
theory Node_Values
  imports Decimal_Text Encoded_Value "HOL-Library.List_Lexorder" "HOL-Library.Char_ord"
begin

text \<open>
  The cache of last known values, \<open>src/src/node-values/NodeValues.cpp\<close> and \<open>Recorder.cpp\<close>:
  every typed report is rendered as a text and stored under the node and a value id, with the time of its
  arrival. The clock is an argument.
\<close>

section \<open>The store\<close>

record ValueEntry =
  ve_valueId :: string
  ve_value :: string
  ve_updatedAt :: int

record NodeValues =
  nv_dbValid :: bool
  nv_home :: "string option"
  nv_rows :: "((string \<times> byte \<times> string) \<times> (string \<times> int)) list"

definition nv_boundHome :: "NodeValues \<Rightarrow> string option" where
  "nv_boundHome st = (if \<not> nv_dbValid st then None else nv_home st)"

definition nv_setHomeId :: "bytes \<Rightarrow> NodeValues \<Rightarrow> NodeValues" where
  "nv_setHomeId homeIdBytes st = st\<lparr>nv_home := Some (toHex homeIdBytes)\<rparr>"

definition nv_record :: "byte \<Rightarrow> string \<Rightarrow> string \<Rightarrow> int \<Rightarrow> NodeValues \<Rightarrow> NodeValues" where
  "nv_record nodeId valueId val now st =
     (case nv_boundHome st of
        None \<Rightarrow> st
      | Some home \<Rightarrow> st\<lparr>nv_rows := insertOrReplace (home, nodeId, valueId) (val, now) (nv_rows st)\<rparr>)"

definition nv_get :: "byte \<Rightarrow> string \<Rightarrow> NodeValues \<Rightarrow> ValueEntry option" where
  "nv_get nodeId valueId st =
     (case nv_boundHome st of
        None \<Rightarrow> None
      | Some home \<Rightarrow>
          (case map_of (nv_rows st) (home, nodeId, valueId) of
             None \<Rightarrow> None
           | Some (val, at) \<Rightarrow> Some \<lparr>ve_valueId = valueId, ve_value = val, ve_updatedAt = at\<rparr>))"

definition nv_getAll :: "byte \<Rightarrow> NodeValues \<Rightarrow> ValueEntry list" where
  "nv_getAll nodeId st =
     (case nv_boundHome st of
        None \<Rightarrow> []
      | Some home \<Rightarrow>
          sort_key ve_valueId (map (\<lambda>((h, n, i), (v, at)). \<lparr>ve_valueId = i, ve_value = v, ve_updatedAt = at\<rparr>)
            (filter (\<lambda>((h, n, i), va). h = home \<and> n = nodeId) (nv_rows st))))"

definition nv_clearForNode :: "byte \<Rightarrow> NodeValues \<Rightarrow> NodeValues" where
  "nv_clearForNode nodeId st =
     (case nv_boundHome st of
        None \<Rightarrow> st
      | Some home \<Rightarrow> st\<lparr>nv_rows := filter (\<lambda>((h, n, i), va). \<not> (h = home \<and> n = nodeId)) (nv_rows st)\<rparr>)"

section \<open>Rendering\<close>

definition BYTE_MAX :: byte where "BYTE_MAX = 0xFF"

text \<open>
  \<open>scale\<close> is a signed 64 bit integer that is multiplied by ten \<open>precision\<close> times: from
  \<open>10^19\<close> on the product overflows, which is undefined and here a fault. The padding length
  \<open>precision - frac.size()\<close> is unsigned; it is a fault when it would be negative.
\<close>

definition renderScaled :: "i32 \<Rightarrow> byte \<Rightarrow> string option" where
  "renderScaled raw precision =
     (if precision = 0 then Some (decInt (sint raw))
      else let magnitude = nat \<bar>sint raw\<bar>; scale = 10 ^ unat precision;
               whole = magnitude div scale; frac = decString (magnitude mod scale)
      in if int scale \<ge> 2 ^ 63 \<or> length frac > unat precision then None
         else Some ((if sint raw < 0 then ''-'' else []) @ decString whole @ ''.'' @
                    replicate (unat precision - length frac) (CHR ''0'') @ frac))"

definition renderBinaryState :: "byte \<Rightarrow> string" where
  "renderBinaryState b = (if b = 0 then ''Off'' else if b = 1 then ''On'' else ''Unknown'')"

definition renderSwitchLevel :: "byte \<Rightarrow> string" where
  "renderSwitchLevel level =
     (if level = 0 then ''Off'' else if level = BYTE_MAX then ''On'' else decString (unat level) @ ''%'')"

section \<open>The recorder\<close>

datatype recorderInput =
    BinarySwitchReport byte byte
  | MultilevelSwitchReport byte byte
  | BatteryReport byte byte bool
  | SensorMultilevelReport byte SensorMultilevel_Report
  | SensorBinaryReport byte byte byte
  | ConfigurationReport byte byte i32
  | ThermostatModeReport byte byte
  | ThermostatSetpointReport byte ThermostatSetpoint_Report

text \<open>The node, the value id and the text of a report; no text is a fault of the rendering.\<close>

fun rendering :: "recorderInput \<Rightarrow> byte \<times> string \<times> string option" where
  "rendering (BinarySwitchReport n b) = (n, ''binary_switch'', Some (renderBinaryState b))"
| "rendering (MultilevelSwitchReport n level) = (n, ''multilevel_switch'', Some (renderSwitchLevel level))"
| "rendering (BatteryReport n level low) =
     (n, ''battery'', Some (if low \<or> level = BYTE_MAX then ''low'' else decString (unat level) @ ''%''))"
| "rendering (SensorMultilevelReport n r) =
     (n, ''sensor:'' @ decString (unat (sml_sensorType r)), renderScaled (sml_value r) (sml_precision r))"
| "rendering (SensorBinaryReport n sensorType v) =
     (n, ''sensor_binary:'' @ decString (unat sensorType), Some (if v \<noteq> 0 then ''active'' else ''idle''))"
| "rendering (ConfigurationReport n parameter v) =
     (n, ''config:'' @ decString (unat parameter), Some (decInt (sint v)))"
| "rendering (ThermostatModeReport n mode) = (n, ''thermostat_mode'', Some (decString (unat mode)))"
| "rendering (ThermostatSetpointReport n r) =
     (n, ''setpoint:'' @ decString (unat (tsp_setpointType r)), renderScaled (tsp_value r) (tsp_precision r))"

text \<open>\<open>NodeValueChanged\<close> is published whether or not the store took the value.\<close>

definition recordReport ::
  "int \<times> recorderInput \<Rightarrow> NodeValues \<Rightarrow> (byte \<times> string \<times> string) list \<times> NodeValues" where
  "recordReport i st =
     (case i of (now, report) \<Rightarrow>
        (case rendering report of
           (n, valueId, Some val) \<Rightarrow> ([(n, valueId, val)], nv_record n valueId val now st)
         | (n, valueId, None) \<Rightarrow> ([], st)))"

section \<open>Readings\<close>

text \<open>The scaled integer a rendered reading stands for.\<close>

definition readScaled :: "string \<Rightarrow> int" where
  "readScaled s =
     (if s \<noteq> [] \<and> hd s = CHR ''-'' then - int (digitsValue (filter (\<lambda>c. c \<noteq> CHR ''.'') (tl s)))
      else int (digitsValue (filter (\<lambda>c. c \<noteq> CHR ''.'') s)))"

lemma decString_nonempty: "decString n \<noteq> []"
  by (subst decString.simps) simp

lemma decString_no_point: "filter (\<lambda>c. c \<noteq> CHR ''.'') (decString n) = decString n"
  using decString_chars [of "CHR ''.''" n] by (auto intro: filter_True)

lemma decString_no_sign: "hd (decString n @ rest) \<noteq> CHR ''-''"
proof -
  have "hd (decString n) \<in> set (decString n)" using decString_nonempty by simp
  with decString_chars [of "hd (decString n)" n] show ?thesis using decString_nonempty by auto
qed

lemma renderScaled_small:
  assumes "0 < unat precision" and "unat precision \<le> 18"
  obtains w f where "renderScaled raw precision = Some ((if sint raw < 0 then ''-'' else []) @ w @ ''.'' @ f)"
    and "length f = unat precision" and "w = decString (nat \<bar>sint raw\<bar> div 10 ^ unat precision)"
    and "filter (\<lambda>c. c \<noteq> CHR ''.'') f = f" and "digitsValue f = nat \<bar>sint raw\<bar> mod 10 ^ unat precision"
proof -
  let ?m = "nat \<bar>sint raw\<bar>" and ?p = "unat precision"
  let ?frac = "decString (?m mod 10 ^ ?p)"
  let ?f = "replicate (?p - length ?frac) (CHR ''0'') @ ?frac"
  have len: "length ?frac \<le> ?p" using assms(1) by (intro decString_length) simp_all
  have "(10 :: nat) ^ ?p \<le> 10 ^ 18" using assms(2) by (intro power_increasing) simp_all
  also have "\<dots> < 2 ^ 63" by simp
  finally have "int (10 ^ ?p) < int (2 ^ 63)" by (simp only: of_nat_less_iff)
  then have "\<not> 2 ^ 63 \<le> int (10 ^ ?p)" by simp
  then have "renderScaled raw precision =
      Some ((if sint raw < 0 then ''-'' else []) @ decString (?m div 10 ^ ?p) @ ''.'' @ ?f)"
    using assms(1) len unfolding renderScaled_def Let_def by auto
  moreover have "filter (\<lambda>c. c \<noteq> CHR ''.'') ?f = ?f" by (simp add: decString_no_point)
  moreover have "digitsValue ?f = ?m mod 10 ^ ?p" by (simp add: digitsValue_append digitsValue_zeros)
  ultimately show ?thesis using len by (intro that [of "decString (?m div 10 ^ ?p)" ?f]) simp_all
qed

text \<open>
  The text of a reading is exact: for every precision up to 18, which includes all that the wire can
  carry, the rendering succeeds, reads back as the raw value, and has as many digits after the point as
  the precision says.
\<close>

lemma scaled_reading_exact:
  assumes "precision \<le> 18"
  shows "\<exists>s. renderScaled raw precision = Some s \<and> readScaled s = sint raw \<and>
     length (tl (dropWhile (\<lambda>c. c \<noteq> CHR ''.'') s)) = unat precision"
proof (cases "precision = 0")
  case True
  have no: "CHR ''.'' \<notin> set (decInt (sint raw))" using decString_chars [of "CHR ''.''"] by (auto simp: decInt_def)
  then have "filter (\<lambda>c. c \<noteq> CHR ''.'') (decInt (sint raw)) = decInt (sint raw)" by (auto intro: filter_True)
  then have "readScaled (decInt (sint raw)) = sint raw"
    using decString_no_sign [of "nat (sint raw)" "[]"] decString_no_point decString_nonempty
    by (auto simp: readScaled_def decInt_def)
  moreover have "dropWhile (\<lambda>c. c \<noteq> CHR ''.'') (decInt (sint raw)) = []" using no by (auto simp: dropWhile_eq_Nil_conv)
  ultimately show ?thesis using True by (simp add: renderScaled_def del: dropWhile_eq_Nil_conv)
next
  case False
  then have "0 < unat precision" by (simp add: unat_gt_0)
  moreover have "unat precision \<le> 18" using assms by (simp add: word_le_nat_alt)
  ultimately obtain w f where r: "renderScaled raw precision = Some ((if sint raw < 0 then ''-'' else []) @ w @ ''.'' @ f)"
    and f: "length f = unat precision" "filter (\<lambda>c. c \<noteq> CHR ''.'') f = f"
      "digitsValue f = nat \<bar>sint raw\<bar> mod 10 ^ unat precision"
    and w: "w = decString (nat \<bar>sint raw\<bar> div 10 ^ unat precision)"
    by (rule renderScaled_small)
  let ?s = "(if sint raw < 0 then ''-'' else []) @ w @ ''.'' @ f"
  have "digitsValue (w @ f) = nat \<bar>sint raw\<bar>" using f w by (simp add: digitsValue_append div_mult_mod_eq)
  then have "readScaled ?s = sint raw"
    using f(2) w decString_no_point decString_no_sign [of "nat \<bar>sint raw\<bar> div 10 ^ unat precision" "''.'' @ f"]
    by (auto simp: readScaled_def)
  moreover have "\<forall>c \<in> set ((if sint raw < 0 then ''-'' else []) @ w). c \<noteq> CHR ''.''"
    using w decString_chars [of "CHR ''.''"] by auto
  then have "dropWhile (\<lambda>c. c \<noteq> CHR ''.'') (((if sint raw < 0 then ''-'' else []) @ w) @ ''.'' @ f) = ''.'' @ f"
    by (subst dropWhile_append2) auto
  then have "dropWhile (\<lambda>c. c \<noteq> CHR ''.'') ?s = ''.'' @ f" by simp
  ultimately show ?thesis using r f(1) by simp
qed

lemma scaled_reading_exact_witness: "readScaled ''-0.05'' = -5 \<and> renderScaled (-5) 2 = Some ''-0.05''"
proof -
  have "renderScaled (-5) 2 = Some ''-0.05''" by code_simp
  then show ?thesis using scaled_reading_exact [of 2 "-5"] by simp
qed

section \<open>The cache\<close>

definition nv_ok :: "NodeValues \<Rightarrow> bool" where
  "nv_ok st \<longleftrightarrow> nv_dbValid st \<and> nv_home st \<noteq> None"

text \<open>For the interface the entry is the text with its time.\<close>

definition nv_lookup :: "byte \<times> string \<Rightarrow> NodeValues \<Rightarrow> (string \<times> int) option" where
  "nv_lookup k st = map_option (\<lambda>e. (ve_value e, ve_updatedAt e)) (nv_get (fst k) (snd k) st)"

definition nv_forget :: "byte \<times> string \<Rightarrow> NodeValues \<Rightarrow> NodeValues" where
  "nv_forget k st =
     (case nv_boundHome st of
        None \<Rightarrow> st
      | Some home \<Rightarrow> st\<lparr>nv_rows := deleteKey (home, fst k, snd k) (nv_rows st)\<rparr>)"

interpretation cachedValues: keyed_store nv_ok "\<lambda>_. True" "\<lambda>k v st. nv_record (fst k) (snd k) (fst v) (snd v) st"
  nv_forget nv_lookup
  by unfold_locales (auto simp: nv_ok_def nv_record_def nv_boundHome_def nv_lookup_def nv_get_def nv_forget_def
      map_of_insertOrReplace map_of_deleteKey split: option.splits)

lemma nv_get_lookup: "nv_get n i st = map_option (\<lambda>(v, at). \<lparr>ve_valueId = i, ve_value = v, ve_updatedAt = at\<rparr>) (nv_lookup (n, i) st)"
  by (auto simp: nv_lookup_def nv_get_def split: option.splits prod.splits)

text \<open>The entries that a list of reports writes.\<close>

fun entriesOf :: "(int \<times> recorderInput) list \<Rightarrow> ((byte \<times> string) \<times> (string \<times> int)) list" where
  "entriesOf [] = []"
| "entriesOf ((now, r) # rs) =
     (case rendering r of
        (n, i, Some v) \<Rightarrow> ((n, i), (v, now)) # entriesOf rs
      | (n, i, None) \<Rightarrow> entriesOf rs)"

lemma record_all:
  "snd (runSteps recordReport rs st) =
     fold (\<lambda>(k, v). \<lambda>st. nv_record (fst k) (snd k) (fst v) (snd v) st) (entriesOf rs) st"
proof (induction rs arbitrary: st)
  case (Cons a rs)
  obtain now r where a: "a = (now, r)" by (cases a)
  obtain n i v where r: "rendering r = (n, i, v)" by (cases "rendering r")
  show ?case using Cons.IH a r
    by (cases v) (simp_all add: runSteps_state recordReport_def del: runSteps.simps(2))
qed simp

text \<open>Distinct values have distinct ids: the id tells the kind of the report and its instance.\<close>

fun valueKind :: "recorderInput \<Rightarrow> nat \<times> byte" where
  "valueKind (BinarySwitchReport n b) = (0, 0)"
| "valueKind (MultilevelSwitchReport n level) = (1, 0)"
| "valueKind (BatteryReport n level low) = (2, 0)"
| "valueKind (SensorMultilevelReport n r) = (3, sml_sensorType r)"
| "valueKind (SensorBinaryReport n sensorType v) = (4, sensorType)"
| "valueKind (ConfigurationReport n parameter v) = (5, parameter)"
| "valueKind (ThermostatModeReport n mode) = (6, 0)"
| "valueKind (ThermostatSetpointReport n r) = (7, tsp_setpointType r)"

lemma valueId_inject: "fst (snd (rendering r)) = fst (snd (rendering r')) \<longleftrightarrow> valueKind r = valueKind r'"
  by (cases r; cases r') (simp_all add: decString_inject word_unat_eq_iff)

lemma entriesOf_Cons:
  "entriesOf ((now, r) # rs) =
     (case snd (snd (rendering r)) of
        None \<Rightarrow> []
      | Some v \<Rightarrow> [((fst (rendering r), fst (snd (rendering r))), (v, now))]) @ entriesOf rs"
  by (cases "rendering r") (auto split: option.split)

lemma entriesOf_append: "entriesOf (xs @ ys) = entriesOf xs @ entriesOf ys"
proof (induction xs)
  case (Cons a xs)
  then show ?case by (cases a) (simp add: entriesOf_Cons del: entriesOf.simps(2))
qed simp

lemma entriesOf_key:
  "k \<in> fst ` set (entriesOf rs) \<Longrightarrow> \<exists>(now, r) \<in> set rs. k = (fst (rendering r), fst (snd (rendering r)))"
proof (induction rs)
  case (Cons a rs)
  then show ?case by (cases a) (auto simp: entriesOf_Cons simp del: entriesOf.simps(2) split: option.splits)
qed simp

text \<open>
  The cache holds the last known values: after any reports, in any order and from any nodes, a value of
  a node is the text of the last report of that kind and instance from that node, with the time it arrived;
  without such a report it is what the cache held before.
\<close>

theorem last_known_value:
  assumes "nv_ok st" and "rendering r = (n, i, Some v)"
    and "\<forall>(now', r') \<in> set later. fst (rendering r') = n \<longrightarrow> valueKind r' \<noteq> valueKind r"
  shows "nv_get n i (snd (runSteps recordReport (earlier @ (now, r) # later) st)) =
     Some \<lparr>ve_valueId = i, ve_value = v, ve_updatedAt = now\<rparr>"
proof -
  have "(n, i) \<notin> fst ` set (entriesOf later)"
  proof
    assume "(n, i) \<in> fst ` set (entriesOf later)"
    from entriesOf_key [OF this] obtain now' r' where "(now', r') \<in> set later" "n = fst (rendering r')"
      "i = fst (snd (rendering r'))" by auto
    with assms(2,3) valueId_inject [of r' r] show False by auto
  qed
  then have "map_of (rev (entriesOf later)) (n, i) = None"
    by (metis map_of_eq_None_iff set_rev)
  then have "map_of (rev (entriesOf (earlier @ (now, r) # later))) (n, i) = Some (v, now)"
    using assms(2) by (simp add: entriesOf_append map_add_Some_iff)
  with cachedValues.get_puts [OF assms(1), of "entriesOf (earlier @ (now, r) # later)" "(n, i)"]
  have "nv_lookup (n, i) (snd (runSteps recordReport (earlier @ (now, r) # later) st)) = Some (v, now)"
    by (simp add: record_all list_all_iff case_prod_beta')
  then show ?thesis by (simp add: nv_get_lookup)
qed

definition demoValues :: NodeValues where
  "demoValues = \<lparr>nv_dbValid = True, nv_home = Some ''e2a1b07c'', nv_rows = []\<rparr>"

theorem last_known_value_witness:
  "nv_get 5 ''battery'' (snd (runSteps recordReport
     ([(100, BatteryReport 5 80 False)] @ (160, BatteryReport 5 0xFF False) # [(170, BatteryReport 6 90 False), (180, BinarySwitchReport 5 1)])
     demoValues)) = Some \<lparr>ve_valueId = ''battery'', ve_value = ''low'', ve_updatedAt = 160\<rparr>"
  by (rule last_known_value) (simp_all add: nv_ok_def demoValues_def BYTE_MAX_def)

text \<open>
  From the wire to the cache: a sensor report that decodes is rendered without a fault, whatever it
  carries, and the cached text reads back as the value in the frame.
\<close>

theorem sensor_frame_cached:
  assumes "nv_ok st" and "SensorMultilevel_decodeReport p = Some r"
  shows "\<exists>s. recordReport (now, SensorMultilevelReport n r) st =
       ([(n, ''sensor:'' @ decString (unat (sml_sensorType r)), s)],
        nv_record n (''sensor:'' @ decString (unat (sml_sensorType r))) s now st) \<and>
     readScaled s = sint (sml_value r) \<and>
     nv_get n (''sensor:'' @ decString (unat (sml_sensorType r)))
       (snd (recordReport (now, SensorMultilevelReport n r) st)) =
     Some \<lparr>ve_valueId = ''sensor:'' @ decString (unat (sml_sensorType r)), ve_value = s, ve_updatedAt = now\<rparr>"
proof -
  let ?i = "''sensor:'' @ decString (unat (sml_sensorType r))"
  have "drop_bit 5 (f AND 0xE0) \<le> (7 :: byte)" for f using word_and_le1 [of "drop_bit 5 f" 7] by simp
  then have "sml_precision r \<le> 7" using assms(2)
    by (auto simp: SensorMultilevel_decodeReport_def EncodedValue_decode_def FLAG_PRECISION_SHIFT_def
        FLAG_PRECISION_MASK_def Let_def split: if_splits option.splits)
  then have "sml_precision r \<le> 18" using order_trans [of "sml_precision r" 7 18] by simp
  from scaled_reading_exact [OF this, of "sml_value r"]
  obtain s where s: "renderScaled (sml_value r) (sml_precision r) = Some s" "readScaled s = sint (sml_value r)" by blast
  moreover have "nv_get n ?i (nv_record n ?i s now st) = Some \<lparr>ve_valueId = ?i, ve_value = s, ve_updatedAt = now\<rparr>"
    using cachedValues.get_put [OF assms(1), where p = "(s, now)" and j = "(n, ?i)" and k = "(n, ?i)"] by (simp add: nv_get_lookup)
  ultimately show ?thesis by (simp add: recordReport_def)
qed

theorem sensor_frame_cached_witness:
  "\<exists>s. nv_get 5 ''sensor:1'' (snd (recordReport (100, SensorMultilevelReport 5
      \<lparr>sml_sensorType = 1, sml_scale = 0, sml_precision = 1, sml_value = 215\<rparr>) demoValues)) =
     Some \<lparr>ve_valueId = ''sensor:1'', ve_value = s, ve_updatedAt = 100\<rparr> \<and> readScaled s = 215"
proof -
  have "SensorMultilevel_decodeReport [0x31, 0x05, 0x01, 0x22, 0x00, 0xD7] =
      Some \<lparr>sml_sensorType = 1, sml_scale = 0, sml_precision = 1, sml_value = 215\<rparr>" by code_simp
  moreover have "nv_ok demoValues" by (simp add: nv_ok_def demoValues_def)
  moreover have "decString 1 = ''1''" by code_simp
  ultimately show ?thesis
    using sensor_frame_cached [of demoValues "[0x31, 0x05, 0x01, 0x22, 0x00, 0xD7]"
        "\<lparr>sml_sensorType = 1, sml_scale = 0, sml_precision = 1, sml_value = 215\<rparr>" 100 5] by auto
qed

end
