(* ===== verification/Message_Bus.thy ===== *)
theory Message_Bus
  imports Zw_Prelude "HOL-Library.Multiset"
begin

text \<open>
  The in-process bus, \<open>src/src/message-bus/MessageBusInternal.hpp\<close> and \<open>MessageBus.cpp\<close>:
  subscription, synchronous publication, replay of retained events, and handlers that publish and subscribe
  while an event is being delivered. Dispatch is depth first on the thread of the publisher, so the state
  of a dispatch is a stack of what is still to be done; the recursive mutex makes whole dispatches of
  different threads follow each other.

  The list of callbacks is a third-party container (eventpp). What is used of it, as its documentation has
  it: callbacks are called in the order they were appended, one that is appended during a call is not
  called by it, and one that is removed before its turn is not called any more.

  Events, their topics and handlers are parameters: \<open>topicOf\<close> is the type of an event,
  \<open>isRetained\<close> the trait of the generated header, and a handler is known by what it does, given the
  event and the state of all modules: the bus operations it performs and the state it leaves.
\<close>

section \<open>Bus\<close>

datatype ('t, 'e, 'h) busOp =
    Publish 'e
  | Subscribe 't 'h
  | Unsubscribe nat

record ('t, 'e, 'h) Bus =
  bus_callbacks :: "'t \<Rightarrow> (nat \<times> 'h) list"
  bus_retained :: "'t \<Rightarrow> 'e option"
  bus_nextId :: nat
  bus_removers :: "nat \<rightharpoonup> 't"

definition newBus :: "('t, 'e, 'h) Bus" where
  "newBus = \<lparr>bus_callbacks = (\<lambda>_. []), bus_retained = (\<lambda>_. None), bus_nextId = 1, bus_removers = Map.empty\<rparr>"

text \<open>What is still to be done: an operation, the call of a callback of a list, or a replay.\<close>

datatype ('t, 'e, 'h) pending =
    Op "('t, 'e, 'h) busOp"
  | Call nat 'h 'e
  | Replay nat 'h 'e

datatype ('e, 'h) busLog =
    Published 'e
  | Delivered nat 'h 'e

record ('t, 'e, 'h, 's) Dispatch =
  dp_stack :: "('t, 'e, 'h) pending list"
  dp_bus :: "('t, 'e, 'h) Bus"
  dp_modules :: 's
  dp_log :: "('e, 'h) busLog list"

definition bus_publish ::
  "('e \<Rightarrow> 't) \<Rightarrow> ('t \<Rightarrow> bool) \<Rightarrow> 'e \<Rightarrow> ('t, 'e, 'h) Bus \<Rightarrow> ('t, 'e, 'h) pending list \<times> ('t, 'e, 'h) Bus" where
  "bus_publish topicOf isRetained e b =
     (let t = topicOf e;
          b1 = (if isRetained t then b\<lparr>bus_retained := (bus_retained b)(t := Some e)\<rparr> else b)
      in (map (\<lambda>(i, h). Call i h e) (bus_callbacks b1 t), b1))"

definition bus_subscribe ::
  "('t \<Rightarrow> bool) \<Rightarrow> 't \<Rightarrow> 'h \<Rightarrow> ('t, 'e, 'h) Bus \<Rightarrow> nat \<times> ('t, 'e, 'h) pending list \<times> ('t, 'e, 'h) Bus" where
  "bus_subscribe isRetained t h b =
     (let newId = bus_nextId b;
          b1 = b\<lparr>bus_callbacks := (bus_callbacks b)(t := bus_callbacks b t @ [(newId, h)]),
                 bus_nextId := newId + 1,
                 bus_removers := (bus_removers b)(newId \<mapsto> t)\<rparr>
      in (newId,
          if isRetained t then (case bus_retained b1 t of Some e \<Rightarrow> [Replay newId h e] | None \<Rightarrow> []) else [],
          b1))"

definition bus_unsubscribe :: "nat \<Rightarrow> ('t, 'e, 'h) Bus \<Rightarrow> ('t, 'e, 'h) Bus" where
  "bus_unsubscribe i b =
     (case bus_removers b i of
        None \<Rightarrow> b
      | Some t \<Rightarrow>
          b\<lparr>bus_callbacks := (bus_callbacks b)(t := filter (\<lambda>c. fst c \<noteq> i) (bus_callbacks b t)),
            bus_removers := (bus_removers b)(i := None)\<rparr>)"

section \<open>Dispatch\<close>

text \<open>One step takes the topmost entry of the stack; what it gives rise to comes before the rest.\<close>

fun busStep ::
  "('e \<Rightarrow> 't) \<Rightarrow> ('t \<Rightarrow> bool) \<Rightarrow> ('h \<Rightarrow> 'e \<Rightarrow> 's \<Rightarrow> ('t, 'e, 'h) busOp list \<times> 's) \<Rightarrow>
   ('t, 'e, 'h) pending \<Rightarrow> ('t, 'e, 'h, 's) Dispatch \<Rightarrow> ('t, 'e, 'h, 's) Dispatch" where
  "busStep topicOf isRetained react (Op (Publish e)) d =
     (case bus_publish topicOf isRetained e (dp_bus d) of
        (calls, b) \<Rightarrow> d\<lparr>dp_stack := calls @ dp_stack d, dp_bus := b, dp_log := dp_log d @ [Published e]\<rparr>)"
| "busStep topicOf isRetained react (Op (Subscribe t h)) d =
     (case bus_subscribe isRetained t h (dp_bus d) of
        (i, replay, b) \<Rightarrow> d\<lparr>dp_stack := replay @ dp_stack d, dp_bus := b\<rparr>)"
| "busStep topicOf isRetained react (Op (Unsubscribe i)) d = d\<lparr>dp_bus := bus_unsubscribe i (dp_bus d)\<rparr>"
| "busStep topicOf isRetained react (Call i h e) d =
     (if i \<notin> fst ` set (bus_callbacks (dp_bus d) (topicOf e)) then d
      else case react h e (dp_modules d) of
          (ops, s) \<Rightarrow> d\<lparr>dp_stack := map Op ops @ dp_stack d, dp_modules := s, dp_log := dp_log d @ [Delivered i h e]\<rparr>)"
| "busStep topicOf isRetained react (Replay i h e) d =
     (case react h e (dp_modules d) of
        (ops, s) \<Rightarrow> d\<lparr>dp_stack := map Op ops @ dp_stack d, dp_modules := s, dp_log := dp_log d @ [Delivered i h e]\<rparr>)"

inductive bus_steps ::
  "('e \<Rightarrow> 't) \<Rightarrow> ('t \<Rightarrow> bool) \<Rightarrow> ('h \<Rightarrow> 'e \<Rightarrow> 's \<Rightarrow> ('t, 'e, 'h) busOp list \<times> 's) \<Rightarrow>
   ('t, 'e, 'h, 's) Dispatch \<Rightarrow> ('t, 'e, 'h, 's) Dispatch \<Rightarrow> bool"
  for topicOf isRetained react where
  stop: "bus_steps topicOf isRetained react d d"
| step: "dp_stack d = p # rest \<Longrightarrow>
    bus_steps topicOf isRetained react (busStep topicOf isRetained react p (d\<lparr>dp_stack := rest\<rparr>)) d' \<Longrightarrow>
    bus_steps topicOf isRetained react d d'"

text \<open>A module may start an operation whenever no dispatch is under way; \<open>d0\<close> is the past.\<close>

inductive bus_run ::
  "('e \<Rightarrow> 't) \<Rightarrow> ('t \<Rightarrow> bool) \<Rightarrow> ('h \<Rightarrow> 'e \<Rightarrow> 's \<Rightarrow> ('t, 'e, 'h) busOp list \<times> 's) \<Rightarrow>
   ('t, 'e, 'h, 's) Dispatch \<Rightarrow> ('t, 'e, 'h, 's) Dispatch \<Rightarrow> bool"
  for topicOf isRetained react d0 where
  initial: "bus_run topicOf isRetained react d0 d0"
| invoke: "bus_run topicOf isRetained react d0 d \<Longrightarrow> dp_stack d = [] \<Longrightarrow>
    bus_run topicOf isRetained react d0 (d\<lparr>dp_stack := [Op op]\<rparr>)"
| proceed: "bus_run topicOf isRetained react d0 d \<Longrightarrow> dp_stack d = p # rest \<Longrightarrow>
    bus_run topicOf isRetained react d0 (busStep topicOf isRetained react p (d\<lparr>dp_stack := rest\<rparr>))"

definition newDispatch :: "'s \<Rightarrow> ('t, 'e, 'h, 's) Dispatch" where
  "newDispatch s = \<lparr>dp_stack = [], dp_bus = newBus, dp_modules = s, dp_log = []\<rparr>"

section \<open>Invariant\<close>

fun lastPublished :: "('e \<Rightarrow> 't) \<Rightarrow> 't \<Rightarrow> ('e, 'h) busLog list \<Rightarrow> 'e option" where
  "lastPublished topicOf t [] = None"
| "lastPublished topicOf t (Published e # l) =
     (case lastPublished topicOf t l of Some e' \<Rightarrow> Some e' | None \<Rightarrow> if topicOf e = t then Some e else None)"
| "lastPublished topicOf t (Delivered i h e # l) = lastPublished topicOf t l"

lemma lastPublished_append:
  "lastPublished topicOf t (xs @ ys) =
     (case lastPublished topicOf t ys of Some e \<Rightarrow> Some e | None \<Rightarrow> lastPublished topicOf t xs)"
  by (induction topicOf t xs rule: lastPublished.induct) (auto split: option.split)

lemma lastPublished_topic: "lastPublished topicOf t l = Some e \<Longrightarrow> topicOf e = t"
  by (induction topicOf t l rule: lastPublished.induct) (auto split: option.splits if_splits)

fun isReplay :: "('t, 'e, 'h) pending \<Rightarrow> bool" where
  "isReplay (Replay i h e) = True"
| "isReplay _ = False"

text \<open>
  Identifiers are handed out once and never 0, the removers know the list a callback is in, the retained
  values are the last published ones, and a replay is never delayed.
\<close>

definition ids_ok :: "('t, 'e, 'h) Bus \<Rightarrow> bool" where
  "ids_ok b \<longleftrightarrow> 0 < bus_nextId b \<and> bus_removers b 0 = None \<and> (\<forall>i t. bus_removers b i = Some t \<longrightarrow> i < bus_nextId b) \<and>
     (\<forall>t i h. (i, h) \<in> set (bus_callbacks b t) \<longrightarrow> bus_removers b i = Some t) \<and>
     (\<forall>t. distinct (map fst (bus_callbacks b t)))"

definition bus_ok :: "('e \<Rightarrow> 't) \<Rightarrow> ('t \<Rightarrow> bool) \<Rightarrow> ('t, 'e, 'h, 's) Dispatch \<Rightarrow> bool" where
  "bus_ok topicOf isRetained d \<longleftrightarrow> ids_ok (dp_bus d) \<and>
     (\<forall>t. bus_retained (dp_bus d) t = (if isRetained t then lastPublished topicOf t (dp_log d) else None)) \<and>
     (\<forall>p \<in> set (tl (dp_stack d)). \<not> isReplay p)"

lemma ids_subscribe: "ids_ok b \<Longrightarrow> bus_subscribe isRetained t h b = (i, replay, b') \<Longrightarrow> ids_ok b'"
proof -
  assume b: "ids_ok b" and s: "bus_subscribe isRetained t h b = (i, replay, b')"
  have old: "bus_removers b j = Some u" "j \<noteq> bus_nextId b" if "(j, g) \<in> set (bus_callbacks b u)" for j g u
    using b that by (fastforce simp: ids_ok_def)+
  have b': "bus_callbacks b' = (bus_callbacks b)(t := bus_callbacks b t @ [(bus_nextId b, h)])"
    "bus_nextId b' = Suc (bus_nextId b)" "bus_removers b' = (bus_removers b)(bus_nextId b \<mapsto> t)"
    using s by (auto simp: bus_subscribe_def Let_def)
  show ?thesis unfolding ids_ok_def b'
  proof (intro conjI allI impI)
    fix u show "distinct (map fst (((bus_callbacks b)(t := bus_callbacks b t @ [(bus_nextId b, h)])) u))"
      using b old(2) by (force simp: ids_ok_def)
  qed (use b old in \<open>auto simp: ids_ok_def less_Suc_eq split: if_splits\<close>)
qed

lemma ids_unsubscribe: "ids_ok b \<Longrightarrow> ids_ok (bus_unsubscribe i b)"
proof (cases "bus_removers b i")
  case (Some t)
  assume b: "ids_ok b"
  then have "t' = t" if "(i, h) \<in> set (bus_callbacks b t')" for h t' using Some that by (fastforce simp: ids_ok_def)
  then show ?thesis using b Some by (auto simp: ids_ok_def bus_unsubscribe_def distinct_map_filter)
qed (simp add: bus_unsubscribe_def)

lemma retained_unsubscribe [simp]: "bus_retained (bus_unsubscribe i b) = bus_retained b"
  by (simp add: bus_unsubscribe_def split: option.split)

lemma busStep_ok:
  assumes "bus_ok topicOf isRetained d" and "dp_stack d = p # rest"
  shows "bus_ok topicOf isRetained (busStep topicOf isRetained react p (d\<lparr>dp_stack := rest\<rparr>))"
proof -
  have rest: "\<forall>q \<in> set rest. \<not> isReplay q" using assms by (simp add: bus_ok_def)
  have tl_rest: "\<forall>q \<in> set (tl rest). \<not> isReplay q" using rest by (metis list.set_sel(2) tl_Nil)
  have ops: "\<forall>q \<in> set (tl (map Op ops @ rest)). \<not> isReplay q" for ops
    using rest by (cases ops) (auto simp: tl_rest)
  show ?thesis
  proof (cases p)
    case (Op op)
    show ?thesis
    proof (cases op)
      case (Publish e)
      have "\<forall>q \<in> set (tl (map (\<lambda>(i, h). Call i h e) cs @ rest)). \<not> isReplay q" for cs :: "(nat \<times> 'c) list"
        using rest by (cases cs) (auto simp: tl_rest)
      then show ?thesis using assms(1) Op Publish
        by (auto simp: bus_ok_def bus_publish_def Let_def ids_ok_def lastPublished_append)
    next
      case (Subscribe t h)
      obtain i replay b where s: "bus_subscribe isRetained t h (dp_bus d) = (i, replay, b)"
        by (cases "bus_subscribe isRetained t h (dp_bus d)") auto
      then have "bus_retained b = bus_retained (dp_bus d)" "\<forall>q \<in> set (tl (replay @ rest)). \<not> isReplay q"
        using rest tl_rest by (auto simp: bus_subscribe_def Let_def split: if_splits option.splits)
      then show ?thesis using assms(1) Op Subscribe s ids_subscribe [OF _ s] by (simp add: bus_ok_def)
    next
      case (Unsubscribe i)
      then show ?thesis using assms(1) Op ids_unsubscribe [of "dp_bus d" i] tl_rest
        by (simp add: bus_ok_def)
    qed
  next
    case (Call i h e)
    then show ?thesis using assms(1) tl_rest ops
      by (auto simp: bus_ok_def lastPublished_append split: prod.split)
  next
    case (Replay i h e)
    then show ?thesis using assms(1) ops by (auto simp: bus_ok_def lastPublished_append split: prod.split)
  qed
qed

lemma newDispatch_ok: "bus_ok topicOf isRetained (newDispatch s)"
  by (simp add: bus_ok_def newDispatch_def newBus_def ids_ok_def)

lemma bus_run_ok: "bus_run topicOf isRetained react d0 d \<Longrightarrow> bus_ok topicOf isRetained d0 \<Longrightarrow> bus_ok topicOf isRetained d"
proof (induction rule: bus_run.induct)
  case (invoke d op)
  then show ?case by (simp add: bus_ok_def)
next
  case (proceed d p rest)
  then show ?case by (intro busStep_ok) simp_all
qed

lemma bus_steps_ok: "bus_steps topicOf isRetained react d d' \<Longrightarrow> bus_ok topicOf isRetained d \<Longrightarrow> bus_ok topicOf isRetained d'"
  by (induction rule: bus_steps.induct) (auto intro: busStep_ok)

section \<open>Late subscribers\<close>

text \<open>
  Late starters do not miss the current state: whatever was published, subscribed and cancelled before,
  also from within handlers, a new subscriber of a retained event receives the value published last, once
  and before anything else happens.
\<close>

theorem late_subscriber_current:
  assumes "bus_run topicOf isRetained react (newDispatch s) d" and "dp_stack d = Op (Subscribe t h) # rest"
    and "isRetained t" and "lastPublished topicOf t (dp_log d) = Some e"
  shows "\<exists>d1. bus_run topicOf isRetained react (newDispatch s) d1 \<and>
     dp_log d1 = dp_log d @ [Delivered (bus_nextId (dp_bus d)) h e] \<and>
     dp_modules d1 = snd (react h e (dp_modules d)) \<and>
     dp_stack d1 = map Op (fst (react h e (dp_modules d))) @ rest"
proof -
  let ?step = "busStep topicOf isRetained react" and ?i = "bus_nextId (dp_bus d)"
  have "bus_ok topicOf isRetained d" by (rule bus_run_ok [OF assms(1) newDispatch_ok])
  then have "bus_retained (dp_bus d) t = Some e" using assms(3,4) by (simp add: bus_ok_def)
  then obtain b where sub: "bus_subscribe isRetained t h (dp_bus d) = (?i, [Replay ?i h e], b)"
    using assms(3) by (simp add: bus_subscribe_def Let_def)
  define d1 where "d1 = d\<lparr>dp_stack := Replay ?i h e # rest, dp_bus := b\<rparr>"
  have "?step (Op (Subscribe t h)) (d\<lparr>dp_stack := rest\<rparr>) = d1" by (simp add: sub d1_def)
  then have "bus_run topicOf isRetained react (newDispatch s) d1" using bus_run.proceed [OF assms(1,2)] by metis
  moreover have "dp_stack d1 = Replay ?i h e # rest" by (simp add: d1_def)
  ultimately have "bus_run topicOf isRetained react (newDispatch s) (?step (Replay ?i h e) (d1\<lparr>dp_stack := rest\<rparr>))"
    by (rule bus_run.proceed)
  then show ?thesis by (intro exI conjI, assumption) (simp_all add: d1_def split: prod.split)
qed

section \<open>Cancelled subscriptions\<close>

definition deliveries :: "nat \<Rightarrow> ('e, 'h) busLog list \<Rightarrow> ('e, 'h) busLog list" where
  "deliveries i l = filter (\<lambda>x. case x of Delivered j h e \<Rightarrow> j = i | Published e \<Rightarrow> False) l"

lemma deliveries_simps [simp]:
  "deliveries i [] = []"
  "deliveries i (xs @ ys) = deliveries i xs @ deliveries i ys"
  "deliveries i [Published e] = []"
  "deliveries i [Delivered j h e] = (if j = i then [Delivered j h e] else [])"
  by (simp_all add: deliveries_def)

definition cancelled :: "nat \<Rightarrow> ('t, 'e, 'h, 's) Dispatch \<Rightarrow> bool" where
  "cancelled i d \<longleftrightarrow> i < bus_nextId (dp_bus d) \<and> (\<forall>t. i \<notin> fst ` set (bus_callbacks (dp_bus d) t)) \<and>
     (\<forall>h e. Replay i h e \<notin> set (dp_stack d))"

lemma busStep_cancelled:
  fixes d :: "('t, 'e, 'h, 's) Dispatch"
    and topicOf :: "'e \<Rightarrow> 't" and isRetained react p rest i d'
  defines "d' \<equiv> busStep topicOf isRetained react p (d\<lparr>dp_stack := rest\<rparr>)"
  assumes "cancelled i d" and "dp_stack d = p # rest"
  shows "cancelled i d' \<and> deliveries i (dp_log d') = deliveries i (dp_log d)"
proof (cases p)
  case (Op op)
  show ?thesis
  proof (cases op)
    case (Publish e)
    then show ?thesis using assms Op by (auto simp: cancelled_def bus_publish_def Let_def)
  next
    case (Subscribe t h)
    then show ?thesis using assms Op
      by (cases "isRetained t"; cases "bus_retained (dp_bus d) t") (auto simp: cancelled_def bus_subscribe_def Let_def)
  next
    case (Unsubscribe j)
    then show ?thesis using assms Op
      by (cases "bus_removers (dp_bus d) j") (fastforce simp: cancelled_def bus_unsubscribe_def)+
  qed
next
  case (Call j h e)
  then show ?thesis using assms by (auto simp: cancelled_def split: prod.split)
next
  case (Replay j h e)
  then show ?thesis using assms by (auto simp: cancelled_def split: prod.split)
qed

lemma bus_run_cancelled:
  "bus_run topicOf isRetained react d0 d \<Longrightarrow> cancelled i d0 \<Longrightarrow>
   cancelled i d \<and> deliveries i (dp_log d) = deliveries i (dp_log d0)"
proof (induction rule: bus_run.induct)
  case (invoke d op)
  then show ?case by (simp add: cancelled_def)
next
  case (proceed d p rest)
  then show ?case using busStep_cancelled [where i = i and d = d and p = p and rest = rest and topicOf = topicOf and isRetained = isRetained and react = react] by simp
qed simp

text \<open>
  A cancelled subscription is silent: once a subscription has been cancelled, even from within a
  dispatch whose event was still to be delivered to it, its handler is never called again under that
  identifier.
\<close>

theorem unsubscribed_silent:
  assumes "bus_run topicOf isRetained react (newDispatch s) d" and "dp_stack d = Op (Unsubscribe i) # rest"
    and "bus_removers (dp_bus d) i = Some t"
    and "bus_run topicOf isRetained react (busStep topicOf isRetained react (Op (Unsubscribe i)) (d\<lparr>dp_stack := rest\<rparr>)) d'"
  shows "deliveries i (dp_log d') = deliveries i (dp_log d)"
proof -
  have ok: "bus_ok topicOf isRetained d" by (rule bus_run_ok [OF assms(1) newDispatch_ok])
  then have "t' = t" if "(i, h) \<in> set (bus_callbacks (dp_bus d) t')" for t' h
    using that assms(3) by (fastforce simp: bus_ok_def ids_ok_def)
  moreover have "i < bus_nextId (dp_bus d)" using ok assms(3) by (auto simp: bus_ok_def ids_ok_def)
  moreover have "Replay i h e \<notin> set rest" for h e using ok assms(2) by (fastforce simp: bus_ok_def)
  ultimately have "cancelled i (busStep topicOf isRetained react (Op (Unsubscribe i)) (d\<lparr>dp_stack := rest\<rparr>))"
    using assms(3) by (auto simp: cancelled_def bus_unsubscribe_def)
  from bus_run_cancelled [OF assms(4) this] show ?thesis by simp
qed

section \<open>Dispatch ends\<close>

fun opRank :: "('e \<Rightarrow> 't) \<Rightarrow> ('t \<Rightarrow> nat) \<Rightarrow> ('t, 'e, 'h) busOp \<Rightarrow> nat" where
  "opRank topicOf rank (Publish e) = 2 * rank (topicOf e) + 2"
| "opRank topicOf rank (Subscribe t h) = 2 * rank t + 2"
| "opRank topicOf rank (Unsubscribe i) = 0"

fun pendingRank :: "('e \<Rightarrow> 't) \<Rightarrow> ('t \<Rightarrow> nat) \<Rightarrow> ('t, 'e, 'h) pending \<Rightarrow> nat" where
  "pendingRank topicOf rank (Op op) = opRank topicOf rank op"
| "pendingRank topicOf rank (Call i h e) = 2 * rank (topicOf e) + 1"
| "pendingRank topicOf rank (Replay i h e) = 2 * rank (topicOf e) + 1"

text \<open>Handlers only publish and subscribe to topics of a lower rank than the event they handle.\<close>

definition ranked ::
  "('e \<Rightarrow> 't) \<Rightarrow> ('t \<Rightarrow> nat) \<Rightarrow> ('h \<Rightarrow> 'e \<Rightarrow> 's \<Rightarrow> ('t, 'e, 'h) busOp list \<times> 's) \<Rightarrow> bool" where
  "ranked topicOf rank react \<longleftrightarrow>
     (\<forall>h e s. \<forall>op \<in> set (fst (react h e s)). opRank topicOf rank op < 2 * rank (topicOf e) + 1)"

lemma busStep_replaces:
  assumes "ranked topicOf rank react" and "bus_ok topicOf isRetained d" and "dp_stack d = p # rest"
  obtains new where "dp_stack (busStep topicOf isRetained react p (d\<lparr>dp_stack := rest\<rparr>)) = new @ rest"
    and "\<forall>q \<in> set new. pendingRank topicOf rank q < pendingRank topicOf rank p"
proof -
  have ret: "topicOf e = t" if "bus_retained (dp_bus d) t = Some e" "isRetained t" for t e
    using assms(2) that lastPublished_topic by (fastforce simp: bus_ok_def)
  have "\<exists>new. dp_stack (busStep topicOf isRetained react p (d\<lparr>dp_stack := rest\<rparr>)) = new @ rest \<and>
      (\<forall>q \<in> set new. pendingRank topicOf rank q < pendingRank topicOf rank p)"
  proof (cases p)
    case (Op op)
    show ?thesis
    proof (cases op)
      case (Publish e)
      then show ?thesis using Op by (auto simp: bus_publish_def Let_def)
    next
      case (Subscribe t h)
      then show ?thesis using Op ret
        by (cases "isRetained t"; cases "bus_retained (dp_bus d) t") (auto simp: bus_subscribe_def Let_def)
    qed (simp add: Op)
  next
    case (Call i h e)
    then show ?thesis using assms(1) by (cases "react h e (dp_modules d)") (auto simp: ranked_def, (metis fst_conv)+)
  next
    case (Replay i h e)
    then show ?thesis using assms(1) by (cases "react h e (dp_modules d)") (auto simp: ranked_def, (metis fst_conv)+)
  qed
  then show ?thesis using that by blast
qed

text \<open>
  Dispatch ends: as long as handlers only publish and subscribe to topics that lie below the one they
  handle in some ranking, every operation, with all the nested publications, subscriptions and replays it
  causes, comes to its end, however many subscribers there are.
\<close>

lemma dispatch_ends:
  assumes "ranked topicOf rank react" and "bus_ok topicOf isRetained d"
  shows "\<exists>d'. bus_steps topicOf isRetained react d d' \<and> dp_stack d' = []"
  using assms(2)
proof (induction "image_mset (pendingRank topicOf rank) (mset (dp_stack d))" arbitrary: d
    rule: wf_induct_rule [OF wf_mult [OF wf_less_than]])
  case (1 d)
  show ?case
  proof (cases "dp_stack d")
    case (Cons p rest)
    let ?d1 = "busStep topicOf isRetained react p (d\<lparr>dp_stack := rest\<rparr>)"
    obtain new where new: "dp_stack ?d1 = new @ rest"
      "\<forall>q \<in> set new. pendingRank topicOf rank q < pendingRank topicOf rank p"
      by (rule busStep_replaces [OF assms(1) "1.prems" Cons])
    have "(image_mset (pendingRank topicOf rank) (mset rest) + image_mset (pendingRank topicOf rank) (mset new),
        image_mset (pendingRank topicOf rank) (mset rest) + {#pendingRank topicOf rank p#}) \<in> mult less_than"
      using new(2) by (intro one_step_implies_mult) auto
    then have less: "(image_mset (pendingRank topicOf rank) (mset (dp_stack ?d1)),
        image_mset (pendingRank topicOf rank) (mset (dp_stack d))) \<in> mult less_than"
      by (simp add: new(1) Cons add.commute)
    have "\<exists>d'. bus_steps topicOf isRetained react ?d1 d' \<and> dp_stack d' = []"
      by (rule "1.hyps" [OF less busStep_ok [OF "1.prems" Cons]])
    then show ?thesis using bus_steps.step [where d = d, OF Cons] by blast
  qed (auto intro: bus_steps.stop)
qed

section \<open>Delivery\<close>

text \<open>The deliveries of one topic, in order, and handlers that never cancel a subscription.\<close>

definition topicDeliveries :: "('e \<Rightarrow> 't) \<Rightarrow> 't \<Rightarrow> ('e, 'h) busLog list \<Rightarrow> (nat \<times> 'h \<times> 'e) list" where
  "topicDeliveries topicOf t l = List.map_filter
     (\<lambda>x. case x of Delivered i h e \<Rightarrow> if topicOf e = t then Some (i, h, e) else None | Published e \<Rightarrow> None) l"

lemma topicDeliveries_simps [simp]:
  "topicDeliveries topicOf t [] = []"
  "topicDeliveries topicOf t (xs @ ys) = topicDeliveries topicOf t xs @ topicDeliveries topicOf t ys"
  "topicDeliveries topicOf t [Published e] = []"
  "topicDeliveries topicOf t [Delivered i h e] = (if topicOf e = t then [(i, h, e)] else [])"
  by (simp_all add: topicDeliveries_def map_filter_def)

fun keepsSubscriptions :: "('t, 'e, 'h) pending \<Rightarrow> bool" where
  "keepsSubscriptions (Op (Unsubscribe i)) = False"
| "keepsSubscriptions _ = True"

definition neverCancels :: "('h \<Rightarrow> 'e \<Rightarrow> 's \<Rightarrow> ('t, 'e, 'h) busOp list \<times> 's) \<Rightarrow> bool" where
  "neverCancels react \<longleftrightarrow> (\<forall>h e s. \<forall>op \<in> set (fst (react h e s)). keepsSubscriptions (Op op))"

lemma neverCancels_ops:
  "neverCancels react \<Longrightarrow> react h e s = (ops, s') \<Longrightarrow> op \<in> set ops \<Longrightarrow> keepsSubscriptions (Op op)"
  unfolding neverCancels_def by (metis fst_conv)

text \<open>
  While an event is delivered: what handlers have asked for lies below its topic and on top of the stack,
  and the callbacks called so far with those still to be called are the subscribers it was published to.
\<close>

definition delivering ::
  "('e \<Rightarrow> 't) \<Rightarrow> ('t \<Rightarrow> nat) \<Rightarrow> 'e \<Rightarrow> (nat \<times> 'h) list \<Rightarrow> (nat \<times> 'h \<times> 'e) list \<Rightarrow> ('t, 'e, 'h, 's) Dispatch \<Rightarrow> bool" where
  "delivering topicOf rank e cs before d \<longleftrightarrow>
     (\<exists>nested todo called. dp_stack d = nested @ map (\<lambda>(i, h). Call i h e) todo \<and>
        (\<forall>p \<in> set nested. pendingRank topicOf rank p \<le> 2 * rank (topicOf e) \<and> keepsSubscriptions p) \<and>
        called @ todo = cs \<and> bus_callbacks (dp_bus d) (topicOf e) = cs \<and>
        topicDeliveries topicOf (topicOf e) (dp_log d) = before @ map (\<lambda>(i, h). (i, h, e)) called)"

text \<open>An entry below the topic leaves the subscribers of the topic and its deliveries alone.\<close>

lemma busStep_below:
  assumes "ranked topicOf rank react" and "neverCancels react" and "bus_ok topicOf isRetained d"
    and "dp_stack d = p # rest" and "pendingRank topicOf rank p \<le> 2 * rank t" and "keepsSubscriptions p"
  shows "\<exists>new. dp_stack (busStep topicOf isRetained react p (d\<lparr>dp_stack := rest\<rparr>)) = new @ rest \<and>
      (\<forall>q \<in> set new. pendingRank topicOf rank q \<le> 2 * rank t \<and> keepsSubscriptions q)"
    and "bus_callbacks (dp_bus (busStep topicOf isRetained react p (d\<lparr>dp_stack := rest\<rparr>))) t = bus_callbacks (dp_bus d) t"
    and "topicDeliveries topicOf t (dp_log (busStep topicOf isRetained react p (d\<lparr>dp_stack := rest\<rparr>))) =
      topicDeliveries topicOf t (dp_log d)"
proof -
  let ?d = "busStep topicOf isRetained react p (d\<lparr>dp_stack := rest\<rparr>)"
  obtain new where new: "dp_stack ?d = new @ rest"
    "\<forall>q \<in> set new. pendingRank topicOf rank q < pendingRank topicOf rank p"
    by (rule busStep_replaces [OF assms(1,3,4)])
  have keep: "keepsSubscriptions q" if "q \<in> set new" for q
  proof (cases p)
    case (Op op)
    show ?thesis
    proof (cases op)
      case (Subscribe u h)
      then show ?thesis using that new(1) Op
        by (cases "isRetained u"; cases "bus_retained (dp_bus d) u") (auto simp: bus_subscribe_def Let_def)
    qed (use that new(1) Op assms(6) in \<open>auto simp: bus_publish_def Let_def\<close>)
  next
    case (Call i h e)
    then show ?thesis using that new(1) neverCancels_ops [OF assms(2)]
      by (cases "react h e (dp_modules d)") (auto split: if_splits)
  next
    case (Replay i h e)
    then show ?thesis using that new(1) neverCancels_ops [OF assms(2)]
      by (cases "react h e (dp_modules d)") auto
  qed
  show "\<exists>new. dp_stack ?d = new @ rest \<and>
      (\<forall>q \<in> set new. pendingRank topicOf rank q \<le> 2 * rank t \<and> keepsSubscriptions q)"
    using new keep assms(5) by (intro exI [of _ new]) force
  show "bus_callbacks (dp_bus ?d) t = bus_callbacks (dp_bus d) t"
  proof (cases p)
    case (Op op)
    then show ?thesis using assms(5,6) by (cases op) (auto simp: bus_publish_def bus_subscribe_def Let_def)
  qed (auto split: prod.split)
  show "topicDeliveries topicOf t (dp_log ?d) = topicDeliveries topicOf t (dp_log d)"
  proof (cases p)
    case (Op op)
    then show ?thesis by (cases op) (auto simp: bus_publish_def bus_subscribe_def Let_def)
  qed (use assms(5) in \<open>auto split: prod.split\<close>)
qed

lemma busStep_delivering:
  assumes "ranked topicOf rank react" and "neverCancels react" and "bus_ok topicOf isRetained d"
    and "dp_stack d = p # rest" and "delivering topicOf rank e cs before d"
  shows "delivering topicOf rank e cs before (busStep topicOf isRetained react p (d\<lparr>dp_stack := rest\<rparr>))"
proof -
  let ?d = "busStep topicOf isRetained react p (d\<lparr>dp_stack := rest\<rparr>)"
  obtain nested todo called where d: "dp_stack d = nested @ map (\<lambda>(i, h). Call i h e) todo"
    "\<forall>p \<in> set nested. pendingRank topicOf rank p \<le> 2 * rank (topicOf e) \<and> keepsSubscriptions p"
    "called @ todo = cs" "bus_callbacks (dp_bus d) (topicOf e) = cs"
    "topicDeliveries topicOf (topicOf e) (dp_log d) = before @ map (\<lambda>(i, h). (i, h, e)) called"
    using assms(5) unfolding delivering_def by blast
  show ?thesis
  proof (cases nested)
    case Nil
    then obtain i h todo' where todo: "todo = (i, h) # todo'" "p = Call i h e" "rest = map (\<lambda>(i, h). Call i h e) todo'"
      using d(1) assms(4) by (cases todo) auto
    obtain ops s where r: "react h e (dp_modules d) = (ops, s)" by fastforce
    have "i \<in> fst ` set (bus_callbacks (dp_bus d) (topicOf e))" using d(3,4) todo(1) by force
    then have step: "?d = d\<lparr>dp_stack := map Op ops @ rest, dp_modules := s, dp_log := dp_log d @ [Delivered i h e]\<rparr>"
      by (simp add: todo(2) r)
    have "opRank topicOf rank op \<le> 2 * rank (topicOf e)" if "op \<in> set ops" for op
    proof -
      have "\<forall>op \<in> set ops. opRank topicOf rank op < 2 * rank (topicOf e) + 1"
        using assms(1) r unfolding ranked_def by (metis fst_conv)
      then show ?thesis using that by fastforce
    qed
    then show ?thesis unfolding delivering_def step
      using d(3-5) todo(1,3) neverCancels_ops [OF assms(2) r]
      by (intro exI [of _ "map Op ops"] exI [of _ todo'] exI [of _ "called @ [(i, h)]"]) auto
  next
    case (Cons q nested')
    then have p: "p = q" "rest = nested' @ map (\<lambda>(i, h). Call i h e) todo" using d(1) assms(4) by auto
    then have low: "pendingRank topicOf rank p \<le> 2 * rank (topicOf e)" "keepsSubscriptions p" using d(2) Cons by auto
    note below = busStep_below [OF assms(1-4) low]
    obtain new where new: "dp_stack ?d = new @ rest"
      "\<forall>q \<in> set new. pendingRank topicOf rank q \<le> 2 * rank (topicOf e) \<and> keepsSubscriptions q"
      using below(1) by blast
    show ?thesis unfolding delivering_def below(2,3)
      using new d(2-5) Cons p by (intro exI [of _ "new @ nested'"] exI [of _ todo] exI [of _ called]) auto
  qed
qed

lemma bus_steps_delivering:
  "bus_steps topicOf isRetained react d d' \<Longrightarrow> ranked topicOf rank react \<Longrightarrow> neverCancels react \<Longrightarrow>
   bus_ok topicOf isRetained d \<Longrightarrow> delivering topicOf rank e cs before d \<Longrightarrow> delivering topicOf rank e cs before d'"
  by (induction rule: bus_steps.induct) (auto intro: busStep_delivering busStep_ok)


section \<open>Concrete runs\<close>

text \<open>The loop of a dispatch, cut after a number of steps, and a sequence of operations, one dispatch each.\<close>

fun drain ::
  "('e \<Rightarrow> 't) \<Rightarrow> ('t \<Rightarrow> bool) \<Rightarrow> ('h \<Rightarrow> 'e \<Rightarrow> 's \<Rightarrow> ('t, 'e, 'h) busOp list \<times> 's) \<Rightarrow> nat \<Rightarrow>
   ('t, 'e, 'h, 's) Dispatch \<Rightarrow> ('t, 'e, 'h, 's) Dispatch" where
  "drain topicOf isRetained react 0 d = d"
| "drain topicOf isRetained react (Suc n) d =
     (case dp_stack d of
        [] \<Rightarrow> d
      | p # rest \<Rightarrow> drain topicOf isRetained react n (busStep topicOf isRetained react p (d\<lparr>dp_stack := rest\<rparr>)))"

lemma bus_run_drain:
  "bus_run topicOf isRetained react d0 d \<Longrightarrow> bus_run topicOf isRetained react d0 (drain topicOf isRetained react n d)"
  by (induction n arbitrary: d) (auto split: list.split intro: bus_run.proceed)

fun operate ::
  "('e \<Rightarrow> 't) \<Rightarrow> ('t \<Rightarrow> bool) \<Rightarrow> ('h \<Rightarrow> 'e \<Rightarrow> 's \<Rightarrow> ('t, 'e, 'h) busOp list \<times> 's) \<Rightarrow> nat \<Rightarrow>
   ('t, 'e, 'h) busOp list \<Rightarrow> ('t, 'e, 'h, 's) Dispatch \<Rightarrow> ('t, 'e, 'h, 's) Dispatch" where
  "operate topicOf isRetained react n [] d = d"
| "operate topicOf isRetained react n (op # ops) d =
     (if dp_stack d = [] then operate topicOf isRetained react n ops
        (drain topicOf isRetained react n (d\<lparr>dp_stack := [Op op]\<rparr>)) else d)"

lemma bus_run_operate:
  "bus_run topicOf isRetained react d0 d \<Longrightarrow> bus_run topicOf isRetained react d0 (operate topicOf isRetained react n ops d)"
  by (induction ops arbitrary: d) (auto intro: bus_run_drain bus_run.invoke)

text \<open>
  A small system: the handlers of topic 2 publish what they get on the retained topic 1 and cancel
  subscription 3; all count their events.
\<close>

definition relay :: "nat \<Rightarrow> nat \<times> nat \<Rightarrow> nat \<Rightarrow> (nat, nat \<times> nat, nat) busOp list \<times> nat" where
  "relay h e s = (if fst e = 2 then [Publish (1, snd e)] else [], s + 1)"

definition canceller :: "nat \<Rightarrow> nat \<times> nat \<Rightarrow> nat \<Rightarrow> (nat, nat \<times> nat, nat) busOp list \<times> nat" where
  "canceller h e s = (if fst e = 2 \<and> h = 10 then [Unsubscribe 2] else [], s + 1)"


theorem late_subscriber_current_witness:
  "\<exists>d1. bus_run fst ((=) 1) relay (newDispatch 0) d1 \<and>
     dp_log d1 = [Published (2, 7), Delivered 1 10 (2, 7), Published (1, 7), Delivered 2 12 (1, 7)]"
proof -
  let ?d = "operate fst ((=) 1) relay 9 [Subscribe 2 10, Publish (2, 7)] (newDispatch 0)"
  let ?d' = "?d\<lparr>dp_stack := [Op (Subscribe 1 12)]\<rparr>"
  have "dp_stack ?d = []" by code_simp
  then have "bus_run fst ((=) 1) relay (newDispatch 0) ?d'"
    by (intro bus_run.invoke bus_run_operate bus_run.initial)
  moreover have log: "dp_log ?d = [Published (2, 7), Delivered 1 10 (2, 7), Published (1, 7)]" by code_simp
  moreover have "bus_nextId (dp_bus ?d) = 2" by code_simp
  moreover have "lastPublished fst 1 (dp_log ?d') = Some (1, 7)" by code_simp
  ultimately show ?thesis using late_subscriber_current [of fst "(=) 1" relay 0 ?d' 1 12 "[]" "(1, 7)"]
    by (auto simp del: operate.simps)
qed

theorem unsubscribed_silent_witness:
  "\<exists>d d'. dp_stack d = [Op (Unsubscribe 2), Call 2 11 (2, 7)] \<and>
     bus_run fst ((=) 1) canceller (busStep fst ((=) 1) canceller (Op (Unsubscribe 2)) (d\<lparr>dp_stack := [Call 2 11 (2, 7)]\<rparr>)) d' \<and>
     deliveries 1 (dp_log d') = [Delivered 1 10 (2, 7), Delivered 1 10 (2, 8)] \<and> deliveries 2 (dp_log d') = []"
proof -
  let ?start = "operate fst ((=) 1) canceller 9 [Subscribe 2 10, Subscribe 2 11] (newDispatch 0)"
  let ?d = "drain fst ((=) 1) canceller 2 (?start\<lparr>dp_stack := [Op (Publish (2, 7))]\<rparr>)"
  let ?after = "busStep fst ((=) 1) canceller (Op (Unsubscribe 2)) (?d\<lparr>dp_stack := [Call 2 11 (2, 7)]\<rparr>)"
  let ?final = "operate fst ((=) 1) canceller 9 [Publish (2, 8)] (drain fst ((=) 1) canceller 6 ?after)"
  have "dp_stack ?start = []" by code_simp
  then have "bus_run fst ((=) 1) canceller (newDispatch 0) ?d"
    by (intro bus_run_drain bus_run.invoke bus_run_operate bus_run.initial)
  moreover have st: "dp_stack ?d = [Op (Unsubscribe 2), Call 2 11 (2, 7)]" by code_simp
  moreover have "bus_removers (dp_bus ?d) 2 = Some 2" by code_simp
  moreover have run: "bus_run fst ((=) 1) canceller ?after ?final" by (intro bus_run_operate bus_run_drain bus_run.initial)
  ultimately have "deliveries 2 (dp_log ?final) = deliveries 2 (dp_log ?d)" by (rule unsubscribed_silent)
  also have "\<dots> = []" by code_simp
  finally have "deliveries 2 (dp_log ?final) = []" .
  moreover have "deliveries 1 (dp_log ?final) = [Delivered 1 10 (2, 7), Delivered 1 10 (2, 8)]" by code_simp
  ultimately show ?thesis using st run by blast
qed

end
