(* ===== verification/Key_Files.thy ===== *)
theory Key_Files
  imports S2_Session
begin

text \<open>
  The network keys on disk, \<open>src/src/zwave-protocol/security/s0/NetworkKey.cpp\<close> and
  \<open>s2/NetworkKeys.cpp\<close>, with the services that load them at startup. Keys are created once and must
  never change afterwards: a lost key cuts off every secure node.

  The file system is a map from paths to files with their mode; what the operating system may refuse or do
  only in part is an argument of each call. The calls behave as POSIX documents them: an exclusive open
  fails on an existing file, and \<open>write\<close> and \<open>read\<close> may transfer less than asked for.
  Random bytes are arguments.
\<close>

section \<open>Files\<close>

type_synonym fileSystem = "string \<rightharpoonup> nat \<times> bytes"

definition KEY_FILE_MODE :: nat where "KEY_FILE_MODE = 384"
definition S0_KEY_SIZE :: nat where "S0_KEY_SIZE = 16"

text \<open>Whether the size is known and the file can be opened, and how much one \<open>read\<close> gives.\<close>

record readIo =
  ri_sizeOk :: bool
  ri_openOk :: bool
  ri_limit :: nat

text \<open>Whether the file can be created and removed, and how much one \<open>write\<close> takes (\<open>None\<close>: an error).\<close>

record writeIo =
  wi_createOk :: bool
  wi_written :: "nat option"
  wi_removeOk :: bool

definition readExactly :: "nat \<Rightarrow> readIo \<Rightarrow> string \<Rightarrow> fileSystem \<Rightarrow> bytes option" where
  "readExactly n io path fs =
     (case fs path of
        None \<Rightarrow> None
      | Some (mode, content) \<Rightarrow>
          if \<not> ri_sizeOk io \<or> length content \<noteq> n then None
          else if \<not> ri_openOk io then None
          else let got = take (min n (ri_limit io)) content in
               if length got = n then Some got else None)"

definition createExclusively :: "writeIo \<Rightarrow> string \<Rightarrow> bytes \<Rightarrow> fileSystem \<Rightarrow> bool \<times> fileSystem" where
  "createExclusively io path key fs =
     (if \<not> wi_createOk io \<or> fs path \<noteq> None then (False, fs)
      else let put = (case wi_written io of None \<Rightarrow> None | Some got \<Rightarrow> Some (min got (length key)));
               fs1 = fs(path \<mapsto> (KEY_FILE_MODE, take (case put of None \<Rightarrow> 0 | Some got \<Rightarrow> got) key))
           in if put \<noteq> Some (length key)
              then (False, if wi_removeOk io then fs1(path := None) else fs1)
              else (True, fs1))"

section \<open>S0 key\<close>

definition readKeyFile :: "readIo \<Rightarrow> string \<Rightarrow> fileSystem \<Rightarrow> bytes option" where
  "readKeyFile = readExactly S0_KEY_SIZE"

definition writeKeyFileExclusive :: "writeIo \<Rightarrow> string \<Rightarrow> bytes \<Rightarrow> fileSystem \<Rightarrow> bool \<times> fileSystem" where
  "writeKeyFileExclusive = createExclusively"

definition DEFAULT_STATE_DIR :: string where "DEFAULT_STATE_DIR = ''/var/lib/zwaved''"

text \<open>\<open>operator/\<close> of paths, for a relative right-hand side.\<close>

definition pathJoin :: "string \<Rightarrow> string \<Rightarrow> string" where
  "pathJoin a b = (if a = [] \<or> last a = CHR ''/'' then a @ b else a @ ''/'' @ b)"

definition stateDirOr :: "string option \<Rightarrow> string \<Rightarrow> string" where
  "stateDirOr env stateDir =
     (if stateDir \<noteq> [] then stateDir
      else case env of None \<Rightarrow> DEFAULT_STATE_DIR | Some e \<Rightarrow> if e = [] then DEFAULT_STATE_DIR else e)"

definition S0_resolvePath :: "string option \<Rightarrow> string \<Rightarrow> string \<Rightarrow> string" where
  "S0_resolvePath env s0KeyFile stateDir =
     (if s0KeyFile \<noteq> [] then s0KeyFile
      else pathJoin (pathJoin (stateDirOr env stateDir) ''security'') ''s0.key'')"

text \<open>
  What happens around one attempt: the outcome of the first reading, of creating the directories, of
  drawing the key, of writing, and of the second reading; and what other processes do to the files
  between the first reading and the creation, and between that and the second reading.
\<close>

record keyIo =
  ki_first :: readIo
  ki_mkdirOk :: bool
  ki_random :: "bytes option"
  ki_others :: "fileSystem \<Rightarrow> fileSystem"
  ki_write :: writeIo
  ki_later :: "fileSystem \<Rightarrow> fileSystem"
  ki_second :: readIo

record LoadedKey =
  lk_key :: bytes
  lk_generated :: bool

definition S0_loadOrGenerate :: "keyIo \<Rightarrow> string \<Rightarrow> fileSystem \<Rightarrow> LoadedKey option \<times> fileSystem" where
  "S0_loadOrGenerate io path fs =
     (case readKeyFile (ki_first io) path fs of
        Some key \<Rightarrow> (Some \<lparr>lk_key = key, lk_generated = False\<rparr>, fs)
      | None \<Rightarrow>
          if \<not> ki_mkdirOk io then (None, fs)
          else (case ki_random io of
             None \<Rightarrow> (None, fs)
           | Some key \<Rightarrow>
               (case writeKeyFileExclusive (ki_write io) path key (ki_others io fs) of
                  (True, fs1) \<Rightarrow> (Some \<lparr>lk_key = key, lk_generated = True\<rparr>, fs1)
                | (False, fs1) \<Rightarrow>
                    let fs2 = ki_later io fs1 in
                    (case readKeyFile (ki_second io) path fs2 of
                       Some raced \<Rightarrow> (Some \<lparr>lk_key = raced, lk_generated = False\<rparr>, fs2)
                     | None \<Rightarrow> (None, fs2)))))"

section \<open>S2 keys\<close>

definition readKey :: "readIo \<Rightarrow> string \<Rightarrow> fileSystem \<Rightarrow> bytes option" where
  "readKey = readExactly S2_KEY_SIZE"

definition writeKeyExclusive :: "writeIo \<Rightarrow> string \<Rightarrow> bytes \<Rightarrow> fileSystem \<Rightarrow> bool \<times> fileSystem" where
  "writeKeyExclusive = createExclusively"

definition loadOrGenerateOne :: "keyIo \<Rightarrow> string \<Rightarrow> fileSystem \<Rightarrow> LoadedKey option \<times> fileSystem" where
  "loadOrGenerateOne io path fs =
     (case readKey (ki_first io) path fs of
        Some key \<Rightarrow> (Some \<lparr>lk_key = key, lk_generated = False\<rparr>, fs)
      | None \<Rightarrow>
          (case ki_random io of
             None \<Rightarrow> (None, fs)
           | Some key \<Rightarrow>
               (case writeKeyExclusive (ki_write io) path key (ki_others io fs) of
                  (True, fs1) \<Rightarrow> (Some \<lparr>lk_key = key, lk_generated = True\<rparr>, fs1)
                | (False, fs1) \<Rightarrow>
                    let fs2 = ki_later io fs1 in
                    (case readKey (ki_second io) path fs2 of
                       Some raced \<Rightarrow> (Some \<lparr>lk_key = raced, lk_generated = False\<rparr>, fs2)
                     | None \<Rightarrow> (None, fs2)))))"

definition S2_resolveDir :: "string option \<Rightarrow> string \<Rightarrow> string \<Rightarrow> string" where
  "S2_resolveDir env s2KeyDir stateDir =
     (if s2KeyDir \<noteq> [] then s2KeyDir
      else pathJoin (pathJoin (stateDirOr env stateDir) ''security'') ''s2'')"

fun keyFileName :: "KeyClass \<Rightarrow> string" where
  "keyFileName Unauthenticated = ''unauth.key''"
| "keyFileName Authenticated = ''auth.key''"
| "keyFileName AccessControl = ''access.key''"
| "keyFileName S0Compat = ''s0compat.key''"

definition keyClasses :: "KeyClass list" where
  "keyClasses = [Unauthenticated, Authenticated, AccessControl, S0Compat]"

fun loadOrGenerateLoop ::
  "(KeyClass \<Rightarrow> keyIo) \<Rightarrow> string \<Rightarrow> KeyClass list \<Rightarrow> fileSystem \<Rightarrow> LoadedKey list option \<times> fileSystem" where
  "loadOrGenerateLoop io dir [] fs = (Some [], fs)"
| "loadOrGenerateLoop io dir (cls # rest) fs =
     (case loadOrGenerateOne (io cls) (pathJoin dir (keyFileName cls)) fs of
        (None, fs1) \<Rightarrow> (None, fs1)
      | (Some one, fs1) \<Rightarrow>
          (case loadOrGenerateLoop io dir rest fs1 of (ks, fs2) \<Rightarrow> (map_option ((#) one) ks, fs2)))"

definition loadOrGenerateAll :: "bool \<Rightarrow> (KeyClass \<Rightarrow> keyIo) \<Rightarrow> string \<Rightarrow> fileSystem \<Rightarrow> LoadedKey list option \<times> fileSystem" where
  "loadOrGenerateAll mkdirOk io dir fs = (if \<not> mkdirOk then (None, fs) else loadOrGenerateLoop io dir keyClasses fs)"

section \<open>Services\<close>

definition CODE_S0_KEY_FAILED :: byte where "CODE_S0_KEY_FAILED = 0x12"
definition CODE_S2_KEYS_FAILED :: byte where "CODE_S2_KEYS_FAILED = 0x13"
definition KEY_SEVERITY_ERROR :: byte where "KEY_SEVERITY_ERROR = 3"

datatype keyEvent =
    PubKeyError byte string byte string
  | PubS0NetworkKeyReady bool bool
  | PubS2NetworkKeysReady bool bool

text \<open>The holders of the keys overwrite a key before they take another one and when they end.\<close>

definition scrub :: "bytes option \<Rightarrow> bytes option" where
  "scrub key = map_option (\<lambda>k. replicate (length k) 0) key"

definition S0_setCurrent :: "bytes \<Rightarrow> bytes option \<Rightarrow> bytes option" where
  "S0_setCurrent replacement key = (let scrubbed = scrub key in Some replacement)"

definition S2_scrub :: "bytes list option \<Rightarrow> bytes list option" where
  "S2_scrub keys = map_option (map (\<lambda>k. replicate (length k) 0)) keys"

definition S2_setCurrent :: "bytes list \<Rightarrow> bytes list option \<Rightarrow> bytes list option" where
  "S2_setCurrent replacement keys = (let scrubbed = S2_scrub keys in Some replacement)"

definition loadKey ::
  "string option \<Rightarrow> keyIo \<Rightarrow> string \<Rightarrow> string \<Rightarrow> fileSystem \<Rightarrow> bytes option \<Rightarrow> keyEvent list \<times> bytes option \<times> fileSystem" where
  "loadKey env io s0KeyFile stateDir fs current =
     (let path = S0_resolvePath env s0KeyFile stateDir in
      case S0_loadOrGenerate io path fs of
        (None, fs1) \<Rightarrow>
          ([PubKeyError KEY_SEVERITY_ERROR ''zwave-protocol'' CODE_S0_KEY_FAILED (''S0 network key unavailable at '' @ path)],
           current, fs1)
      | (Some loaded, fs1) \<Rightarrow>
          ([PubS0NetworkKeyReady True (lk_generated loaded)], S0_setCurrent (lk_key loaded) current, fs1))"

definition loadKeys ::
  "string option \<Rightarrow> bool \<Rightarrow> (KeyClass \<Rightarrow> keyIo) \<Rightarrow> string \<Rightarrow> string \<Rightarrow> fileSystem \<Rightarrow> bytes list option \<Rightarrow>
   keyEvent list \<times> bytes list option \<times> fileSystem" where
  "loadKeys env mkdirOk io s2KeyDir stateDir fs current =
     (let dir = S2_resolveDir env s2KeyDir stateDir in
      case loadOrGenerateAll mkdirOk io dir fs of
        (None, fs1) \<Rightarrow>
          ([PubKeyError KEY_SEVERITY_ERROR ''zwave-protocol'' CODE_S2_KEYS_FAILED (''S2 network keys unavailable in '' @ dir)],
           current, fs1)
      | (Some loaded, fs1) \<Rightarrow>
          ([PubS2NetworkKeysReady True (list_ex lk_generated loaded)],
           S2_setCurrent (map lk_key loaded) current, fs1))"

section \<open>Processes that start at the same time\<close>

text \<open>
  Several daemons, and one daemon started again and again, work on one key file: the protocol of one
  attempt as steps that may interleave, fail and end with a crash at any point. \<open>ks_seen\<close> is the
  list of keys that were ever loaded.
\<close>

datatype keyPc =
    Start
  | Create bytes
  | Write bytes
  | Remove
  | Reread
  | Loaded bytes bool
  | Failed

record keySystem =
  ks_file :: "(nat \<times> bytes) option"
  ks_pc :: "nat \<Rightarrow> keyPc"
  ks_seen :: "bytes list"

definition goto :: "nat \<Rightarrow> keyPc \<Rightarrow> keySystem \<Rightarrow> keySystem" where
  "goto p c s = s\<lparr>ks_pc := (ks_pc s)(p := c)\<rparr>"

definition loads :: "nat \<Rightarrow> bytes \<Rightarrow> bool \<Rightarrow> keySystem \<Rightarrow> keySystem" where
  "loads p k generated s = s\<lparr>ks_pc := (ks_pc s)(p := Loaded k generated), ks_seen := ks_seen s @ [k]\<rparr>"

inductive keyStep :: "nat \<Rightarrow> keySystem \<Rightarrow> keySystem \<Rightarrow> bool" for n where
  restart: "ks_pc s p \<in> {Failed, Loaded k g} \<Longrightarrow> keyStep n s (goto p Start s)"
| crash: "keyStep n s (goto p Failed s)"
| found: "ks_pc s p = Start \<Longrightarrow> ks_file s = Some (m, k) \<Longrightarrow> length k = n \<Longrightarrow> keyStep n s (loads p k False s)"
| missing: "ks_pc s p = Start \<Longrightarrow> length key = n \<Longrightarrow> keyStep n s (goto p (Create key) s)"
| created: "ks_pc s p = Create key \<Longrightarrow> ks_file s = None \<Longrightarrow>
    keyStep n s (goto p (Write key) (s\<lparr>ks_file := Some (KEY_FILE_MODE, [])\<rparr>))"
| refused: "ks_pc s p = Create key \<Longrightarrow> keyStep n s (goto p Reread s)"
| written: "ks_pc s p = Write key \<Longrightarrow> ks_file s = Some (m, c) \<Longrightarrow>
    keyStep n s (loads p key True (s\<lparr>ks_file := Some (m, key)\<rparr>))"
| short: "ks_pc s p = Write key \<Longrightarrow> ks_file s = Some (m, c) \<Longrightarrow> i < length key \<Longrightarrow>
    keyStep n s (goto p Remove (s\<lparr>ks_file := Some (m, take i key)\<rparr>))"
| removed: "ks_pc s p = Remove \<Longrightarrow> keyStep n s (goto p Reread (s\<lparr>ks_file := None\<rparr>))"
| kept: "ks_pc s p = Remove \<Longrightarrow> keyStep n s (goto p Reread s)"
| raced: "ks_pc s p = Reread \<Longrightarrow> ks_file s = Some (m, k) \<Longrightarrow> length k = n \<Longrightarrow> keyStep n s (loads p k False s)"

fun writing :: "keyPc \<Rightarrow> bool" where
  "writing (Write key) = True"
| "writing Remove = True"
| "writing _ = False"

text \<open>One process at most is writing, only into a file that is not yet a key, and all loaded keys are the file.\<close>

fun drawn :: "keyPc \<Rightarrow> bytes option" where
  "drawn (Create key) = Some key"
| "drawn (Write key) = Some key"
| "drawn _ = None"

definition key_ok :: "nat \<Rightarrow> keySystem \<Rightarrow> bool" where
  "key_ok n s \<longleftrightarrow>
     (\<forall>p q. writing (ks_pc s p) \<longrightarrow> writing (ks_pc s q) \<longrightarrow> p = q) \<and>
     (\<forall>p. writing (ks_pc s p) \<longrightarrow> (\<exists>m c. ks_file s = Some (m, c) \<and> length c < n)) \<and>
     (\<forall>p key. drawn (ks_pc s p) = Some key \<longrightarrow> length key = n) \<and>
     (\<forall>k \<in> set (ks_seen s). length k = n \<and> (\<exists>m. ks_file s = Some (m, k)))"

lemma key_okI:
  assumes "\<And>p q. writing (ks_pc s p) \<Longrightarrow> writing (ks_pc s q) \<Longrightarrow> p = q"
    and "\<And>p. writing (ks_pc s p) \<Longrightarrow> \<exists>m c. ks_file s = Some (m, c) \<and> length c < n"
    and "\<And>p key. drawn (ks_pc s p) = Some key \<Longrightarrow> length key = n"
    and "\<And>k. k \<in> set (ks_seen s) \<Longrightarrow> length k = n \<and> (\<exists>m. ks_file s = Some (m, k))"
  shows "key_ok n s"
  using assms unfolding key_ok_def by blast

lemma key_okD:
  assumes "key_ok n s"
  shows "writing (ks_pc s p) \<Longrightarrow> writing (ks_pc s q) \<Longrightarrow> p = q"
    and "writing (ks_pc s p) \<Longrightarrow> \<exists>m c. ks_file s = Some (m, c) \<and> length c < n"
    and "drawn (ks_pc s p) = Some key \<Longrightarrow> length key = n"
    and "k \<in> set (ks_seen s) \<Longrightarrow> length k = n \<and> (\<exists>m. ks_file s = Some (m, k))"
  using assms unfolding key_ok_def by blast+

lemma goto_ok:
  assumes "key_ok n s" and "\<not> writing c" and "\<And>key. drawn c = Some key \<Longrightarrow> length key = n"
  shows "key_ok n (goto p c s)"
  by (rule key_okI) (use key_okD [OF assms(1)] assms(2,3) in \<open>auto simp: goto_def split: if_splits\<close>)

lemma loads_ok:
  assumes "key_ok n s" and "ks_file s = Some (m, k)" and "length k = n"
  shows "key_ok n (loads p k g s)"
proof -
  have "\<not> writing (ks_pc s q)" for q using key_okD(2) [OF assms(1), of q] assms(2,3) by auto
  then show ?thesis
    by (intro key_okI) (use key_okD(3,4) [OF assms(1)] assms(2,3) in \<open>auto simp: loads_def split: if_splits\<close>)
qed

text \<open>Whoever writes is alone and does so before any key was loaded; what it leaves is again in order.\<close>

lemma writing_step:
  assumes "key_ok n s" and "writing (ks_pc s p) \<or> ks_file s = None"
    and "writing c \<Longrightarrow> \<exists>m d. file = Some (m, d) \<and> length d < n" and "\<And>key. drawn c = Some key \<Longrightarrow> length key = n"
  shows "key_ok n (goto p c (s\<lparr>ks_file := file\<rparr>))"
proof -
  have seen: "k \<notin> set (ks_seen s)" for k
    using key_okD(2) [OF assms(1), of p] key_okD(4) [OF assms(1), of k] assms(2) by auto
  have alone: "\<not> writing (ks_pc s q)" if "q \<noteq> p" for q
    using key_okD(1) [OF assms(1), of q p] key_okD(2) [OF assms(1), of q] assms(2) that by auto
  show ?thesis
  proof (rule key_okI)
    fix q r assume "writing (ks_pc (goto p c (s\<lparr>ks_file := file\<rparr>)) q)" "writing (ks_pc (goto p c (s\<lparr>ks_file := file\<rparr>)) r)"
    then show "q = r" using alone by (simp add: goto_def split: if_splits)
  next
    fix q assume "writing (ks_pc (goto p c (s\<lparr>ks_file := file\<rparr>)) q)"
    then show "\<exists>m d. ks_file (goto p c (s\<lparr>ks_file := file\<rparr>)) = Some (m, d) \<and> length d < n"
      using alone assms(3) by (simp add: goto_def split: if_splits)
  next
    fix q key assume "drawn (ks_pc (goto p c (s\<lparr>ks_file := file\<rparr>)) q) = Some key"
    then show "length key = n" using assms(4) key_okD(3) [OF assms(1)] by (simp add: goto_def split: if_splits)
  next
    fix k assume "k \<in> set (ks_seen (goto p c (s\<lparr>ks_file := file\<rparr>)))"
    then show "length k = n \<and> (\<exists>m. ks_file (goto p c (s\<lparr>ks_file := file\<rparr>)) = Some (m, k))"
      using seen by (simp add: goto_def)
  qed
qed

lemma loads_written: "loads p key True (s\<lparr>ks_file := file\<rparr>) = loads p key True (goto p Reread (s\<lparr>ks_file := file\<rparr>))"
  by (simp add: loads_def goto_def)

lemma keyStep_ok: "keyStep n s s' \<Longrightarrow> 0 < n \<Longrightarrow> key_ok n s \<Longrightarrow> key_ok n s'"
proof (induction rule: keyStep.induct)
  case (created s p key)
  then show ?case using key_okD(3) [OF created(4), of p] by (intro writing_step) auto
next
  case (written s p key m c)
  have "key_ok n (goto p Reread (s\<lparr>ks_file := Some (m, key)\<rparr>))" using written by (intro writing_step) auto
  moreover have "length key = n" using key_okD(3) [OF written(4), of p] written(1) by simp
  ultimately show ?case unfolding loads_written by (intro loads_ok [where m = m]) (simp_all add: goto_def)
next
  case (short s p key m c i)
  then show ?case using key_okD(3) [OF short(5), of p] by (intro writing_step) auto
next
  case (removed s p)
  then show ?case by (intro writing_step) auto
next
  case (found s p m k)
  then show ?case by (intro loads_ok)
next
  case (raced s p m k)
  then show ?case by (intro loads_ok)
qed (auto intro!: goto_ok)

lemma keyRun_ok: "(keyStep n)\<^sup>*\<^sup>* s s' \<Longrightarrow> 0 < n \<Longrightarrow> key_ok n s \<Longrightarrow> key_ok n s'"
  by (induction rule: rtranclp_induct) (auto intro: keyStep_ok)

definition key_start :: "keySystem \<Rightarrow> bool" where
  "key_start s \<longleftrightarrow> ks_seen s = [] \<and> (\<forall>p. ks_pc s p \<in> {Start, Failed})"

lemma key_start_ok:
  assumes "key_start s"
  shows "key_ok n s"
proof -
  have "\<not> writing (ks_pc s p) \<and> drawn (ks_pc s p) = None" for p
  proof -
    have "ks_pc s p = Start \<or> ks_pc s p = Failed" using assms by (simp add: key_start_def)
    then show ?thesis by auto
  qed
  then show ?thesis using assms by (intro key_okI) (auto simp: key_start_def)
qed

text \<open>
  C33: a network key never changes: however many daemons start, fail, crash and start again on one key file,
  in any interleaving and with any fault of the file system, all keys that are ever loaded are one and the
  same, and it is what the file holds.
\<close>

theorem key_never_changes:
  assumes "0 < n" and "key_start s" and "(keyStep n)\<^sup>*\<^sup>* s s'" and "k \<in> set (ks_seen s')"
  shows "length k = n \<and> (\<exists>m. ks_file s' = Some (m, k)) \<and> (\<forall>k' \<in> set (ks_seen s'). k' = k)"
proof -
  have "key_ok n s'" by (rule keyRun_ok [OF assms(3,1) key_start_ok [OF assms(2)]])
  then have seen: "length j = n \<and> (\<exists>m. ks_file s' = Some (m, j))" if "j \<in> set (ks_seen s')" for j
    using that by (rule key_okD(4))
  obtain m where m: "ks_file s' = Some (m, k)" using seen [OF assms(4)] by blast
  have "k' = k" if "k' \<in> set (ks_seen s')" for k' using seen [OF that] m by simp
  then show ?thesis using seen [OF assms(4)] by blast
qed

section \<open>The code follows the protocol\<close>

text \<open>What other processes may do to the file while one attempt is under way: any steps of theirs.\<close>

definition others_act :: "nat \<Rightarrow> nat \<Rightarrow> string \<Rightarrow> (fileSystem \<Rightarrow> fileSystem) \<Rightarrow> bool" where
  "others_act n p path f \<longleftrightarrow>
     (\<forall>s fs. ks_file s = fs path \<longrightarrow>
        (\<exists>s'. (keyStep n)\<^sup>*\<^sup>* s s' \<and> ks_pc s' p = ks_pc s p \<and> ks_file s' = f fs path))"

lemma others_actD:
  assumes "others_act n p path f" and "ks_file s = fs path"
  obtains s' where "(keyStep n)\<^sup>*\<^sup>* s s'" and "ks_pc s' p = ks_pc s p" and "ks_file s' = f fs path"
  using assms unfolding others_act_def by blast

lemma others_act_id: "others_act n p path id"
  unfolding others_act_def by auto

lemma readExactly_Some:
  "readExactly n io path fs = Some k \<Longrightarrow> \<exists>m. fs path = Some (m, k) \<and> length k = n"
  by (auto simp: readExactly_def Let_def split: option.splits if_splits)

lemma createExclusively_steps:
  assumes "ks_pc s p = Create key" and "ks_file s = fs path" and "createExclusively io path key fs = (ok, fs')"
    and "length key = n" and "0 < n"
  shows "\<exists>s'. (keyStep n)\<^sup>*\<^sup>* s s' \<and> ks_file s' = fs' path \<and>
     (if ok then ks_pc s' p = Loaded key True \<and> key \<in> set (ks_seen s') else ks_pc s' p = Reread)"
proof (cases "\<not> wi_createOk io \<or> fs path \<noteq> None")
  case True
  have "keyStep n s (goto p Reread s)" using assms(1) by (rule keyStep.refused)
  then show ?thesis using True assms(2,3) by (intro exI [of _ "goto p Reread s"]) (auto simp: createExclusively_def goto_def)
next
  case False
  let ?c = "goto p (Write key) (s\<lparr>ks_file := Some (KEY_FILE_MODE, [])\<rparr>)"
  let ?i = "case wi_written io of None \<Rightarrow> 0 | Some got \<Rightarrow> min got (length key)"
  have "fs path = None" using False by blast
  then have c: "keyStep n s ?c" using assms(1,2) by (intro keyStep.created) simp_all
  have pc: "ks_pc ?c p = Write key" and fc: "ks_file ?c = Some (KEY_FILE_MODE, [])" by (simp_all add: goto_def)
  show ?thesis
  proof (cases "\<exists>got. wi_written io = Some got \<and> length key \<le> got")
    case True
    then have "ok" "fs' path = Some (KEY_FILE_MODE, key)"
      using False assms(3) by (auto simp: createExclusively_def Let_def min_absorb2)
    moreover have "keyStep n ?c (loads p key True (?c\<lparr>ks_file := Some (KEY_FILE_MODE, key)\<rparr>))"
      by (rule keyStep.written [OF pc fc])
    ultimately show ?thesis using c
      by (intro exI [of _ "loads p key True (?c\<lparr>ks_file := Some (KEY_FILE_MODE, key)\<rparr>)"]) (auto simp: loads_def)
  next
    case short: False
    then have i: "?i < length key" using assms(4,5) by (auto split: option.split)
    have not_ok: "\<not> ok" "fs' path = (if wi_removeOk io then None else Some (KEY_FILE_MODE, take ?i key))"
      using False short assms(3) by (auto simp: createExclusively_def Let_def min_def split: option.splits if_splits)
    let ?r = "goto p Remove (?c\<lparr>ks_file := Some (KEY_FILE_MODE, take ?i key)\<rparr>)"
    have r: "keyStep n ?c ?r" by (rule keyStep.short [OF pc fc i])
    define e where "e = goto p Reread (if wi_removeOk io then ?r\<lparr>ks_file := None\<rparr> else ?r)"
    have "keyStep n ?r e" unfolding e_def
      using keyStep.removed [of ?r p n] keyStep.kept [of ?r p n] by (simp add: goto_def)
    with c r have "(keyStep n)\<^sup>*\<^sup>* s e"
      by (meson r_into_rtranclp rtranclp.rtrancl_into_rtrancl)
    then show ?thesis using not_ok by (intro exI [of _ e]) (simp add: e_def goto_def)
  qed
qed

lemma attempt_steps:
  assumes "ks_pc s p = Start" and "ks_file s = fs path" and "length key = n" and "0 < n"
    and "others_act n p path others" and "others_act n p path later"
    and "createExclusively io path key (others fs) = (ok, fs1)"
  shows "\<exists>s'. (keyStep n)\<^sup>*\<^sup>* s s' \<and>
     (if ok then ks_file s' = fs1 path \<and> ks_pc s' p = Loaded key True \<and> key \<in> set (ks_seen s')
      else ks_file s' = later fs1 path \<and> ks_pc s' p = Reread)"
proof -
  have start: "keyStep n s (goto p (Create key) s)" using assms(1,3) by (rule keyStep.missing)
  let ?c = "goto p (Create key) s"
  have "ks_file ?c = fs path" "ks_pc ?c p = Create key" using assms(2) by (simp_all add: goto_def)
  then obtain s1 where s1: "(keyStep n)\<^sup>*\<^sup>* ?c s1" "ks_pc s1 p = Create key" "ks_file s1 = others fs path"
    using others_actD [where s = ?c and fs = fs, OF assms(5)] by metis
  obtain s2 where s2: "(keyStep n)\<^sup>*\<^sup>* s1 s2" "ks_file s2 = fs1 path"
    "if ok then ks_pc s2 p = Loaded key True \<and> key \<in> set (ks_seen s2) else ks_pc s2 p = Reread"
    using createExclusively_steps [where s = s1 and fs = "others fs", OF s1(2) s1(3) assms(7,3,4)] by blast
  have run: "(keyStep n)\<^sup>*\<^sup>* s s2" using start s1(1) s2(1) by (meson converse_rtranclp_into_rtranclp rtranclp_trans)
  show ?thesis
  proof (cases ok)
    case True
    then show ?thesis using run s2 by auto
  next
    case False
    obtain s3 where "(keyStep n)\<^sup>*\<^sup>* s2 s3" "ks_pc s3 p = ks_pc s2 p" "ks_file s3 = later fs1 path"
      using others_actD [where s = s2 and fs = fs1, OF assms(6) s2(2)] .
    then show ?thesis using run s2(3) False by (intro exI [of _ s3]) (auto intro: rtranclp_trans)
  qed
qed

lemma finishes: "\<exists>s'. (keyStep n)\<^sup>*\<^sup>* s s' \<and> ks_file s' = ks_file s \<and> ks_pc s' p = Failed"
  using keyStep.crash [of n s p] by (intro exI [of _ "goto p Failed s"]) (auto simp: goto_def)

lemma readExactly_steps:
  assumes "ks_pc s p \<in> {Start, Reread}" and "ks_file s = fs path" and "readExactly n io path fs = Some k"
  shows "\<exists>s'. (keyStep n)\<^sup>*\<^sup>* s s' \<and> ks_file s' = fs path \<and> ks_pc s' p = Loaded k False \<and> k \<in> set (ks_seen s')"
proof -
  obtain m where "ks_file s = Some (m, k)" "length k = n" using readExactly_Some [OF assms(3)] assms(2) by auto
  then have "keyStep n s (loads p k False s)" using assms(1) by (auto intro: keyStep.found keyStep.raced)
  then show ?thesis using assms(2) by (intro exI [of _ "loads p k False s"]) (auto simp: loads_def)
qed


section \<open>Restart\<close>

definition quietIo :: "keyIo \<Rightarrow> bool" where
  "quietIo io \<longleftrightarrow> ki_others io = id \<and> ki_later io = id \<and> (\<forall>key. ki_random io = Some key \<longrightarrow> length key = S2_KEY_SIZE)"

definition readable :: "readIo \<Rightarrow> bool" where
  "readable io \<longleftrightarrow> ri_sizeOk io \<and> ri_openOk io \<and> S2_KEY_SIZE \<le> ri_limit io"

definition holdsKey :: "fileSystem \<Rightarrow> string \<Rightarrow> bytes \<Rightarrow> bool" where
  "holdsKey fs path key \<longleftrightarrow> length key = S2_KEY_SIZE \<and> (\<exists>m. fs path = Some (m, key))"

lemma createExclusively_stored:
  "createExclusively io path key fs = (True, fs') \<Longrightarrow> fs' path = Some (KEY_FILE_MODE, key)"
  by (auto simp: createExclusively_def Let_def split: if_splits)

lemma createExclusively_frame: "createExclusively io path key fs = (ok, fs') \<Longrightarrow> q \<noteq> path \<Longrightarrow> fs' q = fs q"
  by (auto simp: createExclusively_def Let_def split: if_splits)

lemma loadOrGenerateOne_stored:
  assumes "loadOrGenerateOne io path fs = (r, fs')" and "quietIo io"
  shows "q \<noteq> path \<Longrightarrow> fs' q = fs q" and "r = Some l \<Longrightarrow> holdsKey fs' path (lk_key l)"
proof -
  have r: "holdsKey g path k" if "readKey rio path g = Some k" for rio g k
    using readExactly_Some that unfolding readKey_def holdsKey_def by blast
  note call = assms(1) [unfolded loadOrGenerateOne_def writeKeyExclusive_def]
  show "fs' q = fs q" if "q \<noteq> path"
    using call assms(2) that createExclusively_frame [where fs = fs and q = q and path = path]
    by (auto simp: quietIo_def Let_def split: option.splits prod.splits bool.splits)
  show "holdsKey fs' path (lk_key l)" if "r = Some l"
    using call assms(2) that r
    by (auto simp: quietIo_def Let_def holdsKey_def dest: createExclusively_stored
        split: option.splits prod.splits bool.splits)
qed

lemma keyPath_inject: "pathJoin dir (keyFileName a) = pathJoin dir (keyFileName b) \<longleftrightarrow> a = b"
  by (cases a; cases b) (simp_all add: pathJoin_def)

lemma loadOrGenerateLoop_stored:
  assumes "loadOrGenerateLoop io dir cs fs = (Some ls, fs')" and "distinct cs" and "\<forall>c. quietIo (io c)"
  shows "list_all2 (\<lambda>c l. holdsKey fs' (pathJoin dir (keyFileName c)) (lk_key l)) cs ls \<and>
     (\<forall>c. c \<notin> set cs \<longrightarrow> fs' (pathJoin dir (keyFileName c)) = fs (pathJoin dir (keyFileName c)))"
  using assms
proof (induction cs arbitrary: fs ls)
  case (Cons c cs)
  obtain l fs1 where one: "loadOrGenerateOne (io c) (pathJoin dir (keyFileName c)) fs = (Some l, fs1)"
    using Cons.prems(1) by (auto split: prod.splits option.splits)
  obtain ls' where loop: "loadOrGenerateLoop io dir cs fs1 = (Some ls', fs')" "ls = l # ls'"
    using Cons.prems(1) one by (auto split: prod.splits)
  have IH: "list_all2 (\<lambda>c l. holdsKey fs' (pathJoin dir (keyFileName c)) (lk_key l)) cs ls'"
    "\<forall>c. c \<notin> set cs \<longrightarrow> fs' (pathJoin dir (keyFileName c)) = fs1 (pathJoin dir (keyFileName c))"
    using Cons.IH [OF loop(1)] Cons.prems(2,3) by simp_all
  note stored = loadOrGenerateOne_stored [OF one spec [OF Cons.prems(3)]]
  have "holdsKey fs' (pathJoin dir (keyFileName c)) (lk_key l)"
    using stored(2) IH(2) Cons.prems(2) by (simp add: holdsKey_def)
  moreover have "fs' (pathJoin dir (keyFileName d)) = fs (pathJoin dir (keyFileName d))" if "d \<notin> set (c # cs)" for d
    using that IH(2) stored(1) by (simp add: keyPath_inject)
  ultimately show ?case using IH(1) loop(2) by simp
qed simp

lemma loadOrGenerateLoop_reads:
  "list_all2 (\<lambda>c l. holdsKey fs (pathJoin dir (keyFileName c)) (lk_key l)) cs ls \<Longrightarrow> \<forall>c. readable (ki_first (io c)) \<Longrightarrow>
   loadOrGenerateLoop io dir cs fs = (Some (map (\<lambda>l. l\<lparr>lk_generated := False\<rparr>) ls), fs)"
proof (induction rule: list_all2_induct)
  case (Cons c cs l ls)
  obtain m where "fs (pathJoin dir (keyFileName c)) = Some (m, lk_key l)" "length (lk_key l) = S2_KEY_SIZE"
    using Cons(1) by (auto simp: holdsKey_def)
  then have "loadOrGenerateOne (io c) (pathJoin dir (keyFileName c)) fs = (Some (l\<lparr>lk_generated := False\<rparr>), fs)"
    using Cons.prems by (auto simp: loadOrGenerateOne_def readKey_def readExactly_def readable_def Let_def)
  then show ?case using Cons.IH [OF Cons.prems] by simp
qed simp

text \<open>
  The S2 keys survive a restart: once the four keys were announced, after whatever faults, a later start
  that can read the files announces the same four keys and generates none.
\<close>

theorem s2_keys_restart:
  assumes "loadKeys env mkdirOk io s2KeyDir stateDir fs current = ([PubS2NetworkKeysReady True g], Some keys, fs')"
    and "\<forall>cls. quietIo (io cls)" and "\<forall>cls. readable (ki_first (io' cls))"
  shows "loadKeys env True io' s2KeyDir stateDir fs' current' = ([PubS2NetworkKeysReady True False], Some keys, fs') \<and>
     (\<forall>cls. holdsKey fs' (pathJoin (S2_resolveDir env s2KeyDir stateDir) (keyFileName cls)) (keyFor keys cls))"
proof -
  let ?dir = "S2_resolveDir env s2KeyDir stateDir"
  obtain ls where ls: "loadOrGenerateLoop io ?dir keyClasses fs = (Some ls, fs')" "keys = map lk_key ls"
    using assms(1) by (auto simp: loadKeys_def loadOrGenerateAll_def S2_setCurrent_def Let_def
        split: prod.splits option.splits if_splits)
  have "distinct keyClasses" by (simp add: keyClasses_def)
  then have stored: "list_all2 (\<lambda>c l. holdsKey fs' (pathJoin ?dir (keyFileName c)) (lk_key l)) keyClasses ls"
    using loadOrGenerateLoop_stored [OF ls(1) _ assms(2)] by blast
  have "loadOrGenerateLoop io' ?dir keyClasses fs' = (Some (map (\<lambda>l. l\<lparr>lk_generated := False\<rparr>) ls), fs')"
    by (rule loadOrGenerateLoop_reads [OF stored assms(3)])
  moreover have "holdsKey fs' (pathJoin ?dir (keyFileName cls)) (keyFor keys cls)" for cls
    using stored ls(2) by (cases cls) (auto simp: keyClasses_def list_all2_Cons1 keyFor_def)
  ultimately show ?thesis using ls(2)
    by (simp add: loadKeys_def loadOrGenerateAll_def S2_setCurrent_def Let_def comp_def list_ex_iff)
qed

text \<open>
  A damaged key file is final: when the file has the wrong size, as after a crash between its creation
  and the writing of the key, every later attempt fails, whatever it may read, draw and write, and the file
  stays as it is.
\<close>

theorem damaged_key_blocks:
  assumes "fs path = Some (m, content)" and "length content \<noteq> S0_KEY_SIZE"
    and "ki_others io = id" and "ki_later io = id"
  shows "fst (S0_loadOrGenerate io path fs) = None \<and> snd (S0_loadOrGenerate io path fs) path = fs path"
  using assms
  by (auto simp: S0_loadOrGenerate_def readKeyFile_def writeKeyFileExclusive_def readExactly_def createExclusively_def
      split: option.split)

section \<open>Concrete runs\<close>

definition goodRead :: readIo where "goodRead = \<lparr>ri_sizeOk = True, ri_openOk = True, ri_limit = 100\<rparr>"

definition goodIo :: "byte \<Rightarrow> keyIo" where
  "goodIo b = \<lparr>ki_first = goodRead, ki_mkdirOk = True, ki_random = Some (replicate 16 b), ki_others = id,
     ki_write = \<lparr>wi_createOk = True, wi_written = Some 16, wi_removeOk = True\<rparr>, ki_later = id, ki_second = goodRead\<rparr>"

definition twoDaemons :: keySystem where
  "twoDaemons = \<lparr>ks_file = None, ks_pc = (\<lambda>_. Start), ks_seen = []\<rparr>"

text \<open>Both daemons miss the file and draw a key; the second one loses the race and reads the key of the first.\<close>

lemma two_daemons_run:
  "\<exists>s. (keyStep 16)\<^sup>*\<^sup>* twoDaemons s \<and> ks_seen s = [replicate 16 1, replicate 16 1] \<and>
     ks_pc s 0 = Loaded (replicate 16 1) True \<and> ks_pc s 1 = Loaded (replicate 16 1) False"
proof -
  let ?k = "replicate 16 1" and ?j = "replicate 16 2 :: bytes"
  define a where "a = goto 1 (Create ?j) (goto 0 (Create ?k) twoDaemons)"
  define b where "b = goto 0 (Write ?k) (a\<lparr>ks_file := Some (KEY_FILE_MODE, [])\<rparr>)"
  define c where "c = goto 1 Reread (loads 0 ?k True (b\<lparr>ks_file := Some (KEY_FILE_MODE, ?k)\<rparr>))"
  define d where "d = loads 1 ?k False c"
  note defs = twoDaemons_def a_def b_def c_def d_def goto_def loads_def
  have "keyStep 16 twoDaemons (goto 0 (Create ?k) twoDaemons)" by (rule keyStep.missing) (simp_all add: defs)
  moreover have "keyStep 16 (goto 0 (Create ?k) twoDaemons) a" unfolding a_def by (rule keyStep.missing) (simp_all add: defs)
  moreover have "keyStep 16 a b" unfolding b_def by (rule keyStep.created) (simp_all add: defs)
  moreover have "keyStep 16 b (loads 0 ?k True (b\<lparr>ks_file := Some (KEY_FILE_MODE, ?k)\<rparr>))"
    by (rule keyStep.written) (simp_all add: defs)
  moreover have "keyStep 16 (loads 0 ?k True (b\<lparr>ks_file := Some (KEY_FILE_MODE, ?k)\<rparr>)) c"
    unfolding c_def by (rule keyStep.refused [where key = ?j]) (simp add: defs)
  moreover have "keyStep 16 c d" unfolding d_def by (rule keyStep.raced [where m = KEY_FILE_MODE]) (simp_all add: defs)
  ultimately have "(keyStep 16)\<^sup>*\<^sup>* twoDaemons d" by (meson converse_rtranclp_into_rtranclp rtranclp.rtrancl_refl)
  then show ?thesis by (intro exI [of _ d]) (simp add: defs)
qed

theorem key_never_changes_witness:
  "\<exists>s. (keyStep 16)\<^sup>*\<^sup>* twoDaemons s \<and> ks_pc s 1 = Loaded (replicate 16 1) False \<and>
     (\<exists>m. ks_file s = Some (m, replicate 16 1))"
proof -
  obtain s where s: "(keyStep 16)\<^sup>*\<^sup>* twoDaemons s" "ks_seen s = [replicate 16 1, replicate 16 1]"
    "ks_pc s 1 = Loaded (replicate 16 1) False" using two_daemons_run by blast
  have "key_start twoDaemons" by (simp add: key_start_def twoDaemons_def)
  then show ?thesis using key_never_changes [of 16 twoDaemons s "replicate 16 1"] s by auto
qed


definition demoKeyDir :: fileSystem where
  "demoKeyDir = snd (snd (loadKeys None True (\<lambda>cls. goodIo (of_nat (classIndex cls))) [] [] Map.empty None))"

lemma demoKeyDir_keys:
  "loadKeys None True (\<lambda>cls. goodIo (of_nat (classIndex cls))) [] [] Map.empty None =
     ([PubS2NetworkKeysReady True True], Some (map (\<lambda>i. replicate 16 (of_nat i)) [0, 1, 2, 3]), demoKeyDir)"
  unfolding demoKeyDir_def
  by (simp add: loadKeys_def loadOrGenerateAll_def keyClasses_def loadOrGenerateOne_def goodIo_def readKey_def
      readExactly_def writeKeyExclusive_def createExclusively_def pathJoin_def Let_def S2_setCurrent_def)

theorem s2_keys_restart_witness:
  "fst (loadKeys None True (\<lambda>cls. goodIo 9) [] [] demoKeyDir None) = [PubS2NetworkKeysReady True False] \<and>
   fst (snd (loadKeys None True (\<lambda>cls. goodIo 9) [] [] demoKeyDir None)) = Some (map (\<lambda>i. replicate 16 (of_nat i)) [0, 1, 2, 3])"
proof -
  have "\<forall>cls. quietIo (goodIo (of_nat (classIndex cls)))" by (simp add: quietIo_def goodIo_def S2_KEY_SIZE_def)
  moreover have "\<forall>cls. readable (ki_first (goodIo 9))" by (simp add: readable_def goodIo_def goodRead_def S2_KEY_SIZE_def)
  ultimately show ?thesis using s2_keys_restart [OF demoKeyDir_keys, of "\<lambda>cls. goodIo 9" None] by simp
qed

theorem damaged_key_blocks_witness: "fst (S0_loadOrGenerate (goodIo 5) ''k'' [''k'' \<mapsto> (KEY_FILE_MODE, [])]) = None"
  using damaged_key_blocks [of "[''k'' \<mapsto> (KEY_FILE_MODE, [])]" "''k''" KEY_FILE_MODE "[]" "goodIo 5"]
  by (simp add: goodIo_def S0_KEY_SIZE_def)

end
