(* ===== verification/Registry_Start.thy ===== *)
theory Registry_Start
  imports Node_Registry Database_Schema Key_Files
begin

text \<open>
  How the node registry starts and what it listens to: \<open>resolveDbPath\<close>, \<open>readSchemaVersion\<close> and
  \<open>initIfNeeded\<close> of \<open>src/src/node-registry/NodeRegistry.cpp\<close>. The database files are a map from paths;
  opening creates a file that is not there. Whether the directory and the file can be opened are arguments. The four
  subscriptions that start here write the reports of the interview into the registry.
\<close>

section \<open>Opening the database\<close>

definition DB_FILENAME :: string where "DB_FILENAME = ''nodes.db''"

definition resolveDbPath :: "string option \<Rightarrow> string \<Rightarrow> string" where
  "resolveDbPath env configuredStateDir = pathJoin (stateDirOr env configuredStateDir) DB_FILENAME"

text \<open>\<open>None\<close> is a statement that cannot be prepared, or gives no row.\<close>

definition readSchemaVersion :: "Database option \<Rightarrow> nat" where
  "readSchemaVersion answer = (case answer of None \<Rightarrow> 0 | Some db \<Rightarrow> db_userVersion db)"

record RegistryStart =
  rg_initDone :: bool
  rg_configuredStateDir :: string
  rg_db :: "string option"

text \<open>
  What the calls give: the retained \<open>StorageConfig\<close> at the time of the subscription, the environment variable, and
  whether creating the directories and opening the file succeed.
\<close>

record startIo =
  si_storage :: "string option"
  si_env :: "string option"
  si_dirOk :: bool
  si_openOk :: bool

definition emptyDatabase :: Database where
  "emptyDatabase = \<lparr>db_tables = Map.empty, db_userVersion = 0\<rparr>"

definition openDb :: "string \<Rightarrow> (string \<rightharpoonup> Database) \<Rightarrow> Database" where
  "openDb path files = (case files path of None \<Rightarrow> emptyDatabase | Some db \<Rightarrow> db)"

definition initIfNeeded :: "startIo \<Rightarrow> (string \<rightharpoonup> Database) \<times> RegistryStart \<Rightarrow> (string \<rightharpoonup> Database) \<times> RegistryStart" where
  "initIfNeeded io = (\<lambda>(files, st).
     if rg_initDone st then (files, st)
     else
       let st1 = st\<lparr>rg_initDone := True,
                   rg_configuredStateDir := (case si_storage io of None \<Rightarrow> rg_configuredStateDir st | Some d \<Rightarrow> d)\<rparr>;
           path = resolveDbPath (si_env io) (rg_configuredStateDir st1)
       in if \<not> si_dirOk io \<or> \<not> si_openOk io then (files, st1)
          else (case migrateSchema (openDb path files) of
                  (ok, db) \<Rightarrow> (files(path \<mapsto> db), if ok then st1\<lparr>rg_db := Some path\<rparr> else st1)))"

section \<open>The reports of the interview\<close>

datatype registryReport =
    ManufacturerReported byte u16 u16 u16
  | VersionReported byte byte byte byte byte byte
  | EndPointsReported byte byte bool bool
  | ZWavePlusReported byte byte byte byte u16 u16

fun onRegistryReport :: "registryReport \<Rightarrow> NodeRegistry \<Rightarrow> NodeRegistry" where
  "onRegistryReport (ManufacturerReported n manufacturer productType product) r = nr_setDeviceIdentity n manufacturer productType product r"
| "onRegistryReport (VersionReported n lib protocol protocolSub app appSub) r = nr_setVersionInfo n lib protocol protocolSub app appSub r"
| "onRegistryReport (EndPointsReported n cnt dynamic identical) r = nr_setEndpointInfo n cnt dynamic identical r"
| "onRegistryReport (ZWavePlusReported n version role nodeType installer user) r = nr_setZWavePlusInfo n version role nodeType installer user r"

section \<open>The database is current\<close>

definition oldOrCurrent :: "Database \<Rightarrow> bool" where
  "oldOrCurrent db \<longleftrightarrow> db_userVersion db = 0 \<or>
     (db_userVersion db \<in> {1, 2, 3, 4, 5} \<and> db_tables db ''nodes'' = Some (shapeOf (db_userVersion db)))"

lemma migrateSchema_current:
  assumes "oldOrCurrent db"
  shows "migrateSchema db = (True, \<lparr>db_tables = (db_tables db)(''nodes'' \<mapsto> nodesColumns), db_userVersion = 5\<rparr>)"
proof -
  consider "db_userVersion db = 0" | "db_userVersion db \<in> {1, 2, 3, 4}" "db_tables db ''nodes'' = Some (shapeOf (db_userVersion db))"
    | "db_userVersion db = 5" "db_tables db ''nodes'' = Some (shapeOf 5)"
    using assms unfolding oldOrCurrent_def by auto
  then show ?thesis
  proof cases
    case 1
    then show ?thesis by (simp add: migrateSchema_def CURRENT_SCHEMA_VERSION_def)
  next
    case 2
    then show ?thesis using migration_reaches_current [OF 2(1) refl 2(2)] by simp
  next
    case 3
    then have "(db_tables db)(''nodes'' \<mapsto> nodesColumns) = db_tables db" by (simp add: fun_upd_idem_iff)
    with 3 show ?thesis by (cases db) (simp add: migrateSchema_def CURRENT_SCHEMA_VERSION_def)
  qed
qed

text \<open>
  The registry opens its database once and finds it current. With a file of any version, or none, and calls that
  succeed, the table of nodes has the columns of the current version afterwards, no other table and no other file
  changes, and whatever the calls would give later, the start is not repeated.
\<close>

theorem registry_opens:
  fixes io :: startIo and files :: "string \<rightharpoonup> Database" and st :: RegistryStart
  defines "path \<equiv> resolveDbPath (si_env io) (case si_storage io of None \<Rightarrow> rg_configuredStateDir st | Some d \<Rightarrow> d)"
  assumes "\<not> rg_initDone st" and "si_dirOk io" and "si_openOk io" and "oldOrCurrent (openDb path files)"
  shows "\<exists>files' st' db. initIfNeeded io (files, st) = (files', st') \<and> rg_db st' = Some path \<and> files' path = Some db \<and>
     db_tables db = (db_tables (openDb path files))(''nodes'' \<mapsto> nodesColumns) \<and> db_userVersion db = 5 \<and>
     (\<forall>other. other \<noteq> path \<longrightarrow> files' other = files other) \<and> (\<forall>io'. initIfNeeded io' (files', st') = (files', st'))"
  using assms(2-4) migrateSchema_current [OF assms(5)] by (simp add: initIfNeeded_def Let_def path_def)

section \<open>Reports reach the next start\<close>

definition identityOf :: "NodeInfo \<Rightarrow> u16 \<times> u16 \<times> u16" where
  "identityOf i = (ni_manufacturerId i, ni_productTypeId i, ni_productId i)"

definition versionOf :: "NodeInfo \<Rightarrow> byte \<times> byte \<times> byte \<times> byte \<times> byte" where
  "versionOf i = (ni_libraryType i, ni_protocolVersion i, ni_protocolSubVersion i, ni_applicationVersion i, ni_applicationSubVersion i)"

definition endpointsOf :: "NodeInfo \<Rightarrow> byte \<times> bool \<times> bool" where
  "endpointsOf i = (ni_endpointCount i, ni_endpointsDynamic i, ni_endpointsIdentical i)"

definition plusOf :: "NodeInfo \<Rightarrow> byte \<times> byte \<times> byte \<times> u16 \<times> u16" where
  "plusOf i = (ni_zwavePlusVersion i, ni_roleType i, ni_nodeType i, ni_installerIconType i, ni_userIconType i)"

fun reportedIdentity where
  "reportedIdentity n (ManufacturerReported m a b c) = (if m = n then Some (a, b, c) else None)" | "reportedIdentity n _ = None"

fun reportedVersion where
  "reportedVersion n (VersionReported m a b c d e) = (if m = n then Some (a, b, c, d, e) else None)" | "reportedVersion n _ = None"

fun reportedEndpoints where
  "reportedEndpoints n (EndPointsReported m a b c) = (if m = n then Some (a, b, c) else None)" | "reportedEndpoints n _ = None"

fun reportedPlus where
  "reportedPlus n (ZWavePlusReported m a b c d e) = (if m = n then Some (a, b, c, d, e) else None)" | "reportedPlus n _ = None"

text \<open>The last report of a kind, if there was one.\<close>

definition lastReported :: "('r \<Rightarrow> 'v option) \<Rightarrow> 'r list \<Rightarrow> 'v \<Rightarrow> 'v" where
  "lastReported pick reports old = (case List.map_filter pick reports of [] \<Rightarrow> old | v # vs \<Rightarrow> last (v # vs))"

definition sameClass :: "NodeInfo \<Rightarrow> NodeInfo \<Rightarrow> bool" where
  "sameClass i i' \<longleftrightarrow> ni_nodeId i' = ni_nodeId i \<and> ni_basicType i' = ni_basicType i \<and> ni_genericType i' = ni_genericType i \<and>
     ni_specificType i' = ni_specificType i \<and> ni_commandClasses i' = ni_commandClasses i \<and> ni_securityScheme i' = ni_securityScheme i"

lemma lastReported_Nil [simp]: "lastReported pick [] old = old"
  by (simp add: lastReported_def)

lemma lastReported_Cons: "lastReported pick (r # rs) old = lastReported pick rs (case pick r of None \<Rightarrow> old | Some v \<Rightarrow> v)"
  by (auto simp: lastReported_def map_filter_simps split: option.splits list.splits)

lemma setColumns_nodes: "nr_nodes (setColumns cols m r) n = (if m = n then map_option cols (nr_nodes r n) else nr_nodes r n)"
  by (auto simp: setColumns_def Let_def split: option.splits)

lemma setColumns_home: "nr_home (setColumns cols m r) = nr_home r" "nr_db (setColumns cols m r) = None \<longleftrightarrow> nr_db r = None"
  by (auto simp: setColumns_def Let_def split: option.splits)

lemma report_step:
  "coherent r \<Longrightarrow> coherent (onRegistryReport rep r)" "nr_home (onRegistryReport rep r) = nr_home r"
  "nr_db (onRegistryReport rep r) = None \<longleftrightarrow> nr_db r = None"
  by (cases rep; simp add: nr_setter_defs setColumns_home coherent_setColumns)+

lemma report_entry:
  assumes "nr_nodes r n = Some i"
  shows "\<exists>i'. nr_nodes (onRegistryReport rep r) n = Some i' \<and> sameClass i i' \<and>
    identityOf i' = (case reportedIdentity n rep of None \<Rightarrow> identityOf i | Some v \<Rightarrow> v) \<and>
    versionOf i' = (case reportedVersion n rep of None \<Rightarrow> versionOf i | Some v \<Rightarrow> v) \<and>
    endpointsOf i' = (case reportedEndpoints n rep of None \<Rightarrow> endpointsOf i | Some v \<Rightarrow> v) \<and>
    plusOf i' = (case reportedPlus n rep of None \<Rightarrow> plusOf i | Some v \<Rightarrow> v)"
  using assms
  by (cases rep) (simp_all add: nr_setter_defs setColumns_nodes sameClass_def identityOf_def versionOf_def endpointsOf_def plusOf_def)

lemma reports_run:
  fixes reports :: "registryReport list" and r :: NodeRegistry
  assumes "coherent r" and "nr_nodes r n = Some i"
  defines "r' \<equiv> fold onRegistryReport reports r"
  shows "coherent r' \<and> nr_home r' = nr_home r \<and> (nr_db r' = None \<longleftrightarrow> nr_db r = None) \<and>
    (\<exists>i'. nr_nodes r' n = Some i' \<and> sameClass i i' \<and>
       identityOf i' = lastReported (reportedIdentity n) reports (identityOf i) \<and>
       versionOf i' = lastReported (reportedVersion n) reports (versionOf i) \<and>
       endpointsOf i' = lastReported (reportedEndpoints n) reports (endpointsOf i) \<and>
       plusOf i' = lastReported (reportedPlus n) reports (plusOf i))"
  using assms(1,2) unfolding r'_def
proof (induction reports arbitrary: r i)
  case Nil
  then show ?case by (simp add: sameClass_def)
next
  case (Cons rep reports)
  obtain i1 where i1: "nr_nodes (onRegistryReport rep r) n = Some i1" "sameClass i i1"
    "identityOf i1 = (case reportedIdentity n rep of None \<Rightarrow> identityOf i | Some v \<Rightarrow> v)"
    "versionOf i1 = (case reportedVersion n rep of None \<Rightarrow> versionOf i | Some v \<Rightarrow> v)"
    "endpointsOf i1 = (case reportedEndpoints n rep of None \<Rightarrow> endpointsOf i | Some v \<Rightarrow> v)"
    "plusOf i1 = (case reportedPlus n rep of None \<Rightarrow> plusOf i | Some v \<Rightarrow> v)"
    using report_entry [OF Cons.prems(2), of rep] by blast
  from Cons.IH [OF report_step(1) [OF Cons.prems(1)] i1(1)] i1(2) show ?case
    by (auto simp: report_step lastReported_Cons i1(3-6) [symmetric] sameClass_def)
qed

text \<open>
  What a node reported about itself survives. After any sequence of reports, of this node and of others, a daemon that
  restarts on the database and is bound to the same network has of every node it knew the identity, the
  versions, the end points and the Z-Wave Plus data that the node reported last, or the earlier ones if it did not; its
  device class, command classes and security scheme are untouched.
\<close>

theorem reports_survive_restart:
  assumes "coherent r" and "nr_home r = Some (formatHomeId home)" and "nr_nodes r n = Some i"
    and "nr_db (fold onRegistryReport reports r) = Some t"
  shows "\<exists>i'. nr_nodes (restarted home t) n = Some i' \<and> sameClass i i' \<and>
     identityOf i' = lastReported (reportedIdentity n) reports (identityOf i) \<and>
     versionOf i' = lastReported (reportedVersion n) reports (versionOf i) \<and>
     endpointsOf i' = lastReported (reportedEndpoints n) reports (endpointsOf i) \<and>
     plusOf i' = lastReported (reportedPlus n) reports (plusOf i)"
proof -
  from reports_run [OF assms(1,3), of reports] assms(2,4)
  have "nr_nodes (restarted home t) = nr_nodes (fold onRegistryReport reports r)"
    by (simp add: restarted_nodes coherent_def)
  with reports_run [OF assms(1,3), of reports] show ?thesis by simp
qed

end
