(* ===== verification/Logger_Queue.thy ===== *)
theory Logger_Queue
  imports Config_File Decimal_Text
begin

text \<open>
  The logger, \<open>src/src/logger/Logger.cpp\<close>: any number of threads append entries to a queue, one
  consumer thread takes them out in batches and writes them, and at the end of the process the queue is
  drained. With the syslog sink, readers of the captured standard streams cut what they read into lines.

  The clock is an argument, \<open>utc\<close> stands for \<open>gmtime_r\<close> with \<open>strftime\<close>. The mutex makes the
  accesses to the queue atomic: they are the steps below, and the threads interleave between them.
\<close>

section \<open>Entries\<close>

type_synonym Level = byte

definition QUEUE_DRAIN_BATCH :: nat where "QUEUE_DRAIN_BATCH = 64"
definition MS_PER_SECOND :: nat where "MS_PER_SECOND = 1000"
definition TIMESTAMP_FRACTIONAL_DIGITS :: nat where "TIMESTAMP_FRACTIONAL_DIGITS = 3"
definition CAPTURE_CHUNK_BYTES :: nat where "CAPTURE_CHUNK_BYTES = 256"

record LogEntry =
  le_level :: Level
  le_timestamp :: nat
  le_message :: string

definition levelTag :: "Level \<Rightarrow> string" where
  "levelTag level =
     (if level = LEVEL_DEBUG then ''DEBUG''
      else if level = LEVEL_INFO then ''INFO ''
      else if level = LEVEL_WARN then ''WARN ''
      else if level = LEVEL_ERROR then ''ERROR''
      else ''?    '')"

text \<open>The severities of \<open>syslog.h\<close>: debug 7, informational 6, warning 4, error 3, notice 5.\<close>

definition levelToSyslog :: "Level \<Rightarrow> nat" where
  "levelToSyslog level =
     (if level = LEVEL_DEBUG then 7
      else if level = LEVEL_INFO then 6
      else if level = LEVEL_WARN then 4
      else if level = LEVEL_ERROR then 3
      else 5)"

definition formatTimestamp :: "(nat \<Rightarrow> string) \<Rightarrow> nat \<Rightarrow> string" where
  "formatTimestamp utc timestamp =
     (let millis = decString (timestamp mod MS_PER_SECOND) in
      utc (timestamp div MS_PER_SECOND) @ ''.'' @
      replicate (TIMESTAMP_FRACTIONAL_DIGITS - length millis) (CHR ''0'') @ millis @ ''Z'')"

definition emitLine :: "(nat \<Rightarrow> string) \<Rightarrow> LogEntry \<Rightarrow> string" where
  "emitLine utc entry =
     ''['' @ formatTimestamp utc (le_timestamp entry) @ ''] ['' @ levelTag (le_level entry) @ ''] '' @
     le_message entry @ [NEWLINE]"

section \<open>Queue\<close>

text \<open>Where the consumer thread is: waiting for entries, writing a batch, or at its end.\<close>

datatype consumer =
    Waiting
  | Emitting "LogEntry list"
  | Ended

record LoggerState =
  lg_running :: bool
  lg_minLevel :: Level
  lg_queue :: "LogEntry list"
  lg_consumer :: consumer
  lg_sink :: "LogEntry list"

definition newLogger :: LoggerState where
  "newLogger = \<lparr>lg_running = True, lg_minLevel = LEVEL_INFO, lg_queue = [], lg_consumer = Waiting, lg_sink = []\<rparr>"

definition pushEntry :: "Level \<Rightarrow> string \<Rightarrow> nat \<Rightarrow> LoggerState \<Rightarrow> LoggerState" where
  "pushEntry level message now st =
     (if level < lg_minLevel st then st
      else st\<lparr>lg_queue := lg_queue st @ [\<lparr>le_level = level, le_timestamp = now, le_message = message\<rparr>]\<rparr>)"

definition setMinLevel :: "Level \<Rightarrow> LoggerState \<Rightarrow> LoggerState" where
  "setMinLevel level st = st\<lparr>lg_minLevel := level\<rparr>"

text \<open>The destructor clears \<open>running\<close> and then waits for the thread.\<close>

definition stopLogger :: "LoggerState \<Rightarrow> LoggerState" where
  "stopLogger st = st\<lparr>lg_running := False\<rparr>"

text \<open>The part of the consumer loop under the lock; the wait ends with an entry or without \<open>running\<close>.\<close>

definition takeBatch :: "LoggerState \<Rightarrow> LoggerState" where
  "takeBatch st =
     (let batch = take QUEUE_DRAIN_BATCH (lg_queue st);
          st1 = st\<lparr>lg_queue := drop QUEUE_DRAIN_BATCH (lg_queue st)\<rparr>
      in if batch = [] \<and> \<not> lg_running st then st1\<lparr>lg_consumer := Ended\<rparr>
         else st1\<lparr>lg_consumer := Emitting batch\<rparr>)"

definition loggerThread :: "LoggerState \<Rightarrow> LoggerState option" where
  "loggerThread st =
     (case lg_consumer st of
        Waiting \<Rightarrow> if lg_queue st \<noteq> [] \<or> \<not> lg_running st then Some (takeBatch st) else None
      | Emitting [] \<Rightarrow> Some (st\<lparr>lg_consumer := Waiting\<rparr>)
      | Emitting (entry # batch) \<Rightarrow> Some (st\<lparr>lg_sink := lg_sink st @ [entry], lg_consumer := Emitting batch\<rparr>)
      | Ended \<Rightarrow> None)"

text \<open>Any interleaving of producers, configuration, shutdown and the consumer; \<open>l\<close> lists the accepted entries.\<close>

inductive loggerRun :: "LoggerState \<Rightarrow> LogEntry list \<Rightarrow> bool" where
  started: "loggerRun newLogger []"
| logged: "loggerRun st l \<Longrightarrow>
    loggerRun (pushEntry level message now st)
      (if level < lg_minLevel st then l else l @ [\<lparr>le_level = level, le_timestamp = now, le_message = message\<rparr>])"
| configured: "loggerRun st l \<Longrightarrow> loggerRun (setMinLevel level st) l"
| stopped: "loggerRun st l \<Longrightarrow> loggerRun (stopLogger st) l"
| consumed: "loggerRun st l \<Longrightarrow> loggerThread st = Some st' \<Longrightarrow> loggerRun st' l"

fun inHand :: "consumer \<Rightarrow> LogEntry list" where
  "inHand (Emitting batch) = batch"
| "inHand _ = []"

text \<open>Nothing is lost, doubled or overtaken: what was written, is in hand or waits is what was accepted.\<close>

definition log_ok :: "LoggerState \<Rightarrow> LogEntry list \<Rightarrow> bool" where
  "log_ok st l \<longleftrightarrow> lg_sink st @ inHand (lg_consumer st) @ lg_queue st = l \<and> length (inHand (lg_consumer st)) \<le> QUEUE_DRAIN_BATCH"

lemma loggerThread_ok: "loggerThread st = Some st' \<Longrightarrow> log_ok st l \<Longrightarrow> log_ok st' l"
proof (cases "lg_consumer st")
  case (Emitting batch)
  assume "loggerThread st = Some st'" "log_ok st l"
  then show ?thesis using Emitting by (cases batch) (auto simp: log_ok_def loggerThread_def)
qed (auto simp: log_ok_def loggerThread_def takeBatch_def Let_def split: if_splits)

lemma loggerRun_ok: "loggerRun st l \<Longrightarrow> log_ok st l"
proof (induction rule: loggerRun.induct)
  case (consumed st l st')
  show ?case by (rule loggerThread_ok [OF consumed(2) consumed.IH])
qed (auto simp: log_ok_def newLogger_def pushEntry_def setMinLevel_def stopLogger_def)

text \<open>The work left for the consumer after the shutdown: it shrinks with every step.\<close>

fun consumerWork :: "consumer \<Rightarrow> nat" where
  "consumerWork Ended = 0"
| "consumerWork Waiting = 1"
| "consumerWork (Emitting batch) = length batch + 2"

definition drainWork :: "LoggerState \<Rightarrow> nat" where
  "drainWork st = 3 * length (lg_queue st) + consumerWork (lg_consumer st)"

lemma takeBatch_work:
  assumes "\<not> lg_running st"
  shows "drainWork (takeBatch st) < 3 * length (lg_queue st) + 1"
proof (cases "lg_queue st = []")
  case True
  then show ?thesis using assms by (simp add: takeBatch_def drainWork_def)
next
  case False
  then have "0 < length (lg_queue st)" by simp
  then show ?thesis using False
    by (cases "length (lg_queue st) \<le> 64")
      (auto simp: takeBatch_def drainWork_def QUEUE_DRAIN_BATCH_def min_def Suc_lessI)
qed

lemma loggerThread_progress:
  assumes "\<not> lg_running st" and "lg_consumer st \<noteq> Ended"
  shows "\<exists>st'. loggerThread st = Some st' \<and> \<not> lg_running st' \<and> drainWork st' < drainWork st \<and>
     (lg_consumer st' = Ended \<longrightarrow> lg_queue st' = [])"
proof (cases "lg_consumer st")
  case Waiting
  have "lg_consumer (takeBatch st) = Ended \<longrightarrow> lg_queue (takeBatch st) = []"
    by (auto simp: takeBatch_def Let_def QUEUE_DRAIN_BATCH_def)
  moreover have "\<not> lg_running (takeBatch st)" using assms(1) by (simp add: takeBatch_def Let_def)
  ultimately show ?thesis using Waiting assms(1) takeBatch_work [OF assms(1)]
    by (simp add: loggerThread_def drainWork_def)
next
  case (Emitting batch)
  then show ?thesis using assms(1) by (cases batch) (auto simp: loggerThread_def drainWork_def)
qed (use assms(2) in simp)

lemma logger_drains:
  "\<not> lg_running st \<Longrightarrow> lg_consumer st \<noteq> Ended \<Longrightarrow> log_ok st l \<Longrightarrow>
   \<exists>st'. (\<lambda>a b. loggerThread a = Some b)\<^sup>*\<^sup>* st st' \<and> log_ok st' l \<and> lg_consumer st' = Ended \<and> lg_queue st' = []"
proof (induction "drainWork st" arbitrary: st rule: less_induct)
  case less
  obtain st' where st': "loggerThread st = Some st'" "\<not> lg_running st'" "drainWork st' < drainWork st"
    "lg_consumer st' = Ended \<longrightarrow> lg_queue st' = []"
    using loggerThread_progress [OF less.prems(1,2)] by blast
  have ok: "log_ok st' l" by (rule loggerThread_ok [OF st'(1) less.prems(3)])
  show ?case
  proof (cases "lg_consumer st' = Ended")
    case True
    then show ?thesis using st' ok by (intro exI [of _ st']) auto
  next
    case False
    from less.hyps [OF st'(3,2) False ok] st'(1) show ?thesis by (meson converse_rtranclp_into_rtranclp)
  qed
qed

text \<open>
  C35: no log entry is lost: whatever threads log, at whatever levels and while the consumer writes, once the
  logger is told to stop its consumer comes to its end having written exactly the accepted entries, in
  the order they were accepted.
\<close>

theorem log_complete:
  assumes "loggerRun st l" and "\<not> lg_running st" and "lg_consumer st \<noteq> Ended"
  shows "\<exists>st'. (\<lambda>a b. loggerThread a = Some b)\<^sup>*\<^sup>* st st' \<and> lg_consumer st' = Ended \<and> lg_sink st' = l"
  using logger_drains [OF assms(2,3) loggerRun_ok [OF assms(1)]] by (fastforce simp: log_ok_def)


definition demoEntry :: "string \<Rightarrow> LogEntry" where
  "demoEntry m = \<lparr>le_level = LEVEL_WARN, le_timestamp = 7, le_message = m\<rparr>"

theorem log_complete_witness:
  "\<exists>st'. (\<lambda>a b. loggerThread a = Some b)\<^sup>*\<^sup>*
       (stopLogger (pushEntry LEVEL_DEBUG ''no'' 8 (pushEntry LEVEL_WARN ''yes'' 7 newLogger))) st' \<and>
     lg_consumer st' = Ended \<and> lg_sink st' = [demoEntry ''yes'']"
proof -
  have "loggerRun (pushEntry LEVEL_WARN ''yes'' 7 newLogger) [demoEntry ''yes'']"
    using loggerRun.logged [OF loggerRun.started, of LEVEL_WARN "''yes''" 7]
    by (simp add: newLogger_def LEVEL_WARN_def LEVEL_INFO_def demoEntry_def)
  from loggerRun.logged [OF this, of LEVEL_DEBUG "''no''" 8]
  have "loggerRun (pushEntry LEVEL_DEBUG ''no'' 8 (pushEntry LEVEL_WARN ''yes'' 7 newLogger)) [demoEntry ''yes'']"
    by (simp add: newLogger_def pushEntry_def LEVEL_DEBUG_def LEVEL_WARN_def LEVEL_INFO_def)
  from loggerRun.stopped [OF this] show ?thesis
    by (rule log_complete) (simp_all add: stopLogger_def pushEntry_def newLogger_def)
qed

section \<open>Captured streams\<close>

datatype readResult =
    Got string
  | Interrupted
  | Eof
  | ReadError

lemma splitFirst_parts: "splitFirst c s = Some (a, b) \<Longrightarrow> s = a @ c # b \<and> c \<notin> set a"
proof -
  assume "splitFirst c s = Some (a, b)"
  then have c: "c \<in> set s" and a: "a = takeWhile (\<lambda>x. x \<noteq> c) s" and b: "b = tl (dropWhile (\<lambda>x. x \<noteq> c) s)"
    by (auto simp: splitFirst_def split: if_splits)
  have "dropWhile (\<lambda>x. x \<noteq> c) s \<noteq> []" using c by (auto simp: dropWhile_eq_Nil_conv)
  then have "dropWhile (\<lambda>x. x \<noteq> c) s = c # b" using b hd_dropWhile [of "\<lambda>x. x \<noteq> c" s] by (metis hd_Cons_tl)
  then have "s = a @ c # b" using a takeWhile_dropWhile_id [of "\<lambda>x. x \<noteq> c" s] by simp
  moreover have "c \<notin> set a" using a by (auto dest: set_takeWhileD)
  ultimately show ?thesis by blast
qed

function takeLines :: "string \<Rightarrow> string list \<times> string" where
  "takeLines buffer =
     (case splitFirst NEWLINE buffer of
        None \<Rightarrow> ([], buffer)
      | Some (line, rest) \<Rightarrow>
          (case takeLines rest of (ls, b) \<Rightarrow> (if line = [] then ls else line # ls, b)))"
  by pat_completeness auto
termination
  by (relation "measure length") (auto dest!: splitFirst_parts)

definition flushLine :: "string \<Rightarrow> string list" where
  "flushLine buffer = (if buffer = [] then [] else [buffer])"

text \<open>The lines a reader hands to the logger, given what its calls of \<open>read\<close> return.\<close>

fun captureReaderLoop :: "readResult list \<Rightarrow> string \<Rightarrow> string list" where
  "captureReaderLoop [] buffer = []"
| "captureReaderLoop (Got chunk # rs) buffer =
     (case takeLines (buffer @ chunk) of (ls, b) \<Rightarrow> ls @ captureReaderLoop rs b)"
| "captureReaderLoop (Interrupted # rs) buffer = captureReaderLoop rs buffer"
| "captureReaderLoop (Eof # rs) buffer = flushLine buffer"
| "captureReaderLoop (ReadError # rs) buffer = flushLine buffer"


definition loggedLines :: "string \<Rightarrow> string list" where
  "loggedLines text = filter (\<lambda>l. l \<noteq> []) (getlines [] text)"

lemma loggedLines_newline:
  "NEWLINE \<notin> set l \<Longrightarrow> loggedLines (l @ NEWLINE # rest) = flushLine l @ loggedLines rest"
  by (simp add: loggedLines_def getlines_line flushLine_def)

lemma getlines_partial: "NEWLINE \<notin> set l \<Longrightarrow> getlines acc l = (if acc @ l = [] then [] else [acc @ l])"
  by (induction l arbitrary: acc) auto

lemma loggedLines_partial: "NEWLINE \<notin> set l \<Longrightarrow> loggedLines l = flushLine l"
  by (simp add: loggedLines_def getlines_partial flushLine_def)

lemma takeLines_spec:
  "takeLines buffer = (ls, b) \<Longrightarrow> NEWLINE \<notin> set b \<and> (\<forall>more. loggedLines (buffer @ more) = ls @ loggedLines (b @ more))"
proof (induction buffer arbitrary: ls b rule: takeLines.induct)
  case (1 buffer)
  show ?case
  proof (cases "splitFirst NEWLINE buffer")
    case None
    then have "ls = []" "b = buffer" using "1.prems" by (simp_all add: takeLines.simps [of buffer])
    then show ?thesis using None by (auto simp: splitFirst_def split: if_splits)
  next
    case (Some p)
    obtain line rest where p: "p = (line, rest)" by fastforce
    note parts = splitFirst_parts [OF Some [unfolded p]]
    obtain ls' b' where t: "takeLines rest = (ls', b')" by fastforce
    then have r: "ls = flushLine line @ ls'" "b = b'"
      using "1.prems" Some p by (auto simp: takeLines.simps [of buffer] flushLine_def)
    have "NEWLINE \<notin> set b'" "\<And>more. loggedLines (rest @ more) = ls' @ loggedLines (b' @ more)"
      using "1.IH" [OF Some p [symmetric] t] by (auto simp: p)
    then show ?thesis using r parts by (simp add: loggedLines_newline)
  qed
qed

fun chunkOf :: "readResult \<Rightarrow> string" where
  "chunkOf (Got chunk) = chunk"
| "chunkOf _ = []"

lemma captureReaderLoop_spec:
  "set rs \<inter> {Eof, ReadError} = {} \<Longrightarrow> NEWLINE \<notin> set buffer \<Longrightarrow> r \<in> {Eof, ReadError} \<Longrightarrow>
   captureReaderLoop (rs @ [r]) buffer = loggedLines (buffer @ concat (map chunkOf rs))"
proof (induction rs arbitrary: buffer)
  case Nil
  then show ?case by (auto simp: loggedLines_partial)
next
  case (Cons x rs)
  show ?case
  proof (cases x)
    case (Got chunk)
    obtain ls b where t: "takeLines (buffer @ chunk) = (ls, b)" by fastforce
    have "NEWLINE \<notin> set b" "loggedLines (buffer @ chunk @ concat (map chunkOf rs)) = ls @ loggedLines (b @ concat (map chunkOf rs))"
      using takeLines_spec [OF t] by simp_all
    then show ?thesis using Cons.IH [of b] Cons.prems Got t by simp
  qed (use Cons in auto)
qed

text \<open>
  What is printed is logged line by line: however the pipe cuts the captured output into chunks and
  however often reading is interrupted, the logged lines are the non-empty lines of the output, with an
  unfinished last line when the stream ends.
\<close>

theorem capture_lines:
  assumes "set rs \<inter> {Eof, ReadError} = {}"
  shows "captureReaderLoop (rs @ [Eof]) [] = filter (\<lambda>l. l \<noteq> []) (getlines [] (concat (map chunkOf rs)))"
  using captureReaderLoop_spec [OF assms, of "[]" Eof] by (simp add: loggedLines_def)

theorem capture_lines_witness:
  "captureReaderLoop [Got ''ab'', Interrupted, Got (''c'' @ [NEWLINE, NEWLINE] @ ''d''), Got ''e'', Eof] [] = [''abc'', ''de'']"
  using capture_lines [of "[Got ''ab'', Interrupted, Got (''c'' @ [NEWLINE, NEWLINE] @ ''d''), Got ''e'']"]
  by simp

end
