(* ===== verification/External_Api.thy ===== *)
theory External_Api
  imports Protocol_Thread Policy_Register Scene_Store Node_Values Thermostat
begin

text \<open>
  The D-Bus side of the daemon, \<open>src/src/external-api/DBusBackend.cpp\<close>: the state it keeps of the bus
  events, and the hand-written methods (\<open>emit...\<close>) that publish commands and give access to the
  stores. Marshalling and the registration of methods are done by sdbus-c++ and by generated code; a
  method is a function of its decoded arguments and of the daemon.
\<close>

section \<open>Cached events\<close>

record NetworkStatus =
  ns_dongleConnected :: bool
  ns_ttyPath :: string
  ns_homeId :: string
  ns_controllerNodeId :: byte
  ns_nodeCount :: u32
  ns_sessionActive :: bool
  ns_sessionCommandId :: byte
  ns_sessionId :: byte
  ns_uptime :: nat

record DaemonError =
  de_severity :: byte
  de_source :: string
  de_code :: byte
  de_message :: string

record Impl =
  im_dongleConnected :: bool
  im_ttyPath :: string
  im_dongleInfo :: DongleInfo
  im_initData :: InitDataResponse
  im_nodes :: "NodeEntry list"
  im_sessionActive :: bool
  im_sessionCommandId :: byte
  im_sessionId :: byte
  im_daemonError :: DaemonError
  im_thermostats :: "GroupKey \<rightharpoonup> LogicalThermostatState"
  im_startTime :: nat

definition newImpl :: "nat \<Rightarrow> Impl" where
  "newImpl now =
     \<lparr>im_dongleConnected = False, im_ttyPath = [],
      im_dongleInfo = \<lparr>di_libraryVersion = [], di_libraryType = 0, di_homeId = [], di_controllerNodeId = 0\<rparr>,
      im_initData = \<lparr>id_serialApiVersion = 0, id_capabilities = 0, id_chipType = 0, id_chipVersion = 0, id_nodeIds = []\<rparr>,
      im_nodes = [], im_sessionActive = False, im_sessionCommandId = 0, im_sessionId = 0,
      im_daemonError = \<lparr>de_severity = 1, de_source = [], de_code = 0, de_message = []\<rparr>,
      im_thermostats = Map.empty, im_startTime = now\<rparr>"

datatype cachedEvent =
    CDongleStatus bool string
  | CDongleInfo DongleInfo
  | CInitData InitDataResponse
  | CNodeListChanged "NodeEntry list"
  | CSessionStatus bool byte byte
  | CDaemonError DaemonError
  | CLogicalThermostatState LogicalThermostatState

text \<open>The subscribers of \<open>DBusBackend::run\<close>.\<close>

fun cacheEvent :: "cachedEvent \<Rightarrow> Impl \<Rightarrow> Impl" where
  "cacheEvent (CDongleStatus connected tty) im = im\<lparr>im_dongleConnected := connected, im_ttyPath := tty\<rparr>"
| "cacheEvent (CDongleInfo info) im = im\<lparr>im_dongleInfo := info\<rparr>"
| "cacheEvent (CInitData info) im = im\<lparr>im_initData := info\<rparr>"
| "cacheEvent (CNodeListChanged nodes) im = im\<lparr>im_nodes := nodes\<rparr>"
| "cacheEvent (CSessionStatus active cmd sid) im =
     im\<lparr>im_sessionActive := active, im_sessionCommandId := cmd, im_sessionId := sid\<rparr>"
| "cacheEvent (CDaemonError err) im = im\<lparr>im_daemonError := err\<rparr>"
| "cacheEvent (CLogicalThermostatState st) im = im\<lparr>im_thermostats := (im_thermostats im)(ls_group st \<mapsto> st)\<rparr>"

definition emitGetNodes :: "Impl \<Rightarrow> (byte \<times> byte \<times> byte \<times> byte \<times> bytes) list" where
  "emitGetNodes im =
     map (\<lambda>n. (en_nodeId n, en_basicType n, en_genericType n, en_specificType n, en_commandClasses n)) (im_nodes im)"

definition emitGetDongleInfo :: "Impl \<Rightarrow> string \<times> byte \<times> bytes \<times> byte" where
  "emitGetDongleInfo im =
     (di_libraryVersion (im_dongleInfo im), di_libraryType (im_dongleInfo im), di_homeId (im_dongleInfo im),
      di_controllerNodeId (im_dongleInfo im))"

definition emitGetInitData :: "Impl \<Rightarrow> byte \<times> byte \<times> bytes \<times> byte \<times> byte" where
  "emitGetInitData im =
     (id_serialApiVersion (im_initData im), id_capabilities (im_initData im), id_nodeIds (im_initData im),
      id_chipType (im_initData im), id_chipVersion (im_initData im))"

definition emitGetNetworkStatus :: "nat \<Rightarrow> Impl \<Rightarrow> NetworkStatus" where
  "emitGetNetworkStatus now im =
     \<lparr>ns_dongleConnected = im_dongleConnected im, ns_ttyPath = im_ttyPath im,
      ns_homeId = formatHomeId (di_homeId (im_dongleInfo im)),
      ns_controllerNodeId = di_controllerNodeId (im_dongleInfo im),
      ns_nodeCount = of_nat (length (im_nodes im)),
      ns_sessionActive = im_sessionActive im, ns_sessionCommandId = im_sessionCommandId im,
      ns_sessionId = im_sessionId im, ns_uptime = now - im_startTime im\<rparr>"

definition emitGetDaemonError :: "Impl \<Rightarrow> byte \<times> string \<times> byte \<times> string" where
  "emitGetDaemonError im =
     (de_severity (im_daemonError im), de_source (im_daemonError im), de_code (im_daemonError im),
      de_message (im_daemonError im))"

definition emitGetLogicalThermostatState ::
  "GroupKey \<Rightarrow> Impl \<Rightarrow> byte \<times> byte \<times> byte \<times> byte \<times> byte \<times> byte \<times> byte \<times> i32" where
  "emitGetLogicalThermostatState key im =
     (case im_thermostats im key of
        None \<Rightarrow> (0, 0, 0, 0, 0, 0, 0, 0)
      | Some st \<Rightarrow> (ls_memberCount st, ls_mode st, ls_operatingState st, ls_fanMode st, ls_setpointType st,
                   ls_setpointScale st, ls_setpointPrecision st, ls_setpointValue st))"

section \<open>Commands\<close>

definition bitSet :: "byte \<Rightarrow> nat \<Rightarrow> bool" where
  "bitSet val b \<longleftrightarrow> val AND push_bit b 1 \<noteq> 0"

definition homeIdFromVector :: "bytes \<Rightarrow> bytes" where
  "homeIdFromVector bs = take 4 bs @ replicate (4 - length bs) 0"

definition emitAddNode :: "byte \<Rightarrow> byte \<Rightarrow> byte \<Rightarrow> bytes \<Rightarrow> bytes \<Rightarrow> busCommand" where
  "emitAddNode mode flags sessionId nwiHomeId authHomeId = AddNodeCommand
     \<lparr>an_mode = mode, an_power = bitSet flags 7, an_nwi = bitSet flags 6, an_protocolLongRange = bitSet flags 5,
      an_skipFlNeighbors = bitSet flags 4, an_sessionId = sessionId,
      an_includeHomeIds = (nwiHomeId \<noteq> [] \<or> authHomeId \<noteq> []),
      an_nwiHomeId = homeIdFromVector nwiHomeId, an_authHomeId = homeIdFromVector authHomeId\<rparr>"

definition emitRemoveNode :: "byte \<Rightarrow> byte \<Rightarrow> byte \<Rightarrow> busCommand" where
  "emitRemoveNode mode flags sessionId = RemoveNodeCommand mode (bitSet flags 7) (bitSet flags 6) sessionId"

definition convertEndpointPairs :: "(byte \<times> byte) list \<Rightarrow> busEndpoint list" where
  "convertEndpointPairs pairs = map (\<lambda>(node, endpoint). (node, endpoint)) pairs"

definition emitSetMultichannelAssociation :: "byte \<Rightarrow> byte \<Rightarrow> bytes \<Rightarrow> (byte \<times> byte) list \<Rightarrow> byte \<Rightarrow> busCommand" where
  "emitSetMultichannelAssociation nodeId groupId nodeMembers endpointMembers callbackId =
     SetMultichannelAssociationCommand nodeId callbackId groupId nodeMembers (convertEndpointPairs endpointMembers)"

definition emitRemoveMultichannelAssociation :: "byte \<Rightarrow> byte \<Rightarrow> bytes \<Rightarrow> (byte \<times> byte) list \<Rightarrow> byte \<Rightarrow> busCommand" where
  "emitRemoveMultichannelAssociation nodeId groupId nodeMembers endpointMembers callbackId =
     RemoveMultichannelAssociationCommand nodeId callbackId groupId nodeMembers (convertEndpointPairs endpointMembers)"

definition emitSetLogicalThermostatMode :: "GroupKey \<Rightarrow> byte \<Rightarrow> thermostatInput" where
  "emitSetLogicalThermostatMode key mode = LogicalModeCommand key mode"

definition emitSetLogicalThermostatSetpoint :: "GroupKey \<Rightarrow> byte \<Rightarrow> byte \<Rightarrow> byte \<Rightarrow> i32 \<Rightarrow> thermostatInput" where
  "emitSetLogicalThermostatSetpoint key setpointType precision scale val =
     LogicalSetpointCommand key \<lparr>sp_type = setpointType, sp_scale = scale, sp_precision = precision, sp_value = val\<rparr>"

section \<open>Access to the stores\<close>

text \<open>\<open>NodeInfoTuple\<close> lists the fields of \<open>NodeInfo\<close> in order; an unknown node gives a zeroed one.\<close>

definition emitGetNodeInfo :: "byte \<Rightarrow> NodeRegistry \<Rightarrow> NodeInfo" where
  "emitGetNodeInfo nodeId reg =
     (case List.find (\<lambda>info. ni_nodeId info = nodeId) (snapshot reg) of
        Some info \<Rightarrow> info
      | None \<Rightarrow> newNodeInfo nodeId)"

definition emitSetDevicePolicy :: "u16 \<Rightarrow> u16 \<Rightarrow> u16 \<Rightarrow> bytes \<Rightarrow> PolicyRegister \<Rightarrow> byte option \<times> PolicyRegister" where
  "emitSetDevicePolicy manufacturerId productTypeId productId policy r =
     (case deserialize policy of
        None \<Rightarrow> (None, r)
      | Some decoded \<Rightarrow> setDevicePolicy
          \<lparr>dv_manufacturerId = manufacturerId, dv_productTypeId = productTypeId, dv_productId = productId\<rparr> decoded r)"

definition emitGetDevicePolicy :: "u16 \<Rightarrow> u16 \<Rightarrow> u16 \<Rightarrow> PolicyRegister \<Rightarrow> bytes" where
  "emitGetDevicePolicy manufacturerId productTypeId productId r =
     (case devicePolicy \<lparr>dv_manufacturerId = manufacturerId, dv_productTypeId = productTypeId, dv_productId = productId\<rparr> r of
        Some policy \<Rightarrow> serialize policy
      | None \<Rightarrow> [])"

definition emitDeleteDevicePolicy :: "u16 \<Rightarrow> u16 \<Rightarrow> u16 \<Rightarrow> PolicyRegister \<Rightarrow> byte option \<times> PolicyRegister" where
  "emitDeleteDevicePolicy manufacturerId productTypeId productId =
     deleteDevicePolicy \<lparr>dv_manufacturerId = manufacturerId, dv_productTypeId = productTypeId, dv_productId = productId\<rparr>"

definition emitListDevicePolicies :: "DeviceId list \<Rightarrow> PolicyRegister \<Rightarrow> (u16 \<times> u16 \<times> u16 \<times> bytes) list" where
  "emitListDevicePolicies rowOrder r =
     map (\<lambda>(d, p). (dv_manufacturerId d, dv_productTypeId d, dv_productId d, serialize p)) (listDevicePolicies rowOrder r)"

definition emitSetNodeOverride :: "byte \<Rightarrow> bytes \<Rightarrow> PolicyRegister \<Rightarrow> byte option \<times> PolicyRegister" where
  "emitSetNodeOverride nodeId policy r =
     (case deserialize policy of None \<Rightarrow> (None, r) | Some decoded \<Rightarrow> setNodeOverride nodeId decoded r)"

definition emitGetNodeOverride :: "byte \<Rightarrow> PolicyRegister \<Rightarrow> bytes" where
  "emitGetNodeOverride nodeId r = (case nodeOverride nodeId r of Some policy \<Rightarrow> serialize policy | None \<Rightarrow> [])"

definition emitDeleteNodeOverride :: "byte \<Rightarrow> PolicyRegister \<Rightarrow> byte option \<times> PolicyRegister" where
  "emitDeleteNodeOverride nodeId r = deleteNodeOverride nodeId r"

definition emitGetEffectivePolicy :: "byte \<Rightarrow> PolicyRegister \<Rightarrow> bytes" where
  "emitGetEffectivePolicy nodeId r = serialize (effectivePolicy nodeId r)"

definition emitSetNodeMetadata :: "byte \<Rightarrow> string \<Rightarrow> string \<Rightarrow> NodeMetadata \<Rightarrow> byte option \<times> NodeMetadata" where
  "emitSetNodeMetadata nodeId key val = md_set nodeId key val"

definition emitGetNodeMetadata :: "byte \<Rightarrow> NodeMetadata \<Rightarrow> (string \<times> string) list" where
  "emitGetNodeMetadata nodeId st = map (\<lambda>(key, val). (key, val)) (md_getAll nodeId st)"

text \<open>The time of a value is cast to 64 unsigned bits.\<close>

definition emitGetNodeValues :: "byte \<Rightarrow> NodeValues \<Rightarrow> (string \<times> string \<times> 64 word) list" where
  "emitGetNodeValues nodeId st =
     map (\<lambda>entry. (ve_valueId entry, ve_value entry, word_of_int (ve_updatedAt entry))) (nv_getAll nodeId st)"

definition emitDeleteNodeMetadata :: "byte \<Rightarrow> string \<Rightarrow> NodeMetadata \<Rightarrow> byte option \<times> NodeMetadata" where
  "emitDeleteNodeMetadata nodeId key = md_remove nodeId key"

definition emitGetNodesByMetadata :: "string \<Rightarrow> string \<Rightarrow> NodeMetadata \<Rightarrow> byte list" where
  "emitGetNodesByMetadata key val = nodesWith key val"

definition convertSceneActions :: "(byte \<times> bytes) list \<Rightarrow> Action list" where
  "convertSceneActions wire = map (\<lambda>(node, payload). \<lparr>ac_targetNodeId = node, ac_ccPayload = payload\<rparr>) wire"

definition emitSetScene :: "string \<Rightarrow> (byte \<times> bytes) list \<Rightarrow> SceneStore \<Rightarrow> SceneStore" where
  "emitSetScene sceneId actions = setScene sceneId (convertSceneActions actions)"

definition emitGetScene :: "string \<Rightarrow> SceneStore \<Rightarrow> (byte \<times> bytes) list" where
  "emitGetScene sceneId st =
     (case getScene sceneId st of
        None \<Rightarrow> []
      | Some actions \<Rightarrow> map (\<lambda>a. (ac_targetNodeId a, ac_ccPayload a)) actions)"

definition emitDeleteScene :: "string \<Rightarrow> SceneStore \<Rightarrow> SceneStore" where
  "emitDeleteScene sceneId = deleteScene sceneId"

definition emitListScenes :: "SceneStore \<Rightarrow> string list" where
  "emitListScenes = listScenes"

definition emitBindSceneTrigger :: "byte \<Rightarrow> byte \<Rightarrow> byte \<Rightarrow> byte \<Rightarrow> string \<Rightarrow> SceneStore \<Rightarrow> SceneStore" where
  "emitBindSceneTrigger source sourceNodeId sceneNumber keyAttribute sceneId =
     bindTrigger (source, sourceNodeId, sceneNumber, keyAttribute) sceneId"

definition emitUnbindSceneTrigger :: "byte \<Rightarrow> byte \<Rightarrow> byte \<Rightarrow> byte \<Rightarrow> SceneStore \<Rightarrow> SceneStore" where
  "emitUnbindSceneTrigger source sourceNodeId sceneNumber keyAttribute =
     unbindTrigger (source, sourceNodeId, sceneNumber, keyAttribute)"

definition emitListSceneTriggers :: "SceneStore \<Rightarrow> (byte \<times> byte \<times> byte \<times> byte \<times> string) list" where
  "emitListSceneTriggers st =
     map (\<lambda>((source, sourceNodeId, sceneNumber, keyAttribute), sceneId).
       (source, sourceNodeId, sceneNumber, keyAttribute, sceneId)) (listTriggers st)"

section \<open>What a client can rely on\<close>

lemma deserializeEntry_fits: "deserializeEntry bs = Some (e, rest) \<Longrightarrow> entryFits e"
  using unat_byte_le [of "tl bs ! 1"]
  by (auto simp: deserializeEntry_def Let_def split: list.splits if_splits)

lemma deserializeEntries_fits:
  "deserializeEntries n bs = Some p \<Longrightarrow> length p = n \<and> list_all entryFits p"
  by (induction n arbitrary: bs p) (auto split: option.splits dest: deserializeEntry_fits)

lemma deserialize_policyFits: "deserialize bs = Some p \<Longrightarrow> policyFits p"
  using unat_byte_le [of "bs ! 1"]
  by (auto simp: deserialize_def policyFits_def split: if_splits dest!: deserializeEntries_fits)

text \<open>
  The policy a client stores over D-Bus is the one it reads back. A blob that does not decode changes
  nothing and announces nothing; any blob that decodes, whatever its bytes, is announced for the node and is
  from then on the node's override, both as read back and as the daemon applies it, and no other node's
  override and no device default changes. Deleting it brings the device default back.
\<close>

theorem dbus_policy_override:
  fixes n :: byte and blob :: bytes
  assumes "pg_ok r"
  defines "res \<equiv> emitSetNodeOverride n blob r"
  shows "(deserialize blob = None \<longrightarrow> res = (None, r)) \<and>
     (\<forall>p. deserialize blob = Some p \<longrightarrow>
        fst res = Some n \<and> deserialize (emitGetNodeOverride n (snd res)) = Some p \<and>
        nodeOverride n (snd res) = Some p \<and>
        (\<forall>m. m \<noteq> n \<longrightarrow> emitGetNodeOverride m (snd res) = emitGetNodeOverride m r) \<and>
        (\<forall>mf pt pi. emitGetDevicePolicy mf pt pi (snd res) = emitGetDevicePolicy mf pt pi r) \<and>
        emitGetNodeOverride n (snd (emitDeleteNodeOverride n (snd res))) = [])"
proof (intro conjI impI allI)
  show "res = (None, r)" if "deserialize blob = None"
    using that by (simp add: res_def emitSetNodeOverride_def)
  fix p assume p: "deserialize blob = Some p"
  then have fits: "policyFits p" by (rule deserialize_policyFits)
  have res: "res = setNodeOverride n p r" using p by (simp add: res_def emitSetNodeOverride_def)
  have get: "nodeOverride m (snd res) = (if m = n then Some p else nodeOverride m r)" for m
    unfolding res using assms(1) fits by (rule nodeOverrides.get_put)
  have ok: "pg_ok (snd res)" unfolding res using assms(1) by (rule nodeOverrides.put_ok)
  show "fst res = Some n" using assms(1) by (auto simp: res pg_ok_def setNodeOverride_def)
  show "deserialize (emitGetNodeOverride n (snd res)) = Some p" "nodeOverride n (snd res) = Some p"
    using get deserialize_fits [OF fits] by (simp_all add: emitGetNodeOverride_def)
  show "emitGetNodeOverride m (snd res) = emitGetNodeOverride m r" if "m \<noteq> n" for m
    using that get by (simp add: emitGetNodeOverride_def)
  show "emitGetDevicePolicy mf pt pi (snd res) = emitGetDevicePolicy mf pt pi r" for mf pt pi
    by (simp add: emitGetDevicePolicy_def res stores_independent)
  show "emitGetNodeOverride n (snd (emitDeleteNodeOverride n (snd res))) = []"
    using nodeOverrides.get_del [OF ok, of n n] by (simp add: emitDeleteNodeOverride_def emitGetNodeOverride_def)
qed

theorem dbus_policy_override_witness:
  "emitSetNodeOverride 7 [1, 1, 9] demoPolicies = (None, demoPolicies) \<and>
   fst (emitSetNodeOverride 7 [1, 1, 3, 0, 0, 14, 16, 1, 0xEE] demoPolicies) = Some 7 \<and>
   deserialize (emitGetNodeOverride 7 (snd (emitSetNodeOverride 7 [1, 1, 3, 0, 0, 14, 16, 1, 0xEE] demoPolicies))) =
     Some [WakeUp \<lparr>pw_intervalSeconds = 3600, pw_notificationNodeId = 1\<rparr>]"
proof -
  have ok: "pg_ok demoPolicies" by (simp add: pg_ok_def demoPolicies_def)
  have bad: "deserialize [1, 1, 9] = None" by code_simp
  have good: "deserialize [1, 1, 3, 0, 0, 14, 16, 1, 0xEE] =
      Some [WakeUp \<lparr>pw_intervalSeconds = 3600, pw_notificationNodeId = 1\<rparr>]" by code_simp
  from dbus_policy_override [OF ok, of "[1, 1, 9]" 7] bad
    dbus_policy_override [OF ok, of "[1, 1, 3, 0, 0, 14, 16, 1, 0xEE]" 7] good
  show ?thesis by simp
qed

text \<open>The registry with the \<open>NodeListChanged\<close> event of every operation, as the backend caches it.\<close>

fun publishedBy :: "registryOp \<Rightarrow> NodeRegistry \<Rightarrow> NodeEntry list option" where
  "publishedBy (RSetHome home) r = fst (nr_setHomeId home r)"
| "publishedBy (RAdd info) r = fst (nr_add info r)"
| "publishedBy (RRemove n) r = fst (nr_remove n r)"
| "publishedBy (RSeed n) r = fst (nr_seed n r)"
| "publishedBy (RCommandClasses n ccs) r = fst (nr_updateCommandClasses n ccs r)"
| "publishedBy (RDeviceClass n b g s) r = fst (nr_updateDeviceClass n b g s r)"
| "publishedBy _ r = None"

definition registryStep :: "registryOp \<Rightarrow> NodeRegistry \<times> Impl \<Rightarrow> NodeRegistry \<times> Impl" where
  "registryStep op s = (case s of (r, im) \<Rightarrow>
     (runRegistryOp op r,
      case publishedBy op r of None \<Rightarrow> im | Some nodes \<Rightarrow> cacheEvent (CNodeListChanged nodes) im))"

definition leanEntry :: "NodeInfo \<Rightarrow> byte \<times> byte \<times> byte \<times> byte \<times> bytes" where
  "leanEntry i = (ni_nodeId i, ni_basicType i, ni_genericType i, ni_specificType i, ni_commandClasses i)"

lemma snapshotEvent_lean: "snapshotEvent r = snapshotEvent r' \<longleftrightarrow> map leanEntry (snapshot r) = map leanEntry (snapshot r')"
  by (auto simp: snapshotEvent_def leanEntry_def list_eq_iff_nth_eq)

lemma nodes_UPDATE_event:
  assumes "\<And>i. leanEntry (cols i) = leanEntry i"
  shows "snapshotEvent (setColumns cols n r) = snapshotEvent r"
proof (cases "nr_nodes r n")
  case (Some i)
  have nodes: "nr_nodes (setColumns cols n r) = (nr_nodes r)(n \<mapsto> cols i)"
    using Some by (auto simp: setColumns_def Let_def split: option.splits)
  have "nodeIds ((nr_nodes r)(n \<mapsto> cols i)) = nodeIds (nr_nodes r)"
    using Some by (auto simp: nodeIds_def intro: filter_cong)
  then show ?thesis
    using Some assms by (simp add: snapshotEvent_lean snapshot_def nodes)
qed (simp add: setColumns_def)

lemma withBoundHome_event:
  assumes "\<And>home. \<not> fst (f home r) \<Longrightarrow> snd (f home r) = r"
  shows "(case fst (withBoundHome f r) of None \<Rightarrow> snapshotEvent r | Some ns \<Rightarrow> ns) = snapshotEvent (snd (withBoundHome f r))"
  using assms by (auto simp: withBoundHome_def split: option.splits prod.splits) (metis fst_conv snd_conv)+

lemma mutator_events:
  "(case fst (nr_add info r) of None \<Rightarrow> snapshotEvent r | Some ns \<Rightarrow> ns) = snapshotEvent (snd (nr_add info r))"
  "(case fst (nr_remove n r) of None \<Rightarrow> snapshotEvent r | Some ns \<Rightarrow> ns) = snapshotEvent (snd (nr_remove n r))"
  "(case fst (nr_seed n r) of None \<Rightarrow> snapshotEvent r | Some ns \<Rightarrow> ns) = snapshotEvent (snd (nr_seed n r))"
  "(case fst (nr_updateCommandClasses n ccs r) of None \<Rightarrow> snapshotEvent r | Some ns \<Rightarrow> ns) =
     snapshotEvent (snd (nr_updateCommandClasses n ccs r))"
  "(case fst (nr_updateDeviceClass n b g s r) of None \<Rightarrow> snapshotEvent r | Some ns \<Rightarrow> ns) =
     snapshotEvent (snd (nr_updateDeviceClass n b g s r))"
  unfolding nr_add_def nr_remove_def nr_seed_def nr_updateCommandClasses_def nr_updateDeviceClass_def
  by (rule withBoundHome_event, force simp: Let_def split: option.splits if_splits)+

lemma published_current:
  "(case publishedBy op r of None \<Rightarrow> snapshotEvent r | Some ns \<Rightarrow> ns) = snapshotEvent (runRegistryOp op r)"
proof (cases op)
  case (RSetHome home)
  then show ?thesis by (simp add: nr_setHomeId_def Let_def)
qed (simp_all add: mutator_events nr_setSecurityScheme_def nr_setDeviceIdentity_def nr_setVersionInfo_def
      nr_setEndpointInfo_def nr_setZWavePlusInfo_def nodes_UPDATE_event leanEntry_def)

lemma cache_current:
  "im_nodes im = snapshotEvent r \<Longrightarrow> fold registryStep ops (r, im) = (r', im') \<Longrightarrow> im_nodes im' = snapshotEvent r'"
proof (induction ops arbitrary: r im)
  case (Cons op ops)
  obtain r1 im1 where step: "registryStep op (r, im) = (r1, im1)" by (rule prod.exhaust)
  then have "im_nodes im1 = snapshotEvent r1"
    using published_current [where op = op and r = r] Cons.prems(1) by (auto simp: registryStep_def split: option.splits)
  with Cons.IH Cons.prems(2) step show ?case by simp
qed simp


lemma nodeIds_single: "nodeIds [n \<mapsto> i] = [n]"
proof -
  have filter_one: "distinct xs \<Longrightarrow> n \<in> set xs \<Longrightarrow> filter (\<lambda>x. x = n) xs = [n]" for xs :: "byte list"
    by (induction xs) (auto simp: filter_empty_conv)
  have "distinct (map of_nat [0 ..< 256] :: byte list)"
    by (auto simp: distinct_map inj_on_def dest: arg_cong [of _ _ unat] simp: unat_of_nat_byte)
  moreover have "n \<in> set (map of_nat [0 ..< 256])"
    by (auto simp: image_iff intro!: bexI [of _ "unat n"])
  ultimately show ?thesis using filter_one by (simp add: nodeIds_def)
qed


lemma bitSet_bit: "bitSet b n \<longleftrightarrow> bit b n"
  by (simp add: bitSet_def push_bit_eq_mult and_exp_eq_0_iff_not_bit)

lemma bit_flag: "bit (if c then x OR push_bit n 1 else x :: byte) k \<longleftrightarrow> bit x k \<or> c \<and> n = k \<and> k < 8"
  by (auto simp: bit_simps)

lemma bit_masks:
  "bit (0x0F :: byte) k \<longleftrightarrow> k < 4" "bit (0xF0 :: byte) k \<longleftrightarrow> k \<in> {4, 5, 6, 7}" "bit (0xC0 :: byte) k \<longleftrightarrow> k \<in> {6, 7}"
proof -
  have masks: "(0x0F :: byte) = mask 4" "(0xF0 :: byte) = push_bit 4 (mask 4)" "(0xC0 :: byte) = push_bit 6 (mask 2)"
    by code_simp+
  show "bit (0x0F :: byte) k \<longleftrightarrow> k < 4" unfolding masks by (auto simp only: bit_mask_iff) auto
  show "bit (0xF0 :: byte) k \<longleftrightarrow> k \<in> {4, 5, 6, 7}" "bit (0xC0 :: byte) k \<longleftrightarrow> k \<in> {6, 7}"
    unfolding masks by (simp_all only: bit_push_bit_iff bit_mask_iff) auto
qed

lemma add_flags:
  "makeFlagByte mode (bitSet flags 7) FLAG_NWI_BIT (bitSet flags 6) FLAG_PROTOCOL_BIT (bitSet flags 5)
     FLAG_SFLND_BIT (bitSet flags 4) = (mode AND 0x0F) OR (flags AND 0xF0)"
  by (rule bit_word_eqI)
    (auto simp only: makeFlagByte_def bitSet_bit host_const_defs Let_def bit_flag bit_masks bit_and_iff bit_or_iff
      insert_iff empty_iff)

lemma remove_flags:
  "encodeRemoveNode \<lparr>rn_mode = mode, rn_power = bitSet flags 7, rn_nwe = bitSet flags 6, rn_sessionId = sid\<rparr> =
     requestFrame CMD_REMOVE_NODE_FROM_NETWORK [(mode AND 0x0F) OR (flags AND 0xC0), sid]"
proof -
  have "(if bitSet flags 6 then (if bitSet flags 7 then mode AND 0x0F OR push_bit 7 1 else mode AND 0x0F) OR push_bit 6 1
      else if bitSet flags 7 then mode AND 0x0F OR push_bit 7 1 else mode AND 0x0F) =
      (mode AND 0x0F) OR (flags AND 0xC0)"
    by (rule bit_word_eqI)
      (auto simp only: bitSet_bit bit_flag bit_masks bit_and_iff bit_or_iff insert_iff empty_iff)
  then show ?thesis by (simp only: encodeRemoveNode_def host_const_defs Let_def RemoveNodeRequest.simps)
qed

lemma pushRequest_inject: "pushRequest q pt = pushRequest q' pt \<longleftrightarrow> q = q'"
  by (auto simp: pushRequest_def dest: arg_cong [of _ _ pt_queue])

text \<open>
  The flag byte of the D-Bus methods is the flag byte of the Host API. \<open>AddNode\<close> queues one request
  whose frame is the inclusion command with the mode in the low four bits and the client's flags unchanged in
  the high four, then the session id, then the home ids the client gave, if any: the first four bytes, padded with zeros, the
  second only for a SmartStart inclusion. \<open>RemoveNode\<close> passes the top two flags only.
\<close>

theorem dbus_inclusion_frame:
  fixes mode flags sid :: byte
  shows "(\<exists>q. onBusCommand g (emitAddNode mode flags sid nwi auth) pt = ([], pushRequest q pt) \<and>
      encodeRequest q = requestFrame CMD_ADD_NODE_TO_NETWORK
        ([(mode AND 0x0F) OR (flags AND 0xF0), sid] @
         (if nwi = [] \<and> auth = [] then []
          else homeIdFromVector nwi @ (if mode = ADD_MODE_SMART_START_INCLUDE then homeIdFromVector auth else [])))) \<and>
    (\<exists>q. onBusCommand g (emitRemoveNode mode flags sid) pt = ([], pushRequest q pt) \<and>
      encodeRequest q = requestFrame CMD_REMOVE_NODE_FROM_NETWORK [(mode AND 0x0F) OR (flags AND 0xC0), sid])"
  by (simp add: emitAddNode_def onAddNodeCommand_def encodeAddNode_def emitRemoveNode_def onRemoveNodeCommand_def
      pushRequest_inject add_flags remove_flags)

end
