(* ===== verification/Terminal_Input.thy ===== *)
theory Terminal_Input
  imports Decimal_Text Node_Registry "HOL-Library.State_Monad"
begin

text \<open>
  The state of the terminal client (\<open>src/utils/zwave-terminal\<close>) and the prompts of its bottom row:
  \<open>activity.cpp\<close>, the data of \<open>nodes.hpp\<close>, and \<open>prompts.cpp\<close> with what it uses of
  the C++ number parsers. Handlers are actions of a state monad over the console; what the user will type is part of
  the console, and the daemon at the other end of D-Bus is a parameter of its type.
\<close>

section \<open>Constants\<close>

definition NODE_ID_MIN :: int where "NODE_ID_MIN = 1"
definition NODE_ID_MAX :: int where "NODE_ID_MAX = 232"
definition ANY_BYTE_MIN :: int where "ANY_BYTE_MIN = 0"
definition ANY_BYTE_MAX :: int where "ANY_BYTE_MAX = 255"
definition GROUP_ID_MIN :: int where "GROUP_ID_MIN = 1"
definition GROUP_ID_MAX :: int where "GROUP_ID_MAX = 255"
definition CONFIG_SIZE_MIN :: int where "CONFIG_SIZE_MIN = 1"
definition CONFIG_SIZE_MAX :: int where "CONFIG_SIZE_MAX = 4"
definition MAX_LOG_LINES :: nat where "MAX_LOG_LINES = 200"
definition NODE_ID_INPUT_BUFFER :: nat where "NODE_ID_INPUT_BUFFER = 8"
definition INT_INPUT_BUFFER :: nat where "INT_INPUT_BUFFER = 16"
definition LINE_INPUT_BUFFER :: nat where "LINE_INPUT_BUFFER = 64"
definition DECIMAL_BASE :: nat where "DECIMAL_BASE = 10"
definition HEX_BASE :: nat where "HEX_BASE = 16"
definition U16_MAX :: int where "U16_MAX = 0xFFFF"
definition U32_MAX :: int where "U32_MAX = 0xFFFFFFFF"

lemmas terminal_const_defs = NODE_ID_MIN_def NODE_ID_MAX_def ANY_BYTE_MIN_def ANY_BYTE_MAX_def GROUP_ID_MIN_def
  GROUP_ID_MAX_def CONFIG_SIZE_MIN_def CONFIG_SIZE_MAX_def NODE_ID_INPUT_BUFFER_def INT_INPUT_BUFFER_def
  LINE_INPUT_BUFFER_def DECIMAL_BASE_def HEX_BASE_def U16_MAX_def U32_MAX_def

section \<open>State\<close>

record NodeValueRow =
  vr_valueId :: string
  vr_value :: string
  vr_updatedAt :: "64 word"

record NodeRow =
  nw_id :: byte
  nw_basicType :: byte
  nw_genericType :: byte
  nw_specificType :: byte
  nw_commandClasses :: bytes
  nw_name :: string
  nw_values :: "NodeValueRow list"
  nw_state :: string

record NodeModel =
  nm_rows :: "NodeRow list"
  nm_selected :: nat

record DaemonErrorState =
  es_severity :: byte
  es_source :: string
  es_code :: byte
  es_message :: string

record DskPendingState =
  dp_nodeId :: byte
  dp_dsk :: string
  dp_active :: bool

record ActivityState =
  as_log :: "string list"
  as_dongleConnected :: bool
  as_donglePath :: string
  as_daemonError :: DaemonErrorState
  as_dskPending :: DskPendingState
  as_nodesDirty :: bool
  as_valuesDirty :: bool

text \<open>
  \<open>cs_input\<close> is what \<open>getnstr\<close> will answer, \<open>None\<close> for an error, and an error for ever once it
  is used up; \<open>cs_shown\<close> are the prompts shown, \<open>cs_now\<close> the time of day, \<open>cs_session\<close> the
  \<open>sessionCounter\<close> of the main loop, \<open>cs_modal\<close> the pages shown by \<open>runInfoModal\<close>,
  \<open>cs_keys\<close> what \<open>getch\<close> will answer (\<open>None\<close> is its time-out), and the last two the other variables of
  the main loop.
\<close>

record 'd Console =
  cs_input :: "string option list"
  cs_shown :: "string list"
  cs_now :: string
  cs_session :: byte
  cs_activity :: ActivityState
  cs_model :: NodeModel
  cs_modal :: "(string \<times> string list) list"
  cs_keys :: "nat option list"
  cs_lastSession :: byte
  cs_lastWasAdd :: bool
  cs_daemon :: 'd

type_synonym ('d, 'a) console = "('d Console, 'a) state"

definition newActivity :: ActivityState where
  "newActivity = \<lparr>as_log = [], as_dongleConnected = False, as_donglePath = [],
     as_daemonError = \<lparr>es_severity = 0, es_source = [], es_code = 0, es_message = []\<rparr>,
     as_dskPending = \<lparr>dp_nodeId = 0, dp_dsk = [], dp_active = False\<rparr>, as_nodesDirty = False, as_valuesDirty = False\<rparr>"

definition newConsole :: "string option list \<Rightarrow> 'd \<Rightarrow> 'd Console" where
  "newConsole answers d = \<lparr>cs_input = answers, cs_shown = [], cs_now = ''12:00:00'', cs_session = 0,
     cs_activity = newActivity, cs_model = \<lparr>nm_rows = [], nm_selected = 0\<rparr>, cs_modal = [],
     cs_keys = [], cs_lastSession = 0, cs_lastWasAdd = False, cs_daemon = d\<rparr>"

definition gets :: "('s \<Rightarrow> 'a) \<Rightarrow> ('s, 'a) state" where
  "gets f = State (\<lambda>s. (f s, s))"

definition modify :: "('s \<Rightarrow> 's) \<Rightarrow> ('s, unit) state" where
  "modify f = State (\<lambda>s. ((), f s))"

lemma run_gets [simp]: "run_state (gets f) s = (f s, s)"
  by (simp add: gets_def)

lemma run_modify [simp]: "run_state (modify f) s = ((), f s)"
  by (simp add: modify_def)

section \<open>Activity\<close>

fun trimLog :: "string list \<Rightarrow> string list" where
  "trimLog [] = []"
| "trimLog (l # ls) = (if length (l # ls) > MAX_LOG_LINES then trimLog ls else l # ls)"

definition logged :: "string \<Rightarrow> string \<Rightarrow> ActivityState \<Rightarrow> ActivityState" where
  "logged now message st = st\<lparr>as_log := trimLog (as_log st @ [now @ ''  '' @ message])\<rparr>"

definition logLine :: "string \<Rightarrow> ('d, unit) console" where
  "logLine message = modify (\<lambda>c. c\<lparr>cs_activity := logged (cs_now c) message (cs_activity c)\<rparr>)"

definition setDaemonError :: "byte \<Rightarrow> string \<Rightarrow> byte \<Rightarrow> string \<Rightarrow> ActivityState \<Rightarrow> ActivityState" where
  "setDaemonError severity source code message st =
     st\<lparr>as_daemonError := \<lparr>es_severity = severity, es_source = source, es_code = code, es_message = message\<rparr>\<rparr>"

definition setDongleStatus :: "bool \<Rightarrow> string \<Rightarrow> ActivityState \<Rightarrow> ActivityState" where
  "setDongleStatus connected path st = st\<lparr>as_dongleConnected := connected, as_donglePath := path\<rparr>"

definition setDskPending :: "byte \<Rightarrow> string \<Rightarrow> ActivityState \<Rightarrow> ActivityState" where
  "setDskPending nodeId dsk st = st\<lparr>as_dskPending := \<lparr>dp_nodeId = nodeId, dp_dsk = dsk, dp_active = (dsk \<noteq> [])\<rparr>\<rparr>"

definition selectedNodeId :: "NodeModel \<Rightarrow> byte option" where
  "selectedNodeId md = (if nm_selected md \<ge> length (nm_rows md) then None else Some (nw_id (nm_rows md ! nm_selected md)))"

lemma trimLog_drop: "trimLog ls = drop (length ls - MAX_LOG_LINES) ls"
  by (induction ls) (auto simp: Suc_diff_le)

lemma run_logLine [simp]:
  "run_state (logLine m) c = ((), c\<lparr>cs_activity := logged (cs_now c) m (cs_activity c)\<rparr>)"
  by (simp add: logLine_def)

section \<open>Numbers in text\<close>

text \<open>\<open>std::from_chars\<close>: the value and the unread rest, \<open>None\<close> on either error.\<close>

definition alnumValue :: "char \<Rightarrow> nat" where
  "alnumValue ch = (let n = of_char ch in
     if 48 \<le> n \<and> n \<le> 57 then n - 48 else if 97 \<le> n \<and> n \<le> 122 then n - 87
     else if 65 \<le> n \<and> n \<le> 90 then n - 55 else 36)"

definition digitOf :: "nat \<Rightarrow> char \<Rightarrow> bool" where
  "digitOf base ch \<longleftrightarrow> alnumValue ch < base"

definition numberOf :: "nat \<Rightarrow> string \<Rightarrow> nat" where
  "numberOf base ds = foldl (\<lambda>a ch. base * a + alnumValue ch) 0 ds"

definition fromChars :: "nat \<Rightarrow> int \<Rightarrow> int \<Rightarrow> string \<Rightarrow> (int \<times> string) option" where
  "fromChars base lo hi text =
     (let neg = (lo < 0 \<and> text \<noteq> [] \<and> hd text = CHR ''-''); body = (if neg then tl text else text);
          ds = takeWhile (digitOf base) body; v = (if neg then - int (numberOf base ds) else int (numberOf base ds))
      in if ds = [] \<or> v < lo \<or> v > hi then None else Some (v, dropWhile (digitOf base) body))"

definition parseUint :: "string \<Rightarrow> int \<Rightarrow> int option" where
  "parseUint text maxVal =
     (let hex = (length text > 2 \<and> text ! 0 = CHR ''0'' \<and> (text ! 1 = CHR ''x'' \<or> text ! 1 = CHR ''X''))
      in case fromChars (if hex then HEX_BASE else DECIMAL_BASE) 0 U32_MAX (if hex then drop 2 text else text) of
           None \<Rightarrow> None
         | Some (v, rest) \<Rightarrow> if rest \<noteq> [] \<or> v > maxVal then None else Some v)"

text \<open>
  \<open>istream >> int\<close>: the value or a failure, the unread rest, and whether the end of the text was reached. A
  value that does not fit is read to its last digit and fails.
\<close>

definition isSpace :: "char \<Rightarrow> bool" where
  "isSpace ch \<longleftrightarrow> ch = CHR '' '' \<or> (9 \<le> (of_char ch :: nat) \<and> (of_char ch :: nat) \<le> 13)"

definition extractInt :: "string \<Rightarrow> int option \<times> string \<times> bool" where
  "extractInt text =
     (let s = dropWhile isSpace text;
          signed = (s \<noteq> [] \<and> (hd s = CHR ''+'' \<or> hd s = CHR ''-''));
          body = (if signed then tl s else s);
          ds = takeWhile (digitOf 10) body; rest = dropWhile (digitOf 10) body;
          v = (if signed \<and> hd s = CHR ''-'' then - int (numberOf 10 ds) else int (numberOf 10 ds))
      in (if ds = [] \<or> v < - (2 ^ 31) \<or> v \<ge> 2 ^ 31 then None else Some v, rest, rest = []))"

lemma extractInt_shorter: "extractInt text = (Some v, rest, e) \<Longrightarrow> length rest < length text"
proof -
  assume ex: "extractInt text = (Some v, rest, e)"
  define s where "s = dropWhile isSpace text"
  define body where "body = (if s \<noteq> [] \<and> (hd s = CHR ''+'' \<or> hd s = CHR ''-'') then tl s else s)"
  have "takeWhile (digitOf 10) body \<noteq> []" and rest: "rest = dropWhile (digitOf 10) body"
    using ex by (auto simp: extractInt_def Let_def s_def body_def split: if_splits)
  then have "length rest < length body"
    by (metis length_append length_greater_0_conv less_add_same_cancel2 takeWhile_dropWhile_id)
  also have "length body \<le> length s" by (auto simp: body_def)
  also have "\<dots> \<le> length text" by (simp add: s_def length_dropWhile_le)
  finally show ?thesis .
qed

section \<open>Prompts\<close>

definition getnstr :: "nat \<Rightarrow> ('d, string option) console" where
  "getnstr n = State (\<lambda>c. case cs_input c of
     [] \<Rightarrow> (None, c)
   | a # later \<Rightarrow> (map_option (take n) a, c\<lparr>cs_input := later\<rparr>))"

definition ask :: "string \<Rightarrow> nat \<Rightarrow> ('d, string option) console" where
  "ask label bufSize = do {
     modify (\<lambda>c. c\<lparr>cs_shown := cs_shown c @ [label]\<rparr>);
     getnstr (bufSize - 1)
   }"

definition promptByte :: "string \<Rightarrow> int \<Rightarrow> int \<Rightarrow> ('d, byte option) console" where
  "promptByte label minVal maxVal = do {
     got \<leftarrow> ask (label @ '' '') NODE_ID_INPUT_BUFFER;
     State_Monad.return (case got of
       None \<Rightarrow> None
     | Some text \<Rightarrow>
         if text = [] then None
         else case fromChars DECIMAL_BASE (- (2 ^ 31)) (2 ^ 31 - 1) text of
                None \<Rightarrow> None
              | Some (v, rest) \<Rightarrow> if v < minVal \<or> v > maxVal then None else Some (word_of_int v))
   }"

definition promptNodeId :: "string \<Rightarrow> ('d, byte option) console" where
  "promptNodeId label = do {
     selected \<leftarrow> gets (\<lambda>c. selectedNodeId (cs_model c));
     got \<leftarrow> ask (case selected of Some n \<Rightarrow> label @ '' ['' @ decString (unat n) @ ''] '' | None \<Rightarrow> label @ '' '')
       NODE_ID_INPUT_BUFFER;
     let text = (case got of Some t \<Rightarrow> t | None \<Rightarrow> []) in
     State_Monad.return
       (if text = [] then selected
        else case parseUint text NODE_ID_MAX of
               None \<Rightarrow> None
             | Some v \<Rightarrow> if v < NODE_ID_MIN then None else Some (word_of_int v))
   }"

definition promptInt32 :: "string \<Rightarrow> ('d, i32 option) console" where
  "promptInt32 label = do {
     got \<leftarrow> ask (label @ '' '') INT_INPUT_BUFFER;
     State_Monad.return (case got of
       None \<Rightarrow> None
     | Some text \<Rightarrow>
         if text = [] then None
         else map_option (\<lambda>(v, rest). word_of_int v) (fromChars DECIMAL_BASE (- (2 ^ 31)) (2 ^ 31 - 1) text))
   }"

definition promptLine :: "string \<Rightarrow> ('d, string option) console" where
  "promptLine label = do {
     got \<leftarrow> ask (label @ '' '') LINE_INPUT_BUFFER;
     State_Monad.return (case got of None \<Rightarrow> None | Some text \<Rightarrow> if text = [] then None else Some text)
   }"

definition promptU16 :: "string \<Rightarrow> ('d, u16 option) console" where
  "promptU16 label = do {
     text \<leftarrow> promptLine label;
     State_Monad.return (case text of None \<Rightarrow> None | Some t \<Rightarrow> map_option word_of_int (parseUint t U16_MAX))
   }"

definition promptU32 :: "string \<Rightarrow> ('d, u32 option) console" where
  "promptU32 label = do {
     text \<leftarrow> promptLine label;
     State_Monad.return (case text of None \<Rightarrow> None | Some t \<Rightarrow> map_option word_of_int (parseUint t U32_MAX))
   }"

definition promptChar :: "string \<Rightarrow> string \<Rightarrow> ('d, char option) console" where
  "promptChar label valid = do {
     text \<leftarrow> promptLine label;
     State_Monad.return (case text of None \<Rightarrow> None | Some t \<Rightarrow> if t ! 0 \<in> set valid then Some (t ! 0) else None)
   }"

definition commasToSpaces :: "string \<Rightarrow> string" where
  "commasToSpaces text = map (\<lambda>ch. if ch = CHR '','' then CHR '' '' else ch) text"

text \<open>The loop of \<open>promptNodeList\<close>; at its end the stream must be at the end of the text.\<close>

function nodeListLoop :: "string \<Rightarrow> bytes option" where
  "nodeListLoop text =
     (case extractInt text of
        (None, rest, eof) \<Rightarrow> if eof then Some [] else None
      | (Some v, rest, eof) \<Rightarrow>
          if v < NODE_ID_MIN \<or> v > NODE_ID_MAX then None else map_option ((#) (word_of_int v)) (nodeListLoop rest))"
  by auto
termination by (relation "measure length") (auto dest: extractInt_shorter sym)

definition promptNodeList :: "string \<Rightarrow> ('d, bytes option) console" where
  "promptNodeList label = do {
     text \<leftarrow> promptLine label;
     State_Monad.return (case text of
       None \<Rightarrow> None
     | Some t \<Rightarrow> (case nodeListLoop (commasToSpaces t) of
                    None \<Rightarrow> None
                  | Some members \<Rightarrow> if members = [] then None else Some members))
   }"

text \<open>\<open>istream >> string\<close> until it fails: the words of the text.\<close>

function wordsOf :: "string \<Rightarrow> string list" where
  "wordsOf text =
     (let s = dropWhile isSpace text in
      if s = [] then [] else takeWhile (\<lambda>ch. \<not> isSpace ch) s # wordsOf (dropWhile (\<lambda>ch. \<not> isSpace ch) s))"
  by auto
termination
proof (relation "measure length", simp)
  fix txt0 s :: string
  assume s: "s = dropWhile isSpace txt0" "s \<noteq> []"
  then have "\<not> isSpace (hd s)" by (metis hd_dropWhile)
  then have "length (dropWhile (\<lambda>ch. \<not> isSpace ch) s) < length s"
    using s(2) by (cases s) (auto simp: le_imp_less_Suc length_dropWhile_le)
  also have "\<dots> \<le> length txt0" by (simp add: s length_dropWhile_le)
  finally show "(dropWhile (\<lambda>ch. \<not> isSpace ch) s, txt0) \<in> measure length" by simp
qed

fun byteListLoop :: "string list \<Rightarrow> bytes option" where
  "byteListLoop [] = Some []"
| "byteListLoop (token # rest) =
     (case parseUint token ANY_BYTE_MAX of
        None \<Rightarrow> None
      | Some v \<Rightarrow> map_option ((#) (word_of_int v)) (byteListLoop rest))"

definition promptByteList :: "string \<Rightarrow> ('d, bytes option) console" where
  "promptByteList label = do {
     text \<leftarrow> promptLine label;
     State_Monad.return (case text of
       None \<Rightarrow> None
     | Some t \<Rightarrow> (case byteListLoop (wordsOf (commasToSpaces t)) of
                    None \<Rightarrow> None
                  | Some bs \<Rightarrow> if bs = [] then None else Some bs))
   }"

section \<open>What the prompts accept\<close>

lemma alnumValue_decDigit: "d < 10 \<Longrightarrow> alnumValue (decDigit d) = d"
  by (simp add: alnumValue_def decDigit_def Let_def)

lemma alnumValue_digit: "digitOf 10 ch \<Longrightarrow> alnumValue ch = digitValue ch"
  by (auto simp: digitOf_def alnumValue_def digitValue_def Let_def split: if_splits)

lemma decString_digits: "ch \<in> set (decString n) \<Longrightarrow> digitOf 10 ch"
  proof (induction n rule: decString.induct)
  case (1 n)
  then show ?case
    by (cases "n < 10") (auto simp: decString.simps [of n] digitOf_def alnumValue_decDigit)
qed

lemma numberOf_dec: "numberOf 10 (decString n) = n"
proof -
  have "foldl (\<lambda>a ch. 10 * a + alnumValue ch) 0 ds = foldl (\<lambda>a ch. 10 * a + digitValue ch) 0 ds"
    if "\<And>ch. ch \<in> set ds \<Longrightarrow> digitOf 10 ch" for ds
    using that by (intro foldl_cong) (simp_all add: alnumValue_digit)
  from this [OF decString_digits] show ?thesis
    using decString_value [of n] by (simp add: numberOf_def digitsValue_def)
qed

lemma decString_takeWhile:
  "(rest = [] \<or> \<not> digitOf 10 (hd rest)) \<Longrightarrow>
   takeWhile (digitOf 10) (decString n @ rest) = decString n \<and> dropWhile (digitOf 10) (decString n @ rest) = rest"
  by (cases rest) (auto simp: takeWhile_append2 dropWhile_append2 decString_digits)

lemma decString_not_empty: "decString n \<noteq> []"
  by (simp add: decString.simps [of n])

lemma decString_hd: "digitOf 10 (hd (decString n))"
  using decString_digits [of "hd (decString n)" n] decString_not_empty by simp

lemma fromChars_dec:
  assumes "lo \<le> int n" and "int n \<le> hi" and "rest = [] \<or> \<not> digitOf 10 (hd rest)"
  shows "fromChars 10 lo hi (decString n @ rest) = Some (int n, rest)"
proof -
  have "hd (decString n @ rest) \<noteq> CHR ''-''"
    using decString_hd [of n] decString_not_empty [of n] by (auto simp: digitOf_def alnumValue_def)
  then show ?thesis
    using assms decString_takeWhile [OF assms(3)] decString_not_empty
    by (simp add: fromChars_def Let_def numberOf_dec)
qed

lemma fromChars_negative:
  assumes "lo \<le> - int n" and "- int n \<le> hi" and "lo < 0"
  shows "fromChars 10 lo hi (CHR ''-'' # decString n) = Some (- int n, [])"
proof -
  have all: "takeWhile (digitOf 10) (decString n) = decString n" "dropWhile (digitOf 10) (decString n) = []"
    by (simp_all add: takeWhile_eq_all_conv dropWhile_eq_Nil_conv decString_digits)
  show ?thesis
    using assms decString_not_empty [of n] by (simp add: fromChars_def Let_def all numberOf_dec)
qed

text \<open>The decimal parser stops at the \<open>x\<close> of a hexadecimal number and reads a zero.\<close>

lemma fromChars_hex_prefix: "lo \<le> 0 \<Longrightarrow> 0 \<le> hi \<Longrightarrow> fromChars 10 lo hi (''0x'' @ s) = Some (0, CHR ''x'' # s)"
  by (simp add: fromChars_def Let_def digitOf_def alnumValue_def numberOf_def)

lemma parseUint_dec: "int n \<le> maxVal \<Longrightarrow> maxVal \<le> U32_MAX \<Longrightarrow> parseUint (decString n) maxVal = Some (int n)"
proof -
  assume n: "int n \<le> maxVal" "maxVal \<le> U32_MAX"
  have "\<not> (length (decString n) > 2 \<and> (decString n ! 1 = CHR ''x'' \<or> decString n ! 1 = CHR ''X''))"
    using decString_digits [OF nth_mem, of 1 n] by (auto simp: digitOf_def alnumValue_def)
  then show ?thesis
    using fromChars_dec [of 0 n U32_MAX "[]"] n by (auto simp: parseUint_def Let_def DECIMAL_BASE_def)
qed

end
