(* ===== verification/Terminal_Nodes.thy ===== *)
theory Terminal_Nodes
  imports Terminal_Input External_Api
begin

text \<open>
  The node list of the terminal client (\<open>src/utils/zwave-terminal/nodes.cpp\<close>) and its D-Bus calls. The
  proxy of sdbus-c++ is a parameter: a function of the method, its arguments and the state at the other end that gives
  the text of an \<open>sdbus::Error\<close> or a reply. \<open>daemonProxy\<close> is the proxy that ends at the hand-written
  methods of the daemon's D-Bus backend.
\<close>

section \<open>Calls\<close>

datatype dbusArg =
    AByte byte
  | ABool bool
  | ABytes bytes
  | AInt i32
  | AU16 u16
  | AU32 u32
  | AString string
  | AActions "(byte \<times> bytes) list"

datatype dbusReply =
    RNone
  | RNodes "(byte \<times> byte \<times> byte \<times> byte \<times> bytes) list"
  | RMetadata "(string \<times> string) list"
  | RValues "(string \<times> string \<times> 64 word) list"
  | RBytes bytes
  | RNetwork NetworkStatus
  | RDongle "string \<times> byte \<times> bytes \<times> byte"
  | RInit "byte \<times> byte \<times> bytes \<times> byte \<times> byte"
  | RNodeInfo NodeInfo
  | RDevicePolicies "(u16 \<times> u16 \<times> u16 \<times> bytes) list"
  | RStrings "string list"
  | RActions "(byte \<times> bytes) list"
  | RTriggers "(byte \<times> byte \<times> byte \<times> byte \<times> string) list"
  | RThermostat "byte \<times> byte \<times> byte \<times> byte \<times> byte \<times> byte \<times> byte \<times> i32"
  | RError "byte \<times> string \<times> byte \<times> string"

type_synonym 'd proxy = "string \<Rightarrow> dbusArg list \<Rightarrow> 'd \<Rightarrow> (string + dbusReply) \<times> 'd"

definition callMethod :: "'d proxy \<Rightarrow> string \<Rightarrow> dbusArg list \<Rightarrow> ('d, string + dbusReply) console" where
  "callMethod proxy method args = State (\<lambda>c.
     case proxy method args (cs_daemon c) of (r, d) \<Rightarrow> (r, c\<lparr>cs_daemon := d\<rparr>))"

text \<open>\<open>storeResultsTo\<close>: a reply of another type is an error as well.\<close>

definition badReply :: string where "badReply = ''unexpected reply''"

definition storing :: "(dbusReply \<Rightarrow> 'a option) \<Rightarrow> string + dbusReply \<Rightarrow> string + 'a" where
  "storing get r = (case r of Inl e \<Rightarrow> Inl e | Inr reply \<Rightarrow> (case get reply of None \<Rightarrow> Inl badReply | Some x \<Rightarrow> Inr x))"

definition callFor :: "(dbusReply \<Rightarrow> 'a option) \<Rightarrow> 'd proxy \<Rightarrow> string \<Rightarrow> dbusArg list \<Rightarrow> ('d, string + 'a) console" where
  "callFor get proxy method args = do {
     r \<leftarrow> callMethod proxy method args;
     State_Monad.return (storing get r)
   }"

fun getNodes where "getNodes (RNodes x) = Some x" | "getNodes _ = None"
fun getMetadata where "getMetadata (RMetadata x) = Some x" | "getMetadata _ = None"
fun getValues where "getValues (RValues x) = Some x" | "getValues _ = None"
fun getBytes where "getBytes (RBytes x) = Some x" | "getBytes _ = None"
fun getNetwork where "getNetwork (RNetwork x) = Some x" | "getNetwork _ = None"
fun getDongle where "getDongle (RDongle x) = Some x" | "getDongle _ = None"
fun getInit where "getInit (RInit x) = Some x" | "getInit _ = None"
fun getNodeInfo where "getNodeInfo (RNodeInfo x) = Some x" | "getNodeInfo _ = None"
fun getDevicePolicies where "getDevicePolicies (RDevicePolicies x) = Some x" | "getDevicePolicies _ = None"
fun getStrings where "getStrings (RStrings x) = Some x" | "getStrings _ = None"
fun getActions where "getActions (RActions x) = Some x" | "getActions _ = None"
fun getTriggers where "getTriggers (RTriggers x) = Some x" | "getTriggers _ = None"
fun getThermostat where "getThermostat (RThermostat x) = Some x" | "getThermostat _ = None"
fun getError where "getError (RError x) = Some x" | "getError _ = None"

lemma run_callMethod: "run_state (callMethod proxy method args) c =
    (fst (proxy method args (cs_daemon c)), c\<lparr>cs_daemon := snd (proxy method args (cs_daemon c))\<rparr>)"
  by (simp add: callMethod_def split: prod.splits)

section \<open>The node list\<close>

definition STATE_PRIORITY :: "string list" where
  "STATE_PRIORITY = [''binary_switch'', ''multilevel_switch'', ''setpoint'', ''sensor'', ''config'', ''battery'']"

fun headlineLoop :: "string list \<Rightarrow> NodeValueRow list \<Rightarrow> string option" where
  "headlineLoop [] values = None"
| "headlineLoop (pre # later) values =
     (case List.find (\<lambda>v. take (length pre) (vr_valueId v) = pre) values of
        Some v \<Rightarrow> Some (vr_value v)
      | None \<Rightarrow> headlineLoop later values)"

definition headlineState :: "NodeValueRow list \<Rightarrow> string" where
  "headlineState values =
     (case headlineLoop STATE_PRIORITY values of
        Some s \<Rightarrow> s
      | None \<Rightarrow> (if values = [] then [] else vr_value (hd values)))"

definition metadataName :: "(string \<times> string) list \<Rightarrow> string" where
  "metadataName meta = foldl (\<lambda>name (k, v). if k = ''name'' then v else name) [] meta"

fun fetchRows :: "'d proxy \<Rightarrow> (byte \<times> byte \<times> byte \<times> byte \<times> bytes) list \<Rightarrow> ('d, NodeRow list) console" where
  "fetchRows proxy [] = State_Monad.return []"
| "fetchRows proxy ((n, basic, generic, specific, ccs) # later) = do {
     meta \<leftarrow> callFor getMetadata proxy ''GetNodeMetadata'' [AByte n];
     rows \<leftarrow> fetchRows proxy later;
     State_Monad.return (\<lparr>nw_id = n, nw_basicType = basic, nw_genericType = generic, nw_specificType = specific,
        nw_commandClasses = ccs, nw_name = (case meta of Inl e \<Rightarrow> [] | Inr m \<Rightarrow> metadataName m),
        nw_values = [], nw_state = []\<rparr> # rows)
   }"

fun indexOf :: "('a \<Rightarrow> bool) \<Rightarrow> 'a list \<Rightarrow> nat option" where
  "indexOf P [] = None"
| "indexOf P (x # xs) = (if P x then Some 0 else map_option Suc (indexOf P xs))"

definition restoreSelection :: "byte option \<Rightarrow> NodeRow list \<Rightarrow> nat" where
  "restoreSelection previous rows =
     (case previous of
        None \<Rightarrow> 0
      | Some n \<Rightarrow> (case indexOf (\<lambda>r. nw_id r = n) rows of None \<Rightarrow> 0 | Some i \<Rightarrow> i))"

definition refreshNodes :: "'d proxy \<Rightarrow> ('d, unit) console" where
  "refreshNodes proxy = do {
     nodes \<leftarrow> callFor getNodes proxy ''GetNodes'' [];
     case nodes of
       Inl err \<Rightarrow> logLine (''GetNodes failed: '' @ err)
     | Inr ns \<Rightarrow> do {
         previous \<leftarrow> gets (\<lambda>c. selectedNodeId (cs_model c));
         rows \<leftarrow> fetchRows proxy ns;
         modify (\<lambda>c. c\<lparr>cs_model := \<lparr>nm_rows = rows, nm_selected = restoreSelection previous rows\<rparr>\<rparr>)
       }
   }"

definition valueRows :: "(string \<times> string \<times> 64 word) list \<Rightarrow> NodeValueRow list" where
  "valueRows vs = map (\<lambda>(i, v, at). \<lparr>vr_valueId = i, vr_value = v, vr_updatedAt = at\<rparr>) vs"

fun fetchValues :: "'d proxy \<Rightarrow> NodeRow list \<Rightarrow> ('d, NodeRow list) console" where
  "fetchValues proxy [] = State_Monad.return []"
| "fetchValues proxy (row # later) = do {
     values \<leftarrow> callFor getValues proxy ''GetNodeValues'' [AByte (nw_id row)];
     case values of
       Inl err \<Rightarrow> do {
         logLine (''GetNodeValues failed: '' @ err);
         rows \<leftarrow> fetchValues proxy later;
         State_Monad.return (row # rows)
       }
     | Inr vs \<Rightarrow> do {
         rows \<leftarrow> fetchValues proxy later;
         State_Monad.return (row\<lparr>nw_values := valueRows vs, nw_state := headlineState (valueRows vs)\<rparr> # rows)
       }
   }"

definition refreshValues :: "'d proxy \<Rightarrow> ('d, unit) console" where
  "refreshValues proxy = do {
     rows \<leftarrow> gets (\<lambda>c. nm_rows (cs_model c));
     rows1 \<leftarrow> fetchValues proxy rows;
     modify (\<lambda>c. c\<lparr>cs_model := (cs_model c)\<lparr>nm_rows := rows1\<rparr>\<rparr>)
   }"

definition moveSelection :: "int \<Rightarrow> NodeModel \<Rightarrow> NodeModel" where
  "moveSelection delta md =
     (if nm_rows md = [] then md
      else md\<lparr>nm_selected := nat (max 0 (min (int (nm_selected md) + delta) (int (length (nm_rows md)) - 1)))\<rparr>)"

section \<open>The daemon at the other end\<close>

record Daemon =
  dm_impl :: Impl
  dm_registry :: NodeRegistry
  dm_policies :: PolicyRegister
  dm_metadata :: NodeMetadata
  dm_values :: NodeValues
  dm_scenes :: SceneStore
  dm_published :: "busCommand list"
  dm_thermostat :: "thermostatInput list"

text \<open>
  The methods whose action in the interface manifest is a \<open>custom\<close> function; \<open>generated\<close> stands for the
  others. The time and the order of the rows of the policy table are left open.
\<close>

definition daemonProxy :: "nat \<Rightarrow> DeviceId list \<Rightarrow> Daemon proxy \<Rightarrow> Daemon proxy" where
  "daemonProxy now rowOrder generated method args d =
     (case args of
        [] \<Rightarrow>
          if method = ''GetNodes'' then (Inr (RNodes (emitGetNodes (dm_impl d))), d)
          else if method = ''GetDongleInfo'' then (Inr (RDongle (emitGetDongleInfo (dm_impl d))), d)
          else if method = ''GetInitData'' then (Inr (RInit (emitGetInitData (dm_impl d))), d)
          else if method = ''GetNetworkStatus'' then (Inr (RNetwork (emitGetNetworkStatus now (dm_impl d))), d)
          else if method = ''GetDaemonError'' then (Inr (RError (emitGetDaemonError (dm_impl d))), d)
          else if method = ''ListDevicePolicies'' then (Inr (RDevicePolicies (emitListDevicePolicies rowOrder (dm_policies d))), d)
          else if method = ''ListScenes'' then (Inr (RStrings (emitListScenes (dm_scenes d))), d)
          else if method = ''ListSceneTriggers'' then (Inr (RTriggers (emitListSceneTriggers (dm_scenes d))), d)
          else generated method args d
      | [AByte n] \<Rightarrow>
          if method = ''GetNodeMetadata'' then (Inr (RMetadata (emitGetNodeMetadata n (dm_metadata d))), d)
          else if method = ''GetNodeValues'' then (Inr (RValues (emitGetNodeValues n (dm_values d))), d)
          else if method = ''GetNodeInfo'' then (Inr (RNodeInfo (emitGetNodeInfo n (dm_registry d))), d)
          else if method = ''GetNodeOverride'' then (Inr (RBytes (emitGetNodeOverride n (dm_policies d))), d)
          else if method = ''GetEffectivePolicy'' then (Inr (RBytes (emitGetEffectivePolicy n (dm_policies d))), d)
          else if method = ''DeleteNodeOverride''
            then (Inr RNone, d\<lparr>dm_policies := snd (emitDeleteNodeOverride n (dm_policies d))\<rparr>)
          else generated method args d
      | [AByte n, ABytes blob] \<Rightarrow>
          if method = ''SetNodeOverride''
            then (Inr RNone, d\<lparr>dm_policies := snd (emitSetNodeOverride n blob (dm_policies d))\<rparr>)
          else generated method args d
      | [AU16 mf, AU16 pt, AU16 pid] \<Rightarrow>
          if method = ''GetDevicePolicy'' then (Inr (RBytes (emitGetDevicePolicy mf pt pid (dm_policies d))), d)
          else if method = ''DeleteDevicePolicy''
            then (Inr RNone, d\<lparr>dm_policies := snd (emitDeleteDevicePolicy mf pt pid (dm_policies d))\<rparr>)
          else generated method args d
      | [AU16 mf, AU16 pt, AU16 pid, ABytes blob] \<Rightarrow>
          if method = ''SetDevicePolicy''
            then (Inr RNone, d\<lparr>dm_policies := snd (emitSetDevicePolicy mf pt pid blob (dm_policies d))\<rparr>)
          else generated method args d
      | [AString sid] \<Rightarrow>
          if method = ''GetScene'' then (Inr (RActions (emitGetScene sid (dm_scenes d))), d)
          else if method = ''DeleteScene'' then (Inr RNone, d\<lparr>dm_scenes := emitDeleteScene sid (dm_scenes d)\<rparr>)
          else generated method args d
      | [AString sid, AActions actions] \<Rightarrow>
          if method = ''SetScene'' then (Inr RNone, d\<lparr>dm_scenes := emitSetScene sid actions (dm_scenes d)\<rparr>)
          else generated method args d
      | [AByte src, AByte node, AByte sel, AByte key, AString sid] \<Rightarrow>
          if method = ''BindSceneTrigger''
            then (Inr RNone, d\<lparr>dm_scenes := emitBindSceneTrigger src node sel key sid (dm_scenes d)\<rparr>)
          else generated method args d
      | [AByte src, AByte node, AByte sel, AByte key] \<Rightarrow>
          if method = ''UnbindSceneTrigger''
            then (Inr RNone, d\<lparr>dm_scenes := emitUnbindSceneTrigger src node sel key (dm_scenes d)\<rparr>)
          else generated method args d
      | [AString k, AString v] \<Rightarrow>
          if method = ''GetLogicalThermostatState''
            then (Inr (RThermostat (emitGetLogicalThermostatState (k, v) (dm_impl d))), d)
          else generated method args d
      | [AString k, AString v, AByte mode] \<Rightarrow>
          if method = ''SetLogicalThermostatMode''
            then (Inr RNone, d\<lparr>dm_thermostat := dm_thermostat d @ [emitSetLogicalThermostatMode (k, v) mode]\<rparr>)
          else generated method args d
      | [AString k, AString v, AByte ty, AByte prec, AByte scale, AInt val] \<Rightarrow>
          if method = ''SetLogicalThermostatSetpoint''
            then (Inr RNone, d\<lparr>dm_thermostat := dm_thermostat d @ [emitSetLogicalThermostatSetpoint (k, v) ty prec scale val]\<rparr>)
          else generated method args d
      | [AByte mode, AByte flags, AByte sid, ABytes nwi, ABytes auth] \<Rightarrow>
          if method = ''AddNode''
            then (Inr RNone, d\<lparr>dm_published := dm_published d @ [emitAddNode mode flags sid nwi auth]\<rparr>)
          else generated method args d
      | [AByte mode, AByte flags, AByte sid] \<Rightarrow>
          if method = ''RemoveNode''
            then (Inr RNone, d\<lparr>dm_published := dm_published d @ [emitRemoveNode mode flags sid]\<rparr>)
          else generated method args d
      | _ \<Rightarrow> generated method args d)"

section \<open>The list shows the network\<close>

lemma daemon_reads [simp]:
  "daemonProxy now ro g ''GetNodes'' [] d = (Inr (RNodes (emitGetNodes (dm_impl d))), d)"
  "daemonProxy now ro g ''GetNodeMetadata'' [AByte n] d = (Inr (RMetadata (emitGetNodeMetadata n (dm_metadata d))), d)"
  "daemonProxy now ro g ''GetNodeValues'' [AByte n] d = (Inr (RValues (emitGetNodeValues n (dm_values d))), d)"
  "daemonProxy now ro g ''GetNodeOverride'' [AByte n] d = (Inr (RBytes (emitGetNodeOverride n (dm_policies d))), d)"
  "daemonProxy now ro g ''GetDevicePolicy'' [AU16 mf, AU16 pt, AU16 pid] d =
     (Inr (RBytes (emitGetDevicePolicy mf pt pid (dm_policies d))), d)"
  by (simp_all add: daemonProxy_def)

lemma daemon_writes [simp]:
  "daemonProxy now ro g ''SetNodeOverride'' [AByte n, ABytes blob] d =
     (Inr RNone, d\<lparr>dm_policies := snd (emitSetNodeOverride n blob (dm_policies d))\<rparr>)"
  "daemonProxy now ro g ''SetDevicePolicy'' [AU16 mf, AU16 pt, AU16 pid, ABytes blob] d =
     (Inr RNone, d\<lparr>dm_policies := snd (emitSetDevicePolicy mf pt pid blob (dm_policies d))\<rparr>)"
  "daemonProxy now ro g ''SetScene'' [AString sid, AActions actions] d =
     (Inr RNone, d\<lparr>dm_scenes := emitSetScene sid actions (dm_scenes d)\<rparr>)"
  by (simp_all add: daemonProxy_def)

lemma run_callFor: "run_state (callFor get proxy method args) c =
    (storing get (fst (proxy method args (cs_daemon c))), c\<lparr>cs_daemon := snd (proxy method args (cs_daemon c))\<rparr>)"
  by (simp add: callFor_def run_callMethod)

text \<open>The row that a node should have.\<close>

definition nodeRow :: "Daemon \<Rightarrow> byte \<times> byte \<times> byte \<times> byte \<times> bytes \<Rightarrow> NodeRow" where
  "nodeRow d = (\<lambda>(n, basic, generic, specific, ccs).
     \<lparr>nw_id = n, nw_basicType = basic, nw_genericType = generic, nw_specificType = specific, nw_commandClasses = ccs,
      nw_name = metadataName (emitGetNodeMetadata n (dm_metadata d)),
      nw_values = valueRows (emitGetNodeValues n (dm_values d)),
      nw_state = headlineState (valueRows (emitGetNodeValues n (dm_values d)))\<rparr>)"

definition bareRow :: "NodeRow \<Rightarrow> NodeRow" where
  "bareRow r = r\<lparr>nw_values := [], nw_state := []\<rparr>"

lemma fetchRows_daemon:
  "run_state (fetchRows (daemonProxy now ro g) ts) c = (map (bareRow \<circ> nodeRow (cs_daemon c)) ts, c)"
proof (induction ts arbitrary: c)
  case (Cons t ts)
  obtain n b gn s ccs where "t = (n, b, gn, s, ccs)" by (cases t)
  with Cons.IH show ?case by (simp add: run_callFor storing_def bareRow_def nodeRow_def)
qed simp

lemma fetchValues_daemon:
  "run_state (fetchValues (daemonProxy now ro g) (map (bareRow \<circ> nodeRow (cs_daemon c)) ts)) c =
     (map (nodeRow (cs_daemon c)) ts, c)"
proof (induction ts arbitrary: c)
  case (Cons t ts)
  obtain n b gn s ccs where "t = (n, b, gn, s, ccs)" by (cases t)
  with Cons.IH show ?case by (simp add: run_callFor storing_def bareRow_def nodeRow_def)
qed simp

lemma indexOf_Some: "indexOf P xs = Some i \<Longrightarrow> i < length xs \<and> P (xs ! i)"
  by (induction xs arbitrary: i) (auto split: if_splits)

lemma indexOf_None: "indexOf P xs = None \<longleftrightarrow> (\<forall>x\<in>set xs. \<not> P x)"
  by (induction xs) auto

lemma restored_selection:
  assumes "n \<in> nw_id ` set rows"
  shows "selectedNodeId \<lparr>nm_rows = rows, nm_selected = restoreSelection (Some n) rows\<rparr> = Some n"
proof -
  obtain i where i: "indexOf (\<lambda>r. nw_id r = n) rows = Some i"
    using assms indexOf_None [of "\<lambda>r. nw_id r = n" rows] by (cases "indexOf (\<lambda>r. nw_id r = n) rows") auto
  from indexOf_Some [OF i] show ?thesis by (simp add: selectedNodeId_def restoreSelection_def i)
qed

lemma restored_first:
  assumes "n \<notin> nw_id ` set rows"
  shows "restoreSelection (Some n) rows = 0"
proof -
  have "indexOf (\<lambda>r. nw_id r = n) rows = None" using assms by (auto simp: indexOf_None)
  then show ?thesis by (simp add: restoreSelection_def)
qed

lemma moved_selection: "nm_rows md \<noteq> [] \<Longrightarrow> selectedNodeId (moveSelection delta md) \<noteq> None"
proof -
  assume "nm_rows md \<noteq> []"
  then have "nat (max 0 (min (int (nm_selected md) + delta) (int (length (nm_rows md)) - 1))) < length (nm_rows md)"
    by (cases "nm_rows md") auto
  then show ?thesis using \<open>nm_rows md \<noteq> []\<close> by (simp add: selectedNodeId_def moveSelection_def)
qed

lemma indexOf_map: "indexOf P (map f xs) = indexOf (P \<circ> f) xs"
  by (induction xs) auto

lemma restoreSelection_ids: "map nw_id a = map nw_id b \<Longrightarrow> restoreSelection n a = restoreSelection n b"
  using indexOf_map [of "\<lambda>x. x = the n" nw_id a] indexOf_map [of "\<lambda>x. x = the n" nw_id b]
  by (auto simp: restoreSelection_def comp_def split: option.splits)

text \<open>
  A refresh against the daemon. The rows are the registered nodes in order, each with its device class, its command
  classes, its name tag, its last known values and their headline; nothing else changes but the selection, which
  follows its node.
\<close>

lemma refresh_daemon:
  fixes now :: nat and c :: "Daemon Console" and ro :: "DeviceId list" and g :: "Daemon proxy"
  assumes "im_nodes (dm_impl (cs_daemon c)) = snapshotEvent (dm_registry (cs_daemon c))"
  defines "rows \<equiv> map (\<lambda>i. nodeRow (cs_daemon c) (leanEntry i)) (snapshot (dm_registry (cs_daemon c)))"
  shows "run_state (do { refreshNodes (daemonProxy now ro g); refreshValues (daemonProxy now ro g) }) c =
    ((), c\<lparr>cs_model := \<lparr>nm_rows = rows, nm_selected = restoreSelection (selectedNodeId (cs_model c)) rows\<rparr>\<rparr>)"
proof -
  let ?d = "cs_daemon c"
  let ?ts = "emitGetNodes (dm_impl ?d)"
  let ?bare = "map (bareRow \<circ> nodeRow ?d) ?ts"
  have rows: "map (nodeRow ?d) ?ts = rows"
    using assms(1) by (simp add: rows_def emitGetNodes_def snapshotEvent_def leanEntry_def comp_def)
  define m where "m = \<lparr>nm_rows = ?bare, nm_selected = restoreSelection (selectedNodeId (cs_model c)) ?bare\<rparr>"
  have nodes: "run_state (refreshNodes (daemonProxy now ro g)) c = ((), c\<lparr>cs_model := m\<rparr>)"
    by (simp add: refreshNodes_def run_callFor storing_def fetchRows_daemon m_def)
  have "run_state (refreshValues (daemonProxy now ro g)) (c\<lparr>cs_model := m\<rparr>) = ((), c\<lparr>cs_model := m\<lparr>nm_rows := rows\<rparr>\<rparr>)"
    using fetchValues_daemon [of now ro g "c\<lparr>cs_model := m\<rparr>" ?ts] rows by (simp add: refreshValues_def m_def)
  moreover have "restoreSelection (selectedNodeId (cs_model c)) ?bare = restoreSelection (selectedNodeId (cs_model c)) rows"
    using restoreSelection_ids [of rows ?bare] by (simp add: rows [symmetric] bareRow_def comp_def)
  ultimately show ?thesis using nodes by (simp add: m_def)
qed

definition demoDaemon :: Daemon where
  "demoDaemon = \<lparr>dm_impl = (newImpl 0)\<lparr>im_nodes := [\<lparr>en_nodeId = 5, en_basicType = 4, en_genericType = 16,
       en_specificType = 1, en_commandClasses = [0x25]\<rparr>]\<rparr>,
     dm_registry = emptyRegistry\<lparr>nr_nodes := [5 \<mapsto> (newNodeInfo 5)\<lparr>ni_basicType := 4, ni_genericType := 16,
       ni_specificType := 1, ni_commandClasses := [0x25]\<rparr>]\<rparr>,
     dm_policies = demoPolicies,
     dm_metadata = demoMetadata\<lparr>md_rows := [((''E2A1B07C'', 5, ''name''), ''Lamp'')]\<rparr>,
     dm_values = demoValues\<lparr>nv_rows := [((''e2a1b07c'', 5, ''binary_switch''), (''on'', 77))]\<rparr>,
     dm_scenes = demoScenes, dm_published = [], dm_thermostat = []\<rparr>"

definition noMethods :: "Daemon proxy" where
  "noMethods method args d = (Inl ''no such method'', d)"

end
