(* ===== verification/Terminal_Policy.thy ===== *)
theory Terminal_Policy
  imports Terminal_Nodes
begin

text \<open>
  The policy editor of the terminal client (\<open>src/utils/zwave-terminal/policy_blob.cpp\<close>). The client has its
  own codec of the policy blob and its own merge; both are shown equal to those of the daemon's policy register.
\<close>

section \<open>The codec of the client\<close>

definition POLICY_KIND_CONFIG :: byte where "POLICY_KIND_CONFIG = 1"
definition POLICY_KIND_ASSOC :: byte where "POLICY_KIND_ASSOC = 2"
definition POLICY_KIND_WAKEUP :: byte where "POLICY_KIND_WAKEUP = 3"
definition POLICY_CONFIG_BODY_LEN :: nat where "POLICY_CONFIG_BODY_LEN = 7"
definition POLICY_ASSOC_HEADER_LEN :: nat where "POLICY_ASSOC_HEADER_LEN = 2"
definition POLICY_WAKEUP_BODY_LEN :: nat where "POLICY_WAKEUP_BODY_LEN = 5"
definition CLIENT_BLOB_VERSION :: byte where "CLIENT_BLOB_VERSION = 1"

lemmas blob_const_defs = POLICY_KIND_CONFIG_def POLICY_KIND_ASSOC_def POLICY_KIND_WAKEUP_def
  POLICY_CONFIG_BODY_LEN_def POLICY_ASSOC_HEADER_LEN_def POLICY_WAKEUP_BODY_LEN_def CLIENT_BLOB_VERSION_def

record BlobEntry =
  be_kind :: byte
  be_parameter :: byte
  be_size :: byte
  be_isSigned :: bool
  be_value :: i32
  be_groupId :: byte
  be_members :: bytes
  be_intervalSeconds :: u32
  be_notificationNodeId :: byte

definition newEntry :: BlobEntry where
  "newEntry = \<lparr>be_kind = 0, be_parameter = 0, be_size = 1, be_isSigned = False, be_value = 0, be_groupId = 0,
     be_members = [], be_intervalSeconds = 0, be_notificationNodeId = 0\<rparr>"

text \<open>A position in the blob is the list of bytes from it on.\<close>

fun client_readU32Be :: "bytes \<Rightarrow> u32" where
  "client_readU32Be (a # b # c # d # rest) =
     push_bit 24 (ucast a) OR push_bit 16 (ucast b) OR push_bit 8 (ucast c) OR ucast d"
| "client_readU32Be _ = 0"

definition client_appendU32Be :: "u32 \<Rightarrow> bytes" where
  "client_appendU32Be v = [ucast (drop_bit 24 v AND 0xFF), ucast (drop_bit 16 v AND 0xFF), ucast (drop_bit 8 v AND 0xFF),
     ucast (v AND 0xFF)]"

definition decodePolicyEntry :: "bytes \<Rightarrow> (BlobEntry \<times> bytes) option" where
  "decodePolicyEntry bs =
     (case bs of
        [] \<Rightarrow> None
      | kind # body \<Rightarrow>
          if kind = POLICY_KIND_CONFIG
          then if POLICY_CONFIG_BODY_LEN > length body then None
               else Some (newEntry\<lparr>be_kind := kind, be_parameter := body ! 0, be_size := body ! 1,
                      be_isSigned := (body ! 2 \<noteq> 0), be_value := client_readU32Be (drop 3 body)\<rparr>,
                      drop POLICY_CONFIG_BODY_LEN body)
          else if kind = POLICY_KIND_ASSOC
          then if POLICY_ASSOC_HEADER_LEN > length body then None
               else let memberCt = unat (body ! 1); rest = drop POLICY_ASSOC_HEADER_LEN body
                    in if memberCt > length rest then None
                       else Some (newEntry\<lparr>be_kind := kind, be_groupId := body ! 0, be_members := take memberCt rest\<rparr>,
                              drop memberCt rest)
          else if kind = POLICY_KIND_WAKEUP
          then if POLICY_WAKEUP_BODY_LEN > length body then None
               else Some (newEntry\<lparr>be_kind := kind, be_intervalSeconds := client_readU32Be body,
                      be_notificationNodeId := body ! 4\<rparr>, drop POLICY_WAKEUP_BODY_LEN body)
          else None)"

fun decodePolicyLoop :: "nat \<Rightarrow> bytes \<Rightarrow> BlobEntry list option" where
  "decodePolicyLoop 0 bs = Some []"
| "decodePolicyLoop (Suc n) bs =
     (case decodePolicyEntry bs of
        None \<Rightarrow> None
      | Some (entry, rest) \<Rightarrow> map_option ((#) entry) (decodePolicyLoop n rest))"

definition decodePolicy :: "bytes \<Rightarrow> BlobEntry list option" where
  "decodePolicy bs =
     (if length bs < 2 \<or> bs ! 0 \<noteq> CLIENT_BLOB_VERSION then None
      else decodePolicyLoop (unat (bs ! 1)) (drop 2 bs))"

definition encodePolicyEntry :: "BlobEntry \<Rightarrow> bytes" where
  "encodePolicyEntry e = be_kind e #
     (if be_kind e = POLICY_KIND_CONFIG
      then [be_parameter e, be_size e, if be_isSigned e then 1 else 0] @ client_appendU32Be (be_value e)
      else if be_kind e = POLICY_KIND_ASSOC
      then [be_groupId e, of_nat (length (be_members e))] @ be_members e
      else if be_kind e = POLICY_KIND_WAKEUP
      then client_appendU32Be (be_intervalSeconds e) @ [be_notificationNodeId e]
      else [])"

definition encodePolicy :: "BlobEntry list \<Rightarrow> bytes" where
  "encodePolicy policy = [CLIENT_BLOB_VERSION, of_nat (length policy)] @ concat (map encodePolicyEntry policy)"

definition client_sameSlot :: "BlobEntry \<Rightarrow> BlobEntry \<Rightarrow> bool" where
  "client_sameSlot lhs rhs \<longleftrightarrow>
     be_kind lhs = be_kind rhs \<and>
     (if be_kind lhs = POLICY_KIND_CONFIG then be_parameter lhs = be_parameter rhs
      else if be_kind lhs = POLICY_KIND_ASSOC then be_groupId lhs = be_groupId rhs
      else True)"

fun replaceSlot :: "BlobEntry \<Rightarrow> BlobEntry list \<Rightarrow> (BlobEntry list) option" where
  "replaceSlot entry [] = None"
| "replaceSlot entry (existing # rest) =
     (if client_sameSlot existing entry then Some (entry # rest) else map_option ((#) existing) (replaceSlot entry rest))"

text \<open>The blob and whether an entry was replaced.\<close>

definition applyEntryToBlob :: "bytes \<Rightarrow> BlobEntry \<Rightarrow> (bytes \<times> bool) option" where
  "applyEntryToBlob existing entry =
     (case (if existing = [] then Some [] else decodePolicy existing) of
        None \<Rightarrow> None
      | Some policy \<Rightarrow>
          (case replaceSlot entry policy of
             Some policy1 \<Rightarrow> Some (encodePolicy policy1, True)
           | None \<Rightarrow> Some (encodePolicy (policy @ [entry]), False)))"

section \<open>Texts and prompts\<close>

definition dec8 :: "byte \<Rightarrow> string" where "dec8 b = decString (unat b)"

fun joinSpaces :: "string list \<Rightarrow> string" where
  "joinSpaces [] = []"
| "joinSpaces [s] = s"
| "joinSpaces (s # ss) = s @ '' '' @ joinSpaces ss"

definition entrySummary :: "BlobEntry \<Rightarrow> string" where
  "entrySummary e =
     (if be_kind e = POLICY_KIND_CONFIG
      then ''config param='' @ dec8 (be_parameter e) @ '' value='' @ decInt (sint (be_value e))
      else if be_kind e = POLICY_KIND_ASSOC
      then ''assoc group='' @ dec8 (be_groupId e) @ '' members='' @ decString (length (be_members e))
      else ''wakeup interval='' @ decString (unat (be_intervalSeconds e)) @ ''s'')"

definition policyLine :: "BlobEntry \<Rightarrow> string" where
  "policyLine e =
     (if be_kind e = POLICY_KIND_CONFIG
      then ''    config param='' @ dec8 (be_parameter e) @ '' size='' @ dec8 (be_size e) @ '' value=''
           @ decInt (sint (be_value e)) @ (if be_isSigned e then '' (signed)'' else [])
      else if be_kind e = POLICY_KIND_ASSOC
      then ''    assoc group='' @ dec8 (be_groupId e) @ '' members=['' @ joinSpaces (map dec8 (be_members e)) @ '']''
      else if be_kind e = POLICY_KIND_WAKEUP
      then ''    wakeup interval='' @ decString (unat (be_intervalSeconds e)) @ ''s notify='' @ dec8 (be_notificationNodeId e)
      else [])"

fun logLines :: "string list \<Rightarrow> ('d, unit) console" where
  "logLines [] = State_Monad.return ()"
| "logLines (l # ls) = do { logLine l; logLines ls }"

definition logPolicy :: "string \<Rightarrow> bytes \<Rightarrow> ('d, unit) console" where
  "logPolicy header bs = do {
     logLine header;
     (if bs = [] then logLine ''    (none)''
      else case decodePolicy bs of
             None \<Rightarrow> logLine (''    (undecodable blob, '' @ decString (length bs) @ '' bytes)'')
           | Some policy \<Rightarrow> if policy = [] then logLine ''    (empty)'' else logLines (map policyLine policy))
   }"

definition promptConfigEntry :: "('d, BlobEntry option) console" where
  "promptConfigEntry = do {
     parameter \<leftarrow> promptByte ''Config parameter (0-255):'' ANY_BYTE_MIN ANY_BYTE_MAX;
     sz \<leftarrow> promptByte ''Value size bytes (1, 2, or 4):'' CONFIG_SIZE_MIN CONFIG_SIZE_MAX;
     val \<leftarrow> promptInt32 ''Value (signed int32):'';
     case (parameter, sz, val) of
       (Some p, Some s, Some v) \<Rightarrow>
         if s \<noteq> 1 \<and> s \<noteq> 2 \<and> s \<noteq> 4
         then do { logLine ''config entry: cancelled or invalid (size must be 1/2/4)''; State_Monad.return None }
         else State_Monad.return (Some (newEntry\<lparr>be_kind := POLICY_KIND_CONFIG, be_parameter := p, be_size := s,
                be_isSigned := (sint v < 0), be_value := v\<rparr>))
     | _ \<Rightarrow> do { logLine ''config entry: cancelled or invalid (size must be 1/2/4)''; State_Monad.return None }
   }"

definition promptAssociationEntry :: "('d, BlobEntry option) console" where
  "promptAssociationEntry = do {
     group \<leftarrow> promptByte ''Group id (1-255):'' GROUP_ID_MIN GROUP_ID_MAX;
     members \<leftarrow> promptNodeList ''Member node ids (space/comma separated):'';
     case (group, members) of
       (Some g, Some ms) \<Rightarrow>
         State_Monad.return (Some (newEntry\<lparr>be_kind := POLICY_KIND_ASSOC, be_groupId := g, be_members := ms\<rparr>))
     | _ \<Rightarrow> do { logLine ''association entry: cancelled or invalid''; State_Monad.return None }
   }"

definition promptWakeUpEntry :: "('d, BlobEntry option) console" where
  "promptWakeUpEntry = do {
     interval \<leftarrow> promptU32 ''Interval seconds (0..16777215):'';
     notify \<leftarrow> promptByte ''Notify node id (0=controller):'' ANY_BYTE_MIN ANY_BYTE_MAX;
     case (interval, notify) of
       (Some i, Some n) \<Rightarrow>
         State_Monad.return (Some (newEntry\<lparr>be_kind := POLICY_KIND_WAKEUP, be_intervalSeconds := i,
           be_notificationNodeId := n\<rparr>))
     | _ \<Rightarrow> do { logLine ''wake-up entry: cancelled or invalid''; State_Monad.return None }
   }"

definition promptPolicyEntry :: "('d, BlobEntry option) console" where
  "promptPolicyEntry = do {
     kind \<leftarrow> promptChar ''Entry kind: [c]onfiguration  [a]ssociation  [w]ake-up:'' ''caw'';
     case kind of
       None \<Rightarrow> do { logLine ''policy entry: cancelled''; State_Monad.return None }
     | Some k \<Rightarrow>
         if k = CHR ''c'' then promptConfigEntry
         else if k = CHR ''a'' then promptAssociationEntry
         else promptWakeUpEntry
   }"

section \<open>Agreement with the daemon\<close>

fun toBlob :: "PolicyEntry \<Rightarrow> BlobEntry" where
  "toBlob (Configuration c) = newEntry\<lparr>be_kind := POLICY_KIND_CONFIG, be_parameter := pc_parameter c, be_size := pc_size c,
     be_isSigned := pc_isSigned c, be_value := pc_value c\<rparr>"
| "toBlob (Association a) = newEntry\<lparr>be_kind := POLICY_KIND_ASSOC, be_groupId := pa_groupId a, be_members := pa_members a\<rparr>"
| "toBlob (WakeUp w) = newEntry\<lparr>be_kind := POLICY_KIND_WAKEUP, be_intervalSeconds := pw_intervalSeconds w,
     be_notificationNodeId := pw_notificationNodeId w\<rparr>"

lemma client_readU32Be_eq: "4 \<le> length bs \<Longrightarrow> client_readU32Be bs = readU32Be bs"
  by (cases bs rule: client_readU32Be.cases) (simp_all add: readU32Be_def eval_nat_numeral)

lemma client_appendU32Be_eq: "client_appendU32Be = appendU32Be"
  by (rule ext) (simp add: client_appendU32Be_def appendU32Be_def)

lemma decodePolicyEntry_eq:
  "decodePolicyEntry bs = map_option (map_prod toBlob id) (deserializeEntry bs)"
  by (cases bs) (simp_all add: decodePolicyEntry_def deserializeEntry_def blob_const_defs policy_const_defs
      client_readU32Be_eq Let_def not_less newEntry_def)

lemma decodePolicyLoop_eq: "decodePolicyLoop n bs = map_option (map toBlob) (deserializeEntries n bs)"
  by (induction n arbitrary: bs)
    (auto simp: decodePolicyEntry_eq option.map_comp comp_def split: option.splits prod.splits)

lemma decodePolicy_eq: "decodePolicy bs = map_option (map toBlob) (deserialize bs)"
  by (simp add: decodePolicy_def deserialize_def decodePolicyLoop_eq CLIENT_BLOB_VERSION_def POLICY_BLOB_VERSION_def)

lemma encodePolicyEntry_eq: "encodePolicyEntry (toBlob e) = serializeEntry e"
  by (cases e) (simp_all add: encodePolicyEntry_def client_appendU32Be_eq newEntry_def blob_const_defs policy_const_defs)

lemma encodePolicy_eq: "encodePolicy (map toBlob p) = serialize p"
  by (simp add: encodePolicy_def serialize_def encodePolicyEntry_eq comp_def CLIENT_BLOB_VERSION_def POLICY_BLOB_VERSION_def)

lemma client_sameSlot_eq: "client_sameSlot (toBlob a) (toBlob b) \<longleftrightarrow> sameSlot a b"
  by (cases a; cases b) (simp_all add: client_sameSlot_def newEntry_def blob_const_defs)

lemma replaceSlot_eq:
  "(case replaceSlot (toBlob e) (map toBlob p) of Some q \<Rightarrow> q | None \<Rightarrow> map toBlob p @ [toBlob e]) = map toBlob (overrideEntry e p)"
  by (induction p) (auto simp: client_sameSlot_eq split: option.splits)

lemma replaceSlot_hit: "replaceSlot (toBlob e) (map toBlob p) \<noteq> None \<longleftrightarrow> slotOf e \<in> slotOf ` set p"
  by (induction p) (auto simp: client_sameSlot_eq sameSlot_slotOf)

lemma applyEntry_daemon:
  "applyEntryToBlob [] (toBlob e) = Some (serialize [e], False)"
  "blob \<noteq> [] \<Longrightarrow> applyEntryToBlob blob (toBlob e) =
     map_option (\<lambda>q. (serialize (overrideEntry e q), slotOf e \<in> slotOf ` set q)) (deserialize blob)"
proof -
  show "applyEntryToBlob [] (toBlob e) = Some (serialize [e], False)"
    using encodePolicy_eq [of "[e]"] by (simp add: applyEntryToBlob_def)
  show "applyEntryToBlob blob (toBlob e) =
      map_option (\<lambda>q. (serialize (overrideEntry e q), slotOf e \<in> slotOf ` set q)) (deserialize blob)" if "blob \<noteq> []"
  proof (cases "deserialize blob")
    case (Some q)
    from replaceSlot_eq [where e = e and p = q] replaceSlot_hit [where e = e and p = q]
      encodePolicy_eq [of "overrideEntry e q"] Some that
    show ?thesis by (cases "replaceSlot (toBlob e) (map toBlob q)") (simp_all add: applyEntryToBlob_def decodePolicy_eq)
  qed (simp add: applyEntryToBlob_def decodePolicy_eq that)
qed

text \<open>
  The client edits policies exactly as the daemon would. For every blob, its codec decodes what the daemon decodes
  and refuses what the daemon refuses; for every entry, the edited blob is the daemon's encoding of the policy with the
  entry put in the place of the old entry of its slot, or behind the others when the slot was empty, as the client reports; a
  blob that cannot be decoded is not touched.
\<close>

theorem policy_edit_agrees:
  "decodePolicy blob = map_option (map toBlob) (deserialize blob) \<and>
   encodePolicy (map toBlob p) = serialize p \<and>
   applyEntryToBlob [] (toBlob e) = Some (serialize [e], False) \<and>
   (blob \<noteq> [] \<longrightarrow> applyEntryToBlob blob (toBlob e) =
      map_option (\<lambda>q. (serialize (overrideEntry e q), slotOf e \<in> slotOf ` set q)) (deserialize blob))"
  by (simp add: decodePolicy_eq encodePolicy_eq applyEntry_daemon)

theorem policy_edit_agrees_witness:
  "applyEntryToBlob [1, 1, 3, 0, 0, 14, 16, 1] (toBlob (WakeUp \<lparr>pw_intervalSeconds = 60, pw_notificationNodeId = 1\<rparr>)) =
     Some ([1, 1, 3, 0, 0, 0, 60, 1], True)"
proof -
  have "deserialize [1, 1, 3, 0, 0, 14, 16, 1] = Some [WakeUp \<lparr>pw_intervalSeconds = 3600, pw_notificationNodeId = 1\<rparr>]"
    by code_simp
  moreover have "serialize [WakeUp \<lparr>pw_intervalSeconds = 60, pw_notificationNodeId = 1\<rparr>] = [1, 1, 3, 0, 0, 0, 60, 1]"
    by code_simp
  ultimately show ?thesis
    using policy_edit_agrees [of "[1, 1, 3, 0, 0, 14, 16, 1]" "[]" "WakeUp \<lparr>pw_intervalSeconds = 60, pw_notificationNodeId = 1\<rparr>"]
    by simp
qed

end
