(* ===== verification/Terminal_Format.thy ===== *)
theory Terminal_Format
  imports Terminal_Policy
begin

text \<open>
  The texts of the terminal client: \<open>src/utils/zwave-terminal/format.cpp\<close> and the small formatters of
  \<open>handlers.cpp\<close>. A null pointer is \<open>None\<close>.
\<close>

section \<open>Hexadecimal\<close>

definition hexDigitLower :: "nat \<Rightarrow> char" where
  "hexDigitLower d = ''0123456789abcdef'' ! d"

fun hexString :: "(nat \<Rightarrow> char) \<Rightarrow> nat \<Rightarrow> string" where
  "hexString digit n = (if n < 16 then [digit n] else hexString digit (n div 16) @ [digit (n mod 16)])"

declare hexString.simps [simp del]

text \<open>\<open>std::setw\<close> with the fill character zero.\<close>

definition zeroFill :: "nat \<Rightarrow> string \<Rightarrow> string" where
  "zeroFill w s = replicate (w - length s) (CHR ''0'') @ s"

definition hex0 :: "nat \<Rightarrow> nat \<Rightarrow> string" where
  "hex0 w n = zeroFill w (hexString hexDigitLower n)"

definition HEX0 :: "nat \<Rightarrow> nat \<Rightarrow> string" where
  "HEX0 w n = zeroFill w (hexString hexDigit n)"

definition hex8 :: "byte \<Rightarrow> string" where "hex8 b = hex0 2 (unat b)"

section \<open>Names\<close>

definition formatNetworkStatus :: "byte \<Rightarrow> string" where
  "formatNetworkStatus status =
     (if status = 0x01 then ''Started''
      else if status = 0x02 then ''Node found''
      else if status = 0x03 then ''Ongoing - End Node''
      else if status = 0x04 then ''Ongoing - Controller''
      else if status = 0x05 then ''Protocol complete''
      else if status = 0x06 then ''Completed''
      else if status = 0x07 then ''Failed''
      else if status = 0x0B then ''Neighbors discovery done''
      else if status = 0x23 then ''Not primary''
      else ''?'')"

definition formatTxStatus :: "byte \<Rightarrow> string" where
  "formatTxStatus status =
     (if status = 0x00 then ''OK''
      else if status = 0x01 then ''No ACK''
      else if status = 0x02 then ''Failed''
      else if status = 0x03 then ''Routing not idle''
      else if status = 0x04 then ''No route''
      else if status = 0x05 then ''Verified''
      else ''?'')"

definition formatSwitchState :: "byte \<Rightarrow> string" where
  "formatSwitchState state =
     (if state = 0 then ''Off''
      else if state = 1 then ''On''
      else if state = 2 then ''Unknown''
      else ''?'')"

definition sensorTypeName :: "byte \<Rightarrow> string option" where
  "sensorTypeName sensorType =
     (if sensorType = 0x01 then Some ''Air temperature''
      else if sensorType = 0x03 then Some ''Luminance''
      else if sensorType = 0x04 then Some ''Power''
      else if sensorType = 0x05 then Some ''Humidity''
      else if sensorType = 0x11 then Some ''Moisture''
      else if sensorType = 0x1B then Some ''Ultraviolet''
      else None)"

definition meterTypeName :: "byte \<Rightarrow> string option" where
  "meterTypeName meterType =
     (if meterType = 0x01 then Some ''electric''
      else if meterType = 0x02 then Some ''gas''
      else if meterType = 0x03 then Some ''water''
      else None)"

definition thermostatModeName :: "byte \<Rightarrow> string option" where
  "thermostatModeName mode =
     (if mode = 0 then Some ''off''
      else if mode = 1 then Some ''heat''
      else if mode = 2 then Some ''cool''
      else if mode = 3 then Some ''auto''
      else if mode = 4 then Some ''aux heat''
      else if mode = 6 then Some ''fan only''
      else if mode = 8 then Some ''dry''
      else if mode = 10 then Some ''auto changeover''
      else if mode = 11 then Some ''energy-save heat''
      else if mode = 12 then Some ''energy-save cool''
      else if mode = 13 then Some ''away''
      else None)"

definition thermostatOperatingStateName :: "byte \<Rightarrow> string option" where
  "thermostatOperatingStateName state =
     (if state = 0 then Some ''idle''
      else if state = 1 then Some ''heating''
      else if state = 2 then Some ''cooling''
      else if state = 3 then Some ''fan only''
      else if state = 4 then Some ''pending heat''
      else if state = 5 then Some ''pending cool''
      else if state = 6 then Some ''vent/economizer''
      else None)"

definition thermostatFanModeName :: "byte \<Rightarrow> string option" where
  "thermostatFanModeName mode =
     (if mode = 0 then Some ''auto low''
      else if mode = 1 then Some ''low''
      else if mode = 2 then Some ''auto high''
      else if mode = 3 then Some ''high''
      else if mode = 4 then Some ''auto medium''
      else if mode = 5 then Some ''medium''
      else None)"

definition colorComponentName :: "byte \<Rightarrow> string option" where
  "colorComponentName componentId =
     (if componentId = 0 then Some ''warm white''
      else if componentId = 1 then Some ''cold white''
      else if componentId = 2 then Some ''red''
      else if componentId = 3 then Some ''green''
      else if componentId = 4 then Some ''blue''
      else if componentId = 5 then Some ''amber''
      else if componentId = 6 then Some ''cyan''
      else if componentId = 7 then Some ''purple''
      else None)"

definition centralSceneKeyName :: "byte \<Rightarrow> string option" where
  "centralSceneKeyName keyAttribute =
     (if keyAttribute = 0 then Some ''press 1x''
      else if keyAttribute = 1 then Some ''release''
      else if keyAttribute = 2 then Some ''hold''
      else if keyAttribute = 3 then Some ''press 2x''
      else if keyAttribute = 4 then Some ''press 3x''
      else if keyAttribute = 5 then Some ''press 4x''
      else if keyAttribute = 6 then Some ''press 5x''
      else None)"

definition client_libraryTypeName :: "byte \<Rightarrow> string" where
  "client_libraryTypeName libraryType =
     (if libraryType = 1 then ''Static Controller''
      else if libraryType = 2 then ''Controller''
      else if libraryType = 3 then ''Enhanced Slave''
      else if libraryType = 4 then ''Slave''
      else if libraryType = 5 then ''Installer''
      else if libraryType = 6 then ''Routing Slave''
      else if libraryType = 7 then ''Bridge Controller''
      else if libraryType = 8 then ''DUT''
      else ''unknown'')"

definition sensorUnit :: "byte \<Rightarrow> byte \<Rightarrow> string" where
  "sensorUnit sensorType scale =
     (if sensorType = 0x01 then (if scale = 0 then ''C'' else ''F'')
      else if sensorType = 0x03 then (if scale = 0 then ''%'' else ''lux'')
      else if sensorType = 0x04 then (if scale = 0 then ''W'' else ''BTU/h'')
      else if sensorType = 0x05 then (if scale = 0 then ''%'' else ''g/m3'')
      else [])"

definition meterUnit :: "byte \<Rightarrow> byte \<Rightarrow> string" where
  "meterUnit meterType scale =
     (if meterType = 0x01
      then if scale = 0 then ''kWh'' else if scale = 1 then ''kVAh'' else if scale = 2 then ''W''
           else if scale = 4 then ''V'' else if scale = 5 then ''A'' else []
      else if meterType = 0x02 \<or> meterType = 0x03 then (if scale = 0 then ''m3'' else [])
      else [])"

definition CC_NAMES :: "(byte \<times> string) list" where
  "CC_NAMES = [
     (0x20, ''Basic''), (0x22, ''ApplicationStatus''), (0x25, ''SwitchBinary''), (0x26, ''SwitchMultilevel''),
     (0x27, ''SwitchAll''), (0x2B, ''SceneActivation''), (0x2C, ''SceneActuatorConf''),
     (0x2D, ''SceneControllerConf''), (0x30, ''SensorBinary''), (0x31, ''SensorMultilevel''),
     (0x32, ''Meter''), (0x33, ''ColorSwitch''), (0x40, ''ThermostatMode''),
     (0x42, ''ThermostatOperatingState''), (0x43, ''ThermostatSetpoint''), (0x44, ''ThermostatFanMode''),
     (0x45, ''ThermostatFanState''), (0x55, ''TransportService''), (0x56, ''Crc16Encap''),
     (0x59, ''AssociationGrpInfo''), (0x5A, ''DeviceResetLocally''), (0x5B, ''CentralScene''),
     (0x5E, ''ZwavePlusInfo''), (0x60, ''MultiChannel''), (0x62, ''DoorLock''), (0x63, ''UserCode''),
     (0x6C, ''Supervision''), (0x70, ''Configuration''), (0x71, ''Notification''),
     (0x72, ''ManufacturerSpecific''), (0x73, ''Powerlevel''), (0x75, ''Protection''), (0x77, ''NodeNaming''),
     (0x7A, ''FirmwareUpdateMd''), (0x80, ''Battery''), (0x81, ''Clock''), (0x82, ''Hail''),
     (0x84, ''WakeUp''), (0x85, ''Association''), (0x86, ''Version''), (0x87, ''Indicator''),
     (0x8E, ''MultiChannelAssociation''), (0x8F, ''MultiCmd''), (0x98, ''Security''), (0x9F, ''Security2'')]"

fun commandClassLoop :: "(byte \<times> string) list \<Rightarrow> byte \<Rightarrow> string option" where
  "commandClassLoop [] cc = None"
| "commandClassLoop ((i, name) # rest) cc = (if i = cc then Some name else commandClassLoop rest cc)"

definition commandClassName :: "byte \<Rightarrow> string option" where
  "commandClassName commandClass = commandClassLoop CC_NAMES commandClass"

definition securitySchemeName :: "byte \<Rightarrow> string" where
  "securitySchemeName scheme =
     (if scheme = 1 then ''S0'' else if scheme = 2 then ''S2 Unauthenticated'' else if scheme = 3 then ''S2 Authenticated''
      else if scheme = 4 then ''S2 Access Control'' else ''none'')"

section \<open>Lines\<close>

definition formatStatusEntry :: "string \<Rightarrow> byte \<Rightarrow> byte \<Rightarrow> u16 \<Rightarrow> string" where
  "formatStatusEntry operation sessionId status nodeId =
     operation @ '' session='' @ dec8 sessionId @ '' status=0x'' @ hex8 status @ '' ('' @ formatNetworkStatus status
     @ '') node='' @ decString (unat nodeId)"

definition ccText :: "byte \<Rightarrow> string" where
  "ccText cc = ''0x'' @ hex8 cc @ (case commandClassName cc of Some name \<Rightarrow> ''('' @ name @ '')'' | None \<Rightarrow> [])"

definition formatCcRange :: "bytes \<Rightarrow> string" where
  "formatCcRange ccs = ''['' @ joinSpaces (map ccText ccs) @ '']''"

definition CLIENT_CC_MARK :: byte where "CLIENT_CC_MARK = 0xEF"

definition formatCcList :: "bytes \<Rightarrow> string" where
  "formatCcList ccs =
     (let supported = takeWhile (\<lambda>b. b \<noteq> CLIENT_CC_MARK) ccs; rest = dropWhile (\<lambda>b. b \<noteq> CLIENT_CC_MARK) ccs
      in if rest = [] then ''supports='' @ formatCcRange ccs
         else ''supports='' @ formatCcRange supported @ '' controls='' @ formatCcRange (tl rest))"

text \<open>The age of a value: the seconds since a Unix time, never negative, in the largest unit.\<close>

definition ageText :: "int \<Rightarrow> 64 word \<Rightarrow> string" where
  "ageText now updatedAt =
     (let age = max 0 (now - sint updatedAt) in
      if age < 60 then decInt age @ ''s''
      else if age < 60 * 60 then decInt (age div 60) @ ''m''
      else if age < 24 * 60 * 60 then decInt (age div (60 * 60)) @ ''h''
      else decInt (age div (24 * 60 * 60)) @ ''d'')"

definition valueAge :: "int \<Rightarrow> 64 word \<Rightarrow> string" where
  "valueAge now updatedAt = ageText now updatedAt @ '' ago''"

definition renderAge :: "int \<Rightarrow> 64 word \<Rightarrow> string" where
  "renderAge now updatedAt = ageText now updatedAt"

definition hexWord :: "u16 \<Rightarrow> string" where
  "hexWord v = ''0x'' @ HEX0 4 (unat v)"

definition formatPayloadHex :: "bytes \<Rightarrow> string" where
  "formatPayloadHex payload = joinSpaces (map hex8 payload)"

end
