(* ===== verification/Terminal_View.thy ===== *)
theory Terminal_View
  imports Terminal_Format
begin

text \<open>
  What the terminal client draws: \<open>src/utils/zwave-terminal/render.cpp\<close>. A drawing function gives the list of
  its ncurses calls; the size of the screen, the colour support and the time are arguments.
\<close>

datatype drawAttr = Plain | Reversed | Banner int

datatype drawOp =
    PutText drawAttr int int string
  | Rule int int
  | Bar int int

definition LIST_WIDTH_MAX :: int where "LIST_WIDTH_MAX = 36"
definition LOG_ROWS :: int where "LOG_ROWS = 6"
definition NAME_COL :: int where "NAME_COL = 13"
definition STATE_COL :: int where "STATE_COL = 8"
definition VALUE_ID_COL :: int where "VALUE_ID_COL = 18"
definition VALUE_COL :: int where "VALUE_COL = 10"
definition CP_WARN :: int where "CP_WARN = 1"
definition CP_ERROR :: int where "CP_ERROR = 2"
definition CP_CRITICAL :: int where "CP_CRITICAL = 3"
definition CC_SECURITY_2_ID :: byte where "CC_SECURITY_2_ID = 0x9F"
definition CC_SECURITY_0_ID :: byte where "CC_SECURITY_0_ID = 0x98"

definition hex2 :: "byte \<Rightarrow> string" where
  "hex2 b = [hexDigit (unat (drop_bit 4 b)), hexDigit (unat (b AND 0x0F))]"

definition securityLabel :: "bytes \<Rightarrow> string" where
  "securityLabel ccs =
     (if CC_SECURITY_2_ID \<in> set ccs then ''S2'' else if CC_SECURITY_0_ID \<in> set ccs then ''S0'' else ''-'')"

definition fit :: "string \<Rightarrow> int \<Rightarrow> string" where
  "fit tx width =
     (if width \<le> 0 then []
      else if int (length tx) \<le> width then tx
      else if width = 1 then take 1 tx
      else take (nat width - 1) tx @ ''~'')"

definition padRight :: "string \<Rightarrow> int \<Rightarrow> string" where
  "padRight tx width =
     (let cell = fit tx width in
      if int (length cell) < width then cell @ replicate (nat width - length cell) (CHR '' '') else cell)"

definition errorBanner :: "byte \<Rightarrow> string \<times> int" where
  "errorBanner severity =
     (if severity = 2 then (''WARN'', CP_WARN) else if severity = 3 then (''ERROR'', CP_ERROR)
      else if severity = 4 then (''CRITICAL'', CP_CRITICAL) else (''INFO'', 0))"

text \<open>The calls, and the first row of the body.\<close>

definition drawHeader :: "bool \<Rightarrow> int \<Rightarrow> ActivityState \<Rightarrow> NodeModel \<Rightarrow> drawOp list \<times> int" where
  "drawHeader colours maxX st md =
     (let dongle = (if as_dongleConnected st then ''* '' @ as_donglePath st else ''o disconnected'');
          title = [PutText Plain 0 0 ('' zwave-terminal   Dongle: '' @ dongle @ ''   '' @ decString (length (nm_rows md)) @ '' nodes'')];
          err = as_daemonError st;
          (label, colorPair) = errorBanner (es_severity err);
          banner = (if es_message err = [] then []
             else [PutText (if colorPair \<noteq> 0 \<and> colours then Banner colorPair else Plain) 1 0
                     ('' ! '' @ label @ '' ['' @ es_source err @ '' 0x'' @ HEX0 2 (unat (es_code err)) @ '']: '' @ es_message err)]);
          row2 = 1 + int (length banner);
          pending = as_dskPending st;
          confirm = (if \<not> dp_active pending then []
             else [PutText (if colours then Banner CP_WARN else Plain) row2 0
                     ('' DSK confirm: node '' @ dec8 (dp_nodeId pending) @ ''  '' @ dp_dsk pending @ ''  -> press [k] to enter PIN'')]);
          row3 = row2 + int (length confirm)
      in (title @ banner @ confirm @ [Rule row3 maxX], row3 + 1))"

definition nodeLine :: "NodeRow \<Rightarrow> string" where
  "nodeLine node =
     '' '' @ padRight (dec8 (nw_id node)) 3 @ ''  '' @ padRight (if nw_name node = [] then ''(unnamed)'' else nw_name node) NAME_COL
     @ ''  '' @ padRight (nw_state node) STATE_COL @ ''  '' @ securityLabel (nw_commandClasses node)"

text \<open>The loop of \<open>drawNodeList\<close> from an index and a row on.\<close>

fun drawRows :: "nat \<Rightarrow> int \<Rightarrow> int \<Rightarrow> nat \<Rightarrow> int \<Rightarrow> NodeRow list \<Rightarrow> drawOp list" where
  "drawRows selected bottom width i row [] = []"
| "drawRows selected bottom width i row (node # nodes) =
     (if row \<le> bottom
      then PutText (if i = selected then Reversed else Plain) row 0 (fit (nodeLine node) width)
           # drawRows selected bottom width (Suc i) (row + 1) nodes
      else [])"

definition drawNodeList :: "int \<Rightarrow> int \<Rightarrow> int \<Rightarrow> NodeModel \<Rightarrow> drawOp list" where
  "drawNodeList upper bottom width md =
     (let header = '' '' @ padRight ''#'' 3 @ ''  '' @ padRight ''name'' NAME_COL @ ''  '' @ padRight ''state'' STATE_COL @ ''  sec'';
          heading = (if upper + 1 \<le> bottom then [PutText Plain (upper + 1) 0 (fit header width)] else [])
      in [PutText Plain upper 0 '' Nodes''] @ heading
         @ drawRows (nm_selected md) bottom width 0 (upper + 1 + int (length heading)) (nm_rows md))"

definition valueLine :: "int \<Rightarrow> NodeValueRow \<Rightarrow> string" where
  "valueLine now v = ''  '' @ fit (vr_valueId v) VALUE_ID_COL @ '' '' @ fit (vr_value v) VALUE_COL @ '' ('' @ renderAge now (vr_updatedAt v) @ '')''"

text \<open>Lines put one below the other as long as the row is within the pane.\<close>

fun putLines :: "int \<Rightarrow> int \<Rightarrow> int \<Rightarrow> int \<Rightarrow> string list \<Rightarrow> drawOp list" where
  "putLines bottom left width row [] = []"
| "putLines bottom left width row (l # ls) =
     (if row \<le> bottom then PutText Plain row left (fit l width) # putLines bottom left width (row + 1) ls else [])"

definition drawDetail :: "int \<Rightarrow> int \<Rightarrow> int \<Rightarrow> int \<Rightarrow> int \<Rightarrow> NodeModel \<Rightarrow> drawOp list" where
  "drawDetail now upper bottom left width md =
     (if nm_selected md \<ge> length (nm_rows md) then [PutText Plain upper left (fit ''(no node selected)'' width)]
      else let node = nm_rows md ! nm_selected md;
               title = ''Node '' @ dec8 (nw_id node) @ (if nw_name node = [] then [] else '' - '' @ nw_name node);
               classes = ''class '' @ hex2 (nw_basicType node) @ ''/'' @ hex2 (nw_genericType node) @ ''/''
                 @ hex2 (nw_specificType node) @ ''  sec '' @ securityLabel (nw_commandClasses node)
           in PutText Plain upper left (fit title width)
              # putLines bottom left width (upper + 1)
                  ([classes, ''CC '' @ formatCcList (nw_commandClasses node), ''values:'']
                   @ (if nw_values node = [] then [''  (none reported yet)''] else [])
                   @ map (valueLine now) (nw_values node)))"

definition drawLog :: "int \<Rightarrow> int \<Rightarrow> int \<Rightarrow> string list \<Rightarrow> drawOp list" where
  "drawLog upper bottom maxX log =
     (let row = upper + 1; available = bottom - row + 1;
          start = (if available > 0 \<and> length log > nat available then length log - nat available else 0)
      in Rule upper maxX # putLines bottom 0 maxX row (drop start log))"

definition hintLine :: "byte \<Rightarrow> string" where
  "hintLine lastSession =
     '' up/dn select | [c]ontrol [g]et [f]ail [L]ifeline | [a]dd [x]remove |'' @
     '' [p]olicy [e]scenes [h]vac [l]ist [n]et [i]nfo [r]efresh (s:'' @ dec8 lastSession @ '') [q]uit''"

text \<open>C++ division rounds towards zero; a screen has no negative width.\<close>

definition draw :: "bool \<Rightarrow> int \<Rightarrow> nat \<Rightarrow> nat \<Rightarrow> byte \<Rightarrow> ActivityState \<Rightarrow> NodeModel \<Rightarrow> drawOp list" where
  "draw colours now maxY maxX lastSession st md =
     (let (header, bodyTop) = drawHeader colours (int maxX) st md;
          hintRow = int maxY - 1; logBottom = hintRow - 1; logTop = logBottom - LOG_ROWS; bodyBottom = logTop - 1;
          listWidth = min LIST_WIDTH_MAX (int (maxX div 2)); detailLeft = listWidth + 2
      in header
         @ (if bodyBottom \<ge> bodyTop
            then drawNodeList bodyTop bodyBottom listWidth md
                 @ map (\<lambda>row. Bar row listWidth) [bodyTop .. bodyBottom]
                 @ drawDetail now bodyTop bodyBottom detailLeft (int maxX - detailLeft) md
            else [])
         @ (if logTop \<ge> bodyTop \<and> logTop < hintRow then drawLog logTop logBottom (int maxX) (as_log st) else [])
         @ [PutText Plain hintRow 0 (fit (hintLine lastSession) (int maxX))])"

text \<open>\<open>runInfoModal\<close> up to the key it waits for.\<close>

fun modalLines :: "int \<Rightarrow> int \<Rightarrow> int \<Rightarrow> string list \<Rightarrow> drawOp list" where
  "modalLines maxY maxX row [] = []"
| "modalLines maxY maxX row (l # ls) =
     (if row \<ge> maxY - 1 then [] else PutText Plain row 0 ('' '' @ fit l (maxX - 1)) # modalLines maxY maxX (row + 1) ls)"

definition infoModal :: "int \<Rightarrow> int \<Rightarrow> string \<Rightarrow> string list \<Rightarrow> drawOp list" where
  "infoModal maxY maxX title ls =
     [PutText Plain 0 0 ('' '' @ fit title (maxX - 1)), Rule 1 maxX] @ modalLines maxY maxX 2 ls
     @ [PutText Plain (maxY - 1) 0 (fit '' press any key to return'' maxX)]"

section \<open>Everything stays in its pane\<close>

fun inBox :: "int \<Rightarrow> int \<Rightarrow> int \<Rightarrow> int \<Rightarrow> drawOp \<Rightarrow> bool" where
  "inBox upper bottom left right (PutText a row col tx) \<longleftrightarrow>
     upper \<le> row \<and> row \<le> bottom \<and> left \<le> col \<and> col + int (length tx) \<le> right"
| "inBox upper bottom left right (Rule row n) \<longleftrightarrow> upper \<le> row \<and> row \<le> bottom \<and> left \<le> 0 \<and> n \<le> right"
| "inBox upper bottom left right (Bar row col) \<longleftrightarrow> upper \<le> row \<and> row \<le> bottom \<and> left \<le> col \<and> col < right"

lemma length_fit: "0 \<le> width \<Longrightarrow> int (length (fit tx width)) \<le> width"
  by (auto simp: fit_def)

lemma length_padRight: "0 \<le> width \<Longrightarrow> int (length (padRight tx width)) = width"
  using length_fit [of width tx] by (auto simp: padRight_def Let_def)

lemma putLines_inBox:
  "0 \<le> width \<Longrightarrow> upper \<le> row \<Longrightarrow> list_all (inBox upper bottom left (left + width)) (putLines bottom left width row ls)"
  by (induction ls arbitrary: row) (auto simp: length_fit)

lemma drawRows_inBox:
  "0 \<le> width \<Longrightarrow> upper \<le> row \<Longrightarrow> list_all (inBox upper bottom 0 width) (drawRows sel bottom width i row ns)"
  by (induction ns arbitrary: row i) (auto simp: length_fit)

lemma drawNodeList_inBox:
  "6 \<le> width \<Longrightarrow> upper \<le> bottom \<Longrightarrow> list_all (inBox upper bottom 0 width) (drawNodeList upper bottom width md)"
  by (simp add: drawNodeList_def Let_def length_fit drawRows_inBox)

lemma drawDetail_inBox:
  "0 \<le> width \<Longrightarrow> upper \<le> bottom \<Longrightarrow> list_all (inBox upper bottom left (left + width)) (drawDetail now upper bottom left width md)"
  using putLines_inBox [of width upper "upper + 1" bottom left] by (simp add: drawDetail_def Let_def length_fit del: putLines.simps)

lemma drawLog_inBox: "0 \<le> maxX \<Longrightarrow> upper \<le> bottom \<Longrightarrow> list_all (inBox upper bottom 0 maxX) (drawLog upper bottom maxX ls)"
  using putLines_inBox [of maxX upper "upper + 1" bottom 0] by (simp add: drawLog_def Let_def)

lemma drawRows_highlight:
  "PutText Reversed r 0 t \<in> set (drawRows sel bottom width i row ns) \<longleftrightarrow>
     i \<le> sel \<and> sel < i + length ns \<and> r = row + int (sel - i) \<and> r \<le> bottom \<and> t = fit (nodeLine (ns ! (sel - i))) width"
proof (induction ns arbitrary: i row)
  case (Cons n ns)
  show ?case
  proof (cases "i = sel")
    case True
    have "\<not> (Suc i \<le> sel)" using True by simp
    then show ?thesis using Cons [of "Suc i" "row + 1"] True by auto
  next
    case False
    have "i \<le> sel \<longleftrightarrow> Suc i \<le> sel" using False by auto
    moreover have "Suc i \<le> sel \<Longrightarrow> (n # ns) ! (sel - i) = ns ! (sel - Suc i) \<and> int (sel - i) = int (sel - Suc i) + 1"
      by (auto simp: nth_Cons' Suc_diff_Suc [symmetric] of_nat_diff)
    ultimately show ?thesis using Cons [of "Suc i" "row + 1"] False by (cases "row \<le> bottom") auto
  qed
qed simp

text \<open>
  The screen is divided. On a screen of at least twelve columns, whatever the nodes, values, names and log lines
  are, the node list is drawn left of the separator, the detail pane right of it, the separator between them, and the
  log below both, all on their own rows, above the hint line; and the selected node is highlighted exactly when its row is among those that fit the
  pane. No text is wrapped into another pane.
\<close>

theorem panes_disjoint:
  fixes maxX maxY :: nat and st :: ActivityState and md :: NodeModel and colours :: bool
  assumes "12 \<le> maxX" and "drawHeader colours (int maxX) st md = (header, bodyTop)"
  defines "listWidth \<equiv> min LIST_WIDTH_MAX (int (maxX div 2))" and "logTop \<equiv> int maxY - 2 - LOG_ROWS"
  assumes "bodyTop < logTop"
  shows "\<exists>nodes bars detail log hint.
      draw colours now maxY maxX lastSession st md = header @ nodes @ bars @ detail @ log @ [hint] \<and>
      list_all (inBox bodyTop (logTop - 1) 0 listWidth) nodes \<and>
      list_all (inBox bodyTop (logTop - 1) listWidth (listWidth + 1)) bars \<and>
      list_all (inBox bodyTop (logTop - 1) (listWidth + 2) (int maxX)) detail \<and>
      list_all (inBox logTop (int maxY - 2) 0 (int maxX)) log \<and>
      inBox (int maxY - 1) (int maxY - 1) 0 (int maxX) hint \<and>
      ((\<exists>r t. PutText Reversed r 0 t \<in> set nodes) \<longleftrightarrow>
        nm_selected md < length (nm_rows md) \<and> int (nm_selected md) < logTop - bodyTop - 2)"
proof -
  let ?bottom = "logTop - 1" and ?left = "listWidth + 2"
  let ?nodes = "drawNodeList bodyTop ?bottom listWidth md"
  let ?bars = "map (\<lambda>row. Bar row listWidth) [bodyTop .. ?bottom]"
  let ?detail = "drawDetail now bodyTop ?bottom ?left (int maxX - ?left) md"
  let ?log = "drawLog logTop (int maxY - 2) (int maxX) (as_log st)"
  let ?hint = "PutText Plain (int maxY - 1) 0 (fit (hintLine lastSession) (int maxX))"
  have width: "6 \<le> listWidth" "?left \<le> int maxX"
    using assms(1) by (auto simp: listWidth_def LIST_WIDTH_MAX_def)
  have logTop: "logTop = int maxY - 1 - 1 - LOG_ROWS" "logTop < int maxY - 1" "bodyTop \<le> ?bottom"
    using assms(5) by (simp_all add: logTop_def LOG_ROWS_def)
  have eq: "draw colours now maxY maxX lastSession st md = header @ ?nodes @ ?bars @ ?detail @ ?log @ [?hint]"
    using assms(2) logTop by (simp add: draw_def Let_def listWidth_def [symmetric] split: prod.splits)
  have bars: "list_all (inBox bodyTop ?bottom listWidth (listWidth + 1)) ?bars"
    by (auto simp: list_all_iff)
  have detail: "list_all (inBox bodyTop ?bottom ?left (int maxX)) ?detail"
    using drawDetail_inBox [of "int maxX - ?left" bodyTop ?bottom ?left now md] width logTop by simp
  have log: "list_all (inBox logTop (int maxY - 2) 0 (int maxX)) ?log"
    using drawLog_inBox [of "int maxX" logTop "int maxY - 2" "as_log st"] logTop by simp
  have hint: "inBox (int maxY - 1) (int maxY - 1) 0 (int maxX) ?hint"
    using length_fit [of "int maxX" "hintLine lastSession"] by simp
  have high: "(\<exists>r t. PutText Reversed r 0 t \<in> set ?nodes) \<longleftrightarrow>
      nm_selected md < length (nm_rows md) \<and> int (nm_selected md) < logTop - bodyTop - 2"
    using logTop(3) by (auto simp: drawNodeList_def Let_def drawRows_highlight)
  show ?thesis
    using eq drawNodeList_inBox [OF width(1) logTop(3), of md] bars detail log hint high by blast
qed

definition demoModel :: NodeModel where
  "demoModel = \<lparr>nm_rows = [\<lparr>nw_id = 5, nw_basicType = 4, nw_genericType = 16, nw_specificType = 1,
       nw_commandClasses = [0x25], nw_name = ''Lamp'', nw_values = [], nw_state = ''on''\<rparr>], nm_selected = 0\<rparr>"

theorem panes_disjoint_witness:
  "\<exists>nodes bars detail log hint.
     draw False 0 24 80 0 newActivity demoModel = fst (drawHeader False 80 newActivity demoModel) @ nodes @ bars @ detail @ log @ [hint] \<and>
     list_all (inBox 2 15 0 36) nodes \<and> list_all (inBox 2 15 38 80) detail \<and> (\<exists>r t. PutText Reversed r 0 t \<in> set nodes)"
proof -
  have head: "drawHeader False (int 80) newActivity demoModel = (fst (drawHeader False 80 newActivity demoModel), 2)"
    by (simp add: drawHeader_def newActivity_def errorBanner_def)
  have room: "(2 :: int) < int 24 - 2 - LOG_ROWS" by (simp add: LOG_ROWS_def)
  from panes_disjoint [of 80, OF _ head room, where now = 0 and lastSession = 0] show ?thesis
    by (simp add: LIST_WIDTH_MAX_def LOG_ROWS_def demoModel_def) blast
qed

end
