(* ===== verification/Terminal_Actions.thy ===== *)
theory Terminal_Actions
  imports Terminal_View
begin

text \<open>
  The actions of the terminal client: \<open>src/utils/zwave-terminal/handlers.cpp\<close>, and the key dispatch of
  \<open>main.cpp\<close>. A handler prompts, calls the daemon and logs; an action that returns a text leaves an
  \<open>sdbus::Error\<close> to the main loop.
\<close>

section \<open>Shared steps\<close>

text \<open>Two characters of the source's texts outside ASCII, as their UTF-8 bytes.\<close>

definition ellipsis :: string where "ellipsis = [CHR 0xE2, CHR 0x80, CHR 0xA6]"
definition emDash :: string where "emDash = [CHR 0xE2, CHR 0x80, CHR 0x94]"

definition nextSession :: "('d, byte) console" where
  "nextSession = do {
     modify (\<lambda>c. c\<lparr>cs_session := cs_session c + 1\<rparr>);
     gets cs_session
   }"

text \<open>A call inside a \<open>try\<close> block, and one outside.\<close>

definition tryCall :: "'d proxy \<Rightarrow> string \<Rightarrow> dbusArg list \<Rightarrow> string \<Rightarrow> ('d, unit) console" where
  "tryCall proxy method args done_text = do {
     r \<leftarrow> callMethod proxy method args;
     case r of Inl err \<Rightarrow> logLine (method @ '' failed: '' @ err) | Inr _ \<Rightarrow> logLine done_text
   }"

definition callOrThrow :: "'d proxy \<Rightarrow> string \<Rightarrow> dbusArg list \<Rightarrow> string \<Rightarrow> ('d, string option) console" where
  "callOrThrow proxy method args done_text = do {
     r \<leftarrow> callMethod proxy method args;
     case r of
       Inl err \<Rightarrow> State_Monad.return (Some err)
     | Inr _ \<Rightarrow> do { logLine done_text; State_Monad.return None }
   }"

definition NODE_PROMPT :: string where "NODE_PROMPT = ''Node ID (1-232):''"
definition DURATION_DEFAULT :: byte where "DURATION_DEFAULT = 0xFF"
definition LIFELINE_GROUP :: byte where "LIFELINE_GROUP = 1"
definition CALLBACK_ID_NONE :: byte where "CALLBACK_ID_NONE = 0"
definition CC_ASSOCIATION_ID :: byte where "CC_ASSOCIATION_ID = 0x85"
definition LOGICAL_MODE_MIXED :: byte where "LOGICAL_MODE_MIXED = 0xFF"
definition MODE_CLASSIC :: byte where "MODE_CLASSIC = 1"
definition FLAGS_NONE :: byte where "FLAGS_NONE = 0"

section \<open>Reading from nodes\<close>

definition handleSwitchBinary :: "'d proxy \<Rightarrow> bool \<Rightarrow> ('d, string option) console" where
  "handleSwitchBinary proxy turnOn = do {
     nodeId \<leftarrow> promptNodeId NODE_PROMPT;
     case nodeId of
       None \<Rightarrow> do { logLine ''SetSwitchBinary: cancelled or invalid node id''; State_Monad.return None }
     | Some n \<Rightarrow> do {
         sid \<leftarrow> nextSession;
         callOrThrow proxy ''SetSwitchBinary'' [AByte n, ABool turnOn, AByte sid]
           (''SetSwitchBinary node='' @ dec8 n @ '' '' @ (if turnOn then ''ON'' else ''OFF'') @ '' callback='' @ dec8 sid)
       }
   }"

definition handleSetMultilevelSwitch :: "'d proxy \<Rightarrow> ('d, string option) console" where
  "handleSetMultilevelSwitch proxy = do {
     nodeId \<leftarrow> promptNodeId NODE_PROMPT;
     case nodeId of
       None \<Rightarrow> do { logLine ''SetMultilevelSwitch: cancelled or invalid node id''; State_Monad.return None }
     | Some n \<Rightarrow> do {
         level \<leftarrow> promptByte ''Level (0=off, 1-99=dim, 255=restore):'' ANY_BYTE_MIN ANY_BYTE_MAX;
         case level of
           None \<Rightarrow> do { logLine ''SetMultilevelSwitch: cancelled or invalid level''; State_Monad.return None }
         | Some l \<Rightarrow> do {
             duration \<leftarrow> promptByte ''Duration (0=instant, 1-127=sec, 128-254=min, 255=default):'' ANY_BYTE_MIN ANY_BYTE_MAX;
             case duration of
               None \<Rightarrow> do { logLine ''SetMultilevelSwitch: cancelled or invalid duration''; State_Monad.return None }
             | Some dur \<Rightarrow> do {
                 sid \<leftarrow> nextSession;
                 callOrThrow proxy ''SetMultilevelSwitch'' [AByte n, AByte l, AByte dur, AByte sid]
                   (''SetMultilevelSwitch node='' @ dec8 n @ '' level='' @ dec8 l @ '' duration=0x'' @ hex8 dur
                    @ '' callback='' @ dec8 sid)
               }
           }
       }
   }"

definition handleGetMultilevelSwitch :: "'d proxy \<Rightarrow> ('d, string option) console" where
  "handleGetMultilevelSwitch proxy = do {
     nodeId \<leftarrow> promptNodeId NODE_PROMPT;
     case nodeId of
       None \<Rightarrow> do { logLine ''GetMultilevelSwitch: cancelled or invalid node id''; State_Monad.return None }
     | Some n \<Rightarrow> do {
         sid \<leftarrow> nextSession;
         callOrThrow proxy ''GetMultilevelSwitch'' [AByte n, AByte sid]
           (''GetMultilevelSwitch node='' @ dec8 n @ '' callback='' @ dec8 sid)
       }
   }"

definition handleSimpleGet :: "'d proxy \<Rightarrow> string \<Rightarrow> ('d, unit) console" where
  "handleSimpleGet proxy method = do {
     nodeId \<leftarrow> promptNodeId NODE_PROMPT;
     case nodeId of
       None \<Rightarrow> logLine (method @ '': cancelled or invalid node id'')
     | Some n \<Rightarrow> do {
         sid \<leftarrow> nextSession;
         tryCall proxy method [AByte n, AByte sid] (method @ '' node='' @ dec8 n @ '' callback='' @ dec8 sid)
       }
   }"

text \<open>
  The readings with one more argument have one shape: the node, then the argument, each cancelling on its own, then the
  call. \<open>handleGet\<close> is that shape; the handlers differ in their texts and in how the argument is logged.
\<close>

definition handleGet :: "'d proxy \<Rightarrow> ('d, byte option) console \<Rightarrow> string \<Rightarrow> string \<Rightarrow> ('d, byte option) console \<Rightarrow>
    (byte \<Rightarrow> string) \<Rightarrow> ('d, unit) console" where
  "handleGet proxy askNode method what askArg logArg = do {
     nodeId \<leftarrow> askNode;
     case nodeId of
       None \<Rightarrow> logLine (method @ '': cancelled or invalid node id'')
     | Some n \<Rightarrow> do {
         arg \<leftarrow> askArg;
         case arg of
           None \<Rightarrow> logLine (method @ '': cancelled or invalid '' @ what)
         | Some a \<Rightarrow> do {
             sid \<leftarrow> nextSession;
             tryCall proxy method [AByte n, AByte a, AByte sid]
               (method @ '' node='' @ dec8 n @ logArg a @ '' callback='' @ dec8 sid)
           }
       }
   }"

definition handleGetConfiguration :: "'d proxy \<Rightarrow> ('d, unit) console" where
  "handleGetConfiguration proxy = handleGet proxy (promptNodeId NODE_PROMPT) ''GetConfiguration'' ''parameter''
     (promptByte ''Config parameter (0-255):'' ANY_BYTE_MIN ANY_BYTE_MAX) (\<lambda>p. '' param='' @ dec8 p)"

definition handleGetNotification :: "'d proxy \<Rightarrow> ('d, unit) console" where
  "handleGetNotification proxy = handleGet proxy (promptNodeId NODE_PROMPT) ''GetNotification'' ''notification type''
     (promptByte ''Notification type (0-255):'' ANY_BYTE_MIN ANY_BYTE_MAX)
     (\<lambda>t. '' type=0x'' @ hexString hexDigitLower (unat t))"

definition handleGetMeter :: "'d proxy \<Rightarrow> ('d, unit) console" where
  "handleGetMeter proxy = handleGet proxy (promptNodeId NODE_PROMPT) ''GetMeter'' ''scale''
     (promptByte (''Meter scale (0=kWh, 2=W, '' @ ellipsis @ ''):'') ANY_BYTE_MIN ANY_BYTE_MAX) (\<lambda>s. '' scale='' @ dec8 s)"

definition handleGetColorSwitch :: "'d proxy \<Rightarrow> ('d, unit) console" where
  "handleGetColorSwitch proxy = handleGet proxy (promptNodeId NODE_PROMPT) ''GetColorSwitch'' ''component''
     (promptByte (''Component (2=red, 3=green, 4=blue, '' @ ellipsis @ ''):'') ANY_BYTE_MIN ANY_BYTE_MAX)
     (\<lambda>k. '' component='' @ dec8 k)"

definition handleGetUserCode :: "'d proxy \<Rightarrow> ('d, unit) console" where
  "handleGetUserCode proxy = handleGet proxy (promptNodeId NODE_PROMPT) ''GetUserCode'' ''slot''
     (promptByte ''User code slot (1-255):'' ANY_BYTE_MIN ANY_BYTE_MAX) (\<lambda>s. '' slot='' @ dec8 s)"

definition handleGetThermostatSetpoint :: "'d proxy \<Rightarrow> ('d, unit) console" where
  "handleGetThermostatSetpoint proxy = handleGet proxy (promptNodeId NODE_PROMPT) ''GetThermostatSetpoint'' ''setpoint type''
     (promptByte ''Setpoint type (1=heating, 2=cooling):'' ANY_BYTE_MIN ANY_BYTE_MAX) (\<lambda>t. '' type='' @ dec8 t)"

definition handleGetAssociation :: "'d proxy \<Rightarrow> ('d, unit) console" where
  "handleGetAssociation proxy = handleGet proxy (promptByte NODE_PROMPT NODE_ID_MIN NODE_ID_MAX) ''GetAssociation'' ''group id''
     (promptByte ''Group ID (1-255):'' GROUP_ID_MIN GROUP_ID_MAX) (\<lambda>g. '' group='' @ dec8 g)"

definition handleGetAssociationGroupings :: "'d proxy \<Rightarrow> ('d, unit) console" where
  "handleGetAssociationGroupings proxy = do {
     nodeId \<leftarrow> promptByte NODE_PROMPT NODE_ID_MIN NODE_ID_MAX;
     case nodeId of
       None \<Rightarrow> logLine ''GetAssociationGroupings: cancelled or invalid node id''
     | Some n \<Rightarrow> do {
         sid \<leftarrow> nextSession;
         tryCall proxy ''GetAssociationGroupings'' [AByte n, AByte sid]
           (''GetAssociationGroupings node='' @ dec8 n @ '' callback='' @ dec8 sid)
       }
   }"

section \<open>Setting on nodes\<close>

text \<open>The setters ask for everything first and cancel once if anything is missing.\<close>

definition handleGetMultiChannelCapability :: "'d proxy \<Rightarrow> ('d, unit) console" where
  "handleGetMultiChannelCapability proxy = do {
     nodeId \<leftarrow> promptNodeId NODE_PROMPT;
     endpoint \<leftarrow> promptByte ''Endpoint (1-127):'' 1 ANY_BYTE_MAX;
     case (nodeId, endpoint) of
       (Some n, Some e) \<Rightarrow> do {
         sid \<leftarrow> nextSession;
         tryCall proxy ''GetMultiChannelCapability'' [AByte n, AByte e, AByte sid]
           (''GetMultiChannelCapability node='' @ dec8 n @ '' endpoint='' @ dec8 e @ '' callback='' @ dec8 sid)
       }
     | _ \<Rightarrow> logLine ''GetMultiChannelCapability: cancelled or invalid''
   }"

definition handleSetColorSwitch :: "'d proxy \<Rightarrow> ('d, unit) console" where
  "handleSetColorSwitch proxy = do {
     nodeId \<leftarrow> promptNodeId NODE_PROMPT;
     red \<leftarrow> promptByte ''Red (0-255):'' ANY_BYTE_MIN ANY_BYTE_MAX;
     green \<leftarrow> promptByte ''Green (0-255):'' ANY_BYTE_MIN ANY_BYTE_MAX;
     blue \<leftarrow> promptByte ''Blue (0-255):'' ANY_BYTE_MIN ANY_BYTE_MAX;
     case (nodeId, red, green, blue) of
       (Some n, Some r, Some g, Some b) \<Rightarrow> do {
         sid \<leftarrow> nextSession;
         tryCall proxy ''SetColorSwitch'' [AByte n, ABytes [2, r, 3, g, 4, b], AByte DURATION_DEFAULT, AByte sid]
           (''SetColorSwitch node='' @ dec8 n @ '' rgb='' @ dec8 r @ '','' @ dec8 g @ '','' @ dec8 b @ '' callback='' @ dec8 sid)
       }
     | _ \<Rightarrow> logLine ''SetColorSwitch: cancelled or invalid''
   }"

text \<open>A node, one byte and the call: the shape of five setters.\<close>

definition handleSetByte :: "'d proxy \<Rightarrow> string \<Rightarrow> string \<Rightarrow> string \<Rightarrow> ('d, unit) console" where
  "handleSetByte proxy method label field = do {
     nodeId \<leftarrow> promptNodeId NODE_PROMPT;
     val \<leftarrow> promptByte label ANY_BYTE_MIN ANY_BYTE_MAX;
     case (nodeId, val) of
       (Some n, Some v) \<Rightarrow> do {
         sid \<leftarrow> nextSession;
         tryCall proxy method [AByte n, AByte v, AByte sid]
           (method @ '' node='' @ dec8 n @ '' '' @ field @ ''='' @ dec8 v @ '' callback='' @ dec8 sid)
       }
     | _ \<Rightarrow> logLine (method @ '': cancelled or invalid'')
   }"

definition handleSetDoorLock :: "'d proxy \<Rightarrow> ('d, unit) console" where
  "handleSetDoorLock proxy = handleSetByte proxy ''SetDoorLock'' ''Lock mode (0x00 unsecured, 0xFF secured):'' ''mode''"

definition handleSetIndicator :: "'d proxy \<Rightarrow> ('d, unit) console" where
  "handleSetIndicator proxy = handleSetByte proxy ''SetIndicator'' ''Indicator value (0=off, 0xFF=on, 1-99=level):'' ''value''"

definition handleSetBasic :: "'d proxy \<Rightarrow> ('d, unit) console" where
  "handleSetBasic proxy = handleSetByte proxy ''SetBasic'' ''Basic value (0=off, 0xFF=on, 1-99=level):'' ''value''"

definition handleSetThermostatMode :: "'d proxy \<Rightarrow> ('d, unit) console" where
  "handleSetThermostatMode proxy =
     handleSetByte proxy ''SetThermostatMode'' ''Thermostat mode (0=off, 1=heat, 2=cool, 3=auto):'' ''mode''"

definition handleSetUserCode :: "'d proxy \<Rightarrow> ('d, unit) console" where
  "handleSetUserCode proxy = do {
     nodeId \<leftarrow> promptNodeId NODE_PROMPT;
     slot \<leftarrow> promptByte ''User code slot (1-255):'' ANY_BYTE_MIN ANY_BYTE_MAX;
     status \<leftarrow> promptByte ''Status (0x00 available/clear, 0x01 enabled):'' ANY_BYTE_MIN ANY_BYTE_MAX;
     code \<leftarrow> promptLine ''Code (4-10 digits; blank to clear):'';
     case (nodeId, slot, status, code) of
       (Some n, Some s, Some st, Some cd) \<Rightarrow> do {
         let codeBytes = map of_char cd;
         sid \<leftarrow> nextSession;
         tryCall proxy ''SetUserCode'' [AByte n, AByte s, AByte st, ABytes codeBytes, AByte sid]
           (''SetUserCode node='' @ dec8 n @ '' slot='' @ dec8 s @ '' codeLen='' @ decString (length codeBytes)
            @ '' callback='' @ dec8 sid)
       }
     | _ \<Rightarrow> logLine ''SetUserCode: cancelled or invalid''
   }"

definition handleSetThermostatSetpoint :: "'d proxy \<Rightarrow> ('d, unit) console" where
  "handleSetThermostatSetpoint proxy = do {
     nodeId \<leftarrow> promptNodeId NODE_PROMPT;
     setpointType \<leftarrow> promptByte ''Setpoint type (1=heating, 2=cooling):'' ANY_BYTE_MIN ANY_BYTE_MAX;
     precision \<leftarrow> promptByte ''Precision (decimals, e.g. 1):'' ANY_BYTE_MIN ANY_BYTE_MAX;
     scale \<leftarrow> promptByte ''Scale (0=C, 1=F):'' ANY_BYTE_MIN ANY_BYTE_MAX;
     val \<leftarrow> promptInt32 ''Raw value (e.g. 215 for 21.5 at precision 1):'';
     case (nodeId, setpointType, precision, scale, val) of
       (Some n, Some t, Some p, Some s, Some v) \<Rightarrow> do {
         sid \<leftarrow> nextSession;
         tryCall proxy ''SetThermostatSetpoint'' [AByte n, AByte t, AByte p, AByte s, AInt v, AByte sid]
           (''SetThermostatSetpoint node='' @ dec8 n @ '' type='' @ dec8 t @ '' value='' @ decInt (sint v)
            @ '' callback='' @ dec8 sid)
       }
     | _ \<Rightarrow> logLine ''SetThermostatSetpoint: cancelled or invalid''
   }"

definition handleSetThermostatFanMode :: "'d proxy \<Rightarrow> ('d, unit) console" where
  "handleSetThermostatFanMode proxy = do {
     nodeId \<leftarrow> promptNodeId NODE_PROMPT;
     mode \<leftarrow> promptByte ''Fan mode (0=auto low, 1=low, 2=auto high, 3=high):'' ANY_BYTE_MIN ANY_BYTE_MAX;
     offVal \<leftarrow> promptByte ''Fan off? (0=no, 1=yes):'' ANY_BYTE_MIN ANY_BYTE_MAX;
     case (nodeId, mode, offVal) of
       (Some n, Some m, Some v) \<Rightarrow> do {
         let off = (v \<noteq> 0);
         sid \<leftarrow> nextSession;
         tryCall proxy ''SetThermostatFanMode'' [AByte n, AByte m, ABool off, AByte sid]
           (''SetThermostatFanMode node='' @ dec8 n @ '' mode='' @ dec8 m @ (if off then '' off'' else [])
            @ '' callback='' @ dec8 sid)
       }
     | _ \<Rightarrow> logLine ''SetThermostatFanMode: cancelled or invalid''
   }"

definition handleSetConfiguration :: "'d proxy \<Rightarrow> ('d, unit) console" where
  "handleSetConfiguration proxy = do {
     nodeId \<leftarrow> promptNodeId NODE_PROMPT;
     parameter \<leftarrow> promptByte ''Config parameter (0-255):'' ANY_BYTE_MIN ANY_BYTE_MAX;
     sz \<leftarrow> promptByte ''Value size bytes (1, 2, or 4):'' CONFIG_SIZE_MIN CONFIG_SIZE_MAX;
     val \<leftarrow> promptInt32 ''Value (signed int32):'';
     case (nodeId, parameter, sz, val) of
       (Some n, Some p, Some s, Some v) \<Rightarrow>
         if s \<noteq> 1 \<and> s \<noteq> 2 \<and> s \<noteq> 4 then logLine ''SetConfiguration: cancelled or invalid (size must be 1/2/4)''
         else do {
           sid \<leftarrow> nextSession;
           tryCall proxy ''SetConfiguration'' [AByte n, AByte p, AByte s, ABool (sint v < 0), AInt v, AByte sid]
             (''SetConfiguration node='' @ dec8 n @ '' param='' @ dec8 p @ '' size='' @ dec8 s @ '' value=''
              @ decInt (sint v) @ '' callback='' @ dec8 sid)
         }
     | _ \<Rightarrow> logLine ''SetConfiguration: cancelled or invalid (size must be 1/2/4)''
   }"

definition handleSetWakeUpInterval :: "'d proxy \<Rightarrow> ('d, unit) console" where
  "handleSetWakeUpInterval proxy = do {
     nodeId \<leftarrow> promptNodeId NODE_PROMPT;
     seconds \<leftarrow> promptU32 ''Interval seconds (0..16777215):'';
     notify \<leftarrow> promptByte ''Notify node id (0=controller):'' ANY_BYTE_MIN ANY_BYTE_MAX;
     case (nodeId, seconds, notify) of
       (Some n, Some s, Some t) \<Rightarrow> do {
         sid \<leftarrow> nextSession;
         tryCall proxy ''SetWakeUpInterval'' [AByte n, AU32 s, AByte t, AByte sid]
           (''SetWakeUpInterval node='' @ dec8 n @ '' interval='' @ decString (unat s) @ ''s notify='' @ dec8 t
            @ '' callback='' @ dec8 sid)
       }
     | _ \<Rightarrow> logLine ''SetWakeUpInterval: cancelled or invalid''
   }"

definition handleAssociationEdit :: "'d proxy \<Rightarrow> string \<Rightarrow> ('d, unit) console" where
  "handleAssociationEdit proxy method = do {
     nodeId \<leftarrow> promptNodeId NODE_PROMPT;
     groupId \<leftarrow> promptByte ''Group id (1-255):'' GROUP_ID_MIN GROUP_ID_MAX;
     members \<leftarrow> promptNodeList ''Member node ids (space/comma separated):'';
     case (nodeId, groupId, members) of
       (Some n, Some g, Some ms) \<Rightarrow> do {
         sid \<leftarrow> nextSession;
         tryCall proxy method [AByte n, AByte g, ABytes ms, AByte sid]
           (method @ '' node='' @ dec8 n @ '' group='' @ dec8 g @ '' members='' @ decString (length ms)
            @ '' callback='' @ dec8 sid)
       }
     | _ \<Rightarrow> logLine (method @ '': cancelled or invalid'')
   }"

definition fetchControllerNodeId :: "'d proxy \<Rightarrow> ('d, byte option) console" where
  "fetchControllerNodeId proxy = do {
     info \<leftarrow> callFor getDongle proxy ''GetDongleInfo'' [];
     case info of
       Inl err \<Rightarrow> do { logLine (''GetDongleInfo failed: '' @ err); State_Monad.return None }
     | Inr (_, _, _, controllerNodeId) \<Rightarrow>
         State_Monad.return (if controllerNodeId = 0 then None else Some controllerNodeId)
   }"

definition handleSetLifeline :: "'d proxy \<Rightarrow> ('d, unit) console" where
  "handleSetLifeline proxy = do {
     nodeId \<leftarrow> promptNodeId NODE_PROMPT;
     case nodeId of
       None \<Rightarrow> logLine ''SetAssociation (lifeline): cancelled or invalid node id''
     | Some n \<Rightarrow> do {
         controller \<leftarrow> fetchControllerNodeId proxy;
         case controller of
           None \<Rightarrow> logLine ''SetAssociation (lifeline): controller node id unavailable (no DongleInfo yet)''
         | Some ctl \<Rightarrow> do {
             sid \<leftarrow> nextSession;
             tryCall proxy ''SetAssociation'' [AByte n, AByte LIFELINE_GROUP, ABytes [ctl], AByte sid]
               (''SetAssociation (lifeline) node='' @ dec8 n @ '' group=1 members=['' @ dec8 ctl @ ''] callback='' @ dec8 sid)
           }
       }
   }"

definition handleRemoveFailedNode :: "'d proxy \<Rightarrow> ('d, unit) console" where
  "handleRemoveFailedNode proxy = do {
     nodeId \<leftarrow> promptNodeId ''Failed node ID (1-232):'';
     case nodeId of
       None \<Rightarrow> logLine ''RemoveFailedNode: cancelled or invalid node id''
     | Some n \<Rightarrow> do {
         sid \<leftarrow> nextSession;
         tryCall proxy ''RemoveFailedNode'' [AByte n, AByte sid]
           (''RemoveFailedNode node='' @ dec8 n @ '' session='' @ dec8 sid)
       }
   }"

section \<open>Node list and information pages\<close>

fun nodeSupportsCc :: "bytes \<Rightarrow> byte \<Rightarrow> bool" where
  "nodeSupportsCc [] targetCc = False"
| "nodeSupportsCc (b # ccs) targetCc =
     (if b = CLIENT_CC_MARK then False else if b = targetCc then True else nodeSupportsCc ccs targetCc)"

fun listNodesLoop :: "'d proxy \<Rightarrow> (byte \<times> byte \<times> byte \<times> byte \<times> bytes) list \<Rightarrow> ('d, unit) console" where
  "listNodesLoop proxy [] = State_Monad.return ()"
| "listNodesLoop proxy ((n, basic, generic, specific, ccs) # later) = do {
     logLine (''  node='' @ dec8 n @ '' basic=0x'' @ hex8 basic @ '' generic=0x'' @ hex8 generic @ '' specific=0x''
       @ hex8 specific @ '' '' @ formatCcList ccs);
     (if nodeSupportsCc ccs CC_ASSOCIATION_ID
      then do {
        r \<leftarrow> callMethod proxy ''GetAssociationGroupings'' [AByte n, AByte CALLBACK_ID_NONE];
        case r of Inl err \<Rightarrow> logLine (''auto GetAssociationGroupings failed: '' @ err) | Inr _ \<Rightarrow> State_Monad.return ()
      }
      else State_Monad.return ());
     listNodesLoop proxy later
   }"

definition handleListNodes :: "'d proxy \<Rightarrow> ('d, unit) console" where
  "handleListNodes proxy = do {
     nodes \<leftarrow> callFor getNodes proxy ''GetNodes'' [];
     case nodes of
       Inl err \<Rightarrow> logLine (''GetNodes failed: '' @ err)
     | Inr ns \<Rightarrow>
         if ns = [] then logLine ''Node list: (empty)''
         else do { logLine (''Node list ('' @ decString (length ns) @ ''):''); listNodesLoop proxy ns }
   }"

definition runInfoModal :: "string \<Rightarrow> string list \<Rightarrow> ('d, unit) console" where
  "runInfoModal title ls = modify (\<lambda>c. c\<lparr>cs_modal := cs_modal c @ [(title, ls)], cs_keys := tl (cs_keys c)\<rparr>)"

definition networkLines :: "string + NetworkStatus \<Rightarrow> string list" where
  "networkLines r =
     (case r of
        Inl err \<Rightarrow> [''network status unavailable: '' @ err]
      | Inr s \<Rightarrow>
          [''dongle: '' @ (if ns_dongleConnected s then ''connected '' @ ns_ttyPath s else ''disconnected''),
           if ns_homeId s = [] then ''home id: (not yet introspected)''
           else ''home id: '' @ ns_homeId s @ ''  (controller node '' @ dec8 (ns_controllerNodeId s) @ '')'',
           ''nodes: '' @ decString (unat (ns_nodeCount s)),
           if ns_sessionActive s
           then ''session: '' @ (if ns_sessionCommandId s = 0x4A then ''inclusion''
                                 else if ns_sessionCommandId s = 0x4B then ''exclusion'' else ''?'') @ '' #'' @ dec8 (ns_sessionId s)
           else ''session: none'',
           ''uptime: '' @ decString (ns_uptime s div 3600) @ ''h '' @ decString ((ns_uptime s mod 3600) div 60) @ ''m ''
             @ decString (ns_uptime s mod 60) @ ''s''])"

definition dongleLines :: "string + string \<times> byte \<times> bytes \<times> byte \<Rightarrow> string list" where
  "dongleLines r =
     (case r of
        Inl err \<Rightarrow> [''dongle info unavailable: '' @ err]
      | Inr (libraryVersion, libraryType, _, _) \<Rightarrow>
          if libraryVersion = [] \<and> libraryType = 0 then [''library: (not introspected '' @ emDash @ '' connect a dongle first)'']
          else [''library: '' @ [CHR 0x22] @ libraryVersion @ [CHR 0x22] @ ''  type '' @ dec8 libraryType @ '' (''
                @ client_libraryTypeName libraryType @ '')''])"

definition initLines :: "string + byte \<times> byte \<times> bytes \<times> byte \<times> byte \<Rightarrow> string list" where
  "initLines r =
     (case r of
        Inl err \<Rightarrow> [''init data unavailable: '' @ err]
      | Inr (serialApiVersion, capabilities, ids, chipType, chipVersion) \<Rightarrow>
          [''serial API: v'' @ dec8 serialApiVersion @ ''  caps 0x'' @ HEX0 2 (unat capabilities) @ ''  chip '' @ dec8 chipType
             @ ''/'' @ dec8 chipVersion,
           ''init bitmap: '' @ decString (length ids) @ '' node(s)''])"

definition handleNetworkInfo :: "'d proxy \<Rightarrow> ('d, unit) console" where
  "handleNetworkInfo proxy = do {
     status \<leftarrow> callFor getNetwork proxy ''GetNetworkStatus'' [];
     dongle \<leftarrow> callFor getDongle proxy ''GetDongleInfo'' [];
     initial \<leftarrow> callFor getInit proxy ''GetInitData'' [];
     runInfoModal ''Network'' (networkLines status @ [''''] @ dongleLines dongle @ initLines initial)
   }"

definition nodeInfoLines :: "int \<Rightarrow> NodeInfo \<Rightarrow> NodeValueRow list \<Rightarrow> string list" where
  "nodeInfoLines now i values =
     [''device class: '' @ drop 2 (hexWord (ucast (ni_basicType i))) @ '' / '' @ drop 2 (hexWord (ucast (ni_genericType i))) @ '' / ''
        @ drop 2 (hexWord (ucast (ni_specificType i))),
      ''security: '' @ securitySchemeName (schemeNumber (ni_securityScheme i)),
      if ni_manufacturerId i \<noteq> 0 \<or> ni_productTypeId i \<noteq> 0 \<or> ni_productId i \<noteq> 0
      then ''identity: mfr '' @ hexWord (ni_manufacturerId i) @ ''  type '' @ hexWord (ni_productTypeId i) @ ''  product ''
           @ hexWord (ni_productId i)
      else ''identity: (not interviewed yet)''] @
     (if ni_libraryType i \<noteq> 0 \<or> ni_protocolVersion i \<noteq> 0 \<or> ni_applicationVersion i \<noteq> 0
      then [''firmware: lib '' @ dec8 (ni_libraryType i) @ '' ('' @ client_libraryTypeName (ni_libraryType i) @ '')  proto ''
            @ dec8 (ni_protocolVersion i) @ ''.'' @ dec8 (ni_protocolSubVersion i) @ ''  app '' @ dec8 (ni_applicationVersion i)
            @ ''.'' @ dec8 (ni_applicationSubVersion i)]
      else []) @
     (if ni_endpointCount i \<noteq> 0
      then let flags = (if ni_endpointsDynamic i then ''dynamic'' else []);
               flags1 = (if ni_endpointsIdentical i then flags @ (if flags = [] then ''identical'' else '', identical'') else flags)
           in [''endpoints: '' @ dec8 (ni_endpointCount i) @ (if flags1 = [] then [] else '' ('' @ flags1 @ '')'')]
      else []) @
     (if ni_zwavePlusVersion i \<noteq> 0 \<or> ni_roleType i \<noteq> 0 \<or> ni_nodeType i \<noteq> 0
      then [''z-wave+: v'' @ dec8 (ni_zwavePlusVersion i) @ ''  role '' @ drop 2 (hexWord (ucast (ni_roleType i))) @ ''  nodeType ''
            @ drop 2 (hexWord (ucast (ni_nodeType i))) @ ''  icons '' @ hexWord (ni_installerIconType i) @ ''/''
            @ hexWord (ni_userIconType i)]
      else []) @
     ['''', ''command classes:'', ''  '' @ formatCcList (ni_commandClasses i), '''', ''last-known values:''] @
     (if values = [] then [''  (none reported yet)''] else []) @
     map (\<lambda>v. ''  '' @ vr_valueId v @ '' = '' @ vr_value v @ ''  ('' @ valueAge now (vr_updatedAt v) @ '')'') values"

definition handleNodeInfo :: "'d proxy \<Rightarrow> int \<Rightarrow> byte \<Rightarrow> ('d, unit) console" where
  "handleNodeInfo proxy now nodeId = do {
     info \<leftarrow> callFor getNodeInfo proxy ''GetNodeInfo'' [AByte nodeId];
     case info of
       Inl err \<Rightarrow> logLine (''GetNodeInfo failed: '' @ err)
     | Inr i \<Rightarrow> do {
         row \<leftarrow> gets (\<lambda>c. List.find (\<lambda>r. nw_id r = nodeId) (nm_rows (cs_model c)));
         let name = (case row of Some r \<Rightarrow> nw_name r | None \<Rightarrow> []);
         let values = (case row of Some r \<Rightarrow> nw_values r | None \<Rightarrow> []);
         runInfoModal (''Node '' @ dec8 nodeId @ (if name = [] then [] else ''  '' @ [CHR 0x22] @ name @ [CHR 0x22]))
           (nodeInfoLines now i values)
       }
   }"

section \<open>Policies\<close>

definition handleViewPolicy :: "'d proxy \<Rightarrow> string \<Rightarrow> string \<Rightarrow> ('d, unit) console" where
  "handleViewPolicy proxy method header = do {
     nodeId \<leftarrow> promptNodeId NODE_PROMPT;
     case nodeId of
       None \<Rightarrow> logLine (method @ '': cancelled or invalid node id'')
     | Some n \<Rightarrow> do {
         r \<leftarrow> callFor getBytes proxy method [AByte n];
         case r of
           Inl err \<Rightarrow> logLine (method @ '' failed: '' @ err)
         | Inr bs \<Rightarrow> logPolicy (header @ '' node='' @ dec8 n @ '':'') bs
       }
   }"

definition handleViewEffectivePolicy :: "'d proxy \<Rightarrow> ('d, unit) console" where
  "handleViewEffectivePolicy proxy = handleViewPolicy proxy ''GetEffectivePolicy'' ''Effective policy''"

definition handleViewNodeOverride :: "'d proxy \<Rightarrow> ('d, unit) console" where
  "handleViewNodeOverride proxy = handleViewPolicy proxy ''GetNodeOverride'' ''Node override''"

definition handleDeleteNodeOverride :: "'d proxy \<Rightarrow> ('d, unit) console" where
  "handleDeleteNodeOverride proxy = do {
     nodeId \<leftarrow> promptNodeId NODE_PROMPT;
     case nodeId of
       None \<Rightarrow> logLine ''DeleteNodeOverride: cancelled or invalid node id''
     | Some n \<Rightarrow> tryCall proxy ''DeleteNodeOverride'' [AByte n] (''DeleteNodeOverride node='' @ dec8 n)
   }"

text \<open>Read the stored blob, put the entry into it, write it back.\<close>

definition editPolicy :: "'d proxy \<Rightarrow> string \<Rightarrow> string \<Rightarrow> string \<Rightarrow> dbusArg list \<Rightarrow> string \<Rightarrow> BlobEntry \<Rightarrow> ('d, unit) console" where
  "editPolicy proxy getMethod setMethod what device doneText entry = do {
     existing \<leftarrow> callFor getBytes proxy getMethod device;
     case existing of
       Inl err \<Rightarrow> logLine (setMethod @ '': read-back failed: '' @ err)
     | Inr bs \<Rightarrow>
         (case applyEntryToBlob bs entry of
            None \<Rightarrow> logLine (setMethod @ '': existing '' @ what @ '' is undecodable '' @ emDash @ '' aborting to avoid overwriting it'')
          | Some (blob, replaced) \<Rightarrow>
              tryCall proxy setMethod (device @ [ABytes blob])
                (doneText @ '' '' @ entrySummary entry @ (if replaced then '' (updated)'' else '' (added)'')))
   }"

definition handleSetNodeOverrideEntry :: "'d proxy \<Rightarrow> ('d, unit) console" where
  "handleSetNodeOverrideEntry proxy = do {
     nodeId \<leftarrow> promptNodeId NODE_PROMPT;
     case nodeId of
       None \<Rightarrow> logLine ''SetNodeOverride: cancelled or invalid node id''
     | Some n \<Rightarrow> do {
         entry \<leftarrow> promptPolicyEntry;
         case entry of
           None \<Rightarrow> State_Monad.return ()
         | Some e \<Rightarrow> editPolicy proxy ''GetNodeOverride'' ''SetNodeOverride'' ''override'' [AByte n]
                       (''SetNodeOverride node='' @ dec8 n) e
       }
   }"

definition handleDevicePolicyEdit :: "'d proxy \<Rightarrow> ('d, unit) console" where
  "handleDevicePolicyEdit proxy = do {
     action \<leftarrow> promptChar ''Device policy: [s]et entry  [d]elete policy:'' ''sd'';
     case action of
       None \<Rightarrow> logLine ''Device policy: cancelled''
     | Some a \<Rightarrow> do {
         manufacturerId \<leftarrow> promptU16 ''Manufacturer id (dec or 0xHEX):'';
         productTypeId \<leftarrow> promptU16 ''Product type id:'';
         productId \<leftarrow> promptU16 ''Product id:'';
         case (manufacturerId, productTypeId, productId) of
           (Some mf, Some pt, Some pid) \<Rightarrow>
             if a = CHR ''d''
             then tryCall proxy ''DeleteDevicePolicy'' [AU16 mf, AU16 pt, AU16 pid]
                    (''DeleteDevicePolicy mfr='' @ decString (unat mf))
             else do {
               entry \<leftarrow> promptPolicyEntry;
               case entry of
                 None \<Rightarrow> State_Monad.return ()
               | Some e \<Rightarrow> editPolicy proxy ''GetDevicePolicy'' ''SetDevicePolicy'' ''policy'' [AU16 mf, AU16 pt, AU16 pid]
                             (''SetDevicePolicy mfr=0x'' @ hex0 4 (unat mf)) e
             }
         | _ \<Rightarrow> logLine ''Device policy: cancelled or invalid device id''
       }
   }"

fun listPoliciesLoop :: "(u16 \<times> u16 \<times> u16 \<times> bytes) list \<Rightarrow> ('d, unit) console" where
  "listPoliciesLoop [] = State_Monad.return ()"
| "listPoliciesLoop ((mf, pt, pid, blob) # rows) = do {
     logPolicy (''  device mfr=0x'' @ hex0 4 (unat mf) @ '' type=0x'' @ hex0 4 (unat pt) @ '' id=0x'' @ hex0 4 (unat pid) @ '':'') blob;
     listPoliciesLoop rows
   }"

definition handleListDevicePolicies :: "'d proxy \<Rightarrow> ('d, unit) console" where
  "handleListDevicePolicies proxy = do {
     r \<leftarrow> callFor getDevicePolicies proxy ''ListDevicePolicies'' [];
     case r of
       Inl err \<Rightarrow> logLine (''ListDevicePolicies failed: '' @ err)
     | Inr rows \<Rightarrow>
         if rows = [] then logLine ''Device policies: (none)''
         else do { logLine (''Device policies ('' @ decString (length rows) @ ''):''); listPoliciesLoop rows }
   }"

section \<open>Scenes\<close>

definition sceneSourceName :: "byte \<Rightarrow> string" where
  "sceneSourceName source =
     (if source = SOURCE_CENTRAL_SCENE then ''central-scene'' else if source = SOURCE_BASIC_SET then ''basic-set''
      else if source = SOURCE_SCENE_ACTIVATION then ''scene-activation'' else ''?'')"

definition promptSceneSource :: "('d, byte option) console" where
  "promptSceneSource = do {
     chosen \<leftarrow> promptChar ''Source: [c]entral scene  [b]asic set  [a]ctivation:'' ''cba'';
     State_Monad.return (case chosen of
       None \<Rightarrow> None
     | Some ch \<Rightarrow> if ch = CHR ''c'' then Some SOURCE_CENTRAL_SCENE else if ch = CHR ''b'' then Some SOURCE_BASIC_SET
                  else if ch = CHR ''a'' then Some SOURCE_SCENE_ACTIVATION else None)
   }"

definition quoted :: "string \<Rightarrow> string" where
  "quoted s = [CHR 0x22] @ s @ [CHR 0x22]"

definition plural :: "nat \<Rightarrow> string" where
  "plural n = decString n @ '' action'' @ (if n = 1 then [] else ''s'')"

fun listScenesLoop :: "'d proxy \<Rightarrow> string list \<Rightarrow> ('d, unit) console" where
  "listScenesLoop proxy [] = State_Monad.return ()"
| "listScenesLoop proxy (sceneId # later) = do {
     r \<leftarrow> callFor getActions proxy ''GetScene'' [AString sceneId];
     (case r of
        Inl err \<Rightarrow> logLine (''  '' @ quoted sceneId @ '': GetScene failed: '' @ err)
      | Inr actions \<Rightarrow> do {
          logLine (''  '' @ quoted sceneId @ '' ('' @ plural (length actions) @ ''):'');
          logLines (map (\<lambda>(n, payload). ''    -> node '' @ dec8 n @ '': '' @ formatPayloadHex payload) actions)
        });
     listScenesLoop proxy later
   }"

definition handleListScenes :: "'d proxy \<Rightarrow> ('d, unit) console" where
  "handleListScenes proxy = do {
     r \<leftarrow> callFor getStrings proxy ''ListScenes'' [];
     case r of
       Inl err \<Rightarrow> logLine (''ListScenes failed: '' @ err)
     | Inr scenes \<Rightarrow>
         if scenes = [] then logLine ''Scenes: (none)''
         else do { logLine (''Scenes ('' @ decString (length scenes) @ ''):''); listScenesLoop proxy scenes }
   }"

definition sceneKeyText :: "byte \<Rightarrow> string" where
  "sceneKeyText keyAttribute =
     (case centralSceneKeyName keyAttribute of Some name \<Rightarrow> name | None \<Rightarrow> ''key='' @ dec8 keyAttribute)"

definition triggerLine :: "byte \<times> byte \<times> byte \<times> byte \<times> string \<Rightarrow> string" where
  "triggerLine t = (case t of (source, node, sel, key, sceneId) \<Rightarrow>
     ''  ['' @ sceneSourceName source @ ''] node '' @ dec8 node @ '' sel '' @ dec8 sel
     @ (if source = SOURCE_CENTRAL_SCENE then '' '' @ sceneKeyText key else []) @ '' -> '' @ quoted sceneId)"

definition handleListSceneTriggers :: "'d proxy \<Rightarrow> ('d, unit) console" where
  "handleListSceneTriggers proxy = do {
     r \<leftarrow> callFor getTriggers proxy ''ListSceneTriggers'' [];
     case r of
       Inl err \<Rightarrow> logLine (''ListSceneTriggers failed: '' @ err)
     | Inr triggers \<Rightarrow>
         if triggers = [] then logLine ''Scene triggers: (none)''
         else do { logLine (''Scene triggers ('' @ decString (length triggers) @ ''):''); logLines (map triggerLine triggers) }
   }"

text \<open>The loop of \<open>handleSetScene\<close>, which ends only at a node prompt without an answer: \<open>None\<close> if it does not.\<close>

partial_function (option) sceneLoop :: "(byte \<times> bytes) list \<Rightarrow> 'd Console \<Rightarrow> ((byte \<times> bytes) list \<times> 'd Console) option" where
  "sceneLoop actions c =
     (let (targetNode, c1) = run_state (promptNodeId ''Action target node (blank to finish):'') c in
      if targetNode = None then Some (actions, c1)
      else let (payload, c2) = run_state (promptByteList ''CC payload bytes (e.g. 0x25 0x01 0xFF):'') c1 in
        if payload = None
        then sceneLoop actions (snd (run_state (logLine (''SetScene: invalid payload '' @ emDash @ '' action skipped'')) c2))
        else sceneLoop (actions @ [(the targetNode, the payload)]) c2)"

definition handleSetScene :: "'d proxy \<Rightarrow> 'd Console \<Rightarrow> 'd Console option" where
  "handleSetScene proxy c =
     (let (sceneId, c1) = run_state (promptLine ''Scene id:'') c in
      case sceneId of
        None \<Rightarrow> Some (snd (run_state (logLine ''SetScene: cancelled or empty scene id'') c1))
      | Some sid \<Rightarrow>
          (case sceneLoop [] c1 of
             None \<Rightarrow> None
           | Some (actions, c2) \<Rightarrow>
               if actions = [] then Some (snd (run_state (logLine (''SetScene: no actions entered '' @ emDash @ '' aborted'')) c2))
               else Some (snd (run_state (tryCall proxy ''SetScene'' [AString sid, AActions actions]
                      (''SetScene '' @ quoted sid @ '' with '' @ plural (length actions))) c2))))"

definition handleDeleteScene :: "'d proxy \<Rightarrow> ('d, unit) console" where
  "handleDeleteScene proxy = do {
     sceneId \<leftarrow> promptLine ''Scene id to delete:'';
     case sceneId of
       None \<Rightarrow> logLine ''DeleteScene: cancelled or empty scene id''
     | Some sid \<Rightarrow> tryCall proxy ''DeleteScene'' [AString sid] (''DeleteScene '' @ quoted sid)
   }"

definition promptTriggerSelector :: "byte \<Rightarrow> ('d, (byte \<times> byte) option) console" where
  "promptTriggerSelector source = do {
     let label = (if source = SOURCE_CENTRAL_SCENE then ''Scene number (1-255):''
                  else if source = SOURCE_BASIC_SET then ''Basic value (0=off, 255=on, 1-99=level):''
                  else if source = SOURCE_SCENE_ACTIVATION then ''Activation scene id (1-255):'' else ''Selector:'');
     selector \<leftarrow> promptByte label 0 ANY_BYTE_MAX;
     case selector of
       None \<Rightarrow> State_Monad.return None
     | Some sel \<Rightarrow>
         if source = SOURCE_CENTRAL_SCENE
         then do {
           key \<leftarrow> promptByte ''Key attribute (0=1x,1=release,2=hold,3=2x,4=3x):'' 0 ANY_BYTE_MAX;
           State_Monad.return (map_option (Pair sel) key)
         }
         else State_Monad.return (Some (sel, 0))
   }"

definition handleBindSceneTrigger :: "'d proxy \<Rightarrow> ('d, unit) console" where
  "handleBindSceneTrigger proxy = do {
     source \<leftarrow> promptSceneSource;
     case source of
       None \<Rightarrow> logLine ''BindSceneTrigger: cancelled or invalid source''
     | Some src \<Rightarrow> do {
         sourceNode \<leftarrow> promptNodeId ''Source node (controller that sends the command):'';
         case sourceNode of
           None \<Rightarrow> logLine ''BindSceneTrigger: cancelled or invalid node id''
         | Some n \<Rightarrow> do {
             selector \<leftarrow> promptTriggerSelector src;
             case selector of
               None \<Rightarrow> logLine ''BindSceneTrigger: cancelled or invalid selector''
             | Some (sel, key) \<Rightarrow> do {
                 sceneId \<leftarrow> promptLine ''Scene id to bind to:'';
                 case sceneId of
                   None \<Rightarrow> logLine ''BindSceneTrigger: cancelled or empty scene id''
                 | Some sid \<Rightarrow>
                     tryCall proxy ''BindSceneTrigger'' [AByte src, AByte n, AByte sel, AByte key, AString sid]
                       (''BindSceneTrigger ['' @ sceneSourceName src @ ''] node='' @ dec8 n @ '' sel='' @ dec8 sel
                        @ '' -> '' @ quoted sid)
               }
           }
       }
   }"

definition handleUnbindSceneTrigger :: "'d proxy \<Rightarrow> ('d, unit) console" where
  "handleUnbindSceneTrigger proxy = do {
     source \<leftarrow> promptSceneSource;
     case source of
       None \<Rightarrow> logLine ''UnbindSceneTrigger: cancelled or invalid source''
     | Some src \<Rightarrow> do {
         sourceNode \<leftarrow> promptNodeId ''Source node:'';
         case sourceNode of
           None \<Rightarrow> logLine ''UnbindSceneTrigger: cancelled or invalid node id''
         | Some n \<Rightarrow> do {
             selector \<leftarrow> promptTriggerSelector src;
             case selector of
               None \<Rightarrow> logLine ''UnbindSceneTrigger: cancelled or invalid selector''
             | Some (sel, key) \<Rightarrow>
                 tryCall proxy ''UnbindSceneTrigger'' [AByte src, AByte n, AByte sel, AByte key]
                   (''UnbindSceneTrigger ['' @ sceneSourceName src @ ''] node='' @ dec8 n @ '' sel='' @ dec8 sel)
           }
       }
   }"

section \<open>Logical thermostats\<close>

definition promptGroup :: "('d, (string \<times> string) option) console" where
  "promptGroup = do {
     key \<leftarrow> promptLine ''Group key (e.g. room):'';
     case key of
       None \<Rightarrow> State_Monad.return None
     | Some k \<Rightarrow> do {
         val \<leftarrow> promptLine ''Group value (e.g. Living room):'';
         State_Monad.return (map_option (Pair k) val)
       }
   }"

definition handleSetLogicalThermostatMode :: "'d proxy \<Rightarrow> ('d, unit) console" where
  "handleSetLogicalThermostatMode proxy = do {
     group \<leftarrow> promptGroup;
     case group of
       None \<Rightarrow> logLine ''SetLogicalThermostatMode: cancelled or empty group''
     | Some (k, v) \<Rightarrow> do {
         mode \<leftarrow> promptByte (''Mode (0=off, 1=heat, 2=cool, 3=auto, '' @ ellipsis @ ''):'') ANY_BYTE_MIN ANY_BYTE_MAX;
         case mode of
           None \<Rightarrow> logLine ''SetLogicalThermostatMode: cancelled or invalid mode''
         | Some m \<Rightarrow> tryCall proxy ''SetLogicalThermostatMode'' [AString k, AString v, AByte m]
                       (''SetLogicalThermostatMode '' @ k @ ''='' @ v @ '' mode='' @ dec8 m)
       }
   }"

definition handleSetLogicalThermostatSetpoint :: "'d proxy \<Rightarrow> ('d, unit) console" where
  "handleSetLogicalThermostatSetpoint proxy = do {
     group \<leftarrow> promptGroup;
     case group of
       None \<Rightarrow> logLine ''SetLogicalThermostatSetpoint: cancelled or empty group''
     | Some (k, v) \<Rightarrow> do {
         setpointType \<leftarrow> promptByte ''Setpoint type (1=heating, 2=cooling):'' ANY_BYTE_MIN ANY_BYTE_MAX;
         precision \<leftarrow> promptByte ''Precision (decimals, e.g. 1):'' ANY_BYTE_MIN ANY_BYTE_MAX;
         scale \<leftarrow> promptByte ''Scale (0=C, 1=F):'' ANY_BYTE_MIN ANY_BYTE_MAX;
         val \<leftarrow> promptInt32 ''Raw value (e.g. 215 for 21.5 at precision 1):'';
         case (setpointType, precision, scale, val) of
           (Some t, Some p, Some s, Some x) \<Rightarrow>
             tryCall proxy ''SetLogicalThermostatSetpoint'' [AString k, AString v, AByte t, AByte p, AByte s, AInt x]
               (''SetLogicalThermostatSetpoint '' @ k @ ''='' @ v @ '' type='' @ dec8 t @ '' value='' @ decInt (sint x))
         | _ \<Rightarrow> logLine ''SetLogicalThermostatSetpoint: cancelled or invalid''
       }
   }"

definition mixedOr :: "byte \<Rightarrow> string" where
  "mixedOr b = (if b = LOGICAL_MODE_MIXED then ''mixed'' else dec8 b)"

definition handleGetLogicalThermostatState :: "'d proxy \<Rightarrow> ('d, unit) console" where
  "handleGetLogicalThermostatState proxy = do {
     group \<leftarrow> promptGroup;
     case group of
       None \<Rightarrow> logLine ''GetLogicalThermostatState: cancelled or empty group''
     | Some (k, v) \<Rightarrow> do {
         r \<leftarrow> callFor getThermostat proxy ''GetLogicalThermostatState'' [AString k, AString v];
         case r of
           Inl err \<Rightarrow> logLine (''GetLogicalThermostatState failed: '' @ err)
         | Inr (members, mode, op, fan, ty, scale, prec, val) \<Rightarrow>
             logLine (''LogicalThermostat '' @ k @ ''='' @ v @ '' members='' @ dec8 members @ '' mode='' @ mixedOr mode
               @ '' op='' @ dec8 op @ '' fan='' @ mixedOr fan @ '' setpoint(type='' @ dec8 ty @ '' scale='' @ dec8 scale
               @ '' prec='' @ dec8 prec @ '' raw='' @ decInt (sint val) @ '')'')
       }
   }"

section \<open>What typed answers do\<close>

lemma run_ask: "run_state (ask label bufSize) c =
    (case cs_input c of
       [] \<Rightarrow> (None, c\<lparr>cs_shown := cs_shown c @ [label]\<rparr>)
     | a # later \<Rightarrow> (map_option (take (bufSize - 1)) a, c\<lparr>cs_shown := cs_shown c @ [label], cs_input := later\<rparr>))"
  by (simp add: ask_def getnstr_def split: list.splits)

text \<open>A prompt keeps everything but the pending answers and the prompts shown.\<close>

definition sameButInput :: "'d Console \<Rightarrow> 'd Console \<Rightarrow> bool" where
  "sameButInput c c' \<longleftrightarrow> c' = c\<lparr>cs_shown := cs_shown c', cs_input := cs_input c'\<rparr>"

lemma sameButInput_fields:
  assumes "sameButInput c c'"
  shows "cs_daemon c' = cs_daemon c" "cs_session c' = cs_session c" "cs_model c' = cs_model c"
    "cs_activity c' = cs_activity c" "cs_now c' = cs_now c"
  using assms [unfolded sameButInput_def]
  by (metis Console.select_convs Console.surjective Console.update_convs)+

lemma run_promptByte_dec:
  assumes "cs_input c = Some (decString v) # later" and "v < 256" and "lo \<le> int v" and "int v \<le> hi"
  shows "fst (run_state (promptByte label lo hi) c) = Some (of_nat v)"
    "cs_input (snd (run_state (promptByte label lo hi) c)) = later"
proof -
  have "length (decString v) \<le> 3" using decString_length [of v 3] assms(2) by simp
  moreover have "fromChars 10 (- (2 ^ 31)) (2 ^ 31 - 1) (decString v) = Some (int v, [])"
    using fromChars_dec [of "- (2 ^ 31)" v "2 ^ 31 - 1" "[]"] assms(2) by simp
  ultimately show "fst (run_state (promptByte label lo hi) c) = Some (of_nat v)"
    "cs_input (snd (run_state (promptByte label lo hi) c)) = later"
    using assms by (simp_all add: promptByte_def run_ask NODE_ID_INPUT_BUFFER_def DECIMAL_BASE_def decString_not_empty)
qed

lemma run_promptByte_hex:
  assumes "cs_input c = Some (''0x'' @ s) # later" and "lo \<le> 0" and "0 \<le> hi"
  shows "fst (run_state (promptByte label lo hi) c) = Some 0"
proof -
  have "take 7 (''0x'' @ s) = ''0x'' @ take 5 s" by simp
  then show ?thesis
    using assms fromChars_hex_prefix [of "- (2 ^ 31)" "2 ^ 31 - 1" "take 5 s"]
    by (simp add: promptByte_def run_ask NODE_ID_INPUT_BUFFER_def DECIMAL_BASE_def)
qed

lemma run_promptNodeId_dec:
  assumes "cs_input c = Some (decString v) # later" and "1 \<le> v" and "v \<le> 232"
  shows "fst (run_state (promptNodeId label) c) = Some (of_nat v)"
    "cs_input (snd (run_state (promptNodeId label) c)) = later"
proof -
  have "length (decString v) \<le> 3" using decString_length [of v 3] assms(3) by simp
  moreover have "parseUint (decString v) NODE_ID_MAX = Some (int v)"
    using parseUint_dec [of v NODE_ID_MAX] assms(3) by (simp add: terminal_const_defs)
  ultimately show "fst (run_state (promptNodeId label) c) = Some (of_nat v)"
    "cs_input (snd (run_state (promptNodeId label) c)) = later"
    using assms
    by (simp_all add: promptNodeId_def run_ask NODE_ID_INPUT_BUFFER_def decString_not_empty NODE_ID_MIN_def
        split: option.splits)
qed

lemma prompts_sameButInput:
  "sameButInput c (snd (run_state (promptByte label lo hi) c))"
  "sameButInput c (snd (run_state (promptNodeId label) c))"
  "sameButInput c (snd (run_state (promptLine label) c))"
  by (auto simp: sameButInput_def promptByte_def promptNodeId_def promptLine_def run_ask Let_def split: list.splits)

lemma run_tryCall: "run_state (tryCall proxy method args doneText) c =
    ((), let r = proxy method args (cs_daemon c); c1 = c\<lparr>cs_daemon := snd r\<rparr> in
         c1\<lparr>cs_activity := logged (cs_now c1) (case fst r of Inl err \<Rightarrow> method @ '' failed: '' @ err | Inr _ \<Rightarrow> doneText)
              (cs_activity c1)\<rparr>)"
  by (simp add: tryCall_def run_callMethod Let_def split: sum.splits)

lemma handleSetByte_call:
  assumes "fst (run_state (promptNodeId NODE_PROMPT) c) = Some n"
    and "fst (run_state (promptByte label ANY_BYTE_MIN ANY_BYTE_MAX) (snd (run_state (promptNodeId NODE_PROMPT) c))) = Some v"
  shows "cs_daemon (snd (run_state (handleSetByte proxy method label field) c)) =
     snd (proxy method [AByte n, AByte v, AByte (cs_session c + 1)] (cs_daemon c))"
proof -
  obtain c1 where c1: "run_state (promptNodeId NODE_PROMPT) c = (Some n, c1)" using assms(1) by (metis prod.collapse)
  obtain c2 where c2: "run_state (promptByte label ANY_BYTE_MIN ANY_BYTE_MAX) c1 = (Some v, c2)"
    using assms(2) c1 by (metis prod.collapse snd_conv)
  have "cs_daemon c2 = cs_daemon c" "cs_session c2 = cs_session c"
    using prompts_sameButInput(2) [of c NODE_PROMPT] prompts_sameButInput(1) [of c1 label ANY_BYTE_MIN ANY_BYTE_MAX] c1 c2
    by (simp_all add: sameButInput_fields)
  then show ?thesis
    by (simp add: handleSetByte_def c1 c2 nextSession_def run_tryCall Let_def)
qed

text \<open>
  The door-lock prompt of the client names its two answers in hexadecimal, and does not read hexadecimal. A decimal
  answer is sent as it is, but any answer that starts with \<open>0x\<close> is sent as zero: typing the \<open>0xFF\<close>
  that the prompt gives for a secured lock sends the command that unsecures it. The same holds for the basic and the
  indicator setter.
\<close>

theorem doorlock_hex_unsecures:
  assumes "1 \<le> node" and "node \<le> 232" and "v < 256"
  shows "(cs_input c = Some (decString node) # Some (decString v) # later \<longrightarrow>
      cs_daemon (snd (run_state (handleSetDoorLock proxy) c)) =
        snd (proxy ''SetDoorLock'' [AByte (of_nat node), AByte (of_nat v), AByte (cs_session c + 1)] (cs_daemon c))) \<and>
    (cs_input c = Some (decString node) # Some (''0x'' @ s) # later \<longrightarrow>
      cs_daemon (snd (run_state (handleSetDoorLock proxy) c)) =
        snd (proxy ''SetDoorLock'' [AByte (of_nat node), AByte 0, AByte (cs_session c + 1)] (cs_daemon c)))"
  unfolding handleSetDoorLock_def
proof (intro conjI impI)
  note node = run_promptNodeId_dec [OF _ assms(1,2)]
  assume "cs_input c = Some (decString node) # Some (decString v) # later"
  note dec = node(1) [OF this] run_promptByte_dec(1) [OF node(2) [OF this] assms(3)]
  show "cs_daemon (snd (run_state (handleSetByte proxy ''SetDoorLock'' ''Lock mode (0x00 unsecured, 0xFF secured):'' ''mode'') c)) =
        snd (proxy ''SetDoorLock'' [AByte (of_nat node), AByte (of_nat v), AByte (cs_session c + 1)] (cs_daemon c))"
    by (rule handleSetByte_call [OF dec]) (use assms(3) in \<open>simp_all add: terminal_const_defs\<close>)
next
  note node = run_promptNodeId_dec [OF _ assms(1,2)]
  assume "cs_input c = Some (decString node) # Some (''0x'' @ s) # later"
  note hex = node(1) [OF this] run_promptByte_hex [OF node(2) [OF this]]
  show "cs_daemon (snd (run_state (handleSetByte proxy ''SetDoorLock'' ''Lock mode (0x00 unsecured, 0xFF secured):'' ''mode'') c)) =
        snd (proxy ''SetDoorLock'' [AByte (of_nat node), AByte 0, AByte (cs_session c + 1)] (cs_daemon c))"
    by (rule handleSetByte_call [OF hex]) (simp_all add: terminal_const_defs)
qed

theorem doorlock_hex_unsecures_witness:
  "cs_daemon (snd (run_state (handleSetDoorLock (\<lambda>m args d. (Inr RNone, d @ [(m, args)])))
      (newConsole [Some ''9'', Some ''0xFF''] []))) = [(''SetDoorLock'', [AByte 9, AByte 0, AByte 1])]"
proof -
  have nine: "decString 9 = ''9''" by code_simp
  show ?thesis
    using doorlock_hex_unsecures [of 9 0 "newConsole [Some ''9'', Some ''0xFF''] []" "[]"
        "\<lambda>m args d. (Inr RNone, d @ [(m, args)])" "''FF''"]
    by (simp add: newConsole_def nine)
qed
text \<open>Every entry the prompts build is one of the daemon's, and fits the blob format.\<close>

lemma nodeListLoop_length: "nodeListLoop t = Some ms \<Longrightarrow> length ms \<le> length t"
proof (induction t arbitrary: ms rule: nodeListLoop.induct)
  case (1 t)
  obtain r rest e where ex: "extractInt t = (r, rest, e)" by (rule prod_cases3)
  show ?case
  proof (cases r)
    case (Some v)
    with "1.prems" ex obtain ms' where "nodeListLoop rest = Some ms'" "length ms = Suc (length ms')"
      by (subst (asm) nodeListLoop.simps) (auto split: if_splits)
    moreover have "length rest < length t" using extractInt_shorter ex Some by blast
    moreover have "\<not> (v < NODE_ID_MIN \<or> v > NODE_ID_MAX)"
      using "1.prems" ex Some by (subst (asm) nodeListLoop.simps) (auto split: if_splits)
    ultimately show ?thesis using "1.IH" [of r "(rest, e)" v rest e ms'] ex Some by fastforce
  qed (use "1.prems" ex in \<open>subst (asm) nodeListLoop.simps, auto split: if_splits\<close>)
qed

lemma promptLine_short: "fst (run_state (promptLine label) c) = Some t \<Longrightarrow> length t \<le> 63"
  by (auto simp: promptLine_def run_ask LINE_INPUT_BUFFER_def split: list.splits option.splits if_splits)

lemma promptNodeList_short:
  assumes "fst (run_state (promptNodeList label) c) = Some ms"
  shows "length ms \<le> 63"
proof -
  obtain a c1 where "run_state (promptLine label) c = (a, c1)" by (rule prod.exhaust)
  with assms promptLine_short [of label c] nodeListLoop_length [of "commasToSpaces (the a)" ms] show ?thesis
    by (auto simp: promptNodeList_def commasToSpaces_def split: option.splits if_splits)
qed

lemma promptEntry_blob:
  "fst (run_state promptConfigEntry c) = Some b \<Longrightarrow> \<exists>e. b = toBlob e \<and> entryFits e"
  "fst (run_state promptAssociationEntry c) = Some b \<Longrightarrow> \<exists>e. b = toBlob e \<and> entryFits e"
  "fst (run_state promptWakeUpEntry c) = Some b \<Longrightarrow> \<exists>e. b = toBlob e \<and> entryFits e"
proof -
  show "\<exists>e. b = toBlob e \<and> entryFits e" if got: "fst (run_state promptConfigEntry c) = Some b"
  proof -
    from got obtain p s v where "b = newEntry\<lparr>be_kind := POLICY_KIND_CONFIG, be_parameter := p, be_size := s,
        be_isSigned := (sint v < 0), be_value := v\<rparr>"
      by (auto simp: promptConfigEntry_def split: prod.splits option.splits if_splits)
    then have "b = toBlob (Configuration \<lparr>pc_parameter = p, pc_size = s, pc_isSigned = (sint v < 0), pc_value = v\<rparr>)" by simp
    then show ?thesis using entryFits.simps(2) by blast
  qed
  show "\<exists>e. b = toBlob e \<and> entryFits e" if got: "fst (run_state promptAssociationEntry c) = Some b"
  proof -
    obtain g c1 where g: "run_state (promptByte ''Group id (1-255):'' GROUP_ID_MIN GROUP_ID_MAX) c = (g, c1)" by (rule prod.exhaust)
    obtain ms c2 where ms: "run_state (promptNodeList ''Member node ids (space/comma separated):'') c1 = (ms, c2)" by (rule prod.exhaust)
    from got g ms obtain g' ms' where "g = Some g'" "ms = Some ms'"
      "b = newEntry\<lparr>be_kind := POLICY_KIND_ASSOC, be_groupId := g', be_members := ms'\<rparr>"
      by (auto simp: promptAssociationEntry_def split: option.splits)
    then have "b = toBlob (Association \<lparr>pa_groupId = g', pa_members = ms'\<rparr>)"
      "entryFits (Association \<lparr>pa_groupId = g', pa_members = ms'\<rparr>)"
      using promptNodeList_short [of "''Member node ids (space/comma separated):''" c1 ms'] ms by auto
    then show ?thesis by blast
  qed
  show "\<exists>e. b = toBlob e \<and> entryFits e" if got: "fst (run_state promptWakeUpEntry c) = Some b"
  proof -
    from got obtain i n where "b = newEntry\<lparr>be_kind := POLICY_KIND_WAKEUP, be_intervalSeconds := i, be_notificationNodeId := n\<rparr>"
      by (auto simp: promptWakeUpEntry_def split: prod.splits option.splits)
    then have "b = toBlob (WakeUp \<lparr>pw_intervalSeconds = i, pw_notificationNodeId = n\<rparr>)" by simp
    then show ?thesis using entryFits.simps(3) by blast
  qed
qed

lemma promptPolicyEntry_blob: "fst (run_state promptPolicyEntry c) = Some b \<Longrightarrow> \<exists>e. b = toBlob e \<and> entryFits e"
  by (auto simp: promptPolicyEntry_def split: prod.splits option.splits if_splits dest!: promptEntry_blob)

lemma promptEntries_daemon:
  "cs_daemon (snd (run_state (promptInt32 label) c)) = cs_daemon c"
  "cs_daemon (snd (run_state (promptU32 label) c)) = cs_daemon c"
  "cs_daemon (snd (run_state (promptChar label valid) c)) = cs_daemon c"
  "cs_daemon (snd (run_state (promptNodeList label) c)) = cs_daemon c"
  "cs_daemon (snd (run_state (promptByteList label) c)) = cs_daemon c"
  by (simp_all add: promptInt32_def promptU32_def promptChar_def promptNodeList_def promptByteList_def promptLine_def run_ask
      split: prod.splits list.splits)

lemma prompts_daemon [simp]:
  "cs_daemon (snd (run_state (promptByte label lo hi) c)) = cs_daemon c"
  "cs_daemon (snd (run_state (promptNodeId label) c)) = cs_daemon c"
  "cs_daemon (snd (run_state (promptLine label) c)) = cs_daemon c"
  by (rule sameButInput_fields(1) [OF prompts_sameButInput(1)] sameButInput_fields(1) [OF prompts_sameButInput(2)]
      sameButInput_fields(1) [OF prompts_sameButInput(3)])+

lemma daemon_of_run: "run_state m c = (r, c') \<Longrightarrow> cs_daemon (snd (run_state m c)) = cs_daemon c \<Longrightarrow> cs_daemon c' = cs_daemon c"
  by simp

lemma promptPolicyEntry_daemon: "cs_daemon (snd (run_state promptPolicyEntry c)) = cs_daemon c"
proof -
  note keep = daemon_of_run [OF _ prompts_daemon(1)] daemon_of_run [OF _ promptEntries_daemon(1)]
    daemon_of_run [OF _ promptEntries_daemon(2)] daemon_of_run [OF _ promptEntries_daemon(3)] daemon_of_run [OF _ promptEntries_daemon(4)]
  have "cs_daemon (snd (run_state promptConfigEntry c)) = cs_daemon c" for c :: "'a Console"
    by (auto simp: promptConfigEntry_def split: prod.splits option.splits dest!: keep)
  moreover have "cs_daemon (snd (run_state promptAssociationEntry c)) = cs_daemon c" for c :: "'a Console"
    by (auto simp: promptAssociationEntry_def split: prod.splits option.splits dest!: keep)
  moreover have "cs_daemon (snd (run_state promptWakeUpEntry c)) = cs_daemon c" for c :: "'a Console"
    by (auto simp: promptWakeUpEntry_def split: prod.splits option.splits dest!: keep)
  ultimately show ?thesis
    by (auto simp: promptPolicyEntry_def split: prod.splits option.splits dest!: keep)
qed
definition overrideOf :: "byte \<Rightarrow> PolicyRegister \<Rightarrow> Policy" where
  "overrideOf n r = (case nodeOverride n r of None \<Rightarrow> [] | Some p \<Rightarrow> p)"

lemma nodeOverride_fits: "nodeOverride n r = Some p \<Longrightarrow> policyFits p"
  by (auto simp: nodeOverride_def split: option.splits if_splits dest: deserialize_policyFits)

lemma overrideEntry_fits:
  assumes "policyFits p" and "length p < 255" and "entryFits e"
  shows "policyFits (overrideEntry e p)"
proof -
  have "length (overrideEntry e p) \<le> Suc (length p)" by (induction p) auto
  moreover have "list_all entryFits p \<Longrightarrow> list_all entryFits (overrideEntry e p)" using assms(3) by (induction p) auto
  ultimately show ?thesis using assms(1,2) by (simp add: policyFits_def)
qed

lemma serialize_not_empty: "serialize p \<noteq> []"
  by (simp add: serialize_def)

section \<open>The override service\<close>

text \<open>
  What the policy editor relies on: overrides are read as blobs, writing a blob of a policy that fits replaces the
  override of that node, and \<open>rest\<close>, whatever else the daemon keeps, is not touched by it.
\<close>

locale override_service =
  fixes proxy :: "'d proxy" and sane :: "'d \<Rightarrow> bool" and stored :: "byte \<Rightarrow> 'd \<Rightarrow> Policy option" and rest :: "'d \<Rightarrow> 'r"
  assumes read_back: "proxy ''GetNodeOverride'' [AByte n] d =
      (Inr (RBytes (case stored n d of None \<Rightarrow> [] | Some p \<Rightarrow> serialize p)), d)"
    and stored_fits: "stored n d = Some p \<Longrightarrow> policyFits p"
    and stored_after: "sane d \<Longrightarrow> policyFits p \<Longrightarrow>
      stored m (snd (proxy ''SetNodeOverride'' [AByte n, ABytes (serialize p)] d)) = (if m = n then Some p else stored m d)"
    and rest_after: "sane d \<Longrightarrow> policyFits p \<Longrightarrow> rest (snd (proxy ''SetNodeOverride'' [AByte n, ABytes (serialize p)] d)) = rest d"
begin

lemma edited_blob:
  defines "policy n d \<equiv> (case stored n d of None \<Rightarrow> [] | Some p \<Rightarrow> p)"
  shows "\<exists>rep. applyEntryToBlob (case stored n d of None \<Rightarrow> [] | Some p \<Rightarrow> serialize p) (toBlob e) =
      Some (serialize (overrideEntry e (policy n d)), rep)"
    and "length (policy n d) < 255 \<Longrightarrow> entryFits e \<Longrightarrow> policyFits (overrideEntry e (policy n d))"
proof -
  show "\<exists>rep. applyEntryToBlob (case stored n d of None \<Rightarrow> [] | Some p \<Rightarrow> serialize p) (toBlob e) =
      Some (serialize (overrideEntry e (policy n d)), rep)"
  proof (cases "stored n d")
    case (Some p)
    from stored_fits [OF this] have "deserialize (serialize p) = Some p" by (rule deserialize_fits)
    then show ?thesis using applyEntry_daemon(2) [OF serialize_not_empty, of p e] Some by (simp add: policy_def)
  qed (auto simp: policy_def applyEntry_daemon)
  have "policyFits (policy n d)" using stored_fits by (auto simp: policy_def policyFits_def split: option.splits)
  then show "length (policy n d) < 255 \<Longrightarrow> entryFits e \<Longrightarrow> policyFits (overrideEntry e (policy n d))"
    by (rule overrideEntry_fits)
qed

lemma edit_sets_slot:
  defines "policy n d \<equiv> (case stored n d of None \<Rightarrow> [] | Some p \<Rightarrow> p)"
  assumes "sane (cs_daemon c)"
    and node: "run_state (promptNodeId NODE_PROMPT) c = (Some n, c1)"
    and entry: "run_state promptPolicyEntry c1 = (Some b, c2)"
    and room: "length (policy n (cs_daemon c)) < 255"
  obtains e where "b = toBlob e"
    and "\<And>m. stored m (cs_daemon (snd (run_state (handleSetNodeOverrideEntry proxy) c))) =
      (if m = n then Some (overrideEntry e (policy n (cs_daemon c))) else stored m (cs_daemon c))"
    and "rest (cs_daemon (snd (run_state (handleSetNodeOverrideEntry proxy) c))) = rest (cs_daemon c)"
proof -
  let ?d = "cs_daemon c"
  obtain e where e: "b = toBlob e" "entryFits e" using promptPolicyEntry_blob [of c1 b] entry by auto
  let ?q = "overrideEntry e (policy n ?d)"
  obtain rep where blob: "applyEntryToBlob (case stored n ?d of None \<Rightarrow> [] | Some p \<Rightarrow> serialize p) b = Some (serialize ?q, rep)"
    using edited_blob(1) unfolding e(1) policy_def by blast
  have fits: "policyFits ?q" using edited_blob(2) room e(2) unfolding policy_def by blast
  have "cs_daemon c2 = ?d"
    using prompts_daemon(2) [of NODE_PROMPT c] promptPolicyEntry_daemon [of c1] node entry by simp
  then have after: "cs_daemon (snd (run_state (handleSetNodeOverrideEntry proxy) c)) =
      snd (proxy ''SetNodeOverride'' [AByte n, ABytes (serialize ?q)] ?d)"
    using node entry blob
    by (simp add: handleSetNodeOverrideEntry_def editPolicy_def run_callFor storing_def run_tryCall Let_def read_back split: sum.splits)
  show ?thesis
    by (rule that [OF e(1)]) (simp_all only: after stored_after [OF assms(2) fits] rest_after [OF assms(2) fits])
qed

end

interpretation overrides: override_service "daemonProxy now ro g" "\<lambda>d. pg_ok (dm_policies d)" "\<lambda>n d. nodeOverride n (dm_policies d)"
  "\<lambda>d. (\<lambda>device. devicePolicy device (dm_policies d))" for now ro g
proof unfold_locales
  fix n m :: byte and d :: Daemon and p :: Policy
  show "daemonProxy now ro g ''GetNodeOverride'' [AByte n] d =
      (Inr (RBytes (case nodeOverride n (dm_policies d) of None \<Rightarrow> [] | Some p \<Rightarrow> serialize p)), d)"
    by (simp add: emitGetNodeOverride_def)
  show "policyFits p" if "nodeOverride n (dm_policies d) = Some p" using that by (rule nodeOverride_fits)
  have set: "dm_policies (snd (daemonProxy now ro g ''SetNodeOverride'' [AByte n, ABytes (serialize p)] d)) =
      snd (setNodeOverride n p (dm_policies d))" if "policyFits p"
    by (simp add: emitSetNodeOverride_def deserialize_fits [OF that])
  show "nodeOverride m (dm_policies (snd (daemonProxy now ro g ''SetNodeOverride'' [AByte n, ABytes (serialize p)] d))) =
      (if m = n then Some p else nodeOverride m (dm_policies d))" if "pg_ok (dm_policies d)" "policyFits p"
    unfolding set [OF that(2)] using that by (rule nodeOverrides.get_put)
  show "(\<lambda>device. devicePolicy device (dm_policies (snd (daemonProxy now ro g ''SetNodeOverride'' [AByte n, ABytes (serialize p)] d)))) =
      (\<lambda>device. devicePolicy device (dm_policies d))" if "pg_ok (dm_policies d)" "policyFits p"
    unfolding set [OF that(2)] by (simp add: stores_independent)
qed



end
