(* ===== verification/Terminal_Signals.thy ===== *)
theory Terminal_Signals
  imports Terminal_Actions
begin

text \<open>
  The D-Bus signals the terminal client listens to: \<open>src/utils/zwave-terminal/signal_handlers.cpp\<close>, one
  constructor per signal with the arguments its handler uses. Handlers run on the event-loop thread and change the activity
  only.
\<close>

datatype (plugins only: code) busSignal =
    NodeInclusionStatus byte byte u16
  | NodeExclusionStatus byte byte u16
  | SigDongleStatus bool string
  | SendDataStatus byte byte
  | RemoveFailedNodeStatus byte byte byte byte
  | NodeValueChanged byte string string
  | DSKPendingConfirmation byte string
  | SwitchBinaryReport byte byte
  | IndicatorReport byte byte
  | SupervisionReport byte byte bool byte byte
  | MultiChannelEndPointReport byte byte bool bool
  | MultiChannelCapabilityReport byte byte byte byte bytes
  | SwitchMultilevelReport byte byte byte byte
  | ColorSwitchReport byte byte byte byte byte
  | CentralSceneNotification byte byte byte byte bool
  | SceneActivated byte byte byte string u32
  | BasicSetReceived byte byte
  | SceneActivationSet byte byte byte
  | LogicalThermostatStateChanged string string byte byte byte byte i32
  | DoorLockOperationReport byte byte byte byte byte
  | UserCodeReport byte byte byte bytes
  | UserCodeUsersNumberReport byte byte
  | BatteryReport byte byte bool
  | SensorMultilevelReport byte byte byte byte i32
  | SensorBinaryReport byte byte byte
  | NotificationReport byte byte byte byte bytes
  | MeterReport byte byte byte byte byte i32 u16 i32 bool
  | ThermostatModeReport byte byte
  | ThermostatOperatingStateReport byte byte
  | ThermostatFanModeReport byte byte bool
  | ThermostatSetpointReport byte byte byte byte i32
  | ConfigurationReport byte byte byte i32
  | ManufacturerSpecificReport byte u16 u16 u16
  | NodeVersionReport byte byte byte byte byte byte
  | ZWavePlusInfoReport byte byte byte byte u16 u16
  | WakeUpIntervalReport byte u32 byte
  | WakeUpNotification byte
  | PendingCommandEnqueued byte u32 byte
  | PendingCommandsDrained byte u32
  | WakeUpCycleComplete byte u32
  | ApplicationCommand byte bytes
  | AssociationReport byte byte byte byte bytes
  | AssociationGroupingsReport byte byte
  | SigInitData byte byte bytes byte byte
  | SigDongleInfo string byte bytes byte
  | SigDaemonError byte string byte string

definition CLIENT_STATUS_COMPLETED :: byte where "CLIENT_STATUS_COMPLETED = 0x06"

text \<open>What a signal changes besides the log.\<close>

definition signalEffect :: "busSignal \<Rightarrow> ActivityState \<Rightarrow> ActivityState" where
  "signalEffect sig st =
     (case sig of
        NodeInclusionStatus sid status n \<Rightarrow> if status = CLIENT_STATUS_COMPLETED then st\<lparr>as_nodesDirty := True\<rparr> else st
      | NodeExclusionStatus sid status n \<Rightarrow> if status = CLIENT_STATUS_COMPLETED then st\<lparr>as_nodesDirty := True\<rparr> else st
      | SigDongleStatus connected path \<Rightarrow> setDongleStatus connected path st
      | RemoveFailedNodeStatus n sid phase status \<Rightarrow> if phase \<noteq> 0 then st\<lparr>as_nodesDirty := True\<rparr> else st
      | NodeValueChanged n i v \<Rightarrow> st\<lparr>as_valuesDirty := True\<rparr>
      | DSKPendingConfirmation n dsk \<Rightarrow> setDskPending n dsk st
      | SigDaemonError severity source code message \<Rightarrow> setDaemonError severity source code message st
      | _ \<Rightarrow> st)"

text \<open>
  A reading: the quotient of the value by the power of ten, with that many decimals. Up to nine decimals the power is an
  \<open>int\<close> and the text of the quotient is exact; from ten on the multiplication overflows, which is undefined and here
  \<open>None\<close>.
\<close>

definition fixedText :: "i32 \<Rightarrow> byte \<Rightarrow> string option" where
  "fixedText raw precision = (if precision > 9 then None else renderScaled raw precision)"

definition nameOr :: "string option \<Rightarrow> string \<Rightarrow> string" where
  "nameOr name fallback = (case name of Some s \<Rightarrow> s | None \<Rightarrow> fallback)"

definition withUnit :: "string \<Rightarrow> string" where
  "withUnit unit = (if unit = [] then [] else '' '' @ unit)"

definition supervisionLabel :: "byte \<Rightarrow> string" where
  "supervisionLabel status =
     (if status = 0 then ''no-support'' else if status = 1 then ''working'' else if status = 2 then ''fail''
      else if status = 0xFF then ''success'' else ''?'')"

text \<open>On/off commands among the raw application commands; the others are not logged.\<close>

definition rawCommandLine :: "byte \<Rightarrow> bytes \<Rightarrow> string list" where
  "rawCommandLine sourceNodeId ccData =
     (if length ccData < 3 then []
      else let commandClass = ccData ! 0; command = ccData ! 1; v = ccData ! 2;
               origin = (if commandClass = 0x20 \<and> command = 0x01 then ''Basic Set''
                         else if commandClass = 0x20 \<and> command = 0x03 then ''Basic Report''
                         else if commandClass = 0x25 \<and> command = 0x01 then ''SwitchBinary Set'' else [])
           in if origin = [] then []
              else [origin @ '' node='' @ dec8 sourceNodeId @ '' state=''
                    @ (if v = 0x00 then ''Off'' else if v = 0xFE then ''Unknown'' else ''On'')])"

definition meterLine :: "byte \<Rightarrow> byte \<Rightarrow> byte \<Rightarrow> byte \<Rightarrow> byte \<Rightarrow> i32 \<Rightarrow> u16 \<Rightarrow> i32 \<Rightarrow> bool \<Rightarrow> string option" where
  "meterLine n meterType rateType scale precision v deltaTime previous hasPrevious =
     (case (fixedText v precision, fixedText previous precision) of
        (Some reading, Some before) \<Rightarrow> Some (''MeterReport node='' @ dec8 n @ '' ''
          @ nameOr (meterTypeName meterType) (''type=0x'' @ hex8 meterType) @ (if rateType = 2 then '' (export)'' else [])
          @ '' '' @ reading @ withUnit (meterUnit meterType scale)
          @ (if hasPrevious then '' ('' @ [CHR 0xCE, CHR 0x94] @ decString (unat deltaTime) @ ''s, prev '' @ before @ '')'' else []))
      | _ \<Rightarrow> None)"

text \<open>The lines each handler logs, one definition per signal.\<close>

definition uponNodeInclusionStatus :: "byte \<Rightarrow> byte \<Rightarrow> u16 \<Rightarrow> string list option" where
  "uponNodeInclusionStatus sid status n = Some [formatStatusEntry ''Inclusion'' sid status n]"

definition uponNodeExclusionStatus :: "byte \<Rightarrow> byte \<Rightarrow> u16 \<Rightarrow> string list option" where
  "uponNodeExclusionStatus sid status n = Some [formatStatusEntry ''Exclusion'' sid status n]"

definition uponDongleStatus :: "bool \<Rightarrow> string \<Rightarrow> string list option" where
  "uponDongleStatus connected path =
     Some [if connected then ''DongleStatus: connected '' @ path else ''DongleStatus: disconnected'']"

definition uponSendDataStatus :: "byte \<Rightarrow> byte \<Rightarrow> string list option" where
  "uponSendDataStatus callbackId txStatus =
     Some [''SendDataStatus callback='' @ dec8 callbackId @ '' status=0x'' @ hex8 txStatus @ '' ('' @ formatTxStatus txStatus @ '')'']"

definition uponRemoveFailedNodeStatus :: "byte \<Rightarrow> byte \<Rightarrow> byte \<Rightarrow> byte \<Rightarrow> string list option" where
  "uponRemoveFailedNodeStatus n sid phase status =
     Some [''RemoveFailedNodeStatus node='' @ dec8 n @ '' session='' @ dec8 sid @ (if phase = 0 then '' response='' else '' result='')
       @ ''0x'' @ hex8 status]"

definition uponNodeValueChanged :: "byte \<Rightarrow> string \<Rightarrow> string \<Rightarrow> string list option" where
  "uponNodeValueChanged n i v = Some [''value node='' @ dec8 n @ '' '' @ i @ ''='' @ v]"

definition uponDSKPendingConfirmation :: "byte \<Rightarrow> string \<Rightarrow> string list option" where
  "uponDSKPendingConfirmation n dsk =
     Some (if dsk = [] then [] else [''DSK confirm needed: node '' @ dec8 n @ '' DSK '' @ dsk @ '' - press [k] to enter PIN''])"

definition uponSwitchBinaryReport :: "byte \<Rightarrow> byte \<Rightarrow> string list option" where
  "uponSwitchBinaryReport n state = Some [''SwitchBinaryReport node='' @ dec8 n @ '' state='' @ formatSwitchState state]"

definition uponIndicatorReport :: "byte \<Rightarrow> byte \<Rightarrow> string list option" where
  "uponIndicatorReport n v = Some [''IndicatorReport node='' @ dec8 n @ '' value='' @ dec8 v]"

definition uponSupervisionReport :: "byte \<Rightarrow> byte \<Rightarrow> bool \<Rightarrow> byte \<Rightarrow> byte \<Rightarrow> string list option" where
  "uponSupervisionReport n sid later status duration =
     Some [''SupervisionReport node='' @ dec8 n @ '' session='' @ dec8 sid @ '' status='' @ supervisionLabel status @ '' dur=''
       @ dec8 duration @ (if later then '' (more)'' else [])]"

definition uponMultiChannelEndPointReport :: "byte \<Rightarrow> byte \<Rightarrow> bool \<Rightarrow> bool \<Rightarrow> string list option" where
  "uponMultiChannelEndPointReport n cnt dynamic identical =
     Some [''MultiChannelEndPointReport node='' @ dec8 n @ '' endpoints='' @ dec8 cnt @ (if dynamic then '' dynamic'' else [])
       @ (if identical then '' identical'' else [])]"

definition uponMultiChannelCapabilityReport :: "byte \<Rightarrow> byte \<Rightarrow> byte \<Rightarrow> byte \<Rightarrow> bytes \<Rightarrow> string list option" where
  "uponMultiChannelCapabilityReport n endpoint generic specific ccs =
     Some [''MultiChannelCapabilityReport node='' @ dec8 n @ '' endpoint='' @ dec8 endpoint @ '' generic=0x'' @ hex8 generic
       @ '' specific=0x'' @ hex8 specific @ '' ccs='' @ decString (length ccs)]"

definition uponSwitchMultilevelReport :: "byte \<Rightarrow> byte \<Rightarrow> byte \<Rightarrow> byte \<Rightarrow> string list option" where
  "uponSwitchMultilevelReport n current target duration =
     Some [''SwitchMultilevelReport node='' @ dec8 n @ '' current='' @ dec8 current @ '' target='' @ dec8 target @ '' duration=0x''
       @ hex8 duration]"

definition uponColorSwitchReport :: "byte \<Rightarrow> byte \<Rightarrow> byte \<Rightarrow> byte \<Rightarrow> byte \<Rightarrow> string list option" where
  "uponColorSwitchReport n componentId v target duration =
     Some [''ColorSwitchReport node='' @ dec8 n @ '' '' @ nameOr (colorComponentName componentId) (''component='' @ dec8 componentId)
       @ ''='' @ dec8 v
       @ (if target \<noteq> v \<or> duration \<noteq> 0 then '' (target '' @ dec8 target @ '', dur '' @ dec8 duration @ '')'' else [])]"

definition uponCentralSceneNotification :: "byte \<Rightarrow> byte \<Rightarrow> byte \<Rightarrow> byte \<Rightarrow> bool \<Rightarrow> string list option" where
  "uponCentralSceneNotification n seqNo key scene slow =
     Some [''CentralSceneNotification node='' @ dec8 n @ '' scene='' @ dec8 scene @ '' '' @ sceneKeyText key @ '' seq='' @ dec8 seqNo
       @ (if slow then '' (slow-refresh)'' else [])]"

definition uponSceneActivated :: "byte \<Rightarrow> byte \<Rightarrow> byte \<Rightarrow> string \<Rightarrow> u32 \<Rightarrow> string list option" where
  "uponSceneActivated n scene key sceneId actionCount =
     Some [''SceneActivated node='' @ dec8 n @ '' scene='' @ dec8 scene @ '' '' @ sceneKeyText key @ '' -> '' @ quoted sceneId
       @ '' ('' @ plural (unat actionCount) @ '')'']"

definition uponBasicSetReceived :: "byte \<Rightarrow> byte \<Rightarrow> string list option" where
  "uponBasicSetReceived n v = Some [''BasicSetReceived node='' @ dec8 n @ '' value='' @ dec8 v]"

definition uponSceneActivationSet :: "byte \<Rightarrow> byte \<Rightarrow> byte \<Rightarrow> string list option" where
  "uponSceneActivationSet n scene duration =
     Some [''SceneActivationSet node='' @ dec8 n @ '' scene='' @ dec8 scene @ '' duration='' @ dec8 duration]"

definition uponLogicalThermostatStateChanged :: "string \<Rightarrow> string \<Rightarrow> byte \<Rightarrow> byte \<Rightarrow> byte \<Rightarrow> byte \<Rightarrow> i32 \<Rightarrow> string list option" where
  "uponLogicalThermostatStateChanged k v members mode op fan setpoint =
     Some [''LogicalThermostat '' @ k @ ''='' @ v @ '' members='' @ dec8 members @ '' mode='' @ mixedOr mode @ '' op='' @ dec8 op
       @ '' fan='' @ dec8 fan @ '' setpoint='' @ decInt (sint setpoint)]"

definition uponDoorLockOperationReport :: "byte \<Rightarrow> byte \<Rightarrow> byte \<Rightarrow> byte \<Rightarrow> byte \<Rightarrow> string list option" where
  "uponDoorLockOperationReport n mode condition minutes seconds =
     Some [''DoorLockOperationReport node='' @ dec8 n @ '' mode=0x'' @ hex8 mode @ '' condition=0x'' @ hex8 condition @ '' timeout=''
       @ dec8 minutes @ ''m'' @ dec8 seconds @ ''s'']"

definition uponUserCodeReport :: "byte \<Rightarrow> byte \<Rightarrow> byte \<Rightarrow> bytes \<Rightarrow> string list option" where
  "uponUserCodeReport n slot status code =
     Some [''UserCodeReport node='' @ dec8 n @ '' slot='' @ dec8 slot @ '' status=0x'' @ hex8 status @ '' codeLen=''
       @ decString (length code)]"

definition uponUserCodeUsersNumberReport :: "byte \<Rightarrow> byte \<Rightarrow> string list option" where
  "uponUserCodeUsersNumberReport n slots = Some [''UserCodeUsersNumberReport node='' @ dec8 n @ '' slots='' @ dec8 slots]"

definition uponBatteryReport :: "byte \<Rightarrow> byte \<Rightarrow> bool \<Rightarrow> string list option" where
  "uponBatteryReport n level low =
     Some [''BatteryReport node='' @ dec8 n @ '' level='' @ (if level = BYTE_MAX then ''low(0xFF)'' else dec8 level @ ''%'')
       @ (if low then '' [LOW]'' else [])]"

definition uponSensorMultilevelReport :: "byte \<Rightarrow> byte \<Rightarrow> byte \<Rightarrow> byte \<Rightarrow> i32 \<Rightarrow> string list option" where
  "uponSensorMultilevelReport n sensorType scale precision v =
     map_option (\<lambda>reading. [''SensorMultilevelReport node='' @ dec8 n @ '' ''
         @ nameOr (sensorTypeName sensorType) (''type=0x'' @ hex8 sensorType) @ ''='' @ reading
         @ withUnit (sensorUnit sensorType scale)])
       (fixedText v precision)"

definition uponSensorBinaryReport :: "byte \<Rightarrow> byte \<Rightarrow> byte \<Rightarrow> string list option" where
  "uponSensorBinaryReport n sensorType v =
     Some [''SensorBinaryReport node='' @ dec8 n @ (if sensorType \<noteq> 0 then '' type=0x'' @ hex8 sensorType else [])
       @ (if v \<noteq> 0 then '' active'' else '' idle'')]"

definition uponNotificationReport :: "byte \<Rightarrow> byte \<Rightarrow> byte \<Rightarrow> byte \<Rightarrow> bytes \<Rightarrow> string list option" where
  "uponNotificationReport n ty event status parameters =
     Some [''NotificationReport node='' @ dec8 n @ '' type=0x'' @ hex8 ty @ '' event=0x'' @ hex8 event @ '' status=0x'' @ hex8 status
       @ (if parameters = [] then [] else '' params=['' @ joinSpaces (map hex8 parameters) @ '']'')]"

definition uponMeterReport :: "byte \<Rightarrow> byte \<Rightarrow> byte \<Rightarrow> byte \<Rightarrow> byte \<Rightarrow> i32 \<Rightarrow> u16 \<Rightarrow> i32 \<Rightarrow> bool \<Rightarrow> string list option" where
  "uponMeterReport n meterType rateType scale precision v deltaTime previous hasPrevious =
     map_option (\<lambda>l. [l]) (meterLine n meterType rateType scale precision v deltaTime previous hasPrevious)"

definition uponThermostatModeReport :: "byte \<Rightarrow> byte \<Rightarrow> string list option" where
  "uponThermostatModeReport n mode =
     Some [''ThermostatModeReport node='' @ dec8 n @ '' mode='' @ nameOr (thermostatModeName mode) (''0x'' @ hex8 mode)]"

definition uponThermostatOperatingStateReport :: "byte \<Rightarrow> byte \<Rightarrow> string list option" where
  "uponThermostatOperatingStateReport n state =
     Some [''ThermostatOperatingStateReport node='' @ dec8 n @ '' state='' @ nameOr (thermostatOperatingStateName state) (''0x'' @ hex8 state)]"

definition uponThermostatFanModeReport :: "byte \<Rightarrow> byte \<Rightarrow> bool \<Rightarrow> string list option" where
  "uponThermostatFanModeReport n mode off =
     Some [''ThermostatFanModeReport node='' @ dec8 n @ '' mode='' @ nameOr (thermostatFanModeName mode) (''0x'' @ hex8 mode)
       @ (if off then '' (fan off)'' else [])]"

definition uponThermostatSetpointReport :: "byte \<Rightarrow> byte \<Rightarrow> byte \<Rightarrow> byte \<Rightarrow> i32 \<Rightarrow> string list option" where
  "uponThermostatSetpointReport n ty scale precision v =
     map_option (\<lambda>reading. [''ThermostatSetpointReport node='' @ dec8 n @ '' type='' @ dec8 ty @ '' '' @ reading
         @ (if scale = 0 then '' C'' else '' F'')])
       (fixedText v precision)"

definition uponConfigurationReport :: "byte \<Rightarrow> byte \<Rightarrow> byte \<Rightarrow> i32 \<Rightarrow> string list option" where
  "uponConfigurationReport n parameter sz v =
     Some [''ConfigurationReport node='' @ dec8 n @ '' param='' @ dec8 parameter @ '' size='' @ dec8 sz @ '' value='' @ decInt (sint v)]"

definition uponManufacturerSpecificReport :: "byte \<Rightarrow> u16 \<Rightarrow> u16 \<Rightarrow> u16 \<Rightarrow> string list option" where
  "uponManufacturerSpecificReport n mf pt pid =
     Some [''ManufacturerSpecificReport node='' @ dec8 n @ '' mfr=0x'' @ hex0 4 (unat mf) @ '' type=0x'' @ hex0 4 (unat pt)
       @ '' product=0x'' @ hex0 4 (unat pid)]"

definition uponNodeVersionReport :: "byte \<Rightarrow> byte \<Rightarrow> byte \<Rightarrow> byte \<Rightarrow> byte \<Rightarrow> byte \<Rightarrow> string list option" where
  "uponNodeVersionReport n lib proto protoSub app appSub =
     Some [''NodeVersionReport node='' @ dec8 n @ '' lib='' @ dec8 lib @ '' proto='' @ dec8 proto @ ''.'' @ dec8 protoSub @ '' app=''
       @ dec8 app @ ''.'' @ dec8 appSub]"

definition uponZWavePlusInfoReport :: "byte \<Rightarrow> byte \<Rightarrow> byte \<Rightarrow> byte \<Rightarrow> u16 \<Rightarrow> u16 \<Rightarrow> string list option" where
  "uponZWavePlusInfoReport n ver role nodeType installer user =
     Some [''ZWavePlusInfoReport node='' @ dec8 n @ '' ver='' @ dec8 ver @ '' role='' @ dec8 role @ '' nodeType='' @ dec8 nodeType
       @ '' icons=0x'' @ hex0 4 (unat installer) @ ''/0x'' @ hex0 4 (unat user)]"

definition uponWakeUpIntervalReport :: "byte \<Rightarrow> u32 \<Rightarrow> byte \<Rightarrow> string list option" where
  "uponWakeUpIntervalReport n seconds controller =
     Some [''WakeUpIntervalReport node='' @ dec8 n @ '' interval='' @ decString (unat seconds) @ ''s notify='' @ dec8 controller]"

definition uponWakeUpNotification :: "byte \<Rightarrow> string list option" where
  "uponWakeUpNotification n = Some [''WakeUpNotification node='' @ dec8 n @ '' (awake)'']"

definition uponPendingCommandEnqueued :: "byte \<Rightarrow> u32 \<Rightarrow> byte \<Rightarrow> string list option" where
  "uponPendingCommandEnqueued n sequence priority =
     Some [''PendingCommandEnqueued node='' @ dec8 n @ '' seq='' @ decString (unat sequence) @ '' priority='' @ dec8 priority]"

definition uponPendingCommandsDrained :: "byte \<Rightarrow> u32 \<Rightarrow> string list option" where
  "uponPendingCommandsDrained n cnt = Some [''PendingCommandsDrained node='' @ dec8 n @ '' count='' @ decString (unat cnt)]"

definition uponWakeUpCycleComplete :: "byte \<Rightarrow> u32 \<Rightarrow> string list option" where
  "uponWakeUpCycleComplete n drained =
     Some [''WakeUpCycleComplete node='' @ dec8 n @ '' drained='' @ decString (unat drained) @ '' (back to sleep)'']"

definition uponApplicationCommand :: "byte \<Rightarrow> bytes \<Rightarrow> string list option" where
  "uponApplicationCommand n ccData = Some (rawCommandLine n ccData)"

definition uponAssociationReport :: "byte \<Rightarrow> byte \<Rightarrow> byte \<Rightarrow> byte \<Rightarrow> bytes \<Rightarrow> string list option" where
  "uponAssociationReport n grp maxSupported toFollow members =
     Some [''AssociationReport node='' @ dec8 n @ '' group='' @ dec8 grp @ '' max='' @ dec8 maxSupported @ '' toFollow=''
       @ dec8 toFollow @ '' members=['' @ joinSpaces (map dec8 members) @ '']'']"

definition uponAssociationGroupingsReport :: "byte \<Rightarrow> byte \<Rightarrow> string list option" where
  "uponAssociationGroupingsReport n groupings =
     Some [''AssociationGroupingsReport node='' @ dec8 n @ '' groupings='' @ dec8 groupings]"

definition uponInitData :: "byte \<Rightarrow> byte \<Rightarrow> bytes \<Rightarrow> byte \<Rightarrow> byte \<Rightarrow> string list option" where
  "uponInitData version capabilities ids chipType chipVersion =
     Some [''InitData: serialApiVersion='' @ dec8 version @ '' capabilities=0x'' @ hex8 capabilities @ '' chipType='' @ dec8 chipType
       @ '' chipVer='' @ dec8 chipVersion @ '' nodes='' @ decString (length ids)]"

definition uponDongleInfo :: "string \<Rightarrow> byte \<Rightarrow> bytes \<Rightarrow> byte \<Rightarrow> string list option" where
  "uponDongleInfo libraryVersion libraryType homeId controller =
     Some [''DongleInfo: '' @ quoted libraryVersion @ '' libType='' @ dec8 libraryType @ '' homeId='' @ concat (map hex8 homeId)
       @ '' controllerNode='' @ dec8 controller]"

definition uponDaemonError :: "byte \<Rightarrow> string \<Rightarrow> byte \<Rightarrow> string \<Rightarrow> string list option" where
  "uponDaemonError severity source code message =
     Some (if message = [] then [] else [''DaemonError ['' @ source @ '' code='' @ dec8 code @ '']: '' @ message])"

primrec signalLines :: "busSignal \<Rightarrow> string list option" where
  "signalLines (NodeInclusionStatus sid status n) = uponNodeInclusionStatus sid status n"
| "signalLines (NodeExclusionStatus sid status n) = uponNodeExclusionStatus sid status n"
| "signalLines (SigDongleStatus connected path) = uponDongleStatus connected path"
| "signalLines (SendDataStatus callbackId txStatus) = uponSendDataStatus callbackId txStatus"
| "signalLines (RemoveFailedNodeStatus n sid phase status) = uponRemoveFailedNodeStatus n sid phase status"
| "signalLines (NodeValueChanged n i v) = uponNodeValueChanged n i v"
| "signalLines (DSKPendingConfirmation n dsk) = uponDSKPendingConfirmation n dsk"
| "signalLines (SwitchBinaryReport n state) = uponSwitchBinaryReport n state"
| "signalLines (IndicatorReport n v) = uponIndicatorReport n v"
| "signalLines (SupervisionReport n sid later status duration) = uponSupervisionReport n sid later status duration"
| "signalLines (MultiChannelEndPointReport n cnt dynamic identical) = uponMultiChannelEndPointReport n cnt dynamic identical"
| "signalLines (MultiChannelCapabilityReport n endpoint generic specific ccs) = uponMultiChannelCapabilityReport n endpoint generic specific ccs"
| "signalLines (SwitchMultilevelReport n current target duration) = uponSwitchMultilevelReport n current target duration"
| "signalLines (ColorSwitchReport n componentId v target duration) = uponColorSwitchReport n componentId v target duration"
| "signalLines (CentralSceneNotification n seqNo key scene slow) = uponCentralSceneNotification n seqNo key scene slow"
| "signalLines (SceneActivated n scene key sceneId actionCount) = uponSceneActivated n scene key sceneId actionCount"
| "signalLines (BasicSetReceived n v) = uponBasicSetReceived n v"
| "signalLines (SceneActivationSet n scene duration) = uponSceneActivationSet n scene duration"
| "signalLines (LogicalThermostatStateChanged k v members mode op fan setpoint) = uponLogicalThermostatStateChanged k v members mode op fan setpoint"
| "signalLines (DoorLockOperationReport n mode condition minutes seconds) = uponDoorLockOperationReport n mode condition minutes seconds"
| "signalLines (UserCodeReport n slot status code) = uponUserCodeReport n slot status code"
| "signalLines (UserCodeUsersNumberReport n slots) = uponUserCodeUsersNumberReport n slots"
| "signalLines (BatteryReport n level low) = uponBatteryReport n level low"
| "signalLines (SensorMultilevelReport n sensorType scale precision v) = uponSensorMultilevelReport n sensorType scale precision v"
| "signalLines (SensorBinaryReport n sensorType v) = uponSensorBinaryReport n sensorType v"
| "signalLines (NotificationReport n ty event status parameters) = uponNotificationReport n ty event status parameters"
| "signalLines (MeterReport n meterType rateType scale precision v deltaTime previous hasPrevious) = uponMeterReport n meterType rateType scale precision v deltaTime previous hasPrevious"
| "signalLines (ThermostatModeReport n mode) = uponThermostatModeReport n mode"
| "signalLines (ThermostatOperatingStateReport n state) = uponThermostatOperatingStateReport n state"
| "signalLines (ThermostatFanModeReport n mode off) = uponThermostatFanModeReport n mode off"
| "signalLines (ThermostatSetpointReport n ty scale precision v) = uponThermostatSetpointReport n ty scale precision v"
| "signalLines (ConfigurationReport n parameter sz v) = uponConfigurationReport n parameter sz v"
| "signalLines (ManufacturerSpecificReport n mf pt pid) = uponManufacturerSpecificReport n mf pt pid"
| "signalLines (NodeVersionReport n lib proto protoSub app appSub) = uponNodeVersionReport n lib proto protoSub app appSub"
| "signalLines (ZWavePlusInfoReport n ver role nodeType installer user) = uponZWavePlusInfoReport n ver role nodeType installer user"
| "signalLines (WakeUpIntervalReport n seconds controller) = uponWakeUpIntervalReport n seconds controller"
| "signalLines (WakeUpNotification n) = uponWakeUpNotification n"
| "signalLines (PendingCommandEnqueued n sequence priority) = uponPendingCommandEnqueued n sequence priority"
| "signalLines (PendingCommandsDrained n cnt) = uponPendingCommandsDrained n cnt"
| "signalLines (WakeUpCycleComplete n drained) = uponWakeUpCycleComplete n drained"
| "signalLines (ApplicationCommand n ccData) = uponApplicationCommand n ccData"
| "signalLines (AssociationReport n grp maxSupported toFollow members) = uponAssociationReport n grp maxSupported toFollow members"
| "signalLines (AssociationGroupingsReport n groupings) = uponAssociationGroupingsReport n groupings"
| "signalLines (SigInitData version capabilities ids chipType chipVersion) = uponInitData version capabilities ids chipType chipVersion"
| "signalLines (SigDongleInfo libraryVersion libraryType homeId controller) = uponDongleInfo libraryVersion libraryType homeId controller"
| "signalLines (SigDaemonError severity source code message) = uponDaemonError severity source code message"

text \<open>
  The loop that asks for the members of every group. Its counter is a byte, as the number of groups is; \<open>None\<close>
  if it does not end.
\<close>

partial_function (option) groupLoop :: "'d proxy \<Rightarrow> byte \<Rightarrow> byte \<Rightarrow> byte \<Rightarrow> 'd Console \<Rightarrow> 'd Console option" where
  "groupLoop proxy n supported grp c =
     (if grp \<le> supported
      then let (r, c1) = run_state (callMethod proxy ''GetAssociation'' [AByte n, AByte grp, AByte CALLBACK_ID_NONE]) c in
        if isl r then Some (snd (run_state (logLine (''auto GetAssociation failed: '' @ projl r)) c1))
        else groupLoop proxy n supported (grp + 1) c1
      else Some c)"

definition onSignal :: "'d proxy \<Rightarrow> busSignal \<Rightarrow> 'd Console \<Rightarrow> 'd Console option" where
  "onSignal proxy sig c =
     (case signalLines sig of
        None \<Rightarrow> None
      | Some ls \<Rightarrow>
          let c1 = snd (run_state (logLines ls) (c\<lparr>cs_activity := signalEffect sig (cs_activity c)\<rparr>))
          in (case sig of
                AssociationGroupingsReport n groupings \<Rightarrow> groupLoop proxy n groupings 1 c1
              | _ \<Rightarrow> Some c1))"

section \<open>The chained group queries\<close>

definition askGroup :: "'d proxy \<Rightarrow> byte \<Rightarrow> byte \<Rightarrow> 'd \<Rightarrow> 'd" where
  "askGroup proxy n grp d = snd (proxy ''GetAssociation'' [AByte n, AByte grp, AByte CALLBACK_ID_NONE] d)"

definition accepts :: "'d proxy \<Rightarrow> bool" where
  "accepts proxy \<longleftrightarrow> (\<forall>method args d. \<not> isl (fst (proxy method args d)))"

lemma groupLoop_step:
  "accepts proxy \<Longrightarrow> groupLoop proxy n supported grp c =
     (if grp \<le> supported then groupLoop proxy n supported (grp + 1) (c\<lparr>cs_daemon := askGroup proxy n grp (cs_daemon c)\<rparr>) else Some c)"
  by (subst groupLoop.simps) (simp add: run_callMethod accepts_def askGroup_def)

lemma groupLoop_ends:
  assumes "accepts proxy" and "unat supported < 255" and "unat grp + k = unat supported + 1"
  shows "groupLoop proxy n supported grp c =
     Some (c\<lparr>cs_daemon := fold (askGroup proxy n) (map of_nat [unat grp ..< unat supported + 1]) (cs_daemon c)\<rparr>)"
  using assms(3)
proof (induction k arbitrary: grp c)
  case 0
  then have "\<not> grp \<le> supported" by (simp add: word_le_nat_alt)
  with 0 show ?case by (simp add: groupLoop_step [OF assms(1)])
next
  case (Suc k)
  have le: "grp \<le> supported" using Suc.prems unfolding word_le_nat_alt by simp
  have small: "unat (grp + 1) = unat grp + 1"
    using Suc.prems assms(2) by (simp add: unat_word_ariths)
  have "map of_nat [unat grp ..< unat supported + 1] = grp # map of_nat [unat (grp + 1) ..< unat supported + 1]"
    using upt_conv_Cons [of "unat grp" "unat supported + 1"] Suc.prems by (simp add: small del: upt_Suc)
  moreover have "unat (grp + 1) + k = unat supported + 1" using Suc.prems small by simp
  from Suc.IH [OF this] have "groupLoop proxy n supported (grp + 1) (c\<lparr>cs_daemon := askGroup proxy n grp (cs_daemon c)\<rparr>) =
      Some (c\<lparr>cs_daemon := fold (askGroup proxy n) (map of_nat [unat (grp + 1) ..< unat supported + 1])
        (askGroup proxy n grp (cs_daemon c))\<rparr>)" by simp
  ultimately show ?case by (subst groupLoop_step [OF assms(1)]) (simp add: le)
qed

lemma groupLoop_never_ends:
  fixes proxy :: "'d proxy"
  assumes "accepts proxy"
  shows "groupLoop proxy n 0xFF grp c = None"
proof -
  have "proxy' = proxy \<and> supported = 0xFF \<longrightarrow> False" if "groupLoop proxy' n supported grp c = Some c'" for proxy' supported c'
  proof (rule groupLoop.raw_induct [OF _ that])
    fix loop :: "'d proxy \<Rightarrow> byte \<Rightarrow> byte \<Rightarrow> byte \<Rightarrow> 'd Console \<Rightarrow> 'd Console option"
      and p :: "'d proxy" and m s g :: byte and k k' :: "'d Console"
    assume IH: "\<And>p m s g k k'. loop p m s g k = Some k' \<Longrightarrow> p = proxy \<and> s = 0xFF \<longrightarrow> False"
    assume run: "(if g \<le> s
        then let (r, c1) = run_state (callMethod p ''GetAssociation'' [AByte m, AByte g, AByte CALLBACK_ID_NONE]) k
             in if isl r then Some (snd (run_state (logLine (''auto GetAssociation failed: '' @ projl r)) c1))
                else loop p m s (g + 1) c1
        else Some k) = Some k'"
    have "g \<le> 0xFF" using unat_byte_le [of g] by (simp add: word_le_nat_alt)
    then show "p = proxy \<and> s = 0xFF \<longrightarrow> False"
      using run assms by (auto simp: run_callMethod accepts_def dest: IH)
  qed
  then show ?thesis by (cases "groupLoop proxy n (0xFF :: byte) grp c") auto
qed

lemma onSignal_groupings:
  "onSignal proxy (AssociationGroupingsReport n groupings) c = groupLoop proxy n groupings 1
     (snd (run_state (logLine (''AssociationGroupingsReport node='' @ dec8 n @ '' groupings='' @ dec8 groupings)) c))"
  by (simp add: onSignal_def signalEffect_def uponAssociationGroupingsReport_def)

text \<open>
  C39: a report of a node's association groups makes the client ask for each of them, once and in order, and the handler
  returns, for up to 254 groups. For 255 groups it never returns: the byte that counts the groups wraps to zero before it
  passes the number of groups, so one report of one node keeps the client asking for ever.
\<close>

theorem groupings_chain:
  fixes proxy :: "'d proxy" and n groupings :: byte and c :: "'d Console"
  assumes "accepts proxy"
  shows "(groupings \<noteq> 0xFF \<longrightarrow>
      map_option cs_daemon (onSignal proxy (AssociationGroupingsReport n groupings) c) =
        Some (fold (askGroup proxy n) (map of_nat [1 ..< unat groupings + 1]) (cs_daemon c))) \<and>
    onSignal proxy (AssociationGroupingsReport n 0xFF) c = None"
proof (intro conjI impI)
  assume ne: "groupings \<noteq> 0xFF"
  have "unat groupings \<noteq> unat (0xFF :: byte)" using ne by (metis word_unat_eq_iff)
  then have "unat groupings < 255" using unat_byte_le [of groupings] by (simp del: unat_byte_le unat_byte_lt)
  from groupLoop_ends [OF assms this, of 1 "unat groupings" n]
  show "map_option cs_daemon (onSignal proxy (AssociationGroupingsReport n groupings) c) =
        Some (fold (askGroup proxy n) (map of_nat [1 ..< unat groupings + 1]) (cs_daemon c))"
    by (simp add: onSignal_groupings)
qed (simp add: onSignal_groupings groupLoop_never_ends [OF assms])

definition recordingProxy :: "(string \<times> dbusArg list) list proxy" where
  "recordingProxy method args d = (Inr RNone, d @ [(method, args)])"

theorem groupings_chain_witness:
  "map_option cs_daemon (onSignal recordingProxy (AssociationGroupingsReport 9 2) (newConsole [] [])) =
     Some [(''GetAssociation'', [AByte 9, AByte 1, AByte 0]), (''GetAssociation'', [AByte 9, AByte 2, AByte 0])] \<and>
   onSignal recordingProxy (AssociationGroupingsReport 9 255) (newConsole [] []) = None"
proof -
  have "accepts recordingProxy" by (simp add: accepts_def recordingProxy_def)
  from groupings_chain [OF this, of 2 9 "newConsole [] []"] show ?thesis
    by (simp add: askGroup_def recordingProxy_def newConsole_def CALLBACK_ID_NONE_def upt_rec)
qed

end
