(* ===== verification/Terminal_Frame.thy ===== *)
theory Terminal_Frame
  imports Terminal_Signals
begin

text \<open>
  What the actions and signals of the terminal client leave alone: the node list, the selection and the flags. The
  frame property is proved once per primitive and composed along the monad. It carries the termination argument of the
  scene editor's loop and the invariant of the main loop.
\<close>

section \<open>What an action may change\<close>

text \<open>
  An action writes to the log, which stays within its bound, to the session variables, the prompts, the pages and the
  daemon; it changes neither the node list nor the selection nor anything the signals have set.
\<close>

definition actFrame :: "'d Console \<Rightarrow> 'd Console \<Rightarrow> bool" where
  "actFrame c c' \<longleftrightarrow> cs_model c' = cs_model c \<and>
     cs_activity c' = (cs_activity c)\<lparr>as_log := as_log (cs_activity c')\<rparr> \<and>
     (length (as_log (cs_activity c)) \<le> MAX_LOG_LINES \<longrightarrow> length (as_log (cs_activity c')) \<le> MAX_LOG_LINES)"

definition keeps :: "('d, 'a) console \<Rightarrow> bool" where
  "keeps m \<longleftrightarrow> (\<forall>c. actFrame c (snd (run_state m c)))"

lemma actFrame_refl [simp]: "actFrame c c"
  by (simp add: actFrame_def)

lemma actFrame_trans [trans]: "actFrame a b \<Longrightarrow> actFrame b c \<Longrightarrow> actFrame a c"
  by (cases "cs_activity a"; cases "cs_activity b"; cases "cs_activity c") (auto simp: actFrame_def)

named_theorems keeps_intros

lemma keeps_return [keeps_intros]: "keeps (State_Monad.return x)"
  by (simp add: keeps_def)

lemma keeps_bind [keeps_intros]: "keeps m \<Longrightarrow> (\<And>x. keeps (f x)) \<Longrightarrow> keeps (State_Monad.bind m f)"
  unfolding keeps_def by (auto simp: State_Monad.bind_def split: prod.splits) (metis actFrame_trans snd_conv)

lemma keeps_if [keeps_intros]: "keeps a \<Longrightarrow> keeps b \<Longrightarrow> keeps (if P then a else b)"
  by simp

lemma keeps_option [keeps_intros]: "keeps a \<Longrightarrow> (\<And>x. keeps (f x)) \<Longrightarrow> keeps (case u of None \<Rightarrow> a | Some x \<Rightarrow> f x)"
  by (cases u) simp_all

lemma keeps_sum [keeps_intros]: "(\<And>x. keeps (f x)) \<Longrightarrow> (\<And>x. keeps (g x)) \<Longrightarrow> keeps (case u of Inl x \<Rightarrow> f x | Inr x \<Rightarrow> g x)"
  by (cases u) simp_all

lemma keeps_prod [keeps_intros]: "(\<And>x y. keeps (f x y)) \<Longrightarrow> keeps (case u of (x, y) \<Rightarrow> f x y)"
  by (cases u) simp

lemma keeps_list [keeps_intros]: "keeps a \<Longrightarrow> (\<And>x xs. keeps (f x xs)) \<Longrightarrow> keeps (case u of [] \<Rightarrow> a | x # xs \<Rightarrow> f x xs)"
  by (cases u) simp_all

lemma keeps_Let [keeps_intros]: "(\<And>x. keeps (f x)) \<Longrightarrow> keeps (Let u f)"
  by simp

lemma keeps_gets [keeps_intros]: "keeps (gets f)"
  by (simp add: keeps_def)

lemma trimLog_bounded: "length (trimLog ls) \<le> MAX_LOG_LINES"
  by (simp add: trimLog_drop)

lemma keeps_logLine [keeps_intros]: "keeps (logLine m)"
  by (simp add: keeps_def actFrame_def logged_def trimLog_bounded)

lemma keeps_callMethod [keeps_intros]: "keeps (callMethod proxy method args)"
  by (simp add: keeps_def run_callMethod actFrame_def)

lemma keeps_callFor [keeps_intros]: "keeps (callFor get proxy method args)"
  by (simp add: keeps_def run_callFor actFrame_def)

lemma keeps_ask [keeps_intros]: "keeps (ask label n)"
  by (simp add: keeps_def run_ask actFrame_def Let_def split: list.splits)

lemma keeps_variables [keeps_intros]:
  "keeps nextSession" "keeps (runInfoModal title ls)" "keeps (modify (\<lambda>c. c\<lparr>cs_lastSession := s, cs_lastWasAdd := b\<rparr>))"
  by (simp_all add: keeps_def nextSession_def runInfoModal_def actFrame_def)

lemma keeps_prompts [keeps_intros]:
  "keeps (promptByte label lo hi)" "keeps (promptNodeId label)" "keeps (promptInt32 label)" "keeps (promptLine label)"
  "keeps (promptU16 label)" "keeps (promptU32 label)" "keeps (promptChar label valid)" "keeps (promptNodeList label)"
  "keeps (promptByteList label)"
  unfolding promptByte_def promptNodeId_def promptInt32_def promptLine_def promptU16_def promptU32_def promptChar_def
    promptNodeList_def promptByteList_def
  by (intro keeps_intros)+

lemma keeps_calls [keeps_intros]:
  "keeps (tryCall proxy method args doneText)" "keeps (callOrThrow proxy method args doneText)"
  unfolding tryCall_def callOrThrow_def by (intro keeps_intros)+

lemma keeps_logLines [keeps_intros]: "keeps (logLines ls)"
  by (induction ls) (simp_all add: keeps_return keeps_bind keeps_logLine)

lemma keeps_logPolicy [keeps_intros]: "keeps (logPolicy header blob)"
  unfolding logPolicy_def by (intro keeps_intros)

lemma keeps_handleGet [keeps_intros]:
  "keeps askNode \<Longrightarrow> keeps askArg \<Longrightarrow> keeps (handleGet proxy askNode method what askArg logArg)"
  unfolding handleGet_def by (intro keeps_intros)

lemma keeps_gets_handlers [keeps_intros]:
  "keeps (handleSimpleGet proxy method)" "keeps (handleGetConfiguration proxy)" "keeps (handleGetNotification proxy)"
  "keeps (handleGetMeter proxy)" "keeps (handleGetColorSwitch proxy)" "keeps (handleGetUserCode proxy)"
  "keeps (handleGetThermostatSetpoint proxy)" "keeps (handleGetAssociation proxy)"
  "keeps (handleGetAssociationGroupings proxy)" "keeps (handleGetMultiChannelCapability proxy)"
  "keeps (handleGetMultilevelSwitch proxy)"
  unfolding handleSimpleGet_def handleGetConfiguration_def handleGetNotification_def handleGetMeter_def
    handleGetColorSwitch_def handleGetUserCode_def handleGetThermostatSetpoint_def handleGetAssociation_def
    handleGetAssociationGroupings_def handleGetMultiChannelCapability_def handleGetMultilevelSwitch_def
  by (intro keeps_intros)+

lemma keeps_handleSetByte [keeps_intros]: "keeps (handleSetByte proxy method label field)"
  unfolding handleSetByte_def by (intro keeps_intros)

lemma keeps_set_handlers [keeps_intros]:
  "keeps (handleSwitchBinary proxy on)" "keeps (handleSetMultilevelSwitch proxy)" "keeps (handleSetBasic proxy)"
  "keeps (handleSetIndicator proxy)" "keeps (handleSetConfiguration proxy)" "keeps (handleSetThermostatMode proxy)"
  "keeps (handleSetThermostatSetpoint proxy)" "keeps (handleSetThermostatFanMode proxy)" "keeps (handleSetColorSwitch proxy)"
  "keeps (handleSetDoorLock proxy)" "keeps (handleSetUserCode proxy)" "keeps (handleSetWakeUpInterval proxy)"
  "keeps (handleAssociationEdit proxy method)" "keeps (handleRemoveFailedNode proxy)"
  unfolding handleSwitchBinary_def handleSetMultilevelSwitch_def handleSetBasic_def handleSetIndicator_def
    handleSetConfiguration_def handleSetThermostatMode_def handleSetThermostatSetpoint_def handleSetThermostatFanMode_def
    handleSetColorSwitch_def handleSetDoorLock_def handleSetUserCode_def handleSetWakeUpInterval_def
    handleAssociationEdit_def handleRemoveFailedNode_def
  by (intro keeps_intros)+

lemma keeps_lifeline [keeps_intros]: "keeps (fetchControllerNodeId proxy)" "keeps (handleSetLifeline proxy)"
proof -
  show fetch: "keeps (fetchControllerNodeId proxy)" unfolding fetchControllerNodeId_def by (intro keeps_intros)
  show "keeps (handleSetLifeline proxy)" unfolding handleSetLifeline_def by (intro keeps_intros fetch)
qed

lemma keeps_loops [keeps_intros]:
  "keeps (listNodesLoop proxy ns)" "keeps (listPoliciesLoop ps)" "keeps (listScenesLoop proxy ss)"
proof -
  show "keeps (listNodesLoop proxy ns)"
    by (induction proxy ns rule: listNodesLoop.induct) (simp only: listNodesLoop.simps, intro keeps_intros, assumption?)+
  show "keeps (listPoliciesLoop ps)"
    by (induction ps rule: listPoliciesLoop.induct) (simp only: listPoliciesLoop.simps, intro keeps_intros, assumption?)+
  show "keeps (listScenesLoop proxy ss)"
    by (induction proxy ss rule: listScenesLoop.induct) (simp only: listScenesLoop.simps, intro keeps_intros, assumption?)+
qed

lemma keeps_pages [keeps_intros]:
  "keeps (handleListNodes proxy)" "keeps (handleNetworkInfo proxy)" "keeps (handleNodeInfo proxy now n)"
  unfolding handleListNodes_def handleNetworkInfo_def handleNodeInfo_def by (intro keeps_intros)+

lemma keeps_viewPolicy [keeps_intros]: "keeps (handleViewPolicy proxy method header)"
  unfolding handleViewPolicy_def by (intro keeps_intros)

lemma keeps_editPolicy [keeps_intros]: "keeps (editPolicy proxy g s what device doneText entry)"
  unfolding editPolicy_def by (intro keeps_intros)

lemma keeps_promptEntries [keeps_intros]: "keeps promptConfigEntry" "keeps promptAssociationEntry" "keeps promptWakeUpEntry"
  unfolding promptConfigEntry_def promptAssociationEntry_def promptWakeUpEntry_def by (intro keeps_intros)+

lemma keeps_promptPolicyEntry [keeps_intros]: "keeps promptPolicyEntry"
  unfolding promptPolicyEntry_def by (intro keeps_intros)

lemma keeps_policies [keeps_intros]:
  "keeps (handleViewEffectivePolicy proxy)" "keeps (handleViewNodeOverride proxy)" "keeps (handleDeleteNodeOverride proxy)"
  "keeps (handleSetNodeOverrideEntry proxy)" "keeps (handleDevicePolicyEdit proxy)" "keeps (handleListDevicePolicies proxy)"
  unfolding handleViewEffectivePolicy_def handleViewNodeOverride_def handleDeleteNodeOverride_def
    handleSetNodeOverrideEntry_def handleDevicePolicyEdit_def handleListDevicePolicies_def
  by (intro keeps_intros)+

lemma keeps_scenePrompts [keeps_intros]: "keeps promptSceneSource" "keeps (promptTriggerSelector source)" "keeps promptGroup"
  unfolding promptSceneSource_def promptTriggerSelector_def promptGroup_def by (intro keeps_intros)+

lemma keeps_scenes [keeps_intros]:
  "keeps (handleListScenes proxy)" "keeps (handleListSceneTriggers proxy)" "keeps (handleDeleteScene proxy)"
  "keeps (handleBindSceneTrigger proxy)" "keeps (handleUnbindSceneTrigger proxy)"
  unfolding handleListScenes_def handleListSceneTriggers_def handleDeleteScene_def handleBindSceneTrigger_def
    handleUnbindSceneTrigger_def
  by (intro keeps_intros)+

lemma keeps_thermostat [keeps_intros]:
  "keeps (handleSetLogicalThermostatMode proxy)" "keeps (handleSetLogicalThermostatSetpoint proxy)"
  "keeps (handleGetLogicalThermostatState proxy)"
  unfolding handleSetLogicalThermostatMode_def handleSetLogicalThermostatSetpoint_def handleGetLogicalThermostatState_def
  by (intro keeps_intros)+

section \<open>The loop of the scene editor\<close>

lemma keeps_run: "keeps m \<Longrightarrow> run_state m c = (x, c') \<Longrightarrow> actFrame c c'"
  unfolding keeps_def by (metis snd_conv)

lemma actFrame_model: "actFrame c c' \<Longrightarrow> cs_model c' = cs_model c"
  by (simp add: actFrame_def)

lemma prompt_uses_answers:
  "cs_input (snd (run_state (promptNodeId label) c)) = tl (cs_input c)"
  "cs_input (snd (run_state (promptByteList label) c)) = tl (cs_input c)"
  "cs_input (snd (run_state (promptLine label) c)) = tl (cs_input c)"
  by (simp_all add: promptNodeId_def promptByteList_def promptLine_def run_ask Let_def split: list.splits)

lemma node_needs_answer:
  assumes "selectedNodeId (cs_model c) = None" and "run_state (promptNodeId label) c = (Some n, c1)"
  shows "cs_input c \<noteq> []"
  using assms by (auto simp: promptNodeId_def run_ask Let_def split: list.splits if_splits)

lemma sceneLoop_ends:
  assumes "selectedNodeId (cs_model c) = None"
  shows "\<exists>r. sceneLoop actions c = Some r"
  using assms
proof (induction "length (cs_input c)" arbitrary: actions c rule: less_induct)
  case less
  obtain t c1 where t: "run_state (promptNodeId ''Action target node (blank to finish):'') c = (t, c1)" by fastforce
  obtain p c2 where p: "run_state (promptByteList ''CC payload bytes (e.g. 0x25 0x01 0xFF):'') c1 = (p, c2)" by fastforce
  note frame = actFrame_model [OF keeps_run [OF keeps_prompts(2) t]] actFrame_model [OF keeps_run [OF keeps_prompts(9) p]]
  note used = prompt_uses_answers(1) [of _ c] prompt_uses_answers(2) [of _ c1]
  show ?case
  proof (cases t)
    case None
    then show ?thesis by (subst sceneLoop.simps) (simp add: t)
  next
    case (Some n)
    with node_needs_answer [OF less.prems] t have "cs_input c \<noteq> []" by blast
    moreover have "cs_input c2 = tl (tl (cs_input c))"
      using used(1) [of "''Action target node (blank to finish):''"] used(2) [of "''CC payload bytes (e.g. 0x25 0x01 0xFF):''"]
      by (simp add: t p)
    ultimately have shorter: "length (cs_input c2) < length (cs_input c)" by (cases "cs_input c") auto
    let ?c3 = "snd (run_state (logLine (''SetScene: invalid payload '' @ emDash @ '' action skipped'')) c2)"
    have "selectedNodeId (cs_model ?c3) = None" "length (cs_input ?c3) < length (cs_input c)" "selectedNodeId (cs_model c2) = None"
      using less.prems frame shorter by simp_all
    with less.hyps shorter show ?thesis using Some by (subst sceneLoop.simps) (simp add: t p del: run_logLine)
  qed
qed

lemma blank_answers:
  assumes "set (cs_input c) \<subseteq> {Some []}"
  shows "fst (run_state (promptNodeId label) c) = selectedNodeId (cs_model c)"
    and "fst (run_state (promptByteList label) c) = None"
  using assms by (auto simp: promptNodeId_def promptByteList_def promptLine_def run_ask Let_def split: list.splits)

lemma tl_subset: "set (tl xs) \<subseteq> set xs"
  by (cases xs) auto

lemma sceneLoop_never_ends:
  fixes c :: "'d Console"
  assumes "selectedNodeId (cs_model c) \<noteq> None" and "set (cs_input c) \<subseteq> {Some []}"
  shows "sceneLoop actions c = None"
proof -
  have "selectedNodeId (cs_model c) \<noteq> None \<and> set (cs_input c) \<subseteq> {Some []} \<longrightarrow> False"
    if "sceneLoop actions c = Some r" for c :: "'d Console" and actions r
  proof (rule sceneLoop.raw_induct [OF _ that])
    fix loop :: "(byte \<times> bytes) list \<Rightarrow> 'd Console \<Rightarrow> ((byte \<times> bytes) list \<times> 'd Console) option"
      and acts and k :: "'d Console" and res
    assume IH: "\<And>acts k res. loop acts k = Some res \<Longrightarrow>
        selectedNodeId (cs_model k) \<noteq> None \<and> set (cs_input k) \<subseteq> {Some []} \<longrightarrow> False"
    obtain t c1 where t: "run_state (promptNodeId ''Action target node (blank to finish):'') k = (t, c1)" by fastforce
    obtain p c2 where p: "run_state (promptByteList ''CC payload bytes (e.g. 0x25 0x01 0xFF):'') c1 = (p, c2)" by fastforce
    assume run: "(let (targetNode, c1) = run_state (promptNodeId ''Action target node (blank to finish):'') k in
        if targetNode = None then Some (acts, c1)
        else let (payload, c2) = run_state (promptByteList ''CC payload bytes (e.g. 0x25 0x01 0xFF):'') c1 in
          if payload = None
          then loop acts (snd (run_state (logLine (''SetScene: invalid payload '' @ emDash @ '' action skipped'')) c2))
          else loop (acts @ [(the targetNode, the payload)]) c2) = Some res"
    show "selectedNodeId (cs_model k) \<noteq> None \<and> set (cs_input k) \<subseteq> {Some []} \<longrightarrow> False"
    proof (intro impI, elim conjE)
      assume sel: "selectedNodeId (cs_model k) \<noteq> None" and blank: "set (cs_input k) \<subseteq> {Some []}"
      have input: "cs_input c1 = tl (cs_input k)" "cs_input c2 = tl (cs_input c1)"
        using prompt_uses_answers(1) [of "''Action target node (blank to finish):''" k]
          prompt_uses_answers(2) [of "''CC payload bytes (e.g. 0x25 0x01 0xFF):''" c1] t p by simp_all
      have blank': "set (cs_input c1) \<subseteq> {Some []}" "set (cs_input c2) \<subseteq> {Some []}"
        unfolding input by (rule subset_trans [OF tl_subset blank] subset_trans [OF tl_subset subset_trans [OF tl_subset blank]])+
      have "t = selectedNodeId (cs_model k)" "p = None"
        using blank_answers(1) [OF blank, of "''Action target node (blank to finish):''"]
          blank_answers(2) [OF blank'(1), of "''CC payload bytes (e.g. 0x25 0x01 0xFF):''"] t p by simp_all
      with run sel have next_round: "loop acts (snd (run_state (logLine (''SetScene: invalid payload '' @ emDash @ '' action skipped'')) c2)) = Some res"
        by (simp add: t p)
      have "cs_model c2 = cs_model k"
        using actFrame_model [OF keeps_run [OF keeps_prompts(2) t]] actFrame_model [OF keeps_run [OF keeps_prompts(9) p]] by simp
      then show False using IH [OF next_round] sel blank'(2) by simp
    qed
  qed
  from this [of actions c] assms show ?thesis by (cases "sceneLoop actions c") auto
qed

text \<open>
  When the scene editor comes back. As long as no node is selected in the list, it returns for whatever is
  typed, since every action uses up an answer and a blank one ends it, as its prompt says. With a node selected a blank
  answer means that node: once the user has nothing more to enter, the editor does not return.
\<close>

theorem scene_editor_ends:
  "(selectedNodeId (cs_model c) = None \<longrightarrow> (\<exists>c'. handleSetScene proxy c = Some c')) \<and>
   (selectedNodeId (cs_model c) \<noteq> None \<and> cs_input c = Some (ch # rest) # replicate k (Some []) \<longrightarrow> handleSetScene proxy c = None)"
proof (intro conjI impI; (elim conjE)?)
  obtain sid c1 where s: "run_state (promptLine ''Scene id:'') c = (sid, c1)" by fastforce
  have model: "cs_model c1 = cs_model c" by (rule actFrame_model [OF keeps_run [OF keeps_prompts(4) s]])
  show "\<exists>c'. handleSetScene proxy c = Some c'" if "selectedNodeId (cs_model c) = None"
    using sceneLoop_ends [of c1 "[]"] that model by (auto simp: handleSetScene_def s split: option.splits)
  show "handleSetScene proxy c = None"
    if "selectedNodeId (cs_model c) \<noteq> None" "cs_input c = Some (ch # rest) # replicate k (Some [])"
  proof -
    have "sid \<noteq> None" using s that(2) by (auto simp: promptLine_def run_ask terminal_const_defs)
    moreover have "cs_input c1 = replicate k (Some [])"
      using prompt_uses_answers(3) [of "''Scene id:''" c] s that(2) by simp
    then have "sceneLoop [] c1 = None" using that(1) model by (intro sceneLoop_never_ends) auto
    ultimately show ?thesis by (auto simp: handleSetScene_def s split: option.splits)
  qed
qed

theorem scene_editor_ends_witness:
  "handleSetScene recordingProxy ((newConsole [Some ''Night''] [])\<lparr>cs_model := demoModel\<rparr>) = None \<and>
   (\<exists>c'. handleSetScene recordingProxy (newConsole [Some ''Night'', Some ''5'', Some ''0x25 0x01 0x00''] []) = Some c')"
proof
  have "selectedNodeId demoModel \<noteq> None" by (simp add: selectedNodeId_def demoModel_def)
  with scene_editor_ends [of "(newConsole [Some ''Night''] [])\<lparr>cs_model := demoModel\<rparr>" recordingProxy "CHR ''N''" "''ight''" 0]
  show "handleSetScene recordingProxy ((newConsole [Some ''Night''] [])\<lparr>cs_model := demoModel\<rparr>) = None"
    by (simp add: newConsole_def)
  show "\<exists>c'. handleSetScene recordingProxy (newConsole [Some ''Night'', Some ''5'', Some ''0x25 0x01 0x00''] []) = Some c'"
    using scene_editor_ends [of "newConsole [Some ''Night'', Some ''5'', Some ''0x25 0x01 0x00''] []" recordingProxy]
    by (simp add: newConsole_def selectedNodeId_def)
qed

end
