(* ===== verification/Terminal_Main.thy ===== *)
theory Terminal_Main
  imports Terminal_Frame
begin

text \<open>
  The main loop of the terminal client: \<open>run\<close> of \<open>utils/zwave-terminal/main.cpp\<close>, with \<open>runActionMenu\<close> of
  \<open>render.cpp\<close>. One pass draws, acts on the dirty flags, waits for a key at most a tick and runs its action. The signal
  handlers run on the event-loop thread, between the passes; the network changes on its own. The codes of the arrow
  keys are curses' own, so they are parameters, as are the clock of the screen and of the node page.
\<close>

section \<open>Actions and menus\<close>

text \<open>
  An action that does not return gives \<open>None\<close>; else the text of the \<open>sdbus::Error\<close> that left it, if
  one did.
\<close>

type_synonym 'd action = "'d Console \<Rightarrow> (string option \<times> 'd Console) option"

definition quiet :: "('d, unit) console \<Rightarrow> 'd action" where
  "quiet h c = Some (None, snd (run_state h c))"

definition throwing :: "('d, string option) console \<Rightarrow> 'd action" where
  "throwing h c = Some (run_state h c)"

definition looping :: "('d Console \<Rightarrow> 'd Console option) \<Rightarrow> 'd action" where
  "looping h c = map_option (Pair None) (h c)"

record 'd MenuItem =
  mi_key :: char
  mi_label :: string
  mi_action :: "'d action"

definition menuItem :: "char \<Rightarrow> string \<Rightarrow> 'd action \<Rightarrow> 'd MenuItem" where
  "menuItem key label action = \<lparr>mi_key = key, mi_label = label, mi_action = action\<rparr>"

fun menuLines :: "int \<Rightarrow> 'd MenuItem list \<Rightarrow> drawOp list" where
  "menuLines row [] = []"
| "menuLines row (item # items) =
     PutText Plain row 0 (''  ['' @ [mi_key item] @ ''] '' @ mi_label item) # menuLines (row + 1) items"

definition menuPage :: "int \<Rightarrow> string \<Rightarrow> 'd MenuItem list \<Rightarrow> drawOp list" where
  "menuPage maxX title items =
     [PutText Plain 0 0 ('' '' @ title @ ''  -  press a key (any other to cancel)''), Rule 1 maxX] @ menuLines 2 items"

text \<open>\<open>getch\<close>: the next key, or nothing when the tick is over.\<close>

definition getch :: "('d, nat option) console" where
  "getch = State (\<lambda>c. case cs_keys c of [] \<Rightarrow> (None, c) | k # later \<Rightarrow> (k, c\<lparr>cs_keys := later\<rparr>))"

fun runItem :: "nat option \<Rightarrow> 'd MenuItem list \<Rightarrow> 'd action" where
  "runItem key [] c = Some (None, c)"
| "runItem key (item # items) c = (if Some (of_char (mi_key item)) = key then mi_action item c else runItem key items c)"

definition runActionMenu :: "'d MenuItem list \<Rightarrow> 'd action" where
  "runActionMenu items c = (case run_state getch c of (key, c1) \<Rightarrow> runItem key items c1)"

definition simpleGet :: "'d proxy \<Rightarrow> string \<Rightarrow> 'd action" where
  "simpleGet proxy method = quiet (handleSimpleGet proxy method)"

definition getMenu :: "'d proxy \<Rightarrow> 'd MenuItem list" where
  "getMenu proxy =
     [menuItem CHR ''b'' ''Battery'' (simpleGet proxy ''GetBattery''),
      menuItem CHR ''v'' ''Version'' (simpleGet proxy ''GetNodeVersion''),
      menuItem CHR ''m'' ''Manufacturer-specific'' (simpleGet proxy ''GetManufacturerSpecific''),
      menuItem CHR ''z'' ''Z-Wave Plus info'' (simpleGet proxy ''GetZWavePlusInfo''),
      menuItem CHR ''c'' ''Configuration'' (quiet (handleGetConfiguration proxy)),
      menuItem CHR ''s'' ''Sensor multilevel'' (simpleGet proxy ''GetSensorMultilevel''),
      menuItem CHR ''i'' ''Binary sensor'' (simpleGet proxy ''GetSensorBinary''),
      menuItem CHR ''e'' ''Meter'' (quiet (handleGetMeter proxy)),
      menuItem CHR ''n'' ''Notification'' (quiet (handleGetNotification proxy)),
      menuItem CHR ''t'' ''Thermostat mode'' (simpleGet proxy ''GetThermostatMode''),
      menuItem CHR ''p'' ''Thermostat setpoint'' (quiet (handleGetThermostatSetpoint proxy)),
      menuItem CHR ''o'' ''Thermostat operating state'' (simpleGet proxy ''GetThermostatOperatingState''),
      menuItem CHR ''f'' ''Thermostat fan mode'' (simpleGet proxy ''GetThermostatFanMode''),
      menuItem CHR ''w'' ''Multilevel switch'' (throwing (handleGetMultilevelSwitch proxy)),
      menuItem CHR ''k'' ''Color switch'' (quiet (handleGetColorSwitch proxy)),
      menuItem CHR ''d'' ''Door lock'' (simpleGet proxy ''GetDoorLock''),
      menuItem CHR ''u'' ''User code'' (quiet (handleGetUserCode proxy)),
      menuItem CHR ''x'' ''User code slot count'' (simpleGet proxy ''GetUserCodeCount''),
      menuItem CHR ''a'' ''Association members'' (quiet (handleGetAssociation proxy)),
      menuItem CHR ''r'' ''Association groupings'' (quiet (handleGetAssociationGroupings proxy)),
      menuItem CHR ''h'' ''Multi Channel endpoints'' (simpleGet proxy ''GetMultiChannelEndpoints''),
      menuItem CHR ''j'' ''Multi Channel capability'' (quiet (handleGetMultiChannelCapability proxy))]"

definition controlMenu :: "'d proxy \<Rightarrow> 'd MenuItem list" where
  "controlMenu proxy =
     [menuItem CHR ''o'' ''Switch binary ON'' (throwing (handleSwitchBinary proxy True)),
      menuItem CHR ''f'' ''Switch binary OFF'' (throwing (handleSwitchBinary proxy False)),
      menuItem CHR ''w'' ''Multilevel switch set'' (throwing (handleSetMultilevelSwitch proxy)),
      menuItem CHR ''b'' ''Basic set'' (quiet (handleSetBasic proxy)),
      menuItem CHR ''i'' ''Indicator set'' (quiet (handleSetIndicator proxy)),
      menuItem CHR ''c'' ''Configuration set'' (quiet (handleSetConfiguration proxy)),
      menuItem CHR ''t'' ''Thermostat mode set'' (quiet (handleSetThermostatMode proxy)),
      menuItem CHR ''p'' ''Thermostat setpoint set'' (quiet (handleSetThermostatSetpoint proxy)),
      menuItem CHR ''n'' ''Thermostat fan mode set'' (quiet (handleSetThermostatFanMode proxy)),
      menuItem CHR ''l'' ''Color switch set (RGB)'' (quiet (handleSetColorSwitch proxy)),
      menuItem CHR ''d'' ''Door lock set'' (quiet (handleSetDoorLock proxy)),
      menuItem CHR ''u'' ''User code set'' (quiet (handleSetUserCode proxy)),
      menuItem CHR ''k'' ''Wake-up interval'' (quiet (handleSetWakeUpInterval proxy)),
      menuItem CHR ''a'' ''Association add'' (quiet (handleAssociationEdit proxy ''SetAssociation'')),
      menuItem CHR ''r'' ''Association remove'' (quiet (handleAssociationEdit proxy ''RemoveAssociation''))]"

definition policyMenu :: "'d proxy \<Rightarrow> 'd MenuItem list" where
  "policyMenu proxy =
     [menuItem CHR ''e'' ''View effective policy'' (quiet (handleViewEffectivePolicy proxy)),
      menuItem CHR ''o'' ''View node override'' (quiet (handleViewNodeOverride proxy)),
      menuItem CHR ''s'' ''Set node override entry'' (quiet (handleSetNodeOverrideEntry proxy)),
      menuItem CHR ''d'' ''Delete node override'' (quiet (handleDeleteNodeOverride proxy)),
      menuItem CHR ''l'' ''List device policies'' (quiet (handleListDevicePolicies proxy)),
      menuItem CHR ''a'' ''Device policy authoring'' (quiet (handleDevicePolicyEdit proxy))]"

definition sceneMenu :: "'d proxy \<Rightarrow> 'd MenuItem list" where
  "sceneMenu proxy =
     [menuItem CHR ''l'' ''List scenes'' (quiet (handleListScenes proxy)),
      menuItem CHR ''t'' ''List triggers'' (quiet (handleListSceneTriggers proxy)),
      menuItem CHR ''s'' ''Set / edit scene'' (looping (handleSetScene proxy)),
      menuItem CHR ''d'' ''Delete scene'' (quiet (handleDeleteScene proxy)),
      menuItem CHR ''b'' ''Bind trigger (press -> scene)'' (quiet (handleBindSceneTrigger proxy)),
      menuItem CHR ''u'' ''Unbind trigger'' (quiet (handleUnbindSceneTrigger proxy))]"

definition thermostatMenu :: "'d proxy \<Rightarrow> 'd MenuItem list" where
  "thermostatMenu proxy =
     [menuItem CHR ''m'' ''Set group mode'' (quiet (handleSetLogicalThermostatMode proxy)),
      menuItem CHR ''s'' ''Set group setpoint'' (quiet (handleSetLogicalThermostatSetpoint proxy)),
      menuItem CHR ''g'' ''Get group state'' (quiet (handleGetLogicalThermostatState proxy))]"

section \<open>The keys of the main screen\<close>

definition confirmDsk :: "'d proxy \<Rightarrow> ('d, string option) console" where
  "confirmDsk proxy = do {
     pending \<leftarrow> gets (\<lambda>c. as_dskPending (cs_activity c));
     if \<not> dp_active pending then do { logLine ''No DSK confirmation pending''; State_Monad.return None }
     else do {
       pin \<leftarrow> promptLine (''DSK PIN for node '' @ dec8 (dp_nodeId pending) @ '' (5 digits):'');
       case pin of
         None \<Rightarrow> State_Monad.return None
       | Some p \<Rightarrow> callOrThrow proxy ''ConfirmDSK'' [AByte (dp_nodeId pending), AString p]
           (''ConfirmDSK node='' @ dec8 (dp_nodeId pending) @ '' issued'')
     }
   }"

text \<open>The two session keys: the counter moves on even when the call fails, \<open>lastSession\<close> does not.\<close>

definition startSession :: "'d proxy \<Rightarrow> bool \<Rightarrow> string \<Rightarrow> dbusArg list \<Rightarrow> ('d, string option) console" where
  "startSession proxy adding method extra = do {
     sid \<leftarrow> nextSession;
     r \<leftarrow> callMethod proxy method ([AByte MODE_CLASSIC, AByte FLAGS_NONE, AByte sid] @ extra);
     case r of
       Inl err \<Rightarrow> State_Monad.return (Some err)
     | Inr _ \<Rightarrow> do {
         modify (\<lambda>c. c\<lparr>cs_lastSession := sid, cs_lastWasAdd := adding\<rparr>);
         logLine (method @ '' (classic, session '' @ dec8 sid @ '') issued'');
         State_Monad.return None
       }
   }"

definition stopSession :: "'d proxy \<Rightarrow> ('d, string option) console" where
  "stopSession proxy = do {
     lastSession \<leftarrow> gets cs_lastSession;
     lastWasAdd \<leftarrow> gets cs_lastWasAdd;
     if lastSession = 0 then do { logLine ''No session to stop''; State_Monad.return None }
     else if lastWasAdd then callOrThrow proxy ''StopAddNode'' [AByte lastSession] (''StopAddNode session '' @ dec8 lastSession @ '' issued'')
     else callOrThrow proxy ''StopRemoveNode'' [AByte lastSession] (''StopRemoveNode session '' @ dec8 lastSession @ '' issued'')
   }"

definition selectedInfo :: "'d proxy \<Rightarrow> int \<Rightarrow> ('d, unit) console" where
  "selectedInfo proxy now = do {
     selected \<leftarrow> gets (\<lambda>c. selectedNodeId (cs_model c));
     case selected of Some n \<Rightarrow> handleNodeInfo proxy now n | None \<Rightarrow> logLine ''No node selected''
   }"

definition refreshAll :: "'d proxy \<Rightarrow> ('d, unit) console" where
  "refreshAll proxy = do { refreshNodes proxy; refreshValues proxy }"

definition isKey :: "nat \<Rightarrow> string \<Rightarrow> bool" where
  "isKey key names = list_ex (\<lambda>ch. of_char ch = key) names"

definition dispatchKey :: "'d proxy \<Rightarrow> nat \<Rightarrow> nat \<Rightarrow> int \<Rightarrow> nat \<Rightarrow> 'd action" where
  "dispatchKey proxy keyUp keyDown now key =
     (if key = keyUp then quiet (modify (\<lambda>c. c\<lparr>cs_model := moveSelection (- 1) (cs_model c)\<rparr>))
      else if key = keyDown then quiet (modify (\<lambda>c. c\<lparr>cs_model := moveSelection 1 (cs_model c)\<rparr>))
      else if isKey key ''rR'' then quiet (refreshAll proxy)
      else if isKey key ''kK'' then throwing (confirmDsk proxy)
      else if isKey key ''1aA'' then throwing (startSession proxy True ''AddNode'' [ABytes [], ABytes []])
      else if isKey key ''2xX'' then throwing (startSession proxy False ''RemoveNode'' [])
      else if isKey key ''gG'' then runActionMenu (getMenu proxy)
      else if isKey key ''cC'' then runActionMenu (controlMenu proxy)
      else if isKey key ''pP'' then runActionMenu (policyMenu proxy)
      else if isKey key ''eE'' then runActionMenu (sceneMenu proxy)
      else if isKey key ''hH'' then runActionMenu (thermostatMenu proxy)
      else if isKey key ''l'' then quiet (handleListNodes proxy)
      else if isKey key ''nN'' then quiet (handleNetworkInfo proxy)
      else if isKey key ''fF'' then quiet (handleRemoveFailedNode proxy)
      else if isKey key ''iI'' then quiet (selectedInfo proxy now)
      else if isKey key ''L'' then quiet (handleSetLifeline proxy)
      else if isKey key ''sS'' then throwing (stopSession proxy)
      else (\<lambda>c. Some (None, c)))"

section \<open>The loop\<close>

definition startup :: "'d proxy \<Rightarrow> ('d, unit) console" where
  "startup proxy = do {
     logLine ''Connected to com.tiunda.ZWaved'';
     current \<leftarrow> callFor getError proxy ''GetDaemonError'' [];
     (case current of
        Inl err \<Rightarrow> logLine (''GetDaemonError failed: '' @ err)
      | Inr (severity, source, code, message) \<Rightarrow>
          modify (\<lambda>c. c\<lparr>cs_activity := setDaemonError severity source code message (cs_activity c)\<rparr>));
     refreshAll proxy
   }"

definition refreshDirty :: "'d proxy \<Rightarrow> ('d, unit) console" where
  "refreshDirty proxy = do {
     nodesDirty \<leftarrow> gets (\<lambda>c. as_nodesDirty (cs_activity c));
     modify (\<lambda>c. c\<lparr>cs_activity := (cs_activity c)\<lparr>as_nodesDirty := False\<rparr>\<rparr>);
     if nodesDirty then refreshAll proxy
     else do {
       valuesDirty \<leftarrow> gets (\<lambda>c. as_valuesDirty (cs_activity c));
       modify (\<lambda>c. c\<lparr>cs_activity := (cs_activity c)\<lparr>as_valuesDirty := False\<rparr>\<rparr>);
       if valuesDirty then refreshValues proxy else State_Monad.return ()
     }
   }"

text \<open>One pass: the screen that was drawn, whether the loop goes on, and the console after it.\<close>

definition uiScreen :: "bool \<Rightarrow> int \<Rightarrow> nat \<Rightarrow> nat \<Rightarrow> 'd Console \<Rightarrow> drawOp list" where
  "uiScreen colours now maxY maxX c = draw colours now maxY maxX (cs_lastSession c) (cs_activity c) (cs_model c)"

definition uiPass :: "'d proxy \<Rightarrow> nat \<Rightarrow> nat \<Rightarrow> int \<Rightarrow> 'd Console \<Rightarrow> (bool \<times> 'd Console) option" where
  "uiPass proxy keyUp keyDown now c =
     (case run_state (do { refreshDirty proxy; getch }) c of
        (None, c1) \<Rightarrow> Some (True, c1)
      | (Some key, c1) \<Rightarrow>
          if isKey key ''qQ'' then Some (False, c1)
          else (case dispatchKey proxy keyUp keyDown now key c1 of
                  None \<Rightarrow> None
                | Some (None, c2) \<Rightarrow> Some (True, c2)
                | Some (Some err, c2) \<Rightarrow> Some (True, snd (run_state (logLine (''D-Bus call failed: '' @ err)) c2))))"

text \<open>
  The client among the others: its own passes, the signals on the other thread, and a daemon that moves on by itself.
  The threads share the activity state only, under its mutex and through atomic flags; here a pass and a signal handler
  are one step each, so what is shown is every order of them, not every mixture of their parts.
\<close>

inductive clientStep :: "'d proxy \<Rightarrow> nat \<Rightarrow> nat \<Rightarrow> 'd Console \<Rightarrow> 'd Console \<Rightarrow> bool" for proxy keyUp keyDown where
  pass: "uiPass proxy keyUp keyDown now c = Some (True, c') \<Longrightarrow> clientStep proxy keyUp keyDown c c'"
| signal: "onSignal proxy sig c = Some c' \<Longrightarrow> clientStep proxy keyUp keyDown c c'"
| daemon: "clientStep proxy keyUp keyDown c (c\<lparr>cs_daemon := d\<rparr>)"
| world: "clientStep proxy keyUp keyDown c (c\<lparr>cs_keys := keys, cs_input := answers, cs_now := now\<rparr>)"

section \<open>The client's invariant\<close>

lemma sceneLoop_frame: "sceneLoop actions c = Some (acts, c') \<Longrightarrow> actFrame c c'"
proof -
  fix c :: "'d Console" and actions acts c'
  assume "sceneLoop actions c = Some (acts, c')"
  then have "actFrame c (snd (acts, c'))"
  proof (rule sceneLoop.raw_induct [rotated])
    fix loop :: "(byte \<times> bytes) list \<Rightarrow> 'd Console \<Rightarrow> ((byte \<times> bytes) list \<times> 'd Console) option"
      and acts and k :: "'d Console" and res
    assume IH: "\<And>acts k res. loop acts k = Some res \<Longrightarrow> actFrame k (snd res)"
    obtain t c1 where t: "run_state (promptNodeId ''Action target node (blank to finish):'') k = (t, c1)" by fastforce
    obtain p c2 where p: "run_state (promptByteList ''CC payload bytes (e.g. 0x25 0x01 0xFF):'') c1 = (p, c2)" by fastforce
    let ?c3 = "snd (run_state (logLine (''SetScene: invalid payload '' @ emDash @ '' action skipped'')) c2)"
    have k2: "actFrame k c1" "actFrame k c2"
      using keeps_run [OF keeps_prompts(2) t] keeps_run [OF keeps_prompts(9) p] by (auto intro: actFrame_trans)
    moreover have "actFrame k ?c3" using k2(2) keeps_logLine unfolding keeps_def by (blast intro: actFrame_trans)
    moreover assume "(let (targetNode, c1) = run_state (promptNodeId ''Action target node (blank to finish):'') k in
        if targetNode = None then Some (acts, c1)
        else let (payload, c2) = run_state (promptByteList ''CC payload bytes (e.g. 0x25 0x01 0xFF):'') c1 in
          if payload = None
          then loop acts (snd (run_state (logLine (''SetScene: invalid payload '' @ emDash @ '' action skipped'')) c2))
          else loop (acts @ [(the targetNode, the payload)]) c2) = Some res"
    ultimately show "actFrame k (snd res)"
      by (auto simp: t p simp del: run_logLine split: if_splits dest!: IH intro: actFrame_trans)
  qed
  then show "actFrame c c'" by simp
qed

lemma groupLoop_frame: "groupLoop proxy n supported grp c = Some c' \<Longrightarrow> actFrame c c'"
proof (rule groupLoop.raw_induct [rotated])
  fix loop :: "'d proxy \<Rightarrow> byte \<Rightarrow> byte \<Rightarrow> byte \<Rightarrow> 'd Console \<Rightarrow> 'd Console option"
    and p :: "'d proxy" and m s g :: byte and k k' :: "'d Console"
  assume IH: "\<And>p m s g k k'. loop p m s g k = Some k' \<Longrightarrow> actFrame k k'"
  obtain r c1 where r: "run_state (callMethod p ''GetAssociation'' [AByte m, AByte g, AByte CALLBACK_ID_NONE]) k = (r, c1)" by fastforce
  have "actFrame k c1" by (rule keeps_run [OF keeps_callMethod r])
  moreover have "actFrame c1 (snd (run_state (logLine (''auto GetAssociation failed: '' @ projl r)) c1))"
    using keeps_logLine unfolding keeps_def by blast
  moreover assume "(if g \<le> s
      then let (r, c1) = run_state (callMethod p ''GetAssociation'' [AByte m, AByte g, AByte CALLBACK_ID_NONE]) k
           in if isl r then Some (snd (run_state (logLine (''auto GetAssociation failed: '' @ projl r)) c1))
              else loop p m s (g + 1) c1
      else Some k) = Some k'"
  ultimately show "actFrame k k'"
    by (auto simp: r simp del: run_logLine split: if_splits dest!: IH intro: actFrame_trans)
qed

lemma handleSetScene_frame: "handleSetScene proxy c = Some c' \<Longrightarrow> actFrame c c'"
proof -
  assume run: "handleSetScene proxy c = Some c'"
  obtain sid c1 where s: "run_state (promptLine ''Scene id:'') c = (sid, c1)" by fastforce
  have c1: "actFrame c c1" by (rule keeps_run [OF keeps_prompts(4) s])
  have calm: "actFrame c (snd (run_state m b))" if "actFrame c1 b" "keeps m" for m :: "('a, unit) console" and b
    using c1 that unfolding keeps_def by (blast intro: actFrame_trans)
  from run show ?thesis
    by (auto simp: handleSetScene_def s simp del: run_logLine split: option.splits if_splits
        intro!: calm keeps_intros dest: sceneLoop_frame)
qed

text \<open>Signals may raise flags and set the status lines, never the list.\<close>

definition calm :: "'d Console \<Rightarrow> 'd Console \<Rightarrow> bool" where
  "calm c c' \<longleftrightarrow> cs_model c' = cs_model c \<and> (as_nodesDirty (cs_activity c) \<longrightarrow> as_nodesDirty (cs_activity c')) \<and>
     (length (as_log (cs_activity c)) \<le> MAX_LOG_LINES \<longrightarrow> length (as_log (cs_activity c')) \<le> MAX_LOG_LINES)"

lemma actFrame_dirty: "actFrame c c' \<Longrightarrow> as_nodesDirty (cs_activity c') = as_nodesDirty (cs_activity c)"
  by (cases "cs_activity c"; cases "cs_activity c'") (auto simp: actFrame_def)

lemma calm_actFrame: "actFrame c c' \<Longrightarrow> calm c c'"
  by (simp add: calm_def actFrame_dirty) (simp add: actFrame_def)

lemma calm_trans: "calm a b \<Longrightarrow> calm b c \<Longrightarrow> calm a c"
  by (simp add: calm_def)

lemma signalEffect_fields:
  "as_log (signalEffect sig st) = as_log st" "as_nodesDirty st \<Longrightarrow> as_nodesDirty (signalEffect sig st)"
  by (cases sig; simp add: signalEffect_def setDongleStatus_def setDskPending_def setDaemonError_def)+

lemma onSignal_calm:
  assumes "onSignal proxy sig c = Some c'"
  shows "calm c c'" and "as_nodesDirty (signalEffect sig (cs_activity c)) \<Longrightarrow> as_nodesDirty (cs_activity c')"
proof -
  from assms obtain ls where ls: "signalLines sig = Some ls" by (cases "signalLines sig") (auto simp: onSignal_def)
  let ?c1 = "c\<lparr>cs_activity := signalEffect sig (cs_activity c)\<rparr>"
  define c2 where "c2 = snd (run_state (logLines ls) ?c1)"
  have "actFrame ?c1 c2" using keeps_logLines unfolding keeps_def c2_def by blast
  moreover have "(case sig of AssociationGroupingsReport n groupings \<Rightarrow> groupLoop proxy n groupings 1 c2 | _ \<Rightarrow> Some c2) = Some c'"
    using assms by (simp add: onSignal_def ls c2_def [symmetric])
  then have "actFrame c2 c'" by (auto split: busSignal.splits dest: groupLoop_frame)
  ultimately have frame: "actFrame ?c1 c'" by (rule actFrame_trans)
  moreover have "calm c ?c1" by (simp add: calm_def signalEffect_fields)
  ultimately show "calm c c'" by (blast intro: calm_trans calm_actFrame)
  show "as_nodesDirty (cs_activity c')" if "as_nodesDirty (signalEffect sig (cs_activity c))"
    using actFrame_dirty [OF frame] that by simp
qed

definition clientOk :: "'d Console \<Rightarrow> bool" where
  "clientOk c \<longleftrightarrow> length (as_log (cs_activity c)) \<le> MAX_LOG_LINES \<and>
     (nm_rows (cs_model c) \<noteq> [] \<longrightarrow> nm_selected (cs_model c) < length (nm_rows (cs_model c)))"

definition sound :: "'d action \<Rightarrow> bool" where
  "sound a \<longleftrightarrow> (\<forall>c e c'. clientOk c \<longrightarrow> a c = Some (e, c') \<longrightarrow> clientOk c')"

lemma clientOk_calm: "calm c c' \<Longrightarrow> clientOk c \<Longrightarrow> clientOk c'"
  by (simp add: calm_def clientOk_def)

lemma clientOk_keeps: "keeps m \<Longrightarrow> clientOk c \<Longrightarrow> clientOk (snd (run_state m c))"
  unfolding keeps_def by (blast intro: clientOk_calm calm_actFrame)

lemma keeps_getch [keeps_intros]: "keeps getch"
  by (simp add: keeps_def getch_def actFrame_def split: list.splits)

lemma sound_quiet: "keeps m \<Longrightarrow> sound (quiet m)"
  unfolding sound_def quiet_def using clientOk_keeps by auto

lemma sound_throwing: "keeps m \<Longrightarrow> sound (throwing m)"
  unfolding sound_def throwing_def using clientOk_keeps by (metis option.inject snd_conv)

lemma sound_looping: "sound (looping (handleSetScene proxy))"
  unfolding sound_def looping_def by (auto dest!: handleSetScene_frame calm_actFrame clientOk_calm)

lemma sound_menu:
  assumes "list_all (\<lambda>item. sound (mi_action item)) items"
  shows "sound (runActionMenu items)"
proof -
  have "sound (runItem key items)" for key
    using assms
  proof (induction items)
    case (Cons item items)
    then have "sound (mi_action item)" "sound (runItem key items)" by simp_all
    moreover have "runItem key (item # items) = (if Some (of_char (mi_key item)) = key then mi_action item else runItem key items)"
      by (rule ext) simp
    ultimately show ?case by (cases "Some (of_char (mi_key item)) = key") simp_all
  qed (simp add: sound_def)
  note items = this [unfolded sound_def]
  show ?thesis
    unfolding sound_def
  proof (intro allI impI)
    fix c e c'
    assume ok: "clientOk c" and run: "runActionMenu items c = Some (e, c')"
    obtain key c1 where k: "run_state getch c = (key, c1)" by (cases "run_state getch c")
    have "clientOk c1" using clientOk_keeps [OF keeps_getch ok] k by simp
    moreover have "runItem key items c1 = Some (e, c')" using run k by (simp add: runActionMenu_def)
    ultimately show "clientOk c'" using items by blast
  qed
qed

lemma sound_items:
  "list_all (\<lambda>item. sound (mi_action item)) []"
  "sound a \<Longrightarrow> list_all (\<lambda>item. sound (mi_action item)) items \<Longrightarrow>
     list_all (\<lambda>item. sound (mi_action item)) (menuItem key label a # items)"
  by (simp_all add: menuItem_def)

lemma sound_menus:
  "sound (runActionMenu (getMenu proxy))" "sound (runActionMenu (controlMenu proxy))" "sound (runActionMenu (policyMenu proxy))"
  "sound (runActionMenu (sceneMenu proxy))" "sound (runActionMenu (thermostatMenu proxy))"
  unfolding getMenu_def controlMenu_def policyMenu_def sceneMenu_def thermostatMenu_def simpleGet_def
  by (intro sound_menu sound_items sound_quiet sound_throwing sound_looping keeps_intros)+

lemma keeps_keys [keeps_intros]:
  "keeps (confirmDsk proxy)" "keeps (startSession proxy adding method extra)" "keeps (stopSession proxy)"
  "keeps (selectedInfo proxy now)"
  unfolding confirmDsk_def startSession_def stopSession_def selectedInfo_def by (intro keeps_intros)+

lemma restoreSelection_bound: "rows \<noteq> [] \<Longrightarrow> restoreSelection n rows < length rows"
  by (auto simp: restoreSelection_def split: option.splits dest: indexOf_Some)

lemma keeps_fetchRows: "keeps (fetchRows proxy ts)"
  by (induction proxy ts rule: fetchRows.induct) (simp only: fetchRows.simps, intro keeps_intros, assumption?)+

lemma keeps_fetchValues: "keeps (fetchValues proxy rows)"
  by (induction proxy rows rule: fetchValues.induct) (simp only: fetchValues.simps, intro keeps_intros, assumption?)+

lemma fetchValues_length: "length (fst (run_state (fetchValues proxy rows) c)) = length rows"
proof (induction rows arbitrary: c)
  case (Cons row rows)
  obtain r c1 where r: "run_state (callFor getValues proxy ''GetNodeValues'' [AByte (nw_id row)]) c = (r, c1)" by fastforce
  show ?case
  proof (cases r)
    case (Inl err)
    obtain u c2 where u: "run_state (logLine (''GetNodeValues failed: '' @ err)) c1 = (u, c2)" by fastforce
    with Cons.IH [of c2] Inl r show ?thesis by (auto simp: State_Monad.bind_def simp del: run_logLine split: prod.splits)
  next
    case (Inr vs)
    with Cons.IH [of c1] r show ?thesis by (auto simp: State_Monad.bind_def split: prod.splits)
  qed
qed simp

lemma refreshNodes_ok: "clientOk c \<Longrightarrow> clientOk (snd (run_state (refreshNodes proxy) c))"
proof -
  assume ok: "clientOk c"
  obtain r c1 where r: "run_state (callFor getNodes proxy ''GetNodes'' []) c = (r, c1)" by fastforce
  have c1: "clientOk c1" using clientOk_keeps [OF keeps_callFor ok] r by (metis snd_conv)
  show ?thesis
  proof (cases r)
    case (Inl err)
    then show ?thesis using clientOk_keeps [OF keeps_logLine c1] by (simp add: refreshNodes_def r del: run_logLine)
  next
    case (Inr ns)
    obtain rows c2 where f: "run_state (fetchRows proxy ns) c1 = (rows, c2)" by fastforce
    have "clientOk c2" using clientOk_keeps [OF keeps_fetchRows c1] f by (metis snd_conv)
    then show ?thesis using restoreSelection_bound [of rows] by (simp add: refreshNodes_def r Inr f clientOk_def)
  qed
qed

lemma refreshValues_ok: "clientOk c \<Longrightarrow> clientOk (snd (run_state (refreshValues proxy) c))"
proof -
  assume ok: "clientOk c"
  obtain rows c2 where f: "run_state (fetchValues proxy (nm_rows (cs_model c))) c = (rows, c2)" by fastforce
  have "length rows = length (nm_rows (cs_model c))" using fetchValues_length [of proxy "nm_rows (cs_model c)" c] f by simp
  moreover have "clientOk c2" "cs_model c2 = cs_model c"
    using clientOk_keeps [OF keeps_fetchValues ok] actFrame_model [OF keeps_run [OF keeps_fetchValues f]] f by (metis snd_conv)+
  ultimately show ?thesis by (auto simp: refreshValues_def f clientOk_def)
qed

lemma run_then: "run_state (do { a; b }) c = run_state b (snd (run_state a c))"
  by (simp add: State_Monad.bind_def split: prod.split)

lemma refresh_ok: "clientOk c \<Longrightarrow> clientOk (snd (run_state (refreshAll proxy) c))"
  by (simp only: refreshAll_def run_then refreshNodes_ok refreshValues_ok)

lemma refreshDirty_ok: "clientOk c \<Longrightarrow> clientOk (snd (run_state (refreshDirty proxy) c))"
  using refresh_ok [of "c\<lparr>cs_activity := (cs_activity c)\<lparr>as_nodesDirty := False\<rparr>\<rparr>" proxy]
    refreshValues_ok [of "c\<lparr>cs_activity := (cs_activity c)\<lparr>as_nodesDirty := False\<rparr>\<rparr>" proxy]
    refreshValues_ok [of "c\<lparr>cs_activity := (cs_activity c)\<lparr>as_nodesDirty := False, as_valuesDirty := False\<rparr>\<rparr>" proxy]
  by (simp add: refreshDirty_def) (simp add: clientOk_def)

lemma moveSelection_sound: "sound (quiet (modify (\<lambda>c. c\<lparr>cs_model := moveSelection delta (cs_model c)\<rparr>)))"
proof -
  have "nm_selected (moveSelection delta md) < length (nm_rows (moveSelection delta md))" if "nm_rows md \<noteq> []" for md
    using moved_selection [OF that, of delta] by (auto simp: selectedNodeId_def split: if_splits)
  moreover have "nm_rows (moveSelection delta md) = nm_rows md" for md by (simp add: moveSelection_def)
  ultimately show ?thesis by (simp add: sound_def quiet_def clientOk_def)
qed

lemma sound_refresh: "sound (quiet (refreshAll proxy))"
  by (simp add: sound_def quiet_def refresh_ok)

lemma sound_if: "sound a \<Longrightarrow> sound b \<Longrightarrow> sound (if P then a else b)"
  by simp

lemma sound_nothing: "sound (\<lambda>c. Some (None, c))"
  by (simp add: sound_def)

lemma dispatch_sound: "sound (dispatchKey proxy keyUp keyDown now key)"
  unfolding dispatchKey_def
  by (intro sound_if moveSelection_sound sound_refresh sound_menus sound_nothing sound_quiet sound_throwing keeps_intros)

lemma uiPass_ok:
  assumes "uiPass proxy keyUp keyDown now c = Some (more_keys, c')" and "clientOk c"
  shows "clientOk c'"
proof -
  obtain key c1 where k: "run_state (do { refreshDirty proxy; getch }) c = (key, c1)" by fastforce
  obtain u c0 where d: "run_state (refreshDirty proxy) c = (u, c0)" by (cases "run_state (refreshDirty proxy) c")
  have "clientOk c0" using refreshDirty_ok [OF assms(2), of proxy] d by simp
  then have c1: "clientOk c1"
    using k d by (auto simp: getch_def clientOk_def split: list.splits)
  show ?thesis
  proof (cases key)
    case None
    then show ?thesis using assms(1) k c1 by (simp add: uiPass_def)
  next
    case (Some n)
    have act: "clientOk c2" if "dispatchKey proxy keyUp keyDown now n c1 = Some (e, c2)" for e c2
      using dispatch_sound that c1 unfolding sound_def by blast
    show ?thesis
      using assms(1) k c1 act clientOk_keeps [OF keeps_logLine]
      by (auto simp: uiPass_def Some simp del: run_logLine split: if_splits option.splits)
  qed
qed

lemma clientStep_ok: "clientStep proxy keyUp keyDown c c' \<Longrightarrow> clientOk c \<Longrightarrow> clientOk c'"
proof (induction rule: clientStep.induct)
  case (pass now c c')
  then show ?case by (rule uiPass_ok)
next
  case (signal sig c c')
  then show ?case using onSignal_calm(1) clientOk_calm by blast
qed (simp_all add: clientOk_def)

lemma startup_ok: "clientOk c \<Longrightarrow> clientOk (snd (run_state (startup proxy) c))"
proof -
  assume ok: "clientOk c"
  obtain u c1 where u: "run_state (logLine ''Connected to com.tiunda.ZWaved'') c = (u, c1)" by (cases "run_state (logLine ''Connected to com.tiunda.ZWaved'') c")
  obtain r c2 where r: "run_state (callFor getError proxy ''GetDaemonError'' []) c1 = (r, c2)" by (cases "run_state (callFor getError proxy ''GetDaemonError'' []) c1")
  have "clientOk c1" using clientOk_keeps [OF keeps_logLine ok] u by (metis snd_conv)
  then have c2: "clientOk c2" using clientOk_keeps [OF keeps_callFor] r by (metis snd_conv)
  show ?thesis
  proof (cases r)
    case (Inl err)
    with refresh_ok [OF clientOk_keeps [OF keeps_logLine c2], of proxy "''GetDaemonError failed: '' @ err"] u r
    show ?thesis by (auto simp: startup_def)
  next
    case (Inr e)
    obtain sv so cd msg where e: "e = (sv, so, cd, msg)" by (cases e)
    have "clientOk (c2\<lparr>cs_activity := setDaemonError sv so cd msg (cs_activity c2)\<rparr>)"
      using c2 by (simp add: clientOk_def setDaemonError_def)
    from refresh_ok [OF this, of proxy] show ?thesis by (simp add: startup_def u r Inr e del: run_logLine)
  qed
qed

lemma logLines_fields:
  "cs_daemon (snd (run_state (logLines ls) c)) = cs_daemon c" "cs_keys (snd (run_state (logLines ls) c)) = cs_keys c"
  by (induction ls arbitrary: c) simp_all

text \<open>
  C37: the client stays sound whatever happens. From its start against any daemon, after any interleaving of passes
  with any keys and answers, of signals with any content and of changes at the daemon, the log holds at most its 200
  lines, and as long as nodes are listed one of them is selected, so that the prompts' default and the detail pane
  always have a node.
\<close>

theorem client_stays_sound:
  fixes proxy :: "'d proxy"
  assumes "(clientStep proxy keyUp keyDown)\<^sup>*\<^sup>* (snd (run_state (startup proxy) (newConsole [] d))) c"
  shows "length (as_log (cs_activity c)) \<le> 200 \<and>
    (nm_rows (cs_model c) \<noteq> [] \<longrightarrow> (\<exists>row \<in> set (nm_rows (cs_model c)). selectedNodeId (cs_model c) = Some (nw_id row)))"
proof -
  have "clientOk (newConsole [] d)" by (simp add: clientOk_def newConsole_def newActivity_def)
  then have "clientOk (snd (run_state (startup proxy) (newConsole [] d)))" by (rule startup_ok)
  with assms have "clientOk c" by (induction rule: rtranclp_induct) (auto intro: clientStep_ok)
  then show ?thesis
    by (auto simp: clientOk_def selectedNodeId_def MAX_LOG_LINES_def intro!: bexI nth_mem)
qed

theorem client_stays_sound_witness:
  "let c = snd (run_state (startup (daemonProxy 0 [] noMethods)) (newConsole [] demoDaemon));
       c' = c\<lparr>cs_keys := [Some 259], cs_input := [], cs_now := ''12:00:01''\<rparr>
   in length (as_log (cs_activity c')) \<le> 200"
proof -
  let ?c = "snd (run_state (startup (daemonProxy 0 [] noMethods)) (newConsole [] demoDaemon))"
  have "(clientStep (daemonProxy 0 [] noMethods) 259 258)\<^sup>*\<^sup>* ?c (?c\<lparr>cs_keys := [Some 259], cs_input := [], cs_now := ''12:00:01''\<rparr>)"
    by (intro r_into_rtranclp clientStep.world)
  from client_stays_sound [OF this] show ?thesis unfolding Let_def by blast
qed

section \<open>Catching up with the network\<close>

definition announcesNodes :: "busSignal \<Rightarrow> bool" where
  "announcesNodes sig \<longleftrightarrow> (case sig of
      NodeInclusionStatus sid status n \<Rightarrow> status = CLIENT_STATUS_COMPLETED
    | NodeExclusionStatus sid status n \<Rightarrow> status = CLIENT_STATUS_COMPLETED
    | RemoveFailedNodeStatus n sid phase status \<Rightarrow> phase \<noteq> 0
    | _ \<Rightarrow> False)"

text \<open>What happens while the client waits for a key: signals, and the daemon and the user going on.\<close>

inductive waitStep :: "'d proxy \<Rightarrow> 'd Console \<Rightarrow> 'd Console \<Rightarrow> bool" for proxy where
  signal: "onSignal proxy sig c = Some c' \<Longrightarrow> waitStep proxy c c'"
| daemon: "waitStep proxy c (c\<lparr>cs_daemon := d\<rparr>)"
| world: "waitStep proxy c (c\<lparr>cs_keys := keys, cs_input := answers, cs_now := now\<rparr>)"

lemma waiting_calm: "(waitStep proxy)\<^sup>*\<^sup>* c c' \<Longrightarrow> calm c c'"
proof (induction rule: rtranclp_induct)
  case base
  show ?case by (simp add: calm_def)
next
  case (step b c')
  have "calm b c'" using step.hyps(2) by cases (auto simp: calm_def dest: onSignal_calm(1))
  with step.IH show ?case by (rule calm_trans)
qed

lemma announced_dirty: "announcesNodes sig \<Longrightarrow> as_nodesDirty (signalEffect sig st)"
  by (cases sig) (auto simp: announcesNodes_def signalEffect_def)



section \<open>Starting and stopping a session\<close>

lemma pass_key:
  assumes "cs_keys c = Some key # keys" and "\<not> as_nodesDirty (cs_activity c)" and "\<not> as_valuesDirty (cs_activity c)"
  shows "uiPass proxy keyUp keyDown now c =
    (if isKey key ''qQ'' then Some (False, c\<lparr>cs_keys := keys\<rparr>)
     else (case dispatchKey proxy keyUp keyDown now key (c\<lparr>cs_keys := keys\<rparr>) of
             None \<Rightarrow> None
           | Some (None, c2) \<Rightarrow> Some (True, c2)
           | Some (Some err, c2) \<Rightarrow> Some (True, snd (run_state (logLine (''D-Bus call failed: '' @ err)) c2))))"
proof -
  have "(cs_activity c)\<lparr>as_nodesDirty := False, as_valuesDirty := False\<rparr> = cs_activity c"
    using assms(2,3) by (cases "cs_activity c") simp
  then have "run_state (do { refreshDirty proxy; getch }) c = (Some key, c\<lparr>cs_keys := keys\<rparr>)"
    using assms by (simp add: refreshDirty_def getch_def)
  then show ?thesis by (simp only: uiPass_def prod.case option.case)
qed

text \<open>
  Stopping stops the session that was started. When the user adds a node and then presses stop, the daemon is asked
  to add under the next session number and then to stop that very number. The exception is the number 0, to which the
  counter wraps after 255: the inclusion is started, and the stop key then reports that there is no session.
\<close>

theorem stop_matches_start:
  fixes proxy :: "'d proxy" and c :: "'d Console"
  defines "sid \<equiv> cs_session c + 1"
  assumes "accepts proxy" and "255 < keyUp" and "255 < keyDown"
    and "cs_keys c = [Some (of_char CHR ''a''), Some (of_char CHR ''s'')]"
    and "\<not> as_nodesDirty (cs_activity c)" and "\<not> as_valuesDirty (cs_activity c)"
  shows "\<exists>c1 c2. uiPass proxy keyUp keyDown now c = Some (True, c1) \<and> uiPass proxy keyUp keyDown now c1 = Some (True, c2) \<and>
     (let added = snd (proxy ''AddNode'' [AByte 1, AByte 0, AByte sid, ABytes [], ABytes []] (cs_daemon c))
      in cs_daemon c2 = (if sid = 0 then added else snd (proxy ''StopAddNode'' [AByte sid] added)))"
proof -
  have keys: "cs_keys c = [Some 97, Some 115]" using assms(5) by simp
  have dispatch: "dispatchKey proxy keyUp keyDown now 97 = throwing (startSession proxy True ''AddNode'' [ABytes [], ABytes []])"
    "dispatchKey proxy keyUp keyDown now 115 = throwing (stopSession proxy)"
    using assms(3,4) by (simp_all add: dispatchKey_def isKey_def)
  have acc: "\<exists>v. fst (proxy mth args d) = Inr v" for mth args d
    using assms(2) unfolding accepts_def by (metis sum.collapse(2))
  let ?d1 = "snd (proxy ''AddNode'' [AByte 1, AByte 0, AByte sid, ABytes [], ABytes []] (cs_daemon c))"
  define c1 where "c1 = snd (run_state (logLine (''AddNode (classic, session '' @ dec8 sid @ '') issued''))
      (c\<lparr>cs_keys := [Some 115], cs_session := sid, cs_daemon := ?d1, cs_lastSession := sid, cs_lastWasAdd := True\<rparr>))"
  have "uiPass proxy keyUp keyDown now c = Some (True, c1)"
    using acc [of "''AddNode''" "[AByte 1, AByte 0, AByte sid, ABytes [], ABytes []]" "cs_daemon c"]
    by (auto simp: pass_key [OF keys assms(6,7)] dispatch isKey_def throwing_def startSession_def nextSession_def
        run_callMethod c1_def sid_def MODE_CLASSIC_def FLAGS_NONE_def)
  moreover have k1: "cs_keys c1 = [Some 115]" "\<not> as_nodesDirty (cs_activity c1)" "\<not> as_valuesDirty (cs_activity c1)"
    and var: "cs_lastSession c1 = sid" "cs_lastWasAdd c1" "cs_daemon c1 = ?d1"
    using assms(6,7) by (simp_all add: logged_def c1_def)
  have "\<exists>c2. uiPass proxy keyUp keyDown now c1 = Some (True, c2) \<and>
      cs_daemon c2 = (if sid = 0 then ?d1 else snd (proxy ''StopAddNode'' [AByte sid] ?d1))"
    using acc [of "''StopAddNode''" "[AByte sid]" ?d1]
    by (auto simp: pass_key [OF k1] dispatch isKey_def throwing_def stopSession_def callOrThrow_def run_callMethod var)
  ultimately show ?thesis unfolding Let_def by blast
qed

theorem stop_matches_start_witness:
  "\<exists>c1 c2. uiPass recordingProxy 259 258 0 ((newConsole [] [])\<lparr>cs_keys := [Some 97, Some 115]\<rparr>) = Some (True, c1) \<and>
     uiPass recordingProxy 259 258 0 c1 = Some (True, c2) \<and>
     cs_daemon c2 = [(''AddNode'', [AByte 1, AByte 0, AByte 1, ABytes [], ABytes []]), (''StopAddNode'', [AByte 1])]"
proof -
  let ?c = "(newConsole [] [])\<lparr>cs_keys := [Some 97, Some 115]\<rparr> :: (string \<times> dbusArg list) list Console"
  have "accepts recordingProxy" by (simp add: accepts_def recordingProxy_def)
  moreover have "(255 :: nat) < 259" "(255 :: nat) < 258" by simp_all
  moreover have "cs_keys ?c = [Some (of_char CHR ''a''), Some (of_char CHR ''s'')]" by simp
  moreover have "\<not> as_nodesDirty (cs_activity ?c)" "\<not> as_valuesDirty (cs_activity ?c)"
    by (simp_all add: newConsole_def newActivity_def)
  ultimately show ?thesis
    using stop_matches_start [of recordingProxy 259 258 ?c 0] by (simp add: recordingProxy_def newConsole_def)
qed

end
