(* ===== verification/Spec2Isabelle.thy ===== *)
theory Spec2Isabelle
  imports Command_Classes S0_Orchestrators S2_Bootstrap Protocol_Thread Inclusion Scene_Store Database_Schema
    Thermostat Dongle_Monitor Span_Store Node_Values Message_Bus Key_Files Registry_Start Logger_Queue External_Api
    Terminal_Main
begin

text \<open>
  \<^bold>\<open>The Z-Wave daemon.\<close>

  The daemon drives a Z-Wave controller (the dongle) over a serial line and offers the network to
  clients over D-Bus; \<open>zwave-terminal\<close> is the client that comes with it. Both are modelled. Their parts:

  \<^item> The dongle speaks the Host API: frames \<open>SOF, length, type, command, payload, checksum\<close>,
    each answered by a one-byte ACK, NAK or CAN. \<open>SerialPort\<close> moves bytes,
    \<open>FrameTransport\<close> cuts them into frames, acknowledges them and repeats requests that stay
    unacknowledged, and \<open>HostApi\<close> translates between frames and messages.
  \<^item> A message from a node carries an application payload: a command class, a command and its
    fields. The files under \<open>application\<close> encode and decode these payloads.
  \<^item> A payload may be wrapped: in a CRC-16 frame, in segments of the transport service, in a Security
    S0 frame or in a Security S2 frame. \<open>cc-translator/Encapsulation.cpp\<close> unwraps the first
    three and publishes the inner command on the message bus, where it is subscribed itself; the S2
    orchestrators unwrap and wrap S2 frames.
  \<^item> S2 needs a nonce generator shared by the two peers (the SPAN), which the span manager sets up
    by an exchange of entropy inputs, and class keys, which the bootstrap orchestrator hands to a
    joining node in a handshake over a temporary channel. S0 needs a fresh nonce of the peer for
    every frame, which its orchestrators request.
  \<^item> The protocol thread owns the dongle. Commands arrive for it on the message bus and wait in one
    request queue; what the dongle reports goes back to the bus. Around the bus stand the orchestrators, each a
    handler of bus events with its own state: interview, inclusion, wake-up, scenes and logical
    thermostats. Behind them are stores in an SQLite file: the node registry, pending commands, policies,
    scenes, metadata, last known values, nonce generators.
  \<^item> The D-Bus backend answers clients from the stores and from the last events it saw, and turns
    their methods into bus commands. The terminal client keeps its own list of nodes, refreshed when a
    signal announces a change, and runs one action per key.

  \<^bold>\<open>Theories and what they model.\<close> Paths are below \<open>src/src\<close>, those of the terminal client below
  \<open>src/utils/zwave-terminal\<close>.

  \<^item> \<open>Zw_Prelude\<close>: machine types, big-endian packing, the \<open>fault\<close> datatype, and the locales
    \<open>wire_codec\<close> (decoding what was encoded gives it back) and \<open>headed_decoder\<close> (a decoder
    accepts only its own command-class and command byte).
  \<^item> \<open>Data_Frame\<close>: \<open>zwave-protocol/ZwaveDataFrame\<close> and the ACK, NAK and CAN frames. The
    object's fields are the record \<open>ZwaveDataFrame\<close>. Shown: the round trip with its converse (an
    accepted buffer starts with the serialisation of the frame read), and that one damaged byte
    after the length field is never accepted.
  \<^item> \<open>Serial_Port\<close>: \<open>zwave-protocol/SerialPort\<close>, over a scripted operating system. Shown:
    what \<open>writeAll\<close> puts on the line is a prefix of the buffer, all of it on success.
  \<^item> \<open>Frame_Transport\<close>: \<open>zwave-protocol/FrameTransport.cpp\<close>. \<open>feed\<close> is the byte
    parser, \<open>pumpOnce\<close> the idle loop's body, \<open>sendRequest\<close> the retrying sender; calls to
    the outside are a trace of actions. Shown: the parser's invariant and bound on its buffer; that
    any stream of frames and noise, cut into reads anywhere, is handled frame by frame; the retry
    discipline and that \<open>sendRequest\<close> returns; that the bytes read behind an ACK are lost.
  \<^item> \<open>Host_Api\<close>: \<open>zwave-protocol/HostApi.cpp\<close> and \<open>HostApiSession.cpp\<close>, every encoder
    and decoder. The locale \<open>frame_decoder\<close> is interpreted on the twelve decoders. Shown: no
    frame has two meanings, the node list of the init data, exact transport of a transmit request,
    and the two error behaviours (an oversized request, a truncated callback).
  \<^item> \<open>Encoded_Value\<close>: signed values of one, two or four bytes (\<open>EncodedValue.cpp\<close>,
    \<open>Configuration.cpp\<close>, \<open>Meter.cpp\<close>, \<open>SensorMultilevel.cpp\<close>,
    \<open>ThermostatSetpoint.cpp\<close>). Shown: round trips through sign extension, with the smallest
    size chosen.
  \<^item> \<open>Command_Classes\<close>: the other decoders and hand-written encoders under
    \<open>zwave-protocol/application\<close>. Shown: no payload has two meanings, and the round trips of the
    classes whose encoder is under \<open>src\<close>.
  \<^item> \<open>Crc16\<close>: \<open>Crc16Encap.cpp\<close> and \<open>TransportService::fcs\<close>. The locale
    \<open>trailer_code\<close> is interpreted on both. Shown: one damaged byte is always detected.
  \<^item> \<open>Transport_Service\<close>: the splitter and the reassembler of \<open>TransportService.cpp\<close>.
    Shown: a datagram is reassembled exactly once from its segments in any order after the first and
    with any repetitions; no access out of range unless a first segment is dropped halfway; a
    sequence of three segments that does write out of range.
  \<^item> \<open>S0_Security\<close>: \<open>security/s0\<close> (nonce table, nonce commands, key derivation,
    encapsulation) and \<open>SecureMemory.cpp\<close>. The locale \<open>single_use\<close> is interpreted on the
    nonce table. Shown: round trip, acceptance of authentic frames only, a nonce is used once, by its
    peer and while fresh.
  \<^item> \<open>Cc_Translator\<close>: \<open>cc-translator/Encapsulation.cpp\<close>. \<open>onApplicationCommand\<close> is
    the handler, \<open>deliver\<close> the handler together with its own re-entrant calls through the bus.
    Shown: unwrapping ends, nested wrappers are peeled, an S0 frame is delivered once.
  \<^item> \<open>S2_Crypto\<close>, \<open>S2_Nonces\<close>, \<open>S2_Codecs\<close>: the files \<open>Crypto.cpp\<close>,
    \<open>KeyDerivation.cpp\<close>, \<open>Span.cpp\<close>, \<open>Mpan.cpp\<close>, \<open>NonceSync.cpp\<close>, \<open>Kex.cpp\<close>,
    \<open>KeyInstall.cpp\<close> and \<open>PublicKey.cpp\<close> of \<open>security/s2\<close>. The locale
    \<open>saved_generator\<close> (saving and restoring a generator does not change its outputs) is
    interpreted on both generators. Shown: counter arithmetic of the multicast nonces, round trips of
    the key-exchange commands, the DSK ritual.
  \<^item> \<open>S2_Session\<close>: \<open>Encapsulation.cpp\<close>, \<open>SpanManager.cpp\<close>,
    \<open>MulticastSession.cpp\<close> and \<open>Transport.cpp\<close> of \<open>security/s2\<close>. Shown: round trip
    with any chain of extensions, acceptance of authentic frames only, two span managers stay in
    lockstep over any conversation, a multicast round, and that an out-of-sync report for an existing
    generator changes nothing.
  \<^item> \<open>S2_Orchestrators\<close>: \<open>orchestrator/SecurityS2InboundOrchestrator.cpp\<close> and
    \<open>SecurityS2OutboundOrchestrator.cpp\<close>, with the one field of the node registry they use.
    Shown: commands queued for a node without generator reach it in order after one nonce exchange;
    the frame on which the inbound handler reads out of range.
  \<^item> \<open>S2_Bootstrap\<close>: \<open>orchestrator/SecurityS2BootstrapOrchestrator.cpp\<close>. Its runs are the
    inductive relation \<open>boot_run\<close>. Shown by rule induction: a node is declared secure only after
    its grant was echoed under the temporary keys, and only granted classes are installed.

  \<^item> \<open>S0_Orchestrators\<close>: \<open>orchestrator/SecurityBootstrapOrchestrator.cpp\<close> and
    \<open>SecurityOutboundOrchestrator.cpp\<close>. Shown: commands queued for an S0 node arrive in order, one nonce each;
    a node is declared secure only after a frame from which it decrypts the key.
  \<^item> \<open>Node_Registry\<close>, \<open>Database_Schema\<close>, \<open>Registry_Start\<close>:
    \<open>node-registry/NodeRegistry.cpp\<close>, the map in memory and the rows of its table, the schema migrations of the
    shared file, and the start with the reports the registry listens to. Shown: a restarted daemon loads
    what was registered and what the nodes reported last; every older schema reaches the current one; the modules that share one version
    number get in each other's way.
  \<^item> \<open>Bus_Commands\<close>, \<open>Protocol_Thread\<close>: the two halves of
    \<open>zwave-protocol/ProtocolThread.cpp\<close>: every bus command with its encoder, and the session with the dongle. Shown: no command for a secure node
    leaves in plain text; requests are written in queue order and drain; the frames of a read reach the bus in order,
    each once and acknowledged; an inclusion is announced once.
  \<^item> \<open>Pending_Queue\<close>: \<open>pending-queue/PendingQueue.cpp\<close> and
    \<open>orchestrator/WakeUpOrchestrator.cpp\<close>. The locale \<open>node_queue\<close> is interpreted on the table.
    Shown: what was queued comes back once, by priority and then age; a wake-up cycle.
  \<^item> \<open>Interview\<close>, \<open>Inclusion\<close>: the orchestrators of these names. The locale
    \<open>reactor\<close> (a handler of events with an invariant) is interpreted on the interview. Shown: an interview whose reports
    arrive completes whatever comes in between, and not before the node's security is settled; the set-up of a new node.
  \<^item> \<open>Policy_Register\<close>, \<open>Scene_Store\<close>, \<open>Node_Metadata\<close>, \<open>Node_Values\<close>,
    \<open>Span_Store\<close>: the stores of these names with their codecs, the scene orchestrator, the recorder of values and the
    keeper of nonce generators. The locale \<open>keyed_store\<close> (put, get, delete) is interpreted on each table. Shown:
    round trips of the blobs, that merging policies refines overriding a map, replay of scenes, the latest value of
    each kind, restart of the generators and the nonce that is used twice after a second adoption.
  \<^item> \<open>Thermostat\<close>: \<open>orchestrator/ThermostatOrchestrator.cpp\<close>. Shown: the state published last for a
    group is the aggregate of its members.
  \<^item> \<open>Config_File\<close>, \<open>Decimal_Text\<close>: \<open>config/Config.cpp\<close> and numbers as text. Shown: settings
    written in the documented format are read back; any file gives usable settings.
  \<^item> \<open>Dongle_Monitor\<close>: \<open>zwave-dongle/MonitorThread.cpp\<close> over a scripted device manager. Shown: the
    protocol thread knows the dongle that is plugged in, as long as there is one at a time.
  \<^item> \<open>Message_Bus\<close>: \<open>message-bus\<close>, publishing, subscribing and replay with callbacks that publish
    themselves. Shown: an event reaches every subscriber once, in order.
  \<^item> \<open>Key_Files\<close>: \<open>security/s0/NetworkKey.cpp\<close> and \<open>security/s2/NetworkKeys.cpp\<close> over a
    file system with faults; \<open>keyStep\<close> interleaves several daemons on one file. Shown: a key, once loaded, never
    changes, and a whole attempt refines the protocol.
  \<^item> \<open>Logger_Queue\<close>: \<open>logger/Logger.cpp\<close>. Shown: every entry is written before the logger stops.
  \<^item> \<open>External_Api\<close>: the hand-written methods of \<open>external-api/DBusBackend.cpp\<close>. Shown: clients see the
    registry.
  \<^item> \<open>Terminal_Input\<close>, \<open>Terminal_Nodes\<close>, \<open>Terminal_Policy\<close>, \<open>Terminal_Format\<close>,
    \<open>Terminal_View\<close>, \<open>Terminal_Actions\<close>, \<open>Terminal_Signals\<close>: the files \<open>prompts.cpp\<close> and
    \<open>activity.cpp\<close>, \<open>nodes.cpp\<close>, \<open>policy_blob.cpp\<close>, \<open>format.cpp\<close>, \<open>render.cpp\<close>,
    \<open>handlers.cpp\<close>, \<open>signal_handlers.cpp\<close>, as programs of the state monad over one record, the console.
    \<open>daemonProxy\<close> connects them to the modelled methods of the daemon; the locale \<open>override_service\<close> states what the
    policy editor relies on and is interpreted on it. Shown: a policy edited in the client
    changes the one setting at the daemon; panes do not overlap; the chained group queries end for fewer than 255 groups
    and not for 255; a lock mode typed in hexadecimal opens the lock.
  \<^item> \<open>Terminal_Frame\<close>, \<open>Terminal_Main\<close>: what actions leave alone, proved once per primitive and
    composed along the monad, and the main loop of \<open>main.cpp\<close>, interleaved with the signals by
    \<open>clientStep\<close>. Shown: the invariant of the client, that it catches up with the network, when the scene
    editor returns, and which session the stop key stops.

  \<^bold>\<open>How effects are represented.\<close> An operation takes the state of its object and returns it
  updated. An exception-free failure of the code is \<open>None\<close> or a false flag; an access out of range,
  undefined in the program, is the value \<open>Inl OutOfBounds\<close>. Bytes and integers are words of their
  width, so arithmetic wraps where the code's does; \<open>std::size_t\<close> is \<open>nat\<close> because the
  quantities stay below the lengths of vectors. A publication on the bus or a call of a handler is an
  element of the result.

  \<^bold>\<open>Parameters.\<close> What is not under \<open>src\<close> is an argument. The operating system is the record
  \<open>os\<close> of the answers its next calls give, with a monotonic clock that each call advances. The
  crypto library is \<open>libcrypto\<close> for S0 and \<open>libcrypto2\<close> for S2, with the documented
  behaviour as hypotheses where a theorem needs it: OFB is its own inverse, the CBC output has
  the length of its input, \<open>CRYPTO_memcmp\<close> compares exactly, CCM opens what it sealed
  (\<open>ccm_opens\<close>) and nothing else (\<open>ccm_authentic\<close>). Random bytes and the times of the nonce
  table are arguments of the operations that draw them. Every such theorem comes with an instance on
  a concrete stand-in. Nothing is claimed about the strength of the ciphers.

  The rest of the environment is an argument in the same way: the generated codecs of the bus commands, what udev lists
  and reports, the faults of the file system, the answers and keys of the user, the clock, the codes of the arrow keys,
  and the D-Bus proxy. The callback list of eventpp is modelled by its documented behaviour. A table of SQLite is
  a map or an association list of its rows, in the order the queries ask for, with a flag for a database that could
  not be opened.

  \<^bold>\<open>Loops.\<close> No definition uses fuel. Loops over a buffer recurse on it or on an offset that
  grows towards its length; waiting for an acknowledgement ends because the clock advances towards the
  deadline, the retry loop because its counter does; re-entrant unwrapping ends because each hop
  leaves fewer bytes pending (\<open>pendingBytes\<close>). Loops that may not end are partial functions into options
  (\<open>sceneLoop\<close>, \<open>groupLoop\<close>); where they do end is a theorem, and where they do not as well. A dispatch
  of the bus, whose handlers may publish for ever, is a step relation on a stack.

  \<^bold>\<open>Concurrency.\<close> An operation that holds its mutex throughout is one step. Where threads or processes
  meet, the steps interleave: producers and the logger thread, daemons on one key file, the client's loop and its
  signal handlers. Elsewhere the events of a component are handled in the order in which they arrive.

  \<^bold>\<open>Not modelled.\<close> The wrapper around SQLite, process start and termination, the experiment under
  \<open>spike\<close> and the build-time code generator: they are input and output or glue. Code that the build generates
  from \<open>InterfaceManifest.yml\<close> is not in the repository; its byte constants are taken from the manifest. Drawing
  with curses, connecting to the bus, marshalling and the set-up of captured output are calls into libraries. Timing of the
  constant-time comparison and the clearing of memory have no counterpart.
\<close>

end
